(* ===== verification/Prelude.thy ===== *)
theory Prelude
  imports Main
begin

text \<open>
  Shared vocabulary of the development: the errors a request can end in
  (\<^verbatim>\<open>inference_api/errors.py\<close>), the way a handler threads the database
  through its calls (a state function that returns an error or a value, and always the
  state it leaves), tables as lists of rows, and the generic lemmas on them.
  The collection \<open>handler_defs\<close> unfolds the combinators. The locales \<open>step_invariant\<close> and
  \<open>step_fact\<close> carry what single steps keep to all reachable states.
\<close>

named_theorems handler_defs \<open>definitions of the handler combinators\<close>
named_theorems wp \<open>rules of the handler triples\<close>

section \<open>Errors\<close>

text \<open>An HTTP error carries the status code and the machine readable code; \<open>PyExc\<close>
  is a Python exception that is not an \<open>HTTPException\<close>, by its class name.\<close>

datatype error = HttpError nat string | PyExc string

definition unauthorized :: error where
  "unauthorized = HttpError 401 ''unauthorized''"

definition forbidden :: error where
  "forbidden = HttpError 403 ''forbidden''"

definition bad_request :: "string \<Rightarrow> error" where
  "bad_request code = HttpError 400 code"

definition not_found :: error where
  "not_found = HttpError 404 ''not_found''"

definition payment_required :: error where
  "payment_required = HttpError 402 ''payment_required''"

definition service_unavailable :: "string \<Rightarrow> error" where
  "service_unavailable code = HttpError 503 code"

lemmas error_defs =
  unauthorized_def forbidden_def bad_request_def not_found_def payment_required_def
  service_unavailable_def

section \<open>Handlers\<close>

type_synonym ('s, 'a) handler = "'s \<Rightarrow> (error + 'a) \<times> 's"

definition ret :: "'a \<Rightarrow> ('s, 'a) handler" where
  [handler_defs]: "ret x = (\<lambda>s. (Inr x, s))"

definition raise :: "error \<Rightarrow> ('s, 'a) handler" where
  [handler_defs]: "raise e = (\<lambda>s. (Inl e, s))"

definition bind :: "('s, 'a) handler \<Rightarrow> ('a \<Rightarrow> ('s, 'b) handler) \<Rightarrow> ('s, 'b) handler" where
  [handler_defs]: "bind m f = (\<lambda>s. case m s of
     (r, s') \<Rightarrow> (case r of Inl e \<Rightarrow> (Inl e, s') | Inr x \<Rightarrow> f x s'))"

definition gets :: "('s \<Rightarrow> 'a) \<Rightarrow> ('s, 'a) handler" where
  [handler_defs]: "gets f = (\<lambda>s. (Inr (f s), s))"

definition modify :: "('s \<Rightarrow> 's) \<Rightarrow> ('s, unit) handler" where
  [handler_defs]: "modify f = (\<lambda>s. (Inr (), f s))"

text \<open>\<open>then_do\<close> sequences two handlers and drops the first result.\<close>

definition then_do :: "('s, 'a) handler \<Rightarrow> ('s, 'b) handler \<Rightarrow> ('s, 'b) handler" where
  [handler_defs]: "then_do m k = bind m (\<lambda>_. k)"

text \<open>\<open>try m except: h else: k\<close>, with the session of \<open>m\<close> kept.\<close>

definition on_error :: "('s, 'a) handler \<Rightarrow> (error \<Rightarrow> ('s, 'b) handler) \<Rightarrow> ('a \<Rightarrow> ('s, 'b) handler) \<Rightarrow> ('s, 'b) handler" where
  "on_error m h k = (\<lambda>s. case m s of (Inl e, s') \<Rightarrow> h e s' | (Inr x, s') \<Rightarrow> k x s')"

definition guard_or :: "bool \<Rightarrow> error \<Rightarrow> ('s, unit) handler" where
  [handler_defs]: "guard_or b e = (if b then ret () else raise e)"

definition of_result :: "error + 'a \<Rightarrow> ('s, 'a) handler" where
  [handler_defs]: "of_result r = (\<lambda>s. (r, s))"

text \<open>\<open>scalar_one_or_none\<close> and \<open>scalar_one\<close> of a SQLAlchemy result: more rows than
  one raise, and \<open>scalar_one\<close> raises on no row.\<close>

fun scalar_one_or_none :: "'r list \<Rightarrow> error + 'r option" where
  "scalar_one_or_none [] = Inr None"
| "scalar_one_or_none [r] = Inr (Some r)"
| "scalar_one_or_none (r # r' # rs) = Inl (PyExc ''MultipleResultsFound'')"

fun scalar_one :: "'r list \<Rightarrow> error + 'r" where
  "scalar_one [] = Inl (PyExc ''NoResultFound'')"
| "scalar_one [r] = Inr r"
| "scalar_one (r # r' # rs) = Inl (PyExc ''MultipleResultsFound'')"

lemma scalar_one_or_none_Some:
  "scalar_one_or_none rs = Inr (Some r) \<longleftrightarrow> rs = [r]"
  by (cases rs rule: scalar_one_or_none.cases) auto

lemma scalar_one_or_none_None: "scalar_one_or_none rs = Inr None \<longleftrightarrow> rs = []"
  by (cases rs rule: scalar_one_or_none.cases) auto

lemma scalar_one_Inr: "scalar_one rs = Inr r \<longleftrightarrow> rs = [r]"
  by (cases rs rule: scalar_one.cases) auto

text \<open>The two on a \<open>select\<close> over the state, and a \<open>for\<close> loop over a handler.\<close>

definition select_one_or_none :: "('s \<Rightarrow> 'r list) \<Rightarrow> ('s, 'r option) handler" where
  [handler_defs]: "select_one_or_none sel = (\<lambda>s. (scalar_one_or_none (sel s), s))"

definition select_one :: "('s \<Rightarrow> 'r list) \<Rightarrow> ('s, 'r) handler" where
  [handler_defs]: "select_one sel = (\<lambda>s. (scalar_one (sel s), s))"

primrec for_each :: "('a \<Rightarrow> ('s, unit) handler) \<Rightarrow> 'a list \<Rightarrow> ('s, unit) handler" where
  "for_each f [] = ret ()"
| "for_each f (x # xs) = then_do (f x) (for_each f xs)"

lemma bind_Inr: "m s = (Inr x, s') \<Longrightarrow> bind m f s = f x s'"
  by (simp add: bind_def)

lemma bind_Inl: "m s = (Inl e, s') \<Longrightarrow> bind m f s = (Inl e, s')"
  by (simp add: bind_def)

lemma then_Inr: "m s = (Inr x, s') \<Longrightarrow> then_do m k s = k s'"
  by (simp add: then_do_def bind_def)

lemma then_Inl: "m s = (Inl e, s') \<Longrightarrow> then_do m k s = (Inl e, s')"
  by (simp add: then_do_def bind_def)

lemma ret_run [simp]: "ret x s = (Inr x, s)"
  by (simp add: ret_def)

lemma raise_run [simp]: "raise e s = (Inl e, s)"
  by (simp add: raise_def)

lemma gets_run [simp]: "gets f s = (Inr (f s), s)"
  by (simp add: gets_def)

lemma modify_run [simp]: "modify f s = (Inr (), f s)"
  by (simp add: modify_def)

lemma guard_run [simp]: "guard_or b e s = (if b then (Inr (), s) else (Inl e, s))"
  by (simp add: guard_or_def)

lemma bind_ok:
  "bind m f s = (Inr y, s'') \<longleftrightarrow> (\<exists>x s'. m s = (Inr x, s') \<and> f x s' = (Inr y, s''))"
  by (auto simp: bind_def split: prod.splits sum.splits)

lemma then_ok:
  "then_do m k s = (Inr y, s'') \<longleftrightarrow> (\<exists>x s'. m s = (Inr x, s') \<and> k s' = (Inr y, s''))"
  by (simp add: then_do_def bind_ok)

lemma bindE:
  assumes "bind m f s = (Inr y, s'')"
  obtains x s' where "m s = (Inr x, s')" "f x s' = (Inr y, s'')"
  using assms by (auto simp: bind_ok)

lemma thenE:
  assumes "then_do m k s = (Inr y, s'')"
  obtains x s' where "m s = (Inr x, s')" "k s' = (Inr y, s'')"
  using assms by (auto simp: then_ok)

section \<open>Transactions\<close>

text \<open>A route commits at its end; the session of a request that raises is rolled back.\<close>

definition committed :: "('s, 'a) handler \<Rightarrow> ('s, 'a) handler" where
  "committed m = (\<lambda>s. case m s of (Inl e, _) \<Rightarrow> (Inl e, s) | (Inr x, s') \<Rightarrow> (Inr x, s'))"

text \<open>Where an operation commits on its way, the handler runs on what is durable next to what its session
  sees: a commit makes the view durable, and the route keeps the view or falls back.\<close>

definition within :: "('s, 'a) handler \<Rightarrow> ('s \<times> 's, 'a) handler" where
  "within m = (\<lambda>(durable, view). case m view of (r, view') \<Rightarrow> (r, durable, view'))"

definition commit :: "('s \<times> 's, unit) handler" where
  "commit = modify (\<lambda>(_, view). (view, view))"

definition run_session :: "('s \<times> 's, 'a) handler \<Rightarrow> ('s, 'a) handler" where
  "run_session m s = (case m (s, s) of (Inl e, durable, _) \<Rightarrow> (Inl e, durable) | (Inr x, _, view) \<Rightarrow> (Inr x, view))"

section \<open>Rows by key\<close>

text \<open>Writing back a row replaces the row with its key.\<close>

definition replace_by :: "('r \<Rightarrow> 'k) \<Rightarrow> 'r \<Rightarrow> 'r list \<Rightarrow> 'r list" where
  "replace_by key r = map (\<lambda>q. if key q = key r then r else q)"

lemma replace_by_Nil [simp]: "replace_by key r [] = []"
  by (simp add: replace_by_def)

lemma map_replace_by:
  "(\<And>q. q \<in> set rows \<Longrightarrow> key q = key r \<Longrightarrow> g r = g q) \<Longrightarrow> map g (replace_by key r rows) = map g rows"
  by (auto simp: replace_by_def)

lemma keys_replace_by [simp]: "map key (replace_by key r rows) = map key rows"
  by (rule map_replace_by) simp

lemma set_replace_by:
  "set (replace_by key r rows) =
     {q \<in> set rows. key q \<noteq> key r} \<union> (if key r \<in> key ` set rows then {r} else {})"
  by (auto simp: replace_by_def image_iff)

lemma replace_by_absent: "key r \<notin> key ` set rows \<Longrightarrow> replace_by key r rows = rows"
  by (induction rows) (auto simp: replace_by_def)

lemma sum_replace_by:
  fixes f :: "'r \<Rightarrow> 'n :: ab_group_add"
  assumes "distinct (map key rows)" "old \<in> set rows" "key r = key old"
  shows "sum_list (map f (replace_by key r rows)) = sum_list (map f rows) - f old + f r"
  using assms(1,2)
proof (induction rows)
  case (Cons q rows)
  show ?case
  proof (cases "q = old")
    case True
    then have "key r \<notin> key ` set rows" using Cons.prems(1) assms(3) by auto
    then have "replace_by key r rows = rows" by (rule replace_by_absent)
    then show ?thesis using True assms(3) by (simp add: replace_by_def)
  next
    case False
    then have m: "old \<in> set rows" using Cons.prems(2) by simp
    then have "key q \<noteq> key r" using Cons.prems(1) assms(3) by auto
    then show ?thesis using Cons.IH [OF _ m] Cons.prems(1)
      by (simp add: replace_by_def algebra_simps)
  qed
qed simp

lemma filter_by_key:
  assumes "distinct (map key rows)" "r \<in> set rows"
  shows "filter (\<lambda>q. key q = key r) rows = [r]"
  using assms
proof (induction rows)
  case (Cons q rows)
  then show ?case by (cases "q = r") (auto simp: filter_empty_conv image_iff)
qed simp

lemma filter_key_cases:
  assumes "distinct (map key rows)"
  obtains "filter (\<lambda>q. key q = k) rows = []" "k \<notin> key ` set rows"
  | r where "filter (\<lambda>q. key q = k) rows = [r]" "r \<in> set rows" "key r = k"
proof (cases "k \<in> key ` set rows")
  case True
  then obtain r where "r \<in> set rows" "key r = k" by auto
  then show ?thesis using that(2) filter_by_key [OF assms] by blast
next
  case False
  then show ?thesis using that(1) by (auto simp: filter_empty_conv image_iff)
qed

lemma same_key_same_row:
  "distinct (map key rows) \<Longrightarrow> q \<in> set rows \<Longrightarrow> r \<in> set rows \<Longrightarrow> key q = key r \<Longrightarrow> q = r"
  by (simp add: distinct_map inj_on_def)

lemma find_by_key:
  "distinct (map key rows) \<Longrightarrow> r \<in> set rows \<Longrightarrow> find (\<lambda>q. key q = key r) rows = Some r"
  by (induction rows) (auto simp: image_iff)

lemma find_replace_by:
  "find (\<lambda>q. key q = k) (replace_by key r rows) =
     (case find (\<lambda>q. key q = k) rows of None \<Rightarrow> None
      | Some q \<Rightarrow> Some (if key q = key r then r else q))"
  by (induction rows) (auto simp: replace_by_def)

lemma scalar_unique:
  assumes "distinct (map key rows)" "\<And>p. P p \<Longrightarrow> key p = k"
  shows "\<exists>r. scalar_one_or_none (filter P rows) = Inr r"
proof -
  have e: "filter P rows = filter P (filter (\<lambda>q. key q = k) rows)"
    using assms(2) by (auto intro: filter_cong)
  show ?thesis
    unfolding e by (rule filter_key_cases [OF assms(1), of k]) simp_all
qed

lemma scalar_filter_member:
  "scalar_one_or_none (filter P rows) = Inr (Some r) \<Longrightarrow> r \<in> set rows \<and> P r"
  unfolding scalar_one_or_none_Some by (metis filter_eq_Cons_iff in_set_conv_decomp)

lemma scalar_filter_absent:
  "scalar_one_or_none (filter P rows) = Inr None \<Longrightarrow> r \<in> set rows \<Longrightarrow> \<not> P r"
  by (auto simp: scalar_one_or_none_None filter_empty_conv)

lemma find_SomeD: "find P xs = Some x \<Longrightarrow> x \<in> set xs \<and> P x"
  by (induction xs) (auto split: if_splits)

section \<open>JSON values\<close>

text \<open>A finite float is a dyadic fraction \<open>m / 2 ^ e\<close>.\<close>

datatype float_value = Finite int nat | Infinite bool | NotANumber

datatype json =
    JNull
  | JBool bool
  | JInt int
  | JFloat float_value
  | JStr string
  | JList "json list"
  | JObj "(string \<times> json) list"

text \<open>The truth value of a decoded JSON value.\<close>

fun json_true :: "json \<Rightarrow> bool" where
  "json_true JNull = False"
| "json_true (JBool b) = b"
| "json_true (JInt n) = (n \<noteq> 0)"
| "json_true (JFloat (Finite m e)) = (m \<noteq> 0)"
| "json_true (JFloat _) = True"
| "json_true (JStr s) = (s \<noteq> [])"
| "json_true (JList xs) = (xs \<noteq> [])"
| "json_true (JObj d) = (d \<noteq> [])"

section \<open>Triples over handlers\<close>

text \<open>\<open>triple P m Q E\<close>: from a state where \<open>P\<close> holds, a normal return of \<open>m\<close>
  establishes \<open>Q\<close> and an error leaves a state where \<open>E\<close> holds.\<close>

definition triple :: "('s \<Rightarrow> bool) \<Rightarrow> ('s, 'a) handler \<Rightarrow> ('a \<Rightarrow> 's \<Rightarrow> bool) \<Rightarrow> ('s \<Rightarrow> bool) \<Rightarrow> bool"
  where
  "triple P m Q E \<longleftrightarrow>
     (\<forall>s. P s \<longrightarrow> (case m s of (Inl e, s') \<Rightarrow> E s' | (Inr x, s') \<Rightarrow> Q x s'))"

lemma tripleI:
  assumes "\<And>s e s'. P s \<Longrightarrow> m s = (Inl e, s') \<Longrightarrow> E s'"
    and "\<And>s x s'. P s \<Longrightarrow> m s = (Inr x, s') \<Longrightarrow> Q x s'"
  shows "triple P m Q E"
  using assms by (auto simp: triple_def split: prod.splits sum.splits)

lemma tripleD:
  "triple P m Q E \<Longrightarrow> P s \<Longrightarrow> m s = (Inr x, s') \<Longrightarrow> Q x s'"
  by (fastforce simp: triple_def)

lemma tripleD_err:
  "triple P m Q E \<Longrightarrow> P s \<Longrightarrow> m s = (Inl e, s') \<Longrightarrow> E s'"
  by (fastforce simp: triple_def)

lemma triple_bind [wp]:
  assumes "triple P m R E" and "\<And>x. triple (R x) (f x) Q E"
  shows "triple P (bind m f) Q E"
  using assms by (fastforce simp: triple_def bind_def split: prod.splits sum.splits)

lemma triple_then [wp]:
  assumes "triple P m (\<lambda>_. R) E" and "triple R k Q E"
  shows "triple P (then_do m k) Q E"
  unfolding then_do_def using assms by (rule triple_bind)

lemma triple_ret [wp]: "(\<And>s. P s \<Longrightarrow> Q x s) \<Longrightarrow> triple P (ret x) Q E"
  by (simp add: triple_def ret_def)

lemma triple_raise [wp]: "(\<And>s. P s \<Longrightarrow> E s) \<Longrightarrow> triple P (raise e) Q E"
  by (simp add: triple_def raise_def)

lemma triple_gets [wp]: "(\<And>s. P s \<Longrightarrow> Q (f s) s) \<Longrightarrow> triple P (gets f) Q E"
  by (simp add: triple_def gets_def)

lemma triple_modify [wp]: "(\<And>s. P s \<Longrightarrow> Q () (f s)) \<Longrightarrow> triple P (modify f) Q E"
  by (simp add: triple_def modify_def)

lemma triple_guard [wp]:
  "(\<And>s. P s \<Longrightarrow> b \<Longrightarrow> Q () s) \<Longrightarrow> (\<And>s. P s \<Longrightarrow> E s) \<Longrightarrow> triple P (guard_or b e) Q E"
  by (simp add: triple_def guard_or_def ret_def raise_def)

lemma triple_of_result [wp]:
  "(\<And>s x. P s \<Longrightarrow> r = Inr x \<Longrightarrow> Q x s) \<Longrightarrow> (\<And>s. P s \<Longrightarrow> E s) \<Longrightarrow> triple P (of_result r) Q E"
  by (auto simp: triple_def of_result_def split: sum.splits)

lemma triple_on_error:
  assumes "triple P m R F" and "\<And>e. triple F (h e) Q E" and "\<And>x. triple (R x) (k x) Q E"
  shows "triple P (on_error m h k) Q E"
  using assms by (fastforce simp: triple_def on_error_def split: prod.splits sum.splits)

lemma triple_if [wp]:
  "(b \<Longrightarrow> triple P m Q E) \<Longrightarrow> (\<not> b \<Longrightarrow> triple P k Q E) \<Longrightarrow> triple P (if b then m else k) Q E"
  by simp

lemma triple_conseq:
  assumes "triple P' m Q' E'" and "\<And>s. P s \<Longrightarrow> P' s" and "\<And>x s. Q' x s \<Longrightarrow> Q x s"
    and "\<And>s. E' s \<Longrightarrow> E s"
  shows "triple P m Q E"
  using assms by (fastforce simp: triple_def split: prod.splits sum.splits)

lemma triple_for_each:
  assumes "\<And>x. x \<in> set xs \<Longrightarrow> triple P (f x) (\<lambda>_. P) E"
  shows "triple P (for_each f xs) (\<lambda>_. P) E"
  using assms
proof (induction xs)
  case Nil
  show ?case unfolding for_each.simps by (rule triple_ret)
next
  case (Cons x xs)
  show ?case
    unfolding for_each.simps
    by (rule triple_then [where R = P]) (use Cons in simp_all)
qed

lemma triple_select [wp]:
  "(\<And>s x. P s \<Longrightarrow> scalar_one (sel s) = Inr x \<Longrightarrow> Q x s) \<Longrightarrow> (\<And>s. P s \<Longrightarrow> E s)
    \<Longrightarrow> triple P (select_one sel) Q E"
  by (auto simp: triple_def select_one_def split: sum.splits)

lemma triple_select_or_none [wp]:
  "(\<And>s x. P s \<Longrightarrow> scalar_one_or_none (sel s) = Inr x \<Longrightarrow> Q x s) \<Longrightarrow> (\<And>s. P s \<Longrightarrow> E s)
    \<Longrightarrow> triple P (select_one_or_none sel) Q E"
  by (auto simp: triple_def select_one_or_none_def split: sum.splits)

lemma triple_assume: "(\<And>s. P s \<Longrightarrow> triple (\<lambda>t. t = s) m Q E) \<Longrightarrow> triple P m Q E"
  by (fastforce simp: triple_def)

section \<open>The interface: invariants of a step relation\<close>

locale step_invariant =
  fixes step :: "'s \<Rightarrow> 's \<Rightarrow> bool" and inv :: "'s \<Rightarrow> bool"
  assumes keeps: "inv s \<Longrightarrow> step s s' \<Longrightarrow> inv s'"
begin

lemma reachable: "step\<^sup>*\<^sup>* s s' \<Longrightarrow> inv s \<Longrightarrow> inv s'"
  by (induction rule: rtranclp_induct) (auto intro: keeps)

end

locale step_fact = step_invariant +
  fixes fact :: "'s \<Rightarrow> bool"
  assumes fact_keeps: "inv s \<Longrightarrow> fact s \<Longrightarrow> step s s' \<Longrightarrow> fact s'"
begin

lemma fact_reachable: "step\<^sup>*\<^sup>* s s' \<Longrightarrow> inv s \<Longrightarrow> fact s \<Longrightarrow> fact s'"
  by (induction rule: rtranclp_induct) (auto intro: fact_keeps reachable)

end

end
