(* ===== verification/Calendar.thy ===== *)
theory Calendar
  imports Prelude
begin

text \<open>
  Time. A UTC \<open>datetime\<close> is its number of microseconds since 0001-01-01T00:00; the
  civil fields are the proleptic Gregorian calendar of Python's \<open>datetime\<close>
  (\<open>toordinal\<close>, \<open>fromordinal\<close>, \<open>weekday\<close>, \<open>calendar.monthrange\<close>). The year
  is unbounded here; Python raises \<open>OverflowError\<close> beyond year 9999. The main fact is
  \<open>civil_decode\<close>: the fields read off an instant encode back to its day.
\<close>

type_synonym time = int

section \<open>The proleptic Gregorian calendar\<close>

definition is_leap :: "int \<Rightarrow> bool" where
  "is_leap y \<longleftrightarrow> y mod 4 = 0 \<and> (y mod 100 \<noteq> 0 \<or> y mod 400 = 0)"

definition days_before_year :: "int \<Rightarrow> int" where
  "days_before_year y = (y - 1) * 365 + (y - 1) div 4 - (y - 1) div 100 + (y - 1) div 400"

definition leap_day :: "int \<Rightarrow> int" where
  "leap_day y = (if is_leap y then 1 else 0)"

definition days_in_month :: "int \<Rightarrow> int \<Rightarrow> int" where
  "days_in_month y m =
     (if m = 2 then 28 + leap_day y else if m = 4 \<or> m = 6 \<or> m = 9 \<or> m = 11 then 30 else 31)"

definition days_before_month :: "int \<Rightarrow> int \<Rightarrow> int" where
  "days_before_month y m =
     (if m \<le> 1 then 0 else if m = 2 then 31
      else leap_day y +
        (if m = 3 then 59 else if m = 4 then 90 else if m = 5 then 120 else if m = 6 then 151
         else if m = 7 then 181 else if m = 8 then 212 else if m = 9 then 243
         else if m = 10 then 273 else if m = 11 then 304 else 334))"

definition to_ordinal :: "int \<Rightarrow> int \<Rightarrow> int \<Rightarrow> int" where
  "to_ordinal y m d = days_before_year y + days_before_month y m + d"

function year_search :: "int \<Rightarrow> int \<Rightarrow> int" where
  "year_search n y = (if y \<le> 1 \<or> days_before_year y < n then y else year_search n (y - 1))"
  by pat_completeness auto
termination
  by (relation "measure (\<lambda>(n, y). nat y)") auto

declare year_search.simps [simp del]

definition ordinal_year :: "int \<Rightarrow> int" where
  "ordinal_year n = year_search n (n div 365 + 1)"

definition month_search :: "int \<Rightarrow> int \<Rightarrow> int" where
  "month_search y r = hd (filter (\<lambda>m. days_before_month y m < r) [12, 11, 10, 9, 8, 7, 6, 5, 4, 3, 2, 1])"

definition ordinal_month :: "int \<Rightarrow> int" where
  "ordinal_month n = (let y = ordinal_year n in month_search y (n - days_before_year y))"

definition ordinal_day :: "int \<Rightarrow> int" where
  "ordinal_day n =
     (let y = ordinal_year n; m = ordinal_month n
      in n - days_before_year y - days_before_month y m)"

section \<open>Instants\<close>

definition second_us :: int where "second_us = 1000000"

definition day_us :: int where "day_us = 86400 * 1000000"

text \<open>\<open>datetime(year, month, day, hour, minute, second, tzinfo=UTC)\<close>.\<close>

definition mk_datetime :: "int \<Rightarrow> int \<Rightarrow> int \<Rightarrow> int \<Rightarrow> int \<Rightarrow> int \<Rightarrow> time" where
  "mk_datetime y m d h mi s =
     (to_ordinal y m d - 1) * day_us + (h * 3600 + mi * 60 + s) * second_us"

definition ordinal_of :: "time \<Rightarrow> int" where
  "ordinal_of t = t div day_us + 1"

definition year_of :: "time \<Rightarrow> int" where "year_of t = ordinal_year (ordinal_of t)"
definition month_of :: "time \<Rightarrow> int" where "month_of t = ordinal_month (ordinal_of t)"
definition day_of :: "time \<Rightarrow> int" where "day_of t = ordinal_day (ordinal_of t)"
definition hour_of :: "time \<Rightarrow> int" where "hour_of t = t mod day_us div (3600 * second_us)"
definition minute_of :: "time \<Rightarrow> int" where
  "minute_of t = t mod (3600 * second_us) div (60 * second_us)"
definition second_of :: "time \<Rightarrow> int" where
  "second_of t = t mod (60 * second_us) div second_us"

text \<open>\<open>datetime.weekday()\<close>: Monday is 0.\<close>

definition weekday_of :: "time \<Rightarrow> int" where
  "weekday_of t = (ordinal_of t + 6) mod 7"

section \<open>Encoding and decoding agree\<close>

lemma div_step: "0 < k \<Longrightarrow> (a :: int) div k = (a - 1) div k + (if a mod k = 0 then 1 else 0)"
proof -
  assume k: "0 < k"
  show ?thesis
  proof (cases "a mod k = 0")
    case True
    then obtain c where c: "a = k * c" by auto
    have "(k * c - 1) div k = c - 1"
      using k by (intro int_div_pos_eq [where r = "k - 1"]) (auto simp: algebra_simps)
    with c k True show ?thesis by simp
  next
    case False
    have "0 \<le> a mod k" using k by simp
    with False have "1 \<le> a mod k" by linarith
    moreover have "a mod k < k" using k by simp
    moreover have "a - 1 = k * (a div k) + (a mod k - 1)" by (simp add: algebra_simps)
    ultimately have "(a - 1) div k = a div k"
      by (intro int_div_pos_eq [where r = "a mod k - 1"]) auto
    with False show ?thesis by simp
  qed
qed

lemma days_before_year_Suc: "days_before_year (y + 1) = days_before_year y + 365 + leap_day y"
proof -
  have m: "y mod 400 = 0 \<Longrightarrow> y mod 100 = 0" "y mod 100 = 0 \<Longrightarrow> y mod 4 = 0" by presburger+
  define a b c where abc: "a = (y - 1) div 4" "b = (y - 1) div 100" "c = (y - 1) div 400"
  have "y div 4 = a + (if y mod 4 = 0 then 1 else 0)"
    "y div 100 = b + (if y mod 100 = 0 then 1 else 0)"
    "y div 400 = c + (if y mod 400 = 0 then 1 else 0)"
    unfolding abc by (rule div_step, simp)+
  moreover have "days_before_year (y + 1) = y * 365 + y div 4 - y div 100 + y div 400"
    unfolding days_before_year_def add_diff_cancel_right' by (rule refl)
  moreover have "days_before_year y = (y - 1) * 365 + a - b + c"
    by (simp only: days_before_year_def abc)
  ultimately have "days_before_year (y + 1) =
      days_before_year y + 365 + (if y mod 4 = 0 then 1 else 0)
        - (if y mod 100 = 0 then 1 else 0) + (if y mod 400 = 0 then 1 else 0)"
    by (simp only: left_diff_distrib)
  moreover have "(if p then 1 else 0) - (if q then 1 else 0) + (if r then 1 else (0::int))
      = (if p \<and> (\<not> q \<or> r) then 1 else 0)" if "r \<longrightarrow> q" "q \<longrightarrow> p" for p q r
    using that by (cases p; cases q; cases r) simp_all
  from this [of "y mod 400 = 0" "y mod 100 = 0" "y mod 4 = 0"] m
  have "(if y mod 4 = 0 then 1 else 0) - (if y mod 100 = 0 then 1 else 0)
      + (if y mod 400 = 0 then 1 else (0::int)) = leap_day y"
    unfolding leap_day_def is_leap_def by blast
  ultimately show ?thesis by linarith
qed

lemma leap_day_bounds: "0 \<le> leap_day y" "leap_day y \<le> 1"
  by (simp_all add: leap_day_def)

lemma days_before_year_less:
  assumes "y < y'" shows "days_before_year y + 365 + leap_day y \<le> days_before_year y'"
proof -
  have "days_before_year (y + 1) \<le> days_before_year (y + 1 + int k)" for k
  proof (induction k)
    case (Suc k)
    have "days_before_year (y + 1 + int k) \<le> days_before_year (y + 1 + int k + 1)"
      using days_before_year_Suc [of "y + 1 + int k"] leap_day_bounds [of "y + 1 + int k"] by linarith
    with Suc show ?case by (simp add: algebra_simps)
  qed simp
  from this [of "nat (y' - y - 1)"] assms show ?thesis
    by (simp add: days_before_year_Suc)
qed

lemma year_search_upper:
  "n \<le> days_before_year (y + 1) \<Longrightarrow> n \<le> days_before_year (year_search n y + 1)"
proof (induction n y rule: year_search.induct)
  case (1 n y)
  show ?case
  proof (cases "y \<le> 1 \<or> days_before_year y < n")
    case True
    with 1 show ?thesis by (simp add: year_search.simps [of n y])
  next
    case False
    then have "n \<le> days_before_year (y - 1 + 1)" by simp
    with 1 False show ?thesis by (simp add: year_search.simps [of n y])
  qed
qed

lemma year_search_lower: "1 \<le> n \<Longrightarrow> 1 \<le> y \<Longrightarrow> days_before_year (year_search n y) < n"
proof (induction n y rule: year_search.induct)
  case (1 n y)
  show ?case
  proof (cases "y \<le> 1 \<or> days_before_year y < n")
    case True
    with 1 show ?thesis by (auto simp: year_search.simps [of n y] days_before_year_def)
  next
    case False
    with 1 show ?thesis by (simp add: year_search.simps [of n y])
  qed
qed

lemma ordinal_year_bounds:
  assumes "1 \<le> n"
  shows "days_before_year (ordinal_year n) < n" "n \<le> days_before_year (ordinal_year n + 1)"
proof -
  let ?y = "n div 365 + 1"
  have y: "1 \<le> ?y" using assms by (simp add: pos_imp_zdiv_nonneg_iff)
  have "n \<le> days_before_year (?y + 1)"
  proof -
    have e: "n div 365 + 1 + 1 - 1 = ?y" by simp
    have "?y div 100 \<le> ?y div 4" "0 \<le> ?y div 400" using y by linarith+
    moreover have "n \<le> ?y * 365" by presburger
    ultimately show ?thesis unfolding days_before_year_def e by linarith
  qed
  then show "n \<le> days_before_year (ordinal_year n + 1)"
    unfolding ordinal_year_def by (rule year_search_upper)
  show "days_before_year (ordinal_year n) < n"
    unfolding ordinal_year_def using assms y by (rule year_search_lower)
qed

lemma month_cases:
  assumes "1 \<le> (m::int)" "m \<le> 12"
  shows "m \<in> {1, 2, 3, 4, 5, 6, 7, 8, 9, 10, 11, 12}"
  using assms by simp presburger

lemma month_search_bounds:
  assumes "0 < r" "r \<le> 365 + leap_day y"
  shows "month_search y r \<in> {1..12}"
    and "days_before_month y (month_search y r) < r"
    and "r \<le> days_before_month y (month_search y r) + days_in_month y (month_search y r)"
  using assms leap_day_bounds [of y]
  by (auto simp: month_search_def days_before_month_def days_in_month_def)

lemma civil_decode_ordinal:
  assumes "1 \<le> n"
  shows "ordinal_month n \<in> {1..12}"
    and "1 \<le> ordinal_day n" and "ordinal_day n \<le> days_in_month (ordinal_year n) (ordinal_month n)"
    and "to_ordinal (ordinal_year n) (ordinal_month n) (ordinal_day n) = n"
proof -
  let ?y = "ordinal_year n"
  have r: "0 < n - days_before_year ?y" "n - days_before_year ?y \<le> 365 + leap_day ?y"
    using ordinal_year_bounds [OF assms] by (simp_all add: days_before_year_Suc)
  note b = month_search_bounds [OF r]
  show "ordinal_month n \<in> {1..12}" using b(1) by (simp add: ordinal_month_def Let_def)
  show "1 \<le> ordinal_day n" using b(2) by (simp add: ordinal_day_def ordinal_month_def Let_def)
  show "ordinal_day n \<le> days_in_month ?y (ordinal_month n)"
    using b(3) by (simp add: ordinal_day_def ordinal_month_def Let_def)
  show "to_ordinal ?y (ordinal_month n) (ordinal_day n) = n"
    by (simp add: to_ordinal_def ordinal_day_def Let_def)
qed

definition valid_civil :: "int \<Rightarrow> int \<Rightarrow> int \<Rightarrow> bool" where
  "valid_civil y m d \<longleftrightarrow> m \<in> {1..12} \<and> 1 \<le> d \<and> d \<le> days_in_month y m"

definition month_before :: "int \<Rightarrow> int \<Rightarrow> int \<Rightarrow> int \<Rightarrow> bool" where
  "month_before y m y' m' \<longleftrightarrow> y < y' \<or> y = y' \<and> m < m'"

lemma days_before_month_less:
  assumes "m \<in> {1..12}" "m' \<in> {1..12}" "m < m'"
  shows "days_before_month y m + days_in_month y m \<le> days_before_month y m'"
  using assms leap_day_bounds [of y]
  by (auto simp: days_before_month_def days_in_month_def) presburger+

lemma month_days_in_year:
  assumes "m \<in> {1..12}"
  shows "0 \<le> days_before_month y m"
    and "days_before_month y m + days_in_month y m \<le> 365 + leap_day y"
  using assms leap_day_bounds [of y] by (auto simp: days_before_month_def days_in_month_def)

lemma to_ordinal_month_before:
  assumes "valid_civil y m d" "valid_civil y' m' d'" "month_before y m y' m'"
  shows "to_ordinal y m d < to_ordinal y' m' d'"
proof (cases "y < y'")
  case True
  have "days_before_month y m + d \<le> 365 + leap_day y"
    using assms(1) month_days_in_year(2) [of m y] by (simp add: valid_civil_def)
  moreover have "0 \<le> days_before_month y' m'"
    using assms(2) month_days_in_year(1) [of m' y'] by (simp add: valid_civil_def)
  ultimately show ?thesis
    using days_before_year_less [OF True] assms(2) by (simp add: to_ordinal_def valid_civil_def)
next
  case False
  with assms(3) have "y = y'" "m < m'" by (auto simp: month_before_def)
  with assms(1,2) days_before_month_less [of m m' y] show ?thesis
    by (simp add: to_ordinal_def valid_civil_def)
qed

lemma to_ordinal_inject:
  assumes "valid_civil y m d" "valid_civil y' m' d'" "to_ordinal y m d = to_ordinal y' m' d'"
  shows "y = y' \<and> m = m' \<and> d = d'"
proof -
  have "\<not> month_before y m y' m'" "\<not> month_before y' m' y m"
    using to_ordinal_month_before assms by fastforce+
  then have "y = y'" "m = m'" by (auto simp: month_before_def)
  with assms(3) show ?thesis by (simp add: to_ordinal_def)
qed

lemma to_ordinal_pos:
  assumes "1 \<le> y" "valid_civil y m d" shows "1 \<le> to_ordinal y m d"
proof -
  have "0 \<le> days_before_year y"
  proof (cases "1 < y")
    case True
    then show ?thesis using days_before_year_less [OF True] leap_day_bounds [of 1]
      by (simp add: days_before_year_def [of 1])
  next
    case False
    with assms(1) have "y = 1" by simp
    then show ?thesis by (simp add: days_before_year_def)
  qed
  with assms(2) month_days_in_year(1) [of m y] show ?thesis
    by (simp add: to_ordinal_def valid_civil_def)
qed

lemma civil_of_to_ordinal:
  assumes "1 \<le> y" "valid_civil y m d"
  shows "ordinal_year (to_ordinal y m d) = y" "ordinal_month (to_ordinal y m d) = m"
    "ordinal_day (to_ordinal y m d) = d"
proof -
  let ?n = "to_ordinal y m d"
  note b = civil_decode_ordinal [OF to_ordinal_pos [OF assms]]
  have "valid_civil (ordinal_year ?n) (ordinal_month ?n) (ordinal_day ?n)"
    using b(1-3) by (simp add: valid_civil_def)
  from to_ordinal_inject [OF this assms(2) b(4)]
  show "ordinal_year ?n = y" "ordinal_month ?n = m" "ordinal_day ?n = d" by simp_all
qed

section \<open>Instants and their fields\<close>

lemma us_pos [simp]: "0 < day_us" "0 < second_us"
  by (simp_all add: day_us_def second_us_def)

lemma time_split: "t = (ordinal_of t - 1) * day_us + t mod day_us"
  by (simp add: ordinal_of_def)

lemma ordinal_of_pos: "0 \<le> t \<Longrightarrow> 1 \<le> ordinal_of t"
  by (simp add: ordinal_of_def pos_imp_zdiv_nonneg_iff)

theorem civil_decode:
  assumes "0 \<le> t"
  shows "valid_civil (year_of t) (month_of t) (day_of t)"
    and "to_ordinal (year_of t) (month_of t) (day_of t) = ordinal_of t"
  using civil_decode_ordinal [OF ordinal_of_pos [OF assms]]
  by (simp_all add: valid_civil_def year_of_def month_of_def day_of_def)

definition clock_ok :: "int \<Rightarrow> int \<Rightarrow> int \<Rightarrow> bool" where
  "clock_ok h mi s \<longleftrightarrow> 0 \<le> h \<and> h < 24 \<and> 0 \<le> mi \<and> mi < 60 \<and> 0 \<le> s \<and> s < 60"

lemma clock_ok_of: "clock_ok (hour_of t) (minute_of t) (second_of t)"
proof -
  have "0 \<le> t mod day_us" "t mod day_us < day_us" by simp_all
  moreover have "0 \<le> t mod (3600 * second_us)" "t mod (3600 * second_us) < 3600 * second_us"
    "0 \<le> t mod (60 * second_us)" "t mod (60 * second_us) < 60 * second_us"
    by (simp_all add: second_us_def)
  ultimately show ?thesis
    unfolding clock_ok_def hour_of_def minute_of_def second_of_def day_us_def second_us_def
    by (auto simp: pos_imp_zdiv_nonneg_iff div_less_iff_less_mult)
qed

lemma clock_us_bounds:
  assumes "clock_ok h mi s"
  shows "0 \<le> (h * 3600 + mi * 60 + s) * second_us" "(h * 3600 + mi * 60 + s) * second_us < day_us"
  using assms by (simp_all add: clock_ok_def second_us_def day_us_def)

lemma ordinal_of_mk_datetime:
  assumes "clock_ok h mi s" shows "ordinal_of (mk_datetime y m d h mi s) = to_ordinal y m d"
proof -
  have "mk_datetime y m d h mi s div day_us = to_ordinal y m d - 1"
    unfolding mk_datetime_def using clock_us_bounds [OF assms]
    by (intro int_div_pos_eq [where r = "(h * 3600 + mi * 60 + s) * second_us"]) (simp_all add: mult.commute)
  then show ?thesis by (simp add: ordinal_of_def)
qed

lemma fields_of_mk_datetime:
  assumes "1 \<le> y" "valid_civil y m d" "clock_ok h mi s"
  shows "year_of (mk_datetime y m d h mi s) = y" "month_of (mk_datetime y m d h mi s) = m"
    "day_of (mk_datetime y m d h mi s) = d"
  using civil_of_to_ordinal [OF assms(1,2)]
  by (simp_all add: year_of_def month_of_def day_of_def ordinal_of_mk_datetime [OF assms(3)])

lemma ordinal_less_time: "ordinal_of t < ordinal_of t' \<Longrightarrow> t < t'"
proof -
  assume "ordinal_of t < ordinal_of t'"
  then have "t div day_us < t' div day_us" by (simp add: ordinal_of_def)
  then show "t < t'" by (meson not_le us_pos(1) zdiv_mono1)
qed

lemma mk_datetime_nonneg:
  assumes "1 \<le> y" "valid_civil y m d" "clock_ok h mi s" shows "0 \<le> mk_datetime y m d h mi s"
proof -
  have "0 \<le> (to_ordinal y m d - 1) * day_us"
    using to_ordinal_pos [OF assms(1,2)] us_pos(1) by (intro mult_nonneg_nonneg) linarith+
  with clock_us_bounds(1) [OF assms(3)] show ?thesis unfolding mk_datetime_def by linarith
qed

lemma midnight_bounds:
  assumes "0 \<le> t"
  shows "mk_datetime (year_of t) (month_of t) (day_of t) 0 0 0 \<le> t"
    and "t < mk_datetime (year_of t) (month_of t) (day_of t) 0 0 0 + day_us"
proof -
  have e: "mk_datetime (year_of t) (month_of t) (day_of t) 0 0 0 = (ordinal_of t - 1) * day_us"
    by (simp add: mk_datetime_def civil_decode(2) [OF assms])
  have "0 \<le> t mod day_us" "t mod day_us < day_us" by simp_all
  with time_split [of t]
  show "mk_datetime (year_of t) (month_of t) (day_of t) 0 0 0 \<le> t"
    and "t < mk_datetime (year_of t) (month_of t) (day_of t) 0 0 0 + day_us"
    unfolding e by linarith+
qed

end
