(* ===== verification/Periods.thy ===== *)
theory Periods
  imports Calendar
begin

text \<open>
  Usage periods: the window functions of \<^verbatim>\<open>inference_api/usage.py\<close> (account
  creation, calendar month, weekly) and the spend-cap windows of
  \<^verbatim>\<open>inference_api/key_limits.py\<close>. The locale \<open>window_rule\<close> is what the
  accounting needs of a window function: the current instant lies inside its window. It is
  interpreted on every window function of the code.
\<close>

section \<open>Configuration\<close>

text \<open>The fields of \<^verbatim>\<open>Settings\<close> the serving plane's accounting reads.\<close>

datatype reset_mode = AccountCreation | CalendarMonth | Weekly

record settings =
  api_key_usd_cents_per_million_credits :: int
  router_reservation_ttl_seconds :: int
  token_reset_mode :: reset_mode
  token_reset_day :: int
  token_reset_weekday :: int
  free_monthly_token_allowance :: int

text \<open>The bounds the \<^verbatim>\<open>Field(ge=..., le=...)\<close> declarations enforce at start-up.\<close>

definition settings_ok :: "settings \<Rightarrow> bool" where
  "settings_ok cfg \<longleftrightarrow>
     1 \<le> api_key_usd_cents_per_million_credits cfg \<and>
     60 \<le> router_reservation_ttl_seconds cfg \<and> router_reservation_ttl_seconds cfg \<le> 86400 \<and>
     1 \<le> token_reset_day cfg \<and> token_reset_day cfg \<le> 28 \<and>
     0 \<le> token_reset_weekday cfg \<and> token_reset_weekday cfg \<le> 6 \<and>
     0 \<le> free_monthly_token_allowance cfg"

section \<open>Period windows\<close>

definition next_month :: "int \<Rightarrow> int \<Rightarrow> int \<times> int" where
  "next_month year month = (if month = 12 then (year + 1, 1) else (year, month + 1))"

definition previous_month :: "int \<Rightarrow> int \<Rightarrow> int \<times> int" where
  "previous_month year month = (if month = 1 then (year - 1, 12) else (year, month - 1))"

definition month_anchor :: "time \<Rightarrow> int \<Rightarrow> int \<Rightarrow> int \<Rightarrow> int \<Rightarrow> time" where
  "month_anchor now day hour minute second =
     (let max_day = days_in_month (year_of now) (month_of now)
      in mk_datetime (year_of now) (month_of now) (min day max_day) hour minute second)"

definition account_creation_period :: "time \<Rightarrow> time \<Rightarrow> time \<times> time" where
  "account_creation_period created current =
     (let anchor = (\<lambda>context. month_anchor context (day_of created)
                       (hour_of created) (minute_of created) (second_of created));
          start0 = anchor current;
          start = (if start0 > current then
                     (case previous_month (year_of start0) (month_of start0) of
                        (year, month) \<Rightarrow> anchor (mk_datetime year month 1 0 0 0))
                   else start0);
          end = (case next_month (year_of start) (month_of start) of
                   (year, month) \<Rightarrow> anchor (mk_datetime year month 1 0 0 0))
      in (start, end))"

definition calendar_month_period :: "settings \<Rightarrow> time \<Rightarrow> time \<times> time" where
  "calendar_month_period cfg current =
     (let anchor = (\<lambda>context. month_anchor context (token_reset_day cfg) 0 0 0);
          start0 = anchor current;
          start = (if start0 > current then
                     (case previous_month (year_of start0) (month_of start0) of
                        (year, month) \<Rightarrow> anchor (mk_datetime year month 1 0 0 0))
                   else start0);
          end = (case next_month (year_of start) (month_of start) of
                   (year, month) \<Rightarrow> anchor (mk_datetime year month 1 0 0 0))
      in (start, end))"

definition weekly_period :: "settings \<Rightarrow> time \<Rightarrow> time \<times> time" where
  "weekly_period cfg current =
     (let midnight = mk_datetime (year_of current) (month_of current) (day_of current) 0 0 0;
          days_since_anchor = (weekday_of midnight - token_reset_weekday cfg) mod 7;
          start = midnight - days_since_anchor * day_us
      in (start, start + 7 * day_us))"

text \<open>\<open>limit_window\<close> of \<^verbatim>\<open>key_limits.py\<close>: no bounds for a lifetime cap.\<close>

definition limit_window :: "string option \<Rightarrow> time \<Rightarrow> time option \<times> time option" where
  "limit_window period current =
     (if period = Some ''daily'' then
        (let start = mk_datetime (year_of current) (month_of current) (day_of current) 0 0 0
         in (Some start, Some (start + day_us)))
      else if period = Some ''monthly'' then
        (let start = mk_datetime (year_of current) (month_of current) 1 0 0 0
         in if month_of current = 12
            then (Some start, Some (mk_datetime (year_of current + 1) 1 1 0 0 0))
            else (Some start, Some (mk_datetime (year_of current) (month_of current + 1) 1 0 0 0)))
      else (None, None))"

section \<open>Month arithmetic\<close>

lemma valid_civil_clip:
  assumes "m \<in> {1..12}" "1 \<le> d" shows "valid_civil y m (min d (days_in_month y m))"
  using assms leap_day_bounds [of y] by (auto simp: valid_civil_def days_in_month_def min_def)

lemma valid_civil_first: "m \<in> {1..12} \<Longrightarrow> valid_civil y m 1"
  using valid_civil_clip [of m 1 y] leap_day_bounds [of y]
  by (auto simp: valid_civil_def days_in_month_def)

lemma next_month_props:
  assumes "m \<in> {1..12}" "next_month y m = (y', m')"
  shows "m' \<in> {1..12}" "y \<le> y'" "month_before y m y' m'" "previous_month y' m' = (y, m)"
  using assms by (auto simp: next_month_def previous_month_def month_before_def split: if_splits)

lemma previous_month_props:
  assumes "m \<in> {1..12}" "previous_month y m = (y', m')"
  shows "m' \<in> {1..12}" "y - 1 \<le> y'" "month_before y' m' y m" "next_month y' m' = (y, m)"
  using assms by (auto simp: next_month_def previous_month_def month_before_def split: if_splits)

text \<open>The anchor of the month \<open>(y, m)\<close> for a given day of month and clock time.\<close>

definition anchor_in :: "int \<Rightarrow> int \<Rightarrow> int \<Rightarrow> int \<Rightarrow> int \<Rightarrow> int \<Rightarrow> time" where
  "anchor_in d h mi s y m = mk_datetime y m (min d (days_in_month y m)) h mi s"

lemma anchor_of_first:
  assumes "1 \<le> y" "m \<in> {1..12}"
  shows "month_anchor (mk_datetime y m 1 0 0 0) d h mi s = anchor_in d h mi s y m"
  using fields_of_mk_datetime [OF assms(1) valid_civil_first [OF assms(2)], of 0 0 0]
  by (simp add: month_anchor_def anchor_in_def Let_def clock_ok_def)

lemma anchor_fields:
  assumes "1 \<le> y" "m \<in> {1..12}" "1 \<le> d" "clock_ok h mi s"
  shows "year_of (anchor_in d h mi s y m) = y" "month_of (anchor_in d h mi s y m) = m"
  unfolding anchor_in_def
  using fields_of_mk_datetime [OF assms(1) valid_civil_clip [OF assms(2,3)] assms(4)] by simp_all

lemma anchor_less:
  assumes "m \<in> {1..12}" "m' \<in> {1..12}" "1 \<le> d" "clock_ok h mi s" "month_before y m y' m'"
    and "valid_civil y' m' d'" "clock_ok h' mi' s'"
  shows "anchor_in d h mi s y m < mk_datetime y' m' d' h' mi' s'"
proof (rule ordinal_less_time)
  show "ordinal_of (anchor_in d h mi s y m) < ordinal_of (mk_datetime y' m' d' h' mi' s')"
    unfolding anchor_in_def ordinal_of_mk_datetime [OF assms(4)] ordinal_of_mk_datetime [OF assms(7)]
    by (rule to_ordinal_month_before [OF valid_civil_clip [OF assms(1,3)] assms(6,5)])
qed

lemma instant_before_anchor:
  assumes "0 \<le> t" "m \<in> {1..12}" "1 \<le> d" "clock_ok h mi s" "month_before (year_of t) (month_of t) y m"
  shows "t < anchor_in d h mi s y m"
proof (rule ordinal_less_time)
  show "ordinal_of t < ordinal_of (anchor_in d h mi s y m)"
    unfolding anchor_in_def ordinal_of_mk_datetime [OF assms(4)] civil_decode(2) [OF assms(1), symmetric]
    by (rule to_ordinal_month_before [OF civil_decode(1) [OF assms(1)] valid_civil_clip [OF assms(2,3)] assms(5)])
qed

lemma anchor_before_instant:
  assumes "0 \<le> t" "m \<in> {1..12}" "1 \<le> d" "clock_ok h mi s" "month_before y m (year_of t) (month_of t)"
  shows "anchor_in d h mi s y m < t"
proof (rule ordinal_less_time)
  show "ordinal_of (anchor_in d h mi s y m) < ordinal_of t"
    unfolding anchor_in_def ordinal_of_mk_datetime [OF assms(4)] civil_decode(2) [OF assms(1), symmetric]
    by (rule to_ordinal_month_before [OF valid_civil_clip [OF assms(2,3)] civil_decode(1) [OF assms(1)] assms(5)])
qed

text \<open>The instants the windows are computed for: from the year 2 on, so that the previous
  month is a month of the calendar.\<close>

definition dated :: "time \<Rightarrow> bool" where
  "dated t \<longleftrightarrow> 365 * day_us \<le> t"

lemma dated_nonneg: "dated t \<Longrightarrow> 0 \<le> t"
  unfolding dated_def day_us_def by simp

lemma dated_year:
  assumes "dated t" shows "2 \<le> year_of t"
proof (rule ccontr)
  assume "\<not> 2 \<le> year_of t"
  then have y: "year_of t \<le> 1" by simp
  have v: "valid_civil (year_of t) (month_of t) (day_of t)"
    and o: "to_ordinal (year_of t) (month_of t) (day_of t) = ordinal_of t"
    using civil_decode [OF dated_nonneg [OF assms]] by simp_all
  have "ordinal_of t \<le> days_before_year (year_of t) + 365 + leap_day (year_of t)"
    using v month_days_in_year(2) [of "month_of t" "year_of t"] unfolding o [symmetric]
    by (simp add: to_ordinal_def valid_civil_def)
  also have "\<dots> = days_before_year (year_of t + 1)" by (simp add: days_before_year_Suc)
  also have "\<dots> \<le> days_before_year 2"
    using days_before_year_less [of "year_of t + 1" 2] leap_day_bounds(1) [of "year_of t + 1"] y
    by (cases "year_of t + 1 = 2") auto
  also have "\<dots> = 365" by (simp add: days_before_year_def)
  finally have "t div day_us < 365" by (simp add: ordinal_of_def)
  moreover have "365 \<le> t div day_us"
    using zdiv_mono1 [OF assms [unfolded dated_def] us_pos(1)] us_pos(1) by (simp split: if_splits)
  ultimately show False by simp
qed

definition month_window :: "int \<Rightarrow> int \<Rightarrow> int \<Rightarrow> int \<Rightarrow> time \<Rightarrow> time \<times> time" where
  "month_window d h mi s t =
     (let a = anchor_in d h mi s; y = year_of t; m = month_of t
      in if a y m > t
         then (case previous_month y m of (y', m') \<Rightarrow> (a y' m', a y m))
         else (case next_month y m of (y', m') \<Rightarrow> (a y m, a y' m')))"

lemma month_window_covers:
  assumes "dated t" "1 \<le> d" "clock_ok h mi s"
  shows "fst (month_window d h mi s t) \<le> t" "t < snd (month_window d h mi s t)"
proof -
  have t: "0 \<le> t" using assms(1) by (rule dated_nonneg)
  have m: "month_of t \<in> {1..12}" using civil_decode(1) [OF t] by (simp add: valid_civil_def)
  obtain yp mp where p: "previous_month (year_of t) (month_of t) = (yp, mp)" by fastforce
  obtain yn mn where n: "next_month (year_of t) (month_of t) = (yn, mn)" by fastforce
  note pp = previous_month_props [OF m p] and nn = next_month_props [OF m n]
  have "anchor_in d h mi s yp mp < t"
    by (rule anchor_before_instant [OF t pp(1) assms(2,3) pp(3)])
  moreover have "t < anchor_in d h mi s yn mn"
    by (rule instant_before_anchor [OF t nn(1) assms(2,3) nn(3)])
  ultimately show "fst (month_window d h mi s t) \<le> t" "t < snd (month_window d h mi s t)"
    by (simp_all add: month_window_def Let_def p n)
qed

text \<open>The month-based functions of the code, written as the code writes them, compute
  \<open>month_window\<close>.\<close>

lemma code_month_window:
  assumes "dated t" "1 \<le> d" "clock_ok h mi s"
  defines "anchor \<equiv> \<lambda>c. month_anchor c d h mi s"
  shows "(let start0 = anchor t;
              start = (if start0 > t then
                 (case previous_month (year_of start0) (month_of start0) of
                    (year, month) \<Rightarrow> anchor (mk_datetime year month 1 0 0 0))
                 else start0);
              end = (case next_month (year_of start) (month_of start) of
                 (year, month) \<Rightarrow> anchor (mk_datetime year month 1 0 0 0))
          in (start, end)) = month_window d h mi s t"
proof -
  have t: "0 \<le> t" using assms(1) by (rule dated_nonneg)
  have m: "month_of t \<in> {1..12}" using civil_decode(1) [OF t] by (simp add: valid_civil_def)
  have y: "2 \<le> year_of t" using assms(1) by (rule dated_year)
  obtain yp mp where p: "previous_month (year_of t) (month_of t) = (yp, mp)" by fastforce
  obtain yn mn where n: "next_month (year_of t) (month_of t) = (yn, mn)" by fastforce
  note pp = previous_month_props [OF m p] and nn = next_month_props [OF m n]
  have a0: "anchor t = anchor_in d h mi s (year_of t) (month_of t)"
    by (simp add: anchor_def month_anchor_def anchor_in_def Let_def)
  have y1: "1 \<le> year_of t" "1 \<le> yp" "1 \<le> yn" using y pp(2) nn(2) by simp_all
  have f0: "year_of (anchor t) = year_of t" "month_of (anchor t) = month_of t"
    unfolding a0 using anchor_fields [OF y1(1) m assms(2,3)] by simp_all
  have ap: "anchor (mk_datetime yp mp 1 0 0 0) = anchor_in d h mi s yp mp"
    unfolding anchor_def by (rule anchor_of_first [OF y1(2) pp(1)])
  have an: "anchor (mk_datetime yn mn 1 0 0 0) = anchor_in d h mi s yn mn"
    unfolding anchor_def by (rule anchor_of_first [OF y1(3) nn(1)])
  have ac: "anchor (mk_datetime (year_of t) (month_of t) 1 0 0 0)
      = anchor_in d h mi s (year_of t) (month_of t)"
    unfolding anchor_def by (rule anchor_of_first [OF y1(1) m])
  have fp: "year_of (anchor_in d h mi s yp mp) = yp" "month_of (anchor_in d h mi s yp mp) = mp"
    using anchor_fields [OF y1(2) pp(1) assms(2,3)] by simp_all
  show ?thesis
    by (simp add: month_window_def Let_def f0 [unfolded a0] p n ap an fp pp(4) ac a0)
qed

section \<open>The interface: a window holds its instant\<close>

locale window_rule =
  fixes window :: "time \<Rightarrow> time \<times> time"
  assumes start_le: "dated now \<Longrightarrow> fst (window now) \<le> now"
    and end_gt: "dated now \<Longrightarrow> now < snd (window now)"
begin

lemma holds_instant: "dated now \<Longrightarrow> fst (window now) \<le> now \<and> now < snd (window now)"
  by (simp add: start_le end_gt)

lemma nonempty: "dated now \<Longrightarrow> fst (window now) < snd (window now)"
  using start_le end_gt by fastforce

text \<open>A row stamped now is one of the rows selected by the window's bounds.\<close>

lemma stamped_now_selected:
  assumes "dated now" "stamp r = now"
  shows "r \<in> {x. fst (window now) \<le> stamp x \<and> stamp x < snd (window now)}"
  using assms by (simp add: start_le end_gt)

end

lemma account_creation_period_window:
  assumes "dated created" "dated now"
  shows "account_creation_period created now =
    month_window (day_of created) (hour_of created) (minute_of created) (second_of created) now"
proof -
  have "1 \<le> day_of created"
    using civil_decode(1) [OF dated_nonneg [OF assms(1)]] by (simp add: valid_civil_def)
  from code_month_window [OF assms(2) this clock_ok_of [of created]]
  show ?thesis by (simp add: account_creation_period_def Let_def)
qed

lemma calendar_month_period_window:
  assumes "settings_ok cfg" "dated now"
  shows "calendar_month_period cfg now = month_window (token_reset_day cfg) 0 0 0 now"
proof -
  have d: "1 \<le> token_reset_day cfg" using assms(1) by (simp add: settings_ok_def)
  have c: "clock_ok 0 0 0" by (simp add: clock_ok_def)
  show ?thesis
    using code_month_window [OF assms(2) d c] by (simp add: calendar_month_period_def Let_def)
qed

lemma weekly_period_covers:
  assumes "settings_ok cfg" "dated now"
  shows "fst (weekly_period cfg now) \<le> now" "now < snd (weekly_period cfg now)"
proof -
  define k where "k = (weekday_of (mk_datetime (year_of now) (month_of now) (day_of now) 0 0 0)
                        - token_reset_weekday cfg) mod 7"
  have k: "0 \<le> k" "k \<le> 6" unfolding k_def by (simp, presburger)
  have kd: "0 \<le> k * day_us" "k * day_us \<le> 6 * day_us"
    by (rule mult_nonneg_nonneg [OF k(1) less_imp_le [OF us_pos(1)]])
      (rule mult_right_mono [OF k(2) less_imp_le [OF us_pos(1)]])
  note b = midnight_bounds [OF dated_nonneg [OF assms(2)]]
  have d7: "6 * day_us + day_us = 7 * day_us" by simp
  show "fst (weekly_period cfg now) \<le> now"
    using b(1) kd by (simp add: weekly_period_def Let_def k_def [symmetric])
  show "now < snd (weekly_period cfg now)"
    unfolding weekly_period_def Let_def k_def [symmetric] snd_conv
    using b(2) kd(2) d7 by linarith
qed

definition daily_window :: "time \<Rightarrow> time \<times> time" where
  "daily_window now =
     (case limit_window (Some ''daily'') now of (a, b) \<Rightarrow> (the a, the b))"

definition monthly_window :: "time \<Rightarrow> time \<times> time" where
  "monthly_window now =
     (case limit_window (Some ''monthly'') now of (a, b) \<Rightarrow> (the a, the b))"

lemma monthly_window_eq:
  assumes "dated now" shows "monthly_window now = month_window 1 0 0 0 now"
proof -
  have t: "0 \<le> now" using assms by (rule dated_nonneg)
  have v: "valid_civil (year_of now) (month_of now) (day_of now)" using civil_decode(1) [OF t] .
  have a: "anchor_in 1 0 0 0 y m = mk_datetime y m 1 0 0 0" for y m
    using leap_day_bounds [of y] by (simp add: anchor_in_def days_in_month_def min_def)
  have "mk_datetime (year_of now) (month_of now) 1 0 0 0
        \<le> mk_datetime (year_of now) (month_of now) (day_of now) 0 0 0"
    using v by (simp add: mk_datetime_def to_ordinal_def valid_civil_def mult_right_mono)
  also have "\<dots> \<le> now" by (rule midnight_bounds(1) [OF t])
  finally show ?thesis
    by (simp add: monthly_window_def limit_window_def month_window_def next_month_def a Let_def)
qed

lemma daily_window_eq:
  "daily_window now =
    (mk_datetime (year_of now) (month_of now) (day_of now) 0 0 0,
     mk_datetime (year_of now) (month_of now) (day_of now) 0 0 0 + day_us)"
  by (simp add: daily_window_def limit_window_def Let_def)

text \<open>The window functions of the code, restricted to valid parameters: the creation instant
  of the account and the validated configuration.\<close>

definition created_or_origin :: "time \<Rightarrow> time" where
  "created_or_origin created = (if dated created then created else 365 * day_us)"

definition checked :: "settings \<Rightarrow> settings" where
  "checked cfg = (if settings_ok cfg then cfg else
     \<lparr>api_key_usd_cents_per_million_credits = 1000, router_reservation_ttl_seconds = 900,
      token_reset_mode = AccountCreation, token_reset_day = 1, token_reset_weekday = 0,
      free_monthly_token_allowance = 0\<rparr>)"

lemma checked_ok: "settings_ok (checked cfg)"
  by (simp add: checked_def settings_ok_def)

lemma dated_origin: "dated (created_or_origin created)"
  by (simp add: created_or_origin_def dated_def)

interpretation creation: window_rule "account_creation_period (created_or_origin created)" for created
  by unfold_locales
    (simp_all add: account_creation_period_window [OF dated_origin] month_window_covers clock_ok_of
      civil_decode(1) [OF dated_nonneg [OF dated_origin], unfolded valid_civil_def])

interpretation calendar: window_rule "calendar_month_period (checked cfg)" for cfg
  using checked_ok [of cfg]
  by unfold_locales
    (simp_all add: calendar_month_period_window month_window_covers clock_ok_def settings_ok_def)

interpretation weekly: window_rule "weekly_period (checked cfg)" for cfg
  by unfold_locales (simp_all add: weekly_period_covers checked_ok)

interpretation daily: window_rule daily_window
  by unfold_locales (simp_all add: daily_window_eq midnight_bounds dated_nonneg)

interpretation monthly: window_rule monthly_window
  by unfold_locales (simp_all add: monthly_window_eq month_window_covers clock_ok_def)

section \<open>Windows are stable\<close>

text \<open>The period row is looked up by its exact bounds, so two requests in the same window must
  compute the same bounds: otherwise the second would open a fresh period and reset the usage.\<close>

locale stable_window = window_rule +
  assumes stable: "dated now \<Longrightarrow> dated t \<Longrightarrow> fst (window now) \<le> t \<Longrightarrow> t < snd (window now)
    \<Longrightarrow> window t = window now"
begin

lemma same_or_disjoint:
  assumes "dated a" "dated b" "dated t" "fst (window a) \<le> t" "t < snd (window a)"
    and "fst (window b) \<le> t" "t < snd (window b)"
  shows "window a = window b"
  using stable [of a t] stable [of b t] assms by simp

end

lemma next_month_least:
  assumes "m \<in> {1..12}" "m' \<in> {1..12}" "month_before y m y' m'" "next_month y m = (yn, mn)"
  shows "(yn, mn) = (y', m') \<or> month_before yn mn y' m'"
  using assms by (auto simp: month_before_def next_month_def split: if_splits)

lemma anchor_mono:
  assumes "m \<in> {1..12}" "m' \<in> {1..12}" "1 \<le> d" "clock_ok h mi s" "(y, m) = (y', m') \<or> month_before y m y' m'"
  shows "anchor_in d h mi s y m \<le> anchor_in d h mi s y' m'"
proof (cases "(y, m) = (y', m')")
  case False
  then have b: "month_before y m y' m'" using assms(5) by blast
  show ?thesis
    using anchor_less [OF assms(1,2,3,4) b valid_civil_clip [OF assms(2,3)] assms(4)]
    by (simp add: anchor_in_def)
qed simp

lemma month_window_shape:
  assumes "dated t"
  obtains y m y' m' where "m \<in> {1..12}" "m' \<in> {1..12}" "next_month y m = (y', m')"
    "month_window d h mi s t = (anchor_in d h mi s y m, anchor_in d h mi s y' m')"
proof -
  have m: "month_of t \<in> {1..12}"
    using civil_decode(1) [OF dated_nonneg [OF assms]] by (simp add: valid_civil_def)
  obtain yp mp where p: "previous_month (year_of t) (month_of t) = (yp, mp)" by fastforce
  obtain yn mn where n: "next_month (year_of t) (month_of t) = (yn, mn)" by fastforce
  note pp = previous_month_props [OF m p] and nn = next_month_props [OF m n]
  show thesis
  proof (cases "anchor_in d h mi s (year_of t) (month_of t) > t")
    case True
    then show ?thesis using that [OF pp(1) m pp(4)] by (simp add: month_window_def Let_def p)
  next
    case False
    then show ?thesis using that [OF m nn(1) n] by (simp add: month_window_def Let_def n)
  qed
qed

lemma month_window_stable:
  assumes "dated now" "dated t" "1 \<le> d" "clock_ok h mi s"
    and "fst (month_window d h mi s now) \<le> t" "t < snd (month_window d h mi s now)"
  shows "month_window d h mi s t = month_window d h mi s now"
proof -
  let ?a = "anchor_in d h mi s"
  obtain y m y' m' where w: "m \<in> {1..12}" "m' \<in> {1..12}" "next_month y m = (y', m')"
    "month_window d h mi s now = (?a y m, ?a y' m')" by (rule month_window_shape [OF assms(1)])
  obtain u k u' k' where v: "k \<in> {1..12}" "k' \<in> {1..12}" "next_month u k = (u', k')"
    "month_window d h mi s t = (?a u k, ?a u' k')" by (rule month_window_shape [OF assms(2)])
  have t: "?a u k \<le> t" "t < ?a u' k'" "?a y m \<le> t" "t < ?a y' m'"
    using month_window_covers [OF assms(2-4)] assms(5,6) by (simp_all add: w(4) v(4))
  have "\<not> month_before y m u k"
  proof
    assume b: "month_before y m u k"
    have "?a y' m' \<le> ?a u k"
      by (rule anchor_mono [OF w(2) v(1) assms(3,4) next_month_least [OF w(1) v(1) b w(3)]])
    with t(1,4) show False by simp
  qed
  moreover have "\<not> month_before u k y m"
  proof
    assume b: "month_before u k y m"
    have "?a u' k' \<le> ?a y m"
      by (rule anchor_mono [OF v(2) w(1) assms(3,4) next_month_least [OF v(1) w(1) b v(3)]])
    with t(2,3) show False by simp
  qed
  ultimately have "u = y \<and> k = m" by (auto simp: month_before_def)
  with w(3,4) v(3,4) show ?thesis by simp
qed

lemma weekly_period_blocks:
  assumes "0 \<le> now"
  shows "weekly_period cfg now =
    (let c = 6 - token_reset_weekday cfg; b = (7 * ((ordinal_of now + c) div 7) - c - 1) * day_us
     in (b, b + 7 * day_us))"
proof -
  let ?w = "token_reset_weekday cfg"
  have o: "ordinal_of (mk_datetime (year_of now) (month_of now) (day_of now) 0 0 0) = ordinal_of now"
    using ordinal_of_mk_datetime [of 0 0 0] civil_decode(2) [OF assms] by (simp add: clock_ok_def)
  have k: "((ordinal_of now + 6) mod 7 - ?w) mod 7
      = ordinal_of now + (6 - ?w) - 7 * ((ordinal_of now + (6 - ?w)) div 7)"
  proof -
    have "((ordinal_of now + 6) mod 7 - ?w) mod 7 = (ordinal_of now + (6 - ?w)) mod 7"
      unfolding mod_diff_left_eq by (simp add: add_diff_eq)
    also have "\<dots> = ordinal_of now + (6 - ?w) - 7 * ((ordinal_of now + (6 - ?w)) div 7)"
      by (rule minus_mult_div_eq_mod [symmetric])
    finally show ?thesis .
  qed
  have m: "mk_datetime (year_of now) (month_of now) (day_of now) 0 0 0 = (ordinal_of now - 1) * day_us"
    by (simp add: mk_datetime_def civil_decode(2) [OF assms])
  have s: "(ordinal_of now - 1) * day_us - (ordinal_of now + (6 - ?w) - 7 * ((ordinal_of now + (6 - ?w)) div 7)) * day_us
      = (7 * ((ordinal_of now + (6 - ?w)) div 7) - (6 - ?w) - 1) * day_us"
    by (simp add: left_diff_distrib [symmetric] del: left_diff_distrib)
  show ?thesis
    unfolding weekly_period_def Let_def weekday_of_def o k unfolding m s ..
qed

lemma block_unique:
  assumes "(7 * q - c - 1) * day_us \<le> t" "t < (7 * q - c - 1) * day_us + 7 * day_us"
  shows "(ordinal_of t + c) div 7 = q"
proof -
  have "7 * q - c - 1 \<le> t div day_us"
    using zdiv_mono1 [OF assms(1) us_pos(1)] us_pos(1) by (simp split: if_splits)
  moreover have "t div day_us < 7 * q - c - 1 + 7"
  proof -
    have "t < (7 * q - c - 1 + 7) * day_us" using assms(2) by (simp add: algebra_simps)
    also have "\<dots> \<le> (t div day_us) * day_us" if "7 * q - c - 1 + 7 \<le> t div day_us"
      by (rule mult_right_mono [OF that less_imp_le [OF us_pos(1)]])
    also have "(t div day_us) * day_us \<le> t"
      using minus_mod_eq_div_mult [of t day_us] pos_mod_sign [OF us_pos(1), of t] by linarith
    finally show ?thesis by fastforce
  qed
  ultimately show ?thesis
    by (intro int_div_pos_eq [where r = "t div day_us + 1 + c - 7 * q"]) (simp_all add: ordinal_of_def)
qed

lemma weekly_period_stable:
  assumes "dated now" "dated t" "fst (weekly_period cfg now) \<le> t" "t < snd (weekly_period cfg now)"
  shows "weekly_period cfg t = weekly_period cfg now"
  using assms(3,4)
  by (simp add: weekly_period_blocks [OF dated_nonneg [OF assms(1)]]
      weekly_period_blocks [OF dated_nonneg [OF assms(2)]] Let_def block_unique)

lemma daily_window_stable:
  assumes "dated now" "dated t" "fst (daily_window now) \<le> t" "t < snd (daily_window now)"
  shows "daily_window t = daily_window now"
proof -
  have m: "daily_window x = ((ordinal_of x - 1) * day_us, (ordinal_of x - 1) * day_us + day_us)"
    if "dated x" for x
    by (simp add: daily_window_eq mk_datetime_def civil_decode(2) [OF dated_nonneg [OF that]])
  have "t div day_us = ordinal_of now - 1"
  proof (rule int_div_pos_eq [where r = "t - (ordinal_of now - 1) * day_us"])
    show "t = day_us * (ordinal_of now - 1) + (t - (ordinal_of now - 1) * day_us)"
      by (simp add: algebra_simps)
  qed (use assms(3,4) in \<open>simp_all add: m [OF assms(1)]\<close>)
  then have "ordinal_of t = ordinal_of now" by (simp add: ordinal_of_def)
  then show ?thesis by (simp add: m [OF assms(1)] m [OF assms(2)])
qed

lemma account_creation_period_stable:
  assumes "dated created" "dated now" "dated t"
    and "fst (account_creation_period created now) \<le> t" "t < snd (account_creation_period created now)"
  shows "account_creation_period created t = account_creation_period created now"
proof -
  have d: "1 \<le> day_of created"
    using civil_decode(1) [OF dated_nonneg [OF assms(1)]] by (simp add: valid_civil_def)
  note w = account_creation_period_window [OF assms(1)]
  show ?thesis
    unfolding w [OF assms(2)] w [OF assms(3)]
    by (rule month_window_stable [OF assms(2,3) d clock_ok_of assms(4,5) [unfolded w [OF assms(2)]]])
qed

lemma calendar_month_period_stable:
  assumes "settings_ok cfg" "dated now" "dated t"
    and "fst (calendar_month_period cfg now) \<le> t" "t < snd (calendar_month_period cfg now)"
  shows "calendar_month_period cfg t = calendar_month_period cfg now"
proof -
  have d: "1 \<le> token_reset_day cfg" using assms(1) by (simp add: settings_ok_def)
  have c: "clock_ok 0 0 0" by (simp add: clock_ok_def)
  note w = calendar_month_period_window [OF assms(1)]
  show ?thesis
    unfolding w [OF assms(2)] w [OF assms(3)]
    by (rule month_window_stable [OF assms(2,3) d c assms(4,5) [unfolded w [OF assms(2)]]])
qed

lemma monthly_window_stable:
  assumes "dated now" "dated t" "fst (monthly_window now) \<le> t" "t < snd (monthly_window now)"
  shows "monthly_window t = monthly_window now"
proof -
  have c: "clock_ok 0 0 0" by (simp add: clock_ok_def)
  note w = monthly_window_eq
  show ?thesis
    unfolding w [OF assms(1)] w [OF assms(2)]
    by (rule month_window_stable [OF assms(1,2) _ c assms(3,4) [unfolded w [OF assms(1)]]]) simp
qed

interpretation creation_stable: stable_window "account_creation_period (created_or_origin created)"
  for created
  by unfold_locales (rule account_creation_period_stable [OF dated_origin])

interpretation calendar_stable: stable_window "calendar_month_period (checked cfg)" for cfg
  by unfold_locales (rule calendar_month_period_stable [OF checked_ok])

interpretation weekly_stable: stable_window "weekly_period (checked cfg)" for cfg
  by unfold_locales (rule weekly_period_stable)

interpretation daily_stable: stable_window daily_window
  by unfold_locales (rule daily_window_stable)

interpretation monthly_stable: stable_window monthly_window
  by unfold_locales (rule monthly_window_stable)

end
