(* ===== verification/Ledger.thy ===== *)
theory Ledger
  imports Periods
begin

text \<open>
  The billing tables of \<^verbatim>\<open>inference_api/models.py\<close> (mirrored by
  \<^verbatim>\<open>app/db/models/\<close>) as rows and the database session as a record of tables, in
  insertion order. Identifiers are naturals drawn from \<open>next_id\<close>. The columns that no code reads
  back (\<^verbatim>\<open>updated_at\<close>, and \<^verbatim>\<open>created_at\<close> of plans, prices, periods) are left out.
  Then the wallet: \<^verbatim>\<open>_lock_or_create_wallet\<close>, the balance change with its transaction row,
  and the interface \<open>wallet_store\<close> that keeps the balance equal to the sum of its transactions.
\<close>

section \<open>Rows\<close>

text \<open>The last four columns of a plan and the last three of a subscription are mapped by the control
  plane only; a plan the serving plane inserts gets their database defaults.\<close>

record user_row =
  usr_id :: nat
  usr_is_active :: bool
  usr_created_at :: time

record api_key_row =
  key_id :: nat
  key_user_id :: nat
  key_hashed_key :: string
  key_scopes :: "string list"
  key_allowed_models :: "string list option"
  key_allowed_ips :: "string list option"
  key_limit_period :: "string option"
  key_credit_limit :: "int option"
  key_usd_limit_cents :: "int option"
  key_rate_limit_per_minute :: int
  key_expires_at :: "time option"
  key_last_used_at :: "time option"
  key_revoked_at :: "time option"

record billing_plan_row =
  plan_id :: nat
  plan_slug :: string
  plan_name :: string
  plan_description :: "string option"
  plan_stripe_price_id :: "string option"
  plan_monthly_token_allowance :: int
  plan_is_unlimited :: bool
  plan_active :: bool
  plan_visible :: bool
  plan_sort_order :: int
  plan_features :: "json option"
  plan_stripe_annual_price_id :: "string option"
  plan_price_cents :: int
  plan_annual_price_cents :: "int option"
  plan_currency :: string

record subscription_row =
  sub_id :: nat
  sub_user_id :: nat
  sub_plan_id :: "nat option"
  sub_status :: string
  sub_current_period_start :: "time option"
  sub_current_period_end :: "time option"
  sub_stripe_subscription_id :: "string option"
  sub_stripe_price_id :: "string option"
  sub_cancel_at_period_end :: bool

record snapshot_row =
  snap_user_id :: nat
  snap_wallet_address :: string
  snap_chain :: string
  snap_token_type :: string
  snap_raw_balance :: string
  snap_inference_token_allowance :: int
  snap_error_message :: "string option"
  snap_checked_at :: time

record adjustment_row =
  adj_user_id :: nat
  adj_amount :: int
  adj_created_at :: time

text \<open>\<open>Numeric(10, 4)\<close>: a multiplier counts ten-thousandths.\<close>

type_synonym decimal4 = int

record pricing_row =
  pr_model_name :: string
  pr_token_multiplier :: decimal4
  pr_active :: bool

record usage_period =
  per_id :: nat
  per_user_id :: nat
  per_period_start :: time
  per_period_end :: time
  per_stripe_allowance :: int
  per_ethereum_erc20_allowance :: int
  per_substrate_native_allowance :: int
  per_subnet_stake_allowance :: int
  per_manual_allowance :: int
  per_total_allowance :: int
  per_used_tokens :: int
  per_remaining_tokens :: int
  per_calculated_at :: time

text \<open>The status column is only ever written with these four literals.\<close>

datatype event_status = Reserved | Settled | Expired | Released

record usage_event =
  ev_id :: nat
  ev_usage_period_id :: nat
  ev_user_id :: nat
  ev_api_key_id :: "nat option"
  ev_router_client_id :: "nat option"
  ev_miner_id :: "nat option"
  ev_miner_hotkey :: "string option"
  ev_miner_model_hash :: "string option"
  ev_miner_model_id :: "nat option"
  ev_request_id :: string
  ev_model :: string
  ev_prompt_tokens :: int
  ev_completion_tokens :: int
  ev_raw_total_tokens :: int
  ev_model_multiplier :: decimal4
  ev_reserved_tokens :: int
  ev_wallet_reserved_tokens :: int
  ev_charged_tokens :: int
  ev_status :: event_status
  ev_expires_at :: time
  ev_settled_at :: "time option"
  ev_released_at :: "time option"
  ev_created_at :: time

record wallet_row =
  wal_user_id :: nat
  wal_balance_tokens :: int

record wallet_tx_row =
  wtx_user_id :: nat
  wtx_delta_tokens :: int
  wtx_kind :: string
  wtx_stripe_payment_intent_id :: "string option"
  wtx_created_at :: time

record ledger =
  users :: "user_row list"
  api_keys :: "api_key_row list"
  billing_plans :: "billing_plan_row list"
  user_subscriptions :: "subscription_row list"
  crypto_balance_snapshots :: "snapshot_row list"
  manual_token_adjustments :: "adjustment_row list"
  model_pricing :: "pricing_row list"
  usage_periods :: "usage_period list"
  inference_usage_events :: "usage_event list"
  user_wallets :: "wallet_row list"
  wallet_transactions :: "wallet_tx_row list"
  next_id :: nat

text \<open>The status of an event has an order of its life: a reservation is before its ends. The
  instance makes statuses sortable and comparable by the library.\<close>

instantiation event_status :: linorder
begin

primrec status_rank :: "event_status \<Rightarrow> nat" where
  "status_rank Reserved = 0"
| "status_rank Settled = 1"
| "status_rank Expired = 2"
| "status_rank Released = 3"

definition less_eq_event_status :: "event_status \<Rightarrow> event_status \<Rightarrow> bool" where
  "less_eq_event_status a b \<longleftrightarrow> status_rank a \<le> status_rank b"

definition less_event_status :: "event_status \<Rightarrow> event_status \<Rightarrow> bool" where
  "less_event_status a b \<longleftrightarrow> status_rank a < status_rank b"

lemma status_rank_inject: "status_rank a = status_rank b \<Longrightarrow> a = b"
  by (cases a; cases b) simp_all

instance
  by standard
    (auto simp: less_eq_event_status_def less_event_status_def dest: status_rank_inject)

end

section \<open>Rows written back\<close>

definition put_period :: "usage_period \<Rightarrow> ledger \<Rightarrow> ledger" where
  "put_period p = usage_periods_update (replace_by per_id p)"

definition put_event :: "usage_event \<Rightarrow> ledger \<Rightarrow> ledger" where
  "put_event e = inference_usage_events_update (replace_by ev_id e)"

definition put_wallet :: "wallet_row \<Rightarrow> ledger \<Rightarrow> ledger" where
  "put_wallet w = user_wallets_update (replace_by wal_user_id w)"

definition add_transaction :: "wallet_tx_row \<Rightarrow> ledger \<Rightarrow> ledger" where
  "add_transaction t = wallet_transactions_update (\<lambda>ts. ts @ [t])"

lemmas put_defs = put_period_def put_event_def put_wallet_def add_transaction_def

section \<open>The wallet\<close>

definition lock_or_create_wallet :: "nat \<Rightarrow> (ledger, wallet_row) handler" where
  "lock_or_create_wallet uid =
     bind (select_one_or_none (\<lambda>s. filter (\<lambda>w. wal_user_id w = uid) (user_wallets s)))
       (\<lambda>found. case found of
            Some wallet \<Rightarrow> ret wallet
          | None \<Rightarrow>
              (let wallet = \<lparr>wal_user_id = uid, wal_balance_tokens = 0\<rparr>
               in then_do (modify (user_wallets_update (\<lambda>ws. ws @ [wallet]))) (ret wallet)))"

text \<open>\<open>wallet.balance_tokens += delta\<close> together with its \<open>WalletTransaction\<close> row, as the three
  places that move a balance write it.\<close>

definition move_balance :: "time \<Rightarrow> wallet_row \<Rightarrow> int \<Rightarrow> string \<Rightarrow> ledger \<Rightarrow> ledger" where
  "move_balance now wallet delta kind =
     add_transaction \<lparr>wtx_user_id = wal_user_id wallet, wtx_delta_tokens = delta, wtx_kind = kind,
        wtx_stripe_payment_intent_id = None, wtx_created_at = now\<rparr> \<circ>
     put_wallet (wallet\<lparr>wal_balance_tokens := wal_balance_tokens wallet + delta\<rparr>)"

definition refund_wallet :: "time \<Rightarrow> nat \<Rightarrow> int \<Rightarrow> (ledger, unit) handler" where
  "refund_wallet now uid tokens =
     bind (lock_or_create_wallet uid) (\<lambda>wallet. modify (move_balance now wallet tokens ''refund''))"

definition wallet_balance :: "ledger \<Rightarrow> nat \<Rightarrow> int" where
  "wallet_balance s uid =
     (case find (\<lambda>w. wal_user_id w = uid) (user_wallets s) of
        None \<Rightarrow> 0 | Some w \<Rightarrow> wal_balance_tokens w)"

definition wallet_entries :: "ledger \<Rightarrow> nat \<Rightarrow> int" where
  "wallet_entries s uid =
     (\<Sum>t \<leftarrow> wallet_transactions s. if wtx_user_id t = uid then wtx_delta_tokens t else 0)"

definition wallet_keys :: "ledger \<Rightarrow> bool" where
  "wallet_keys s \<longleftrightarrow> distinct (map wal_user_id (user_wallets s))"

text \<open>The state a wallet movement leaves: the wallet exists afterwards.\<close>

definition ensure_wallet :: "nat \<Rightarrow> ledger \<Rightarrow> ledger" where
  "ensure_wallet uid s =
     (if uid \<in> wal_user_id ` set (user_wallets s) then s
      else s\<lparr>user_wallets := user_wallets s @ [\<lparr>wal_user_id = uid, wal_balance_tokens = 0\<rparr>]\<rparr>)"

definition post :: "time \<Rightarrow> nat \<Rightarrow> int \<Rightarrow> string \<Rightarrow> ledger \<Rightarrow> ledger" where
  "post now uid delta kind s =
     (let s' = ensure_wallet uid s
      in move_balance now \<lparr>wal_user_id = uid, wal_balance_tokens = wallet_balance s' uid\<rparr> delta kind s')"

lemma find_append: "find P (xs @ ys) = (case find P xs of None \<Rightarrow> find P ys | Some x \<Rightarrow> Some x)"
  by (induction xs) auto

lemma find_None_key: "find (\<lambda>q. key q = k) rows = None \<longleftrightarrow> k \<notin> key ` set rows"
  by (auto simp: find_None_iff image_iff)

lemma wallet_balance_ensure [simp]: "wallet_balance (ensure_wallet uid s) u = wallet_balance s u"
proof (cases "uid \<in> wal_user_id ` set (user_wallets s)")
  case False
  then have "find (\<lambda>w. wal_user_id w = uid) (user_wallets s) = None" by (simp add: find_None_key)
  with False show ?thesis
    by (auto simp: ensure_wallet_def wallet_balance_def find_append split: option.splits)
qed (simp add: ensure_wallet_def)

lemma ensure_wallet_member: "uid \<in> wal_user_id ` set (user_wallets (ensure_wallet uid s))"
  by (simp add: ensure_wallet_def)

lemma wallet_keys_ensure: "wallet_keys s \<Longrightarrow> wallet_keys (ensure_wallet uid s)"
  by (auto simp: wallet_keys_def ensure_wallet_def image_iff)

lemma ensure_wallet_other [simp]:
  "wallet_transactions (ensure_wallet uid s) = wallet_transactions s"
  "usage_periods (ensure_wallet uid s) = usage_periods s"
  "inference_usage_events (ensure_wallet uid s) = inference_usage_events s"
  "api_keys (ensure_wallet uid s) = api_keys s"
  "billing_plans (ensure_wallet uid s) = billing_plans s"
  "user_subscriptions (ensure_wallet uid s) = user_subscriptions s"
  "users (ensure_wallet uid s) = users s"
  "next_id (ensure_wallet uid s) = next_id s"
  by (simp_all add: ensure_wallet_def)

lemma lock_or_create_run:
  assumes "wallet_keys s"
  shows "lock_or_create_wallet uid s =
    (Inr \<lparr>wal_user_id = uid, wal_balance_tokens = wallet_balance s uid\<rparr>, ensure_wallet uid s)"
proof (rule filter_key_cases [OF assms [unfolded wallet_keys_def], of uid])
  assume f: "filter (\<lambda>w. wal_user_id w = uid) (user_wallets s) = []" "uid \<notin> wal_user_id ` set (user_wallets s)"
  then have "find (\<lambda>w. wal_user_id w = uid) (user_wallets s) = None" by (simp add: find_None_key)
  with f show ?thesis
    by (simp add: lock_or_create_wallet_def handler_defs ensure_wallet_def wallet_balance_def Let_def)
next
  fix r assume f: "filter (\<lambda>w. wal_user_id w = uid) (user_wallets s) = [r]" "r \<in> set (user_wallets s)"
    "wal_user_id r = uid"
  then have "find (\<lambda>w. wal_user_id w = uid) (user_wallets s) = Some r"
    using find_by_key [OF assms [unfolded wallet_keys_def] f(2)] by simp
  with f show ?thesis
    by (auto simp: lock_or_create_wallet_def handler_defs ensure_wallet_def wallet_balance_def)
qed

lemma refund_wallet_run:
  assumes "wallet_keys s"
  shows "refund_wallet now uid tokens s = (Inr (), post now uid tokens ''refund'' s)"
  by (simp add: refund_wallet_def bind_def lock_or_create_run [OF assms] post_def Let_def)

lemma post_balance:
  "wallet_balance (post now uid d kind s) u = wallet_balance s u + (if u = uid then d else 0)"
proof -
  obtain w where "find (\<lambda>w. wal_user_id w = uid) (user_wallets (ensure_wallet uid s)) = Some w"
    using ensure_wallet_member [of uid s] find_None_key by (metis not_Some_eq)
  then have "find (\<lambda>w. wal_user_id w = uid) (user_wallets (ensure_wallet uid s)) = Some w"
    "wal_user_id w = uid" by (auto simp: find_Some_iff)
  then show ?thesis
    using wallet_balance_ensure [of uid s u]
    by (auto simp: post_def Let_def move_balance_def put_defs wallet_balance_def find_replace_by
        split: option.splits)
      (auto simp: find_Some_iff)
qed

lemma post_entries:
  "wallet_entries (post now uid d kind s) u = wallet_entries s u + (if u = uid then d else 0)"
  by (simp add: post_def Let_def move_balance_def put_defs wallet_entries_def)

lemma post_keys: "wallet_keys s \<Longrightarrow> wallet_keys (post now uid d kind s)"
  using wallet_keys_ensure [of s uid]
  by (simp add: post_def Let_def move_balance_def put_defs wallet_keys_def)

lemma post_other [simp]:
  "usage_periods (post now uid d kind s) = usage_periods s"
  "inference_usage_events (post now uid d kind s) = inference_usage_events s"
  "api_keys (post now uid d kind s) = api_keys s"
  "billing_plans (post now uid d kind s) = billing_plans s"
  "user_subscriptions (post now uid d kind s) = user_subscriptions s"
  "users (post now uid d kind s) = users s"
  "next_id (post now uid d kind s) = next_id s"
  by (simp_all add: post_def Let_def move_balance_def put_defs)

lemma post_transactions:
  "wallet_transactions (post now uid d kind s) = wallet_transactions s @
    [\<lparr>wtx_user_id = uid, wtx_delta_tokens = d, wtx_kind = kind,
      wtx_stripe_payment_intent_id = None, wtx_created_at = now\<rparr>]"
  by (simp add: post_def Let_def move_balance_def put_defs)

section \<open>The interface: a balance that is the sum of its entries\<close>

locale wallet_store =
  fixes balance :: "'s \<Rightarrow> nat \<Rightarrow> int"
    and entries :: "'s \<Rightarrow> nat \<Rightarrow> int"
    and move :: "nat \<Rightarrow> int \<Rightarrow> 's \<Rightarrow> 's"
  assumes balance_move: "balance (move u d s) v = balance s v + (if v = u then d else 0)"
    and entries_move: "entries (move u d s) v = entries s v + (if v = u then d else 0)"
begin

lemma reconciled_move:
  "balance s v = entries s v \<Longrightarrow> balance (move u d s) v = entries (move u d s) v"
  by (simp add: balance_move entries_move)

text \<open>Any sequence of movements keeps the balance equal to the sum of the entries, and moves it by
  the sum of the movements of the user.\<close>

lemma balance_moves:
  "balance (fold (\<lambda>(u, d). move u d) ms s) v
     = balance s v + (\<Sum>(u, d) \<leftarrow> ms. if v = u then d else 0)"
  by (induction ms arbitrary: s) (auto simp: balance_move)

lemma reconciled_moves:
  "balance s v = entries s v \<Longrightarrow>
     balance (fold (\<lambda>(u, d). move u d) ms s) v = entries (fold (\<lambda>(u, d). move u d) ms s) v"
  by (induction ms arbitrary: s) (auto simp: balance_move entries_move)

lemma nonneg_move:
  "0 \<le> balance s v \<Longrightarrow> 0 \<le> balance s u + d \<Longrightarrow> 0 \<le> balance (move u d s) v"
  by (simp add: balance_move)

lemma debit_then_refund: "balance (move u d (move u (- d) s)) v = balance s v"
  by (simp add: balance_move)

end

interpretation wallet: wallet_store wallet_balance wallet_entries "\<lambda>u d. post now u d kind"
  for now kind
  by unfold_locales (simp_all add: post_balance post_entries)

text \<open>Refunding a user's wallet never fails, moves exactly that user's balance by the refunded
  tokens, appends one transaction row of that amount, and keeps the balance equal to the sum of the
  transaction rows.\<close>

theorem refund_wallet_correct:
  assumes "wallet_keys s" "wallet_balance s v = wallet_entries s v"
  shows "\<exists>s'. refund_wallet now uid tokens s = (Inr (), s') \<and>
    wallet_balance s' v = wallet_balance s v + (if v = uid then tokens else 0) \<and>
    wallet_balance s' v = wallet_entries s' v \<and>
    length (wallet_transactions s') = Suc (length (wallet_transactions s)) \<and> wallet_keys s'"
  unfolding refund_wallet_run [OF assms(1)]
  using wallet.reconciled_move [OF assms(2), of now uid tokens "''refund''"]
  by (intro exI [of _ "post now uid tokens ''refund'' s"] conjI) (simp_all add: post_balance post_transactions post_keys [OF assms(1)])

end
