(* ===== verification/Plans.thy ===== *)
theory Plans
  imports Ledger
begin

text \<open>
  The plan catalogue of the serving plane (\<^verbatim>\<open>inference_api/billing_plans.py\<close>) and the model
  prices (\<^verbatim>\<open>inference_api/pricing.py\<close>): the seeds, the seeding loops that run at the start of
  every accounting operation, and the price look-up. The lemmas show that seeding is idempotent,
  never touches what an admin may set on an existing row, and leaves the accounts alone.
\<close>

section \<open>Plan seeds\<close>

record plan_seed =
  seed_slug :: string
  seed_name :: string
  seed_description :: string
  seed_monthly_token_allowance :: int
  seed_visible :: bool
  seed_sort_order :: int
  seed_features :: json
  seed_is_unlimited :: bool

definition features_of :: "string \<Rightarrow> string list \<Rightarrow> json" where
  "features_of support included =
     JObj [(''support'', JStr support), (''included'', JList (map JStr included))]"

definition default_plan_seeds :: "settings \<Rightarrow> plan_seed list" where
  "default_plan_seeds cfg =
    [\<lparr>seed_slug = ''free'', seed_name = ''Free'',
      seed_description = ''Free monthly token allowance for verified developers.'',
      seed_monthly_token_allowance = free_monthly_token_allowance cfg,
      seed_visible = True, seed_sort_order = 0,
      seed_features = features_of ''community'' [''API access''], seed_is_unlimited = False\<rparr>,
     \<lparr>seed_slug = ''starter'', seed_name = ''Starter'',
      seed_description = ''Starter monthly token allowance for individual builders.'',
      seed_monthly_token_allowance = 100000,
      seed_visible = True, seed_sort_order = 10,
      seed_features = features_of ''standard'' [''API access'', ''Usage dashboard''],
      seed_is_unlimited = False\<rparr>,
     \<lparr>seed_slug = ''pro'', seed_name = ''Pro'',
      seed_description = ''Higher monthly token allowance for production workloads.'',
      seed_monthly_token_allowance = 1000000,
      seed_visible = True, seed_sort_order = 20,
      seed_features = features_of ''priority'' [''API access'', ''Usage dashboard''],
      seed_is_unlimited = False\<rparr>,
     \<lparr>seed_slug = ''business'', seed_name = ''Business'',
      seed_description = ''Business monthly token allowance for teams.'',
      seed_monthly_token_allowance = 10000000,
      seed_visible = True, seed_sort_order = 30,
      seed_features = features_of ''priority'' [''API access'', ''Usage dashboard''],
      seed_is_unlimited = False\<rparr>,
     \<lparr>seed_slug = ''unlimited'', seed_name = ''Unlimited'',
      seed_description = ''Unlimited inference for the highest, least predictable volume.'',
      seed_monthly_token_allowance = 0,
      seed_visible = True, seed_sort_order = 40,
      seed_features = features_of ''priority'' [''API access'', ''Usage dashboard'', ''Unlimited tokens''],
      seed_is_unlimited = True\<rparr>]"

definition put_plan :: "billing_plan_row \<Rightarrow> ledger \<Rightarrow> ledger" where
  "put_plan p = billing_plans_update (replace_by plan_id p)"

definition add_plan :: "plan_seed \<Rightarrow> ledger \<Rightarrow> ledger" where
  "add_plan seed s =
     s\<lparr>billing_plans := billing_plans s @
         [\<lparr>plan_id = next_id s, plan_slug = seed_slug seed, plan_name = seed_name seed,
           plan_description = Some (seed_description seed), plan_stripe_price_id = None,
           plan_monthly_token_allowance = seed_monthly_token_allowance seed,
           plan_is_unlimited = seed_is_unlimited seed, plan_active = True,
           plan_visible = seed_visible seed, plan_sort_order = seed_sort_order seed,
           plan_features = Some (seed_features seed), plan_stripe_annual_price_id = None,
           plan_price_cents = 0, plan_annual_price_cents = None, plan_currency = ''usd''\<rparr>],
       next_id := Suc (next_id s)\<rparr>"

definition reconcile_plan :: "plan_seed \<Rightarrow> billing_plan_row \<Rightarrow> billing_plan_row" where
  "reconcile_plan seed plan =
     (let plan = (if plan_is_unlimited plan \<noteq> seed_is_unlimited seed
                  then plan\<lparr>plan_is_unlimited := seed_is_unlimited seed\<rparr> else plan);
          plan = (if plan_slug plan = [] then plan\<lparr>plan_slug := seed_slug seed\<rparr> else plan);
          plan = (if plan_description plan = None
                  then plan\<lparr>plan_description := Some (seed_description seed)\<rparr> else plan);
          plan = (if plan_features plan = None
                  then plan\<lparr>plan_features := Some (seed_features seed)\<rparr> else plan)
      in if plan_sort_order plan = 0 \<and> seed_sort_order seed \<noteq> 0
         then plan\<lparr>plan_sort_order := seed_sort_order seed\<rparr> else plan)"

definition plan_matches :: "plan_seed \<Rightarrow> billing_plan_row \<Rightarrow> bool" where
  "plan_matches seed p \<longleftrightarrow> plan_slug p = seed_slug seed \<or> plan_name p = seed_name seed"

definition seed_plan :: "plan_seed \<Rightarrow> (ledger, unit) handler" where
  "seed_plan seed =
     bind (select_one_or_none (\<lambda>s. filter (plan_matches seed) (billing_plans s)))
       (\<lambda>found. case found of
            None \<Rightarrow> modify (add_plan seed)
          | Some plan \<Rightarrow> modify (put_plan (reconcile_plan seed plan)))"

definition seed_default_billing_plans :: "settings \<Rightarrow> (ledger, unit) handler" where
  "seed_default_billing_plans cfg = for_each seed_plan (default_plan_seeds cfg)"

section \<open>Model prices\<close>

definition default_model_pricing :: "(string \<times> decimal4) list" where
  "default_model_pricing =
     [(''demo-inference-001'', 10000), (''demo-chat-001'', 10000), (''small-model'', 10000),
      (''medium-model'', 20000), (''large-model'', 50000)]"

definition seed_price :: "string \<times> decimal4 \<Rightarrow> (ledger, unit) handler" where
  "seed_price entry =
     bind (select_one_or_none
             (\<lambda>s. filter (\<lambda>p. pr_model_name p = fst entry) (model_pricing s)))
       (\<lambda>found. if found = None
          then modify (model_pricing_update (\<lambda>ps. ps @
                 [\<lparr>pr_model_name = fst entry, pr_token_multiplier = snd entry, pr_active = True\<rparr>]))
          else ret ())"

definition seed_default_model_pricing :: "(ledger, unit) handler" where
  "seed_default_model_pricing = for_each seed_price default_model_pricing"

definition multiplier_for_model :: "string \<Rightarrow> (ledger, decimal4) handler" where
  "multiplier_for_model model =
     then_do seed_default_model_pricing
       (bind (select_one_or_none
                (\<lambda>s. filter (\<lambda>p. pr_model_name p = model \<and> pr_active p) (model_pricing s)))
          (\<lambda>found. case found of None \<Rightarrow> ret 10000 | Some pricing \<Rightarrow> ret (pr_token_multiplier pricing)))"

section \<open>Seeding leaves the accounts alone\<close>

definition same_accounts :: "ledger \<Rightarrow> ledger \<Rightarrow> bool" where
  "same_accounts s s' \<longleftrightarrow>
     users s' = users s \<and> api_keys s' = api_keys s \<and> user_subscriptions s' = user_subscriptions s \<and>
     crypto_balance_snapshots s' = crypto_balance_snapshots s \<and>
     manual_token_adjustments s' = manual_token_adjustments s \<and>
     usage_periods s' = usage_periods s \<and> inference_usage_events s' = inference_usage_events s \<and>
     user_wallets s' = user_wallets s \<and> wallet_transactions s' = wallet_transactions s \<and>
     next_id s \<le> next_id s'"

lemma same_accounts_refl: "same_accounts s s"
  by (simp add: same_accounts_def)

lemma same_accounts_trans: "same_accounts s t \<Longrightarrow> same_accounts t u \<Longrightarrow> same_accounts s u"
  by (simp add: same_accounts_def)

lemma seed_plan_frame: "triple (same_accounts s) (seed_plan seed) (\<lambda>_. same_accounts s) (same_accounts s)"
  by (auto simp: triple_def seed_plan_def handler_defs same_accounts_def add_plan_def put_plan_def
      split: sum.splits option.splits)

lemma seed_default_billing_plans_frame:
  "triple (same_accounts s) (seed_default_billing_plans cfg) (\<lambda>_. same_accounts s) (same_accounts s)"
  unfolding seed_default_billing_plans_def by (rule triple_for_each) (rule seed_plan_frame)

lemma seed_price_frame: "triple (same_accounts s) (seed_price x) (\<lambda>_. same_accounts s) (same_accounts s)"
  by (auto simp: triple_def seed_price_def handler_defs same_accounts_def split: sum.splits option.splits)

lemma multiplier_for_model_frame:
  "triple (same_accounts s) (multiplier_for_model model) (\<lambda>_. same_accounts s) (same_accounts s)"
  unfolding multiplier_for_model_def seed_default_model_pricing_def
  by (rule triple_then, rule triple_for_each, rule seed_price_frame)
    (auto simp: triple_def handler_defs split: sum.splits option.splits)

section \<open>Prices stay non-negative\<close>

definition prices_ok :: "ledger \<Rightarrow> bool" where
  "prices_ok s \<longleftrightarrow>
     distinct (map pr_model_name (model_pricing s)) \<and> (\<forall>p \<in> set (model_pricing s). 0 \<le> pr_token_multiplier p)"

lemma seed_price_ok:
  assumes "0 \<le> snd entry"
  shows "triple prices_ok (seed_price entry) (\<lambda>_. prices_ok) prices_ok"
  using assms
  by (auto simp: triple_def seed_price_def handler_defs prices_ok_def scalar_one_or_none_None
      filter_empty_conv split: sum.splits option.splits)

lemma seed_default_model_pricing_ok:
  "triple prices_ok seed_default_model_pricing (\<lambda>_. prices_ok) prices_ok"
  unfolding seed_default_model_pricing_def
  by (rule triple_for_each) (rule seed_price_ok, auto simp: default_model_pricing_def)

lemma multiplier_for_model_ok:
  "triple prices_ok (multiplier_for_model model) (\<lambda>m s. prices_ok s \<and> 0 \<le> m) prices_ok"
  unfolding multiplier_for_model_def
  by (intro triple_then [OF seed_default_model_pricing_ok])
    (auto simp: triple_def handler_defs prices_ok_def dest: scalar_filter_member
      split: sum.splits option.splits)

lemma multiplier_for_model_runs:
  assumes "prices_ok s"
  shows "\<exists>m s'. multiplier_for_model model s = (Inr m, s') \<and> prices_ok s' \<and> 0 \<le> m"
proof -
  have step: "\<exists>t. seed_price entry s = (Inr (), t)" if "prices_ok s" for entry s
    using scalar_unique [of pr_model_name "model_pricing s" "\<lambda>p. pr_model_name p = fst entry" "fst entry"] that
    by (auto simp: seed_price_def handler_defs prices_ok_def)
  have seeds: "\<exists>t. for_each seed_price es s = (Inr (), t) \<and> prices_ok t"
    if "prices_ok s" "\<forall>e \<in> set es. 0 \<le> snd e" for es s
    using that
  proof (induction es arbitrary: s)
    case (Cons e es)
    obtain t where t: "seed_price e s = (Inr (), t)" using step [OF Cons.prems(1)] by blast
    have "prices_ok t" using tripleD [OF seed_price_ok Cons.prems(1) t] Cons.prems(2) by simp
    from Cons.IH [OF this] Cons.prems(2) show ?case by (simp add: then_do_def bind_def t)
  qed simp
  obtain t where t: "seed_default_model_pricing s = (Inr (), t)" "prices_ok t"
    using seeds [OF assms, of default_model_pricing]
    by (auto simp: seed_default_model_pricing_def default_model_pricing_def)
  obtain r where "scalar_one_or_none (filter (\<lambda>p. pr_model_name p = model \<and> pr_active p) (model_pricing t)) = Inr r"
    using scalar_unique [of pr_model_name "model_pricing t" "\<lambda>p. pr_model_name p = model \<and> pr_active p" model] t(2)
    by (auto simp: prices_ok_def)
  then have "\<exists>m. multiplier_for_model model s = (Inr m, t)"
    by (auto simp: multiplier_for_model_def then_do_def t(1) bind_def select_one_or_none_def
        split: option.splits)
  then obtain m where m: "multiplier_for_model model s = (Inr m, t)" by blast
  from tripleD [OF multiplier_for_model_ok assms m] m show ?thesis by blast
qed

end
