(* ===== verification/Strings.thy ===== *)
theory Strings
  imports Prelude
begin

text \<open>
  The string methods of Python the code uses, on ASCII text: case folding, whitespace, \<open>strip\<close>,
  \<open>split\<close> with and without a separator, prefixes, joining, and the word boundaries of
  regular expressions.
\<close>

definition code_of :: "char \<Rightarrow> nat" where "code_of c = of_char c"

definition is_space :: "char \<Rightarrow> bool" where
  "is_space c \<longleftrightarrow> 9 \<le> code_of c \<and> code_of c \<le> 13 \<or> 28 \<le> code_of c \<and> code_of c \<le> 32"

definition is_digit :: "char \<Rightarrow> bool" where
  "is_digit c \<longleftrightarrow> 48 \<le> code_of c \<and> code_of c \<le> 57"

definition is_upper :: "char \<Rightarrow> bool" where
  "is_upper c \<longleftrightarrow> 65 \<le> code_of c \<and> code_of c \<le> 90"

definition is_lower :: "char \<Rightarrow> bool" where
  "is_lower c \<longleftrightarrow> 97 \<le> code_of c \<and> code_of c \<le> 122"

definition is_alnum :: "char \<Rightarrow> bool" where
  "is_alnum c \<longleftrightarrow> is_digit c \<or> is_upper c \<or> is_lower c"

definition is_word_char :: "char \<Rightarrow> bool" where
  "is_word_char c \<longleftrightarrow> is_alnum c \<or> c = CHR ''_''"

definition lower_char :: "char \<Rightarrow> char" where
  "lower_char c = (if is_upper c then char_of (code_of c + 32) else c)"

definition upper_char :: "char \<Rightarrow> char" where
  "upper_char c = (if is_lower c then char_of (code_of c - 32) else c)"

definition lower :: "string \<Rightarrow> string" where "lower = map lower_char"

definition upper :: "string \<Rightarrow> string" where "upper = map upper_char"

definition lstrip :: "string \<Rightarrow> string" where "lstrip = dropWhile is_space"

definition rstrip :: "string \<Rightarrow> string" where "rstrip s = rev (dropWhile is_space (rev s))"

definition strip :: "string \<Rightarrow> string" where "strip s = rstrip (lstrip s)"

definition starts_with :: "string \<Rightarrow> string \<Rightarrow> bool" where
  "starts_with p s \<longleftrightarrow> take (length p) s = p"

text \<open>\<open>value or ""\<close>.\<close>

definition or_empty :: "string option \<Rightarrow> string" where
  "or_empty v = (case v of None \<Rightarrow> [] | Some s \<Rightarrow> s)"

text \<open>\<open>not value\<close>.\<close>

definition is_falsy :: "string option \<Rightarrow> bool" where
  "is_falsy x \<longleftrightarrow> (case x of None \<Rightarrow> True | Some v \<Rightarrow> v = [])"

text \<open>\<open>s.split(sep)\<close> for a one-character separator, and \<open>s.split()\<close>.\<close>

fun split_on :: "char \<Rightarrow> string \<Rightarrow> string list" where
  "split_on sep [] = [[]]"
| "split_on sep (c # s) =
     (if c = sep then [] # split_on sep s
      else (case split_on sep s of [] \<Rightarrow> [[c]] | w # ws \<Rightarrow> (c # w) # ws))"

function split_ws :: "string \<Rightarrow> string list" where
  "split_ws s =
     (case dropWhile is_space s of [] \<Rightarrow> []
      | c # r \<Rightarrow> (c # takeWhile (Not \<circ> is_space) r) # split_ws (dropWhile (Not \<circ> is_space) r))"
  by pat_completeness auto
termination
proof (relation "measure length")
  fix s c r assume "dropWhile is_space s = c # r"
  then have "Suc (length r) \<le> length s" using length_dropWhile_le [of is_space s] by simp
  moreover have "length (dropWhile (Not \<circ> is_space) r) \<le> length r" by (rule length_dropWhile_le)
  ultimately show "(dropWhile (Not \<circ> is_space) r, s) \<in> measure length" by simp
qed simp

declare split_ws.simps [simp del]

fun join :: "string \<Rightarrow> string list \<Rightarrow> string" where
  "join sep [] = []"
| "join sep [w] = w"
| "join sep (w # v # ws) = w @ sep @ join sep (v # ws)"

text \<open>\<open>re.search\<close> for a word between boundaries, ignoring case: the flag tells whether the
  character before the current position is a word character.\<close>

fun has_word_from :: "string \<Rightarrow> bool \<Rightarrow> string \<Rightarrow> bool" where
  "has_word_from w prev [] = False"
| "has_word_from w prev (c # s) =
     ((\<not> prev \<and> starts_with w (c # s) \<and>
        (case drop (length w) (c # s) of [] \<Rightarrow> True | d # _ \<Rightarrow> \<not> is_word_char d)) \<or>
      has_word_from w (is_word_char c) s)"

definition has_word :: "string \<Rightarrow> string \<Rightarrow> bool" where
  "has_word w s = has_word_from w False (lower s)"

lemma lstrip_no_space: "lstrip s = c # r \<Longrightarrow> \<not> is_space c"
  unfolding lstrip_def by (metis hd_dropWhile list.distinct(1) list.sel(1))

lemma strip_idem_aux: "dropWhile is_space (dropWhile is_space s) = dropWhile is_space s"
  by (induction s) auto

lemma rstrip_idem: "rstrip (rstrip s) = rstrip s"
  by (simp add: rstrip_def strip_idem_aux)

lemma rstrip_head:
  assumes "\<not> is_space c" shows "rstrip (c # s) = c # rstrip s"
  using assms by (simp add: rstrip_def dropWhile_append3)

lemma lstrip_rstrip_lstrip: "lstrip (rstrip (lstrip s)) = rstrip (lstrip s)"
proof (cases "lstrip s")
  case Nil
  show ?thesis unfolding Nil by (simp add: lstrip_def rstrip_def)
next
  case (Cons c r)
  have c: "\<not> is_space c" by (rule lstrip_no_space [OF Cons])
  show ?thesis unfolding Cons rstrip_head [OF c] using c by (simp add: lstrip_def)
qed

lemma strip_idem [simp]: "strip (strip s) = strip s"
  by (simp add: strip_def lstrip_rstrip_lstrip rstrip_idem)

lemma strip_Nil [simp]: "strip [] = []"
  by (simp add: strip_def lstrip_def rstrip_def)

lemma split_on_not_Nil [simp]: "split_on sep s \<noteq> []"
  by (induction s) (auto split: list.splits)

lemma join_split_on: "join [sep] (split_on sep s) = s"
proof (induction s)
  case (Cons c s)
  obtain w ws where w: "split_on sep s = w # ws" by (meson neq_Nil_conv split_on_not_Nil)
  then show ?case using Cons by (cases ws) auto
qed simp

lemma split_on_no_sep: "w \<in> set (split_on sep s) \<Longrightarrow> sep \<notin> set w"
  by (induction s arbitrary: w) (auto split: list.splits if_splits)

end
