(* ===== verification/Catalogue.thy ===== *)
theory Catalogue
  imports Plans Strings
begin

text \<open>
  The plan catalogue of the control plane (\<^verbatim>\<open>app/billing/plans.py\<close>): the guard against test
  plans, the wallet top-up bundles, the priced seeds and the seeding that keeps the stored prices
  in step with the configured Stripe prices.
\<close>

section \<open>Test plans\<close>

text \<open>\<open>(?i)\be2e\b|\btest\b\<close>.\<close>

definition looks_like_test_plan ::
    "string option \<Rightarrow> string option \<Rightarrow> string option \<Rightarrow> string option \<Rightarrow> bool" where
  "looks_like_test_plan slug name stripe_price_id stripe_annual_price_id \<longleftrightarrow>
     list_ex (\<lambda>v. \<not> is_falsy v \<and> (has_word ''e2e'' (the v) \<or> has_word ''test'' (the v))) [slug, name] \<or>
     list_ex (\<lambda>p. \<not> is_falsy p \<and> starts_with ''price_fake'' (lower (strip (the p))))
       [stripe_price_id, stripe_annual_price_id]"

section \<open>Wallet top-ups\<close>

record topup_bundle =
  bundle_id :: string
  bundle_usd_cents :: int
  bundle_tokens :: int

definition wallet_topup_bundles :: "topup_bundle list" where
  "wallet_topup_bundles =
     [\<lparr>bundle_id = ''topup_10'', bundle_usd_cents = 1000, bundle_tokens = 1000000\<rparr>,
      \<lparr>bundle_id = ''topup_25'', bundle_usd_cents = 2500, bundle_tokens = 2600000\<rparr>,
      \<lparr>bundle_id = ''topup_50'', bundle_usd_cents = 5000, bundle_tokens = 5400000\<rparr>,
      \<lparr>bundle_id = ''topup_100'', bundle_usd_cents = 10000, bundle_tokens = 11200000\<rparr>]"

definition wallet_topup_bundle :: "string \<Rightarrow> topup_bundle option" where
  "wallet_topup_bundle i = find (\<lambda>b. bundle_id b = i) wallet_topup_bundles"

text \<open>\<open>max(..., key=usd_cents)\<close> keeps the first maximum and raises on no element.\<close>

definition max_by :: "('a \<Rightarrow> int) \<Rightarrow> 'a list \<Rightarrow> 'a option" where
  "max_by key xs = fold (\<lambda>x best. case best of None \<Rightarrow> Some x
      | Some b \<Rightarrow> if key b < key x then Some x else best) xs None"

definition custom_wallet_topup :: "int \<Rightarrow> error + topup_bundle" where
  "custom_wallet_topup usd_cents =
     (case max_by bundle_usd_cents (filter (\<lambda>b. bundle_usd_cents b \<le> usd_cents) wallet_topup_bundles) of
        None \<Rightarrow> Inl (PyExc ''ValueError'')
      | Some tier \<Rightarrow> Inr \<lparr>bundle_id = ''custom'', bundle_usd_cents = usd_cents,
          bundle_tokens = usd_cents * bundle_tokens tier div bundle_usd_cents tier\<rparr>)"

section \<open>Seeds\<close>

record catalogue_settings = settings +
  stripe_starter_price_id :: "string option"
  stripe_starter_annual_price_id :: "string option"
  stripe_pro_price_id :: "string option"
  stripe_pro_annual_price_id :: "string option"
  stripe_business_price_id :: "string option"
  stripe_business_annual_price_id :: "string option"
  stripe_unlimited_price_id :: "string option"
  stripe_unlimited_annual_price_id :: "string option"

record priced_seed = plan_seed +
  seed_price_cents :: int
  seed_stripe_price_id :: "string option"
  seed_annual_price_cents :: "int option"
  seed_stripe_annual_price_id :: "string option"
  seed_currency :: string

definition stripe_price_id :: "string option \<Rightarrow> string option" where
  "stripe_price_id value =
     (if is_falsy value then None
      else (let stripped = strip (the value) in if stripped = [] then None else Some stripped))"

definition annual_cents :: "int \<Rightarrow> int option" where
  "annual_cents monthly_cents = (if monthly_cents \<le> 0 then None else Some (monthly_cents * 10))"

definition catalogue_seed ::
    "string \<Rightarrow> string \<Rightarrow> string \<Rightarrow> int \<Rightarrow> int \<Rightarrow> string option \<Rightarrow> string option \<Rightarrow> int \<Rightarrow> json \<Rightarrow> bool \<Rightarrow> priced_seed"
  where
  "catalogue_seed slug name description allowance cents price annual order features unlimited =
     \<lparr>seed_slug = slug, seed_name = name, seed_description = description,
      seed_monthly_token_allowance = allowance, seed_visible = True, seed_sort_order = order,
      seed_features = features, seed_is_unlimited = unlimited, seed_price_cents = cents,
      seed_stripe_price_id = price, seed_annual_price_cents = annual_cents cents,
      seed_stripe_annual_price_id = annual, seed_currency = ''usd''\<rparr>"

definition catalogue_seeds :: "catalogue_settings \<Rightarrow> priced_seed list" where
  "catalogue_seeds cfg =
    [catalogue_seed ''free'' ''Free'' ''Free monthly token allowance for verified developers.''
       (free_monthly_token_allowance cfg) 0 None None 0
       (features_of ''community'' [''API access'']) False,
     catalogue_seed ''starter'' ''Starter'' ''Starter monthly token allowance for individual builders.''
       1000000 900 (stripe_starter_price_id cfg) (stripe_starter_annual_price_id cfg) 10
       (features_of ''standard'' [''API access'', ''Usage dashboard'']) False,
     catalogue_seed ''pro'' ''Pro'' ''Higher monthly token allowance for production workloads.''
       10000000 4900 (stripe_pro_price_id cfg) (stripe_pro_annual_price_id cfg) 20
       (features_of ''priority'' [''API access'', ''Usage dashboard'']) False,
     catalogue_seed ''business'' ''Business'' ''Business monthly token allowance for teams.''
       100000000 29900 (stripe_business_price_id cfg) (stripe_business_annual_price_id cfg) 30
       (features_of ''priority'' [''API access'', ''Usage dashboard'']) False,
     catalogue_seed ''unlimited'' ''Unlimited'' ''Unlimited inference for the highest, least predictable volume.''
       0 69900 (stripe_unlimited_price_id cfg) (stripe_unlimited_annual_price_id cfg) 40
       (features_of ''priority'' [''API access'', ''Usage dashboard'', ''Unlimited tokens'']) True]"

definition priced_plan :: "priced_seed \<Rightarrow> nat \<Rightarrow> billing_plan_row" where
  "priced_plan seed i =
     (let annual = stripe_price_id (seed_stripe_annual_price_id seed)
      in \<lparr>plan_id = i, plan_slug = seed_slug seed, plan_name = seed_name seed,
          plan_description = Some (seed_description seed),
          plan_stripe_price_id = stripe_price_id (seed_stripe_price_id seed),
          plan_monthly_token_allowance = seed_monthly_token_allowance seed,
          plan_is_unlimited = seed_is_unlimited seed, plan_active = True,
          plan_visible = seed_visible seed, plan_sort_order = seed_sort_order seed,
          plan_features = Some (seed_features seed), plan_stripe_annual_price_id = annual,
          plan_price_cents = seed_price_cents seed,
          plan_annual_price_cents = (if annual \<noteq> None then seed_annual_price_cents seed else None),
          plan_currency = seed_currency seed\<rparr>)"

text \<open>A missing or zero amount is falsy.\<close>

definition no_amount :: "int option \<Rightarrow> bool" where
  "no_amount x \<longleftrightarrow> x = None \<or> x = Some 0"

definition fill_currency :: "priced_seed \<Rightarrow> billing_plan_row \<Rightarrow> billing_plan_row" where
  "fill_currency seed plan =
     (if plan_currency plan = [] then plan\<lparr>plan_currency := seed_currency seed\<rparr> else plan)"

definition fill_free_allowance :: "priced_seed \<Rightarrow> billing_plan_row \<Rightarrow> billing_plan_row" where
  "fill_free_allowance seed plan =
     (if plan_monthly_token_allowance plan = 0 \<and> seed_monthly_token_allowance seed \<noteq> 0
         \<and> seed_price_cents seed = 0
      then plan\<lparr>plan_monthly_token_allowance := seed_monthly_token_allowance seed\<rparr> else plan)"

definition follow_price :: "priced_seed \<Rightarrow> billing_plan_row \<Rightarrow> billing_plan_row" where
  "follow_price seed plan =
     (let price = stripe_price_id (seed_stripe_price_id seed)
      in if price \<noteq> None \<and> plan_stripe_price_id plan \<noteq> price
         then plan\<lparr>plan_stripe_price_id := price, plan_price_cents := seed_price_cents seed\<rparr> else plan)"

definition follow_annual_price :: "priced_seed \<Rightarrow> billing_plan_row \<Rightarrow> billing_plan_row" where
  "follow_annual_price seed plan =
     (let annual = stripe_price_id (seed_stripe_annual_price_id seed)
      in if annual \<noteq> None \<and> plan_stripe_annual_price_id plan \<noteq> annual
         then plan\<lparr>plan_stripe_annual_price_id := annual,
                   plan_annual_price_cents := seed_annual_price_cents seed\<rparr> else plan)"

definition backfill_price :: "priced_seed \<Rightarrow> billing_plan_row \<Rightarrow> billing_plan_row" where
  "backfill_price seed plan =
     (if plan_price_cents plan = 0 \<and> \<not> is_falsy (plan_stripe_price_id plan) \<and> seed_price_cents seed \<noteq> 0
      then plan\<lparr>plan_price_cents := seed_price_cents seed\<rparr> else plan)"

definition backfill_annual_price :: "priced_seed \<Rightarrow> billing_plan_row \<Rightarrow> billing_plan_row" where
  "backfill_annual_price seed plan =
     (if no_amount (plan_annual_price_cents plan) \<and> \<not> is_falsy (plan_stripe_annual_price_id plan)
         \<and> \<not> no_amount (seed_annual_price_cents seed)
      then plan\<lparr>plan_annual_price_cents := seed_annual_price_cents seed\<rparr> else plan)"

definition drop_annual_price :: "billing_plan_row \<Rightarrow> billing_plan_row" where
  "drop_annual_price plan =
     (if is_falsy (plan_stripe_annual_price_id plan) \<and> \<not> no_amount (plan_annual_price_cents plan)
      then plan\<lparr>plan_annual_price_cents := None\<rparr> else plan)"

definition reconcile_prices :: "priced_seed \<Rightarrow> billing_plan_row \<Rightarrow> billing_plan_row" where
  "reconcile_prices seed plan =
     drop_annual_price (backfill_annual_price seed (backfill_price seed (follow_annual_price seed
       (follow_price seed (fill_free_allowance seed (fill_currency seed plan))))))"

definition catalogue_seed_plan :: "priced_seed \<Rightarrow> (ledger, unit) handler" where
  "catalogue_seed_plan seed =
     bind (select_one_or_none (\<lambda>s. filter (plan_matches (plan_seed.truncate seed)) (billing_plans s)))
       (\<lambda>found. case found of
            None \<Rightarrow> modify (\<lambda>s. s\<lparr>billing_plans := billing_plans s @ [priced_plan seed (next_id s)],
                              next_id := Suc (next_id s)\<rparr>)
          | Some plan \<Rightarrow> modify (put_plan (reconcile_prices seed (reconcile_plan (plan_seed.truncate seed) plan))))"

definition catalogue_seed_plans :: "catalogue_settings \<Rightarrow> (ledger, unit) handler" where
  "catalogue_seed_plans cfg = for_each catalogue_seed_plan (catalogue_seeds cfg)"

section \<open>Reconciling\<close>

lemma stripe_price_id_Some: "stripe_price_id v = Some x \<Longrightarrow> \<not> is_falsy (Some x)"
  by (auto simp: stripe_price_id_def is_falsy_def Let_def split: if_splits)

text \<open>What seeding guarantees of the amounts of a row: no annual amount without an annual price, and
  an amount follows the price it is shown for.\<close>

lemma drop_annual_consistent:
  "is_falsy (plan_stripe_annual_price_id (drop_annual_price q)) \<Longrightarrow> no_amount (plan_annual_price_cents (drop_annual_price q))"
  by (simp add: drop_annual_price_def no_amount_def split: if_splits)

lemma reconcile_prices_annual:
  "is_falsy (plan_stripe_annual_price_id (reconcile_prices seed q)) \<Longrightarrow>
     no_amount (plan_annual_price_cents (reconcile_prices seed q))"
  unfolding reconcile_prices_def by (rule drop_annual_consistent)

lemma monthly_price_kept:
  "plan_stripe_price_id (drop_annual_price q) = plan_stripe_price_id q"
  "plan_stripe_price_id (backfill_annual_price seed q) = plan_stripe_price_id q"
  "plan_stripe_price_id (backfill_price seed q) = plan_stripe_price_id q"
  "plan_stripe_price_id (follow_annual_price seed q) = plan_stripe_price_id q"
  "plan_price_cents (drop_annual_price q) = plan_price_cents q"
  "plan_price_cents (backfill_annual_price seed q) = plan_price_cents q"
  "plan_price_cents (follow_annual_price seed q) = plan_price_cents q"
  "plan_stripe_price_id (fill_free_allowance seed q) = plan_stripe_price_id q"
  "plan_stripe_price_id (fill_currency seed q) = plan_stripe_price_id q"
  by (simp_all add: drop_annual_price_def backfill_annual_price_def backfill_price_def
      follow_annual_price_def fill_free_allowance_def fill_currency_def Let_def)

lemma reconcile_prices_follow:
  assumes "stripe_price_id (seed_stripe_price_id seed) = Some x"
  shows "plan_stripe_price_id (reconcile_prices seed q) = Some x"
    and "plan_stripe_price_id q \<noteq> Some x \<Longrightarrow> plan_price_cents (reconcile_prices seed q) = seed_price_cents seed"
  using assms
  by (auto simp: reconcile_prices_def monthly_price_kept follow_price_def backfill_price_def Let_def)

section \<open>Top-ups\<close>

lemma custom_wallet_topup_tiers:
  "custom_wallet_topup c = (if c < 1000 then Inl (PyExc ''ValueError'')
     else let (t, u) = (if c < 2500 then (1000000, 1000) else if c < 5000 then (2600000, 2500)
                        else if c < 10000 then (5400000, 5000) else (11200000, 10000))
          in Inr \<lparr>bundle_id = ''custom'', bundle_usd_cents = c, bundle_tokens = c * t div u\<rparr>)"
  by (simp add: custom_wallet_topup_def max_by_def wallet_topup_bundles_def)

definition topup_tokens :: "int \<Rightarrow> int" where
  "topup_tokens c = (case custom_wallet_topup c of Inl _ \<Rightarrow> 0 | Inr b \<Rightarrow> bundle_tokens b)"

lemma topup_tokens_tiers:
  "topup_tokens c = (if c < 1000 then 0 else if c < 2500 then c * 1000000 div 1000
     else if c < 5000 then c * 2600000 div 2500 else if c < 10000 then c * 5400000 div 5000
     else c * 11200000 div 10000)"
  by (simp add: topup_tokens_def custom_wallet_topup_tiers)

text \<open>A custom top-up never buys fewer tokens for more money, buys at least the smallest bundle's
  rate, and at the price of a bundle buys exactly the bundle; below the smallest bundle it raises.\<close>

theorem custom_topup_fair:
  assumes "1000 \<le> c" "c \<le> d"
  shows "topup_tokens c \<le> topup_tokens d \<and> 1000 * c \<le> topup_tokens c \<and>
    list_all (\<lambda>b. topup_tokens (bundle_usd_cents b) = bundle_tokens b) wallet_topup_bundles \<and>
    custom_wallet_topup 999 = Inl (PyExc ''ValueError'')"
proof (intro conjI)
  show "topup_tokens c \<le> topup_tokens d"
    using assms unfolding topup_tokens_tiers by simp
  show "1000 * c \<le> topup_tokens c"
    using assms unfolding topup_tokens_tiers by simp
qed (simp_all add: wallet_topup_bundles_def topup_tokens_tiers custom_wallet_topup_tiers)

lemma custom_topup_fair_witness: "topup_tokens 2499 \<le> topup_tokens 2500 \<and> topup_tokens 2500 = 2600000"
  using custom_topup_fair [of 2499 2500] by (simp add: topup_tokens_tiers)

text \<open>The largest bundle undercuts the rate the comment promises as a floor: its price per
  million tokens is below 900 cents.\<close>

theorem largest_bundle_below_floor:
  "\<exists>b. wallet_topup_bundle ''topup_100'' = Some b \<and>
       bundle_usd_cents b * 1000000 < 900 * bundle_tokens b"
  by (simp add: wallet_topup_bundle_def wallet_topup_bundles_def)

text \<open>Seeding keeps prices and amounts in step: a row that carries no annual price shows no
  annual amount, and when a monthly price is configured the row points at it, with the catalogue's
  amount whenever it pointed elsewhere.\<close>

theorem seeded_prices_in_step:
  "(is_falsy (plan_stripe_annual_price_id (reconcile_prices seed q)) \<longrightarrow>
      no_amount (plan_annual_price_cents (reconcile_prices seed q))) \<and>
   (\<forall>x. stripe_price_id (seed_stripe_price_id seed) = Some x \<longrightarrow>
      plan_stripe_price_id (reconcile_prices seed q) = Some x \<and>
      (plan_stripe_price_id q \<noteq> Some x \<longrightarrow> plan_price_cents (reconcile_prices seed q) = seed_price_cents seed))"
  using reconcile_prices_annual reconcile_prices_follow by blast

lemma seeded_prices_in_step_witness:
  "plan_price_cents (reconcile_prices
      (catalogue_seed ''pro'' ''Pro'' ''d'' 5 4900 (Some '' price_1 '') None 20 JNull False)
      (priced_plan (catalogue_seed ''pro'' ''Pro'' ''d'' 5 4900 None None 20 JNull False) 7)) = 4900"
proof -
  have "stripe_price_id (seed_stripe_price_id
      (catalogue_seed ''pro'' ''Pro'' ''d'' 5 4900 (Some '' price_1 '') None 20 JNull False)) = Some ''price_1''"
    by (simp add: catalogue_seed_def stripe_price_id_def is_falsy_def strip_def lstrip_def rstrip_def
        is_space_def code_of_def)
  moreover have "plan_stripe_price_id
      (priced_plan (catalogue_seed ''pro'' ''Pro'' ''d'' 5 4900 None None 20 JNull False) 7) \<noteq> Some ''price_1''"
    by (simp add: catalogue_seed_def priced_plan_def stripe_price_id_def is_falsy_def Let_def)
  ultimately show ?thesis using seeded_prices_in_step by (fastforce simp: catalogue_seed_def)
qed

end
