(* ===== verification/KeyLimits.thy ===== *)
theory KeyLimits
  imports Plans
begin

text \<open>
  The spend caps of an API key (\<^verbatim>\<open>inference_api/key_limits.py\<close>) and the read-only mirror the
  dashboard uses (\<^verbatim>\<open>app/api_keys/limits.py\<close>). The lemmas characterise when a reservation is
  let through, show that the check reads only, and that the two planes agree.
\<close>

text \<open>The exact Decimal amount of cents is kept in millionths of a cent.\<close>

type_synonym micro_cents = int

definition wallet_tokens_to_usd_cents :: "settings \<Rightarrow> int \<Rightarrow> micro_cents" where
  "wallet_tokens_to_usd_cents cfg tokens = tokens * api_key_usd_cents_per_million_credits cfg"

definition live_reservation :: "time \<Rightarrow> usage_event \<Rightarrow> bool" where
  "live_reservation now e \<longleftrightarrow> ev_status e = Reserved \<and> ev_expires_at e > now"

definition spent_credits :: "time \<Rightarrow> usage_event \<Rightarrow> int" where
  "spent_credits now e =
     (if ev_status e = Settled then ev_charged_tokens e
      else if live_reservation now e then ev_reserved_tokens e else 0)"

definition spent_wallet :: "time \<Rightarrow> usage_event \<Rightarrow> int" where
  "spent_wallet now e =
     (if ev_status e = Settled then ev_wallet_reserved_tokens e
      else if live_reservation now e then ev_wallet_reserved_tokens e else 0)"

definition key_events :: "nat \<Rightarrow> time option \<Rightarrow> ledger \<Rightarrow> usage_event list" where
  "key_events kid period_start s =
     filter (\<lambda>e. ev_api_key_id e = Some kid \<and>
               (case period_start of None \<Rightarrow> True | Some start \<Rightarrow> ev_created_at e \<ge> start))
       (inference_usage_events s)"

definition key_spend :: "time \<Rightarrow> nat \<Rightarrow> time option \<Rightarrow> ledger \<Rightarrow> int \<times> int" where
  "key_spend now kid period_start s =
     (let es = key_events kid period_start s
      in (sum_list (map (spent_credits now) es), sum_list (map (spent_wallet now) es)))"

definition limit_exceeded :: "string \<Rightarrow> error" where
  "limit_exceeded code = HttpError 402 code"

definition enforce_spend_limits :: "settings \<Rightarrow> time \<Rightarrow> nat option \<Rightarrow> int \<Rightarrow> int \<Rightarrow> (ledger, unit) handler"
  where
  "enforce_spend_limits cfg now api_key_id additional_credits additional_wallet_tokens =
     (case api_key_id of None \<Rightarrow> ret ()
      | Some kid \<Rightarrow>
          bind (gets (\<lambda>s. find (\<lambda>k. key_id k = kid) (api_keys s))) (\<lambda>found.
            case found of None \<Rightarrow> ret ()
            | Some db_key \<Rightarrow>
                if key_credit_limit db_key = None \<and> key_usd_limit_cents db_key = None then ret ()
                else
                  (let period_start = fst (limit_window (key_limit_period db_key) now)
                   in bind (gets (key_spend now kid period_start)) (\<lambda>(credits_used, wallet_used).
                        then_do
                          (case key_credit_limit db_key of None \<Rightarrow> ret ()
                           | Some cap \<Rightarrow>
                               guard_or (\<not> credits_used + additional_credits > cap)
                                 (limit_exceeded ''api_key_credit_limit_exceeded''))
                          (case key_usd_limit_cents db_key of None \<Rightarrow> ret ()
                           | Some cap \<Rightarrow>
                               if additional_wallet_tokens > 0
                               then guard_or
                                 (\<not> wallet_tokens_to_usd_cents cfg (wallet_used + additional_wallet_tokens)
                                    > cap * 1000000)
                                 (limit_exceeded ''api_key_usd_limit_exceeded'')
                               else ret ())))))"

section \<open>What the check decides\<close>

definition within_caps :: "settings \<Rightarrow> time \<Rightarrow> api_key_row \<Rightarrow> int \<Rightarrow> int \<Rightarrow> ledger \<Rightarrow> bool" where
  "within_caps cfg now k credits wallet s \<longleftrightarrow>
     (let used = key_spend now (key_id k) (fst (limit_window (key_limit_period k) now)) s
      in (\<forall>cap. key_credit_limit k = Some cap \<longrightarrow> fst used + credits \<le> cap) \<and>
         (\<forall>cap. key_usd_limit_cents k = Some cap \<longrightarrow> wallet > 0 \<longrightarrow>
            wallet_tokens_to_usd_cents cfg (snd used + wallet) \<le> cap * 1000000))"

lemma enforce_spend_limits_state: "snd (enforce_spend_limits cfg now kid c w s) = s"
  by (auto simp: enforce_spend_limits_def handler_defs Let_def split: option.splits prod.splits)

lemma enforce_spend_limits_pass:
  assumes "find (\<lambda>k. key_id k = kid) (api_keys s) = Some k"
  shows "enforce_spend_limits cfg now (Some kid) c w s = (Inr (), s) \<longleftrightarrow> within_caps cfg now k c w s"
proof -
  have "key_id k = kid" using assms by (auto simp: find_Some_iff)
  then show ?thesis
    using assms
    by (auto simp: enforce_spend_limits_def handler_defs Let_def within_caps_def
        split: option.splits prod.splits)
qed

lemma enforce_spend_limits_error:
  assumes "enforce_spend_limits cfg now kid c w s = (Inl e, s')"
  shows "e = limit_exceeded ''api_key_credit_limit_exceeded'' \<or> e = limit_exceeded ''api_key_usd_limit_exceeded''"
  using assms
  by (auto simp: enforce_spend_limits_def handler_defs Let_def split: option.splits prod.splits if_splits)

section \<open>The dashboard's mirror\<close>

definition api_wallet_tokens_to_usd_cents :: "settings \<Rightarrow> int \<Rightarrow> int" where
  "api_wallet_tokens_to_usd_cents cfg tokens =
     - ((- (tokens * api_key_usd_cents_per_million_credits cfg)) div 1000000)"

definition api_limit_window :: "string option \<Rightarrow> time \<Rightarrow> time option \<times> time option" where
  "api_limit_window period current =
     (if period = Some ''daily'' then
        (let start = mk_datetime (year_of current) (month_of current) (day_of current) 0 0 0
         in (Some start, Some (start + day_us)))
      else if period = Some ''monthly'' then
        (let start = mk_datetime (year_of current) (month_of current) 1 0 0 0
         in if month_of current = 12
            then (Some start, Some (mk_datetime (year_of current + 1) 1 1 0 0 0))
            else (Some start, Some (mk_datetime (year_of current) (month_of current + 1) 1 0 0 0)))
      else (None, None))"

definition api_key_spend :: "time \<Rightarrow> nat \<Rightarrow> time option \<Rightarrow> ledger \<Rightarrow> int \<times> int" where
  "api_key_spend now kid period_start s =
     (let mine = filter (\<lambda>e. ev_api_key_id e = Some kid) (inference_usage_events s);
          selected = (case period_start of None \<Rightarrow> mine
                      | Some start \<Rightarrow> filter (\<lambda>e. ev_created_at e \<ge> start) mine);
          live = (\<lambda>e. ev_status e = Reserved \<and> ev_expires_at e > now)
      in (\<Sum>e \<leftarrow> selected. if ev_status e = Settled then ev_charged_tokens e
                          else if live e then ev_reserved_tokens e else 0,
          \<Sum>e \<leftarrow> selected. if ev_status e = Settled then ev_wallet_reserved_tokens e
                          else if live e then ev_wallet_reserved_tokens e else 0))"

record key_spend_view =
  view_api_key_id :: nat
  view_limit_period :: "string option"
  view_period_start :: "time option"
  view_resets_at :: "time option"
  view_credits_used :: int
  view_usd_cents_used :: int
  view_credit_limit :: "int option"
  view_usd_limit_cents :: "int option"

definition key_spend_summary :: "settings \<Rightarrow> time \<Rightarrow> api_key_row \<Rightarrow> ledger \<Rightarrow> key_spend_view" where
  "key_spend_summary cfg now db_key s =
     (let (period_start, resets_at) = api_limit_window (key_limit_period db_key) now;
          (credits_used, wallet_used) = api_key_spend now (key_id db_key) period_start s
      in \<lparr>view_api_key_id = key_id db_key, view_limit_period = key_limit_period db_key,
          view_period_start = period_start, view_resets_at = resets_at,
          view_credits_used = credits_used,
          view_usd_cents_used = api_wallet_tokens_to_usd_cents cfg wallet_used,
          view_credit_limit = key_credit_limit db_key,
          view_usd_limit_cents = key_usd_limit_cents db_key\<rparr>)"

lemma api_key_spend_eq: "api_key_spend now kid start s = key_spend now kid start s"
  by (cases start)
    (simp_all add: api_key_spend_def key_spend_def key_events_def Let_def
      spent_credits_def [abs_def] spent_wallet_def [abs_def] live_reservation_def conj_commute cong: if_cong)

lemma api_limit_window_eq: "api_limit_window = limit_window"
  by (intro ext) (simp add: api_limit_window_def limit_window_def)

lemma ceiling_div: "0 < k \<Longrightarrow> - ((- a) div k) \<le> c \<longleftrightarrow> a \<le> c * (k::int)"
proof -
  assume k: "0 < k"
  have d: "- a = k * (- a div k) + - a mod k" "0 \<le> - a mod k" "- a mod k < k"
    using k by simp_all
  show ?thesis
  proof
    assume "- (- a div k) \<le> c"
    then have "k * (- c) \<le> k * (- a div k)" using k by (intro mult_left_mono) auto
    then show "a \<le> c * k" using d(1,2) mult.commute [of c k] by linarith
  next
    assume "a \<le> c * k"
    then have "- c * k div k \<le> - a div k" using k by (intro zdiv_mono1) simp_all
    then show "- (- a div k) \<le> c"
      using nonzero_mult_div_cancel_right [of k "- c"] k by linarith
  qed
qed

text \<open>The dashboard's rounded amount exceeds a cap exactly when the enforced exact amount does.\<close>

lemma dashboard_cents_exceed:
  "api_wallet_tokens_to_usd_cents cfg tokens > cap \<longleftrightarrow>
     wallet_tokens_to_usd_cents cfg tokens > cap * 1000000"
  using ceiling_div [of 1000000 "tokens * api_key_usd_cents_per_million_credits cfg" cap]
  by (auto simp: api_wallet_tokens_to_usd_cents_def wallet_tokens_to_usd_cents_def not_le [symmetric])

lemma key_spend_summary_fields:
  "view_credits_used (key_spend_summary cfg now k s)
     = fst (key_spend now (key_id k) (fst (limit_window (key_limit_period k) now)) s)"
  "view_usd_cents_used (key_spend_summary cfg now k s)
     = api_wallet_tokens_to_usd_cents cfg (snd (key_spend now (key_id k) (fst (limit_window (key_limit_period k) now)) s))"
  "view_credit_limit (key_spend_summary cfg now k s) = key_credit_limit k"
  "view_usd_limit_cents (key_spend_summary cfg now k s) = key_usd_limit_cents k"
  by (simp_all add: key_spend_summary_def api_limit_window_eq api_key_spend_eq split: prod.splits)

end
