(* ===== verification/Usage.thy ===== *)
theory Usage
  imports KeyLimits
begin

text \<open>
  \<^verbatim>\<open>UsageService\<close> of \<^verbatim>\<open>inference_api/usage.py\<close>: reservations against the period allowance
  and the wallet, settlement, release, expiry and the recalculation of the current period.
  One instant \<open>now\<close> stands for the clock readings of one operation. An ORM object a caller holds
  is the row it stands for. A failing operation leaves the session as the code leaves it; the
  callers roll the session back.
\<close>

section \<open>Charges\<close>

text \<open>\<open>(Decimal(raw) * multiplier).to_integral_value(ROUND_CEILING)\<close> with the multiplier in
  ten-thousandths.\<close>

definition charged_token_count :: "int \<Rightarrow> decimal4 \<Rightarrow> int" where
  "charged_token_count raw_tokens multiplier = - ((- (raw_tokens * multiplier)) div 10000)"

section \<open>Queries\<close>

definition active_subscription_statuses :: "string list" where
  "active_subscription_statuses = [''active'', ''trialing'']"

definition active_subscription :: "nat \<Rightarrow> (ledger, subscription_row option) handler" where
  "active_subscription uid =
     select_one_or_none (\<lambda>s. filter (\<lambda>r. sub_user_id r = uid \<and> sub_status r \<in> set active_subscription_statuses)
       (user_subscriptions s))"

definition get_plan :: "nat \<Rightarrow> ledger \<Rightarrow> billing_plan_row option" where
  "get_plan pid s = find (\<lambda>p. plan_id p = pid) (billing_plans s)"

definition is_unlimited_subscriber :: "nat \<Rightarrow> (ledger, bool) handler" where
  "is_unlimited_subscriber uid =
     bind (active_subscription uid) (\<lambda>subscription.
       case subscription of None \<Rightarrow> ret False
       | Some sub \<Rightarrow>
           (case sub_plan_id sub of None \<Rightarrow> ret False
            | Some pid \<Rightarrow> gets (\<lambda>s. case get_plan pid s of None \<Rightarrow> False
                                    | Some plan \<Rightarrow> plan_active plan \<and> plan_is_unlimited plan)))"

definition lock_period :: "nat \<Rightarrow> (ledger, usage_period) handler" where
  "lock_period pid = select_one (\<lambda>s. filter (\<lambda>p. per_id p = pid) (usage_periods s))"

definition current_period_bounds ::
    "settings \<Rightarrow> time \<Rightarrow> user_row \<Rightarrow> (ledger, time \<times> time \<times> subscription_row option) handler" where
  "current_period_bounds cfg now user =
     bind (active_subscription (usr_id user)) (\<lambda>active.
       let fallback = (case token_reset_mode cfg of
                CalendarMonth \<Rightarrow> calendar_month_period cfg now
              | Weekly \<Rightarrow> weekly_period cfg now
              | AccountCreation \<Rightarrow> account_creation_period (usr_created_at user) now)
       in ret (case active of
            Some sub \<Rightarrow> (case (sub_current_period_start sub, sub_current_period_end sub) of
                (Some start, Some end) \<Rightarrow> (start, end, active)
              | _ \<Rightarrow> (fst fallback, snd fallback, active))
          | None \<Rightarrow> (fst fallback, snd fallback, active)))"

definition get_or_create_period :: "time \<Rightarrow> user_row \<Rightarrow> time \<Rightarrow> time \<Rightarrow> (ledger, usage_period) handler" where
  "get_or_create_period now user period_start period_end =
     bind (select_one_or_none (\<lambda>s. filter (\<lambda>p. per_user_id p = usr_id user \<and>
             per_period_start p = period_start \<and> per_period_end p = period_end) (usage_periods s)))
       (\<lambda>found. case found of
            Some period \<Rightarrow> ret period
          | None \<Rightarrow>
              bind (gets next_id) (\<lambda>i.
                let period = \<lparr>per_id = i, per_user_id = usr_id user, per_period_start = period_start,
                      per_period_end = period_end, per_stripe_allowance = 0,
                      per_ethereum_erc20_allowance = 0, per_substrate_native_allowance = 0,
                      per_subnet_stake_allowance = 0, per_manual_allowance = 0,
                      per_total_allowance = 0, per_used_tokens = 0, per_remaining_tokens = 0,
                      per_calculated_at = now\<rparr>
                in then_do (modify (\<lambda>s. s\<lparr>usage_periods := usage_periods s @ [period], next_id := Suc i\<rparr>))
                     (ret period)))"

definition stripe_allowance :: "subscription_row option \<Rightarrow> (ledger, int) handler" where
  "stripe_allowance active =
     bind (gets (\<lambda>s. case active of None \<Rightarrow> None
            | Some sub \<Rightarrow> (case sub_plan_id sub of None \<Rightarrow> None | Some pid \<Rightarrow> get_plan pid s)))
       (\<lambda>plan.
          if (case plan of None \<Rightarrow> False | Some p \<Rightarrow> plan_active p)
          then ret (plan_monthly_token_allowance (the plan))
          else bind (select_one_or_none (\<lambda>s. filter (\<lambda>p. plan_slug p = ''free'' \<or> plan_name p = ''Free'')
                        (billing_plans s)))
                 (\<lambda>free_plan. ret (case free_plan of None \<Rightarrow> 0
                    | Some p \<Rightarrow> if plan_active p then plan_monthly_token_allowance p else 0)))"

text \<open>\<open>ORDER BY checked_at DESC LIMIT 1\<close>; among rows of the same instant the database may return
  any, here the first.\<close>

definition latest_snapshot :: "snapshot_row list \<Rightarrow> snapshot_row option" where
  "latest_snapshot rows =
     fold (\<lambda>r best. case best of None \<Rightarrow> Some r
            | Some b \<Rightarrow> if snap_checked_at b < snap_checked_at r then Some r else best) rows None"

definition latest_crypto_allowance :: "nat \<Rightarrow> string \<Rightarrow> string \<Rightarrow> ledger \<Rightarrow> int" where
  "latest_crypto_allowance uid chain token_type s =
     (case latest_snapshot (filter (\<lambda>r. snap_user_id r = uid \<and> snap_chain r = chain \<and>
              snap_token_type r = token_type \<and> snap_error_message r = None)
            (crypto_balance_snapshots s))
      of None \<Rightarrow> 0 | Some snapshot \<Rightarrow> snap_inference_token_allowance snapshot)"

definition manual_allowance :: "nat \<Rightarrow> time \<Rightarrow> time \<Rightarrow> ledger \<Rightarrow> int" where
  "manual_allowance uid period_start period_end s =
     (\<Sum>a \<leftarrow> filter (\<lambda>a. adj_user_id a = uid \<and> adj_created_at a \<ge> period_start \<and>
                       adj_created_at a < period_end) (manual_token_adjustments s). adj_amount a)"

definition counted_tokens :: "time \<Rightarrow> usage_event \<Rightarrow> int" where
  "counted_tokens now e =
     (if ev_status e = Settled then ev_charged_tokens e - ev_wallet_reserved_tokens e
      else if ev_status e = Reserved \<and> ev_expires_at e > now
      then ev_reserved_tokens e - ev_wallet_reserved_tokens e else 0)"

definition period_used_tokens :: "time \<Rightarrow> nat \<Rightarrow> ledger \<Rightarrow> int" where
  "period_used_tokens now pid s =
     sum_list (map (counted_tokens now) (filter (\<lambda>e. ev_usage_period_id e = pid) (inference_usage_events s)))"

section \<open>Expiry\<close>

text \<open>The pair of assignments to \<open>used_tokens\<close> and \<open>remaining_tokens\<close> every operation ends with.\<close>

definition with_used :: "usage_period \<Rightarrow> int \<Rightarrow> usage_period" where
  "with_used period used =
     period\<lparr>per_used_tokens := used,
            per_remaining_tokens := max 0 (per_total_allowance period - used)\<rparr>"

definition give_back :: "time \<Rightarrow> usage_event \<Rightarrow> event_status \<Rightarrow> (ledger, unit) handler" where
  "give_back now event status =
     bind (lock_period (ev_usage_period_id event)) (\<lambda>period.
       let period_portion = ev_reserved_tokens event - ev_wallet_reserved_tokens event
       in then_do (modify (put_period (with_used period (max 0 (per_used_tokens period - period_portion)))))
         (then_do
            (if ev_wallet_reserved_tokens event \<noteq> 0
             then refund_wallet now (ev_user_id event) (ev_wallet_reserved_tokens event) else ret ())
            (modify (put_event (event\<lparr>ev_status := status, ev_released_at := Some now\<rparr>)))))"

definition expire_event :: "time \<Rightarrow> usage_event \<Rightarrow> (ledger, unit) handler" where
  "expire_event now event = give_back now event Expired"

definition stale_events :: "time \<Rightarrow> nat option \<Rightarrow> ledger \<Rightarrow> usage_event list" where
  "stale_events now user_id s =
     filter (\<lambda>e. ev_status e = Reserved \<and> ev_expires_at e \<le> now \<and>
                 (case user_id of None \<Rightarrow> True | Some u \<Rightarrow> ev_user_id e = u))
       (inference_usage_events s)"

definition expire_stale_reservations :: "time \<Rightarrow> nat option \<Rightarrow> (ledger, nat) handler" where
  "expire_stale_reservations now user_id =
     bind (gets (stale_events now user_id)) (\<lambda>stale.
       then_do (for_each (expire_event now) stale) (ret (length stale)))"

section \<open>The current period\<close>

definition recalculate_current_period :: "settings \<Rightarrow> time \<Rightarrow> user_row \<Rightarrow> (ledger, usage_period) handler" where
  "recalculate_current_period cfg now user =
     then_do (expire_stale_reservations now (Some (usr_id user)))
    (then_do (seed_default_billing_plans cfg)
    (bind (current_period_bounds cfg now user) (\<lambda>(period_start, period_end, active).
     bind (get_or_create_period now user period_start period_end) (\<lambda>period.
     bind (stripe_allowance active) (\<lambda>stripe.
     bind (gets (latest_crypto_allowance (usr_id user) ''ethereum'' ''erc20'')) (\<lambda>ethereum.
     bind (gets (latest_crypto_allowance (usr_id user) ''substrate_evm'' ''native'')) (\<lambda>substrate.
     bind (gets (latest_crypto_allowance (usr_id user) ''hypertensor'' ''subnet_stake'')) (\<lambda>stake.
     bind (gets (manual_allowance (usr_id user) period_start period_end)) (\<lambda>manual.
     bind (gets (period_used_tokens now (per_id period))) (\<lambda>used.
       let total = stripe + ethereum + substrate + stake + manual;
           period = period\<lparr>per_stripe_allowance := stripe, per_ethereum_erc20_allowance := ethereum,
             per_substrate_native_allowance := substrate, per_subnet_stake_allowance := stake,
             per_manual_allowance := manual, per_total_allowance := total, per_used_tokens := used,
             per_remaining_tokens := max 0 (total - used), per_calculated_at := now\<rparr>
       in then_do (modify (put_period period)) (ret period)))))))))))"

section \<open>Reservation\<close>

record reserve_args =
  ra_api_key_id :: nat
  ra_router_client_id :: "nat option"
  ra_miner_id :: "nat option"
  ra_miner_hotkey :: "string option"
  ra_model :: string
  ra_prompt_tokens :: int
  ra_max_completion_tokens :: int
  ra_request_id :: "string option"
  ra_context_request_id :: "string option"
  ra_random_request_id :: string
  ra_expires_at :: "time option"

text \<open>\<open>request_id or request_id_ctx.get() or str(uuid.uuid4())\<close>: an empty string is falsy.\<close>

definition truthy :: "string option \<Rightarrow> bool" where
  "truthy x \<longleftrightarrow> (case x of None \<Rightarrow> False | Some v \<Rightarrow> v \<noteq> [])"

definition effective_request_id :: "reserve_args \<Rightarrow> string" where
  "effective_request_id ra =
     (if truthy (ra_request_id ra) then the (ra_request_id ra)
      else if truthy (ra_context_request_id ra) then the (ra_context_request_id ra)
      else ra_random_request_id ra)"

definition find_request :: "nat \<Rightarrow> string \<Rightarrow> (ledger, usage_event option) handler" where
  "find_request uid request_id =
     select_one_or_none (\<lambda>s. filter (\<lambda>e. ev_user_id e = uid \<and> ev_request_id e = request_id)
       (inference_usage_events s))"

definition split_reservation ::
    "user_row \<Rightarrow> usage_period \<Rightarrow> int \<Rightarrow> (ledger, int \<times> int \<times> wallet_row option) handler" where
  "split_reservation user locked_period reserved_tokens =
     bind (is_unlimited_subscriber (usr_id user)) (\<lambda>unlimited.
       if unlimited then ret (reserved_tokens, 0, None)
       else
         (let allowance_portion = min reserved_tokens (per_remaining_tokens locked_period);
              wallet_portion = reserved_tokens - allowance_portion
          in if wallet_portion > 0 then
               bind (lock_or_create_wallet (usr_id user)) (\<lambda>wallet.
                 then_do (guard_or (\<not> wal_balance_tokens wallet < wallet_portion) payment_required)
                   (ret (allowance_portion, wallet_portion, Some wallet)))
             else ret (allowance_portion, wallet_portion, None)))"

definition new_event ::
    "settings \<Rightarrow> time \<Rightarrow> user_row \<Rightarrow> reserve_args \<Rightarrow> nat \<Rightarrow> usage_period \<Rightarrow> string \<Rightarrow> decimal4 \<Rightarrow>
     int \<Rightarrow> int \<Rightarrow> int \<Rightarrow> usage_event" where
  "new_event cfg now user ra i locked_period request_id multiplier raw reserved_tokens wallet_portion =
     \<lparr>ev_id = i, ev_usage_period_id = per_id locked_period, ev_user_id = usr_id user,
      ev_api_key_id = Some (ra_api_key_id ra), ev_router_client_id = ra_router_client_id ra,
      ev_miner_id = ra_miner_id ra, ev_miner_hotkey = ra_miner_hotkey ra,
      ev_miner_model_hash = None, ev_miner_model_id = None, ev_request_id = request_id,
      ev_model = ra_model ra, ev_prompt_tokens = ra_prompt_tokens ra, ev_completion_tokens = 0,
      ev_raw_total_tokens = raw, ev_model_multiplier = multiplier,
      ev_reserved_tokens = reserved_tokens, ev_wallet_reserved_tokens = wallet_portion,
      ev_charged_tokens = 0, ev_status = Reserved,
      ev_expires_at = (case ra_expires_at ra of Some t \<Rightarrow> t
         | None \<Rightarrow> now + router_reservation_ttl_seconds cfg * second_us),
      ev_settled_at = None, ev_released_at = None, ev_created_at = now\<rparr>"

definition add_event :: "usage_event \<Rightarrow> ledger \<Rightarrow> ledger" where
  "add_event e s =
     s\<lparr>inference_usage_events := inference_usage_events s @ [e], next_id := Suc (ev_id e)\<rparr>"

definition debit_wallet :: "time \<Rightarrow> wallet_row option \<Rightarrow> int \<Rightarrow> (ledger, unit) handler" where
  "debit_wallet now wallet wallet_portion =
     (if wallet_portion > 0 then
        (case wallet of None \<Rightarrow> raise (PyExc ''AssertionError'')
         | Some w \<Rightarrow> modify (move_balance now w (- wallet_portion) ''debit''))
      else ret ())"

definition reserve_new ::
    "settings \<Rightarrow> time \<Rightarrow> user_row \<Rightarrow> reserve_args \<Rightarrow> string \<Rightarrow> usage_period \<Rightarrow> (ledger, usage_event) handler"
  where
  "reserve_new cfg now user ra request_id locked_period =
     bind (multiplier_for_model (ra_model ra)) (\<lambda>multiplier.
       let raw = ra_prompt_tokens ra + ra_max_completion_tokens ra;
           reserved_tokens = charged_token_count raw multiplier
       in bind (split_reservation user locked_period reserved_tokens)
            (\<lambda>(allowance_portion, wallet_portion, wallet).
          then_do (enforce_spend_limits cfg now (Some (ra_api_key_id ra)) reserved_tokens wallet_portion)
         (then_do (modify (put_period (with_used locked_period
                     (per_used_tokens locked_period + allowance_portion))))
         (then_do (debit_wallet now wallet wallet_portion)
         (bind (gets next_id) (\<lambda>i.
            let event = new_event cfg now user ra i locked_period request_id multiplier raw
                          reserved_tokens wallet_portion
            in then_do (modify (add_event event)) (ret event)))))))"

definition reserve_inference_tokens ::
    "settings \<Rightarrow> time \<Rightarrow> user_row \<Rightarrow> reserve_args \<Rightarrow> (ledger, usage_event) handler" where
  "reserve_inference_tokens cfg now user ra =
     (let request_id = effective_request_id ra
      in then_do (expire_stale_reservations now (Some (usr_id user)))
        (bind (find_request (usr_id user) request_id) (\<lambda>existing.
           case existing of Some event \<Rightarrow> ret event
           | None \<Rightarrow>
               bind (recalculate_current_period cfg now user) (\<lambda>period.
               bind (lock_period (per_id period)) (\<lambda>locked_period.
               bind (find_request (usr_id user) request_id) (\<lambda>existing.
                 case existing of Some event \<Rightarrow> ret event
                 | None \<Rightarrow> reserve_new cfg now user ra request_id locked_period))))))"

section \<open>Settlement\<close>

definition split_settlement ::
    "usage_event \<Rightarrow> usage_period \<Rightarrow> int \<Rightarrow> (ledger, int \<times> int \<times> wallet_row option) handler" where
  "split_settlement event period charged_tokens =
     (let old_period_portion = ev_reserved_tokens event - ev_wallet_reserved_tokens event;
          old_wallet_portion = ev_wallet_reserved_tokens event
      in bind (is_unlimited_subscriber (ev_user_id event)) (\<lambda>unlimited.
           if unlimited then ret (charged_tokens, 0, None)
           else
             (let available_allowance = per_remaining_tokens period + old_period_portion;
                  new_period_portion = min charged_tokens available_allowance;
                  new_wallet_portion = charged_tokens - new_period_portion
              in bind (if new_wallet_portion > 0 \<or> old_wallet_portion > 0
                       then bind (lock_or_create_wallet (ev_user_id event)) (\<lambda>w. ret (Some w))
                       else ret None)
                   (\<lambda>wallet.
                     let available_wallet =
                           (case wallet of None \<Rightarrow> 0 | Some w \<Rightarrow> wal_balance_tokens w) + old_wallet_portion
                     in then_do (guard_or (\<not> new_wallet_portion > available_wallet) payment_required)
                          (ret (new_period_portion, new_wallet_portion, wallet))))))"

definition settle_wallet :: "time \<Rightarrow> wallet_row option \<Rightarrow> int \<Rightarrow> (ledger, unit) handler" where
  "settle_wallet now wallet net_delta =
     (if net_delta \<noteq> 0 then
        (case wallet of None \<Rightarrow> raise (PyExc ''AssertionError'')
         | Some w \<Rightarrow> modify (move_balance now w net_delta (if net_delta > 0 then ''refund'' else ''debit'')))
      else ret ())"

definition settle_inference_usage :: "time \<Rightarrow> usage_event \<Rightarrow> int \<Rightarrow> int \<Rightarrow> (ledger, usage_event) handler"
  where
  "settle_inference_usage now event prompt_tokens completion_tokens =
     (if ev_status event = Settled then ret event
      else if ev_status event = Reserved \<and> ev_expires_at event \<le> now then
        then_do (expire_stale_reservations now (Some (ev_user_id event)))
          (raise (bad_request ''reservation_expired''))
      else if ev_status event = Expired \<or> ev_status event = Released then
        raise (bad_request ''reservation_not_active'')
      else
        bind (lock_period (ev_usage_period_id event)) (\<lambda>period.
          let raw_total = prompt_tokens + completion_tokens;
              charged_tokens = charged_token_count raw_total (ev_model_multiplier event);
              old_period_portion = ev_reserved_tokens event - ev_wallet_reserved_tokens event
          in bind (split_settlement event period charged_tokens)
               (\<lambda>(new_period_portion, new_wallet_portion, wallet).
             then_do (modify (put_period (with_used period
                        (max 0 (per_used_tokens period - old_period_portion + new_period_portion)))))
            (then_do (settle_wallet now wallet (ev_wallet_reserved_tokens event - new_wallet_portion))
               (let event = event\<lparr>ev_prompt_tokens := prompt_tokens,
                      ev_completion_tokens := completion_tokens, ev_raw_total_tokens := raw_total,
                      ev_charged_tokens := charged_tokens,
                      ev_wallet_reserved_tokens := new_wallet_portion, ev_status := Settled,
                      ev_settled_at := Some now\<rparr>
                in then_do (modify (put_event event)) (ret event))))))"

section \<open>Release\<close>

definition release_inference_reservation :: "time \<Rightarrow> usage_event \<Rightarrow> (ledger, unit) handler" where
  "release_inference_reservation now event =
     (if ev_status event \<noteq> Reserved then ret ()
      else if ev_expires_at event \<le> now then
        then_do (expire_stale_reservations now (Some (ev_user_id event))) (ret ())
      else give_back now event Released)"

end
