(* ===== verification/Accounts.thy ===== *)
theory Accounts
  imports Usage
begin

text \<open>
  The accounting invariant of the billing tables and what one bookkeeping step does to it.
  Every period's counters are the sums over its events, every wallet balance is the sum of its
  transactions and never negative, and the usage transactions of a user mirror the wallet part of
  the user's live events. \<open>rebook\<close> is the step that expiry, release and settlement share,
  \<open>book_new\<close> the step a reservation takes; both keep the invariant.
\<close>

section \<open>The invariant\<close>

definition allowance_portion :: "usage_event \<Rightarrow> int" where
  "allowance_portion e = (case ev_status e of
      Settled \<Rightarrow> ev_charged_tokens e - ev_wallet_reserved_tokens e
    | Reserved \<Rightarrow> ev_reserved_tokens e - ev_wallet_reserved_tokens e
    | _ \<Rightarrow> 0)"

definition wallet_portion :: "usage_event \<Rightarrow> int" where
  "wallet_portion e = (case ev_status e of
      Settled \<Rightarrow> ev_wallet_reserved_tokens e
    | Reserved \<Rightarrow> ev_wallet_reserved_tokens e
    | _ \<Rightarrow> 0)"

definition booked :: "usage_event list \<Rightarrow> nat \<Rightarrow> int" where
  "booked es pid = (\<Sum>e \<leftarrow> es. if ev_usage_period_id e = pid then allowance_portion e else 0)"

definition drawn :: "usage_event list \<Rightarrow> nat \<Rightarrow> int" where
  "drawn es uid = (\<Sum>e \<leftarrow> es. if ev_user_id e = uid then wallet_portion e else 0)"

definition usage_kind :: "string \<Rightarrow> bool" where
  "usage_kind k \<longleftrightarrow> k = ''debit'' \<or> k = ''refund''"

definition moved :: "wallet_tx_row list \<Rightarrow> nat \<Rightarrow> int" where
  "moved ts uid = (\<Sum>t \<leftarrow> ts. if wtx_user_id t = uid \<and> usage_kind (wtx_kind t) then wtx_delta_tokens t else 0)"

definition event_ok :: "usage_event \<Rightarrow> bool" where
  "event_ok e \<longleftrightarrow> 0 \<le> ev_wallet_reserved_tokens e \<and> 0 \<le> ev_model_multiplier e \<and>
     0 \<le> allowance_portion e"

definition keys_ok :: "ledger \<Rightarrow> bool" where
  "keys_ok s \<longleftrightarrow> distinct (map per_id (usage_periods s)) \<and> distinct (map ev_id (inference_usage_events s)) \<and>
     wallet_keys s \<and> (\<forall>p \<in> set (usage_periods s). per_id p < next_id s) \<and>
     (\<forall>e \<in> set (inference_usage_events s). ev_id e < next_id s)"

definition requests_ok :: "ledger \<Rightarrow> bool" where
  "requests_ok s \<longleftrightarrow> distinct (map (\<lambda>e. (ev_user_id e, ev_request_id e)) (inference_usage_events s))"

definition windows_ok :: "ledger \<Rightarrow> bool" where
  "windows_ok s \<longleftrightarrow>
     distinct (map (\<lambda>p. (per_user_id p, per_period_start p, per_period_end p)) (usage_periods s))"

definition links_ok :: "ledger \<Rightarrow> bool" where
  "links_ok s \<longleftrightarrow> (\<forall>e \<in> set (inference_usage_events s). event_ok e \<and>
     (\<exists>p \<in> set (usage_periods s). per_id p = ev_usage_period_id e \<and> per_user_id p = ev_user_id e))"

definition periods_ok :: "ledger \<Rightarrow> bool" where
  "periods_ok s \<longleftrightarrow> (\<forall>p \<in> set (usage_periods s).
     per_used_tokens p = booked (inference_usage_events s) (per_id p) \<and>
     per_remaining_tokens p = max 0 (per_total_allowance p - per_used_tokens p))"

definition wallets_ok :: "ledger \<Rightarrow> bool" where
  "wallets_ok s \<longleftrightarrow> (\<forall>u. wallet_entries s u = wallet_balance s u \<and> 0 \<le> wallet_balance s u \<and>
     moved (wallet_transactions s) u = - drawn (inference_usage_events s) u)"

definition ledger_ok :: "ledger \<Rightarrow> bool" where
  "ledger_ok s \<longleftrightarrow> keys_ok s \<and> requests_ok s \<and> windows_ok s \<and> links_ok s \<and> periods_ok s \<and> wallets_ok s"

lemmas ledger_parts = keys_ok_def requests_ok_def windows_ok_def links_ok_def periods_ok_def wallets_ok_def

lemma ledger_okD:
  assumes "ledger_ok s"
  shows "keys_ok s" "requests_ok s" "windows_ok s" "links_ok s" "periods_ok s" "wallets_ok s"
  using assms by (simp_all add: ledger_ok_def)

lemma ledger_wallet_keys: "ledger_ok s \<Longrightarrow> wallet_keys s"
  by (simp add: ledger_ok_def keys_ok_def)

lemma booked_nonneg:
  "\<forall>e \<in> set es. event_ok e \<Longrightarrow> 0 \<le> booked es pid"
  unfolding booked_def by (rule sum_list_nonneg) (auto simp: event_ok_def)

lemma booked_ge_portion:
  assumes "\<forall>e \<in> set es. event_ok e" "e \<in> set es"
  shows "allowance_portion e \<le> booked es (ev_usage_period_id e)"
proof -
  obtain as bs where es: "es = as @ e # bs" using split_list [OF assms(2)] by blast
  have "0 \<le> booked as (ev_usage_period_id e)" "0 \<le> booked bs (ev_usage_period_id e)"
    using assms(1) by (auto intro!: booked_nonneg simp: es)
  then show ?thesis by (simp add: es booked_def)
qed

lemma wallet_entries_ensure: "wallet_entries (ensure_wallet uid s) u = wallet_entries s u"
  by (simp add: wallet_entries_def)

lemma ledger_ok_ensure: "ledger_ok s \<Longrightarrow> ledger_ok (ensure_wallet uid s)"
  using wallet_keys_ensure [of s uid]
  by (simp add: ledger_ok_def ledger_parts wallet_entries_ensure)

lemma ledger_ok_same_accounts:
  assumes "ledger_ok s" "same_accounts s s'" shows "ledger_ok s'"
proof -
  have w: "wallet_balance s' u = wallet_balance s u" "wallet_entries s' u = wallet_entries s u"
    "wallet_keys s' = wallet_keys s" for u
    using assms(2) by (simp_all add: same_accounts_def wallet_keys_def wallet_balance_def wallet_entries_def)
  show ?thesis
    using assms by (auto simp: ledger_ok_def ledger_parts w same_accounts_def intro: less_le_trans)
qed

lemma lock_period_run:
  assumes "keys_ok s" "p \<in> set (usage_periods s)"
  shows "lock_period (per_id p) s = (Inr p, s)"
  using filter_by_key [of per_id "usage_periods s" p] assms
  by (simp add: lock_period_def select_one_def keys_ok_def)

lemma event_period:
  assumes "ledger_ok s" "e \<in> set (inference_usage_events s)"
  obtains p where "p \<in> set (usage_periods s)" "per_id p = ev_usage_period_id e" "per_user_id p = ev_user_id e"
  using assms by (auto simp: ledger_ok_def links_ok_def)

section \<open>Rebooking an event\<close>

definition rebook :: "time \<Rightarrow> usage_period \<Rightarrow> int \<Rightarrow> usage_event \<Rightarrow> int \<Rightarrow> string \<Rightarrow> ledger \<Rightarrow> ledger" where
  "rebook now p used e' delta kind s =
     put_event e' ((if delta = 0 then id else post now (ev_user_id e') delta kind) (put_period (with_used p used) s))"

lemma put_period_fields [simp]:
  "wallet_balance (put_period p s) u = wallet_balance s u"
  "wallet_entries (put_period p s) u = wallet_entries s u"
  "wallet_keys (put_period p s) = wallet_keys s"
  "usage_periods (put_period p s) = replace_by per_id p (usage_periods s)"
  "inference_usage_events (put_period p s) = inference_usage_events s"
  "wallet_transactions (put_period p s) = wallet_transactions s"
  "user_wallets (put_period p s) = user_wallets s"
  "next_id (put_period p s) = next_id s"
  "api_keys (put_period p s) = api_keys s"
  "users (put_period p s) = users s"
  "billing_plans (put_period p s) = billing_plans s"
  "user_subscriptions (put_period p s) = user_subscriptions s"
  by (simp_all add: put_period_def wallet_balance_def wallet_entries_def wallet_keys_def)

lemma put_event_fields [simp]:
  "wallet_balance (put_event e s) u = wallet_balance s u"
  "wallet_entries (put_event e s) u = wallet_entries s u"
  "wallet_keys (put_event e s) = wallet_keys s"
  "usage_periods (put_event e s) = usage_periods s"
  "inference_usage_events (put_event e s) = replace_by ev_id e (inference_usage_events s)"
  "wallet_transactions (put_event e s) = wallet_transactions s"
  "user_wallets (put_event e s) = user_wallets s"
  "next_id (put_event e s) = next_id s"
  "api_keys (put_event e s) = api_keys s"
  "users (put_event e s) = users s"
  "billing_plans (put_event e s) = billing_plans s"
  "user_subscriptions (put_event e s) = user_subscriptions s"
  by (simp_all add: put_event_def wallet_balance_def wallet_entries_def wallet_keys_def)

lemma ensure_put_period: "ensure_wallet uid (put_period p s) = put_period p (ensure_wallet uid s)"
  by (simp add: ensure_wallet_def put_period_def)

lemma with_used_fields [simp]:
  "per_id (with_used p u) = per_id p" "per_user_id (with_used p u) = per_user_id p"
  "per_period_start (with_used p u) = per_period_start p" "per_period_end (with_used p u) = per_period_end p"
  "per_used_tokens (with_used p u) = u" "per_total_allowance (with_used p u) = per_total_allowance p"
  "per_remaining_tokens (with_used p u) = max 0 (per_total_allowance p - u)"
  by (simp_all add: with_used_def)

lemma rebook_fields [simp]:
  "usage_periods (rebook now p u e' d k s) = replace_by per_id (with_used p u) (usage_periods s)"
  "inference_usage_events (rebook now p u e' d k s) = replace_by ev_id e' (inference_usage_events s)"
  "next_id (rebook now p u e' d k s) = next_id s"
  "api_keys (rebook now p u e' d k s) = api_keys s"
  "users (rebook now p u e' d k s) = users s"
  "billing_plans (rebook now p u e' d k s) = billing_plans s"
  "user_subscriptions (rebook now p u e' d k s) = user_subscriptions s"
  by (simp_all add: rebook_def)

lemma rebook_wallet [simp]:
  "wallet_balance (rebook now p u e' d k s) v = wallet_balance s v + (if v = ev_user_id e' then d else 0)"
  "wallet_entries (rebook now p u e' d k s) v = wallet_entries s v + (if v = ev_user_id e' then d else 0)"
  by (simp_all add: rebook_def post_balance post_entries)

lemma rebook_moved:
  "usage_kind k \<Longrightarrow> moved (wallet_transactions (rebook now p u e' d k s)) v
     = moved (wallet_transactions s) v + (if v = ev_user_id e' then d else 0)"
  by (simp add: rebook_def post_transactions moved_def)

lemma rebook_keys: "wallet_keys s \<Longrightarrow> wallet_keys (rebook now p u e' d k s)"
  by (simp add: rebook_def post_keys)

lemma booked_replace:
  assumes "distinct (map ev_id es)" "e \<in> set es" "ev_id e' = ev_id e" "ev_usage_period_id e' = ev_usage_period_id e"
  shows "booked (replace_by ev_id e' es) pid = booked es pid
     + (if pid = ev_usage_period_id e then allowance_portion e' - allowance_portion e else 0)"
  unfolding booked_def by (subst sum_replace_by [OF assms(1,2,3)]) (simp add: assms(4))

lemma drawn_replace:
  assumes "distinct (map ev_id es)" "e \<in> set es" "ev_id e' = ev_id e" "ev_user_id e' = ev_user_id e"
  shows "drawn (replace_by ev_id e' es) u = drawn es u
     + (if u = ev_user_id e then wallet_portion e' - wallet_portion e else 0)"
  unfolding drawn_def by (subst sum_replace_by [OF assms(1,2,3)]) (simp add: assms(4))

text \<open>Writing back a period with new counters keeps its window and every link to it.\<close>

lemma with_used_window:
  assumes "distinct (map per_id ps)" "p \<in> set ps"
  shows "map (\<lambda>p. (per_user_id p, per_period_start p, per_period_end p)) (replace_by per_id (with_used p u) ps)
     = map (\<lambda>p. (per_user_id p, per_period_start p, per_period_end p)) ps"
proof (rule map_replace_by)
  fix q assume "q \<in> set ps" "per_id q = per_id (with_used p u)"
  then have "q = p" using same_key_same_row [OF assms(1) _ assms(2)] by simp
  then show "(per_user_id (with_used p u), per_period_start (with_used p u), per_period_end (with_used p u))
      = (per_user_id q, per_period_start q, per_period_end q)" by simp
qed

lemma with_used_linked:
  assumes "distinct (map per_id ps)" "p \<in> set ps" "q \<in> set ps"
  shows "\<exists>q' \<in> set (replace_by per_id (with_used p u) ps). per_id q' = per_id q \<and> per_user_id q' = per_user_id q"
proof (cases "per_id q = per_id p")
  case True
  then have "q = p" using same_key_same_row [OF assms(1,3,2)] by simp
  then show ?thesis using assms(2) by (intro bexI [of _ "with_used p u"]) (auto simp: set_replace_by)
next
  case False
  then show ?thesis using assms(3) by (intro bexI [of _ q]) (auto simp: set_replace_by)
qed

definition same_event :: "usage_event \<Rightarrow> usage_event \<Rightarrow> bool" where
  "same_event e e' \<longleftrightarrow> ev_id e' = ev_id e \<and> ev_usage_period_id e' = ev_usage_period_id e \<and>
     ev_user_id e' = ev_user_id e \<and> ev_request_id e' = ev_request_id e"

theorem rebook_ok:
  assumes ok: "ledger_ok s" and e: "e \<in> set (inference_usage_events s)" and same: "same_event e e'"
    and p: "p \<in> set (usage_periods s)" "per_id p = ev_usage_period_id e"
    and e': "event_ok e'" and k: "usage_kind k"
    and d: "d = wallet_portion e - wallet_portion e'" "0 \<le> wallet_balance s (ev_user_id e) + d"
    and u: "u = per_used_tokens p - allowance_portion e + allowance_portion e'"
  shows "ledger_ok (rebook now p u e' d k s)"
proof -
  let ?es = "inference_usage_events s" and ?ps = "usage_periods s"
  have K: "distinct (map ev_id ?es)" "distinct (map per_id ?ps)" "wallet_keys s"
    using ok by (simp_all add: ledger_ok_def keys_ok_def)
  have S: "ev_id e' = ev_id e" "ev_usage_period_id e' = ev_usage_period_id e" "ev_user_id e' = ev_user_id e"
    "ev_request_id e' = ev_request_id e" using same by (simp_all add: same_event_def)
  have only: "q = e" if "q \<in> set ?es" "ev_id q = ev_id e'" for q
    using same_key_same_row [OF K(1) that(1) e] that(2) S(1) by simp
  have onlyp: "q = p" if "q \<in> set ?ps" "per_id q = per_id p" for q
    using same_key_same_row [OF K(2) that(1) p(1)] that(2) by simp
  have wk: "distinct (map per_id (replace_by per_id (with_used p u) ?ps))"
    using K(2) by simp
  have "keys_ok (rebook now p u e' d k s)"
    using ok K e p(1) only by (auto simp: ledger_ok_def keys_ok_def rebook_keys set_replace_by)
  moreover have "requests_ok (rebook now p u e' d k s)"
  proof -
    have "map (\<lambda>e. (ev_user_id e, ev_request_id e)) (replace_by ev_id e' ?es)
        = map (\<lambda>e. (ev_user_id e, ev_request_id e)) ?es"
    proof (rule map_replace_by)
      fix q assume "q \<in> set ?es" "ev_id q = ev_id e'"
      then have "q = e" by (rule only)
      then show "(ev_user_id e', ev_request_id e') = (ev_user_id q, ev_request_id q)" using S by simp
    qed
    then show ?thesis using ledger_okD(2) [OF ok] by (simp add: requests_ok_def)
  qed
  moreover have "windows_ok (rebook now p u e' d k s)"
    using ledger_okD(3) [OF ok] by (simp add: windows_ok_def with_used_window [OF K(2) p(1)])
  moreover have "links_ok (rebook now p u e' d k s)"
  proof -
    have l: "\<exists>q' \<in> set (replace_by per_id (with_used p u) ?ps).
        per_id q' = per_id q \<and> per_user_id q' = per_user_id q" if "q \<in> set ?ps" for q
      by (rule with_used_linked [OF K(2) p(1) that])
    have old: "\<exists>q' \<in> set (replace_by per_id (with_used p u) ?ps).
        per_id q' = ev_usage_period_id q \<and> per_user_id q' = ev_user_id q" if "q \<in> set ?es" for q
      using event_period [OF ok that] l by metis
    have mem: "q = e' \<or> q \<in> set ?es" if "q \<in> set (replace_by ev_id e' ?es)" for q
      using that by (auto simp: set_replace_by split: if_splits)
    have okq: "event_ok q" if "q \<in> set ?es" for q
      using ledger_okD(4) [OF ok] that by (simp add: links_ok_def)
    show ?thesis
      unfolding links_ok_def rebook_fields
    proof
      fix q assume "q \<in> set (replace_by ev_id e' ?es)"
      from mem [OF this] show "event_ok q \<and> (\<exists>p \<in> set (replace_by per_id (with_used p u) ?ps).
          per_id p = ev_usage_period_id q \<and> per_user_id p = ev_user_id q)"
        using okq old old [OF e] e' S by auto
    qed
  qed
  moreover have "periods_ok (rebook now p u e' d k s)"
    using ok p S u
    by (auto simp: ledger_ok_def periods_ok_def set_replace_by booked_replace [OF K(1) e S(1,2)])
  moreover have "wallets_ok (rebook now p u e' d k s)"
    using ok d by (auto simp: ledger_ok_def wallets_ok_def S drawn_replace [OF K(1) e S(1,3)] rebook_moved [OF k])
  ultimately show ?thesis by (simp add: ledger_ok_def)
qed

section \<open>Booking a new event\<close>

definition book_new :: "time \<Rightarrow> usage_period \<Rightarrow> int \<Rightarrow> usage_event \<Rightarrow> ledger \<Rightarrow> ledger" where
  "book_new now p used e s =
     add_event e ((if wallet_portion e = 0 then id else post now (ev_user_id e) (- wallet_portion e) ''debit'')
        (put_period (with_used p used) s))"

lemma add_event_fields [simp]:
  "wallet_balance (add_event e s) u = wallet_balance s u"
  "wallet_entries (add_event e s) u = wallet_entries s u"
  "wallet_keys (add_event e s) = wallet_keys s"
  "usage_periods (add_event e s) = usage_periods s"
  "inference_usage_events (add_event e s) = inference_usage_events s @ [e]"
  "wallet_transactions (add_event e s) = wallet_transactions s"
  "next_id (add_event e s) = Suc (ev_id e)"
  "api_keys (add_event e s) = api_keys s"
  "users (add_event e s) = users s"
  "billing_plans (add_event e s) = billing_plans s"
  "user_subscriptions (add_event e s) = user_subscriptions s"
  by (simp_all add: add_event_def wallet_balance_def wallet_entries_def wallet_keys_def)

lemma book_new_fields [simp]:
  "usage_periods (book_new now p u e s) = replace_by per_id (with_used p u) (usage_periods s)"
  "inference_usage_events (book_new now p u e s) = inference_usage_events s @ [e]"
  "next_id (book_new now p u e s) = Suc (ev_id e)"
  "api_keys (book_new now p u e s) = api_keys s"
  "users (book_new now p u e s) = users s"
  "billing_plans (book_new now p u e s) = billing_plans s"
  "user_subscriptions (book_new now p u e s) = user_subscriptions s"
  "wallet_balance (book_new now p u e s) v = wallet_balance s v - (if v = ev_user_id e then wallet_portion e else 0)"
  "wallet_entries (book_new now p u e s) v = wallet_entries s v - (if v = ev_user_id e then wallet_portion e else 0)"
  by (simp_all add: book_new_def post_balance post_entries)

theorem book_new_ok:
  assumes ok: "ledger_ok s" and e: "event_ok e" "ev_id e = next_id s"
    and p: "p \<in> set (usage_periods s)" "per_id p = ev_usage_period_id e" "per_user_id p = ev_user_id e"
    and fresh: "\<forall>q \<in> set (inference_usage_events s).
       (ev_user_id q, ev_request_id q) \<noteq> (ev_user_id e, ev_request_id e)"
    and d: "wallet_portion e \<le> wallet_balance s (ev_user_id e)"
    and u: "u = per_used_tokens p + allowance_portion e"
  shows "ledger_ok (book_new now p u e s)"
proof -
  let ?ps = "usage_periods s"
  have K: "distinct (map per_id ?ps)" using ok by (simp add: ledger_ok_def keys_ok_def)
  have onlyp: "q = p" if "q \<in> set ?ps" "per_id q = per_id p" for q
    using same_key_same_row [OF K that(1) p(1)] that(2) by simp
  have "wallet_keys (book_new now p u e s)"
    using ok by (simp add: book_new_def post_keys ledger_ok_def keys_ok_def)
  then have "keys_ok (book_new now p u e s)"
    using ok e(2) p(1) by (fastforce simp: ledger_ok_def keys_ok_def set_replace_by)
  moreover have "requests_ok (book_new now p u e s)"
    using ok fresh by (auto simp: ledger_ok_def requests_ok_def)
  moreover have "windows_ok (book_new now p u e s)"
    using ledger_okD(3) [OF ok] by (simp add: windows_ok_def with_used_window [OF K p(1)])
  moreover have "links_ok (book_new now p u e s)"
  proof -
    have l: "\<exists>q' \<in> set (replace_by per_id (with_used p u) ?ps).
        per_id q' = per_id q \<and> per_user_id q' = per_user_id q" if "q \<in> set ?ps" for q
      by (rule with_used_linked [OF K p(1) that])
    have old: "\<exists>q' \<in> set (replace_by per_id (with_used p u) ?ps).
        per_id q' = ev_usage_period_id q \<and> per_user_id q' = ev_user_id q"
      if "q \<in> set (inference_usage_events s)" for q
      by (metis event_period [OF ok that] l)
    show ?thesis
      unfolding links_ok_def book_new_fields
      using ledger_okD(4) [OF ok] old e(1) l [OF p(1)] p(2,3) by (auto simp: links_ok_def)
  qed
  moreover have "periods_ok (book_new now p u e s)"
    using ok p u by (auto simp: ledger_ok_def periods_ok_def set_replace_by booked_def)
  moreover have "wallets_ok (book_new now p u e s)"
    using ok d
    by (auto simp: ledger_ok_def wallets_ok_def drawn_def moved_def book_new_def post_balance
        post_entries post_transactions usage_kind_def)
  ultimately show ?thesis by (simp add: ledger_ok_def)
qed

end
