(* ===== verification/UsageRuns.thy ===== *)
theory UsageRuns
  imports Accounts
begin

text \<open>
  What the operations of \<^verbatim>\<open>UsageService\<close> do on a consistent ledger: expiry and release are
  rebookings that never fail, the recalculation of a period reproduces the counters the
  bookkeeping keeps, a reservation either fails without touching an account or books one event,
  and a settlement rebooks its event. Each result keeps \<open>ledger_ok\<close>.
\<close>

section \<open>Giving a reservation back\<close>

definition closed :: "time \<Rightarrow> event_status \<Rightarrow> usage_event \<Rightarrow> usage_event" where
  "closed now st e = e\<lparr>ev_status := st, ev_released_at := Some now\<rparr>"

lemma closed_fields [simp]:
  "ev_id (closed now st e) = ev_id e" "ev_user_id (closed now st e) = ev_user_id e"
  "ev_usage_period_id (closed now st e) = ev_usage_period_id e"
  "ev_request_id (closed now st e) = ev_request_id e" "ev_status (closed now st e) = st"
  "ev_wallet_reserved_tokens (closed now st e) = ev_wallet_reserved_tokens e"
  by (simp_all add: closed_def)

lemma closed_ok:
  "event_ok e \<Longrightarrow> st = Expired \<or> st = Released \<Longrightarrow> event_ok (closed now st e)"
  by (auto simp: event_ok_def closed_def allowance_portion_def)

lemma give_back_run:
  assumes ok: "ledger_ok s" and e: "e \<in> set (inference_usage_events s)" "ev_status e = Reserved"
    and p: "p \<in> set (usage_periods s)" "per_id p = ev_usage_period_id e"
  shows "give_back now e st s = (Inr (), rebook now p (per_used_tokens p - allowance_portion e)
           (closed now st e) (ev_wallet_reserved_tokens e) ''refund'' s)"
proof -
  have a: "allowance_portion e = ev_reserved_tokens e - ev_wallet_reserved_tokens e"
    using e(2) by (simp add: allowance_portion_def)
  have u: "per_used_tokens p = booked (inference_usage_events s) (per_id p)"
    using ledger_okD(5) [OF ok] p(1) by (simp add: periods_ok_def)
  have "\<forall>e \<in> set (inference_usage_events s). event_ok e"
    using ledger_okD(4) [OF ok] by (simp add: links_ok_def)
  from booked_ge_portion [OF this e(1)]
  have m: "max 0 (per_used_tokens p - (ev_reserved_tokens e - ev_wallet_reserved_tokens e))
      = per_used_tokens p - allowance_portion e" by (simp add: u p(2) a)
  have l: "lock_period (ev_usage_period_id e) s = (Inr p, s)"
    using lock_period_run [OF ledger_okD(1) [OF ok] p(1)] p(2) by simp
  have wk: "wallet_keys (put_period q s)" for q using ledger_wallet_keys [OF ok] by simp
  show ?thesis
    unfolding give_back_def bind_def l Let_def prod.case sum.case m rebook_def closed_def [symmetric]
    by (simp add: then_do_def bind_def refund_wallet_run [OF wk])
qed

lemma give_back_ok:
  assumes ok: "ledger_ok s" and e: "e \<in> set (inference_usage_events s)" "ev_status e = Reserved"
    and p: "p \<in> set (usage_periods s)" "per_id p = ev_usage_period_id e"
    and st: "st = Expired \<or> st = Released"
  shows "ledger_ok (rebook now p (per_used_tokens p - allowance_portion e)
           (closed now st e) (ev_wallet_reserved_tokens e) ''refund'' s)"
proof (rule rebook_ok [OF ok e(1) _ p])
  have eok: "event_ok e" using ledger_okD(4) [OF ok] e(1) by (simp add: links_ok_def)
  show "event_ok (closed now st e)" using closed_ok [OF eok st] .
  show "same_event e (closed now st e)" by (simp add: same_event_def)
  show "ev_wallet_reserved_tokens e = wallet_portion e - wallet_portion (closed now st e)"
    using e(2) st by (auto simp: wallet_portion_def)
  show "0 \<le> wallet_balance s (ev_user_id e) + ev_wallet_reserved_tokens e"
    using ledger_okD(6) [OF ok] eok by (simp add: wallets_ok_def event_ok_def)
  show "per_used_tokens p - allowance_portion e
      = per_used_tokens p - allowance_portion e + allowance_portion (closed now st e)"
    using st by (auto simp: allowance_portion_def)
qed (simp add: usage_kind_def)

section \<open>Expiry\<close>

text \<open>What expiry leaves alone, and that it only ever gives tokens back.\<close>

definition expiry_frame :: "ledger \<Rightarrow> ledger \<Rightarrow> bool" where
  "expiry_frame s s' \<longleftrightarrow>
     users s' = users s \<and> api_keys s' = api_keys s \<and> user_subscriptions s' = user_subscriptions s \<and>
     billing_plans s' = billing_plans s \<and> model_pricing s' = model_pricing s \<and>
     crypto_balance_snapshots s' = crypto_balance_snapshots s \<and>
     manual_token_adjustments s' = manual_token_adjustments s \<and> next_id s' = next_id s \<and>
     map per_id (usage_periods s') = map per_id (usage_periods s) \<and>
     (\<forall>u. wallet_balance s u \<le> wallet_balance s' u)"

lemma expiry_frame_refl: "expiry_frame s s"
  by (simp add: expiry_frame_def)

lemma expiry_frame_trans: "expiry_frame s t \<Longrightarrow> expiry_frame t u \<Longrightarrow> expiry_frame s u"
  by (fastforce simp: expiry_frame_def intro: order_trans)

lemma rebook_frame:
  assumes "0 \<le> d" shows "expiry_frame s (rebook now p u e d k s)"
proof -
  have "map per_id (replace_by per_id (with_used p u) ps) = map per_id ps" for ps by simp
  moreover have "model_pricing (rebook now p u e d k s) = model_pricing s"
    "crypto_balance_snapshots (rebook now p u e d k s) = crypto_balance_snapshots s"
    "manual_token_adjustments (rebook now p u e d k s) = manual_token_adjustments s"
    by (simp_all add: rebook_def put_event_def put_period_def post_def Let_def move_balance_def
        put_wallet_def add_transaction_def ensure_wallet_def)
  ultimately show ?thesis using assms unfolding expiry_frame_def by (simp del: keys_replace_by)
qed

lemma expire_loop:
  assumes "ledger_ok s" "distinct (map ev_id es)" "set es \<subseteq> set (inference_usage_events s)"
    and "\<forall>e \<in> set es. ev_status e = Reserved"
  shows "\<exists>s'. for_each (expire_event now) es s = (Inr (), s') \<and> ledger_ok s' \<and> expiry_frame s s' \<and>
    inference_usage_events s'
      = map (\<lambda>e. if e \<in> set es then closed now Expired e else e) (inference_usage_events s)"
  using assms
proof (induction es arbitrary: s)
  case Nil
  then show ?case by (simp add: expiry_frame_refl)
next
  case (Cons x xs)
  have x: "x \<in> set (inference_usage_events s)" "ev_status x = Reserved" using Cons.prems by simp_all
  obtain p where p: "p \<in> set (usage_periods s)" "per_id p = ev_usage_period_id x"
    using event_period [OF Cons.prems(1) x(1)] by blast
  let ?s = "rebook now p (per_used_tokens p - allowance_portion x) (closed now Expired x)
              (ev_wallet_reserved_tokens x) ''refund'' s"
  have ids: "distinct (map ev_id (inference_usage_events s))"
    using Cons.prems(1) by (simp add: ledger_ok_def keys_ok_def)
  have w: "0 \<le> ev_wallet_reserved_tokens x"
    using ledger_okD(4) [OF Cons.prems(1)] x(1) by (auto simp: links_ok_def event_ok_def)
  have run: "expire_event now x s = (Inr (), ?s)"
    unfolding expire_event_def by (rule give_back_run [OF Cons.prems(1) x p])
  have ok: "ledger_ok ?s" by (rule give_back_ok [OF Cons.prems(1) x p]) simp
  have "set xs \<subseteq> set (inference_usage_events ?s)"
    using Cons.prems(2,3) by (auto simp: set_replace_by image_iff)
  from Cons.IH [OF ok _ this] Cons.prems(2,4) obtain s' where s':
    "for_each (expire_event now) xs ?s = (Inr (), s')" "ledger_ok s'" "expiry_frame ?s s'"
    "inference_usage_events s'
       = map (\<lambda>e. if e \<in> set xs then closed now Expired e else e) (inference_usage_events ?s)"
    by auto
  have notin: "closed now Expired x \<notin> set xs" using Cons.prems(4) by (metis closed_fields(5) event_status.distinct(3) list.set_intros(2))
  have ev: "inference_usage_events s'
       = map (\<lambda>e. if e \<in> set (x # xs) then closed now Expired e else e) (inference_usage_events s)"
    unfolding s'(4) rebook_fields replace_by_def map_map
  proof (rule map_cong [OF refl])
    fix q assume q: "q \<in> set (inference_usage_events s)"
    show "((\<lambda>e. if e \<in> set xs then closed now Expired e else e) \<circ>
             (\<lambda>q. if ev_id q = ev_id (closed now Expired x) then closed now Expired x else q)) q
        = (if q \<in> set (x # xs) then closed now Expired q else q)"
      using same_key_same_row [OF ids q x(1)] notin by auto
  qed
  have "expiry_frame s s'" by (rule expiry_frame_trans [OF rebook_frame [OF w] s'(3)])
  then show ?case using s'(1,2) ev by (simp add: then_do_def bind_def run)
qed

definition swept :: "time \<Rightarrow> nat \<Rightarrow> ledger \<Rightarrow> bool" where
  "swept now uid s \<longleftrightarrow> (\<forall>e \<in> set (inference_usage_events s).
     ev_user_id e = uid \<longrightarrow> ev_status e = Reserved \<longrightarrow> now < ev_expires_at e)"

definition is_stale :: "time \<Rightarrow> nat option \<Rightarrow> usage_event \<Rightarrow> bool" where
  "is_stale now user_id e \<longleftrightarrow> ev_status e = Reserved \<and> ev_expires_at e \<le> now \<and>
     (case user_id of None \<Rightarrow> True | Some u \<Rightarrow> ev_user_id e = u)"

theorem expire_stale_run:
  assumes "ledger_ok s"
  shows "\<exists>s'. expire_stale_reservations now user_id s
        = (Inr (length (filter (is_stale now user_id) (inference_usage_events s))), s') \<and>
    ledger_ok s' \<and> expiry_frame s s' \<and>
    inference_usage_events s'
      = map (\<lambda>e. if is_stale now user_id e then closed now Expired e else e) (inference_usage_events s)"
proof -
  let ?es = "filter (is_stale now user_id) (inference_usage_events s)"
  have st: "stale_events now user_id s = ?es" by (simp add: stale_events_def is_stale_def [abs_def])
  have "distinct (map ev_id ?es)"
    using assms by (simp add: ledger_ok_def keys_ok_def distinct_map_filter)
  then have pre: "distinct (map ev_id ?es)" "set ?es \<subseteq> set (inference_usage_events s)"
    "\<forall>e \<in> set ?es. ev_status e = Reserved" by (simp_all add: is_stale_def)
  obtain s' where s':
    "for_each (expire_event now) ?es s = (Inr (), s')" "ledger_ok s'" "expiry_frame s s'"
    "inference_usage_events s' = map (\<lambda>e. if e \<in> set ?es then closed now Expired e else e) (inference_usage_events s)"
    using expire_loop [OF assms pre, of now] by blast
  have "inference_usage_events s'
      = map (\<lambda>e. if is_stale now user_id e then closed now Expired e else e) (inference_usage_events s)"
    unfolding s'(4) by (rule map_cong) auto
  moreover have "expire_stale_reservations now user_id s = (Inr (length ?es), s')"
    using s'(1) by (simp add: expire_stale_reservations_def bind_def then_do_def st)
  ultimately show ?thesis using s'(2,3) by blast
qed

lemma expire_stale_ok:
  "triple ledger_ok (expire_stale_reservations now user_id) (\<lambda>_. ledger_ok) ledger_ok"
proof (rule tripleI)
  fix s e s' assume "ledger_ok s" "expire_stale_reservations now user_id s = (Inl e, s')"
  then show "ledger_ok s'" using expire_stale_run [of s now user_id] by auto
next
  fix s x s' assume "ledger_ok s" "expire_stale_reservations now user_id s = (Inr x, s')"
  then show "ledger_ok s'" using expire_stale_run [of s now user_id] by auto
qed

lemma expire_stale_swept:
  "triple ledger_ok (expire_stale_reservations now (Some uid)) (\<lambda>_ s. ledger_ok s \<and> swept now uid s) ledger_ok"
proof (rule tripleI)
  fix s x s' assume s: "ledger_ok s" "expire_stale_reservations now (Some uid) s = (Inr x, s')"
  obtain t where t: "expire_stale_reservations now (Some uid) s
        = (Inr (length (filter (is_stale now (Some uid)) (inference_usage_events s))), t)" "ledger_ok t"
    "inference_usage_events t
      = map (\<lambda>e. if is_stale now (Some uid) e then closed now Expired e else e) (inference_usage_events s)"
    using expire_stale_run [OF s(1), of now "Some uid"] by blast
  have "s' = t" using s(2) t(1) by simp
  moreover have "swept now uid t"
    unfolding swept_def t(3) set_map
  proof (intro ballI impI)
    fix q assume q: "q \<in> (\<lambda>e. if is_stale now (Some uid) e then closed now Expired e else e) ` set (inference_usage_events s)"
      "ev_user_id q = uid" "ev_status q = Reserved"
    then obtain e where e: "q = (if is_stale now (Some uid) e then closed now Expired e else e)" by blast
    then have "\<not> is_stale now (Some uid) e" using q(3) by auto
    with e have "q = e" "\<not> is_stale now (Some uid) q" by simp_all
    then show "now < ev_expires_at q" using q(2,3) by (auto simp: is_stale_def)
  qed
  ultimately show "ledger_ok s' \<and> swept now uid s'" using t(2) by simp
next
  fix s e s' assume "ledger_ok s" "expire_stale_reservations now (Some uid) s = (Inl e, s')"
  then show "ledger_ok s'" using expire_stale_run [of s now "Some uid"] by auto
qed

section \<open>Recalculation\<close>

lemma counted_is_booked:
  assumes "ledger_ok s" "swept now uid s" "p \<in> set (usage_periods s)" "per_user_id p = uid"
  shows "period_used_tokens now (per_id p) s = booked (inference_usage_events s) (per_id p)"
proof -
  have "counted_tokens now e = allowance_portion e"
    if "e \<in> set (inference_usage_events s)" "ev_usage_period_id e = per_id p" for e
  proof -
    note m = that
    obtain q where "q \<in> set (usage_periods s)" "per_id q = ev_usage_period_id e" "per_user_id q = ev_user_id e"
      using event_period [OF assms(1) m(1)] by blast
    then have "q = p" using same_key_same_row [of per_id "usage_periods s" q p] assms(1,3) m(2)
      by (simp add: ledger_ok_def keys_ok_def)
    then have "ev_user_id e = uid" using \<open>per_user_id q = ev_user_id e\<close> assms(4) by simp
    then show ?thesis
      using assms(2) m(1)
      by (auto simp: counted_tokens_def allowance_portion_def swept_def split: event_status.splits)
  qed
  then show ?thesis
    by (auto simp: period_used_tokens_def booked_def sum_list_map_filter' intro!: arg_cong [where f = sum_list])
qed

text \<open>The tables an accounting operation runs on: consistent accounts and valid prices.\<close>

definition service_ok :: "ledger \<Rightarrow> bool" where
  "service_ok s \<longleftrightarrow> ledger_ok s \<and> prices_ok s"

definition read_only :: "('s, 'a) handler \<Rightarrow> bool" where
  "read_only m \<longleftrightarrow> (\<forall>s. snd (m s) = s)"

lemma triple_read_only: "read_only m \<Longrightarrow> triple P m (\<lambda>_. P) P"
  unfolding read_only_def triple_def by (metis (no_types, lifting) old.sum.exhaust prod.case_eq_if sum.simps(5,6))

lemma read_only_queries:
  "read_only (active_subscription uid)" "read_only (is_unlimited_subscriber uid)"
  "read_only (current_period_bounds cfg now user)" "read_only (stripe_allowance active)"
  "read_only (find_request uid rid)" "read_only (lock_period pid)"
  by (auto simp: read_only_def active_subscription_def is_unlimited_subscriber_def current_period_bounds_def
      stripe_allowance_def find_request_def lock_period_def handler_defs Let_def
      split: sum.splits option.splits prod.splits)

lemma triple_seed:
  assumes "\<And>s s'. P s \<Longrightarrow> same_accounts s s' \<Longrightarrow> model_pricing s' = model_pricing s \<Longrightarrow> P s'"
  shows "triple P (seed_default_billing_plans cfg) (\<lambda>_. P) P"
proof (rule triple_assume)
  fix s assume s: "P s"
  have step: "triple (\<lambda>t. same_accounts s t \<and> model_pricing t = model_pricing s) (seed_plan seed)
      (\<lambda>_ t. same_accounts s t \<and> model_pricing t = model_pricing s)
      (\<lambda>t. same_accounts s t \<and> model_pricing t = model_pricing s)" for seed
    by (auto simp: triple_def seed_plan_def handler_defs same_accounts_def add_plan_def put_plan_def
        split: sum.splits option.splits)
  have "triple (\<lambda>t. same_accounts s t \<and> model_pricing t = model_pricing s) (seed_default_billing_plans cfg)
      (\<lambda>_ t. same_accounts s t \<and> model_pricing t = model_pricing s)
      (\<lambda>t. same_accounts s t \<and> model_pricing t = model_pricing s)"
    unfolding seed_default_billing_plans_def by (rule triple_for_each) (rule step)
  then show "triple (\<lambda>t. t = s) (seed_default_billing_plans cfg) (\<lambda>_. P) P"
    by (rule triple_conseq) (auto simp: same_accounts_refl intro: assms [OF s])
qed

lemma service_ok_expire:
  "triple service_ok (expire_stale_reservations now (Some uid)) (\<lambda>_ s. service_ok s \<and> swept now uid s) service_ok"
proof (rule tripleI)
  fix s x s' assume s: "service_ok s" "expire_stale_reservations now (Some uid) s = (Inr x, s')"
  then have "ledger_ok s' \<and> swept now uid s'"
    using tripleD [OF expire_stale_swept _ s(2)] by (simp add: service_ok_def)
  moreover have "expiry_frame s s'"
    using expire_stale_run [of s now "Some uid"] s by (auto simp: service_ok_def)
  ultimately show "service_ok s' \<and> swept now uid s'"
    using s(1) by (simp add: service_ok_def prices_ok_def expiry_frame_def)
next
  fix s e s' assume "service_ok s" "expire_stale_reservations now (Some uid) s = (Inl e, s')"
  then show "service_ok s'" using expire_stale_run [of s now "Some uid"] by (auto simp: service_ok_def)
qed

definition ready :: "time \<Rightarrow> nat \<Rightarrow> ledger \<Rightarrow> bool" where
  "ready now uid s \<longleftrightarrow> service_ok s \<and> swept now uid s"

lemma ready_same_accounts:
  "ready now uid s \<Longrightarrow> same_accounts s s' \<Longrightarrow> model_pricing s' = model_pricing s \<Longrightarrow> ready now uid s'"
  using ledger_ok_same_accounts [of s s']
  by (simp add: ready_def service_ok_def prices_ok_def swept_def same_accounts_def)

lemma ready_service: "ready now uid s \<Longrightarrow> service_ok s"
  by (simp add: ready_def)

definition owned_period :: "nat \<Rightarrow> usage_period \<Rightarrow> ledger \<Rightarrow> bool" where
  "owned_period uid p s \<longleftrightarrow> p \<in> set (usage_periods s) \<and> per_user_id p = uid"

lemma get_or_create_period_ready:
  "triple (ready now uid) (get_or_create_period t user ps pe)
     (\<lambda>p s. ready now uid s \<and> owned_period (usr_id user) p s) service_ok"
proof (rule tripleI)
  fix s e s' assume s: "ready now uid s" "get_or_create_period t user ps pe s = (Inl e, s')"
  then have "s' = s"
    by (auto simp: get_or_create_period_def handler_defs Let_def split: sum.splits option.splits)
  with s(1) show "service_ok s'" by (simp add: ready_def)
next
  let ?P = "\<lambda>p. per_user_id p = usr_id user \<and> per_period_start p = ps \<and> per_period_end p = pe"
  fix s p s' assume s: "ready now uid s" "get_or_create_period t user ps pe s = (Inr p, s')"
  then obtain r where r: "scalar_one_or_none (filter ?P (usage_periods s)) = Inr r"
    by (auto simp: get_or_create_period_def handler_defs split: sum.splits)
  show "ready now uid s' \<and> owned_period (usr_id user) p s'"
  proof (cases r)
    case (Some q)
    then have "s' = s" "p = q"
      using s(2) r by (simp_all add: get_or_create_period_def handler_defs)
    then show ?thesis using s(1) scalar_filter_member [OF r [unfolded Some]] by (simp add: owned_period_def)
  next
    case None
    have p: "per_id p = next_id s" "per_user_id p = usr_id user" "per_period_start p = ps"
        "per_period_end p = pe" "per_used_tokens p = 0" "per_remaining_tokens p = 0" "per_total_allowance p = 0"
      and s': "s' = s\<lparr>usage_periods := usage_periods s @ [p], next_id := Suc (next_id s)\<rparr>"
      using s(2) r None by (auto simp: get_or_create_period_def handler_defs Let_def)
    have ok: "ledger_ok s" using s(1) by (simp add: ready_def service_ok_def)
    have new: "\<not> ?P q" if "q \<in> set (usage_periods s)" for q
      using scalar_filter_absent [OF r [unfolded None] that] .
    have id: "per_id q < next_id s" if "q \<in> set (usage_periods s)" for q
      using ledger_okD(1) [OF ok] that by (simp add: keys_ok_def)
    have "booked (inference_usage_events s) (next_id s) = 0"
    proof -
      have "ev_usage_period_id e \<noteq> next_id s" if "e \<in> set (inference_usage_events s)" for e
        using event_period [OF ok that] id by (metis less_irrefl)
      then have "map (\<lambda>e. if ev_usage_period_id e = next_id s then allowance_portion e else 0)
          (inference_usage_events s) = map (\<lambda>_. 0) (inference_usage_events s)" by simp
      then show ?thesis unfolding booked_def by (simp only: sum_list_0)
    qed
    moreover have "wallet_balance s' u = wallet_balance s u" "wallet_entries s' u = wallet_entries s u"
      "wallet_keys s' = wallet_keys s" for u
      by (simp_all add: s' wallet_balance_def wallet_entries_def wallet_keys_def)
    moreover have "keys_ok s'"
      using ledger_okD(1) [OF ok] id p(1) by (fastforce simp: keys_ok_def wallet_keys_def s')
    moreover have "windows_ok s'"
      using ledger_okD(3) [OF ok] new p by (force simp: windows_ok_def s')
    moreover have "links_ok s'" using ledger_okD(4) [OF ok] by (fastforce simp: links_ok_def s')
    moreover have "requests_ok s'" using ledger_okD(2) [OF ok] by (simp add: requests_ok_def s')
    ultimately have "ledger_ok s'"
      using ledger_okD(5,6) [OF ok] p by (simp add: ledger_ok_def periods_ok_def wallets_ok_def s')
    then show ?thesis
      using s(1) p by (simp add: ready_def service_ok_def prices_ok_def swept_def owned_period_def s')
  qed
qed

lemma put_period_ok:
  assumes ok: "ledger_ok s" and p: "p \<in> set (usage_periods s)"
    and q: "per_id q = per_id p" "per_user_id q = per_user_id p" "per_period_start q = per_period_start p"
      "per_period_end q = per_period_end p"
    and b: "per_used_tokens q = booked (inference_usage_events s) (per_id p)"
      "per_remaining_tokens q = max 0 (per_total_allowance q - per_used_tokens q)"
  shows "ledger_ok (put_period q s)"
proof -
  let ?ps = "usage_periods s"
  have K: "distinct (map per_id ?ps)" using ok by (simp add: ledger_ok_def keys_ok_def)
  have only: "r = p" if "r \<in> set ?ps" "per_id r = per_id q" for r
    using same_key_same_row [OF K that(1) p] that(2) q(1) by simp
  have "map (\<lambda>p. (per_user_id p, per_period_start p, per_period_end p)) (replace_by per_id q ?ps)
      = map (\<lambda>p. (per_user_id p, per_period_start p, per_period_end p)) ?ps"
    by (rule map_replace_by) (use only q in force)
  moreover have "\<exists>r' \<in> set (replace_by per_id q ?ps). per_id r' = per_id r \<and> per_user_id r' = per_user_id r"
    if "r \<in> set ?ps" for r
  proof (cases "per_id r = per_id q")
    case True
    then show ?thesis using only [OF that True] q p by (intro bexI [of _ q]) (auto simp: set_replace_by)
  next
    case False
    then show ?thesis using that by (intro bexI [of _ r]) (auto simp: set_replace_by)
  qed
  moreover have "keys_ok (put_period q s)"
    using ledger_okD(1) [OF ok] p q(1) by (auto simp: keys_ok_def set_replace_by)
  moreover have "periods_ok (put_period q s)"
    using ledger_okD(5) [OF ok] b q(1) by (auto simp: periods_ok_def set_replace_by)
  ultimately show ?thesis
    using ok unfolding ledger_ok_def windows_ok_def requests_ok_def links_ok_def wallets_ok_def
      put_period_fields by metis
qed

text \<open>The recalculation without its first two steps, the expiry and the seeding.\<close>

definition refresh_period :: "settings \<Rightarrow> time \<Rightarrow> user_row \<Rightarrow> (ledger, usage_period) handler" where
  "refresh_period cfg now user =
     bind (current_period_bounds cfg now user) (\<lambda>(period_start, period_end, active).
     bind (get_or_create_period now user period_start period_end) (\<lambda>period.
     bind (stripe_allowance active) (\<lambda>stripe.
     bind (gets (latest_crypto_allowance (usr_id user) ''ethereum'' ''erc20'')) (\<lambda>ethereum.
     bind (gets (latest_crypto_allowance (usr_id user) ''substrate_evm'' ''native'')) (\<lambda>substrate.
     bind (gets (latest_crypto_allowance (usr_id user) ''hypertensor'' ''subnet_stake'')) (\<lambda>stake.
     bind (gets (manual_allowance (usr_id user) period_start period_end)) (\<lambda>manual.
     bind (gets (period_used_tokens now (per_id period))) (\<lambda>used.
       let total = stripe + ethereum + substrate + stake + manual;
           period = period\<lparr>per_stripe_allowance := stripe, per_ethereum_erc20_allowance := ethereum,
             per_substrate_native_allowance := substrate, per_subnet_stake_allowance := stake,
             per_manual_allowance := manual, per_total_allowance := total, per_used_tokens := used,
             per_remaining_tokens := max 0 (total - used), per_calculated_at := now\<rparr>
       in then_do (modify (put_period period)) (ret period)))))))))"

lemma recalculate_is_refresh:
  "recalculate_current_period cfg now user =
     then_do (expire_stale_reservations now (Some (usr_id user))) (then_do (seed_default_billing_plans cfg)
       (refresh_period cfg now user))"
  unfolding recalculate_current_period_def refresh_period_def ..

text \<open>The recalculation after any seeding that leaves the accounts and the prices alone.\<close>

theorem refresh_ready:
  assumes "\<And>P. (\<And>s s'. P s \<Longrightarrow> same_accounts s s' \<Longrightarrow> model_pricing s' = model_pricing s \<Longrightarrow> P s') \<Longrightarrow>
      triple P seed (\<lambda>_. P) P"
  shows "triple service_ok (then_do (expire_stale_reservations now (Some (usr_id user))) (then_do seed
       (refresh_period cfg now user)))
     (\<lambda>p s. ready now (usr_id user) s \<and> owned_period (usr_id user) p s) service_ok"
proof -
  let ?J = "ready now (usr_id user)"
  have ex: "triple service_ok (expire_stale_reservations now (Some (usr_id user))) (\<lambda>_. ?J) service_ok"
    using service_ok_expire by (rule triple_conseq) (simp_all add: ready_def)
  have sd: "triple ?J seed (\<lambda>_. ?J) service_ok"
    by (rule triple_conseq [OF assms [of ?J]]) (auto intro: ready_same_accounts ready_service)
  have bd: "triple ?J (current_period_bounds cfg now user) (\<lambda>_. ?J) service_ok"
    by (rule triple_conseq [OF triple_read_only [OF read_only_queries(3), of ?J]]) (auto intro: ready_service)
  have st: "triple (\<lambda>s. ?J s \<and> owned_period (usr_id user) p s) (stripe_allowance active)
      (\<lambda>_ s. ?J s \<and> owned_period (usr_id user) p s) service_ok" for p active
    by (rule triple_conseq [OF triple_read_only [OF read_only_queries(4),
        of "\<lambda>s. ?J s \<and> owned_period (usr_id user) p s"]]) (auto intro: ready_service)
  have fin: "?J (put_period (p\<lparr>per_stripe_allowance := a, per_ethereum_erc20_allowance := b,
         per_substrate_native_allowance := c, per_subnet_stake_allowance := d, per_manual_allowance := m,
         per_total_allowance := t, per_used_tokens := period_used_tokens now (per_id p) s,
         per_remaining_tokens := max 0 (t - period_used_tokens now (per_id p) s), per_calculated_at := now\<rparr>) s) \<and>
      owned_period (usr_id user) (p\<lparr>per_stripe_allowance := a, per_ethereum_erc20_allowance := b,
         per_substrate_native_allowance := c, per_subnet_stake_allowance := d, per_manual_allowance := m,
         per_total_allowance := t, per_used_tokens := period_used_tokens now (per_id p) s,
         per_remaining_tokens := max 0 (t - period_used_tokens now (per_id p) s), per_calculated_at := now\<rparr>)
        (put_period (p\<lparr>per_stripe_allowance := a, per_ethereum_erc20_allowance := b,
         per_substrate_native_allowance := c, per_subnet_stake_allowance := d, per_manual_allowance := m,
         per_total_allowance := t, per_used_tokens := period_used_tokens now (per_id p) s,
         per_remaining_tokens := max 0 (t - period_used_tokens now (per_id p) s), per_calculated_at := now\<rparr>) s)"
    if "?J s" "owned_period (usr_id user) p s" for p s a b c d m t
  proof -
    have u: "period_used_tokens now (per_id p) s = booked (inference_usage_events s) (per_id p)"
      using counted_is_booked [of s now "usr_id user" p] that by (simp add: ready_def service_ok_def owned_period_def)
    have "ledger_ok s" "p \<in> set (usage_periods s)" using that by (simp_all add: ready_def service_ok_def owned_period_def)
    note put = put_period_ok [OF this]
    show ?thesis
      using that unfolding u ready_def service_ok_def owned_period_def
      by (intro conjI put) (simp_all add: prices_ok_def swept_def put_period_def set_replace_by)
  qed
  show ?thesis
    unfolding refresh_period_def
    apply (rule triple_then [OF ex])
    apply (rule triple_then [OF sd])
    apply (rule triple_bind [OF bd])
    apply (simp only: split_paired_all prod.case)
    apply (rule triple_bind [OF get_or_create_period_ready])
    apply (rule triple_bind [OF st])
    apply (simp add: Let_def triple_def handler_defs fin)
    done
qed

theorem recalculate_ready:
  "triple service_ok (recalculate_current_period cfg now user)
     (\<lambda>p s. ready now (usr_id user) s \<and> owned_period (usr_id user) p s) service_ok"
  unfolding recalculate_is_refresh by (rule refresh_ready) (rule triple_seed)

end
