(* ===== verification/Reserve.thy ===== *)
theory Reserve
  imports UsageRuns
begin

text \<open>
  Reservations: how a reservation is split between allowance and wallet, that it books exactly one
  event or leaves every account untouched, that it is idempotent per request, and that a key never
  passes its caps.
\<close>

section \<open>Charges round up\<close>

lemma charged_token_count_le:
  "charged_token_count raw m \<le> k \<longleftrightarrow> raw * m \<le> k * 10000"
  unfolding charged_token_count_def by (rule ceiling_div) simp

lemma charged_token_count_nonneg: "0 \<le> raw \<Longrightarrow> 0 \<le> m \<Longrightarrow> 0 \<le> charged_token_count raw m"
proof (rule ccontr)
  assume "0 \<le> raw" "0 \<le> m" "\<not> 0 \<le> charged_token_count raw m"
  then have "raw * m \<le> (-1) * 10000" using charged_token_count_le [of raw m "-1"] by simp
  moreover have "0 \<le> raw * m" using \<open>0 \<le> raw\<close> \<open>0 \<le> m\<close> by simp
  ultimately show False by simp
qed

lemma charged_token_count_mono:
  assumes "raw \<le> raw'" "0 \<le> m" shows "charged_token_count raw m \<le> charged_token_count raw' m"
proof -
  have "raw' * m \<le> charged_token_count raw' m * 10000" using charged_token_count_le by blast
  moreover have "raw * m \<le> raw' * m" using assms by (rule mult_right_mono)
  ultimately show ?thesis using charged_token_count_le by (meson order_trans)
qed

section \<open>The split\<close>

definition wallet_share :: "bool \<Rightarrow> int \<Rightarrow> int \<Rightarrow> int" where
  "wallet_share unlimited tokens remaining = (if unlimited then 0 else tokens - min tokens remaining)"

lemma wallet_share_nonneg: "0 \<le> wallet_share u t r"
  by (simp add: wallet_share_def)

lemma wallet_share_le: "0 \<le> t \<Longrightarrow> 0 \<le> r \<Longrightarrow> wallet_share u t r \<le> t"
  by (simp add: wallet_share_def)

lemma split_reservation_run:
  assumes "wallet_keys s" "is_unlimited_subscriber (usr_id user) s = (Inr unl, s)"
    and w: "w = wallet_share unl reserved (per_remaining_tokens p)"
  shows "split_reservation user p reserved s =
    (if w > 0 then
       (if wallet_balance s (usr_id user) < w then (Inl payment_required, ensure_wallet (usr_id user) s)
        else (Inr (reserved - w, w,
                Some \<lparr>wal_user_id = usr_id user, wal_balance_tokens = wallet_balance s (usr_id user)\<rparr>),
              ensure_wallet (usr_id user) s))
     else (Inr (reserved - w, w, None), s))"
  using assms(2)
  by (cases unl) (simp_all add: split_reservation_def bind_def then_do_def wallet_share_def w Let_def
      lock_or_create_run [OF assms(1)])

definition untouched :: "ledger \<Rightarrow> ledger \<Rightarrow> bool" where
  "untouched s s' \<longleftrightarrow> usage_periods s' = usage_periods s \<and>
     inference_usage_events s' = inference_usage_events s \<and>
     wallet_transactions s' = wallet_transactions s \<and> api_keys s' = api_keys s \<and>
     user_subscriptions s' = user_subscriptions s \<and> (\<forall>u. wallet_balance s' u = wallet_balance s u)"

lemma untouched_same_accounts: "same_accounts s s' \<Longrightarrow> untouched s s'"
  by (simp add: untouched_def same_accounts_def wallet_balance_def)

lemma untouched_ensure: "untouched s s' \<Longrightarrow> untouched s (ensure_wallet u s')"
  by (simp add: untouched_def)

lemma service_ok_ensure: "service_ok s \<Longrightarrow> service_ok (ensure_wallet u s)"
  using ledger_ok_ensure [of s u] by (simp add: service_ok_def prices_ok_def ensure_wallet_def)

lemma move_balance_post:
  assumes "wallet_keys s"
  shows "move_balance now \<lparr>wal_user_id = uid, wal_balance_tokens = wallet_balance s uid\<rparr> d k
           (put_period q (ensure_wallet uid s)) = post now uid d k (put_period q s)"
  by (simp add: post_def Let_def ensure_put_period)

text \<open>The two ways a reservation for a new request can end.\<close>

definition reserve_booked ::
    "settings \<Rightarrow> time \<Rightarrow> user_row \<Rightarrow> reserve_args \<Rightarrow> string \<Rightarrow> usage_period \<Rightarrow> ledger \<Rightarrow> usage_event \<Rightarrow> ledger \<Rightarrow> bool"
  where
  "reserve_booked cfg now user ra rid p s ev s' \<longleftrightarrow>
     (\<exists>m unl s1 s2.
        multiplier_for_model (ra_model ra) s = (Inr m, s1) \<and> 0 \<le> m \<and> same_accounts s s1 \<and>
        is_unlimited_subscriber (usr_id user) s1 = (Inr unl, s1) \<and>
        (let raw = ra_prompt_tokens ra + ra_max_completion_tokens ra;
             reserved = charged_token_count raw m;
             w = wallet_share unl reserved (per_remaining_tokens p)
         in w \<le> wallet_balance s (usr_id user) \<and>
            api_keys s2 = api_keys s \<and> inference_usage_events s2 = inference_usage_events s \<and>
            enforce_spend_limits cfg now (Some (ra_api_key_id ra)) reserved w s2 = (Inr (), s2) \<and>
            ev = new_event cfg now user ra (next_id s1) p rid m raw reserved w \<and>
            s' = book_new now p (per_used_tokens p + (reserved - w)) ev s1))"

lemma reserve_new_outcome:
  assumes ok: "service_ok s" and tok: "0 \<le> ra_prompt_tokens ra + ra_max_completion_tokens ra"
    and run: "reserve_new cfg now user ra rid p s = (r, s')"
    and p: "p \<in> set (usage_periods s)"
  shows "(\<exists>e. r = Inl e \<and> service_ok s' \<and> untouched s s') \<or>
         (\<exists>ev. r = Inr ev \<and> reserve_booked cfg now user ra rid p s ev s')"
proof -
  let ?uid = "usr_id user"
  obtain m s1 where m: "multiplier_for_model (ra_model ra) s = (Inr m, s1)" "prices_ok s1" "0 \<le> m"
    using multiplier_for_model_runs [of s "ra_model ra"] ok by (auto simp: service_ok_def)
  have acc: "same_accounts s s1"
    using tripleD [OF multiplier_for_model_frame same_accounts_refl m(1)] .
  have ok1: "service_ok s1"
    using ledger_ok_same_accounts [OF _ acc] ok m(2) by (simp add: service_ok_def)
  have wk: "wallet_keys s1" using ok1 by (simp add: service_ok_def ledger_wallet_keys)
  have bal: "wallet_balance s1 u = wallet_balance s u" for u
    using acc by (simp add: same_accounts_def wallet_balance_def)
  let ?raw = "ra_prompt_tokens ra + ra_max_completion_tokens ra"
  define reserved where "reserved = charged_token_count ?raw m"
  have un: "snd (is_unlimited_subscriber ?uid s1) = s1"
    using read_only_queries(2) by (simp add: read_only_def)
  show ?thesis
  proof (cases "fst (is_unlimited_subscriber ?uid s1)")
    case (Inl e)
    then have "is_unlimited_subscriber ?uid s1 = (Inl e, s1)" using un by (metis prod.collapse)
    then have "r = Inl e \<and> s' = s1"
      using run by (simp add: reserve_new_def split_reservation_def bind_def m(1) Let_def)
    then show ?thesis using ok1 acc by (simp add: untouched_same_accounts)
  next
    case (Inr unl)
    then have unl: "is_unlimited_subscriber ?uid s1 = (Inr unl, s1)" using un by (metis prod.collapse)
    define w where "w = wallet_share unl reserved (per_remaining_tokens p)"
    note split = split_reservation_run [OF wk unl w_def]
    define s2 where "s2 = (if w > 0 then ensure_wallet ?uid s1 else s1)"
    define wal where "wal = (if w > 0 then Some \<lparr>wal_user_id = ?uid, wal_balance_tokens = wallet_balance s1 ?uid\<rparr> else None)"
    have ok2: "service_ok s2" "untouched s s2" "next_id s2 = next_id s1"
      using ok1 service_ok_ensure [OF ok1] untouched_same_accounts [OF acc] untouched_ensure
      by (simp_all add: s2_def)
    show ?thesis
    proof (cases "w > 0 \<and> wallet_balance s1 ?uid < w")
      case True
      then have "r = Inl payment_required \<and> s' = s2"
        using run by (simp add: reserve_new_def bind_def m(1) Let_def split [folded reserved_def] s2_def
            reserved_def [symmetric])
      then show ?thesis using ok2 by simp
    next
      case False
      then have sp: "split_reservation user p reserved s1 = (Inr (reserved - w, w, wal), s2)"
        by (simp add: split s2_def wal_def)
      show ?thesis
      proof (cases "fst (enforce_spend_limits cfg now (Some (ra_api_key_id ra)) reserved w s2)")
        case (Inl e)
        then have "enforce_spend_limits cfg now (Some (ra_api_key_id ra)) reserved w s2 = (Inl e, s2)"
          using enforce_spend_limits_state by (metis prod.collapse)
        then have "r = Inl e \<and> s' = s2"
          using run by (simp add: reserve_new_def bind_def then_do_def m(1) Let_def reserved_def [symmetric] sp)
        then show ?thesis using ok2 by simp
      next
        case (Inr x)
        then have en: "enforce_spend_limits cfg now (Some (ra_api_key_id ra)) reserved w s2 = (Inr (), s2)"
          using enforce_spend_limits_state by (metis prod.collapse unit.exhaust)
        define ev where "ev = new_event cfg now user ra (next_id s1) p rid m ?raw reserved w"
        define q where "q = with_used p (per_used_tokens p + (reserved - w))"
        have wp: "wallet_portion ev = w" "ev_user_id ev = ?uid" "ev_id ev = next_id s1"
          by (simp_all add: ev_def new_event_def wallet_portion_def)
        have db: "debit_wallet now wal w (put_period q s2)
            = (Inr (), (if w = 0 then id else post now ?uid (- w) ''debit'') (put_period q s1))"
        proof (cases "w > 0")
          case True
          then show ?thesis by (simp add: debit_wallet_def wal_def s2_def move_balance_post [OF wk])
        next
          case False
          then have "w = 0" using wallet_share_nonneg [of unl reserved "per_remaining_tokens p"] w_def by simp
          then show ?thesis by (simp add: debit_wallet_def s2_def)
        qed
        have nid: "next_id ((if w = 0 then id else post now ?uid (- w) ''debit'') (put_period q s1)) = next_id s1"
          by simp
        have "reserve_new cfg now user ra rid p s = (Inr ev, book_new now p (per_used_tokens p + (reserved - w)) ev s1)"
          by (simp add: reserve_new_def bind_def then_do_def m(1) Let_def reserved_def [symmetric] sp en
              q_def [symmetric] db nid ev_def [symmetric] del: id_apply)
            (simp add: book_new_def wp q_def)
        then have res: "r = Inr ev" "s' = book_new now p (per_used_tokens p + (reserved - w)) ev s1"
          using run by simp_all
        have "w \<le> wallet_balance s ?uid"
        proof (cases "w > 0")
          case True
          then show ?thesis using False bal by simp
        next
          case False
          moreover have "0 \<le> wallet_balance s ?uid"
            using ledger_okD(6) [of s] ok by (simp add: service_ok_def wallets_ok_def)
          ultimately show ?thesis by simp
        qed
        then have "reserve_booked cfg now user ra rid p s ev s'"
          unfolding reserve_booked_def
          using m acc unl en ok2 res(2) ev_def
          by (intro exI [of _ m] exI [of _ unl] exI [of _ s1] exI [of _ s2])
            (auto simp: Let_def reserved_def [symmetric] w_def [symmetric] s2_def same_accounts_def)
        then show ?thesis using res(1) by blast
      qed
    qed
  qed
qed

lemma reserve_booked_ok:
  assumes ok: "service_ok s" and tok: "0 \<le> ra_prompt_tokens ra + ra_max_completion_tokens ra"
    and p: "owned_period (usr_id user) p s"
    and fresh: "\<forall>q \<in> set (inference_usage_events s). \<not> (ev_user_id q = usr_id user \<and> ev_request_id q = rid)"
    and b: "reserve_booked cfg now user ra rid p s ev s'"
  shows "service_ok s'"
proof -
  obtain m unl s1 w reserved where m: "multiplier_for_model (ra_model ra) s = (Inr m, s1)" "0 \<le> m" "same_accounts s s1"
    "reserved = charged_token_count (ra_prompt_tokens ra + ra_max_completion_tokens ra) m"
    "w = wallet_share unl reserved (per_remaining_tokens p)" "w \<le> wallet_balance s (usr_id user)"
    "ev = new_event cfg now user ra (next_id s1) p rid m
       (ra_prompt_tokens ra + ra_max_completion_tokens ra) reserved w"
    "s' = book_new now p (per_used_tokens p + (reserved - w)) ev s1"
    using b unfolding reserve_booked_def Let_def by blast
  have ok1: "ledger_ok s1" using ledger_ok_same_accounts [OF _ m(3)] ok by (simp add: service_ok_def)
  have pr: "prices_ok s1" using tripleD [OF multiplier_for_model_ok _ m(1)] ok by (simp add: service_ok_def)
  have r: "0 \<le> reserved" unfolding m(4) by (rule charged_token_count_nonneg [OF tok m(2)])
  have rem: "0 \<le> per_remaining_tokens p"
    using ledger_okD(5) [of s] ok p by (auto simp: service_ok_def periods_ok_def owned_period_def)
  have w: "0 \<le> w" "w \<le> reserved"
    using wallet_share_nonneg wallet_share_le [OF r rem] by (simp_all add: m(5))
  have ap: "allowance_portion ev = reserved - w" and wp: "wallet_portion ev = w"
    by (simp_all add: m(7) new_event_def allowance_portion_def wallet_portion_def)
  have "ledger_ok s'"
    unfolding m(8)
  proof (rule book_new_ok [OF ok1])
    show "event_ok ev" using w m(2) ap by (simp add: event_ok_def) (simp add: m(7) new_event_def)
    show "p \<in> set (usage_periods s1)" using p m(3) by (simp add: owned_period_def same_accounts_def)
    show "per_user_id p = ev_user_id ev" using p by (simp add: owned_period_def m(7) new_event_def)
    show "\<forall>q \<in> set (inference_usage_events s1). (ev_user_id q, ev_request_id q) \<noteq> (ev_user_id ev, ev_request_id ev)"
      using fresh m(3) by (auto simp: same_accounts_def m(7) new_event_def)
    show "wallet_portion ev \<le> wallet_balance s1 (ev_user_id ev)"
      using m(3,6) by (simp add: wp same_accounts_def wallet_balance_def) (simp add: m(7) new_event_def)
    show "per_used_tokens p + (reserved - w) = per_used_tokens p + allowance_portion ev" by (simp add: ap)
  qed (simp_all add: m(7) new_event_def)
  moreover have "model_pricing s' = model_pricing s1"
    by (simp add: m(8) book_new_def add_event_def post_def Let_def move_balance_def put_defs ensure_wallet_def)
  ultimately show ?thesis using pr by (simp add: service_ok_def prices_ok_def)
qed

section \<open>What the preparation of a reservation leaves alone\<close>

definition event_key :: "usage_event \<Rightarrow> nat \<times> nat \<times> string" where
  "event_key e = (ev_id e, ev_user_id e, ev_request_id e)"

text \<open>Sweeping and recalculating book nothing: the events keep their identity, an event that is
  still live is the one it was, and a balance can only have grown.\<close>

definition open_events :: "ledger \<Rightarrow> usage_event set" where
  "open_events s = {e \<in> set (inference_usage_events s). ev_status e = Reserved \<or> ev_status e = Settled}"

definition ended_events :: "ledger \<Rightarrow> usage_event set" where
  "ended_events s = {e \<in> set (inference_usage_events s). ev_status e \<noteq> Reserved}"

lemma events_cong:
  "inference_usage_events s' = inference_usage_events s \<Longrightarrow> open_events s' = open_events s"
  "inference_usage_events s' = inference_usage_events s \<Longrightarrow> ended_events s' = ended_events s"
  by (simp_all add: open_events_def ended_events_def)

definition nothing_booked :: "ledger \<Rightarrow> ledger \<Rightarrow> bool" where
  "nothing_booked s s' \<longleftrightarrow> api_keys s' = api_keys s \<and> user_subscriptions s' = user_subscriptions s \<and>
     map event_key (inference_usage_events s') = map event_key (inference_usage_events s) \<and>
     open_events s' \<subseteq> open_events s \<and> ended_events s \<subseteq> ended_events s' \<and>
     (\<forall>u. wallet_balance s u \<le> wallet_balance s' u)"

lemma nothing_booked_refl: "nothing_booked s s"
  by (simp add: nothing_booked_def)

lemma nothing_booked_trans:
  assumes "nothing_booked s t" "nothing_booked t u" shows "nothing_booked s u"
proof -
  note d = assms [unfolded nothing_booked_def]
  have "open_events u \<subseteq> open_events s" using d by (elim conjE) (rule subset_trans)
  moreover have "ended_events s \<subseteq> ended_events u" using d by (elim conjE) (rule subset_trans)
  moreover have "wallet_balance s v \<le> wallet_balance u v" for v using d by (meson order_trans)
  ultimately show ?thesis using d by (simp add: nothing_booked_def)
qed

lemma nothing_booked_same_accounts: "same_accounts s s' \<Longrightarrow> nothing_booked s s'"
  by (simp add: nothing_booked_def same_accounts_def wallet_balance_def events_cong [of s' s])

lemma expire_nothing_booked:
  assumes "ledger_ok s" "expire_stale_reservations now uid s = (r, s')"
  shows "nothing_booked s s'"
proof -
  obtain t where t: "expire_stale_reservations now uid s
        = (Inr (length (filter (is_stale now uid) (inference_usage_events s))), t)" "expiry_frame s t"
    "inference_usage_events t
      = map (\<lambda>e. if is_stale now uid e then closed now Expired e else e) (inference_usage_events s)"
    using expire_stale_run [OF assms(1), of now uid] by blast
  have "s' = t" using assms(2) t(1) by simp
  moreover have "map event_key (inference_usage_events t) = map event_key (inference_usage_events s)"
    by (auto simp: t(3) event_key_def)
  moreover have "open_events t \<subseteq> open_events s"
  proof
    fix e assume e: "e \<in> open_events t"
    then obtain q where q: "q \<in> set (inference_usage_events s)" "e = (if is_stale now uid q then closed now Expired q else q)"
      unfolding open_events_def t(3) by auto
    then show "e \<in> open_events s" using e by (cases "is_stale now uid q") (auto simp: open_events_def)
  qed
  moreover have "ended_events s \<subseteq> ended_events t"
  proof
    fix e assume e: "e \<in> ended_events s"
    then have "\<not> is_stale now uid e" by (simp add: ended_events_def is_stale_def)
    then have "e \<in> (\<lambda>e. if is_stale now uid e then closed now Expired e else e) ` set (inference_usage_events s)"
      using e by (intro image_eqI [of _ _ e]) (simp_all add: ended_events_def)
    then show "e \<in> ended_events t" using e by (simp add: ended_events_def t(3))
  qed
  ultimately show ?thesis using t(2) by (simp add: nothing_booked_def expiry_frame_def)
qed

lemma recalculate_nothing_booked:
  assumes "ledger_ok s" "recalculate_current_period cfg now user s = (r, s')"
  shows "nothing_booked s s'"
proof -
  let ?B = "nothing_booked s"
  have ex: "triple (\<lambda>t. t = s) (expire_stale_reservations now (Some (usr_id user))) (\<lambda>_. ?B) ?B"
    using expire_nothing_booked [OF assms(1)] by (auto intro: tripleI)
  have sd: "triple ?B (seed_default_billing_plans cfg) (\<lambda>_. ?B) ?B"
    by (rule triple_seed) (blast intro: nothing_booked_trans nothing_booked_same_accounts)
  have gc: "triple ?B (get_or_create_period now user a b) (\<lambda>_. ?B) ?B" for a b
    by (auto simp: triple_def get_or_create_period_def handler_defs Let_def nothing_booked_def wallet_balance_def
        open_events_def ended_events_def split: sum.splits option.splits)
  have pp: "?B (put_period p t) \<longleftrightarrow> ?B t" for p t by (simp add: nothing_booked_def events_cong [of "put_period p t" t])
  have "triple (\<lambda>t. t = s) (recalculate_current_period cfg now user) (\<lambda>_. ?B) ?B"
    unfolding recalculate_current_period_def
    apply (rule triple_then [OF ex])
    apply (rule triple_then [OF sd])
    apply (rule triple_bind [OF triple_read_only [OF read_only_queries(3)]])
    apply (simp only: split_paired_all prod.case)
    apply (rule triple_bind [OF gc])
    apply (rule triple_bind [OF triple_read_only [OF read_only_queries(4)]])
    apply (simp add: Let_def triple_def handler_defs pp)
    done
  then show ?thesis
    using assms(2) by (cases r) (auto dest: tripleD tripleD_err)
qed

section \<open>The whole operation\<close>

definition requested :: "nat \<Rightarrow> string \<Rightarrow> usage_event \<Rightarrow> bool" where
  "requested uid rid e \<longleftrightarrow> ev_user_id e = uid \<and> ev_request_id e = rid"

lemma find_request_run:
  assumes "requests_ok s"
  shows "find_request uid rid s = (Inr (find (requested uid rid) (inference_usage_events s)), s)"
proof -
  let ?key = "\<lambda>e. (ev_user_id e, ev_request_id e)"
  have d: "distinct (map ?key (inference_usage_events s))" using assms by (simp add: requests_ok_def)
  have r: "requested uid rid = (\<lambda>e. ?key e = (uid, rid))" by (auto simp: requested_def)
  have f: "find_request uid rid s = (scalar_one_or_none (filter (requested uid rid) (inference_usage_events s)), s)"
    by (simp add: find_request_def select_one_or_none_def requested_def [abs_def])
  show ?thesis
  proof (rule filter_key_cases [OF d, of "(uid, rid)"])
    assume "filter (\<lambda>q. ?key q = (uid, rid)) (inference_usage_events s) = []"
      "(uid, rid) \<notin> ?key ` set (inference_usage_events s)"
    moreover from this(2) have "find (\<lambda>e. ?key e = (uid, rid)) (inference_usage_events s) = None"
      by (simp only: find_None_key not_False_eq_True)
    ultimately show ?thesis unfolding f r by (simp only: scalar_one_or_none.simps)
  next
    fix e assume e: "filter (\<lambda>q. ?key q = (uid, rid)) (inference_usage_events s) = [e]"
      "e \<in> set (inference_usage_events s)" "?key e = (uid, rid)"
    have "find (\<lambda>q. ?key q = ?key e) (inference_usage_events s) = Some e" by (rule find_by_key [OF d e(2)])
    then show ?thesis unfolding f r e(1) unfolding e(3) by simp
  qed
qed

text \<open>A reservation sweeps, and then returns the event the request already has, or fails before
  anything is booked, or books one new event.\<close>

lemma reserve_outcome:
  assumes ok: "service_ok s" and tok: "0 \<le> ra_prompt_tokens ra + ra_max_completion_tokens ra"
    and run: "reserve_inference_tokens cfg now user ra s = (r, s')"
  defines "rid \<equiv> effective_request_id ra"
  obtains (existing) ev where "r = Inr ev" "service_ok s'" "nothing_booked s s'"
      "find (requested (usr_id user) rid) (inference_usage_events s') = Some ev"
  | (failed) e where "r = Inl e" "service_ok s'" "nothing_booked s s'"
  | (booked) ev p t where "r = Inr ev" "ready now (usr_id user) t" "nothing_booked s t"
      "owned_period (usr_id user) p t" "\<forall>q \<in> set (inference_usage_events t). \<not> requested (usr_id user) rid q"
      "reserve_booked cfg now user ra rid p t ev s'" "service_ok s'"
      "recalculate_current_period cfg now user (snd (expire_stale_reservations now (Some (usr_id user)) s)) = (Inr p, t)"
proof -
  let ?uid = "usr_id user"
  obtain n s1 where s1: "expire_stale_reservations now (Some ?uid) s = (Inr n, s1)"
    using expire_stale_run [of s now "Some ?uid"] ok by (auto simp: service_ok_def)
  have ok1: "service_ok s1" "swept now ?uid s1" using tripleD [OF service_ok_expire ok s1] by simp_all
  have nb1: "nothing_booked s s1" using expire_nothing_booked [OF _ s1] ok by (simp add: service_ok_def)
  have fr: "find_request ?uid rid t = (Inr (find (requested ?uid rid) (inference_usage_events t)), t)"
    if "service_ok t" for t
    using find_request_run that by (simp add: service_ok_def ledger_okD)
  note run' = run [unfolded reserve_inference_tokens_def Let_def rid_def [symmetric] then_do_def bind_def s1
      prod.case sum.case fr [OF ok1(1)]]
  show thesis
  proof (cases "find (requested ?uid rid) (inference_usage_events s1)")
    case (Some ev)
    then show ?thesis using run' existing [of ev] ok1 nb1 by simp
  next
    case None
    obtain rr s2 where s2: "recalculate_current_period cfg now user s1 = (rr, s2)" by fastforce
    have nb2: "nothing_booked s s2"
      using nothing_booked_trans [OF nb1 recalculate_nothing_booked [OF _ s2]] ok1(1) by (simp add: service_ok_def)
    show ?thesis
    proof (cases rr)
      case (Inl e)
      then have "service_ok s2" using tripleD_err [OF recalculate_ready ok1(1)] s2 by simp
      then show ?thesis using failed [of e] run' None s2 Inl nb2 by simp
    next
      case (Inr p)
      then have rd: "ready now ?uid s2" "owned_period ?uid p s2"
        using tripleD [OF recalculate_ready ok1(1)] s2 by simp_all
      have ok2: "service_ok s2" using rd(1) by (rule ready_service)
      have lp: "lock_period (per_id p) s2 = (Inr p, s2)"
        using lock_period_run [of s2 p] ok2 rd(2) by (simp add: service_ok_def ledger_okD owned_period_def)
      show ?thesis
      proof (cases "find (requested ?uid rid) (inference_usage_events s2)")
        case (Some ev)
        then show ?thesis using run' None s2 Inr lp fr [OF ok2] existing [of ev] ok2 nb2 by simp
      next
        case fresh: None
        then have fresh': "\<forall>q \<in> set (inference_usage_events s2). \<not> requested ?uid rid q"
          by (simp add: find_None_iff)
        have rn: "reserve_new cfg now user ra rid p s2 = (r, s')"
          using run' None s2 Inr lp fr [OF ok2] fresh by simp
        have pm: "p \<in> set (usage_periods s2)" using rd(2) by (simp add: owned_period_def)
        from reserve_new_outcome [OF ok2 tok rn pm] show ?thesis
        proof
          assume "\<exists>e. r = Inl e \<and> service_ok s' \<and> untouched s2 s'"
          then obtain e where e: "r = Inl e" "service_ok s'" "untouched s2 s'" by blast
          have "nothing_booked s2 s'" using e(3) by (simp add: nothing_booked_def untouched_def events_cong [of s' s2])
          then show ?thesis using failed e nothing_booked_trans [OF nb2] by blast
        next
          assume "\<exists>ev. r = Inr ev \<and> reserve_booked cfg now user ra rid p s2 ev s'"
          then obtain ev where ev: "r = Inr ev" "reserve_booked cfg now user ra rid p s2 ev s'" by blast
          have "service_ok s'"
            using reserve_booked_ok [OF ok2 tok rd(2) _ ev(2)] fresh' by (simp add: requested_def)
          moreover have "recalculate_current_period cfg now user (snd (expire_stale_reservations now (Some ?uid) s)) = (Inr p, s2)"
            using s2 Inr by (simp add: s1)
          ultimately show ?thesis using booked [OF ev(1) rd(1) nb2 rd(2) fresh' ev(2)] by blast
        qed
      qed
    qed
  qed
qed

end
