(* ===== verification/Settle.thy ===== *)
theory Settle
  imports Reserve
begin

text \<open>
  Settlement and release: what a settlement of a live reservation books, when it fails, and that
  every outcome but the failed assertion keeps the accounts consistent.
\<close>

definition settled :: "time \<Rightarrow> usage_event \<Rightarrow> int \<Rightarrow> int \<Rightarrow> int \<Rightarrow> usage_event" where
  "settled now e prompt completion w =
     e\<lparr>ev_prompt_tokens := prompt, ev_completion_tokens := completion,
       ev_raw_total_tokens := prompt + completion,
       ev_charged_tokens := charged_token_count (prompt + completion) (ev_model_multiplier e),
       ev_wallet_reserved_tokens := w, ev_status := Settled, ev_settled_at := Some now\<rparr>"

lemma settled_fields [simp]:
  "ev_id (settled now e p c w) = ev_id e" "ev_user_id (settled now e p c w) = ev_user_id e"
  "ev_usage_period_id (settled now e p c w) = ev_usage_period_id e"
  "ev_request_id (settled now e p c w) = ev_request_id e" "ev_status (settled now e p c w) = Settled"
  "ev_wallet_reserved_tokens (settled now e p c w) = w"
  "ev_charged_tokens (settled now e p c w) = charged_token_count (p + c) (ev_model_multiplier e)"
  "ev_model_multiplier (settled now e p c w) = ev_model_multiplier e"
  "ev_prompt_tokens (settled now e p c w) = p" "ev_completion_tokens (settled now e p c w) = c"
  by (simp_all add: settled_def)

text \<open>The wallet part of a settlement: what exceeds the remaining allowance with the event's own
  reservation released.\<close>

definition settle_share :: "bool \<Rightarrow> usage_event \<Rightarrow> usage_period \<Rightarrow> int \<Rightarrow> int" where
  "settle_share unl e p charged =
     wallet_share unl charged (per_remaining_tokens p + (ev_reserved_tokens e - ev_wallet_reserved_tokens e))"

definition settle_ledger :: "bool \<Rightarrow> usage_event \<Rightarrow> int \<Rightarrow> ledger \<Rightarrow> ledger" where
  "settle_ledger unl e w s =
     (if \<not> unl \<and> (w > 0 \<or> ev_wallet_reserved_tokens e > 0) then ensure_wallet (ev_user_id e) s else s)"

definition net_kind :: "int \<Rightarrow> string" where
  "net_kind d = (if d > 0 then ''refund'' else ''debit'')"

lemma split_settlement_run:
  assumes "wallet_keys s" "is_unlimited_subscriber (ev_user_id e) s = (Inr unl, s)"
    and w: "w = settle_share unl e p charged" and r: "0 \<le> ev_wallet_reserved_tokens e"
    and b: "0 \<le> wallet_balance s (ev_user_id e)"
  shows "split_settlement e p charged s =
    (if \<not> unl \<and> w > wallet_balance s (ev_user_id e) + ev_wallet_reserved_tokens e
     then (Inl payment_required, settle_ledger unl e w s)
     else (Inr (charged - w, w,
             if \<not> unl \<and> (w > 0 \<or> ev_wallet_reserved_tokens e > 0)
             then Some \<lparr>wal_user_id = ev_user_id e, wal_balance_tokens = wallet_balance s (ev_user_id e)\<rparr>
             else None), settle_ledger unl e w s))"
proof (cases unl)
  case True
  then show ?thesis
    using assms(2) by (simp add: split_settlement_def bind_def Let_def w settle_share_def wallet_share_def settle_ledger_def)
next
  case False
  define av where "av = per_remaining_tokens p + (ev_reserved_tokens e - ev_wallet_reserved_tokens e)"
  have w': "charged - min charged av = w" "min charged av = charged - w"
    using False by (simp_all add: w settle_share_def wallet_share_def av_def)
  show ?thesis
    using assms(2) False r b
    by (simp add: split_settlement_def Let_def av_def [symmetric] w' bind_def then_do_def
        lock_or_create_run [OF assms(1)] settle_ledger_def)
qed

lemma settle_ledger_ok: "ledger_ok s \<Longrightarrow> ledger_ok (settle_ledger unl e w s)"
  by (simp add: settle_ledger_def ledger_ok_ensure)

lemma model_pricing_frames [simp]:
  "model_pricing (rebook now p u e d k s) = model_pricing s"
  "model_pricing (ensure_wallet u' s) = model_pricing s"
  by (simp_all add: rebook_def put_event_def put_period_def post_def Let_def move_balance_def
      put_wallet_def add_transaction_def ensure_wallet_def)

lemma settle_ledger_fields [simp]:
  "inference_usage_events (settle_ledger unl e w s) = inference_usage_events s"
  "usage_periods (settle_ledger unl e w s) = usage_periods s"
  "wallet_balance (settle_ledger unl e w s) u = wallet_balance s u"
  "wallet_transactions (settle_ledger unl e w s) = wallet_transactions s"
  "next_id (settle_ledger unl e w s) = next_id s"
  "model_pricing (settle_ledger unl e w s) = model_pricing s"
  by (simp_all add: settle_ledger_def)

lemma ensure_twice: "ensure_wallet u (ensure_wallet u s) = ensure_wallet u s"
  by (simp add: ensure_wallet_def)

lemma settle_live_run:
  assumes ok: "ledger_ok s" and e: "e \<in> set (inference_usage_events s)" "ev_status e = Reserved" "now < ev_expires_at e"
    and p: "p \<in> set (usage_periods s)" "per_id p = ev_usage_period_id e"
    and unl: "is_unlimited_subscriber (ev_user_id e) s = (Inr unl, s)"
    and tok: "0 \<le> prompt + completion"
    and ch: "charged = charged_token_count (prompt + completion) (ev_model_multiplier e)"
    and w: "w = settle_share unl e p charged"
    and d: "d = ev_wallet_reserved_tokens e - w"
    and e': "e' = settled now e prompt completion w"
  shows "settle_inference_usage now e prompt completion s =
    (if \<not> unl \<and> w > wallet_balance s (ev_user_id e) + ev_wallet_reserved_tokens e
     then (Inl payment_required, settle_ledger unl e w s)
     else if unl \<and> d \<noteq> 0
     then (Inl (PyExc ''AssertionError''),
           put_period (with_used p (per_used_tokens p - allowance_portion e + (charged - w))) s)
     else (Inr e', rebook now p (per_used_tokens p - allowance_portion e + (charged - w)) e' d (net_kind d)
                     (settle_ledger unl e w s)))"
proof -
  have eok: "0 \<le> ev_wallet_reserved_tokens e" "0 \<le> ev_model_multiplier e" "0 \<le> allowance_portion e"
    using ledger_okD(4) [OF ok] e(1) by (auto simp: links_ok_def event_ok_def)
  have a: "allowance_portion e = ev_reserved_tokens e - ev_wallet_reserved_tokens e"
    using e(2) by (simp add: allowance_portion_def)
  have bal: "0 \<le> wallet_balance s (ev_user_id e)" using ledger_okD(6) [OF ok] by (simp add: wallets_ok_def)
  have rem: "0 \<le> per_remaining_tokens p"
    and use: "per_used_tokens p = booked (inference_usage_events s) (per_id p)"
    using ledger_okD(5) [OF ok] p(1) by (auto simp: periods_ok_def)
  have ch0: "0 \<le> charged" unfolding ch by (rule charged_token_count_nonneg [OF tok eok(2)])
  have cw: "0 \<le> charged - w"
    using wallet_share_le [OF ch0, of _ unl] rem eok(3) a by (simp add: w settle_share_def)
  have "\<forall>e \<in> set (inference_usage_events s). event_ok e"
    using ledger_okD(4) [OF ok] by (simp add: links_ok_def)
  from booked_ge_portion [OF this e(1)]
  have m: "max 0 (per_used_tokens p - (ev_reserved_tokens e - ev_wallet_reserved_tokens e) + (charged - w))
      = per_used_tokens p - allowance_portion e + (charged - w)"
    using cw by (simp add: use p(2) a)
  have lp: "lock_period (ev_usage_period_id e) s = (Inr p, s)"
    using lock_period_run [OF ledger_okD(1) [OF ok] p(1)] p(2) by simp
  note sp = split_settlement_run [OF ledger_wallet_keys [OF ok] unl w eok(1) bal]
  let ?q = "with_used p (per_used_tokens p - allowance_portion e + (charged - w))"
  have start: "settle_inference_usage now e prompt completion s =
      (case split_settlement e p charged s of
         (Inl er, t) \<Rightarrow> (Inl er, t)
       | (Inr (np, nw, wal), t) \<Rightarrow>
           then_do (modify (put_period (with_used p (max 0 (per_used_tokens p
               - (ev_reserved_tokens e - ev_wallet_reserved_tokens e) + np)))))
             (then_do (settle_wallet now wal (ev_wallet_reserved_tokens e - nw))
               (then_do (modify (put_event (settled now e prompt completion nw))) (ret (settled now e prompt completion nw)))) t)"
    unfolding settle_inference_usage_def
    using e(2,3) by (simp add: bind_def lp Let_def ch [symmetric] settled_def split: prod.splits sum.splits)
  show ?thesis
  proof (cases "\<not> unl \<and> w > wallet_balance s (ev_user_id e) + ev_wallet_reserved_tokens e")
    case True
    then show ?thesis by (simp add: start sp)
  next
    case ok1: False
    show ?thesis
    proof (cases unl)
      case True
      then have "w = 0" by (simp add: w settle_share_def wallet_share_def)
      then show ?thesis
        using True m by (simp add: start sp then_do_def bind_def settle_wallet_def d e' settle_ledger_def rebook_def)
    next
      case False
      show ?thesis
      proof (cases "d = 0")
        case True
        then show ?thesis
          using False ok1 m by (simp add: start sp then_do_def bind_def settle_wallet_def d e' rebook_def)
      next
        case nz: False
        have wp: "w > 0 \<or> ev_wallet_reserved_tokens e > 0"
          using nz d eok(1) wallet_share_nonneg
            [of unl charged "per_remaining_tokens p + (ev_reserved_tokens e - ev_wallet_reserved_tokens e)"]
          unfolding w settle_share_def by linarith
        then have sl: "settle_ledger False e w s = ensure_wallet (ev_user_id e) s"
          by (simp add: settle_ledger_def)
        have ne: "ev_wallet_reserved_tokens e \<noteq> w" using nz d by simp
        have mb: "move_balance now \<lparr>wal_user_id = ev_user_id e, wal_balance_tokens = wallet_balance s (ev_user_id e)\<rparr>
            d k (put_period ?q (ensure_wallet (ev_user_id e) s))
          = post now (ev_user_id e) d k (put_period ?q (ensure_wallet (ev_user_id e) s))" for k
          using ledger_wallet_keys [OF ok]
          by (simp add: post_def Let_def ensure_put_period ensure_twice)
        show ?thesis
          using False ok1 nz wp ne
          by (simp add: start sp then_do_def bind_def settle_wallet_def sl d [symmetric] m mb e' rebook_def net_kind_def)
      qed
    qed
  qed
qed

lemma settle_rebook_ok:
  assumes ok: "ledger_ok s" and e: "e \<in> set (inference_usage_events s)" "ev_status e = Reserved"
    and p: "p \<in> set (usage_periods s)" "per_id p = ev_usage_period_id e"
    and tok: "0 \<le> prompt + completion"
    and ch: "charged = charged_token_count (prompt + completion) (ev_model_multiplier e)"
    and w: "w = settle_share unl e p charged"
    and b: "w \<le> wallet_balance s (ev_user_id e) + ev_wallet_reserved_tokens e"
  shows "ledger_ok (rebook now p (per_used_tokens p - allowance_portion e + (charged - w))
           (settled now e prompt completion w) (ev_wallet_reserved_tokens e - w)
           (net_kind (ev_wallet_reserved_tokens e - w)) (settle_ledger unl e w s))"
proof (rule rebook_ok [OF settle_ledger_ok [OF ok]])
  have eok: "0 \<le> ev_model_multiplier e" "0 \<le> allowance_portion e"
    using ledger_okD(4) [OF ok] e(1) by (auto simp: links_ok_def event_ok_def)
  have rem: "0 \<le> per_remaining_tokens p"
    using ledger_okD(5) [OF ok] p(1) by (auto simp: periods_ok_def)
  have a: "allowance_portion e = ev_reserved_tokens e - ev_wallet_reserved_tokens e"
    using e(2) by (simp add: allowance_portion_def)
  have "0 \<le> charged" unfolding ch by (rule charged_token_count_nonneg [OF tok eok(1)])
  then have "w \<le> charged" using wallet_share_le [of charged _ unl] rem eok(2) a by (simp add: w settle_share_def)
  moreover have "0 \<le> w" using wallet_share_nonneg by (simp add: w settle_share_def)
  ultimately show "event_ok (settled now e prompt completion w)"
    using eok(1) by (simp add: event_ok_def allowance_portion_def ch)
  show "same_event e (settled now e prompt completion w)" by (simp add: same_event_def)
  show "ev_wallet_reserved_tokens e - w = wallet_portion e - wallet_portion (settled now e prompt completion w)"
    using e(2) by (simp add: wallet_portion_def)
  show "per_used_tokens p - allowance_portion e + (charged - w)
      = per_used_tokens p - allowance_portion e + allowance_portion (settled now e prompt completion w)"
    by (simp add: allowance_portion_def ch)
qed (use e p b in \<open>simp_all add: net_kind_def usage_kind_def\<close>)

text \<open>Every outcome of a settlement but the failed assertion keeps the accounts consistent.\<close>

theorem settle_service_ok:
  assumes ok: "service_ok s" and e: "e \<in> set (inference_usage_events s)" and tok: "0 \<le> prompt + completion"
    and run: "settle_inference_usage now e prompt completion s = (r, s')"
    and r: "r \<noteq> Inl (PyExc ''AssertionError'')"
  shows "service_ok s'"
proof -
  have lok: "ledger_ok s" using ok by (simp add: service_ok_def)
  consider "ev_status e = Settled" | "ev_status e = Expired \<or> ev_status e = Released"
    | "ev_status e = Reserved" "ev_expires_at e \<le> now" | "ev_status e = Reserved" "now < ev_expires_at e"
    by (metis event_status.exhaust not_le)
  then show ?thesis
  proof cases
    case 3
    obtain n t where t: "expire_stale_reservations now (Some (ev_user_id e)) s = (Inr n, t)"
      using expire_stale_run [OF lok, of now "Some (ev_user_id e)"] by blast
    have "s' = t" using run 3 by (simp add: settle_inference_usage_def then_do_def bind_def t)
    then show ?thesis using tripleD [OF service_ok_expire ok t] by simp
  next
    case 4
    obtain p where p: "p \<in> set (usage_periods s)" "per_id p = ev_usage_period_id e"
      using event_period [OF lok e] by blast
    have un: "snd (is_unlimited_subscriber (ev_user_id e) s) = s"
      using read_only_queries(2) by (simp add: read_only_def)
    have lp: "lock_period (ev_usage_period_id e) s = (Inr p, s)"
      using lock_period_run [OF ledger_okD(1) [OF lok] p(1)] p(2) by simp
    show ?thesis
    proof (cases "fst (is_unlimited_subscriber (ev_user_id e) s)")
      case (Inl er)
      then have "is_unlimited_subscriber (ev_user_id e) s = (Inl er, s)" using un by (metis prod.collapse)
      then have "s' = s"
        using run 4 by (simp add: settle_inference_usage_def bind_def lp Let_def split_settlement_def)
      then show ?thesis using ok by simp
    next
      case (Inr unl)
      then have unl: "is_unlimited_subscriber (ev_user_id e) s = (Inr unl, s)" using un by (metis prod.collapse)
      note sr = settle_live_run [OF lok e 4 p unl tok refl refl refl refl]
      note rk = settle_rebook_ok [OF lok e 4(1) p tok refl refl]
      have share0: "settle_share True e p c = 0" for c by (simp add: settle_share_def wallet_share_def)
      have b0: "0 \<le> wallet_balance s (ev_user_id e)" using ledger_okD(6) [OF lok] by (simp add: wallets_ok_def)
      show ?thesis
        using run r ok rk [of unl now] settle_ledger_ok [OF lok] b0 unfolding sr
        by (cases unl) (auto simp: service_ok_def prices_ok_def share0 split: if_splits)
    qed
  qed (use run ok in \<open>auto simp: settle_inference_usage_def\<close>)
qed

theorem release_service_ok:
  assumes ok: "service_ok s" and e: "e \<in> set (inference_usage_events s)"
  shows "\<exists>s'. release_inference_reservation now e s = (Inr (), s') \<and> service_ok s'"
proof -
  have lok: "ledger_ok s" using ok by (simp add: service_ok_def)
  consider "ev_status e \<noteq> Reserved" | "ev_status e = Reserved" "ev_expires_at e \<le> now"
    | "ev_status e = Reserved" "now < ev_expires_at e" by (metis not_le)
  then show ?thesis
  proof cases
    case 2
    obtain n t where t: "expire_stale_reservations now (Some (ev_user_id e)) s = (Inr n, t)"
      using expire_stale_run [OF lok, of now "Some (ev_user_id e)"] by blast
    then show ?thesis
      using 2 tripleD [OF service_ok_expire ok t] by (simp add: release_inference_reservation_def then_do_def bind_def)
  next
    case 3
    obtain p where p: "p \<in> set (usage_periods s)" "per_id p = ev_usage_period_id e"
      using event_period [OF lok e] by blast
    show ?thesis
      using 3 give_back_run [OF lok e 3(1) p, of now Released] give_back_ok [OF lok e 3(1) p, of Released now] ok
      by (simp add: release_inference_reservation_def service_ok_def prices_ok_def)
  qed (use ok in \<open>simp add: release_inference_reservation_def\<close>)
qed

end
