(* ===== verification/Demo.thy ===== *)
theory Demo
  imports Settle
begin

text \<open>
  A small concrete database the witnesses run on: one user with an active subscription, an API
  key with caps, a wallet credited by a top-up, and an open reservation.
\<close>

definition demo_settings :: settings where
  "demo_settings = \<lparr>api_key_usd_cents_per_million_credits = 1000, router_reservation_ttl_seconds = 900,
     token_reset_mode = AccountCreation, token_reset_day = 1, token_reset_weekday = 0,
     free_monthly_token_allowance = 1000\<rparr>"

definition demo_user :: user_row where
  "demo_user = \<lparr>usr_id = 1, usr_is_active = True, usr_created_at = 0\<rparr>"

definition demo_now :: time where "demo_now = 63000000000000000"

definition demo_key :: api_key_row where
  "demo_key = \<lparr>key_id = 2, key_user_id = 1, key_hashed_key = ''h'', key_scopes = [],
     key_allowed_models = None, key_allowed_ips = None, key_limit_period = None,
     key_credit_limit = Some 500, key_usd_limit_cents = Some 1, key_rate_limit_per_minute = 60,
     key_expires_at = None, key_last_used_at = None, key_revoked_at = None\<rparr>"

definition demo_plan :: billing_plan_row where
  "demo_plan = \<lparr>plan_id = 3, plan_slug = ''pro'', plan_name = ''Pro'', plan_description = Some ''d'',
     plan_stripe_price_id = None, plan_monthly_token_allowance = 100, plan_is_unlimited = False,
     plan_active = True, plan_visible = True, plan_sort_order = 20, plan_features = Some JNull,
     plan_stripe_annual_price_id = None, plan_price_cents = 4900, plan_annual_price_cents = None,
     plan_currency = ''usd''\<rparr>"

definition demo_subscription :: subscription_row where
  "demo_subscription = \<lparr>sub_id = 4, sub_user_id = 1, sub_plan_id = Some 3, sub_status = ''active'',
     sub_current_period_start = Some (demo_now - 1000000),
     sub_current_period_end = Some (demo_now + 1000000), sub_stripe_subscription_id = Some ''sub_1'',
     sub_stripe_price_id = Some ''price_pro'', sub_cancel_at_period_end = False\<rparr>"

definition demo_ledger :: ledger where
  "demo_ledger = \<lparr>users = [demo_user], api_keys = [demo_key], billing_plans = [demo_plan],
     user_subscriptions = [demo_subscription], crypto_balance_snapshots = [],
     manual_token_adjustments = [],
     model_pricing = [\<lparr>pr_model_name = ''m'', pr_token_multiplier = 15000, pr_active = True\<rparr>],
     usage_periods = [], inference_usage_events = [],
     user_wallets = [\<lparr>wal_user_id = 1, wal_balance_tokens = 100\<rparr>],
     wallet_transactions = [\<lparr>wtx_user_id = 1, wtx_delta_tokens = 100, wtx_kind = ''topup'',
        wtx_stripe_payment_intent_id = None, wtx_created_at = 0\<rparr>],
     next_id = 10\<rparr>"

definition demo_args :: "int \<Rightarrow> reserve_args" where
  "demo_args n = \<lparr>ra_api_key_id = 2, ra_router_client_id = None, ra_miner_id = None,
     ra_miner_hotkey = None, ra_model = ''m'', ra_prompt_tokens = n, ra_max_completion_tokens = 60,
     ra_request_id = Some ''r'', ra_context_request_id = None, ra_random_request_id = ''u'',
     ra_expires_at = None\<rparr>"

definition demo_run :: "int \<Rightarrow> (error + usage_event) \<times> ledger" where
  "demo_run n = reserve_inference_tokens demo_settings demo_now demo_user (demo_args n) demo_ledger"

definition demo_event :: usage_event where
  "demo_event = \<lparr>ev_id = 15, ev_usage_period_id = 14, ev_user_id = 1, ev_api_key_id = Some 2,
     ev_router_client_id = None, ev_miner_id = None, ev_miner_hotkey = None,
     ev_miner_model_hash = None, ev_miner_model_id = None, ev_request_id = ''r'', ev_model = ''m'',
     ev_prompt_tokens = 20, ev_completion_tokens = 0, ev_raw_total_tokens = 80,
     ev_model_multiplier = 15000, ev_reserved_tokens = 120, ev_wallet_reserved_tokens = 20,
     ev_charged_tokens = 0, ev_status = Reserved, ev_expires_at = demo_now + 900000000,
     ev_settled_at = None, ev_released_at = None, ev_created_at = demo_now\<rparr>"

text \<open>Evaluation of a handler by the simplifier: a handler is run from the left, and its
  continuation is only looked at once its state is known.\<close>

lemma bind_eval:
  "bind m f s = (case m s of (r, s') \<Rightarrow> (case r of Inl e \<Rightarrow> (Inl e, s') | Inr x \<Rightarrow> f x s'))"
  by (simp add: bind_def)

lemma then_eval:
  "then_do m k s = (case m s of (r, s') \<Rightarrow> (case r of Inl e \<Rightarrow> (Inl e, s') | Inr x \<Rightarrow> k s'))"
  by (simp add: then_do_def bind_def)

lemma for_each_eval:
  "for_each f (x # xs) s = (case f x s of (r, s') \<Rightarrow>
     (case r of Inl e \<Rightarrow> (Inl e, s') | Inr _ \<Rightarrow> for_each f xs s'))"
  by (simp add: then_do_def bind_def)

lemma select_eval:
  "select_one sel s = (scalar_one (sel s), s)"
  "select_one_or_none sel s = (scalar_one_or_none (sel s), s)"
  by (simp_all add: select_one_def select_one_or_none_def)

lemma eval_cong:
  "s = s' \<Longrightarrow> bind m f s = bind m f s'"
  "s = s' \<Longrightarrow> then_do m k s = then_do m k s'"
  by simp_all

lemmas eval_handlers = bind_eval then_eval for_each_eval select_eval Let_def

lemmas eval_usage =
  reserve_inference_tokens_def effective_request_id_def truthy_def expire_stale_reservations_def
  stale_events_def find_request_def recalculate_current_period_def current_period_bounds_def
  active_subscription_def active_subscription_statuses_def get_or_create_period_def stripe_allowance_def
  get_plan_def latest_crypto_allowance_def latest_snapshot_def manual_allowance_def
  period_used_tokens_def lock_period_def put_period_def replace_by_def

lemmas eval_seeds =
  seed_default_billing_plans_def default_plan_seeds_def seed_plan_def plan_matches_def add_plan_def
  put_plan_def reconcile_plan_def

lemmas demo_defs =
  demo_settings_def demo_user_def demo_now_def demo_key_def demo_plan_def demo_subscription_def
  demo_ledger_def demo_args_def

lemma demo_seeded: "\<exists>t. seed_default_billing_plans demo_settings demo_ledger = (Inr (), t)"
  by (simp add: eval_handlers eval_seeds demo_defs replace_by_def cong: eval_cong)


lemmas eval_prices =
  multiplier_for_model_def seed_default_model_pricing_def default_model_pricing_def seed_price_def

lemmas eval_reserve =
  reserve_new_def split_reservation_def is_unlimited_subscriber_def charged_token_count_def
  lock_or_create_wallet_def enforce_spend_limits_def key_spend_def key_events_def spent_credits_def
  spent_wallet_def live_reservation_def limit_window_def wallet_tokens_to_usd_cents_def debit_wallet_def
  move_balance_def put_wallet_def add_transaction_def with_used_def add_event_def new_event_def
  limit_exceeded_def period_used_tokens_def counted_tokens_def second_us_def

lemma demo_refused: "fst (demo_run 1000) = Inl payment_required"
  unfolding demo_run_def
  by (simp add: eval_handlers eval_seeds eval_usage eval_prices eval_reserve demo_defs cong: eval_cong)

definition demo_plan_row :: "nat \<Rightarrow> plan_seed \<Rightarrow> billing_plan_row" where
  "demo_plan_row i seed =
     \<lparr>plan_id = i, plan_slug = seed_slug seed, plan_name = seed_name seed,
      plan_description = Some (seed_description seed), plan_stripe_price_id = None,
      plan_monthly_token_allowance = seed_monthly_token_allowance seed,
      plan_is_unlimited = seed_is_unlimited seed, plan_active = True, plan_visible = seed_visible seed,
      plan_sort_order = seed_sort_order seed, plan_features = Some (seed_features seed),
      plan_stripe_annual_price_id = None, plan_price_cents = 0, plan_annual_price_cents = None,
      plan_currency = ''usd''\<rparr>"

definition demo_period :: usage_period where
  "demo_period = \<lparr>per_id = 14, per_user_id = 1, per_period_start = demo_now - 1000000,
     per_period_end = demo_now + 1000000, per_stripe_allowance = 100, per_ethereum_erc20_allowance = 0,
     per_substrate_native_allowance = 0, per_subnet_stake_allowance = 0, per_manual_allowance = 0,
     per_total_allowance = 100, per_used_tokens = 100, per_remaining_tokens = 0,
     per_calculated_at = demo_now\<rparr>"

definition demo_reserved :: ledger where
  "demo_reserved = demo_ledger
     \<lparr>billing_plans := demo_plan # map2 demo_plan_row [10, 11, 12, 13]
         (filter (\<lambda>seed. seed_slug seed \<noteq> ''pro'') (default_plan_seeds demo_settings)),
      model_pricing := model_pricing demo_ledger @
         map (\<lambda>x. \<lparr>pr_model_name = fst x, pr_token_multiplier = snd x, pr_active = True\<rparr>) default_model_pricing,
      usage_periods := [demo_period], inference_usage_events := [demo_event],
      user_wallets := [\<lparr>wal_user_id = 1, wal_balance_tokens = 80\<rparr>],
      wallet_transactions := wallet_transactions demo_ledger @
         [\<lparr>wtx_user_id = 1, wtx_delta_tokens = -20, wtx_kind = ''debit'',
           wtx_stripe_payment_intent_id = None, wtx_created_at = demo_now\<rparr>],
      next_id := 16\<rparr>"

lemma demo_reserves: "demo_run 20 = (Inr demo_event, demo_reserved)"
  unfolding demo_run_def demo_event_def demo_reserved_def demo_period_def demo_plan_row_def
  by (simp add: eval_handlers eval_seeds eval_usage eval_prices eval_reserve demo_defs cong: eval_cong)

lemma demo_accounts: "service_ok demo_ledger"
proof -
  have w: "wallet_balance demo_ledger u = (if u = 1 then 100 else 0)"
    "wallet_entries demo_ledger u = (if u = 1 then 100 else 0)" for u
    by (simp_all add: wallet_balance_def wallet_entries_def demo_defs)
  show ?thesis
    unfolding service_ok_def ledger_ok_def ledger_parts w
    by (simp add: demo_defs prices_ok_def moved_def drawn_def wallet_keys_def usage_kind_def)
qed

lemma demo_reserved_accounts: "service_ok demo_reserved"
proof -
  have w: "wallet_balance demo_reserved u = (if u = 1 then 80 else 0)"
    "wallet_entries demo_reserved u = (if u = 1 then 80 else 0)" for u
    by (simp_all add: wallet_balance_def wallet_entries_def demo_reserved_def demo_ledger_def)
  have l: "links_ok demo_reserved"
    by (simp add: links_ok_def demo_reserved_def demo_event_def demo_period_def event_ok_def allowance_portion_def)
  have p: "periods_ok demo_reserved"
    by (simp add: periods_ok_def demo_reserved_def demo_event_def demo_period_def booked_def allowance_portion_def)
  have a: "wallets_ok demo_reserved"
    unfolding wallets_ok_def w
    by (simp add: demo_reserved_def demo_ledger_def demo_event_def moved_def drawn_def usage_kind_def wallet_portion_def)
  have k: "keys_ok demo_reserved" "requests_ok demo_reserved" "windows_ok demo_reserved"
    by (simp_all add: keys_ok_def requests_ok_def windows_ok_def wallet_keys_def demo_reserved_def
        demo_event_def demo_period_def)
  have "prices_ok demo_reserved"
    by (simp add: prices_ok_def demo_reserved_def demo_ledger_def default_model_pricing_def)
  then show ?thesis using l p a k by (simp add: service_ok_def ledger_ok_def)
qed

lemma demo_event_in: "demo_event \<in> set (inference_usage_events demo_reserved)"
  by (simp add: demo_reserved_def)

lemmas eval_settle =
  settle_inference_usage_def split_settlement_def settle_wallet_def put_event_def settled_def

definition demo_settled :: "(error + usage_event) \<times> ledger" where
  "demo_settled = settle_inference_usage demo_now demo_event 10 10 demo_reserved"

lemma demo_settles: "fst demo_settled = Inr (settled demo_now demo_event 10 10 0)"
  unfolding demo_settled_def demo_reserved_def demo_event_def demo_period_def
  by (simp add: eval_handlers eval_settle eval_usage eval_reserve demo_defs demo_plan_row_def cong: eval_cong)

lemma demo_recalculates:
  "fst (recalculate_current_period demo_settings demo_now demo_user demo_reserved)
     = Inr (demo_period\<lparr>per_calculated_at := demo_now\<rparr>)"
  unfolding demo_reserved_def demo_event_def demo_period_def
  by (simp add: eval_handlers eval_seeds eval_usage eval_reserve demo_defs demo_plan_row_def cong: eval_cong)

text \<open>The same database after the subscriber's plan was made unlimited.\<close>

definition demo_upgraded :: ledger where
  "demo_upgraded = demo_reserved\<lparr>billing_plans := [demo_plan\<lparr>plan_is_unlimited := True\<rparr>]\<rparr>"

lemma demo_upgraded_unlimited: "is_unlimited_subscriber 1 demo_upgraded = (Inr True, demo_upgraded)"
  by (simp add: demo_upgraded_def demo_reserved_def is_unlimited_subscriber_def active_subscription_def
      active_subscription_statuses_def bind_def select_eval demo_defs get_plan_def)

lemma demo_upgraded_accounts: "service_ok demo_upgraded"
proof -
  have "wallet_balance demo_upgraded u = wallet_balance demo_reserved u"
    "wallet_entries demo_upgraded u = wallet_entries demo_reserved u"
    "wallet_keys demo_upgraded = wallet_keys demo_reserved" for u
    by (simp_all add: demo_upgraded_def wallet_balance_def wallet_entries_def wallet_keys_def)
  then show ?thesis
    using demo_reserved_accounts
    by (simp add: service_ok_def ledger_ok_def ledger_parts prices_ok_def demo_upgraded_def)
qed

end
