(* ===== verification/ApiUsage.thy ===== *)
theory ApiUsage
  imports Catalogue Demo "HOL-Library.Multiset" "HOL-Library.List_Lexorder" "HOL-Library.Char_ord" "HOL-Library.Product_Lexorder"
begin

text \<open>
  \<^verbatim>\<open>UsageService\<close> of the control plane (\<^verbatim>\<open>app/usage/service.py\<close>), which the serving plane's
  \<^verbatim>\<open>inference_api/usage.py\<close> mirrors line by line: its own copies of every operation, with the
  differences it has (no per-key caps, no miner columns, the priced catalogue), and the reports
  of the dashboard. The two planes write the same tables, so they must book the same; that is what
  the lemmas here prove.
\<close>

section \<open>Windows\<close>

definition api_next_month :: "int \<Rightarrow> int \<Rightarrow> int \<times> int" where
  "api_next_month year month = (if month = 12 then (year + 1, 1) else (year, month + 1))"

definition api_previous_month :: "int \<Rightarrow> int \<Rightarrow> int \<times> int" where
  "api_previous_month year month = (if month = 1 then (year - 1, 12) else (year, month - 1))"

definition api_month_anchor :: "time \<Rightarrow> int \<Rightarrow> int \<Rightarrow> int \<Rightarrow> int \<Rightarrow> time" where
  "api_month_anchor now day hour minute second =
     (let max_day = days_in_month (year_of now) (month_of now)
      in mk_datetime (year_of now) (month_of now) (min day max_day) hour minute second)"

definition api_account_creation_period :: "time \<Rightarrow> time \<Rightarrow> time \<times> time" where
  "api_account_creation_period created current =
     (let anchor = (\<lambda>context. api_month_anchor context (day_of created)
                       (hour_of created) (minute_of created) (second_of created));
          start0 = anchor current;
          start = (if start0 > current then
                     (case api_previous_month (year_of start0) (month_of start0) of
                        (year, month) \<Rightarrow> anchor (mk_datetime year month 1 0 0 0))
                   else start0);
          end = (case api_next_month (year_of start) (month_of start) of
                   (year, month) \<Rightarrow> anchor (mk_datetime year month 1 0 0 0))
      in (start, end))"

definition api_calendar_month_period :: "settings \<Rightarrow> time \<Rightarrow> time \<times> time" where
  "api_calendar_month_period cfg current =
     (let anchor = (\<lambda>context. api_month_anchor context (token_reset_day cfg) 0 0 0);
          start0 = anchor current;
          start = (if start0 > current then
                     (case api_previous_month (year_of start0) (month_of start0) of
                        (year, month) \<Rightarrow> anchor (mk_datetime year month 1 0 0 0))
                   else start0);
          end = (case api_next_month (year_of start) (month_of start) of
                   (year, month) \<Rightarrow> anchor (mk_datetime year month 1 0 0 0))
      in (start, end))"

definition api_weekly_period :: "settings \<Rightarrow> time \<Rightarrow> time \<times> time" where
  "api_weekly_period cfg current =
     (let midnight = mk_datetime (year_of current) (month_of current) (day_of current) 0 0 0;
          days_since_anchor = (weekday_of midnight - token_reset_weekday cfg) mod 7;
          start = midnight - days_since_anchor * day_us
      in (start, start + 7 * day_us))"

section \<open>Wallet, queries and expiry\<close>

definition api_lock_or_create_wallet :: "nat \<Rightarrow> (ledger, wallet_row) handler" where
  "api_lock_or_create_wallet uid =
     bind (select_one_or_none (\<lambda>s. filter (\<lambda>w. wal_user_id w = uid) (user_wallets s)))
       (\<lambda>found. case found of
            Some wallet \<Rightarrow> ret wallet
          | None \<Rightarrow>
              (let wallet = \<lparr>wal_user_id = uid, wal_balance_tokens = 0\<rparr>
               in then_do (modify (user_wallets_update (\<lambda>ws. ws @ [wallet]))) (ret wallet)))"

definition api_refund_wallet :: "time \<Rightarrow> nat \<Rightarrow> int \<Rightarrow> (ledger, unit) handler" where
  "api_refund_wallet now uid tokens =
     bind (api_lock_or_create_wallet uid) (\<lambda>wallet. modify (move_balance now wallet tokens ''refund''))"

definition api_charged_token_count :: "int \<Rightarrow> decimal4 \<Rightarrow> int" where
  "api_charged_token_count raw_tokens multiplier = - ((- (raw_tokens * multiplier)) div 10000)"

definition api_active_subscription :: "nat \<Rightarrow> (ledger, subscription_row option) handler" where
  "api_active_subscription uid =
     select_one_or_none (\<lambda>s. filter (\<lambda>r. sub_user_id r = uid \<and> sub_status r \<in> set active_subscription_statuses)
       (user_subscriptions s))"

definition api_is_unlimited_subscriber :: "nat \<Rightarrow> (ledger, bool) handler" where
  "api_is_unlimited_subscriber uid =
     bind (api_active_subscription uid) (\<lambda>subscription.
       case subscription of None \<Rightarrow> ret False
       | Some sub \<Rightarrow>
           (case sub_plan_id sub of None \<Rightarrow> ret False
            | Some pid \<Rightarrow> gets (\<lambda>s. case get_plan pid s of None \<Rightarrow> False
                                    | Some plan \<Rightarrow> plan_active plan \<and> plan_is_unlimited plan)))"

definition api_lock_period :: "nat \<Rightarrow> (ledger, usage_period) handler" where
  "api_lock_period pid = select_one (\<lambda>s. filter (\<lambda>p. per_id p = pid) (usage_periods s))"

definition api_current_period_bounds ::
    "settings \<Rightarrow> time \<Rightarrow> user_row \<Rightarrow> (ledger, time \<times> time \<times> subscription_row option) handler" where
  "api_current_period_bounds cfg now user =
     bind (api_active_subscription (usr_id user)) (\<lambda>active.
       let fallback = (case token_reset_mode cfg of
                CalendarMonth \<Rightarrow> api_calendar_month_period cfg now
              | Weekly \<Rightarrow> api_weekly_period cfg now
              | AccountCreation \<Rightarrow> api_account_creation_period (usr_created_at user) now)
       in ret (case active of
            Some sub \<Rightarrow> (case (sub_current_period_start sub, sub_current_period_end sub) of
                (Some start, Some end) \<Rightarrow> (start, end, active)
              | _ \<Rightarrow> (fst fallback, snd fallback, active))
          | None \<Rightarrow> (fst fallback, snd fallback, active)))"

definition api_get_or_create_period :: "time \<Rightarrow> user_row \<Rightarrow> time \<Rightarrow> time \<Rightarrow> (ledger, usage_period) handler" where
  "api_get_or_create_period now user period_start period_end =
     bind (select_one_or_none (\<lambda>s. filter (\<lambda>p. per_user_id p = usr_id user \<and>
             per_period_start p = period_start \<and> per_period_end p = period_end) (usage_periods s)))
       (\<lambda>found. case found of
            Some period \<Rightarrow> ret period
          | None \<Rightarrow>
              bind (gets next_id) (\<lambda>i.
                let period = \<lparr>per_id = i, per_user_id = usr_id user, per_period_start = period_start,
                      per_period_end = period_end, per_stripe_allowance = 0,
                      per_ethereum_erc20_allowance = 0, per_substrate_native_allowance = 0,
                      per_subnet_stake_allowance = 0, per_manual_allowance = 0,
                      per_total_allowance = 0, per_used_tokens = 0, per_remaining_tokens = 0,
                      per_calculated_at = now\<rparr>
                in then_do (modify (\<lambda>s. s\<lparr>usage_periods := usage_periods s @ [period], next_id := Suc i\<rparr>))
                     (ret period)))"

definition api_stripe_allowance :: "subscription_row option \<Rightarrow> (ledger, int) handler" where
  "api_stripe_allowance active =
     bind (gets (\<lambda>s. case active of None \<Rightarrow> None
            | Some sub \<Rightarrow> (case sub_plan_id sub of None \<Rightarrow> None | Some pid \<Rightarrow> get_plan pid s)))
       (\<lambda>plan.
          if (case plan of None \<Rightarrow> False | Some p \<Rightarrow> plan_active p)
          then ret (plan_monthly_token_allowance (the plan))
          else bind (select_one_or_none (\<lambda>s. filter (\<lambda>p. plan_slug p = ''free'' \<or> plan_name p = ''Free'')
                        (billing_plans s)))
                 (\<lambda>free_plan. ret (case free_plan of None \<Rightarrow> 0
                    | Some p \<Rightarrow> if plan_active p then plan_monthly_token_allowance p else 0)))"

definition api_latest_crypto_allowance :: "nat \<Rightarrow> string \<Rightarrow> string \<Rightarrow> ledger \<Rightarrow> int" where
  "api_latest_crypto_allowance uid chain token_type s =
     (case latest_snapshot (filter (\<lambda>r. snap_user_id r = uid \<and> snap_chain r = chain \<and>
              snap_token_type r = token_type \<and> snap_error_message r = None)
            (crypto_balance_snapshots s))
      of None \<Rightarrow> 0 | Some snapshot \<Rightarrow> snap_inference_token_allowance snapshot)"

definition api_manual_allowance :: "nat \<Rightarrow> time \<Rightarrow> time \<Rightarrow> ledger \<Rightarrow> int" where
  "api_manual_allowance uid period_start period_end s =
     (\<Sum>a \<leftarrow> filter (\<lambda>a. adj_user_id a = uid \<and> adj_created_at a \<ge> period_start \<and>
                       adj_created_at a < period_end) (manual_token_adjustments s). adj_amount a)"

definition api_give_back :: "time \<Rightarrow> usage_event \<Rightarrow> event_status \<Rightarrow> (ledger, unit) handler" where
  "api_give_back now event status =
     bind (api_lock_period (ev_usage_period_id event)) (\<lambda>period.
       let period_portion = ev_reserved_tokens event - ev_wallet_reserved_tokens event
       in then_do (modify (put_period (with_used period (max 0 (per_used_tokens period - period_portion)))))
         (then_do
            (if ev_wallet_reserved_tokens event \<noteq> 0
             then api_refund_wallet now (ev_user_id event) (ev_wallet_reserved_tokens event) else ret ())
            (modify (put_event (event\<lparr>ev_status := status, ev_released_at := Some now\<rparr>)))))"

definition api_expire_event :: "time \<Rightarrow> usage_event \<Rightarrow> (ledger, unit) handler" where
  "api_expire_event now event = api_give_back now event Expired"

definition api_expire_stale_reservations :: "time \<Rightarrow> nat option \<Rightarrow> (ledger, nat) handler" where
  "api_expire_stale_reservations now user_id =
     bind (gets (stale_events now user_id)) (\<lambda>stale.
       then_do (for_each (api_expire_event now) stale) (ret (length stale)))"

section \<open>The counted tokens\<close>

definition api_counted_tokens :: "time \<Rightarrow> usage_event \<Rightarrow> int" where
  "api_counted_tokens now e =
     (if ev_status e = Settled then ev_charged_tokens e
      else if ev_status e = Reserved \<and> ev_expires_at e > now then ev_reserved_tokens e else 0)"

definition api_period_allowance_tokens :: "time \<Rightarrow> usage_event \<Rightarrow> int" where
  "api_period_allowance_tokens now e =
     (if ev_status e = Settled then ev_charged_tokens e - ev_wallet_reserved_tokens e
      else if ev_status e = Reserved \<and> ev_expires_at e > now
      then ev_reserved_tokens e - ev_wallet_reserved_tokens e else 0)"

definition api_period_used_tokens :: "time \<Rightarrow> nat \<Rightarrow> ledger \<Rightarrow> int" where
  "api_period_used_tokens now pid s =
     sum_list (map (api_period_allowance_tokens now)
       (filter (\<lambda>e. ev_usage_period_id e = pid) (inference_usage_events s)))"

section \<open>The current period\<close>

definition api_recalculate_current_period ::
    "catalogue_settings \<Rightarrow> time \<Rightarrow> user_row \<Rightarrow> (ledger, usage_period) handler" where
  "api_recalculate_current_period cfg now user =
     then_do (api_expire_stale_reservations now (Some (usr_id user)))
    (then_do (catalogue_seed_plans cfg)
    (bind (api_current_period_bounds (settings.truncate cfg) now user) (\<lambda>(period_start, period_end, active).
     bind (api_get_or_create_period now user period_start period_end) (\<lambda>period.
     bind (api_stripe_allowance active) (\<lambda>stripe.
     bind (gets (api_latest_crypto_allowance (usr_id user) ''ethereum'' ''erc20'')) (\<lambda>ethereum.
     bind (gets (api_latest_crypto_allowance (usr_id user) ''substrate_evm'' ''native'')) (\<lambda>substrate.
     bind (gets (api_latest_crypto_allowance (usr_id user) ''hypertensor'' ''subnet_stake'')) (\<lambda>stake.
     bind (gets (api_manual_allowance (usr_id user) period_start period_end)) (\<lambda>manual.
     bind (gets (api_period_used_tokens now (per_id period))) (\<lambda>used.
       let total = stripe + ethereum + substrate + stake + manual;
           period = period\<lparr>per_stripe_allowance := stripe, per_ethereum_erc20_allowance := ethereum,
             per_substrate_native_allowance := substrate, per_subnet_stake_allowance := stake,
             per_manual_allowance := manual, per_total_allowance := total, per_used_tokens := used,
             per_remaining_tokens := max 0 (total - used), per_calculated_at := now\<rparr>
       in then_do (modify (put_period period)) (ret period)))))))))))"

section \<open>Reservation and settlement\<close>

definition api_split_reservation ::
    "user_row \<Rightarrow> usage_period \<Rightarrow> int \<Rightarrow> (ledger, int \<times> int \<times> wallet_row option) handler" where
  "api_split_reservation user locked_period reserved_tokens =
     bind (api_is_unlimited_subscriber (usr_id user)) (\<lambda>unlimited.
       if unlimited then ret (reserved_tokens, 0, None)
       else
         (let allowance_portion = min reserved_tokens (per_remaining_tokens locked_period);
              wallet_portion = reserved_tokens - allowance_portion
          in if wallet_portion > 0 then
               bind (api_lock_or_create_wallet (usr_id user)) (\<lambda>wallet.
                 then_do (guard_or (\<not> wal_balance_tokens wallet < wallet_portion) payment_required)
                   (ret (allowance_portion, wallet_portion, Some wallet)))
             else ret (allowance_portion, wallet_portion, None)))"

definition api_reserve_new ::
    "settings \<Rightarrow> time \<Rightarrow> user_row \<Rightarrow> reserve_args \<Rightarrow> string \<Rightarrow> usage_period \<Rightarrow> (ledger, usage_event) handler"
  where
  "api_reserve_new cfg now user ra request_id locked_period =
     bind (multiplier_for_model (ra_model ra)) (\<lambda>multiplier.
       let raw = ra_prompt_tokens ra + ra_max_completion_tokens ra;
           reserved_tokens = api_charged_token_count raw multiplier
       in bind (api_split_reservation user locked_period reserved_tokens)
            (\<lambda>(allowance_portion, wallet_portion, wallet).
          then_do (modify (put_period (with_used locked_period
                     (per_used_tokens locked_period + allowance_portion))))
         (then_do (debit_wallet now wallet wallet_portion)
         (bind (gets next_id) (\<lambda>i.
            let event = new_event cfg now user (ra\<lparr>ra_miner_id := None, ra_miner_hotkey := None\<rparr>) i
                          locked_period request_id multiplier raw reserved_tokens wallet_portion
            in then_do (modify (add_event event)) (ret event))))))"

definition api_reserve_inference_tokens ::
    "catalogue_settings \<Rightarrow> time \<Rightarrow> user_row \<Rightarrow> reserve_args \<Rightarrow> (ledger, usage_event) handler" where
  "api_reserve_inference_tokens cfg now user ra =
     (let request_id = effective_request_id ra
      in then_do (api_expire_stale_reservations now (Some (usr_id user)))
        (bind (find_request (usr_id user) request_id) (\<lambda>existing.
           case existing of Some event \<Rightarrow> ret event
           | None \<Rightarrow>
               bind (api_recalculate_current_period cfg now user) (\<lambda>period.
               bind (api_lock_period (per_id period)) (\<lambda>locked_period.
               bind (find_request (usr_id user) request_id) (\<lambda>existing.
                 case existing of Some event \<Rightarrow> ret event
                 | None \<Rightarrow> api_reserve_new (settings.truncate cfg) now user ra request_id locked_period))))))"

definition api_split_settlement ::
    "usage_event \<Rightarrow> usage_period \<Rightarrow> int \<Rightarrow> (ledger, int \<times> int \<times> wallet_row option) handler" where
  "api_split_settlement event period charged_tokens =
     (let old_period_portion = ev_reserved_tokens event - ev_wallet_reserved_tokens event;
          old_wallet_portion = ev_wallet_reserved_tokens event
      in bind (api_is_unlimited_subscriber (ev_user_id event)) (\<lambda>unlimited.
           if unlimited then ret (charged_tokens, 0, None)
           else
             (let available_allowance = per_remaining_tokens period + old_period_portion;
                  new_period_portion = min charged_tokens available_allowance;
                  new_wallet_portion = charged_tokens - new_period_portion
              in bind (if new_wallet_portion > 0 \<or> old_wallet_portion > 0
                       then bind (api_lock_or_create_wallet (ev_user_id event)) (\<lambda>w. ret (Some w))
                       else ret None)
                   (\<lambda>wallet.
                     let available_wallet =
                           (case wallet of None \<Rightarrow> 0 | Some w \<Rightarrow> wal_balance_tokens w) + old_wallet_portion
                     in then_do (guard_or (\<not> new_wallet_portion > available_wallet) payment_required)
                          (ret (new_period_portion, new_wallet_portion, wallet))))))"

definition api_settle_wallet :: "time \<Rightarrow> wallet_row option \<Rightarrow> int \<Rightarrow> (ledger, unit) handler" where
  "api_settle_wallet now wallet net_delta =
     (if net_delta \<noteq> 0 then
        (case wallet of None \<Rightarrow> raise (PyExc ''AssertionError'')
         | Some w \<Rightarrow> modify (move_balance now w net_delta (if net_delta > 0 then ''refund'' else ''debit'')))
      else ret ())"

definition api_settle_inference_usage :: "time \<Rightarrow> usage_event \<Rightarrow> int \<Rightarrow> int \<Rightarrow> (ledger, usage_event) handler"
  where
  "api_settle_inference_usage now event prompt_tokens completion_tokens =
     (if ev_status event = Settled then ret event
      else if ev_status event = Reserved \<and> ev_expires_at event \<le> now then
        then_do (api_expire_stale_reservations now (Some (ev_user_id event)))
          (raise (bad_request ''reservation_expired''))
      else if ev_status event = Expired \<or> ev_status event = Released then
        raise (bad_request ''reservation_not_active'')
      else
        bind (api_lock_period (ev_usage_period_id event)) (\<lambda>period.
          let raw_total = prompt_tokens + completion_tokens;
              charged_tokens = api_charged_token_count raw_total (ev_model_multiplier event);
              old_period_portion = ev_reserved_tokens event - ev_wallet_reserved_tokens event
          in bind (api_split_settlement event period charged_tokens)
               (\<lambda>(new_period_portion, new_wallet_portion, wallet).
             then_do (modify (put_period (with_used period
                        (max 0 (per_used_tokens period - old_period_portion + new_period_portion)))))
            (then_do (api_settle_wallet now wallet (ev_wallet_reserved_tokens event - new_wallet_portion))
               (let event = event\<lparr>ev_prompt_tokens := prompt_tokens,
                      ev_completion_tokens := completion_tokens, ev_raw_total_tokens := raw_total,
                      ev_charged_tokens := charged_tokens,
                      ev_wallet_reserved_tokens := new_wallet_portion, ev_status := Settled,
                      ev_settled_at := Some now\<rparr>
                in then_do (modify (put_event event)) (ret event))))))"

definition api_release_inference_reservation :: "time \<Rightarrow> usage_event \<Rightarrow> (ledger, unit) handler" where
  "api_release_inference_reservation now event =
     (if ev_status event \<noteq> Reserved then ret ()
      else if ev_expires_at event \<le> now then
        then_do (api_expire_stale_reservations now (Some (ev_user_id event))) (ret ())
      else api_give_back now event Released)"

section \<open>The planes agree\<close>

text \<open>Every operation of the control plane is the operation of the serving plane.\<close>

lemma api_windows:
  "api_next_month = next_month" "api_previous_month = previous_month" "api_month_anchor = month_anchor"
  "api_weekly_period = weekly_period"
  unfolding fun_eq_iff api_next_month_def next_month_def api_previous_month_def previous_month_def
      api_month_anchor_def month_anchor_def api_weekly_period_def weekly_period_def by (intro conjI allI refl)+

lemma api_month_periods:
  "api_account_creation_period = account_creation_period" "api_calendar_month_period = calendar_month_period"
  unfolding fun_eq_iff api_account_creation_period_def account_creation_period_def
      api_calendar_month_period_def calendar_month_period_def api_windows by (intro conjI allI refl)+

lemma api_queries:
  "api_charged_token_count = charged_token_count" "api_active_subscription = active_subscription"
  "api_lock_period = lock_period" "api_get_or_create_period = get_or_create_period"
  "api_stripe_allowance = stripe_allowance" "api_latest_crypto_allowance = latest_crypto_allowance"
  "api_manual_allowance = manual_allowance" "api_lock_or_create_wallet = lock_or_create_wallet"
  unfolding fun_eq_iff api_charged_token_count_def charged_token_count_def
      api_active_subscription_def active_subscription_def api_lock_period_def lock_period_def
      api_get_or_create_period_def get_or_create_period_def api_stripe_allowance_def stripe_allowance_def
      api_latest_crypto_allowance_def latest_crypto_allowance_def api_manual_allowance_def
      manual_allowance_def api_lock_or_create_wallet_def lock_or_create_wallet_def by (intro conjI allI refl)+

lemma api_subscriptions:
  "api_is_unlimited_subscriber = is_unlimited_subscriber" "api_current_period_bounds = current_period_bounds"
  "api_refund_wallet = refund_wallet" "api_period_used_tokens = period_used_tokens"
  unfolding fun_eq_iff api_is_unlimited_subscriber_def is_unlimited_subscriber_def
      api_current_period_bounds_def current_period_bounds_def api_refund_wallet_def refund_wallet_def
      api_period_used_tokens_def period_used_tokens_def api_period_allowance_tokens_def [abs_def]
      counted_tokens_def [abs_def] api_queries api_windows api_month_periods by (intro conjI allI refl)+

lemma api_giving_back:
  "api_give_back = give_back" "api_expire_event = expire_event"
  "api_expire_stale_reservations = expire_stale_reservations"
proof -
  show g: "api_give_back = give_back"
    unfolding fun_eq_iff api_give_back_def give_back_def api_queries api_subscriptions by (intro conjI allI refl)+
  show e: "api_expire_event = expire_event" unfolding fun_eq_iff api_expire_event_def expire_event_def g by (intro conjI allI refl)+
  show "api_expire_stale_reservations = expire_stale_reservations"
    unfolding fun_eq_iff api_expire_stale_reservations_def expire_stale_reservations_def e by (intro conjI allI refl)+
qed

lemma api_splits:
  "api_split_reservation = split_reservation" "api_split_settlement = split_settlement"
  "api_settle_wallet = settle_wallet"
  unfolding fun_eq_iff api_split_reservation_def split_reservation_def api_split_settlement_def
      split_settlement_def api_settle_wallet_def settle_wallet_def api_queries api_subscriptions by (intro conjI allI refl)+

text \<open>The two planes book the same: settlement, release, expiry and the charge of the control
  plane are those of the serving plane on every state.\<close>

theorem planes_book_the_same:
  "api_settle_inference_usage now e prompt completion s = settle_inference_usage now e prompt completion s \<and>
   api_release_inference_reservation now e s = release_inference_reservation now e s \<and>
   api_expire_stale_reservations now uid s = expire_stale_reservations now uid s \<and>
   api_charged_token_count raw m = charged_token_count raw m"
proof -
  have "api_settle_inference_usage now e prompt completion = settle_inference_usage now e prompt completion"
    unfolding api_settle_inference_usage_def settle_inference_usage_def api_giving_back api_queries api_splits ..
  moreover have "api_release_inference_reservation now e = release_inference_reservation now e"
    unfolding api_release_inference_reservation_def release_inference_reservation_def api_giving_back ..
  ultimately show ?thesis by (simp add: api_giving_back api_queries)
qed

text \<open>The two planes compute the same current period whenever their seedings agree on the swept
  tables.\<close>

theorem planes_recalculate_the_same:
  assumes "expire_stale_reservations now (Some (usr_id user)) s = (Inr n, t)"
    and "catalogue_seed_plans cfg t = seed_default_billing_plans (settings.truncate cfg) t"
  shows "api_recalculate_current_period cfg now user s
    = recalculate_current_period (settings.truncate cfg) now user s"
  unfolding api_recalculate_current_period_def recalculate_current_period_def api_giving_back api_queries
    api_subscriptions then_do_def bind_def assms(1)
  by (simp only: prod.case sum.case assms(2))

section \<open>Reports\<close>

definition api_usage_history :: "nat \<Rightarrow> nat \<Rightarrow> ledger \<Rightarrow> usage_event list" where
  "api_usage_history uid limit s =
     take limit (sort_key (\<lambda>e. - ev_created_at e) (filter (\<lambda>e. ev_user_id e = uid) (inference_usage_events s)))"

definition trunc_hour :: "time \<Rightarrow> time" where
  "trunc_hour t = t - t mod (3600 * second_us)"

text \<open>\<open>GROUP BY\<close> with a sum: one row per key, in key order.\<close>

definition sum_by :: "('a \<Rightarrow> 'k :: linorder) \<Rightarrow> ('a \<Rightarrow> int) \<Rightarrow> 'a list \<Rightarrow> ('k \<times> int) list" where
  "sum_by key f xs = map (\<lambda>k. (k, sum_list (map f (filter (\<lambda>x. key x = k) xs)))) (sort (remdups (map key xs)))"

definition usage_hourly :: "time \<Rightarrow> nat \<Rightarrow> usage_period \<Rightarrow> ledger \<Rightarrow> (time \<times> int) list" where
  "usage_hourly now uid period s =
     filter (\<lambda>(hour, tokens). tokens \<noteq> 0)
       (sum_by (\<lambda>e. trunc_hour (ev_created_at e)) (api_counted_tokens now)
         (filter (\<lambda>e. ev_user_id e = uid \<and> ev_created_at e \<ge> per_period_start period \<and>
                      ev_created_at e < per_period_end period) (inference_usage_events s)))"

record model_usage =
  mu_model :: string
  mu_request_count :: nat
  mu_prompt_tokens :: int
  mu_completion_tokens :: int
  mu_charged_tokens :: int
  mu_last_used_at :: time

definition model_row :: "time \<Rightarrow> string \<Rightarrow> usage_event list \<Rightarrow> model_usage" where
  "model_row now model es =
     \<lparr>mu_model = model, mu_request_count = length es,
      mu_prompt_tokens = sum_list (map ev_prompt_tokens es),
      mu_completion_tokens = sum_list (map ev_completion_tokens es),
      mu_charged_tokens = sum_list (map (api_counted_tokens now) es),
      mu_last_used_at = fold max (map ev_created_at es) (ev_created_at (hd es))\<rparr>"

definition model_rows :: "time \<Rightarrow> nat \<Rightarrow> ledger \<Rightarrow> model_usage list" where
  "model_rows now uid s =
     (let es = filter (\<lambda>e. ev_user_id e = uid) (inference_usage_events s)
      in sort_key (\<lambda>r. (- mu_charged_tokens r, mu_model r))
           (map (\<lambda>m. model_row now m (filter (\<lambda>e. ev_model e = m) es)) (remdups (map ev_model es))))"

definition usage_by_model :: "time \<Rightarrow> nat \<Rightarrow> nat \<Rightarrow> nat \<Rightarrow> ledger \<Rightarrow> model_usage list \<times> nat" where
  "usage_by_model now uid limit offset s =
     (take limit (drop offset (model_rows now uid s)), length (model_rows now uid s))"

definition usage_by_model_detail ::
    "time \<Rightarrow> nat \<Rightarrow> string \<Rightarrow> nat \<Rightarrow> nat \<Rightarrow> ledger \<Rightarrow> (model_usage \<times> usage_event list) option" where
  "usage_by_model_detail now uid model limit offset s =
     (let es = filter (\<lambda>e. ev_user_id e = uid \<and> ev_model e = model) (inference_usage_events s)
      in if length es = 0 then None
         else Some (model_row now model es, take limit (drop offset (sort_key (\<lambda>e. - ev_created_at e) es))))"

lemma sum_over_groups:
  fixes f :: "'a \<Rightarrow> int"
  assumes "distinct ks" "key ` set xs \<subseteq> set ks"
  shows "(\<Sum>k \<leftarrow> ks. sum_list (map f (filter (\<lambda>x. key x = k) xs))) = sum_list (map f xs)"
  using assms(2)
proof (induction xs)
  case (Cons x xs)
  have "(\<Sum>k \<leftarrow> ks. sum_list (map f (filter (\<lambda>y. key y = k) (x # xs))))
      = (\<Sum>k \<leftarrow> ks. (if key x = k then f x else 0) + sum_list (map f (filter (\<lambda>y. key y = k) xs)))"
    by (rule arg_cong [where f = sum_list], rule map_cong) auto
  also have "\<dots> = (\<Sum>k \<leftarrow> ks. if key x = k then f x else 0) + sum_list (map f xs)"
    using Cons by (simp add: sum_list_addf)
  also have "(\<Sum>k \<leftarrow> ks. if key x = k then f x else 0) = f x"
    using assms(1) Cons.prems by (simp add: sum_list_distinct_conv_sum_set)
  finally show ?case by simp
qed simp

lemma sum_list_drop_zero: "sum_list (map snd (filter (\<lambda>(k, v). v \<noteq> 0) ps)) = sum_list (map (snd :: 'k \<times> int \<Rightarrow> int) ps)"
  by (induction ps) auto

lemma sum_list_sort: "sum_list (map (f :: 'a \<Rightarrow> int) (sort_key key xs)) = sum_list (map f xs)"
  by (metis mset_map mset_sort sum_mset_sum_list)

lemma sum_by_total: "sum_list (map snd (sum_by key f xs)) = sum_list (map f xs)"
proof -
  have "sum_list (map snd (sum_by key f xs))
      = (\<Sum>k \<leftarrow> sort (remdups (map key xs)). sum_list (map f (filter (\<lambda>x. key x = k) xs)))"
    by (simp add: sum_by_def comp_def)
  then show ?thesis by (simp add: sum_over_groups)
qed

text \<open>The reports account for all usage and count nothing twice: the per-model rows add up to
  the counted tokens of all the user's events, with as many requests as there are events, one row per
  model; the hourly buckets add up to the counted tokens of the period, in strictly increasing hours.\<close>

theorem reports_add_up:
  "(\<Sum>r \<leftarrow> model_rows now uid s. mu_charged_tokens r)
     = sum_list (map (api_counted_tokens now) (filter (\<lambda>e. ev_user_id e = uid) (inference_usage_events s))) \<and>
   (\<Sum>r \<leftarrow> model_rows now uid s. int (mu_request_count r))
     = int (length (filter (\<lambda>e. ev_user_id e = uid) (inference_usage_events s))) \<and>
   distinct (map mu_model (model_rows now uid s)) \<and>
   (\<Sum>(h, t) \<leftarrow> usage_hourly now uid p s. t)
     = sum_list (map (api_counted_tokens now) (filter (\<lambda>e. ev_user_id e = uid \<and>
         ev_created_at e \<ge> per_period_start p \<and> ev_created_at e < per_period_end p) (inference_usage_events s))) \<and>
   sorted_wrt (<) (map fst (usage_hourly now uid p s))"
proof (intro conjI)
  let ?es = "filter (\<lambda>e. ev_user_id e = uid) (inference_usage_events s)"
  have g: "(\<Sum>m \<leftarrow> remdups (map ev_model ?es). sum_list (map f (filter (\<lambda>e. ev_model e = m) ?es)))
      = sum_list (map f ?es)" for f :: "usage_event \<Rightarrow> int"
    by (rule sum_over_groups) auto
  show "(\<Sum>r \<leftarrow> model_rows now uid s. mu_charged_tokens r) = sum_list (map (api_counted_tokens now) ?es)"
    using g [of "api_counted_tokens now"] by (simp add: model_rows_def Let_def sum_list_sort model_row_def comp_def)
  have "int (length xs) = sum_list (map (\<lambda>_. 1) xs)" for xs :: "usage_event list"
    by (induction xs) simp_all
  then show "(\<Sum>r \<leftarrow> model_rows now uid s. int (mu_request_count r)) = int (length ?es)"
    using g [of "\<lambda>_. 1"] by (simp add: model_rows_def Let_def sum_list_sort model_row_def comp_def)
  have "mset (map mu_model (model_rows now uid s)) = mset (remdups (map ev_model ?es))"
  proof -
    define row where "row = (\<lambda>m. model_row now m (filter (\<lambda>e. ev_model e = m) ?es))"
    have "map mu_model (map row ks) = ks" for ks by (induction ks) (simp_all add: row_def model_row_def)
    then have "mset (map mu_model (sort_key key (map row ks))) = mset ks" for key :: "model_usage \<Rightarrow> int \<times> string" and ks
      by (metis mset_map mset_sort)
    then show ?thesis unfolding model_rows_def Let_def row_def by blast
  qed
  then show "distinct (map mu_model (model_rows now uid s))"
    by (metis distinct_remdups mset_eq_imp_distinct_iff)
  let ?ps = "filter (\<lambda>e. ev_user_id e = uid \<and> ev_created_at e \<ge> per_period_start p \<and>
      ev_created_at e < per_period_end p) (inference_usage_events s)"
  have "(\<Sum>(h, t) \<leftarrow> usage_hourly now uid p s. t) = sum_list (map snd (usage_hourly now uid p s))"
    by (rule arg_cong [where f = sum_list], rule map_cong) auto
  then show "(\<Sum>(h, t) \<leftarrow> usage_hourly now uid p s. t) = sum_list (map (api_counted_tokens now) ?ps)"
    by (simp add: usage_hourly_def sum_list_drop_zero sum_by_total)
  have nz: "map fst (filter (\<lambda>(h, t). t \<noteq> 0) (map (\<lambda>k. (k, f k)) ks)) = filter (\<lambda>k. f k \<noteq> 0) ks"
    for f :: "time \<Rightarrow> int" and ks by (induction ks) auto
  have "map fst (usage_hourly now uid p s)
      = filter (\<lambda>k. sum_list (map (api_counted_tokens now) (filter (\<lambda>e. trunc_hour (ev_created_at e) = k) ?ps)) \<noteq> 0)
          (sort (remdups (map (\<lambda>e. trunc_hour (ev_created_at e)) ?ps)))"
    unfolding usage_hourly_def sum_by_def by (rule nz)
  moreover have "sorted_wrt (<) (sort (remdups xs))" for xs :: "time list"
    by (simp add: strict_sorted_iff)
  ultimately show "sorted_wrt (<) (map fst (usage_hourly now uid p s))"
    by (simp add: sorted_wrt_filter)
qed

lemma demo_catalogue_agrees:
  "catalogue_seed_plans (settings.extend demo_settings (catalogue_settings.fields None None None None None None None None)) demo_reserved
     = (Inr (), demo_reserved)"
  "seed_default_billing_plans demo_settings demo_reserved = (Inr (), demo_reserved)"
  by (simp_all add: eval_handlers eval_seeds catalogue_seed_plans_def catalogue_seeds_def catalogue_seed_def
      catalogue_seed_plan_def annual_cents_def demo_reserved_def demo_plan_row_def demo_defs replace_by_def
      reconcile_prices_def fill_currency_def fill_free_allowance_def follow_price_def follow_annual_price_def
      backfill_price_def backfill_annual_price_def drop_annual_price_def stripe_price_id_def is_falsy_def
      no_amount_def settings.defs plan_seed.defs catalogue_settings.defs cong: eval_cong)

lemma planes_recalculate_the_same_witness:
  "api_recalculate_current_period
      (settings.extend demo_settings (catalogue_settings.fields None None None None None None None None))
      demo_now demo_user demo_reserved
    = recalculate_current_period demo_settings demo_now demo_user demo_reserved"
proof -
  have "stale_events demo_now (Some 1) demo_reserved = []"
    by (simp add: stale_events_def demo_reserved_def demo_event_def)
  then have e: "expire_stale_reservations demo_now (Some (usr_id demo_user)) demo_reserved = (Inr 0, demo_reserved)"
    by (simp add: expire_stale_reservations_def bind_def then_do_def demo_user_def)
  have t: "settings.truncate (settings.extend demo_settings (catalogue_settings.fields None None None None None None None None))
      = demo_settings" by (simp add: settings.defs catalogue_settings.defs demo_settings_def)
  show ?thesis
    using planes_recalculate_the_same [OF e, of "settings.extend demo_settings
        (catalogue_settings.fields None None None None None None None None)"]
    unfolding t demo_catalogue_agrees by simp
qed

end
