(* ===== verification/Ip.thy ===== *)
theory Ip
  imports Ledger Strings "HOL-Library.Word"
begin

unbundle bit_operations_syntax

text \<open>
  Client addresses: the part of Python's \<^verbatim>\<open>ipaddress\<close> the code uses (parsing of IPv4 and IPv6
  addresses and networks, masks, membership, IPv4-mapped addresses), the allowlist of an API key
  (\<^verbatim>\<open>inference_api/key_limits.py\<close>), and the trusted-proxy resolution of the client address
  (\<^verbatim>\<open>inference_api/client_ip.py\<close>, mirrored by \<^verbatim>\<open>app/core/rate_limit.py\<close>). Addresses are
  32 and 128 bit words.
\<close>

section \<open>Addresses\<close>

text \<open>An IPv6 address carries its scope id.\<close>

datatype ip_addr = V4 "32 word" | V6 "128 word" "string option"

definition digits_value :: "string \<Rightarrow> nat" where
  "digits_value s = foldl (\<lambda>n c. n * 10 + (code_of c - 48)) 0 s"

definition parse_octet :: "string \<Rightarrow> nat option" where
  "parse_octet s =
     (if s = [] \<or> \<not> list_all is_digit s \<or> length s > 3 \<or> s \<noteq> ''0'' \<and> hd s = CHR ''0'' then None
      else if digits_value s > 255 then None else Some (digits_value s))"

definition parse_ipv4 :: "string \<Rightarrow> nat option" where
  "parse_ipv4 s =
     (case map parse_octet (split_on (CHR ''.'') s) of
        [Some a, Some b, Some c, Some d] \<Rightarrow> Some (((a * 256 + b) * 256 + c) * 256 + d)
      | _ \<Rightarrow> None)"

definition hex_value :: "char \<Rightarrow> nat option" where
  "hex_value c =
     (if is_digit c then Some (code_of c - 48)
      else if 97 \<le> code_of c \<and> code_of c \<le> 102 then Some (code_of c - 87)
      else if 65 \<le> code_of c \<and> code_of c \<le> 70 then Some (code_of c - 55) else None)"

definition parse_hextet :: "string + nat \<Rightarrow> nat option" where
  "parse_hextet t = (case t of Inr n \<Rightarrow> Some n
     | Inl s \<Rightarrow> if s = [] \<or> length s > 4 \<or> list_ex (\<lambda>c. hex_value c = None) s then None
               else Some (foldl (\<lambda>n c. n * 16 + the (hex_value c)) 0 s))"

definition hextets_value :: "(string + nat) list \<Rightarrow> nat option" where
  "hextets_value ts =
     (if list_ex (\<lambda>t. parse_hextet t = None) ts then None
      else Some (foldl (\<lambda>n t. n * 65536 + the (parse_hextet t)) 0 ts))"

definition ipv6_parts :: "string \<Rightarrow> (string + nat) list option" where
  "ipv6_parts s =
     (let parts = split_on (CHR '':'') s
      in if length parts < 3 then None
         else if CHR ''.'' \<in> set (last parts) then
           (case parse_ipv4 (last parts) of None \<Rightarrow> None
            | Some v \<Rightarrow> Some (map Inl (butlast parts) @ [Inr (v div 65536), Inr (v mod 65536)]))
         else Some (map Inl parts))"

definition parse_ipv6 :: "string \<Rightarrow> nat option" where
  "parse_ipv6 s =
     (case ipv6_parts s of None \<Rightarrow> None
      | Some parts \<Rightarrow>
          if length parts > 9 then None
          else (case filter (\<lambda>i. parts ! i = Inl []) [1..<length parts - 1] of
              [] \<Rightarrow> if length parts \<noteq> 8 then None else hextets_value parts
            | [skip] \<Rightarrow>
                (let lead = (hd parts = Inl []); trail = (last parts = Inl []);
                     hi = (if lead then skip - 1 else skip);
                     lo = (if trail then length parts - skip - 2 else length parts - skip - 1)
                 in if lead \<and> hi \<noteq> 0 \<or> trail \<and> lo \<noteq> 0 \<or> hi + lo > 7 then None
                    else (case (hextets_value (take hi parts), hextets_value (drop (length parts - lo) parts)) of
                        (Some h, Some l) \<Rightarrow> Some (h * 65536 ^ (8 - hi) + l)
                      | _ \<Rightarrow> None))
            | _ \<Rightarrow> None))"

text \<open>\<open>ipaddress.ip_address\<close>: IPv4 first, then IPv6 with an optional scope id.\<close>

definition ip_address :: "string \<Rightarrow> ip_addr option" where
  "ip_address s =
     (if CHR ''/'' \<in> set s then None
      else case parse_ipv4 s of Some n \<Rightarrow> Some (V4 (word_of_nat n))
      | None \<Rightarrow>
          (case split_on (CHR ''%'') s of
             [a] \<Rightarrow> map_option (\<lambda>n. V6 (word_of_nat n) None) (parse_ipv6 a)
           | [a, scope] \<Rightarrow> if scope = [] then None
               else map_option (\<lambda>n. V6 (word_of_nat n) (Some scope)) (parse_ipv6 a)
           | _ \<Rightarrow> None))"

section \<open>Networks\<close>

definition netmask :: "nat \<Rightarrow> 'a :: len word" where
  "netmask p = push_bit (LENGTH('a) - p) (- 1)"

datatype ip_network = Net4 "32 word" nat | Net6 "128 word" nat

definition parse_prefix :: "nat \<Rightarrow> string \<Rightarrow> nat option" where
  "parse_prefix bits s =
     (if s = [] \<or> \<not> list_all is_digit s \<or> digits_value s > bits then None else Some (digits_value s))"

text \<open>A dotted mask is a netmask or, failing that, a host mask.\<close>

definition parse_netmask4 :: "string \<Rightarrow> nat option" where
  "parse_netmask4 s =
     (case parse_prefix 32 s of Some p \<Rightarrow> Some p
      | None \<Rightarrow> (case parse_ipv4 s of None \<Rightarrow> None
          | Some n \<Rightarrow>
              (case find (\<lambda>p. netmask p = (word_of_nat n :: 32 word)) [0..<33] of Some p \<Rightarrow> Some p
               | None \<Rightarrow> find (\<lambda>p. netmask p = NOT (word_of_nat n :: 32 word)) [0..<33])))"

definition ip_network :: "string \<Rightarrow> ip_network option" where
  "ip_network s =
     (case split_on (CHR ''/'') s of
        [a, m] \<Rightarrow>
          (case (parse_ipv4 a, parse_netmask4 m) of
             (Some n, Some p) \<Rightarrow> Some (Net4 (word_of_nat n AND netmask p) p)
           | _ \<Rightarrow> (case (ip_address a, parse_prefix 128 m) of
               (Some (V6 n _), Some p) \<Rightarrow> Some (Net6 (n AND netmask p) p)
             | _ \<Rightarrow> None))
      | _ \<Rightarrow> None)"

definition in_network :: "ip_addr \<Rightarrow> ip_network \<Rightarrow> bool" where
  "in_network a n = (case (a, n) of
      (V4 x, Net4 net p) \<Rightarrow> x AND netmask p = net
    | (V6 x _, Net6 net p) \<Rightarrow> x AND netmask p = net
    | _ \<Rightarrow> False)"

definition unmap_ipv4 :: "ip_addr \<Rightarrow> ip_addr" where
  "unmap_ipv4 a = (case a of V4 x \<Rightarrow> V4 x
     | V6 x sc \<Rightarrow> if drop_bit 32 x = 65535 then V4 (ucast x) else V6 x sc)"

section \<open>The allowlist of a key\<close>

definition entry_matches :: "ip_addr \<Rightarrow> string \<Rightarrow> bool" where
  "entry_matches addr entry =
     (if CHR ''/'' \<in> set entry
      then (case ip_network entry of None \<Rightarrow> False | Some n \<Rightarrow> in_network addr n)
      else (case ip_address entry of None \<Rightarrow> False | Some a \<Rightarrow> addr = a))"

definition ip_in_allowlist :: "string option \<Rightarrow> string list \<Rightarrow> bool" where
  "ip_in_allowlist client_ip allowed =
     (case client_ip of None \<Rightarrow> False
      | Some ip \<Rightarrow> if ip = [] then False
          else (case ip_address ip of None \<Rightarrow> False
                | Some addr \<Rightarrow> list_ex (entry_matches (unmap_ipv4 addr)) allowed))"

definition check_ip_allowed :: "api_key_row \<Rightarrow> string option \<Rightarrow> error + unit" where
  "check_ip_allowed db_key client_ip =
     (case key_allowed_ips db_key of
        None \<Rightarrow> Inr ()
      | Some allowed \<Rightarrow>
          if allowed = [] then Inr ()
          else if \<not> ip_in_allowlist client_ip allowed then Inl (HttpError 403 ''ip_not_allowed'')
          else Inr ())"

section \<open>Trusted proxies\<close>

definition is_trusted_host :: "string option \<Rightarrow> string list \<Rightarrow> bool" where
  "is_trusted_host host trusted =
     (case host of None \<Rightarrow> False
      | Some h \<Rightarrow> if h = [] \<or> trusted = [] then False
          else (case ip_address h of None \<Rightarrow> h \<in> set trusted
                | Some addr \<Rightarrow> list_ex (entry_matches addr) trusted))"

definition forwarded_chain :: "string \<Rightarrow> string list" where
  "forwarded_chain header = filter (\<lambda>h. h \<noteq> []) (map strip (split_on (CHR '','') header))"

text \<open>The last hop that is not trusted, else the first one.\<close>

definition chain_client :: "string list \<Rightarrow> string list \<Rightarrow> string option" where
  "chain_client trusted chain =
     (case find (\<lambda>h. \<not> is_trusted_host (Some h) trusted) (rev chain) of
        Some h \<Rightarrow> Some h
      | None \<Rightarrow> (case chain of [] \<Rightarrow> None | h # _ \<Rightarrow> Some h))"

record client_request =
  cr_peer_host :: "string option"
  cr_cf_connecting_ip :: "string option"
  cr_x_forwarded_for :: "string option"

text \<open>\<open>show\<close> stands for \<open>str\<close> of an address, the canonical text Python prints.\<close>

definition resolve_client_ip ::
    "(ip_addr \<Rightarrow> string) \<Rightarrow> string list \<Rightarrow> bool \<Rightarrow> client_request \<Rightarrow> string option" where
  "resolve_client_ip show_ip trusted trust_cf request =
     (let peer = cr_peer_host request;
          cf = strip (case cr_cf_connecting_ip request of None \<Rightarrow> [] | Some h \<Rightarrow> h);
          cf_addr = (if trust_cf \<and> is_trusted_host peer trusted \<and> cf \<noteq> [] then ip_address cf else None);
          forwarded = (case cr_x_forwarded_for request of None \<Rightarrow> [] | Some h \<Rightarrow> h)
      in if trusted = [] then peer
         else case cf_addr of Some a \<Rightarrow> Some (show_ip a)
         | None \<Rightarrow>
             if forwarded \<noteq> [] \<and> is_trusted_host peer trusted then
               (case chain_client trusted (forwarded_chain forwarded) of Some h \<Rightarrow> Some h | None \<Rightarrow> peer)
             else peer)"

definition api_is_trusted_host :: "string option \<Rightarrow> string list \<Rightarrow> bool" where
  "api_is_trusted_host host trusted =
     (case host of None \<Rightarrow> False
      | Some h \<Rightarrow> if h = [] \<or> trusted = [] then False
          else (case ip_address h of None \<Rightarrow> h \<in> set trusted
                | Some addr \<Rightarrow> list_ex (entry_matches addr) trusted))"

definition api_resolve_client_ip :: "string list \<Rightarrow> string option \<Rightarrow> string option \<Rightarrow> string option" where
  "api_resolve_client_ip trusted peer_host forwarded_for =
     (let forwarded = (case forwarded_for of None \<Rightarrow> [] | Some h \<Rightarrow> h);
          chain = forwarded_chain forwarded
      in if forwarded \<noteq> [] \<and> api_is_trusted_host peer_host trusted then
           (case find (\<lambda>h. \<not> api_is_trusted_host (Some h) trusted) (rev chain) of Some h \<Rightarrow> Some h
            | None \<Rightarrow> (case chain of [] \<Rightarrow> peer_host | h # _ \<Rightarrow> Some h))
         else peer_host)"

text \<open>\<open>ClientIPMiddleware\<close>: the header values are joined, the header is removed, and the client is
  replaced by the resolved address.\<close>

fun join_forwarded :: "(string \<times> string) list \<Rightarrow> string option \<Rightarrow> string option" where
  "join_forwarded [] acc = acc"
| "join_forwarded ((name, value) # hs) acc =
     (if name = ''x-forwarded-for''
      then join_forwarded hs (Some (case acc of None \<Rightarrow> value | Some a \<Rightarrow> a @ '', '' @ value))
      else join_forwarded hs acc)"

definition client_ip_middleware ::
    "string list \<Rightarrow> (string \<times> int) option \<Rightarrow> (string \<times> string) list \<Rightarrow>
     (string \<times> int) option \<times> (string \<times> string) list" where
  "client_ip_middleware trusted client headers =
     (let peer_host = map_option fst client; peer_port = (case client of None \<Rightarrow> 0 | Some c \<Rightarrow> snd c);
          resolved = api_resolve_client_ip trusted peer_host (join_forwarded headers None)
      in (case resolved of None \<Rightarrow> client | Some h \<Rightarrow> if h = [] then client else Some (h, peer_port),
          filter (\<lambda>(name, _). name \<noteq> ''x-forwarded-for'') headers))"

section \<open>Membership is agreement on the prefix\<close>

lemma and_netmask: "x AND netmask p = push_bit (LENGTH('a) - p) (drop_bit (LENGTH('a) - p) (x :: 'a :: len word))"
  by (rule bit_word_eqI) (auto simp: netmask_def bit_simps)

lemma and_netmask_eq:
  "x AND netmask p = y AND netmask p \<longleftrightarrow>
     drop_bit (LENGTH('a) - p) x = drop_bit (LENGTH('a) - p) (y :: 'a :: len word)"
proof
  assume "x AND netmask p = y AND netmask p"
  then have e: "bit (x AND netmask p) n = bit (y AND netmask p) n" for n by simp
  show "drop_bit (LENGTH('a) - p) x = drop_bit (LENGTH('a) - p) y"
  proof (rule bit_word_eqI)
    fix n assume "n < LENGTH('a)"
    then show "bit (drop_bit (LENGTH('a) - p) x) n = bit (drop_bit (LENGTH('a) - p) y) n"
      using e [of "LENGTH('a) - p + n"] by (cases "LENGTH('a) - p + n < LENGTH('a)")
        (auto simp: netmask_def bit_simps bit_imp_le_length dest: bit_imp_le_length)
  qed
qed (simp add: and_netmask)

lemma netmask_idem: "(n AND netmask p) AND netmask p = n AND (netmask p :: 'a :: len word)"
  by (simp add: and.assoc)

lemma split_on_single: "sep \<notin> set s \<Longrightarrow> split_on sep s = [s]"
  by (induction s) auto

lemma ip_network_slash: "ip_network entry = Some n \<Longrightarrow> CHR ''/'' \<in> set entry"
  using split_on_single [of "CHR ''/''" entry] by (fastforce simp: ip_network_def)

lemma ip_network_masked:
  assumes "ip_network entry = Some (Net4 net p)" shows "net AND netmask p = net"
  using assms by (auto simp: ip_network_def netmask_idem split: list.splits option.splits ip_addr.splits)

text \<open>An allowlist is fail closed and a CIDR entry means its prefix: an unknown or unparsable
  client is refused by every allowlist, and an IPv4 client matches an IPv4 network exactly when the
  leading bits of the prefix length agree; a client written as an IPv4-mapped IPv6 address is treated
  as the IPv4 address it maps.\<close>

theorem allowlist_is_prefix_match:
  assumes "ip_network entry = Some (Net4 net p)"
  shows "\<not> ip_in_allowlist None allowed \<and>
    (ip_address ip = None \<longrightarrow> \<not> ip_in_allowlist (Some ip) allowed) \<and>
    (\<forall>a x. ip_address ip = Some a \<longrightarrow> unmap_ipv4 a = V4 x \<longrightarrow> ip \<noteq> [] \<longrightarrow>
       ip_in_allowlist (Some ip) [entry] = (drop_bit (32 - p) x = drop_bit (32 - p) net)) \<and>
    (\<forall>y. unmap_ipv4 (V6 (or (push_bit 32 65535) (ucast y)) None) = V4 y)"
proof (intro conjI allI impI)
  fix a x assume "ip_address ip = Some a" "unmap_ipv4 a = V4 x" "ip \<noteq> []"
  then have "ip_in_allowlist (Some ip) [entry] \<longleftrightarrow> x AND netmask p = net"
    using assms ip_network_slash [OF assms] by (simp add: ip_in_allowlist_def entry_matches_def in_network_def)
  also have "\<dots> \<longleftrightarrow> x AND netmask p = net AND netmask p" using ip_network_masked [OF assms] by simp
  also have "\<dots> \<longleftrightarrow> drop_bit (32 - p) x = drop_bit (32 - p) net"
    using and_netmask_eq [of x p net] by simp
  finally show "ip_in_allowlist (Some ip) [entry] = (drop_bit (32 - p) x = drop_bit (32 - p) net)" .
next
  fix y :: "32 word"
  have "drop_bit 32 (or (push_bit 32 65535) (ucast y) :: 128 word) = 65535"
    by (rule bit_word_eqI) (auto simp: bit_simps bit_numeral_word_iff dest: bit_imp_le_length)
  moreover have "ucast (or (push_bit 32 c) (ucast y) :: 128 word) = y" for c
    by (rule bit_word_eqI) (auto simp: bit_simps)
  ultimately show "unmap_ipv4 (V6 (or (push_bit 32 65535) (ucast y)) None) = V4 y"
    unfolding unmap_ipv4_def ip_addr.case by (simp only: if_True refl)
qed (simp_all add: ip_in_allowlist_def)

lemmas eval_ip = ip_network_def ip_address_def parse_ipv4_def parse_octet_def parse_netmask4_def
  parse_prefix_def digits_value_def is_digit_def code_of_def netmask_def mask_numeral

lemma allowlist_is_prefix_match_witness:
  "ip_in_allowlist (Some ''10.7.0.9'') [''10.0.0.0/8''] = (drop_bit 24 (168230921 :: 32 word) = drop_bit 24 167772160)"
proof -
  have n: "ip_network ''10.0.0.0/8'' = Some (Net4 167772160 8)" by (simp add: eval_ip)
  have a: "ip_address ''10.7.0.9'' = Some (V4 168230921)" by (simp add: eval_ip)
  show ?thesis
    using allowlist_is_prefix_match [OF n, where ip = "''10.7.0.9''"] a by (simp add: unmap_ipv4_def)
qed

lemma chain_client_suffix:
  assumes "\<not> is_trusted_host (Some h) trusted" "\<forall>t \<in> set later. is_trusted_host (Some t) trusted"
  shows "chain_client trusted (forged @ h # later) = Some h"
proof -
  have "find (\<lambda>h. \<not> is_trusted_host (Some h) trusted) (rev later) = None"
    using assms(2) by (auto simp: find_None_iff)
  then have "find (\<lambda>h. \<not> is_trusted_host (Some h) trusted) (rev later @ h # rev forged) = Some h"
    using assms(1) by (simp add: find_append)
  then show ?thesis by (simp add: chain_client_def)
qed

text \<open>C40: When the client address can be spoofed through the forwarding headers. (1) From a peer that is not a
  trusted proxy every header is ignored. (2) From a trusted one, while no Cloudflare header is consulted (the
  setting is off, or the header is missing or no address), the answer is the last hop that is not trusted, so what
  a client prepends to the forwarded header changes nothing, as long as the proxies append a hop that is not
  trusted. (3) With the setting on the Cloudflare header decides, whatever the chain of hops is: a client that
  reaches a trusted proxy other than through Cloudflare chooses its address.\<close>

theorem client_ip_not_spoofable:
  assumes "\<not> is_trusted_host (Some h) trusted" "\<forall>t \<in> set later. is_trusted_host (Some t) trusted"
  shows "(\<not> is_trusted_host (cr_peer_host request) trusted \<longrightarrow>
            resolve_client_ip show_ip trusted trust_cf request = cr_peer_host request) \<and>
         (is_trusted_host (cr_peer_host request) trusted \<longrightarrow>
            (trust_cf \<longrightarrow> Option.bind (cr_cf_connecting_ip request) (\<lambda>v. ip_address (strip v)) = None) \<longrightarrow>
            cr_x_forwarded_for request = Some header \<longrightarrow> forwarded_chain header = forged @ h # later \<longrightarrow>
            resolve_client_ip show_ip trusted trust_cf request = Some h) \<and>
         (is_trusted_host (cr_peer_host request) trusted \<longrightarrow> trust_cf \<longrightarrow>
            Option.bind (cr_cf_connecting_ip request) (\<lambda>v. ip_address (strip v)) = Some a \<longrightarrow>
            resolve_client_ip show_ip trusted trust_cf request = Some (show_ip a))"
proof (intro conjI impI)
  have none: "trusted \<noteq> []" if "is_trusted_host p trusted" for p
    using that by (auto simp: is_trusted_host_def split: option.splits)
  have blank: "ip_address [] = None" by (simp add: ip_address_def parse_ipv4_def parse_octet_def parse_ipv6_def ipv6_parts_def)
  show "resolve_client_ip show_ip trusted trust_cf request = cr_peer_host request"
    if "\<not> is_trusted_host (cr_peer_host request) trusted"
    using that by (simp add: resolve_client_ip_def Let_def)
  show "resolve_client_ip show_ip trusted trust_cf request = Some h"
    if "is_trusted_host (cr_peer_host request) trusted"
      "trust_cf \<longrightarrow> Option.bind (cr_cf_connecting_ip request) (\<lambda>v. ip_address (strip v)) = None"
      "cr_x_forwarded_for request = Some header" "forwarded_chain header = forged @ h # later"
  proof -
    have "header \<noteq> []" using that(4) by (auto simp: forwarded_chain_def strip_def lstrip_def rstrip_def)
    then show ?thesis
      using that none [OF that(1)] chain_client_suffix [OF assms, of forged] blank
      by (cases "cr_cf_connecting_ip request") (auto simp: resolve_client_ip_def Let_def strip_def lstrip_def rstrip_def)
  qed
  show "resolve_client_ip show_ip trusted trust_cf request = Some (show_ip a)"
    if "is_trusted_host (cr_peer_host request) trusted" trust_cf
      "Option.bind (cr_cf_connecting_ip request) (\<lambda>v. ip_address (strip v)) = Some a"
    using that none [OF that(1)] blank
    by (cases "cr_cf_connecting_ip request") (auto simp: resolve_client_ip_def Let_def)
qed

lemma client_ip_not_spoofable_witness:
  "resolve_client_ip (\<lambda>_. []) [''10.0.0.1''] False
     \<lparr>cr_peer_host = Some ''10.0.0.1'', cr_cf_connecting_ip = None, cr_x_forwarded_for = Some ''1.1.1.1, 9.9.9.9''\<rparr>
   = Some ''9.9.9.9''"
proof -
  have u: "\<not> is_trusted_host (Some ''9.9.9.9'') [''10.0.0.1'']"
    by (simp add: is_trusted_host_def entry_matches_def eval_ip)
  have t: "is_trusted_host (Some ''10.0.0.1'') [''10.0.0.1'']"
    by (simp add: is_trusted_host_def entry_matches_def eval_ip)
  have c: "forwarded_chain ''1.1.1.1, 9.9.9.9'' = [''1.1.1.1''] @ ''9.9.9.9'' # []"
    by (simp add: forwarded_chain_def strip_def lstrip_def rstrip_def is_space_def code_of_def)
  show ?thesis
    using client_ip_not_spoofable [OF u, of "[]" "\<lparr>cr_peer_host = Some ''10.0.0.1'', cr_cf_connecting_ip = None,
        cr_x_forwarded_for = Some ''1.1.1.1, 9.9.9.9''\<rparr>" "\<lambda>_. []" False "''1.1.1.1, 9.9.9.9''" "[''1.1.1.1'']"] t c
    by simp
qed

text \<open>The two planes resolve the client alike when the Cloudflare header is not consulted.\<close>

theorem planes_resolve_alike:
  "resolve_client_ip show_ip trusted False request
     = api_resolve_client_ip trusted (cr_peer_host request) (cr_x_forwarded_for request)"
proof -
  have e: "api_is_trusted_host = is_trusted_host"
    unfolding fun_eq_iff api_is_trusted_host_def is_trusted_host_def by (intro allI refl)
  have n: "\<not> is_trusted_host h []" for h by (auto simp: is_trusted_host_def split: option.splits)
  show ?thesis
    by (auto simp: resolve_client_ip_def api_resolve_client_ip_def Let_def e n chain_client_def
        split: option.splits list.splits)
qed

text \<open>An allowlist entry written as an IPv4-mapped IPv6 address locks its owner out: the client
  is unmapped before the comparison and the entry is not, so no client ever matches it.\<close>

theorem mapped_entry_never_matches:
  assumes "CHR ''/'' \<notin> set entry" "ip_address entry = Some (V6 n sc)" "drop_bit 32 n = 65535"
  shows "\<not> ip_in_allowlist client [entry]"
proof -
  have "unmap_ipv4 a \<noteq> V6 n sc" for a
    using assms(3) by (cases a) (auto simp: unmap_ipv4_def)
  then show ?thesis
    by (auto simp: ip_in_allowlist_def entry_matches_def assms(1,2) split: option.splits)
qed

lemma mapped_entry_never_matches_witness: "\<not> ip_in_allowlist (Some ''1.2.3.4'') [''::ffff:1.2.3.4'']"
proof -
  have "ip_address ''::ffff:1.2.3.4'' = Some (V6 281470698652420 None)"
    by (simp add: eval_ip parse_ipv6_def ipv6_parts_def hextets_value_def parse_hextet_def hex_value_def
        upt_conv_Cons)
  then show ?thesis by (rule mapped_entry_never_matches [rotated]) simp_all
qed

end
