(* ===== verification/Clients.thy ===== *)
theory Clients
  imports Ip Settle
begin

text \<open>
  Service clients, the routers and miners that call the platform with a token: the control plane
  that issues, lists and revokes them (\<^verbatim>\<open>app/service_clients/service.py\<close>) and the serving plane
  that authenticates them (\<^verbatim>\<open>inference_api/service_clients.py\<close>), with the rate limit shared by
  tokens and API keys. The keyed hash (\<open>hmac\<close> with the pepper) is a parameter, and so are the random
  characters of a token and the answers of Redis.
\<close>

section \<open>Settings and the rate limit\<close>

record key_settings = settings +
  rate_limit_enabled :: bool
  rate_limit_fail_open :: bool
  api_key_default_rate_limit_per_minute :: int
  router_default_rate_limit_per_minute :: int
  router_max_input_tokens :: int
  router_max_output_tokens :: int

text \<open>The counters in Redis: \<open>INCR\<close> and \<open>EXPIRE\<close> of the counter of an owner and a minute, each of
  which may fail with an exception.\<close>

record rate_store =
  rs_incr :: "nat \<Rightarrow> int \<Rightarrow> string + int"
  rs_expire :: "nat \<Rightarrow> int \<Rightarrow> string + unit"

definition rate_limit_exceeded :: error where
  "rate_limit_exceeded = HttpError 429 ''rate_limit_exceeded''"

text \<open>\<open>int(utcnow().timestamp() // 60)\<close>: instants count microseconds from the first day of year 1,
  time stamps count seconds from 1970.\<close>

definition rate_bucket :: "time \<Rightarrow> int" where
  "rate_bucket now = (now - 62135596800000000) div 60000000"

definition count_request :: "bool \<Rightarrow> time \<Rightarrow> nat \<Rightarrow> int \<Rightarrow> rate_store \<Rightarrow> error + unit" where
  "count_request fail_open now owner limit store =
     (let bucket = rate_bucket now;
          unavailable = (if fail_open then Inr () else Inl (service_unavailable ''rate_limit_unavailable''))
      in case rs_incr store owner bucket of Inl _ \<Rightarrow> unavailable
         | Inr count \<Rightarrow>
             (case if count = 1 then rs_expire store owner bucket else Inr () of
                Inl _ \<Rightarrow> unavailable
              | Inr _ \<Rightarrow> if count > limit then Inl rate_limit_exceeded else Inr ()))"

section \<open>Rows and tokens\<close>

datatype client_role = RouterRole | MinerRole

record service_client =
  sc_id :: nat
  sc_name :: string
  sc_role :: client_role
  sc_prefix :: string
  sc_last_four :: string
  sc_hashed_token :: string
  sc_rate_limit_per_minute :: int
  sc_created_at :: time
  sc_expires_at :: "time option"
  sc_last_used_at :: "time option"
  sc_revoked_at :: "time option"

record clients_db =
  service_clients :: "service_client list"
  next_client :: nat

definition put_client :: "service_client \<Rightarrow> clients_db \<Rightarrow> clients_db" where
  "put_client c = service_clients_update (replace_by sc_id c)"

definition last_chars :: "nat \<Rightarrow> string \<Rightarrow> string" where
  "last_chars n s = drop (length s - n) s"

definition generate_router_token :: "string \<Rightarrow> string \<times> string \<times> string" where
  "generate_router_token random_part =
     (let full_token = ''rk_live_'' @ random_part
      in (full_token, take 16 full_token, last_chars 4 full_token))"

definition past :: "time \<Rightarrow> time option \<Rightarrow> bool" where
  "past now t = (case t of None \<Rightarrow> False | Some t \<Rightarrow> t \<le> now)"

section \<open>The control plane\<close>

record client_create =
  cc_name :: string
  cc_role :: client_role
  cc_expires_at :: "time option"
  cc_rate_limit_per_minute :: "int option"

text \<open>\<open>x or default\<close> on an optional number: zero is falsy.\<close>

definition or_default :: "int option \<Rightarrow> int \<Rightarrow> int" where
  "or_default x d = (case x of None \<Rightarrow> d | Some n \<Rightarrow> if n = 0 then d else n)"

definition validation_error :: error where
  "validation_error = HttpError 422 ''validation_error''"

definition client_create_valid :: "time \<Rightarrow> client_create \<Rightarrow> bool" where
  "client_create_valid now p \<longleftrightarrow>
     1 \<le> length (cc_name p) \<and> length (cc_name p) \<le> 120 \<and> \<not> past now (cc_expires_at p) \<and>
     (case cc_rate_limit_per_minute p of None \<Rightarrow> True | Some n \<Rightarrow> 1 \<le> n \<and> n \<le> 60000)"

definition create_client ::
    "key_settings \<Rightarrow> (string \<Rightarrow> string) \<Rightarrow> time \<Rightarrow> string \<Rightarrow> client_create \<Rightarrow>
     (clients_db, string \<times> service_client) handler" where
  "create_client cfg keyed_hash now random_part payload =
     (let (token, prefix, last_four) = generate_router_token random_part
      in bind (gets id) (\<lambda>s.
           let client = \<lparr>sc_id = next_client s, sc_name = cc_name payload, sc_role = cc_role payload,
                 sc_prefix = prefix, sc_last_four = last_four, sc_hashed_token = keyed_hash token,
                 sc_rate_limit_per_minute = or_default (cc_rate_limit_per_minute payload)
                     (router_default_rate_limit_per_minute cfg),
                 sc_created_at = now, sc_expires_at = cc_expires_at payload,
                 sc_last_used_at = None, sc_revoked_at = None\<rparr>
           in then_do (guard_or (keyed_hash token \<notin> sc_hashed_token ` set (service_clients s))
                 (PyExc ''IntegrityError''))
             (then_do (modify (\<lambda>s. s\<lparr>service_clients := service_clients s @ [client],
                                    next_client := Suc (next_client s)\<rparr>))
                (ret (token, client)))))"

datatype client_filter = AnyClient | ActiveClient | RevokedClient | ExpiredClient

definition client_listed :: "time \<Rightarrow> client_role option \<Rightarrow> client_filter \<Rightarrow> service_client \<Rightarrow> bool" where
  "client_listed now role st c \<longleftrightarrow>
     (case role of None \<Rightarrow> True | Some r \<Rightarrow> sc_role c = r) \<and>
     (case st of AnyClient \<Rightarrow> True
      | ActiveClient \<Rightarrow> sc_revoked_at c = None \<and>
          (case sc_expires_at c of None \<Rightarrow> True | Some t \<Rightarrow> t > now)
      | RevokedClient \<Rightarrow> sc_revoked_at c \<noteq> None
      | ExpiredClient \<Rightarrow> sc_revoked_at c = None \<and>
          (case sc_expires_at c of None \<Rightarrow> False | Some t \<Rightarrow> t \<le> now))"

text \<open>\<open>ORDER BY created_at DESC\<close> with \<open>LIMIT\<close> and \<open>OFFSET\<close>; clients of one instant are listed in
  the order of the table.\<close>

definition list_clients ::
    "time \<Rightarrow> nat \<Rightarrow> nat \<Rightarrow> client_role option \<Rightarrow> client_filter \<Rightarrow> clients_db \<Rightarrow> service_client list \<times> nat" where
  "list_clients now limit offset role st s =
     (let found = filter (client_listed now role st) (service_clients s)
      in (take limit (drop offset (sort_key (\<lambda>c. - sc_created_at c) found)), length found))"

definition revoke_client :: "time \<Rightarrow> nat \<Rightarrow> (clients_db, service_client) handler" where
  "revoke_client now client_id =
     bind (gets (\<lambda>s. find (\<lambda>c. sc_id c = client_id) (service_clients s))) (\<lambda>found.
       case found of None \<Rightarrow> raise not_found
       | Some client \<Rightarrow>
           if sc_revoked_at client = None then
             (let client = client\<lparr>sc_revoked_at := Some now\<rparr>
              in then_do (modify (put_client client)) (ret client))
           else ret client)"

definition api_enforce_client_rate :: "key_settings \<Rightarrow> time \<Rightarrow> service_client \<Rightarrow> rate_store option \<Rightarrow> error + unit" where
  "api_enforce_client_rate cfg now client redis_client =
     (case redis_client of None \<Rightarrow> Inr ()
      | Some store \<Rightarrow>
          if sc_rate_limit_per_minute client \<le> 0 then Inr ()
          else count_request (rate_limit_fail_open cfg) now (sc_id client) (sc_rate_limit_per_minute client) store)"

definition api_authenticate_token ::
    "key_settings \<Rightarrow> (string \<Rightarrow> string) \<Rightarrow> time \<Rightarrow> string \<Rightarrow> rate_store option \<Rightarrow> client_role \<Rightarrow>
     (clients_db, service_client) handler" where
  "api_authenticate_token cfg keyed_hash now raw_token redis_client required_role =
     (let token_hash = keyed_hash raw_token
      in bind (select_one_or_none (\<lambda>s. filter (\<lambda>c. sc_hashed_token c = token_hash) (service_clients s))) (\<lambda>found.
         case found of None \<Rightarrow> raise unauthorized
         | Some client \<Rightarrow>
             then_do (guard_or (sc_hashed_token client = token_hash) unauthorized)
            (then_do (guard_or (sc_role client = required_role) unauthorized)
            (then_do (guard_or (sc_revoked_at client = None) unauthorized)
            (then_do (guard_or (\<not> past now (sc_expires_at client)) unauthorized)
            (then_do (of_result (api_enforce_client_rate cfg now client redis_client))
               (let client = client\<lparr>sc_last_used_at := Some now\<rparr>
                in then_do (modify (put_client client)) (ret client))))))))"

section \<open>The serving plane\<close>

definition enforce_client_rate :: "key_settings \<Rightarrow> time \<Rightarrow> service_client \<Rightarrow> rate_store option \<Rightarrow> error + unit" where
  "enforce_client_rate cfg now client redis_client =
     (case redis_client of None \<Rightarrow> Inr ()
      | Some store \<Rightarrow>
          if \<not> rate_limit_enabled cfg \<or> sc_rate_limit_per_minute client \<le> 0 then Inr ()
          else count_request (rate_limit_fail_open cfg) now (sc_id client) (sc_rate_limit_per_minute client) store)"

definition authenticate_token ::
    "key_settings \<Rightarrow> (string \<Rightarrow> string) \<Rightarrow> time \<Rightarrow> string \<Rightarrow> rate_store option \<Rightarrow> client_role \<Rightarrow>
     (clients_db, service_client) handler" where
  "authenticate_token cfg keyed_hash now raw_token redis_client required_role =
     (let token_hash = keyed_hash raw_token
      in bind (select_one_or_none (\<lambda>s. filter (\<lambda>c. sc_hashed_token c = token_hash) (service_clients s))) (\<lambda>found.
         case found of None \<Rightarrow> raise unauthorized
         | Some client \<Rightarrow>
             then_do (guard_or (sc_hashed_token client = token_hash) unauthorized)
            (then_do (guard_or (sc_role client = required_role) unauthorized)
            (then_do (guard_or (sc_revoked_at client = None) unauthorized)
            (then_do (guard_or (\<not> past now (sc_expires_at client)) unauthorized)
            (then_do (of_result (enforce_client_rate cfg now client redis_client))
               (let client = client\<lparr>sc_last_used_at := Some now\<rparr>
                in then_do (modify (put_client client)) (ret client))))))))"

definition raw_service_token_from_request :: "(string \<times> string) option \<Rightarrow> error + string" where
  "raw_service_token_from_request credentials =
     (case credentials of None \<Rightarrow> Inl unauthorized
      | Some (scheme, token) \<Rightarrow>
          if lower scheme = ''bearer'' \<and> starts_with ''rk_'' token then Inr token else Inl unauthorized)"

definition current_router_client ::
    "key_settings \<Rightarrow> (string \<Rightarrow> string) \<Rightarrow> time \<Rightarrow> rate_store option \<Rightarrow> (string \<times> string) option \<Rightarrow>
     (clients_db, service_client) handler" where
  "current_router_client cfg keyed_hash now redis_client credentials =
     bind (of_result (raw_service_token_from_request credentials)) (\<lambda>raw_token.
       authenticate_token cfg keyed_hash now raw_token redis_client RouterRole)"

end
