(* ===== verification/Keys.thy ===== *)
theory Keys
  imports Clients
begin

text \<open>
  API keys on the serving plane (\<^verbatim>\<open>inference_api/api_keys.py\<close>): authentication of a raw key, the
  rate limit, scopes, the usage rows. The keyed hash is a parameter (\<open>hmac\<close> of the pepper), and so
  are the answers of Redis.\<close>

section \<open>State\<close>

record usage_row =
  ku_api_key_id :: nat
  ku_user_id :: nat
  ku_endpoint :: string
  ku_method :: string
  ku_status_code :: int
  ku_request_id :: "string option"
  ku_input_tokens :: int
  ku_output_tokens :: int
  ku_created_at :: time

record keys_db =
  kd_ledger :: ledger
  kd_clients :: clients_db
  kd_usage :: "usage_row list"

definition on_ledger :: "(ledger, 'a) handler \<Rightarrow> ('z keys_db_scheme, 'a) handler" where
  "on_ledger h = (\<lambda>s. case h (kd_ledger s) of (r, l) \<Rightarrow> (r, s\<lparr>kd_ledger := l\<rparr>))"

definition on_clients :: "(clients_db, 'a) handler \<Rightarrow> ('z keys_db_scheme, 'a) handler" where
  "on_clients h = (\<lambda>s. case h (kd_clients s) of (r, c) \<Rightarrow> (r, s\<lparr>kd_clients := c\<rparr>))"

definition get_user :: "nat \<Rightarrow> ledger \<Rightarrow> user_row option" where
  "get_user uid s = find (\<lambda>u. usr_id u = uid) (users s)"

definition put_key :: "api_key_row \<Rightarrow> ledger \<Rightarrow> ledger" where
  "put_key k = api_keys_update (replace_by key_id k)"

section \<open>The rate limit\<close>

definition enforce_rate_limit ::
    "key_settings \<Rightarrow> time \<Rightarrow> api_key_row \<Rightarrow> rate_store option \<Rightarrow> error + unit" where
  "enforce_rate_limit cfg now db_key redis_client =
     (case redis_client of None \<Rightarrow> Inr ()
      | Some store \<Rightarrow>
          if \<not> rate_limit_enabled cfg \<or> key_rate_limit_per_minute db_key \<le> 0 then Inr ()
          else count_request (rate_limit_fail_open cfg) now (key_id db_key) (key_rate_limit_per_minute db_key) store)"

section \<open>Authentication\<close>

definition authenticate_key ::
    "key_settings \<Rightarrow> (string \<Rightarrow> string) \<Rightarrow> time \<Rightarrow> string \<Rightarrow> rate_store option \<Rightarrow> bool \<Rightarrow> string option \<Rightarrow>
     (ledger, api_key_row) handler" where
  "authenticate_key cfg keyed_hash now raw_key redis_client apply_rate_limit client_ip =
     (let token_hash = keyed_hash raw_key
      in bind (select_one_or_none (\<lambda>s. filter (\<lambda>k. key_hashed_key k = token_hash) (api_keys s))) (\<lambda>found.
         case found of None \<Rightarrow> raise unauthorized
         | Some db_key \<Rightarrow>
             then_do (guard_or (key_hashed_key db_key = token_hash) unauthorized)
            (then_do (guard_or (key_revoked_at db_key = None) unauthorized)
            (then_do (guard_or (\<not> past now (key_expires_at db_key)) unauthorized)
            (bind (gets (get_user (key_user_id db_key))) (\<lambda>user.
               case user of None \<Rightarrow> raise unauthorized
               | Some user \<Rightarrow>
                   then_do (guard_or (usr_is_active user) forbidden)
                  (then_do (of_result (check_ip_allowed db_key client_ip))
                  (then_do (of_result (if apply_rate_limit then enforce_rate_limit cfg now db_key redis_client
                                       else Inr ()))
                     (let db_key = db_key\<lparr>key_last_used_at := Some now\<rparr>
                      in then_do (modify (put_key db_key)) (ret db_key))))))))))"

definition allowed_api_key_scopes :: "string list" where
  "allowed_api_key_scopes = [''models:read'', ''inference:write'', ''usage:read'']"

definition require_scopes :: "api_key_row \<Rightarrow> string list \<Rightarrow> error + unit" where
  "require_scopes db_key required_scopes =
     (if filter (\<lambda>sc. sc \<notin> set allowed_api_key_scopes) (key_scopes db_key) \<noteq> [] then Inl forbidden
      else if filter (\<lambda>sc. sc \<notin> set (key_scopes db_key)) required_scopes \<noteq> [] then Inl forbidden
      else Inr ())"

section \<open>Usage rows\<close>

record web_request =
  req_path :: string
  req_method :: string
  req_context_id :: "string option"

definition record_usage ::
    "time \<Rightarrow> api_key_row \<Rightarrow> web_request \<Rightarrow> int \<Rightarrow> int \<Rightarrow> int \<Rightarrow> string option \<Rightarrow> ('z keys_db_scheme, unit) handler" where
  "record_usage now db_key request status_code input_tokens output_tokens request_id =
     modify (\<lambda>s. s\<lparr>kd_usage := kd_usage s @
       [\<lparr>ku_api_key_id = key_id db_key, ku_user_id = key_user_id db_key, ku_endpoint = req_path request,
         ku_method = req_method request, ku_status_code = status_code,
         ku_request_id = (if truthy request_id then request_id else req_context_id request),
         ku_input_tokens = input_tokens, ku_output_tokens = output_tokens, ku_created_at = now\<rparr>]\<rparr>)"

definition usage_summary :: "api_key_row \<Rightarrow> 'z keys_db_scheme \<Rightarrow> nat \<times> nat \<times> int \<times> int" where
  "usage_summary db_key s =
     (let mine = filter (\<lambda>u. ku_api_key_id u = key_id db_key) (kd_usage s)
      in (key_id db_key, length mine, sum_list (map ku_input_tokens mine), sum_list (map ku_output_tokens mine)))"

section \<open>The key of a request\<close>

definition raw_api_key_from_request :: "string option \<Rightarrow> (string \<times> string) option \<Rightarrow> error + string" where
  "raw_api_key_from_request header_key credentials =
     (if truthy header_key then Inr (the header_key)
      else case credentials of None \<Rightarrow> Inl unauthorized
      | Some (scheme, token) \<Rightarrow>
          if lower scheme = ''bearer'' \<and> starts_with ''sk_'' token then Inr token else Inl unauthorized)"

text \<open>\<open>current_api_key\<close> and the dependency of \<open>require_api_key\<close>.\<close>

record api_request =
  ar_header_key :: "string option"
  ar_credentials :: "(string \<times> string) option"
  ar_client :: client_request
  ar_web :: web_request

definition current_api_key ::
    "key_settings \<Rightarrow> (string \<Rightarrow> string) \<Rightarrow> time \<Rightarrow> rate_store option \<Rightarrow> (client_request \<Rightarrow> string option) \<Rightarrow>
     api_request \<Rightarrow> (ledger, api_key_row) handler" where
  "current_api_key cfg keyed_hash now redis_client resolve request =
     bind (of_result (raw_api_key_from_request (ar_header_key request) (ar_credentials request))) (\<lambda>raw_key.
       authenticate_key cfg keyed_hash now raw_key redis_client True (resolve (ar_client request)))"

definition require_api_key ::
    "key_settings \<Rightarrow> (string \<Rightarrow> string) \<Rightarrow> time \<Rightarrow> rate_store option \<Rightarrow> (client_request \<Rightarrow> string option) \<Rightarrow>
     string list \<Rightarrow> api_request \<Rightarrow> (ledger, api_key_row) handler" where
  "require_api_key cfg keyed_hash now redis_client resolve required_scopes request =
     bind (current_api_key cfg keyed_hash now redis_client resolve request) (\<lambda>db_key.
       then_do (of_result (require_scopes db_key required_scopes)) (ret db_key))"

section \<open>When a key is accepted\<close>

definition key_admits ::
    "key_settings \<Rightarrow> time \<Rightarrow> rate_store option \<Rightarrow> bool \<Rightarrow> string option \<Rightarrow> ledger \<Rightarrow> api_key_row \<Rightarrow> bool" where
  "key_admits cfg now redis_client apply_rate_limit client_ip s k \<longleftrightarrow>
     key_revoked_at k = None \<and> \<not> past now (key_expires_at k) \<and>
     (case get_user (key_user_id k) s of None \<Rightarrow> False | Some u \<Rightarrow> usr_is_active u) \<and>
     check_ip_allowed k client_ip = Inr () \<and>
     (apply_rate_limit \<longrightarrow> enforce_rate_limit cfg now k redis_client = Inr ())"

lemma authenticate_unique:
  assumes "filter (\<lambda>k. key_hashed_key k = h raw) (api_keys s) = [k]"
  shows "authenticate_key cfg h now raw rc lim ip s = (r, s') \<Longrightarrow>
     (if key_admits cfg now rc lim ip s k
      then r = Inr (k\<lparr>key_last_used_at := Some now\<rparr>) \<and> s' = put_key (k\<lparr>key_last_used_at := Some now\<rparr>) s
      else (\<exists>e. r = Inl e) \<and> s' = s)"
proof -
  have h: "key_hashed_key k = h raw" using assms by (auto simp: filter_eq_Cons_iff)
  show "authenticate_key cfg h now raw rc lim ip s = (r, s') \<Longrightarrow> ?thesis"
    using h by (auto simp: authenticate_key_def handler_defs assms key_admits_def Let_def
        split: option.splits sum.splits if_splits)
qed

lemma authenticate_cases:
  assumes "authenticate_key cfg h now raw rc lim ip s = (r, s')"
  obtains (accepted) k where "filter (\<lambda>k. key_hashed_key k = h raw) (api_keys s) = [k]"
      "key_admits cfg now rc lim ip s k" "r = Inr (k\<lparr>key_last_used_at := Some now\<rparr>)"
      "s' = put_key (k\<lparr>key_last_used_at := Some now\<rparr>) s"
  | (refused) e where "r = Inl e" "s' = s"
proof (cases "filter (\<lambda>k. key_hashed_key k = h raw) (api_keys s)" rule: scalar_one_or_none.cases)
  case (2 k)
  show ?thesis using authenticate_unique [OF 2 assms] that(1) [OF 2] that(2) by (auto split: if_splits)
qed (use assms that(2) in \<open>auto simp: authenticate_key_def handler_defs Let_def\<close>)

end
