(* ===== verification/KeySchemas.thy ===== *)
theory KeySchemas
  imports Keys
begin

text \<open>
  The validators of \<^verbatim>\<open>app/api_keys/schemas.py\<close>: scopes, model and address allowlists, spend caps.
  Address entries are stored in the canonical text of Python 3.12's \<^verbatim>\<open>ipaddress\<close>, printed here for
  both versions. The lemmas show that the cleaned lists have no duplicates and are fixed points, and
  that an IPv4 entry means the same clients after it was made canonical.
\<close>

section \<open>Canonical text of addresses\<close>

definition digit_char :: "nat \<Rightarrow> char" where
  "digit_char d = ''0123456789abcdef'' ! d"

fun show_base :: "nat \<Rightarrow> nat \<Rightarrow> string" where
  "show_base b n =
     (if b < 2 \<or> n < b then [digit_char n]
      else show_base b (n div b) @ [digit_char (n mod b)])"

declare show_base.simps [simp del]

definition show_ipv4 :: "32 word \<Rightarrow> string" where
  "show_ipv4 x =
     (let n = unat x
      in join ''.'' (map (show_base 10) [n div 16777216, n div 65536 mod 256, n div 256 mod 256, n mod 256]))"

text \<open>\<open>_compress_hextets\<close>: the first of the longest runs of zeros becomes a double colon. The state
  of the loop is the best run and the current one, each by start and length.\<close>

fun zero_runs :: "nat \<Rightarrow> nat \<times> nat \<Rightarrow> nat \<times> nat \<Rightarrow> string list \<Rightarrow> nat \<times> nat" where
  "zero_runs i best cur [] = best"
| "zero_runs i best cur (h # hs) =
     (if h = ''0'' then
        (let cur = (if snd cur = 0 then i else fst cur, Suc (snd cur))
         in zero_runs (Suc i) (if snd cur > snd best then cur else best) cur hs)
      else zero_runs (Suc i) best (0, 0) hs)"

definition compress_hextets :: "string list \<Rightarrow> string list" where
  "compress_hextets hs =
     (case zero_runs 0 (0, 0) (0, 0) hs of (start, len) \<Rightarrow>
        if len > 1 then
          (if start = 0 then [''''] else []) @ take start hs @ [''''] @ drop (start + len) hs @
          (if start + len = length hs then [''''] else [])
        else hs)"

definition show_ipv6 :: "128 word \<Rightarrow> string" where
  "show_ipv6 x =
     join '':'' (compress_hextets (map (\<lambda>i. show_base 16 (unat x div 65536 ^ (7 - i) mod 65536)) [0..<8]))"

definition show_ip :: "ip_addr \<Rightarrow> string" where
  "show_ip a = (case a of V4 x \<Rightarrow> show_ipv4 x
     | V6 x sc \<Rightarrow> show_ipv6 x @ (case sc of None \<Rightarrow> [] | Some z \<Rightarrow> ''%'' @ z))"

definition show_network :: "ip_network \<Rightarrow> string" where
  "show_network n = (case n of Net4 x p \<Rightarrow> show_ipv4 x @ ''/'' @ show_base 10 p
     | Net6 x p \<Rightarrow> show_ipv6 x @ ''/'' @ show_base 10 p)"

section \<open>Validators\<close>

definition value_error :: error where
  "value_error = PyExc ''ValueError''"

definition validate_api_key_scopes :: "string list \<Rightarrow> error + string list" where
  "validate_api_key_scopes scopes =
     (if filter (\<lambda>sc. sc \<notin> set allowed_api_key_scopes) scopes \<noteq> [] then Inl value_error
      else if scopes = [] then Inl value_error else Inr scopes)"

definition validate_future_expiration :: "time \<Rightarrow> time option \<Rightarrow> error + time option" where
  "validate_future_expiration now t = (if past now t then Inl value_error else Inr t)"

text \<open>The loop both allowlists share: clean an entry, keep it when it is new. \<open>cleaned\<close> is also the
  set of entries seen.\<close>

fun clean_entries :: "(string \<Rightarrow> string option) \<Rightarrow> string list \<Rightarrow> string list \<Rightarrow> error + string list" where
  "clean_entries f cleaned [] = Inr cleaned"
| "clean_entries f cleaned (raw # rest) =
     (case f raw of None \<Rightarrow> Inl value_error
      | Some entry \<Rightarrow> clean_entries f (if entry \<in> set cleaned then cleaned else cleaned @ [entry]) rest)"

definition some_or_none :: "string list \<Rightarrow> string list option" where
  "some_or_none xs = (if xs = [] then None else Some xs)"

definition clean_model :: "string \<Rightarrow> string option" where
  "clean_model raw = (let m = strip raw in if m = [] then None else Some m)"

definition validate_allowed_models :: "string list option \<Rightarrow> error + string list option" where
  "validate_allowed_models value =
     (case value of None \<Rightarrow> Inr None
      | Some xs \<Rightarrow> if xs = [] then Inr None
          else (case clean_entries clean_model [] xs of Inl e \<Rightarrow> Inl e | Inr c \<Rightarrow> Inr (some_or_none c)))"

definition max_allowed_ips :: nat where "max_allowed_ips = 50"

definition clean_ip :: "string \<Rightarrow> string option" where
  "clean_ip raw =
     (let entry = strip raw
      in if entry = [] then None
         else if CHR ''/'' \<in> set entry then map_option show_network (ip_network entry)
         else map_option show_ip (ip_address entry))"

definition validate_allowed_ips :: "string list option \<Rightarrow> error + string list option" where
  "validate_allowed_ips value =
     (case value of None \<Rightarrow> Inr None
      | Some xs \<Rightarrow> if xs = [] then Inr None
          else if length xs > max_allowed_ips then Inl value_error
          else (case clean_entries clean_ip [] xs of Inl e \<Rightarrow> Inl e | Inr c \<Rightarrow> Inr (some_or_none c)))"

definition validate_spend_limits :: "string option \<Rightarrow> int option \<Rightarrow> int option \<Rightarrow> error + unit" where
  "validate_spend_limits limit_period credit_limit usd_limit_cents =
     (if (credit_limit \<noteq> None \<or> usd_limit_cents \<noteq> None) \<and> limit_period = None
      then Inl value_error else Inr ())"

section \<open>Cleaned lists\<close>

lemma clean_entries_ok:
  "clean_entries f acc xs = Inr c \<Longrightarrow> distinct acc \<Longrightarrow>
     distinct c \<and> set c = set acc \<union> (the \<circ> f) ` set xs \<and> (\<forall>x \<in> set xs. f x \<noteq> None)"
  by (induction f acc xs rule: clean_entries.induct) (auto split: option.splits if_splits)

lemma clean_entries_fixed:
  "distinct (acc @ xs) \<Longrightarrow> \<forall>x \<in> set xs. f x = Some x \<Longrightarrow> clean_entries f acc xs = Inr (acc @ xs)"
  by (induction xs arbitrary: acc) auto

lemma clean_entries_accepts: "\<forall>x \<in> set xs. f x \<noteq> None \<Longrightarrow> \<exists>c. clean_entries f acc xs = Inr c"
  by (induction xs arbitrary: acc) (auto split: option.splits)

lemma clean_model_idem: "clean_model raw = Some m \<Longrightarrow> clean_model m = Some m"
  by (auto simp: clean_model_def Let_def split: if_splits)

section \<open>An IPv4 entry keeps its meaning\<close>

lemma digit_code:
  assumes "d < 10" shows "code_of (digit_char d) = 48 + d"
proof -
  have "d \<in> {0, 1, 2, 3, 4, 5, 6, 7, 8, 9}" using assms by auto
  then show ?thesis by (auto simp: code_of_def digit_char_def)
qed

lemma digit_is_digit: "d < 10 \<Longrightarrow> is_digit (digit_char d)"
  by (simp add: is_digit_def digit_code)

lemma digit_zero: "d < 10 \<Longrightarrow> 0 < d \<Longrightarrow> digit_char d \<noteq> CHR ''0''"
  using digit_code [of d] by (auto simp: code_of_def)

lemma show_base_small:
  "k < 10 \<Longrightarrow> show_base 10 k = [digit_char k]"
  "10 \<le> k \<Longrightarrow> show_base 10 k = show_base 10 (k div 10) @ [digit_char (k mod 10)]"
  by (simp_all add: show_base.simps [of 10 k])

lemma show_octet_parses:
  assumes "k < 256"
  shows "parse_octet (show_base 10 k) = Some k \<and> list_all is_digit (show_base 10 k)"
proof -
  have small: "show_base 10 d = [digit_char d]" if "d < 10" for d
    using that by (rule show_base_small(1))
  consider "k < 10" | "10 \<le> k" "k div 10 < 10" | "10 \<le> k" "10 \<le> k div 10" "k div 10 div 10 < 10"
    using assms by linarith
  then show ?thesis
  proof cases
    case 1
    show ?thesis
      unfolding small [OF 1] parse_octet_def
      using 1 digit_zero [OF 1] by (auto simp: digits_value_def digit_code digit_is_digit)
  next
    case 2
    have m: "k mod 10 < 10" by simp
    show ?thesis
      unfolding show_base_small(2) [OF 2(1)] small [OF 2(2)] parse_octet_def
      using 2 digit_zero [OF 2(2)] m assms
      by (auto simp: digits_value_def digit_code [OF 2(2)] digit_code [OF m] digit_is_digit)
  next
    case 3
    have m: "k mod 10 < 10" "k div 10 mod 10 < 10" by simp_all
    have z: "0 < k div 10 div 10" using 3(2) by simp
    show ?thesis
      unfolding show_base_small(2) [OF 3(1)] show_base_small(2) [OF 3(2)] small [OF 3(3)] parse_octet_def
      using digit_zero [OF 3(3) z] m assms
      by (auto simp: digits_value_def digit_code [OF 3(3)] digit_code [OF m(1)] digit_code [OF m(2)]
          digit_is_digit 3)
  qed
qed

lemma show_octet:
  assumes "k < 256"
  shows "parse_octet (show_base 10 k) = Some k" "CHR ''.'' \<notin> set (show_base 10 k)"
    "CHR ''/'' \<notin> set (show_base 10 k)"
proof -
  have "\<not> is_digit (CHR ''.'')" "\<not> is_digit (CHR ''/'')" by (simp_all add: is_digit_def code_of_def)
  then show "parse_octet (show_base 10 k) = Some k" "CHR ''.'' \<notin> set (show_base 10 k)"
    "CHR ''/'' \<notin> set (show_base 10 k)" using show_octet_parses [OF assms] by (auto simp: list_all_iff)
qed

lemma split_on_append: "sep \<notin> set u \<Longrightarrow> split_on sep (u @ sep # v) = u # split_on sep v"
  by (induction u) auto

lemma octets_value:
  "((n div 16777216 * 256 + n div 65536 mod 256) * 256 + n div 256 mod 256) * 256 + n mod 256 = (n :: nat)"
proof -
  have "n div 256 div 256 = n div 65536" "n div 65536 div 256 = n div 16777216" by (simp_all flip: div_mult2_eq)
  then have "n div 65536 = n div 16777216 * 256 + n div 65536 mod 256"
    "n div 256 = n div 65536 * 256 + n div 256 mod 256"
    using div_mult_mod_eq [of "n div 65536" 256] div_mult_mod_eq [of "n div 256" 256] by simp_all
  then show ?thesis using div_mult_mod_eq [of n 256] by simp
qed

lemma parse_show_ipv4: "parse_ipv4 (show_ipv4 x) = Some (unat x)"
proof -
  have "unat x < 2 ^ 32" using unsigned_less [of x] by simp
  then have d: "unat x div 16777216 < 256" by (simp add: less_mult_imp_div_less)
  show ?thesis
    using octets_value [of "unat x"]
    by (simp add: parse_ipv4_def show_ipv4_def Let_def split_on_append split_on_single show_octet d)
qed

lemma show_ipv4_no_slash: "CHR ''/'' \<notin> set (show_ipv4 x)"
proof -
  have "unat x < 2 ^ 32" using unsigned_less [of x] by simp
  then have d: "unat x div 16777216 < 256" by (simp add: less_mult_imp_div_less)
  show ?thesis by (simp add: show_ipv4_def Let_def show_octet d)
qed

lemma parse_show_prefix:
  assumes "p \<le> 32" shows "parse_prefix 32 (show_base 10 p) = Some p"
proof -
  have "p < 256" using assms by simp
  from show_octet_parses [OF this] show ?thesis
    using assms by (auto simp: parse_prefix_def parse_octet_def split: if_splits)
qed

lemma parse_show_network:
  assumes "p \<le> 32" "x AND netmask p = x"
  shows "ip_network (show_network (Net4 x p)) = Some (Net4 x p)"
proof -
  have "p < 256" using assms(1) by simp
  have "parse_prefix 32 (show_base 10 p) = Some p" using assms(1) by (rule parse_show_prefix)
  then show ?thesis
    by (simp add: ip_network_def show_network_def split_on_append [OF show_ipv4_no_slash]
        split_on_single [OF show_octet(3) [OF \<open>p < 256\<close>]] parse_show_ipv4 parse_netmask4_def assms(2))
qed

lemma ip_network_prefix:
  assumes "ip_network entry = Some (Net4 x p)" shows "p \<le> 32"
proof -
  have "parse_prefix 32 m = Some q \<Longrightarrow> q \<le> 32" for m q
    by (auto simp: parse_prefix_def split: if_splits)
  moreover have "find P [0..<33] = Some q \<Longrightarrow> q \<le> 32" for P q
    by (auto simp: find_Some_iff simp del: upt_Suc)
  ultimately show ?thesis
    using assms by (auto simp: ip_network_def parse_netmask4_def simp del: upt_Suc split: list.splits option.splits ip_addr.splits)
qed

lemma clean_ip_network:
  assumes "strip raw = entry" "ip_network entry = Some (Net4 x p)"
  shows "\<exists>text. clean_ip raw = Some text \<and> ip_network text = Some (Net4 x p) \<and> CHR ''/'' \<in> set text"
proof -
  have "entry \<noteq> []" "CHR ''/'' \<in> set entry" using ip_network_slash [OF assms(2)] by auto
  then have "clean_ip raw = Some (show_network (Net4 x p))"
    using assms by (simp add: clean_ip_def Let_def)
  moreover have "ip_network (show_network (Net4 x p)) = Some (Net4 x p)"
    by (rule parse_show_network [OF ip_network_prefix [OF assms(2)] ip_network_masked [OF assms(2)]])
  ultimately show ?thesis using ip_network_slash by blast
qed

lemma clean_ip_address:
  assumes "strip raw = entry" "ip_address entry = Some (V4 x)"
  shows "\<exists>text. clean_ip raw = Some text \<and> ip_address text = Some (V4 x) \<and> CHR ''/'' \<notin> set text"
proof -
  have "entry \<noteq> []" using assms(2) by (auto simp: ip_address_def parse_ipv4_def parse_octet_def parse_ipv6_def ipv6_parts_def)
  moreover have "CHR ''/'' \<notin> set entry" using assms(2) by (auto simp: ip_address_def)
  ultimately have "clean_ip raw = Some (show_ipv4 x)"
    using assms by (simp add: clean_ip_def Let_def show_ip_def)
  moreover have "ip_address (show_ipv4 x) = Some (V4 x)"
    by (simp add: ip_address_def show_ipv4_no_slash parse_show_ipv4)
  ultimately show ?thesis using show_ipv4_no_slash by blast
qed

definition ipv4_entry :: "string \<Rightarrow> bool" where
  "ipv4_entry raw \<longleftrightarrow> (\<exists>x p. ip_network (strip raw) = Some (Net4 x p)) \<or> (\<exists>x. ip_address (strip raw) = Some (V4 x))"

lemma clean_ip_means:
  assumes "ipv4_entry raw"
  shows "\<exists>text. clean_ip raw = Some text \<and> (\<forall>a. entry_matches a text = entry_matches a (strip raw))"
  using assms unfolding ipv4_entry_def
proof (elim disjE exE)
  fix x p assume n: "ip_network (strip raw) = Some (Net4 x p)"
  obtain t where "clean_ip raw = Some t" "ip_network t = Some (Net4 x p)" "CHR ''/'' \<in> set t"
    using clean_ip_network [OF refl n] by blast
  then show ?thesis using n ip_network_slash [OF n] by (auto simp: entry_matches_def)
next
  fix x assume n: "ip_address (strip raw) = Some (V4 x)"
  obtain t where "clean_ip raw = Some t" "ip_address t = Some (V4 x)" "CHR ''/'' \<notin> set t"
    using clean_ip_address [OF refl n] by blast
  moreover have "CHR ''/'' \<notin> set (strip raw)" using n by (auto simp: ip_address_def)
  ultimately show ?thesis using n by (auto simp: entry_matches_def)
qed

text \<open>Making an allowlist canonical keeps its meaning: a list of IPv4 addresses and networks is
  accepted, and the stored list admits exactly the clients the submitted entries admit.\<close>

theorem canonical_allowlist_same_clients:
  assumes "xs \<noteq> []" "length xs \<le> max_allowed_ips" "\<forall>raw \<in> set xs. ipv4_entry raw"
  shows "\<exists>stored. validate_allowed_ips (Some xs) = Inr (Some stored) \<and> distinct stored \<and>
    (\<forall>client. ip_in_allowlist client stored = ip_in_allowlist client (map strip xs))"
proof -
  have f: "\<forall>x \<in> set xs. clean_ip x \<noteq> None" using clean_ip_means assms(3) by fastforce
  then obtain c where c: "clean_entries clean_ip [] xs = Inr c" using clean_entries_accepts by blast
  then have s: "distinct c" "set c = (the \<circ> clean_ip) ` set xs" using clean_entries_ok [OF c] by auto
  have e: "(\<exists>y \<in> set c. entry_matches a y) = (\<exists>x \<in> set xs. entry_matches a (strip x))" for a
  proof -
    have m: "entry_matches a ((the \<circ> clean_ip) x) = entry_matches a (strip x)" if "x \<in> set xs" for x
      using clean_ip_means [of x] that assms(3) by auto
    then show ?thesis unfolding s(2) by simp
  qed
  have "c \<noteq> []" using s(2) assms(1) by auto
  then have "validate_allowed_ips (Some xs) = Inr (Some c)"
    using assms(1,2) c by (simp add: validate_allowed_ips_def some_or_none_def)
  moreover have "ip_in_allowlist client c = ip_in_allowlist client (map strip xs)" for client
    using e by (auto simp: ip_in_allowlist_def list_ex_iff split: option.splits)
  ultimately show ?thesis using s(1) by blast
qed

lemma canonical_allowlist_same_clients_witness:
  "\<exists>stored. validate_allowed_ips (Some ['' 10.0.0.7/8 '']) = Inr (Some stored) \<and>
     ip_in_allowlist (Some ''10.9.9.9'') stored = ip_in_allowlist (Some ''10.9.9.9'') [''10.0.0.7/8'']"
proof -
  have st: "strip '' 10.0.0.7/8 '' = ''10.0.0.7/8''"
    by (simp add: strip_def lstrip_def rstrip_def is_space_def code_of_def)
  then have "ipv4_entry '' 10.0.0.7/8 ''"
    unfolding ipv4_entry_def by (simp add: eval_ip)
  then show ?thesis
    using canonical_allowlist_same_clients [of "['' 10.0.0.7/8 '']"] st by (auto simp: max_allowed_ips_def)
qed

end
