(* ===== verification/KeyAdmin.thy ===== *)
theory KeyAdmin
  imports KeySchemas
begin

text \<open>
  The control plane of the API keys (\<^verbatim>\<open>app/api_keys/service.py\<close>): creating, listing, editing and
  revoking the keys of a user, and the managed chat key that the edge broker mints and rotates.
  A row here has the columns of the serving plane and the ones only the control plane reads. The
  lemmas give every operation as one change of one row, and from there the invariants of the table.
\<close>

section \<open>State\<close>

datatype key_environment = LiveKey | TestKey

primrec environment_value :: "key_environment \<Rightarrow> string" where
  "environment_value LiveKey = ''live''"
| "environment_value TestKey = ''test''"

datatype limit_period = DailyLimit | MonthlyLimit | NeverLimit

primrec period_value :: "limit_period \<Rightarrow> string" where
  "period_value DailyLimit = ''daily''"
| "period_value MonthlyLimit = ''monthly''"
| "period_value NeverLimit = ''never''"

record managed_key = api_key_row +
  key_name :: string
  key_environment :: key_environment
  key_prefix :: string
  key_last_four :: string
  key_created_at :: time

record key_owner =
  ko_id :: nat
  ko_is_verified :: bool
  ko_phone_verified_at :: "time option"
  ko_wallet_verified_at :: "time option"

record key_table =
  kt_keys :: "managed_key list"
  kt_usage :: "usage_row list"
  kt_next :: nat

definition put_managed :: "managed_key \<Rightarrow> key_table \<Rightarrow> key_table" where
  "put_managed k = kt_keys_update (replace_by key_id k)"

section \<open>Payloads\<close>

record key_create =
  kc_name :: string
  kc_environment :: key_environment
  kc_scopes :: "string list"
  kc_expires_at :: "time option"
  kc_rate_limit_per_minute :: "int option"
  kc_allowed_models :: "string list option"
  kc_allowed_ips :: "string list option"
  kc_limit_period :: "limit_period option"
  kc_credit_limit :: "int option"
  kc_usd_limit_cents :: "int option"

text \<open>A field of a patch is absent (\<open>None\<close>) or set, possibly to null (\<open>Some None\<close>).\<close>

record key_update =
  kp_name :: "string option option"
  kp_scopes :: "string list option option"
  kp_expires_at :: "time option option"
  kp_rate_limit_per_minute :: "int option option"
  kp_allowed_models :: "string list option option"
  kp_allowed_ips :: "string list option option"
  kp_limit_period :: "limit_period option option"
  kp_credit_limit :: "int option option"
  kp_usd_limit_cents :: "int option option"

section \<open>Secrets\<close>

definition generate_api_key :: "string \<Rightarrow> string \<Rightarrow> error + (string \<times> string \<times> string)" where
  "generate_api_key environment random_part =
     (if environment \<notin> {''live'', ''test''} then Inl value_error
      else (let full_key = ''sk_'' @ environment @ ''_'' @ random_part
            in Inr (full_key, take 16 full_key, last_chars 4 full_key)))"

section \<open>Guards\<close>

definition managed_chat_key_name :: string where "managed_chat_key_name = ''openwebui-chat''"

definition managed_chat_key_scopes :: "string list" where
  "managed_chat_key_scopes = [''inference:write'', ''models:read'']"

definition max_active_api_keys :: nat where "max_active_api_keys = 25"

definition ensure_verified :: "key_owner \<Rightarrow> error + unit" where
  "ensure_verified user =
     (if ko_is_verified user \<or> ko_phone_verified_at user \<noteq> None \<or> ko_wallet_verified_at user \<noteq> None
      then Inr () else Inl forbidden)"

definition reject_reserved_name :: "string option \<Rightarrow> error + unit" where
  "reject_reserved_name name =
     (case name of None \<Rightarrow> Inr ()
      | Some n \<Rightarrow> if lower (strip n) = managed_chat_key_name
                then Inl (bad_request ''reserved_key_name'') else Inr ())"

text \<open>The unique index on \<^verbatim>\<open>hashed_key\<close>, checked when a row is flushed.\<close>

definition unique_hash :: "nat \<Rightarrow> string \<Rightarrow> key_table \<Rightarrow> bool" where
  "unique_hash kid h s \<longleftrightarrow> (\<forall>k \<in> set (kt_keys s). key_id k \<noteq> kid \<longrightarrow> key_hashed_key k \<noteq> h)"

definition active_keys :: "nat \<Rightarrow> key_table \<Rightarrow> managed_key list" where
  "active_keys uid s = filter (\<lambda>k. key_user_id k = uid \<and> key_revoked_at k = None) (kt_keys s)"

section \<open>Operations\<close>

definition new_key ::
    "nat \<Rightarrow> nat \<Rightarrow> time \<Rightarrow> string \<Rightarrow> key_environment \<Rightarrow> string \<Rightarrow> string \<Rightarrow> string \<Rightarrow> string list \<Rightarrow>
     string list option \<Rightarrow> string list option \<Rightarrow> string option \<Rightarrow> int option \<Rightarrow> int option \<Rightarrow>
     time option \<Rightarrow> int \<Rightarrow> managed_key" where
  "new_key i uid now name environment prefix last_four h scopes models ips period credit usd expires rate =
     \<lparr>key_id = i, key_user_id = uid, key_hashed_key = h, key_scopes = scopes,
      key_allowed_models = models, key_allowed_ips = ips, key_limit_period = period,
      key_credit_limit = credit, key_usd_limit_cents = usd, key_rate_limit_per_minute = rate,
      key_expires_at = expires, key_last_used_at = None, key_revoked_at = None,
      key_name = name, key_environment = environment, key_prefix = prefix,
      key_last_four = last_four, key_created_at = now\<rparr>"

definition add_key :: "managed_key \<Rightarrow> key_table \<Rightarrow> key_table" where
  "add_key k s = s\<lparr>kt_keys := kt_keys s @ [k], kt_next := Suc (key_id k)\<rparr>"

definition create_key ::
    "key_settings \<Rightarrow> (string \<Rightarrow> string) \<Rightarrow> time \<Rightarrow> string \<Rightarrow> key_owner \<Rightarrow> key_create \<Rightarrow>
     (key_table, string \<times> managed_key) handler" where
  "create_key cfg keyed_hash now random_part user payload =
     then_do (of_result (ensure_verified user))
    (then_do (of_result (reject_reserved_name (Some (kc_name payload))))
    (then_do (of_result (validate_api_key_scopes (kc_scopes payload)))
    (bind (gets (active_keys (ko_id user))) (\<lambda>active.
     then_do (guard_or (\<not> length active \<ge> max_active_api_keys) (bad_request ''api_key_limit_exceeded''))
    (bind (of_result (generate_api_key (environment_value (kc_environment payload)) random_part))
       (\<lambda>(full_key, prefix, last_four).
     bind (of_result (validate_allowed_models (kc_allowed_models payload))) (\<lambda>models.
     bind (of_result (validate_allowed_ips (kc_allowed_ips payload))) (\<lambda>ips.
     bind (gets kt_next) (\<lambda>i.
       let db_key = new_key i (ko_id user) now (kc_name payload) (kc_environment payload) prefix last_four
             (keyed_hash full_key) (kc_scopes payload) models ips
             (map_option period_value (kc_limit_period payload)) (kc_credit_limit payload)
             (kc_usd_limit_cents payload) (kc_expires_at payload)
             (or_default (kc_rate_limit_per_minute payload) (api_key_default_rate_limit_per_minute cfg))
       in bind (gets (unique_hash i (keyed_hash full_key))) (\<lambda>fresh.
            then_do (guard_or fresh (PyExc ''IntegrityError''))
           (then_do (modify (add_key db_key)) (ret (full_key, db_key)))))))))))))"

text \<open>\<open>ORDER BY created_at\<close>; keys of one instant keep the order of the table.\<close>

definition managed_rows :: "nat \<Rightarrow> string \<Rightarrow> key_table \<Rightarrow> managed_key list" where
  "managed_rows uid name s = sort_key key_created_at (filter (\<lambda>k. key_name k = name) (active_keys uid s))"

definition revoke_at :: "time \<Rightarrow> managed_key \<Rightarrow> (key_table, unit) handler" where
  "revoke_at now k = modify (put_managed (k\<lparr>key_revoked_at := Some now\<rparr>))"

definition rotate ::
    "key_settings \<Rightarrow> string \<Rightarrow> string \<Rightarrow> string \<Rightarrow> managed_key \<Rightarrow> managed_key" where
  "rotate cfg prefix last_four h k =
     k\<lparr>key_prefix := prefix, key_last_four := last_four, key_hashed_key := h,
       key_scopes := managed_chat_key_scopes, key_expires_at := None, key_allowed_models := None,
       key_allowed_ips := None, key_limit_period := None, key_credit_limit := None,
       key_usd_limit_cents := None,
       key_rate_limit_per_minute := api_key_default_rate_limit_per_minute cfg\<rparr>"

definition mint_managed_chat_key ::
    "key_settings \<Rightarrow> (string \<Rightarrow> string) \<Rightarrow> time \<Rightarrow> string \<Rightarrow> key_owner \<Rightarrow> string \<Rightarrow>
     (key_table, string \<times> managed_key) handler" where
  "mint_managed_chat_key cfg keyed_hash now random_part user name =
     then_do (of_result (ensure_verified user))
    (bind (gets (managed_rows (ko_id user) name)) (\<lambda>rows.
     then_do (for_each (revoke_at now) (tl rows))
    (bind (of_result (generate_api_key ''live'' random_part)) (\<lambda>(full_key, prefix, last_four).
       let h = keyed_hash full_key
       in bind (gets kt_next) (\<lambda>i.
            let db_key = rotate cfg prefix last_four h
                  (case rows of k # _ \<Rightarrow> k
                   | [] \<Rightarrow> new_key i (ko_id user) now name LiveKey prefix last_four h [] None None None
                            None None None (api_key_default_rate_limit_per_minute cfg))
            in bind (gets (unique_hash (key_id db_key) h)) (\<lambda>fresh.
                 then_do (guard_or fresh (PyExc ''IntegrityError''))
                (then_do (modify (case rows of [] \<Rightarrow> add_key db_key | _ # _ \<Rightarrow> put_managed db_key))
                   (ret (full_key, db_key)))))))))"

definition list_keys :: "nat \<Rightarrow> key_table \<Rightarrow> managed_key list" where
  "list_keys uid s =
     sort_key (\<lambda>k. - key_created_at k)
       (filter (\<lambda>k. key_user_id k = uid \<and> key_name k \<noteq> managed_chat_key_name) (kt_keys s))"

definition get_key :: "nat \<Rightarrow> nat \<Rightarrow> (key_table, managed_key) handler" where
  "get_key uid kid =
     bind (gets (\<lambda>s. find (\<lambda>k. key_id k = kid) (kt_keys s))) (\<lambda>found.
       case found of None \<Rightarrow> raise not_found
       | Some db_key \<Rightarrow>
           if key_user_id db_key \<noteq> uid \<or> key_name db_key = managed_chat_key_name
           then raise not_found else ret db_key)"

text \<open>An explicit null of a column that cannot be cleared is dropped.\<close>

definition drop_nulls :: "key_update \<Rightarrow> key_update" where
  "drop_nulls p = p
     \<lparr>kp_name := (if kp_name p = Some None then None else kp_name p),
      kp_scopes := (if kp_scopes p = Some None then None else kp_scopes p),
      kp_rate_limit_per_minute :=
        (if kp_rate_limit_per_minute p = Some None then None else kp_rate_limit_per_minute p)\<rparr>"

definition set_or :: "'a option \<Rightarrow> 'a \<Rightarrow> 'a" where
  "set_or x d = (case x of None \<Rightarrow> d | Some v \<Rightarrow> v)"

definition set_field :: "'a option option \<Rightarrow> 'a \<Rightarrow> 'a" where
  "set_field x d = (case x of Some (Some v) \<Rightarrow> v | _ \<Rightarrow> d)"

definition clean_field ::
    "('a option \<Rightarrow> error + 'a option) \<Rightarrow> 'a option option \<Rightarrow> error + 'a option option" where
  "clean_field f x = (case x of None \<Rightarrow> Inr None
     | Some v \<Rightarrow> (case f v of Inl e \<Rightarrow> Inl e | Inr w \<Rightarrow> Inr (Some w)))"

definition apply_update ::
    "key_update \<Rightarrow> string list option option \<Rightarrow> string list option option \<Rightarrow> managed_key \<Rightarrow> managed_key" where
  "apply_update p models ips k =
     k\<lparr>key_name := set_field (kp_name p) (key_name k), key_scopes := set_field (kp_scopes p) (key_scopes k),
       key_expires_at := set_or (kp_expires_at p) (key_expires_at k),
       key_rate_limit_per_minute := set_field (kp_rate_limit_per_minute p) (key_rate_limit_per_minute k),
       key_allowed_models := set_or models (key_allowed_models k),
       key_allowed_ips := set_or ips (key_allowed_ips k),
       key_limit_period := set_or (map_option (map_option period_value) (kp_limit_period p)) (key_limit_period k),
       key_credit_limit := set_or (kp_credit_limit p) (key_credit_limit k),
       key_usd_limit_cents := set_or (kp_usd_limit_cents p) (key_usd_limit_cents k)\<rparr>"

definition update_key :: "nat \<Rightarrow> nat \<Rightarrow> key_update \<Rightarrow> (key_table, managed_key) handler" where
  "update_key uid kid payload =
     bind (get_key uid kid) (\<lambda>db_key.
       then_do (guard_or (key_revoked_at db_key = None) (bad_request ''api_key_revoked''))
      (then_do (of_result (reject_reserved_name (set_or (kp_name payload) None)))
      (let p = drop_nulls payload
       in then_do (case kp_scopes p of Some (Some scopes) \<Rightarrow>
                       bind (of_result (validate_api_key_scopes scopes)) (\<lambda>_. ret ()) | _ \<Rightarrow> ret ())
         (bind (of_result (clean_field validate_allowed_models (kp_allowed_models p))) (\<lambda>models.
          bind (of_result (clean_field validate_allowed_ips (kp_allowed_ips p))) (\<lambda>ips.
            let changed = apply_update p models ips db_key
            in then_do (of_result (case validate_spend_limits (key_limit_period changed)
                    (key_credit_limit changed) (key_usd_limit_cents changed) of
                  Inl _ \<Rightarrow> Inl (bad_request ''invalid_spend_limits'') | Inr u \<Rightarrow> Inr u))
              (then_do (modify (put_managed changed)) (ret changed))))))))"

definition revoke_key :: "time \<Rightarrow> nat \<Rightarrow> nat \<Rightarrow> (key_table, managed_key) handler" where
  "revoke_key now uid kid =
     bind (get_key uid kid) (\<lambda>db_key.
       if key_revoked_at db_key = None then
         (let db_key = db_key\<lparr>key_revoked_at := Some now\<rparr>
          in then_do (modify (put_managed db_key)) (ret db_key))
       else ret db_key)"

definition api_enforce_rate_limit ::
    "key_settings \<Rightarrow> time \<Rightarrow> managed_key \<Rightarrow> rate_store option \<Rightarrow> error + unit" where
  "api_enforce_rate_limit cfg now db_key redis_client =
     (case redis_client of None \<Rightarrow> Inr ()
      | Some store \<Rightarrow>
          if key_rate_limit_per_minute db_key \<le> 0 then Inr ()
          else count_request (rate_limit_fail_open cfg) now (key_id db_key)
                 (key_rate_limit_per_minute db_key) store)"

definition api_authenticate_key ::
    "key_settings \<Rightarrow> (string \<Rightarrow> string) \<Rightarrow> time \<Rightarrow> string \<Rightarrow> rate_store option \<Rightarrow> bool \<Rightarrow>
     (key_table, managed_key) handler" where
  "api_authenticate_key cfg keyed_hash now raw_key redis_client apply_rate_limit =
     (let token_hash = keyed_hash raw_key
      in bind (select_one_or_none (\<lambda>s. filter (\<lambda>k. key_hashed_key k = token_hash) (kt_keys s))) (\<lambda>found.
         case found of None \<Rightarrow> raise unauthorized
         | Some db_key \<Rightarrow>
             then_do (guard_or (key_hashed_key db_key = token_hash) unauthorized)
            (then_do (guard_or (key_revoked_at db_key = None) unauthorized)
            (then_do (guard_or (\<not> past now (key_expires_at db_key)) unauthorized)
            (then_do (of_result (if apply_rate_limit
                                 then api_enforce_rate_limit cfg now db_key redis_client else Inr ()))
               (let db_key = db_key\<lparr>key_last_used_at := Some now\<rparr>
                in then_do (modify (put_managed db_key)) (ret db_key)))))))"

definition api_require_scopes :: "managed_key \<Rightarrow> string list \<Rightarrow> error + unit" where
  "api_require_scopes db_key required_scopes =
     (if filter (\<lambda>sc. sc \<notin> set allowed_api_key_scopes) (key_scopes db_key) \<noteq> [] then Inl forbidden
      else if filter (\<lambda>sc. sc \<notin> set (key_scopes db_key)) required_scopes \<noteq> [] then Inl forbidden
      else Inr ())"

definition api_record_usage ::
    "time \<Rightarrow> managed_key \<Rightarrow> web_request \<Rightarrow> int \<Rightarrow> int \<Rightarrow> int \<Rightarrow> string option \<Rightarrow> (key_table, unit) handler" where
  "api_record_usage now db_key request status_code input_tokens output_tokens request_id =
     modify (\<lambda>s. s\<lparr>kt_usage := kt_usage s @
       [\<lparr>ku_api_key_id = key_id db_key, ku_user_id = key_user_id db_key, ku_endpoint = req_path request,
         ku_method = req_method request, ku_status_code = status_code,
         ku_request_id = (if truthy request_id then request_id else req_context_id request),
         ku_input_tokens = input_tokens, ku_output_tokens = output_tokens, ku_created_at = now\<rparr>]\<rparr>)"

definition api_usage_summary :: "managed_key \<Rightarrow> key_table \<Rightarrow> nat \<times> nat \<times> int \<times> int" where
  "api_usage_summary db_key s =
     (let mine = filter (\<lambda>u. ku_api_key_id u = key_id db_key) (kt_usage s)
      in (key_id db_key, length mine, sum_list (map ku_input_tokens mine), sum_list (map ku_output_tokens mine)))"

section \<open>The request body of a creation\<close>

definition key_create_valid :: "time \<Rightarrow> key_create \<Rightarrow> bool" where
  "key_create_valid now p \<longleftrightarrow>
     1 \<le> length (kc_name p) \<and> length (kc_name p) \<le> 120 \<and>
     (case validate_api_key_scopes (kc_scopes p) of Inl _ \<Rightarrow> False | Inr _ \<Rightarrow> True) \<and>
     \<not> past now (kc_expires_at p) \<and>
     (case kc_rate_limit_per_minute p of None \<Rightarrow> True | Some n \<Rightarrow> 1 \<le> n \<and> n \<le> 60000) \<and>
     (case validate_allowed_models (kc_allowed_models p) of Inl _ \<Rightarrow> False | Inr _ \<Rightarrow> True) \<and>
     (case validate_allowed_ips (kc_allowed_ips p) of Inl _ \<Rightarrow> False | Inr _ \<Rightarrow> True) \<and>
     (case kc_credit_limit p of None \<Rightarrow> True | Some n \<Rightarrow> 1 \<le> n \<and> n \<le> 10 ^ 15) \<and>
     (case kc_usd_limit_cents p of None \<Rightarrow> True | Some n \<Rightarrow> 1 \<le> n \<and> n \<le> 10 ^ 12) \<and>
     validate_spend_limits (map_option period_value (kc_limit_period p)) (kc_credit_limit p)
       (kc_usd_limit_cents p) = Inr ()"

definition create_key_request ::
    "key_settings \<Rightarrow> (string \<Rightarrow> string) \<Rightarrow> time \<Rightarrow> string \<Rightarrow> key_owner \<Rightarrow> key_create \<Rightarrow>
     (key_table, string \<times> managed_key) handler" where
  "create_key_request cfg keyed_hash now random_part user payload =
     then_do (guard_or (key_create_valid now payload) validation_error)
    (bind (of_result (validate_allowed_models (kc_allowed_models payload))) (\<lambda>models.
     bind (of_result (validate_allowed_ips (kc_allowed_ips payload))) (\<lambda>ips.
       create_key cfg keyed_hash now random_part user
         (payload\<lparr>kc_allowed_models := models, kc_allowed_ips := ips\<rparr>))))"

end
