(* ===== verification/KeyProps.thy ===== *)
theory KeyProps
  imports KeyAdmin Demo
begin

text \<open>
  The table of API keys over every sequence of control-plane operations: identifiers and hashes stay
  unique, a cap always has its window, a user has at most 25 self-service keys, one user's operations
  never touch another's keys nor the chat key, minting converges to one chat key, and a revoked
  secret is refused from then on by both planes.
\<close>

section \<open>What one operation does\<close>

lemma fst_snd_cases: "m s = (r, s') \<Longrightarrow> (\<exists>e. r = Inl e) \<or> (\<exists>x. r = Inr x)"
  by (cases r) auto

lemma create_key_cases:
  assumes "create_key cfg h now rnd user p s = (r, s')"
  obtains (failed) e where "r = Inl e" "s' = s"
  | (created) full k where "r = Inr (full, k)" "s' = add_key k s" "key_id k = kt_next s"
      "key_user_id k = ko_id user" "key_hashed_key k = h full" "unique_hash (key_id k) (h full) s"
      "key_revoked_at k = None" "key_expires_at k = kc_expires_at p" "key_name k = kc_name p"
      "lower (strip (kc_name p)) \<noteq> managed_chat_key_name"
      "length (active_keys (ko_id user) s) < max_active_api_keys" "ensure_verified user = Inr ()"
      "key_limit_period k = map_option period_value (kc_limit_period p)"
      "key_credit_limit k = kc_credit_limit p" "key_usd_limit_cents k = kc_usd_limit_cents p"
proof (cases r)
  case (Inl e)
  have "triple (\<lambda>t. t = s) (create_key cfg h now rnd user p) (\<lambda>_ _. True) (\<lambda>t. t = s)"
    unfolding create_key_def
    by (auto simp: triple_def handler_defs Let_def split: prod.splits sum.splits)
  then have "s' = s" using assms Inl by (auto dest: tripleD_err)
  then show ?thesis using Inl failed by blast
next
  case (Inr x)
  then show ?thesis
    using assms created
    unfolding create_key_def
    by (auto simp: then_ok bind_ok of_result_def Let_def new_key_def guard_or_def
        reject_reserved_name_def split: if_splits)
qed


lemma get_key_cases:
  assumes "get_key uid kid s = (r, s')"
  obtains (absent) "r = Inl not_found" "s' = s"
  | (found) k where "r = Inr k" "s' = s" "k \<in> set (kt_keys s)" "key_id k = kid" "key_user_id k = uid"
      "key_name k \<noteq> managed_chat_key_name"
  using assms
  by (auto simp: get_key_def handler_defs find_Some_iff in_set_conv_nth split: option.splits if_splits)

lemma update_key_cases:
  assumes "update_key uid kid p s = (r, s')"
  obtains (failed) e where "r = Inl e" "s' = s"
  | (changed) k k' where "r = Inr k'" "s' = put_managed k' s" "k \<in> set (kt_keys s)" "key_id k = kid"
      "key_user_id k = uid" "key_name k \<noteq> managed_chat_key_name" "key_id k' = key_id k"
      "key_user_id k' = uid" "key_hashed_key k' = key_hashed_key k" "key_revoked_at k = None"
      "key_revoked_at k' = None" "key_name k' \<noteq> managed_chat_key_name"
      "validate_spend_limits (key_limit_period k') (key_credit_limit k') (key_usd_limit_cents k') = Inr ()"
      "\<exists>models ips. k' = apply_update (drop_nulls p) models ips k"
proof (cases "get_key uid kid s")
  case (Pair gr t)
  then show ?thesis
  proof (cases rule: get_key_cases)
    case absent
    then show ?thesis using assms Pair failed [of not_found] by (auto simp: update_key_def bind_def)
  next
    case (found k)
    have reserved: "set_field (kp_name (drop_nulls p)) (key_name k) \<noteq> managed_chat_key_name"
      if "reject_reserved_name (set_or (kp_name p) None) = Inr ()"
    proof -
      have "lower (strip managed_chat_key_name) = managed_chat_key_name"
        by (simp add: managed_chat_key_name_def lower_def lower_char_def is_upper_def code_of_def
            strip_def lstrip_def rstrip_def is_space_def)
      then show ?thesis
        using that found(6)
        by (auto simp: reject_reserved_name_def drop_nulls_def set_field_def set_or_def split: option.splits if_splits)
    qed
    have run: "update_key uid kid p s = (case update_key uid kid p s of (r, s') \<Rightarrow> (r, s'))" by simp
    show ?thesis
    proof (cases r)
      case (Inl e)
      have "s' = s"
        using assms Inl Pair found
        by (auto simp: update_key_def handler_defs Let_def split: prod.splits sum.splits option.splits if_splits)
      then show ?thesis using Inl failed by blast
    next
      case (Inr k')
      have "\<exists>models ips. k' = apply_update (drop_nulls p) models ips k \<and> s' = put_managed k' s \<and>
          key_revoked_at k = None \<and> reject_reserved_name (set_or (kp_name p) None) = Inr () \<and>
          validate_spend_limits (key_limit_period k') (key_credit_limit k') (key_usd_limit_cents k') = Inr ()"
        using assms Inr Pair found
        by (auto simp: update_key_def handler_defs Let_def split: prod.splits sum.splits option.splits if_splits)
      then obtain models ips where *: "k' = apply_update (drop_nulls p) models ips k" "s' = put_managed k' s"
        "key_revoked_at k = None" "reject_reserved_name (set_or (kp_name p) None) = Inr ()"
        "validate_spend_limits (key_limit_period k') (key_credit_limit k') (key_usd_limit_cents k') = Inr ()"
        by blast
      have f: "key_id k' = key_id k" "key_user_id k' = uid" "key_hashed_key k' = key_hashed_key k"
        "key_revoked_at k' = None" "key_name k' = set_field (kp_name (drop_nulls p)) (key_name k)"
        using found(5) *(3) by (simp_all add: *(1) apply_update_def)
      show ?thesis
        by (rule changed [OF Inr *(2) found(3-6) f(1-3) *(3) f(4) _ *(5)]) (use f(5) reserved [OF *(4)] *(1) in auto)
    qed
  qed
qed

lemma revoke_key_cases:
  assumes "revoke_key now uid kid s = (r, s')"
  obtains (same) "s' = s"
  | (revoked) k where "s' = put_managed (k\<lparr>key_revoked_at := Some now\<rparr>) s" "k \<in> set (kt_keys s)" "key_id k = kid"
      "key_user_id k = uid" "key_name k \<noteq> managed_chat_key_name" "key_revoked_at k = None"
proof (cases "get_key uid kid s")
  case (Pair gr t)
  then show ?thesis
  proof (cases rule: get_key_cases)
    case absent
    then show ?thesis using assms Pair same by (simp add: revoke_key_def bind_def)
  next
    case (found k)
    then show ?thesis using assms Pair same revoked [of k]
      by (auto simp: revoke_key_def bind_def then_do_def Let_def split: if_splits)
  qed
qed

lemma api_authenticate_cases:
  assumes "api_authenticate_key cfg h now raw rc lim s = (r, s')"
  obtains (refused) e where "r = Inl e" "s' = s"
  | (accepted) k where "r = Inr (k\<lparr>key_last_used_at := Some now\<rparr>)"
      "s' = put_managed (k\<lparr>key_last_used_at := Some now\<rparr>) s" "k \<in> set (kt_keys s)"
      "key_hashed_key k = h raw" "key_revoked_at k = None" "\<not> past now (key_expires_at k)"
proof (cases "filter (\<lambda>k. key_hashed_key k = h raw) (kt_keys s)" rule: scalar_one_or_none.cases)
  case (2 k)
  then have "k \<in> set (kt_keys s)" "key_hashed_key k = h raw" by (auto simp: filter_eq_Cons_iff)
  then show ?thesis
    using assms 2 refused accepted [of k]
    by (auto simp: api_authenticate_key_def handler_defs Let_def split: sum.splits if_splits)
qed (use assms refused in \<open>auto simp: api_authenticate_key_def handler_defs Let_def\<close>)

text \<open>Minting revokes the extra chat keys and then adds or rotates one.\<close>

definition revoke_all :: "time \<Rightarrow> managed_key list \<Rightarrow> key_table \<Rightarrow> key_table" where
  "revoke_all now ks s = fold (\<lambda>k. put_managed (k\<lparr>key_revoked_at := Some now\<rparr>)) ks s"

lemma revoke_loop: "for_each (revoke_at now) ks s = (Inr (), revoke_all now ks s)"
  by (induction ks arbitrary: s) (simp_all add: revoke_all_def revoke_at_def then_do_def bind_def)

lemma revoke_all_next [simp]: "kt_next (revoke_all now ks s) = kt_next s"
  by (induction ks arbitrary: s) (simp_all add: revoke_all_def put_managed_def)

lemma mint_cases:
  assumes "mint_managed_chat_key cfg h now rnd user name s = (r, s')"
  defines "rows \<equiv> managed_rows (ko_id user) name s"
  obtains (refused) "r = Inl forbidden" "s' = s"
  | (collided) e where "r = Inl e" "s' = revoke_all now (tl rows) s"
  | (added) full k where "r = Inr (full, k)" "rows = []" "s' = add_key k s" "key_id k = kt_next s"
      "key_user_id k = ko_id user" "key_name k = name" "key_hashed_key k = h full" "unique_hash (key_id k) (h full) s"
      "key_revoked_at k = None" "k = rotate cfg (key_prefix k) (key_last_four k) (h full) k"
  | (rotated) full k k' where "r = Inr (full, k')" "rows = k # tl rows"
      "s' = put_managed k' (revoke_all now (tl rows) s)" "\<exists>a b. k' = rotate cfg a b (h full) k"
      "unique_hash (key_id k') (h full) (revoke_all now (tl rows) s)"
proof (cases "ensure_verified user")
  case (Inl e)
  then have "e = forbidden" by (auto simp: ensure_verified_def split: if_splits)
  then show ?thesis using assms(1) Inl refused
    by (simp add: mint_managed_chat_key_def of_result_def then_do_def bind_def)
next
  case (Inr u)
  obtain full a b where g: "generate_api_key ''live'' rnd = Inr (full, a, b)"
    by (simp add: generate_api_key_def Let_def)
  have run: "mint_managed_chat_key cfg h now rnd user name s =
      (let t = revoke_all now (tl rows) s;
           k' = rotate cfg a b (h full) (case rows of k # _ \<Rightarrow> k
             | [] \<Rightarrow> new_key (kt_next s) (ko_id user) now name LiveKey a b (h full) [] None None None None None None
                 (api_key_default_rate_limit_per_minute cfg))
       in if unique_hash (key_id k') (h full) t
          then (Inr (full, k'), (case rows of [] \<Rightarrow> add_key k' t | _ # _ \<Rightarrow> put_managed k' t))
          else (Inl (PyExc ''IntegrityError''), t))"
    by (cases rows) (simp_all add: mint_managed_chat_key_def of_result_def Inr then_do_def bind_def revoke_loop g
        Let_def rows_def [symmetric])
  show ?thesis
  proof (cases rows)
    case Nil
    have "revoke_all now (tl rows) s = s" by (simp add: Nil revoke_all_def)
    then show ?thesis
      using run assms(1) Nil added collided by (auto simp: Let_def rotate_def new_key_def split: if_splits)
  next
    case (Cons k ks)
    then show ?thesis
      using run assms(1) rotated [of full "rotate cfg a b (h full) k" k] collided
      by (auto simp: Let_def split: if_splits)
  qed
qed

section \<open>The table\<close>

definition caps_have_period :: "managed_key \<Rightarrow> bool" where
  "caps_have_period k \<longleftrightarrow>
     (key_limit_period k = None \<longrightarrow> key_credit_limit k = None \<and> key_usd_limit_cents k = None)"

definition table_ok :: "key_table \<Rightarrow> bool" where
  "table_ok s \<longleftrightarrow> distinct (map key_id (kt_keys s)) \<and> distinct (map key_hashed_key (kt_keys s)) \<and>
     (\<forall>k \<in> set (kt_keys s). key_id k < kt_next s \<and> caps_have_period k)"

lemma validate_spend_limits_ok:
  "validate_spend_limits (key_limit_period k) (key_credit_limit k) (key_usd_limit_cents k) = Inr ()
     \<longleftrightarrow> caps_have_period k"
  by (auto simp: validate_spend_limits_def caps_have_period_def)

lemma own_hash_unique: "table_ok s \<Longrightarrow> k \<in> set (kt_keys s) \<Longrightarrow> unique_hash (key_id k) (key_hashed_key k) s"
  using same_key_same_row [of key_hashed_key "kt_keys s"] by (auto simp: table_ok_def unique_hash_def)

lemma table_ok_put:
  assumes "table_ok s" "k \<in> set (kt_keys s)" "key_id k' = key_id k"
    "unique_hash (key_id k) (key_hashed_key k') s" "caps_have_period k'"
  shows "table_ok (put_managed k' s)"
proof -
  have d: "distinct (map key_id (kt_keys s))" "distinct (map key_hashed_key (kt_keys s))"
    using assms(1) by (simp_all add: table_ok_def)
  let ?ks = "replace_by key_id k' (kt_keys s)"
  have "distinct (map key_id ?ks)" using d(1) by simp
  then have "distinct ?ks" by (simp only: distinct_map)
  moreover have "inj_on key_hashed_key (set ?ks)"
  proof (rule inj_onI)
    have old: "q = k' \<or> q \<in> set (kt_keys s) \<and> key_id q \<noteq> key_id k" if "q \<in> set ?ks" for q
      using that assms(3) by (auto simp: set_replace_by split: if_splits)
    fix q r assume q: "q \<in> set ?ks" and r: "r \<in> set ?ks" and e: "key_hashed_key q = key_hashed_key r"
    have u: "key_hashed_key x \<noteq> key_hashed_key k'" if "x \<in> set (kt_keys s)" "key_id x \<noteq> key_id k" for x
      using that assms(4) by (simp add: unique_hash_def)
    show "q = r"
      using old [OF q] old [OF r]
    proof (elim disjE conjE)
      assume "q \<in> set (kt_keys s)" "r \<in> set (kt_keys s)"
      then show ?thesis using e by (rule same_key_same_row [OF d(2)])
    next
      assume "q = k'" "r \<in> set (kt_keys s)" "key_id r \<noteq> key_id k"
      then show ?thesis using u [of r] e by simp
    next
      assume "r = k'" "q \<in> set (kt_keys s)" "key_id q \<noteq> key_id k"
      then show ?thesis using u [of q] e by simp
    qed simp
  qed
  ultimately have h: "distinct (map key_hashed_key ?ks)" by (simp add: distinct_map)
  have "key_id q < kt_next s \<and> caps_have_period q" if "q \<in> set ?ks" for q
  proof (cases "q = k'")
    case True
    then show ?thesis using assms(1,2,3,5) by (simp add: table_ok_def)
  next
    case False
    then have "q \<in> set (kt_keys s)" using that by (simp add: set_replace_by split: if_splits)
    then show ?thesis using assms(1) by (simp add: table_ok_def)
  qed
  then show ?thesis using d(1) h by (simp add: table_ok_def put_managed_def)
qed

lemma table_ok_add:
  assumes "table_ok s" "key_id k = kt_next s" "unique_hash (key_id k) (key_hashed_key k) s" "caps_have_period k"
  shows "table_ok (add_key k s)"
proof -
  have "key_id k \<notin> key_id ` set (kt_keys s)"
    using assms(1,2) by (force simp: table_ok_def)
  moreover have "key_hashed_key k \<notin> key_hashed_key ` set (kt_keys s)"
  proof
    assume "key_hashed_key k \<in> key_hashed_key ` set (kt_keys s)"
    then obtain q where "q \<in> set (kt_keys s)" "key_hashed_key q = key_hashed_key k" by auto
    moreover from this have "key_id q \<noteq> key_id k" using \<open>key_id k \<notin> key_id ` set (kt_keys s)\<close> by (metis image_eqI)
    ultimately show False using assms(3) by (auto simp: unique_hash_def)
  qed
  moreover have "\<forall>q \<in> set (kt_keys s). key_id q < Suc (key_id k)"
    using assms(1,2) by (simp add: table_ok_def less_SucI)
  ultimately show ?thesis using assms(1,4) by (simp add: table_ok_def add_key_def)
qed

definition marked :: "time \<Rightarrow> nat set \<Rightarrow> managed_key \<Rightarrow> managed_key" where
  "marked now ids k = (if key_id k \<in> ids then k\<lparr>key_revoked_at := Some now\<rparr> else k)"

lemma marked_fields [simp]:
  "key_id (marked now ids k) = key_id k" "key_hashed_key (marked now ids k) = key_hashed_key k"
  "key_user_id (marked now ids k) = key_user_id k" "key_name (marked now ids k) = key_name k"
  "caps_have_period (marked now ids k) = caps_have_period k"
  by (simp_all add: marked_def caps_have_period_def)

lemma put_marked:
  assumes "table_ok s" "k \<in> set (kt_keys s)" "kt_keys t = map (marked now ids) (kt_keys s)"
  shows "kt_keys (put_managed (k\<lparr>key_revoked_at := Some now\<rparr>) t) = map (marked now (insert (key_id k) ids)) (kt_keys s)"
proof -
  have same: "q = k" if "q \<in> set (kt_keys s)" "key_id q = key_id k" for q
    using same_key_same_row [of key_id "kt_keys s" q k] that assms(1,2) by (simp add: table_ok_def)
  let ?k = "k\<lparr>key_revoked_at := Some now\<rparr>"
  have "kt_keys (put_managed ?k t)
      = map (\<lambda>q. if key_id q = key_id k then ?k else marked now ids q) (kt_keys s)"
    by (simp add: put_managed_def assms(3) replace_by_def)
  also have "\<dots> = map (marked now (insert (key_id k) ids)) (kt_keys s)"
  proof (rule map_cong [OF refl])
    fix q assume "q \<in> set (kt_keys s)"
    then show "(if key_id q = key_id k then ?k else marked now ids q) = marked now (insert (key_id k) ids) q"
      using same [of q] by (cases "key_id q = key_id k") (auto simp: marked_def)
  qed
  finally show ?thesis .
qed

lemma revoke_all_marked:
  assumes "table_ok s" "set ks \<subseteq> set (kt_keys s)" "kt_keys t = map (marked now ids) (kt_keys s)"
  shows "kt_keys (revoke_all now ks t) = map (marked now (ids \<union> key_id ` set ks)) (kt_keys s)"
  using assms(2,3)
proof (induction ks arbitrary: t ids)
  case (Cons k ks)
  have "kt_keys (put_managed (k\<lparr>key_revoked_at := Some now\<rparr>) t) = map (marked now (insert (key_id k) ids)) (kt_keys s)"
    by (rule put_marked [OF assms(1)]) (use Cons.prems in simp_all)
  from Cons.IH [OF _ this] show ?case using Cons.prems(1) by (simp add: revoke_all_def)
qed (simp add: revoke_all_def)

lemma revoke_all_keys:
  assumes "table_ok s" "set ks \<subseteq> set (kt_keys s)"
  shows "kt_keys (revoke_all now ks s) = map (marked now (key_id ` set ks)) (kt_keys s)"
proof -
  have "marked now {} = id" by (simp add: fun_eq_iff marked_def)
  then have "kt_keys s = map (marked now {}) (kt_keys s)" by simp
  from revoke_all_marked [OF assms this] show ?thesis by simp
qed

lemma table_ok_revoke_all:
  assumes "table_ok s" "set ks \<subseteq> set (kt_keys s)" shows "table_ok (revoke_all now ks s)"
proof -
  have "map key_id (kt_keys (revoke_all now ks s)) = map key_id (kt_keys s)"
    "map key_hashed_key (kt_keys (revoke_all now ks s)) = map key_hashed_key (kt_keys s)"
    by (simp_all add: revoke_all_keys [OF assms])
  moreover have "\<forall>k \<in> set (kt_keys (revoke_all now ks s)). key_id k < kt_next s \<and> caps_have_period k"
    using assms(1) unfolding revoke_all_keys [OF assms] by (simp add: table_ok_def)
  ultimately show ?thesis using assms(1) by (simp only: table_ok_def revoke_all_next simp_thms)
qed

lemma managed_rows_set: "set (managed_rows uid name s)
    = {k \<in> set (kt_keys s). key_user_id k = uid \<and> key_name k = name \<and> key_revoked_at k = None}"
  by (auto simp: managed_rows_def active_keys_def)

lemma tl_managed_rows: "set (tl (managed_rows uid name s)) \<subseteq> set (kt_keys s)"
proof (cases "managed_rows uid name s")
  case (Cons k ks)
  then have "set ks \<subseteq> set (managed_rows uid name s)" by auto
  then show ?thesis unfolding managed_rows_set using Cons by auto
qed simp

lemma rotate_fields [simp]:
  "key_id (rotate cfg a b h k) = key_id k" "key_hashed_key (rotate cfg a b h k) = h"
  "key_user_id (rotate cfg a b h k) = key_user_id k" "key_name (rotate cfg a b h k) = key_name k"
  "key_revoked_at (rotate cfg a b h k) = key_revoked_at k" "caps_have_period (rotate cfg a b h k)"
  by (simp_all add: rotate_def caps_have_period_def)

section \<open>Changes of the table\<close>

text \<open>Every operation is a sequence of changes, each adding a row or replacing one.\<close>

inductive key_change :: "key_table \<Rightarrow> key_table \<Rightarrow> bool" where
  add: "key_id k = kt_next s \<Longrightarrow> unique_hash (key_id k) (key_hashed_key k) s \<Longrightarrow> caps_have_period k \<Longrightarrow>
     key_revoked_at k = None \<Longrightarrow>
     (key_name k \<noteq> managed_chat_key_name \<Longrightarrow> length (active_keys (key_user_id k) s) < max_active_api_keys) \<Longrightarrow>
     key_change s (add_key k s)"
| replace: "k \<in> set (kt_keys s) \<Longrightarrow> key_id k' = key_id k \<Longrightarrow> key_user_id k' = key_user_id k \<Longrightarrow>
     (key_name k' = managed_chat_key_name) = (key_name k = managed_chat_key_name) \<Longrightarrow>
     unique_hash (key_id k) (key_hashed_key k') s \<Longrightarrow> (caps_have_period k \<Longrightarrow> caps_have_period k') \<Longrightarrow>
     (key_revoked_at k \<noteq> None \<Longrightarrow> key_revoked_at k' \<noteq> None \<and> key_hashed_key k' = key_hashed_key k) \<Longrightarrow>
     key_change s (put_managed k' s)"

inductive_cases key_changeE: "key_change s s'"

definition self_service :: "nat \<Rightarrow> managed_key \<Rightarrow> bool" where
  "self_service uid k \<longleftrightarrow> key_user_id k = uid \<and> key_revoked_at k = None \<and> key_name k \<noteq> managed_chat_key_name"

definition within_limit :: "nat \<Rightarrow> key_table \<Rightarrow> bool" where
  "within_limit uid s \<longleftrightarrow> length (filter (self_service uid) (kt_keys s)) \<le> max_active_api_keys"

definition burnt :: "string \<Rightarrow> key_table \<Rightarrow> bool" where
  "burnt hash s \<longleftrightarrow> (\<exists>k \<in> set (kt_keys s). key_hashed_key k = hash \<and> key_revoked_at k \<noteq> None)"

lemma change_table_ok:
  assumes "table_ok s" "key_change s s'" shows "table_ok s'"
  using assms(2)
proof (cases rule: key_change.cases)
  case (add k)
  then show ?thesis using assms(1) by (simp add: table_ok_add)
next
  case (replace k k')
  have "caps_have_period k'" using assms(1) replace(2,7) by (simp add: table_ok_def)
  then show ?thesis using assms(1) replace by (simp add: table_ok_put)
qed

lemma filter_map_le: "(\<And>q. q \<in> set xs \<Longrightarrow> P (f q) \<Longrightarrow> P q) \<Longrightarrow> length (filter P (map f xs)) \<le> length (filter P xs)"
  by (induction xs) (auto simp: le_SucI)

lemma filter_length_mono: "(\<And>x. P x \<Longrightarrow> Q x) \<Longrightarrow> length (filter P xs) \<le> length (filter Q xs)"
  by (induction xs) auto

lemma change_within_limit:
  assumes "table_ok s" "within_limit uid s" "key_change s s'" shows "within_limit uid s'"
  using assms(3)
proof (cases rule: key_change.cases)
  case (add k)
  have "length (filter (self_service uid) (kt_keys s)) \<le> length (active_keys uid s)"
    unfolding active_keys_def self_service_def by (rule filter_length_mono) simp
  then show ?thesis
    using add assms(2) by (auto simp: within_limit_def add_key_def self_service_def)
next
  case (replace k k')
  have same: "q = k" if "q \<in> set (kt_keys s)" "key_id q = key_id k" for q
    using same_key_same_row [of key_id "kt_keys s" q k] that assms(1) replace(2) by (simp add: table_ok_def)
  have "length (filter (self_service uid) (map (\<lambda>q. if key_id q = key_id k' then k' else q) (kt_keys s)))
      \<le> length (filter (self_service uid) (kt_keys s))"
  proof (rule filter_map_le)
    fix q assume q: "q \<in> set (kt_keys s)" "self_service uid (if key_id q = key_id k' then k' else q)"
    show "self_service uid q"
    proof (cases "key_id q = key_id k'")
      case True
      then have "q = k" using same [of q] q(1) replace(3) by simp
      then show ?thesis using q(2) True replace(4,5) replace(8) by (cases "key_revoked_at k") (auto simp: self_service_def)
    qed (use q in simp)
  qed
  then show ?thesis using assms(2) replace(1) by (simp add: within_limit_def put_managed_def replace_by_def)
qed

lemma change_burnt:
  assumes "table_ok s" "burnt hash s" "key_change s s'" shows "burnt hash s'"
  using assms(3)
proof (cases rule: key_change.cases)
  case (add k)
  then show ?thesis using assms(2) by (auto simp: burnt_def add_key_def)
next
  case (replace k k')
  obtain q where q: "q \<in> set (kt_keys s)" "key_hashed_key q = hash" "key_revoked_at q \<noteq> None"
    using assms(2) by (auto simp: burnt_def)
  show ?thesis
  proof (cases "key_id q = key_id k")
    case True
    then have "q = k"
      using same_key_same_row [of key_id "kt_keys s" q k] q(1) assms(1) replace(2) by (simp add: table_ok_def)
    then have "key_hashed_key k' = hash" "key_revoked_at k' \<noteq> None" using q replace(8) by auto
    moreover have "k' \<in> set (kt_keys s')" using replace(1,2,3) by (auto simp: put_managed_def set_replace_by)
    ultimately show ?thesis by (auto simp: burnt_def)
  next
    case False
    then have "q \<in> set (kt_keys s')" using q(1) replace(1,3) by (simp add: put_managed_def set_replace_by)
    then show ?thesis using q by (auto simp: burnt_def)
  qed
qed

interpretation changes_limit: step_fact key_change table_ok "within_limit uid" for uid
  by unfold_locales (blast intro: change_table_ok change_within_limit)+

interpretation changes_burnt: step_fact key_change table_ok "burnt hash" for hash
  by unfold_locales (blast intro: change_burnt)

section \<open>Sequences of operations\<close>

text \<open>The last step is an authentication on the serving plane, which only writes the time of use.\<close>

inductive key_step :: "key_settings \<Rightarrow> (string \<Rightarrow> string) \<Rightarrow> key_table \<Rightarrow> key_table \<Rightarrow> bool" for cfg h where
  create: "create_key_request cfg h now rnd user p s = (r, s') \<Longrightarrow> key_step cfg h s s'"
| mint: "mint_managed_chat_key cfg h now rnd user managed_chat_key_name s = (r, s') \<Longrightarrow> key_step cfg h s s'"
| update: "update_key uid kid p s = (r, s') \<Longrightarrow> key_step cfg h s s'"
| revoke: "revoke_key now uid kid s = (r, s') \<Longrightarrow> key_step cfg h s s'"
| authenticate: "api_authenticate_key cfg h now raw rc lim s = (r, s') \<Longrightarrow> key_step cfg h s s'"
| used: "k \<in> set (kt_keys s) \<Longrightarrow> key_step cfg h s (put_managed (k\<lparr>key_last_used_at := Some now\<rparr>) s)"

inductive_cases key_stepE: "key_step cfg h s s'"

text \<open>Every step is one of four changes of the table.\<close>

lemma create_request_cases:
  assumes "create_key_request cfg h now rnd user p s = (r, s')"
  obtains (failed) e where "r = Inl e" "s' = s"
  | (created) full k where "r = Inr (full, k)" "s' = add_key k s" "key_id k = kt_next s"
      "key_user_id k = ko_id user" "key_hashed_key k = h full" "unique_hash (key_id k) (h full) s"
      "key_revoked_at k = None" "key_expires_at k = kc_expires_at p" "key_name k = kc_name p"
      "key_name k \<noteq> managed_chat_key_name" "caps_have_period k" "\<not> past now (kc_expires_at p)"
      "length (active_keys (ko_id user) s) < max_active_api_keys" "ensure_verified user = Inr ()"
proof (cases "key_create_valid now p \<and> (\<exists>models ips. validate_allowed_models (kc_allowed_models p) = Inr models \<and>
      validate_allowed_ips (kc_allowed_ips p) = Inr ips)")
  case False
  then show ?thesis
    using assms failed
    by (auto simp: create_key_request_def handler_defs split: sum.splits if_splits)
next
  case True
  then obtain models ips where v: "key_create_valid now p" "validate_allowed_models (kc_allowed_models p) = Inr models"
    "validate_allowed_ips (kc_allowed_ips p) = Inr ips" by blast
  have run: "create_key cfg h now rnd user (p\<lparr>kc_allowed_models := models, kc_allowed_ips := ips\<rparr>) s = (r, s')"
    using assms v by (simp add: create_key_request_def handler_defs)
  have n: "lower (strip managed_chat_key_name) = managed_chat_key_name"
    by (simp add: managed_chat_key_name_def lower_def lower_char_def is_upper_def code_of_def
        strip_def lstrip_def rstrip_def is_space_def)
  show ?thesis
  proof (rule create_key_cases [OF run])
    fix full k
    assume k: "r = Inr (full, k)" "s' = add_key k s" "key_id k = kt_next s" "key_user_id k = ko_id user"
      "key_hashed_key k = h full" "unique_hash (key_id k) (h full) s" "key_revoked_at k = None"
      "key_expires_at k = kc_expires_at (p\<lparr>kc_allowed_models := models, kc_allowed_ips := ips\<rparr>)"
      "key_name k = kc_name (p\<lparr>kc_allowed_models := models, kc_allowed_ips := ips\<rparr>)"
      "lower (strip (kc_name (p\<lparr>kc_allowed_models := models, kc_allowed_ips := ips\<rparr>))) \<noteq> managed_chat_key_name"
      "length (active_keys (ko_id user) s) < max_active_api_keys" "ensure_verified user = Inr ()"
      "key_limit_period k = map_option period_value (kc_limit_period (p\<lparr>kc_allowed_models := models, kc_allowed_ips := ips\<rparr>))"
      "key_credit_limit k = kc_credit_limit (p\<lparr>kc_allowed_models := models, kc_allowed_ips := ips\<rparr>)"
      "key_usd_limit_cents k = kc_usd_limit_cents (p\<lparr>kc_allowed_models := models, kc_allowed_ips := ips\<rparr>)"
    have c: "caps_have_period k"
      using v(1) k(13-15) by (simp add: key_create_valid_def flip: validate_spend_limits_ok)
    have e: "\<not> past now (kc_expires_at p)" using v(1) by (simp add: key_create_valid_def)
    have m: "key_name k \<noteq> managed_chat_key_name" using k(9,10) n by auto
    show ?thesis by (rule created [OF k(1-7) _ _ m c e k(11,12)]) (use k(8,9) in simp_all)
  qed (use failed in blast)
qed

lemma replace_step:
  assumes "table_ok s" "k \<in> set (kt_keys s)" "key_id k' = key_id k" "key_user_id k' = key_user_id k"
    "key_hashed_key k' = key_hashed_key k" "key_revoked_at k' = None \<Longrightarrow> key_revoked_at k = None"
    "(key_name k' = managed_chat_key_name) = (key_name k = managed_chat_key_name)"
    "caps_have_period k \<Longrightarrow> caps_have_period k'"
  shows "key_change s (put_managed k' s)"
  using assms own_hash_unique [OF assms(1,2)] by (intro key_change.replace [of k]) auto

lemma revoke_all_changes:
  assumes "table_ok s" "distinct (map key_id ks)" "set ks \<subseteq> set (kt_keys s)"
  shows "key_change\<^sup>*\<^sup>* s (revoke_all now ks s)"
  using assms
proof (induction ks arbitrary: s)
  case (Cons k ks)
  let ?s = "put_managed (k\<lparr>key_revoked_at := Some now\<rparr>) s"
  have step: "key_change s ?s"
    by (rule replace_step [of s k]) (use Cons.prems in \<open>auto simp: caps_have_period_def\<close>)
  have "key_id x \<noteq> key_id k" if "x \<in> set ks" for x
    using Cons.prems(2) that by (auto simp: image_iff)
  then have "set ks \<subseteq> set (kt_keys ?s)" using Cons.prems(3) by (auto simp: put_managed_def set_replace_by)
  then have "key_change\<^sup>*\<^sup>* ?s (revoke_all now ks ?s)"
    using Cons.IH [OF change_table_ok [OF Cons.prems(1) step]] Cons.prems(2) by simp
  with step have "key_change\<^sup>*\<^sup>* s (revoke_all now ks ?s)" by (rule converse_rtranclp_into_rtranclp)
  then show ?case by (simp add: revoke_all_def)
qed (simp add: revoke_all_def)

lemma managed_rows_distinct: "table_ok s \<Longrightarrow> distinct (map key_id (managed_rows uid name s))"
  unfolding managed_rows_def active_keys_def
  by (auto simp: table_ok_def distinct_map distinct_sort intro: inj_on_subset)

lemma mint_changes:
  assumes ok: "table_ok s" and run: "mint_managed_chat_key cfg h now rnd user managed_chat_key_name s = (r, s')"
  shows "key_change\<^sup>*\<^sup>* s s'"
proof -
  let ?rows = "managed_rows (ko_id user) managed_chat_key_name s"
  have d: "distinct (map key_id (tl ?rows))"
    using managed_rows_distinct [OF ok] by (metis distinct_tl map_tl)
  note rv = revoke_all_changes [OF ok d tl_managed_rows]
  show ?thesis
  proof (rule mint_cases [OF run])
    fix full k
    assume k: "r = Inr (full, k)" "s' = add_key k s" "key_id k = kt_next s" "key_hashed_key k = h full"
      "unique_hash (key_id k) (h full) s" "key_revoked_at k = None" "key_name k = managed_chat_key_name"
      "k = rotate cfg (key_prefix k) (key_last_four k) (h full) k"
    have "caps_have_period k" by (subst k(8)) simp
    then have "key_change s s'" unfolding k(2) using k by (intro key_change.add) auto
    then show ?thesis by simp
  next
    fix full k k'
    assume k: "?rows = k # tl ?rows" "s' = put_managed k' (revoke_all now (tl ?rows) s)"
      "\<exists>a b. k' = rotate cfg a b (h full) k" "unique_hash (key_id k') (h full) (revoke_all now (tl ?rows) s)"
    have m: "k \<in> set (kt_keys s)" "key_revoked_at k = None" "key_name k = managed_chat_key_name"
      using managed_rows_set [of "ko_id user" managed_chat_key_name s] k(1) by (metis (mono_tags, lifting) list.set_intros(1) mem_Collect_eq)+
    have "key_id k \<notin> key_id ` set (tl ?rows)"
      using managed_rows_distinct [OF ok, of "ko_id user" managed_chat_key_name] k(1)
      by (metis distinct.simps(2) list.simps(9) set_map)
    then have "marked now (key_id ` set (tl ?rows)) k = k" by (simp add: marked_def)
    then have "k \<in> set (kt_keys (revoke_all now (tl ?rows) s))"
      unfolding revoke_all_keys [OF ok tl_managed_rows] using m(1) by force
    then have "key_change (revoke_all now (tl ?rows) s) s'"
      unfolding k(2) using k(3,4) m by (intro key_change.replace [of k]) auto
    with rv show ?thesis by (rule rtranclp.rtrancl_into_rtrancl)
  qed (use rv in auto)
qed

lemma key_step_changes:
  assumes ok: "table_ok s" and step: "key_step cfg h s s'" shows "key_change\<^sup>*\<^sup>* s s'"
  using step
proof (cases rule: key_step.cases)
  case (create now rnd user p r)
  show ?thesis
    by (rule create_request_cases [OF create]) (auto intro!: r_into_rtranclp key_change.add)
next
  case (mint now rnd user r)
  then show ?thesis by (rule mint_changes [OF ok])
next
  case (update uid kid p r)
  show ?thesis
  proof (rule update_key_cases [OF update])
    fix k k' assume k: "s' = put_managed k' s" "k \<in> set (kt_keys s)" "key_user_id k = uid"
      "key_name k \<noteq> managed_chat_key_name" "key_id k' = key_id k"
      "key_user_id k' = uid" "key_hashed_key k' = key_hashed_key k" "key_revoked_at k = None"
      "key_name k' \<noteq> managed_chat_key_name"
      "validate_spend_limits (key_limit_period k') (key_credit_limit k') (key_usd_limit_cents k') = Inr ()"
    have "key_change s s'" unfolding k(1)
      by (rule replace_step [OF ok k(2)]) (use k validate_spend_limits_ok in auto)
    then show ?thesis by simp
  qed simp
next
  case (revoke now uid kid r)
  show ?thesis
  proof (rule revoke_key_cases [OF revoke])
    fix k assume k: "s' = put_managed (k\<lparr>key_revoked_at := Some now\<rparr>) s" "k \<in> set (kt_keys s)"
    have "key_change s s'" unfolding k(1)
      by (rule replace_step [OF ok k(2)]) (simp_all add: caps_have_period_def)
    then show ?thesis by simp
  qed simp
next
  case (authenticate now raw rc lim r)
  show ?thesis
  proof (rule api_authenticate_cases [OF authenticate])
    fix k assume k: "s' = put_managed (k\<lparr>key_last_used_at := Some now\<rparr>) s" "k \<in> set (kt_keys s)"
    have "key_change s s'" unfolding k(1)
      by (rule replace_step [OF ok k(2)]) (simp_all add: caps_have_period_def)
    then show ?thesis by simp
  qed simp
next
  case (used k now)
  have "key_change s s'" unfolding used(1)
    by (rule replace_step [OF ok used(2)]) (simp_all add: caps_have_period_def)
  then show ?thesis by simp
qed

interpretation keys_limit: step_fact "key_step cfg h" table_ok "within_limit uid" for cfg h uid
  by unfold_locales (blast intro: changes_limit.reachable changes_limit.fact_reachable key_step_changes)+

interpretation keys_burnt: step_fact "key_step cfg h" table_ok "burnt hash" for cfg h hash
  by unfold_locales (blast intro: changes_burnt.fact_reachable key_step_changes)

section \<open>Properties\<close>

lemma revoked_api_refused:
  assumes "table_ok s" "k \<in> set (kt_keys s)" "key_revoked_at k \<noteq> None" "key_hashed_key k = h raw"
  shows "fst (api_authenticate_key cfg h now raw rc lim s) = Inl unauthorized"
proof -
  have "filter (\<lambda>q. key_hashed_key q = h raw) (kt_keys s) = [k]"
    using filter_by_key [of key_hashed_key "kt_keys s" k] assms by (simp add: table_ok_def)
  then show ?thesis using assms(3,4) by (auto simp: api_authenticate_key_def handler_defs Let_def)
qed

lemma truncate_fields [simp]:
  "key_id (api_key_row.truncate k) = key_id k" "key_hashed_key (api_key_row.truncate k) = key_hashed_key k"
  "key_revoked_at (api_key_row.truncate k) = key_revoked_at k"
  by (simp_all add: api_key_row.truncate_def)

lemma revoked_refused:
  assumes "table_ok s" "k \<in> set (kt_keys s)" "key_revoked_at k \<noteq> None" "key_hashed_key k = h raw"
    "api_keys l = map api_key_row.truncate (kt_keys s)"
  shows "fst (authenticate_key cfg h now raw rc lim ip l) = Inl unauthorized"
proof -
  have "filter (\<lambda>q. key_hashed_key q = h raw) (kt_keys s) = [k]"
    using filter_by_key [of key_hashed_key "kt_keys s" k] assms(1,2,4) by (simp add: table_ok_def)
  then have "filter (\<lambda>q. key_hashed_key q = h raw) (api_keys l) = [api_key_row.truncate k]"
    by (simp add: assms(5) filter_map comp_def)
  then show ?thesis using assms(3,4) by (auto simp: authenticate_key_def handler_defs Let_def)
qed

definition demo_managed_key :: managed_key where
  "demo_managed_key = new_key 1 7 0 ''ci'' LiveKey ''sk_live_aaaaaaaa'' ''aaaa'' ''H'' [''usage:read''] None None
     (Some ''daily'') (Some 100) None None 60"

definition demo_table :: key_table where
  "demo_table = \<lparr>kt_keys = [demo_managed_key\<lparr>key_revoked_at := Some 5\<rparr>], kt_usage = [], kt_next = 2\<rparr>"

lemma demo_table_ok: "table_ok demo_table"
  by (simp add: demo_table_def table_ok_def demo_managed_key_def new_key_def caps_have_period_def)

definition demo_key_settings :: key_settings where
  "demo_key_settings = settings.extend demo_settings \<lparr>rate_limit_enabled = True, rate_limit_fail_open = False,
     api_key_default_rate_limit_per_minute = 60, router_default_rate_limit_per_minute = 600,
     router_max_input_tokens = 1000000, router_max_output_tokens = 1000000\<rparr>"

text \<open>C27: A revoked secret stays dead. Once the key of a secret is revoked, then after any sequence
  of creations, edits, revocations, mintings and authentications both planes answer 401 to it.\<close>

theorem revoked_key_refused_forever:
  assumes "table_ok s" "(key_step cfg h)\<^sup>*\<^sup>* s s'" "k \<in> set (kt_keys s)" "key_revoked_at k \<noteq> None"
    "key_hashed_key k = h raw" "api_keys l = map api_key_row.truncate (kt_keys s')"
  shows "fst (api_authenticate_key cfg' h now raw rc lim s') = Inl unauthorized \<and>
    fst (authenticate_key cfg' h now raw rc lim ip l) = Inl unauthorized"
proof -
  have ok: "table_ok s'" by (rule keys_limit.reachable [OF assms(2,1)])
  have "burnt (h raw) s'"
    using keys_burnt.fact_reachable [OF assms(2,1), of "h raw"] assms(3-5) by (auto simp: burnt_def)
  then obtain q where q: "q \<in> set (kt_keys s')" "key_revoked_at q \<noteq> None" "key_hashed_key q = h raw"
    unfolding burnt_def by blast
  show ?thesis
    by (intro conjI revoked_api_refused [where k = q] revoked_refused [where k = q and s = s']) (use ok q assms(6) in simp_all)
qed

lemma revoked_key_refused_forever_witness:
  "fst (api_authenticate_key demo_key_settings (\<lambda>_. ''H'') 9 ''sk_live_x'' None True
     (snd (revoke_key 8 7 1 demo_table))) = Inl unauthorized"
proof -
  have "(key_step demo_key_settings (\<lambda>_. ''H''))\<^sup>*\<^sup>* demo_table (snd (revoke_key 8 7 1 demo_table))"
    by (intro r_into_rtranclp key_step.revoke [of 8 7 1 _ "fst (revoke_key 8 7 1 demo_table)"]) simp
  from revoked_key_refused_forever [OF demo_table_ok this, where k = "demo_managed_key\<lparr>key_revoked_at := Some 5\<rparr>"
      and raw = "''sk_live_x''" and l = "ledger.api_keys_update (\<lambda>_. map api_key_row.truncate (kt_keys (snd (revoke_key 8 7 1 demo_table)))) demo_ledger"]
  show ?thesis by (simp add: demo_table_def demo_managed_key_def new_key_def)
qed

text \<open>C28: The table keeps its bounds. In every reachable table no two keys share an identifier or a
  hash, every spend cap has its window, and a user who had at most 25 active self-service keys still
  has at most 25.\<close>

theorem key_table_bounds:
  assumes "table_ok s" "within_limit uid s" "(key_step cfg h)\<^sup>*\<^sup>* s s'"
  shows "distinct (map key_id (kt_keys s')) \<and> distinct (map key_hashed_key (kt_keys s')) \<and>
    (\<forall>k \<in> set (kt_keys s'). key_limit_period k = None \<longrightarrow>
       key_credit_limit k = None \<and> key_usd_limit_cents k = None) \<and>
    length (filter (\<lambda>k. key_user_id k = uid \<and> key_revoked_at k = None \<and> key_name k \<noteq> managed_chat_key_name)
       (kt_keys s')) \<le> 25"
proof -
  have "self_service uid = (\<lambda>k. key_user_id k = uid \<and> key_revoked_at k = None \<and> key_name k \<noteq> managed_chat_key_name)"
    by (simp add: fun_eq_iff self_service_def)
  then show ?thesis
    using keys_limit.reachable [OF assms(3,1)] keys_limit.fact_reachable [OF assms(3,1,2)]
    by (simp add: table_ok_def caps_have_period_def within_limit_def max_active_api_keys_def)
qed

definition others_keys :: "nat \<Rightarrow> key_table \<Rightarrow> managed_key list" where
  "others_keys uid s = filter (\<lambda>k. key_user_id k \<noteq> uid \<or> key_name k = managed_chat_key_name) (kt_keys s)"

lemma filter_replace_by:
  "(\<And>q. q \<in> set rows \<Longrightarrow> key q = key r \<Longrightarrow> \<not> P q) \<Longrightarrow> \<not> P r \<Longrightarrow>
     filter P (replace_by key r rows) = filter P rows"
  by (induction rows) (auto simp: replace_by_def)

lemma others_keys_replace:
  assumes "table_ok s" "k \<in> set (kt_keys s)" "key_id k' = key_id k" "key_user_id k = uid" "key_user_id k' = uid"
    "key_name k \<noteq> managed_chat_key_name" "key_name k' \<noteq> managed_chat_key_name"
  shows "others_keys uid (put_managed k' s) = others_keys uid s"
proof -
  have "filter (\<lambda>k. key_user_id k \<noteq> uid \<or> key_name k = managed_chat_key_name) (replace_by key_id k' (kt_keys s))
      = filter (\<lambda>k. key_user_id k \<noteq> uid \<or> key_name k = managed_chat_key_name) (kt_keys s)"
  proof (rule filter_replace_by)
    fix q assume "q \<in> set (kt_keys s)" "key_id q = key_id k'"
    then have "q = k" using same_key_same_row [of key_id "kt_keys s" q k] assms(1-3) by (simp add: table_ok_def)
    then show "\<not> (key_user_id q \<noteq> uid \<or> key_name q = managed_chat_key_name)" using assms(4,6) by simp
  qed (use assms(5,7) in simp)
  then show ?thesis by (simp add: others_keys_def put_managed_def)
qed

text \<open>C29: A user's operations stay with the user. Creating, editing or revoking a key, whether it
  succeeds or fails, leaves the keys of every other user and every chat key as they are.\<close>

theorem user_operations_isolated:
  assumes "table_ok s"
  shows "others_keys (ko_id user) (snd (create_key_request cfg h now rnd user p s)) = others_keys (ko_id user) s \<and>
    others_keys uid (snd (update_key uid kid u s)) = others_keys uid s \<and>
    others_keys uid (snd (revoke_key now uid kid s)) = others_keys uid s"
proof (intro conjI)
  show "others_keys (ko_id user) (snd (create_key_request cfg h now rnd user p s)) = others_keys (ko_id user) s"
    by (rule create_request_cases [OF surjective_pairing [of "create_key_request cfg h now rnd user p s"]])
      (simp_all add: others_keys_def add_key_def)
  show "others_keys uid (snd (update_key uid kid u s)) = others_keys uid s"
    by (rule update_key_cases [OF surjective_pairing [of "update_key uid kid u s"]])
      (simp_all add: others_keys_replace [OF assms])
  show "others_keys uid (snd (revoke_key now uid kid s)) = others_keys uid s"
    by (rule revoke_key_cases [OF surjective_pairing [of "revoke_key now uid kid s"]])
      (simp_all add: others_keys_replace [OF assms])
qed

lemma user_operations_isolated_witness:
  "others_keys 9 (snd (revoke_key 3 9 1 demo_table)) = others_keys 9 demo_table"
  using user_operations_isolated [OF demo_table_ok] by blast

lemma minted_key:
  assumes ok: "table_ok s" and run: "mint_managed_chat_key cfg h now rnd user name s = (Inr (full, k), s')"
  shows "filter (\<lambda>q. key_name q = name) (active_keys (ko_id user) s') = [k] \<and>
    (\<exists>a b k0. k = rotate cfg a b (h full) k0)"
proof -
  let ?rows = "managed_rows (ko_id user) name s"
  let ?P = "\<lambda>q. key_user_id q = ko_id user \<and> key_revoked_at q = None \<and> key_name q = name"
  have act: "filter (\<lambda>q. key_name q = name) (active_keys (ko_id user) t) = filter ?P (kt_keys t)" for t
    unfolding active_keys_def by (auto intro: filter_cong)
  show ?thesis
    unfolding act
  proof (rule mint_cases [OF run])
    fix f' k'
    assume a: "Inr (full, k) = Inr (f', k')" "?rows = []" "s' = add_key k' s" "key_user_id k' = ko_id user"
      "key_name k' = name" "key_revoked_at k' = None" "k' = rotate cfg (key_prefix k') (key_last_four k') (h f') k'"
    have "filter ?P (kt_keys s) = []"
      using managed_rows_set [of "ko_id user" name s] a(2) by (auto simp: filter_empty_conv)
    then show "filter ?P (kt_keys s') = [k] \<and> (\<exists>a b k0. k = rotate cfg a b (h full) k0)"
      using a by (auto simp: add_key_def)
  next
    fix f' k1 k'
    assume a: "Inr (full, k) = Inr (f', k')" "?rows = k1 # tl ?rows" "s' = put_managed k' (revoke_all now (tl ?rows) s)"
      "\<exists>a b. k' = rotate cfg a b (h f') k1"
    have m: "k1 \<in> set (kt_keys s)" "?P k1"
      using managed_rows_set [of "ko_id user" name s] a(2) by (metis (mono_tags, lifting) list.set_intros(1) mem_Collect_eq)+
    have dis: "distinct (map key_id (kt_keys s))" using ok by (simp add: table_ok_def)
    have n1: "key_id k1 \<notin> key_id ` set (tl ?rows)"
      using managed_rows_distinct [OF ok, of "ko_id user" name] a(2) by (metis distinct.simps(2) list.simps(9) set_map)
    have k': "key_id k' = key_id k1" "?P k'" using a(4) m(2) by auto
    have alive: "?P (marked now (key_id ` set (tl ?rows)) q) \<longleftrightarrow> q = k1" if "q \<in> set (kt_keys s)" for q
    proof
      assume p: "?P (marked now (key_id ` set (tl ?rows)) q)"
      then have "?P q" "key_id q \<notin> key_id ` set (tl ?rows)" by (auto simp: marked_def split: if_splits)
      then have "q \<in> set ?rows" "q \<notin> set (tl ?rows)" using that managed_rows_set [of "ko_id user" name s] by auto
      then show "q = k1" using a(2) by (metis set_ConsD)
    qed (use n1 m(2) in \<open>simp add: marked_def\<close>)
    have "filter ?P (kt_keys s') = filter ?P (map (\<lambda>q. if key_id q = key_id k1 then k' else q)
        (map (marked now (key_id ` set (tl ?rows))) (kt_keys s)))"
      by (simp add: a(3) put_managed_def replace_by_def k'(1) revoke_all_keys [OF ok tl_managed_rows])
    also have "\<dots> = map (\<lambda>_. k') (filter (\<lambda>q. q = k1) (kt_keys s))"
    proof -
      have "filter ?P (map (\<lambda>q. if key_id q = key_id k1 then k' else q) (map (marked now (key_id ` set (tl ?rows))) xs))
          = map (\<lambda>_. k') (filter (\<lambda>q. q = k1) xs)" if "set xs \<subseteq> set (kt_keys s)" for xs
        using that
      proof (induction xs)
        case (Cons q xs)
        have "key_id q = key_id k1 \<longleftrightarrow> q = k1"
          using same_key_same_row [OF dis, of q k1] Cons.prems m(1) by auto
        then show ?case using Cons alive [of q] k'(2) by auto
      qed simp
      then show ?thesis by simp
    qed
    also have "\<dots> = [k']"
    proof -
      have "filter (\<lambda>q. q = k1) (kt_keys s) = filter (\<lambda>q. key_id q = key_id k1) (kt_keys s)"
        using same_key_same_row [OF dis _ m(1)] by (metis (mono_tags, lifting) filter_cong)
      then show ?thesis using filter_by_key [OF dis m(1)] by simp
    qed
    finally show "filter ?P (kt_keys s') = [k] \<and> (\<exists>a b k0. k = rotate cfg a b (h full) k0)"
      using a(1,4) by auto
  qed simp_all
qed

text \<open>Minting converges. A successful minting for a verified user leaves exactly one active chat
  key of that user, the returned one, with the hash of the new secret, the managed scopes and no
  restriction, and touches no key of another user or name.\<close>

theorem minting_converges:
  assumes "table_ok s" "mint_managed_chat_key cfg h now rnd user name s = (Inr (full, k), s')"
  shows "ensure_verified user = Inr () \<and> filter (\<lambda>q. key_name q = name) (active_keys (ko_id user) s') = [k] \<and>
    key_hashed_key k = h full \<and> key_scopes k = managed_chat_key_scopes \<and> key_expires_at k = None \<and>
    key_allowed_models k = None \<and> key_allowed_ips k = None \<and> key_limit_period k = None \<and>
    key_credit_limit k = None \<and> key_usd_limit_cents k = None"
proof -
  have "ensure_verified user = Inr ()"
    using assms(2) by (cases "ensure_verified user")
      (simp_all add: mint_managed_chat_key_def of_result_def then_do_def bind_def)
  then show ?thesis using minted_key [OF assms] by (auto simp: rotate_def)
qed

lemmas eval_key_admin =
  mint_managed_chat_key_def create_key_request_def create_key_def ensure_verified_def managed_rows_def
  active_keys_def new_key_def generate_api_key_def unique_hash_def add_key_def of_result_def

definition demo_owner :: key_owner where
  "demo_owner = \<lparr>ko_id = 7, ko_is_verified = False, ko_phone_verified_at = Some 1, ko_wallet_verified_at = None\<rparr>"

lemma minting_converges_witness:
  "\<exists>k s'. mint_managed_chat_key demo_key_settings (\<lambda>_. ''N'') 4 ''abc'' demo_owner ''openwebui-chat'' demo_table
       = (Inr (''sk_live_abc'', k), s') \<and> key_hashed_key k = ''N''"
proof -
  have "\<exists>k s'. mint_managed_chat_key demo_key_settings (\<lambda>_. ''N'') 4 ''abc'' demo_owner ''openwebui-chat'' demo_table
      = (Inr (''sk_live_abc'', k), s')"
    by (simp add: eval_handlers eval_key_admin demo_owner_def demo_table_def demo_managed_key_def cong: eval_cong)
  then obtain k s' where r: "mint_managed_chat_key demo_key_settings (\<lambda>_. ''N'') 4 ''abc'' demo_owner
      ''openwebui-chat'' demo_table = (Inr (''sk_live_abc'', k), s')" by blast
  from minting_converges [OF demo_table_ok r] r show ?thesis by blast
qed


definition demo_create :: key_create where
  "demo_create = \<lparr>kc_name = ''ci'', kc_environment = TestKey, kc_scopes = [''usage:read''], kc_expires_at = None,
     kc_rate_limit_per_minute = None, kc_allowed_models = None, kc_allowed_ips = None, kc_limit_period = None,
     kc_credit_limit = None, kc_usd_limit_cents = None\<rparr>"

lemma demo_creates:
  "\<exists>k s'. create_key_request demo_key_settings (\<lambda>_. ''N'') 4 ''abc'' demo_owner demo_create demo_table
     = (Inr (''sk_test_abc'', k), s')"
  by (simp add: eval_handlers eval_key_admin demo_owner_def demo_table_def demo_managed_key_def
        demo_create_def key_create_valid_def validate_api_key_scopes_def allowed_api_key_scopes_def past_def
        validate_allowed_models_def validate_allowed_ips_def validate_spend_limits_def reject_reserved_name_def
        managed_chat_key_name_def max_active_api_keys_def
        strip_def lstrip_def rstrip_def is_space_def code_of_def lower_def lower_char_def is_upper_def cong: eval_cong)


text \<open>The bounds after a key was created in a table that already has one.\<close>

lemma key_table_bounds_witness:
  "\<exists>k s'. create_key_request demo_key_settings (\<lambda>_. ''N'') 4 ''abc'' demo_owner demo_create demo_table
       = (Inr (''sk_test_abc'', k), s') \<and>
     distinct (map key_hashed_key (kt_keys s')) \<and>
     length (filter (\<lambda>k. key_user_id k = 7 \<and> key_revoked_at k = None \<and> key_name k \<noteq> managed_chat_key_name) (kt_keys s')) \<le> 25"
proof -
  obtain k s' where r: "create_key_request demo_key_settings (\<lambda>_. ''N'') 4 ''abc'' demo_owner demo_create demo_table
      = (Inr (''sk_test_abc'', k), s')" using demo_creates by blast
  have "within_limit 7 demo_table" by (simp add: within_limit_def demo_table_def max_active_api_keys_def)
  moreover have "(key_step demo_key_settings (\<lambda>_. ''N''))\<^sup>*\<^sup>* demo_table s'"
    by (rule r_into_rtranclp) (rule key_step.create [OF r])
  ultimately show ?thesis
    using r key_table_bounds [of demo_table 7 demo_key_settings "\<lambda>_. ''N''" s'] demo_table_ok by blast
qed

end
