(* ===== verification/Miners.thy ===== *)
theory Miners
  imports Ledger Strings "HOL-Library.AList" "HOL-Library.List_Lexorder" "HOL-Library.Char_ord"
begin

text \<open>
  The registry of miners and their enclaves: the rows of the serving plane's tables
  (\<^verbatim>\<open>inference_api/models.py\<close>) and \<^verbatim>\<open>MinerRegistryService\<close> of
  \<^verbatim>\<open>inference_api/miners/service.py\<close>: registration, the advertised models, heartbeats with
  their self-reported capacity, and the list of available models. \<^verbatim>\<open>updated_at\<close> columns, which
  no operation reads, are left out.
\<close>

section \<open>Rows\<close>

datatype attestation = Pending | Verifying | Attested | AttestationFailed | Stale | AttestationRevoked

datatype health = Healthy | Degraded | Unhealthy | HealthUnknown

datatype token_status = TokenActive | TokenSuperseded | TokenRevoked

type_synonym json_dict = "(string \<times> json) list"

record miner =
  mn_id :: nat
  mn_hotkey :: string
  mn_subnet_node_id :: "int option"
  mn_peer_id :: "string option"
  mn_tee_endpoint :: string
  mn_tls_cert_fingerprint :: "string option"
  mn_enclave_verify_key :: "string option"
  mn_attestation_status :: attestation
  mn_attestation_mode :: "string option"
  mn_attestation_verified_at :: "time option"
  mn_attestation_expiry :: "time option"
  mn_miner_hash :: "string option"
  mn_chain_class :: "string option"
  mn_health :: health
  mn_last_seen :: "time option"
  mn_capacity :: json_dict
  mn_usage_chain_head :: "string option"
  mn_usage_count :: "int option"
  mn_usage_total_tokens :: "int option"
  mn_registered_at :: time

record miner_model =
  mm_id :: nat
  mm_miner_id :: nat
  mm_model_id :: string
  mm_model_version :: "string option"
  mm_model_hash :: "string option"
  mm_tee_endpoint :: "string option"
  mm_tls_cert_fingerprint :: "string option"
  mm_enclave_verify_key :: "string option"
  mm_e2ee_public_key :: "string option"
  mm_attestation_status :: attestation
  mm_attestation_mode :: "string option"
  mm_attestation_verified_at :: "time option"
  mm_attestation_expiry :: "time option"
  mm_usage_chain_head :: "string option"
  mm_usage_count :: "int option"
  mm_usage_total_tokens :: "int option"
  mm_receipt_cursor_row_id :: "int option"
  mm_status :: string
  mm_loaded :: bool
  mm_last_advertised_at :: time

record provisioned_token =
  pt_id :: nat
  pt_miner_id :: nat
  pt_model_id :: "string option"
  pt_key_id :: string
  pt_encrypted_token :: string
  pt_admin_encrypted_token :: "string option"
  pt_status :: token_status
  pt_provisioned_at :: time
  pt_expires_at :: "time option"

record allowlist_row =
  al_id :: nat
  al_model_id :: string
  al_model_version :: "string option"
  al_model_hash :: string
  al_args_hash :: "string option"
  al_gpu_hash :: "string option"
  al_label :: "string option"
  al_active :: bool

record request_stat =
  rs_id :: nat
  rs_epoch :: "int option"
  rs_miner_id :: "nat option"
  rs_miner_hotkey :: string
  rs_subnet_node_id :: "int option"
  rs_miner_model_id :: "nat option"
  rs_model_id :: string
  rs_model_version :: "string option"
  rs_model_hash :: "string option"
  rs_request_id :: "string option"
  rs_outcome :: string
  rs_http_status :: "int option"
  rs_latency_ms :: "int option"
  rs_ttft_ms :: "int option"
  rs_prompt_tokens :: int
  rs_completion_tokens :: int
  rs_total_tokens :: int
  rs_verified :: bool
  rs_created_at :: time

record miners_db =
  miners :: "miner list"
  miner_models :: "miner_model list"
  provisioned_tokens :: "provisioned_token list"
  model_allowlist :: "allowlist_row list"
  miner_request_stats :: "request_stat list"
  md_next :: nat

definition put_miner :: "miner \<Rightarrow> miners_db \<Rightarrow> miners_db" where
  "put_miner m = miners_update (replace_by mn_id m)"

definition put_model :: "miner_model \<Rightarrow> miners_db \<Rightarrow> miners_db" where
  "put_model mm = miner_models_update (replace_by mm_id mm)"

section \<open>Self-reported capacity\<close>

text \<open>\<open>int(value)\<close> of Python on a decoded JSON value. A text is an optional sign and digits, with
  single underscores between digits and blanks around; longer than 4300 digits it is refused.
  An infinite float overflows, which is not a \<open>ValueError\<close>.\<close>

fun digits_value :: "bool \<Rightarrow> int \<Rightarrow> string \<Rightarrow> int option" where
  "digits_value after_digit acc [] = (if after_digit then Some acc else None)"
| "digits_value after_digit acc (c # s) =
     (if is_digit c then digits_value True (10 * acc + (int (code_of c) - 48)) s
      else if c = CHR ''_'' \<and> after_digit then digits_value False acc s else None)"

definition int_of_text :: "string \<Rightarrow> int option" where
  "int_of_text raw =
     (let t = strip raw; body = (if starts_with ''-'' t \<or> starts_with ''+'' t then tl t else t)
      in if length (filter is_digit body) > 4300 then None
         else map_option (\<lambda>n. if starts_with ''-'' t then - n else n) (digits_value False 0 body))"

definition trunc_div :: "int \<Rightarrow> int \<Rightarrow> int" where
  "trunc_div a b = (if a < 0 then - ((- a) div b) else a div b)"

fun py_int :: "json \<Rightarrow> error + int" where
  "py_int (JInt n) = Inr n"
| "py_int (JBool b) = Inr (if b then 1 else 0)"
| "py_int (JFloat (Finite m e)) = Inr (trunc_div m (2 ^ e))"
| "py_int (JFloat (Infinite _)) = Inl (PyExc ''OverflowError'')"
| "py_int (JFloat NotANumber) = Inl (PyExc ''ValueError'')"
| "py_int (JStr s) = (case int_of_text s of Some n \<Rightarrow> Inr n | None \<Rightarrow> Inl (PyExc ''ValueError''))"
| "py_int JNull = Inl (PyExc ''TypeError'')"
| "py_int (JList _) = Inl (PyExc ''TypeError'')"
| "py_int (JObj _) = Inl (PyExc ''TypeError'')"

definition clamp_int :: "json \<Rightarrow> int \<Rightarrow> int \<Rightarrow> int \<Rightarrow> error + int" where
  "clamp_int value fallback minimum maximum =
     (case py_int value of
        Inr n \<Rightarrow> Inr (max minimum (min n maximum))
      | Inl e \<Rightarrow> if e = PyExc ''TypeError'' \<or> e = PyExc ''ValueError'' then Inr fallback else Inl e)"

definition max_available_concurrent_requests :: int where
  "max_available_concurrent_requests = 1024"

definition max_queue_depth :: int where
  "max_queue_depth = 100000"

definition clamp_field :: "string \<Rightarrow> int \<Rightarrow> json_dict \<Rightarrow> error + json_dict" where
  "clamp_field key maximum clean =
     (case map_of clean key of None \<Rightarrow> Inr clean
      | Some v \<Rightarrow> (case clamp_int v 0 0 maximum of
          Inl e \<Rightarrow> Inl e | Inr n \<Rightarrow> Inr (AList.update key (JInt n) clean)))"

definition sanitize_capacity :: "json_dict \<Rightarrow> error + json_dict" where
  "sanitize_capacity capacity =
     (case clamp_field ''available_concurrent_requests'' max_available_concurrent_requests
             (AList.delete ''reputation'' capacity) of
        Inl e \<Rightarrow> Inl e
      | Inr clean \<Rightarrow> clamp_field ''queue_depth'' max_queue_depth clean)"

section \<open>Registration\<close>

record miner_health =
  mh_state :: string
  mh_healthy :: bool

record hosted_model =
  hm_model_id :: string
  hm_model_version :: "string option"
  hm_tee_endpoint :: "string option"
  hm_status :: string
  hm_loaded :: bool

record self_registration =
  sr_hotkey :: string
  sr_peer_id :: string
  sr_subnet_node_id :: int
  sr_tee_endpoint :: string
  sr_hosted_models :: "hosted_model list"
  sr_health :: miner_health
  sr_signature :: string
  sr_nonce :: "string option"
  sr_timestamp :: "int option"

definition health_from_registration_health :: "miner_health option \<Rightarrow> health" where
  "health_from_registration_health h =
     (case h of None \<Rightarrow> HealthUnknown
      | Some h \<Rightarrow> if \<not> mh_healthy h then Unhealthy
          else if mh_state h = ''offline'' then Unhealthy
          else if mh_state h = ''joining'' then Degraded else Healthy)"

definition get_by_hotkey :: "string \<Rightarrow> (miners_db, miner option) handler" where
  "get_by_hotkey hotkey = select_one_or_none (\<lambda>s. filter (\<lambda>m. mn_hotkey m = lower hotkey) (miners s))"

definition get_miner :: "nat \<Rightarrow> (miners_db, miner option) handler" where
  "get_miner mid = gets (\<lambda>s. find (\<lambda>m. mn_id m = mid) (miners s))"

definition revoke_active_tokens :: "nat \<Rightarrow> (miners_db, unit) handler" where
  "revoke_active_tokens mid = modify (provisioned_tokens_update (map (\<lambda>t.
     if pt_miner_id t = mid \<and> pt_status t = TokenActive then t\<lparr>pt_status := TokenRevoked\<rparr> else t)))"

text \<open>Deleting the models of a miner clears the reference of their request rows
  (\<open>ON DELETE SET NULL\<close>).\<close>

definition delete_models :: "nat \<Rightarrow> miners_db \<Rightarrow> miners_db" where
  "delete_models mid s =
     (let gone = map mm_id (filter (\<lambda>mm. mm_miner_id mm = mid) (miner_models s))
      in s\<lparr>miner_models := filter (\<lambda>mm. mm_miner_id mm \<noteq> mid) (miner_models s),
           miner_request_stats := map (\<lambda>r. case rs_miner_model_id r of None \<Rightarrow> r
             | Some i \<Rightarrow> if i \<in> set gone then r\<lparr>rs_miner_model_id := None\<rparr> else r) (miner_request_stats s)\<rparr>)"

definition new_model :: "time \<Rightarrow> nat \<Rightarrow> nat \<Rightarrow> hosted_model \<Rightarrow> miner_model" where
  "new_model now i mid hm =
     \<lparr>mm_id = i, mm_miner_id = mid, mm_model_id = hm_model_id hm, mm_model_version = hm_model_version hm,
      mm_model_hash = None, mm_tee_endpoint = hm_tee_endpoint hm, mm_tls_cert_fingerprint = None,
      mm_enclave_verify_key = None, mm_e2ee_public_key = None, mm_attestation_status = Pending,
      mm_attestation_mode = None, mm_attestation_verified_at = None, mm_attestation_expiry = None,
      mm_usage_chain_head = None, mm_usage_count = None, mm_usage_total_tokens = None,
      mm_receipt_cursor_row_id = None, mm_status = hm_status hm, mm_loaded = hm_loaded hm,
      mm_last_advertised_at = now\<rparr>"

definition add_model :: "time \<Rightarrow> nat \<Rightarrow> hosted_model \<Rightarrow> miners_db \<Rightarrow> miners_db" where
  "add_model now mid hm s =
     s\<lparr>miner_models := miner_models s @ [new_model now (md_next s) mid hm], md_next := Suc (md_next s)\<rparr>"

primrec add_models :: "time \<Rightarrow> nat \<Rightarrow> (string \<times> string option) set \<Rightarrow> hosted_model list \<Rightarrow>
    (miners_db, unit) handler" where
  "add_models now mid seen [] = ret ()"
| "add_models now mid seen (hm # hms) =
     (let key = (hm_model_id hm, hm_model_version hm)
      in if key \<in> seen then add_models now mid seen hms
         else then_do (modify (add_model now mid hm)) (add_models now mid (insert key seen) hms))"

definition replace_models :: "time \<Rightarrow> nat \<Rightarrow> hosted_model list \<Rightarrow> (miners_db, unit) handler" where
  "replace_models now mid hosted_models =
     then_do (modify (delete_models mid)) (add_models now mid {} hosted_models)"

definition new_miner ::
    "time \<Rightarrow> nat \<Rightarrow> self_registration \<Rightarrow> int option \<Rightarrow> string option \<Rightarrow> string \<Rightarrow> miner" where
  "new_miner now i reg subnet_node_id chain_class miner_hash =
     \<lparr>mn_id = i, mn_hotkey = lower (sr_hotkey reg), mn_subnet_node_id = subnet_node_id,
      mn_peer_id = Some (sr_peer_id reg), mn_tee_endpoint = sr_tee_endpoint reg,
      mn_tls_cert_fingerprint = None, mn_enclave_verify_key = None, mn_attestation_status = Pending,
      mn_attestation_mode = None, mn_attestation_verified_at = None, mn_attestation_expiry = None,
      mn_miner_hash = Some miner_hash, mn_chain_class = chain_class,
      mn_health = health_from_registration_health (Some (sr_health reg)), mn_last_seen = Some now,
      mn_capacity = [], mn_usage_chain_head = None, mn_usage_count = None,
      mn_usage_total_tokens = None, mn_registered_at = now\<rparr>"

definition add_miner :: "miner \<Rightarrow> miners_db \<Rightarrow> miners_db" where
  "add_miner m s = s\<lparr>miners := miners s @ [m], md_next := Suc (mn_id m)\<rparr>"

definition refreshed_miner ::
    "time \<Rightarrow> self_registration \<Rightarrow> int option \<Rightarrow> string option \<Rightarrow> string \<Rightarrow> miner \<Rightarrow> miner" where
  "refreshed_miner now reg subnet_node_id chain_class miner_hash m =
     m\<lparr>mn_subnet_node_id := (case subnet_node_id of None \<Rightarrow> mn_subnet_node_id m | Some n \<Rightarrow> Some n),
       mn_peer_id := Some (sr_peer_id reg), mn_tee_endpoint := sr_tee_endpoint reg,
       mn_miner_hash := Some miner_hash,
       mn_chain_class := (case chain_class of None \<Rightarrow> mn_chain_class m | Some c \<Rightarrow> Some c),
       mn_health := health_from_registration_health (Some (sr_health reg)), mn_last_seen := Some now\<rparr>"

text \<open>A moved endpoint and a deregistered miner start over: their tokens are revoked and the
  attestation is forgotten, with the enclave's identity when the endpoint moved.\<close>

definition endpoint_changed :: "self_registration \<Rightarrow> miner \<Rightarrow> bool" where
  "endpoint_changed reg m \<longleftrightarrow> mn_tee_endpoint m \<noteq> sr_tee_endpoint reg"

definition starts_over :: "self_registration \<Rightarrow> miner \<Rightarrow> bool" where
  "starts_over reg m \<longleftrightarrow> endpoint_changed reg m \<or> mn_attestation_status m = AttestationRevoked"

definition renewed_miner ::
    "time \<Rightarrow> self_registration \<Rightarrow> int option \<Rightarrow> string option \<Rightarrow> string \<Rightarrow> miner \<Rightarrow> miner" where
  "renewed_miner now reg subnet_node_id chain_class miner_hash old =
     (let m = refreshed_miner now reg subnet_node_id chain_class miner_hash old
      in if endpoint_changed reg old then
           m\<lparr>mn_attestation_status := Pending, mn_tls_cert_fingerprint := None,
             mn_enclave_verify_key := None, mn_attestation_verified_at := None, mn_attestation_expiry := None\<rparr>
         else if mn_attestation_status old = AttestationRevoked then
           m\<lparr>mn_attestation_status := Pending, mn_attestation_verified_at := None, mn_attestation_expiry := None\<rparr>
         else m)"

definition write_registration ::
    "time \<Rightarrow> self_registration \<Rightarrow> int option \<Rightarrow> string option \<Rightarrow> string \<Rightarrow> miner option \<Rightarrow>
     (miners_db, miner) handler" where
  "write_registration now reg subnet_node_id chain_class miner_hash found =
     (case found of
        None \<Rightarrow> bind (gets md_next) (\<lambda>i.
          let miner = new_miner now i reg subnet_node_id chain_class miner_hash
          in then_do (modify (add_miner miner)) (ret miner))
      | Some old \<Rightarrow>
          let miner = renewed_miner now reg subnet_node_id chain_class miner_hash old
          in then_do (if starts_over reg old then revoke_active_tokens (mn_id old) else ret ())
               (then_do (modify (put_miner miner)) (ret miner)))"

definition upsert_from_registration ::
    "time \<Rightarrow> self_registration \<Rightarrow> int option \<Rightarrow> string option \<Rightarrow> string \<Rightarrow> (miners_db, miner) handler" where
  "upsert_from_registration now reg subnet_node_id chain_class miner_hash =
     bind (get_by_hotkey (lower (sr_hotkey reg))) (\<lambda>found.
     bind (write_registration now reg subnet_node_id chain_class miner_hash found) (\<lambda>miner.
       then_do (replace_models now (mn_id miner) (sr_hosted_models reg)) (ret miner)))"

section \<open>Heartbeats and inventories\<close>

definition record_heartbeat :: "time \<Rightarrow> miner \<Rightarrow> health \<Rightarrow> json_dict \<Rightarrow> (miners_db, miner) handler" where
  "record_heartbeat now miner h capacity =
     (let miner = miner\<lparr>mn_last_seen := Some now, mn_health := h\<rparr>
      in bind (if capacity \<noteq> [] then
                 bind (of_result (sanitize_capacity capacity)) (\<lambda>clean. ret (miner\<lparr>mn_capacity := clean\<rparr>))
               else ret miner) (\<lambda>miner.
           then_do (modify (put_miner miner)) (ret miner)))"

text \<open>\<open>sorted({...})\<close> of texts: by code point, without repetitions.\<close>

definition sorted_texts :: "string list \<Rightarrow> string list" where
  "sorted_texts xs = sort (remdups xs)"

definition models_for_miner :: "nat \<Rightarrow> miners_db \<Rightarrow> string list" where
  "models_for_miner mid s =
     sorted_texts (map mm_model_id (filter (\<lambda>mm. mm_miner_id mm = mid) (miner_models s)))"

definition list_available_models :: "miners_db \<Rightarrow> string list" where
  "list_available_models s =
     sorted_texts [mm_model_id mm. mm \<leftarrow> miner_models s, m \<leftarrow> miners s, t \<leftarrow> provisioned_tokens s,
       mn_id m = mm_miner_id mm \<and> pt_miner_id t = mn_id m \<and> pt_status t = TokenActive \<and>
       mm_loaded mm \<and> mn_attestation_status m = Attested \<and> mn_health m = Healthy]"

end
