(* ===== verification/Selector.thy ===== *)
theory Selector
  imports Miners Usage Complex_Main "HOL-Library.Product_Lexorder"
begin

text \<open>
  Which enclaves a request may be forwarded to: \<^verbatim>\<open>MinerSelector\<close> of
  \<^verbatim>\<open>inference_api/routing/selector.py\<close>, with the reputation computed from the platform's own
  request rows and the ranking by load. The shuffle of \<open>random.Random\<close> is a parameter; the ratio of
  successes is kept exact.
\<close>

section \<open>Candidates\<close>

record miner_candidate =
  cd_miner_id :: nat
  cd_miner_model_id :: nat
  cd_hotkey :: string
  cd_subnet_node_id :: "int option"
  cd_model_id :: string
  cd_model_version :: "string option"
  cd_tee_endpoint :: string
  cd_tls_cert_fingerprint :: "string option"
  cd_model_hash :: "string option"
  cd_enclave_verify_key :: "string option"
  cd_attestation_mode :: "string option"
  cd_attestation_verified_at_unix :: "int option"
  cd_available_concurrent_requests :: int
  cd_queue_depth :: int
  cd_reputation :: rat
  cd_e2ee_public_key :: "string option"

definition candidate_key :: "miner_candidate \<Rightarrow> int \<times> int \<times> rat" where
  "candidate_key c = (- cd_available_concurrent_requests c, cd_queue_depth c, - cd_reputation c)"

definition unix_seconds :: "time option \<Rightarrow> int option" where
  "unix_seconds t = map_option (\<lambda>t. trunc_div (t - 62135596800000000) 1000000) t"

definition capacity_int :: "json_dict \<Rightarrow> string \<Rightarrow> int \<Rightarrow> int \<Rightarrow> int \<Rightarrow> error + int" where
  "capacity_int capacity key fallback minimum maximum =
     clamp_int (case map_of capacity key of None \<Rightarrow> JInt fallback | Some v \<Rightarrow> v) fallback minimum maximum"

section \<open>Reputation\<close>

definition reputation_lookback :: time where "reputation_lookback = 3600000000"

definition reputation_min_samples :: nat where "reputation_min_samples = 3"

definition reputation_neutral :: rat where "reputation_neutral = 1"

definition recent_rows :: "time \<Rightarrow> nat \<Rightarrow> miners_db \<Rightarrow> request_stat list" where
  "recent_rows now mid s =
     filter (\<lambda>r. rs_miner_id r = Some mid \<and> rs_created_at r \<ge> now - reputation_lookback) (miner_request_stats s)"

definition platform_reputation :: "time \<Rightarrow> nat set \<Rightarrow> miners_db \<Rightarrow> nat \<Rightarrow> rat option" where
  "platform_reputation now miner_ids s mid =
     (let rows = recent_rows now mid s;
          total = length rows;
          successes = length (filter (\<lambda>r. rs_outcome r = ''success'') rows)
      in if mid \<notin> miner_ids \<or> total < reputation_min_samples then None
         else Some (of_nat successes / of_nat total))"

section \<open>Eligibility\<close>

text \<open>The join of miners, models and active tokens, one row for each of the three.\<close>

definition eligible :: "miner \<Rightarrow> miner_model \<Rightarrow> provisioned_token \<Rightarrow> bool" where
  "eligible m mm t \<longleftrightarrow>
     mm_miner_id mm = mn_id m \<and> pt_miner_id t = mn_id m \<and> pt_status t = TokenActive \<and>
     pt_model_id t = Some (mm_model_id mm) \<and> mm_loaded mm \<and>
     mm_attestation_status mm = Attested \<and> mn_health m = Healthy"

definition eligible_rows :: "(miner_model \<Rightarrow> bool) \<Rightarrow> miners_db \<Rightarrow> (miner \<times> miner_model) list" where
  "eligible_rows wanted s =
     [(m, mm). m \<leftarrow> miners s, mm \<leftarrow> miner_models s, t \<leftarrow> provisioned_tokens s, eligible m mm t \<and> wanted mm]"

text \<open>\<open>a or b\<close> on optional texts.\<close>

definition or_text :: "string option \<Rightarrow> string option \<Rightarrow> string option" where
  "or_text x y = (if truthy x then x else y)"

definition or_time :: "time option \<Rightarrow> time option \<Rightarrow> time option" where
  "or_time x y = (case x of None \<Rightarrow> y | Some t \<Rightarrow> Some t)"

definition candidate_of ::
    "(nat \<Rightarrow> rat option) \<Rightarrow> miner \<Rightarrow> miner_model \<Rightarrow> error + miner_candidate" where
  "candidate_of reputation m mm =
     (case capacity_int (mn_capacity m) ''available_concurrent_requests'' 1 0 max_available_concurrent_requests of
        Inl e \<Rightarrow> Inl e
      | Inr available \<Rightarrow>
          (case capacity_int (mn_capacity m) ''queue_depth'' 0 0 max_queue_depth of
             Inl e \<Rightarrow> Inl e
           | Inr queue \<Rightarrow> Inr
              \<lparr>cd_miner_id = mn_id m, cd_miner_model_id = mm_id mm, cd_hotkey = mn_hotkey m,
               cd_subnet_node_id = mn_subnet_node_id m, cd_model_id = mm_model_id mm,
               cd_model_version = mm_model_version mm,
               cd_tee_endpoint = (if truthy (mm_tee_endpoint mm) then the (mm_tee_endpoint mm) else mn_tee_endpoint m),
               cd_tls_cert_fingerprint = or_text (mm_tls_cert_fingerprint mm) (mn_tls_cert_fingerprint m),
               cd_model_hash = mm_model_hash mm,
               cd_enclave_verify_key = or_text (mm_enclave_verify_key mm) (mn_enclave_verify_key m),
               cd_attestation_mode = or_text (mm_attestation_mode mm) (mn_attestation_mode m),
               cd_attestation_verified_at_unix =
                 unix_seconds (or_time (mm_attestation_verified_at mm) (mn_attestation_verified_at m)),
               cd_available_concurrent_requests = available, cd_queue_depth = queue,
               cd_reputation = (case reputation (mn_id m) of None \<Rightarrow> reputation_neutral | Some r \<Rightarrow> r),
               cd_e2ee_public_key = mm_e2ee_public_key mm\<rparr>))"

primrec collect_candidates ::
    "(nat \<Rightarrow> rat option) \<Rightarrow> nat set \<Rightarrow> (miner \<times> miner_model) list \<Rightarrow> error + miner_candidate list" where
  "collect_candidates reputation seen [] = Inr []"
| "collect_candidates reputation seen (row # rows) =
     (if mm_id (snd row) \<in> seen then collect_candidates reputation seen rows
      else case candidate_of reputation (fst row) (snd row) of
        Inl e \<Rightarrow> Inl e
      | Inr c \<Rightarrow> (case collect_candidates reputation (insert (mm_id (snd row)) seen) rows of
          Inl e \<Rightarrow> Inl e | Inr cs \<Rightarrow> Inr (c # cs)))"

definition candidates :: "time \<Rightarrow> (miner_model \<Rightarrow> bool) \<Rightarrow> miners_db \<Rightarrow> error + miner_candidate list" where
  "candidates now wanted s =
     (let rows = eligible_rows wanted s
      in collect_candidates (platform_reputation now (set (map (\<lambda>r. mn_id (fst r)) rows)) s) {} rows)"

section \<open>Selection\<close>

definition select_candidates ::
    "(miner_candidate list \<Rightarrow> miner_candidate list) \<Rightarrow> time \<Rightarrow> string \<Rightarrow> bool \<Rightarrow> miners_db \<Rightarrow>
     error + miner_candidate list" where
  "select_candidates shuffle now model_id e2ee_only s =
     (case candidates now (\<lambda>mm. mm_model_id mm = model_id \<and> (e2ee_only \<longrightarrow> mm_e2ee_public_key mm \<noteq> None)) s of
        Inl e \<Rightarrow> Inl e | Inr cs \<Rightarrow> Inr (sort_key candidate_key (shuffle cs)))"

definition select_instance :: "time \<Rightarrow> nat \<Rightarrow> miners_db \<Rightarrow> error + miner_candidate option" where
  "select_instance now miner_model_id s =
     (case candidates now (\<lambda>mm. mm_id mm = miner_model_id) s of
        Inl e \<Rightarrow> Inl e | Inr [] \<Rightarrow> Inr None | Inr (c # cs) \<Rightarrow> Inr (Some c))"

end
