(* ===== verification/Provisioner.thy ===== *)
theory Provisioner
  imports Selector
begin

text \<open>
  Attesting the enclaves of a miner and sealing credentials into them: \<^verbatim>\<open>ProvisionerService\<close> of
  \<^verbatim>\<open>inference_api/provisioner/service.py\<close>, the allowlist of model artifacts it pins
  (\<^verbatim>\<open>allowlist_seed.py\<close>), the loop that picks the miners to provision
  (\<^verbatim>\<open>provisioner/loop.py\<close>) and the miner part of \<^verbatim>\<open>maintenance/tasks.py\<close>. The shared packages
  (attestation verifier, enclave client, sealing, encryption) and the random draws are the
  parameter \<open>tee\<close>.
\<close>

section \<open>Settings and the shared packages\<close>

record miner_settings =
  allow_dev_attestation :: bool
  verifier_backend :: string
  token_ttl_seconds :: int
  attestation_ttl_seconds :: int
  provisioner_start_engine :: bool
  health_stale_after_seconds :: int
  maintenance_interval_seconds :: int
  dereg_after_seconds :: int

record attestation_document =
  doc_miner :: "string option"
  doc_mode :: "string option"
  doc_tls_cert_fingerprint :: "string option"
  doc_sealing_key :: "string option"
  doc_verify_key :: "string option"
  doc_model_hash :: "string option"
  doc_usage_chain_head :: "string option"
  doc_usage_count :: "int option"
  doc_usage_total_tokens :: "int option"

record allowlist_entry =
  ae_model_hash :: string
  ae_args_hash :: "string option"
  ae_gpu_hash :: "string option"
  ae_label :: "string option"

record expected_claims =
  ec_allow_dev :: bool
  ec_miner_hash :: "string option"
  ec_model_allowlist :: "allowlist_entry list option"

record verification =
  vf_ok :: bool
  vf_e2ee_key_hex :: "string option"

record credentials =
  cr_admin_token :: string
  cr_inference_keys :: "(string \<times> string) list"

text \<open>The random draws of one enclave, and what an engine answers: whether it is ready, the status of
  the start request, whether it becomes ready in time, and the hash it then attests. \<open>Inl\<close> is an
  exception by its class.\<close>

record engine_answers =
  en_ready :: bool
  en_start :: "error + int"
  en_becomes_ready :: bool
  en_model_hash :: "string option"

record tee =
  tee_miner_hash :: "string \<Rightarrow> error + string"
  tee_endpoint_safe :: "string \<Rightarrow> bool"
  tee_draw :: "nat \<Rightarrow> string \<times> string \<times> string"
  tee_attestation :: "string \<Rightarrow> string \<Rightarrow> error + attestation_document"
  tee_verify :: "attestation_document \<Rightarrow> expected_claims \<Rightarrow> string \<Rightarrow> verification"
  tee_provision :: "string \<Rightarrow> credentials \<Rightarrow> string \<Rightarrow> error + bool"
  tee_encrypt :: "string \<Rightarrow> string"
  tee_engine :: "string \<Rightarrow> string \<Rightarrow> engine_answers"

definition provision_error :: error where "provision_error = PyExc ''ProvisionError''"

definition http_error :: error where "http_error = PyExc ''HTTPError''"

text \<open>What a model-enclave may fail with without stopping its miner: \<open>ProvisionError\<close>,
  \<open>httpx.HTTPError\<close> and \<open>ValueError\<close>.\<close>

definition isolated :: "error \<Rightarrow> bool" where
  "isolated e \<longleftrightarrow> e = provision_error \<or> e = http_error \<or> e = PyExc ''ValueError''"

definition http_as_provision :: "error + 'a \<Rightarrow> error + 'a" where
  "http_as_provision r = (case r of Inl e \<Rightarrow> Inl (if e = http_error then provision_error else e) | Inr x \<Rightarrow> Inr x)"

section \<open>The allowlist\<close>

definition model_allowlist_for :: "string \<Rightarrow> miners_db \<Rightarrow> allowlist_entry list option" where
  "model_allowlist_for model_id s =
     (let entries = map (\<lambda>r. \<lparr>ae_model_hash = al_model_hash r, ae_args_hash = al_args_hash r,
              ae_gpu_hash = al_gpu_hash r, ae_label = al_label r\<rparr>)
            (filter (\<lambda>r. al_model_id r = model_id \<and> al_active r) (model_allowlist s))
      in if entries = [] then None else Some entries)"

definition placeholder_model_hash :: string where
  "placeholder_model_hash = replicate 64 (CHR ''0'')"

definition add_allowed :: "string \<Rightarrow> string option \<Rightarrow> string \<Rightarrow> string option \<Rightarrow> string option \<Rightarrow>
    string option \<Rightarrow> miners_db \<Rightarrow> miners_db" where
  "add_allowed model_id model_version model_hash args_hash gpu_hash label s =
     s\<lparr>model_allowlist := model_allowlist s @
         [\<lparr>al_id = md_next s, al_model_id = model_id, al_model_version = model_version,
           al_model_hash = model_hash, al_args_hash = args_hash, al_gpu_hash = gpu_hash,
           al_label = label, al_active = True\<rparr>],
       md_next := Suc (md_next s)\<rparr>"

definition sync_observed_model_allowlist ::
    "string \<Rightarrow> string option \<Rightarrow> string option \<Rightarrow> miners_db \<Rightarrow> miners_db" where
  "sync_observed_model_allowlist model_id model_version model_hash s =
     (if \<not> truthy model_hash \<or> lower (the model_hash) = placeholder_model_hash then s
      else if filter (\<lambda>r. al_model_id r = model_id \<and> al_active r) (model_allowlist s) \<noteq> [] then s
      else add_allowed model_id model_version (the model_hash) None None (Some ''observed-attested'') s)"

definition seed_default_model_allowlist :: "(miners_db, unit) handler" where
  "seed_default_model_allowlist =
     bind (select_one_or_none (\<lambda>s. filter (\<lambda>r. al_model_id r = ''demo-chat-001'' \<and>
             al_model_version r = Some ''v1'' \<and> al_model_hash r = placeholder_model_hash) (model_allowlist s)))
       (\<lambda>found. if found = None
                then modify (add_allowed ''demo-chat-001'' (Some ''v1'') placeholder_model_hash None None (Some ''demo''))
                else ret ())"

section \<open>One enclave\<close>

definition allow_dev :: "miner_settings \<Rightarrow> bool" where
  "allow_dev cfg \<longleftrightarrow> allow_dev_attestation cfg \<or> verifier_backend cfg = ''mock'' \<or> verifier_backend cfg = ''dev''"

definition expected_claims_for ::
    "miner_settings \<Rightarrow> string option \<Rightarrow> allowlist_entry list option \<Rightarrow> expected_claims" where
  "expected_claims_for cfg bind_hash allowlist =
     \<lparr>ec_allow_dev = allow_dev cfg, ec_miner_hash = bind_hash, ec_model_allowlist = allowlist\<rparr>"

definition superseded :: "nat \<Rightarrow> string \<Rightarrow> provisioned_token \<Rightarrow> provisioned_token" where
  "superseded mid model_id t =
     (if pt_miner_id t = mid \<and> pt_model_id t = Some model_id \<and> pt_status t = TokenActive
      then t\<lparr>pt_status := TokenSuperseded\<rparr> else t)"

definition supersede_active_tokens :: "nat \<Rightarrow> string \<Rightarrow> miners_db \<Rightarrow> miners_db" where
  "supersede_active_tokens mid model_id = provisioned_tokens_update (map (superseded mid model_id))"

definition add_token :: "time \<Rightarrow> miner_settings \<Rightarrow> nat \<Rightarrow> string \<Rightarrow> string \<Rightarrow> string \<Rightarrow> string \<Rightarrow> miners_db \<Rightarrow> miners_db" where
  "add_token now cfg mid model_id kid encrypted admin_encrypted s =
     s\<lparr>provisioned_tokens := provisioned_tokens s @
         [\<lparr>pt_id = md_next s, pt_miner_id = mid, pt_model_id = Some model_id, pt_key_id = kid,
           pt_encrypted_token = encrypted, pt_admin_encrypted_token = Some admin_encrypted,
           pt_status = TokenActive, pt_provisioned_at = now,
           pt_expires_at = Some (now + token_ttl_seconds cfg * second_us)\<rparr>],
       md_next := Suc (md_next s)\<rparr>"

definition attested_model ::
    "time \<Rightarrow> miner_settings \<Rightarrow> attestation_document \<Rightarrow> verification \<Rightarrow> miner_model \<Rightarrow> miner_model" where
  "attested_model now cfg doc result mm =
     mm\<lparr>mm_attestation_status := Attested, mm_attestation_mode := doc_mode doc,
        mm_attestation_verified_at := Some now,
        mm_attestation_expiry := Some (now + attestation_ttl_seconds cfg * second_us),
        mm_tls_cert_fingerprint := doc_tls_cert_fingerprint doc, mm_enclave_verify_key := doc_verify_key doc,
        mm_e2ee_public_key := vf_e2ee_key_hex result,
        mm_model_hash := or_text (doc_model_hash doc) (mm_model_hash mm),
        mm_usage_chain_head := or_text (doc_usage_chain_head doc) (mm_usage_chain_head mm),
        mm_usage_count := doc_usage_count doc, mm_usage_total_tokens := doc_usage_total_tokens doc\<rparr>"

text \<open>The engine is started best effort: every failure of it leaves the enclave attested.\<close>

definition maybe_start_engine :: "time \<Rightarrow> tee \<Rightarrow> string \<Rightarrow> string \<Rightarrow> miner_model \<Rightarrow> miner_model" where
  "maybe_start_engine now tee endpoint admin_token mm =
     (let en = tee_engine tee endpoint admin_token;
          started = (en_ready en \<or>
            (case en_start en of Inl _ \<Rightarrow> False
             | Inr status \<Rightarrow> (status = 409 \<or> status < 400) \<and> en_becomes_ready en))
      in if started
         then mm\<lparr>mm_loaded := True, mm_status := ''loaded'',
                 mm_model_hash := (case en_model_hash en of None \<Rightarrow> mm_model_hash mm | Some h \<Rightarrow> Some h),
                 mm_last_advertised_at := now\<rparr>
         else mm)"

text \<open>The checks that come before anything is written: the verified document, its verification,
  and the credentials the enclave accepted.\<close>

definition attest_model ::
    "miner_settings \<Rightarrow> tee \<Rightarrow> nat \<Rightarrow> string \<Rightarrow> string \<Rightarrow> allowlist_entry list option \<Rightarrow>
     error + (attestation_document \<times> verification)" where
  "attest_model cfg tee i expected_hash endpoint allowlist =
     (if \<not> tee_endpoint_safe tee endpoint then Inl provision_error
      else
        (let nonce = fst (tee_draw tee i)
         in case http_as_provision (tee_attestation tee endpoint nonce) of
              Inl e \<Rightarrow> Inl e
            | Inr doc \<Rightarrow>
                if doc_miner doc = None \<and> \<not> allow_dev_attestation cfg then Inl provision_error
                else
                  (let bind_hash = (if doc_miner doc \<noteq> None then Some expected_hash else None);
                       result = tee_verify tee doc (expected_claims_for cfg bind_hash allowlist) nonce
                   in if \<not> vf_ok result then Inl provision_error
                      else if doc_miner doc \<noteq> None \<and> doc_miner doc \<noteq> Some expected_hash then Inl provision_error
                      else if \<not> truthy (doc_sealing_key doc) then Inl provision_error
                      else Inr (doc, result))))"

definition provision_model ::
    "miner_settings \<Rightarrow> tee \<Rightarrow> time \<Rightarrow> miner \<Rightarrow> miner_model \<Rightarrow> string \<Rightarrow> (miners_db, miner_model) handler" where
  "provision_model cfg tee now miner mm expected_hash =
     (let endpoint = (if truthy (mm_tee_endpoint mm) then the (mm_tee_endpoint mm) else mn_tee_endpoint miner);
          (nonce, admin_token, inference_token) = tee_draw tee (mm_id mm);
          creds = \<lparr>cr_admin_token = admin_token, cr_inference_keys = [(''platform-default'', inference_token)]\<rparr>
      in bind (gets (model_allowlist_for (mm_model_id mm))) (\<lambda>allowlist.
         bind (of_result (attest_model cfg tee (mm_id mm) expected_hash endpoint allowlist)) (\<lambda>(doc, result).
         bind (of_result (http_as_provision (tee_provision tee endpoint creds (the (doc_sealing_key doc)))))
           (\<lambda>provisioned.
         then_do (guard_or provisioned provision_error)
        (then_do (modify (supersede_active_tokens (mn_id miner) (mm_model_id mm)))
        (then_do (modify (add_token now cfg (mn_id miner) (mm_model_id mm) ''platform-default''
                    (tee_encrypt tee inference_token) (tee_encrypt tee admin_token)))
        (let attested = attested_model now cfg doc result mm
         in then_do (modify (put_model attested))
           (then_do (modify (sync_observed_model_allowlist (mm_model_id mm) (mm_model_version mm)
                       (mm_model_hash attested)))
           (let final = (if provisioner_start_engine cfg
                         then maybe_start_engine now tee endpoint admin_token attested else attested)
            in then_do (modify (put_model final)) (ret final))))))))))"

section \<open>One miner\<close>

text \<open>A failing enclave is skipped; what it changed before failing stays.\<close>

definition try_model ::
    "miner_settings \<Rightarrow> tee \<Rightarrow> time \<Rightarrow> miner \<Rightarrow> string \<Rightarrow> miner_model \<Rightarrow> (miners_db, miner_model option) handler" where
  "try_model cfg tee now miner expected_hash mm =
     (\<lambda>s. case provision_model cfg tee now miner mm expected_hash s of
        (Inr done, s') \<Rightarrow> (Inr (Some done), s')
      | (Inl e, s') \<Rightarrow> if isolated e then (Inr None, s') else (Inl e, s'))"

primrec try_models ::
    "miner_settings \<Rightarrow> tee \<Rightarrow> time \<Rightarrow> miner \<Rightarrow> string \<Rightarrow> miner_model list \<Rightarrow> (miners_db, miner_model list) handler" where
  "try_models cfg tee now miner expected_hash [] = ret []"
| "try_models cfg tee now miner expected_hash (mm # mms) =
     bind (try_model cfg tee now miner expected_hash mm) (\<lambda>outcome.
     bind (try_models cfg tee now miner expected_hash mms) (\<lambda>successes.
       ret (case outcome of None \<Rightarrow> successes | Some d \<Rightarrow> d # successes)))"

definition primary_model :: "miner \<Rightarrow> miner_model list \<Rightarrow> miner_model" where
  "primary_model miner successes =
     (case find (\<lambda>mm. \<not> truthy (mm_tee_endpoint mm) \<or> mm_tee_endpoint mm = Some (mn_tee_endpoint miner)) successes of
        None \<Rightarrow> hd successes | Some mm \<Rightarrow> mm)"

definition attested_miner :: "miner_model \<Rightarrow> miner \<Rightarrow> miner" where
  "attested_miner primary m =
     m\<lparr>mn_attestation_status := Attested, mn_attestation_mode := mm_attestation_mode primary,
       mn_attestation_verified_at := mm_attestation_verified_at primary,
       mn_attestation_expiry := mm_attestation_expiry primary,
       mn_tls_cert_fingerprint := mm_tls_cert_fingerprint primary,
       mn_enclave_verify_key := mm_enclave_verify_key primary,
       mn_usage_chain_head := or_text (mm_usage_chain_head primary) (mn_usage_chain_head m),
       mn_usage_count := mm_usage_count primary, mn_usage_total_tokens := mm_usage_total_tokens primary\<rparr>"

definition run_provision ::
    "miner_settings \<Rightarrow> tee \<Rightarrow> time \<Rightarrow> miner \<Rightarrow> string \<Rightarrow> (miners_db, unit) handler" where
  "run_provision cfg tee now miner expected_hash =
     bind (gets (\<lambda>s. filter (\<lambda>mm. mm_miner_id mm = mn_id miner) (miner_models s))) (\<lambda>models.
       then_do (guard_or (models \<noteq> []) provision_error)
      (bind (try_models cfg tee now miner expected_hash models) (\<lambda>successes.
       then_do (guard_or (successes \<noteq> []) provision_error)
         (modify (put_miner (attested_miner (primary_model miner successes) miner))))))"

definition provision_miner :: "miner_settings \<Rightarrow> tee \<Rightarrow> time \<Rightarrow> nat \<Rightarrow> (miners_db, unit) handler" where
  "provision_miner cfg tee now mid =
     bind (get_miner mid) (\<lambda>found.
       case found of None \<Rightarrow> raise provision_error
       | Some miner \<Rightarrow>
           then_do (guard_or (mn_hotkey miner \<noteq> []) provision_error)
          (bind (of_result (tee_miner_hash tee (mn_hotkey miner))) (\<lambda>expected_hash.
             let miner = miner\<lparr>mn_attestation_status := Verifying\<rparr>
             in then_do (modify (put_miner miner))
                  (\<lambda>s. case run_provision cfg tee now miner expected_hash s of
                     (Inr u, s') \<Rightarrow> (Inr u, s')
                   | (Inl e, s') \<Rightarrow>
                       if isolated e then (Inl provision_error,
                         put_miner (miner\<lparr>mn_attestation_status := AttestationFailed\<rparr>) s')
                       else (Inl e, s')))))"

section \<open>The loop\<close>

text \<open>A \<open>ProvisionError\<close> is committed, any other exception rolled back.\<close>

definition provision_one :: "miner_settings \<Rightarrow> tee \<Rightarrow> time \<Rightarrow> nat \<Rightarrow> miners_db \<Rightarrow> bool \<times> miners_db" where
  "provision_one cfg tee now mid s =
     (case provision_miner cfg tee now mid s of
        (Inr _, s') \<Rightarrow> (True, s')
      | (Inl e, s') \<Rightarrow> if e = provision_error then (False, s') else (False, s))"

definition loop_candidates :: "time \<Rightarrow> miners_db \<Rightarrow> nat list" where
  "loop_candidates now s =
     (let waiting = map mm_miner_id (filter (\<lambda>mm. mm_attestation_status mm = Pending \<or>
            mm_attestation_status mm = Stale) (miner_models s))
      in map mn_id (filter (\<lambda>m. mn_attestation_status m = Pending \<or> mn_attestation_status m = Stale \<or>
            (mn_attestation_status m = Attested \<and>
              (case mn_attestation_expiry m of None \<Rightarrow> False | Some t \<Rightarrow> t \<le> now)) \<or>
            mn_id m \<in> set waiting) (miners s)))"

fun provision_all :: "miner_settings \<Rightarrow> tee \<Rightarrow> time \<Rightarrow> nat list \<Rightarrow> miners_db \<Rightarrow> nat \<times> miners_db" where
  "provision_all cfg tee now [] s = (0, s)"
| "provision_all cfg tee now (mid # mids) s =
     (let (ok, s') = provision_one cfg tee now mid s;
          (n, s'') = provision_all cfg tee now mids s'
      in (if ok then Suc n else n, s''))"

definition run_once :: "miner_settings \<Rightarrow> tee \<Rightarrow> time \<Rightarrow> miners_db \<Rightarrow> nat \<times> miners_db" where
  "run_once cfg tee now s = provision_all cfg tee now (loop_candidates now s) s"

section \<open>Maintenance of the miners\<close>

definition seen_before :: "time \<Rightarrow> miner \<Rightarrow> bool" where
  "seen_before cutoff m = (case mn_last_seen m of None \<Rightarrow> False | Some t \<Rightarrow> t \<le> cutoff)"

text \<open>A pass over the miners that answers how many rows it changed.\<close>

definition change_miners :: "(miner \<Rightarrow> bool) \<Rightarrow> (miner \<Rightarrow> miner) \<Rightarrow> miners_db \<Rightarrow> nat \<times> miners_db" where
  "change_miners p f s = (length (filter p (miners s)), miners_update (map (\<lambda>m. if p m then f m else m)) s)"

definition expire_health :: "miner_settings \<Rightarrow> time \<Rightarrow> miners_db \<Rightarrow> nat \<times> miners_db" where
  "expire_health cfg now =
     (let cutoff = now - health_stale_after_seconds cfg * second_us
      in change_miners (\<lambda>m. mn_health m = Healthy \<and> (mn_last_seen m = None \<or> seen_before cutoff m))
           (\<lambda>m. m\<lparr>mn_health := Unhealthy\<rparr>))"

definition flag_near_expiry :: "miner_settings \<Rightarrow> time \<Rightarrow> miners_db \<Rightarrow> nat \<times> miners_db" where
  "flag_near_expiry cfg now =
     (let horizon = now + maintenance_interval_seconds cfg * second_us
      in change_miners (\<lambda>m. mn_attestation_status m = Attested \<and>
             (case mn_attestation_expiry m of None \<Rightarrow> False | Some t \<Rightarrow> t \<le> horizon))
           (\<lambda>m. m\<lparr>mn_attestation_status := Stale\<rparr>))"

definition token_expired :: "time \<Rightarrow> provisioned_token \<Rightarrow> bool" where
  "token_expired now t \<longleftrightarrow> pt_status t = TokenActive \<and>
     (case pt_expires_at t of None \<Rightarrow> False | Some e \<Rightarrow> e \<le> now)"

definition expire_tokens :: "time \<Rightarrow> miners_db \<Rightarrow> nat \<times> miners_db" where
  "expire_tokens now s =
     (length (filter (token_expired now) (provisioned_tokens s)),
      provisioned_tokens_update (map (\<lambda>t. if token_expired now t then t\<lparr>pt_status := TokenRevoked\<rparr> else t)) s)"

definition deregister_stale :: "miner_settings \<Rightarrow> time \<Rightarrow> miners_db \<Rightarrow> nat \<times> miners_db" where
  "deregister_stale cfg now =
     (let cutoff = now - dereg_after_seconds cfg * second_us
      in change_miners (\<lambda>m. mn_attestation_status m \<noteq> AttestationRevoked \<and> seen_before cutoff m)
           (\<lambda>m. m\<lparr>mn_attestation_status := AttestationRevoked, mn_health := Unhealthy\<rparr>))"

text \<open>The four steps of a pass, committed together.\<close>

definition maintain_miners :: "miner_settings \<Rightarrow> time \<Rightarrow> miners_db \<Rightarrow> miners_db" where
  "maintain_miners cfg now s =
     snd (deregister_stale cfg now (snd (expire_tokens now (snd (flag_near_expiry cfg now
       (snd (expire_health cfg now s)))))))"

text \<open>What the forwarder does on a pin mismatch.\<close>

definition mark_stale :: "nat \<Rightarrow> miners_db \<Rightarrow> miners_db" where
  "mark_stale mid s =
     (case find (\<lambda>m. mn_id m = mid) (miners s) of None \<Rightarrow> s
      | Some m \<Rightarrow> put_miner (m\<lparr>mn_attestation_status := Stale\<rparr>) s)"

end
