(* ===== verification/SelectorProps.thy ===== *)
theory SelectorProps
  imports Provisioner "HOL-Library.Multiset"
begin

text \<open>
  What selection guarantees: exactly the eligible enclaves, once each, in the order of the ranking,
  within the bounds of the self-reported capacity, and the same enclave whichever of the two queries
  finds it.
\<close>

section \<open>Capacities\<close>

lemma clamp_int_range:
  assumes "clamp_int v d lo hi = Inr n" "lo \<le> d" "d \<le> hi"
  shows "lo \<le> n \<and> n \<le> hi"
  using assms by (auto simp: clamp_int_def split: sum.splits if_splits)

lemma clamp_int_JInt: "clamp_int (JInt n) d lo hi = Inr (max lo (min n hi))"
  by (simp add: clamp_int_def)

definition stored_bounded :: "string \<Rightarrow> int \<Rightarrow> json_dict \<Rightarrow> bool" where
  "stored_bounded key maximum capacity \<longleftrightarrow>
     (case map_of capacity key of None \<Rightarrow> True | Some (JInt n) \<Rightarrow> 0 \<le> n \<and> n \<le> maximum | Some _ \<Rightarrow> False)"

definition capacity_ok :: "json_dict \<Rightarrow> bool" where
  "capacity_ok capacity \<longleftrightarrow>
     stored_bounded ''available_concurrent_requests'' max_available_concurrent_requests capacity \<and>
     stored_bounded ''queue_depth'' max_queue_depth capacity \<and> map_of capacity ''reputation'' = None"

lemma capacity_ok_Nil: "capacity_ok []"
  by (simp add: capacity_ok_def stored_bounded_def)

lemma clamp_field_ok:
  assumes "clamp_field key maximum c = Inr c'" "0 \<le> maximum"
  shows "stored_bounded key maximum c' \<and> (\<forall>k. k \<noteq> key \<longrightarrow> map_of c' k = map_of c k)"
  using assms clamp_int_range [where lo = 0 and d = 0]
  by (fastforce simp: clamp_field_def stored_bounded_def update_conv' split: option.splits sum.splits)

lemma sanitize_capacity_ok:
  assumes "sanitize_capacity c = Inr c'"
  shows "capacity_ok c'"
proof -
  obtain d where d: "clamp_field ''available_concurrent_requests'' max_available_concurrent_requests
      (AList.delete ''reputation'' c) = Inr d" "clamp_field ''queue_depth'' max_queue_depth d = Inr c'"
    using assms by (auto simp: sanitize_capacity_def split: sum.splits)
  have e: "stored_bounded ''available_concurrent_requests'' max_available_concurrent_requests d"
    "map_of d ''reputation'' = None"
    using clamp_field_ok [OF d(1)] by (simp_all add: delete_conv' max_available_concurrent_requests_def)
  have f: "stored_bounded ''queue_depth'' max_queue_depth c'" "\<And>k. k \<noteq> ''queue_depth'' \<Longrightarrow> map_of c' k = map_of d k"
    using clamp_field_ok [OF d(2)] by (simp_all add: max_queue_depth_def)
  have "stored_bounded ''available_concurrent_requests'' max_available_concurrent_requests c'"
    using e(1) f(2) [of "''available_concurrent_requests''"] unfolding stored_bounded_def by simp
  moreover have "map_of c' ''reputation'' = None" using e(2) f(2) [of "''reputation''"] by simp
  ultimately show ?thesis using f(1) unfolding capacity_ok_def by blast
qed

lemma capacity_int_runs:
  assumes "stored_bounded key maximum c"
  shows "\<exists>n. capacity_int c key d lo hi = Inr n"
  using assms by (auto simp: capacity_int_def stored_bounded_def clamp_int_JInt split: option.splits json.splits)

lemma candidate_of_runs:
  assumes "capacity_ok (mn_capacity m)"
  shows "\<exists>c. candidate_of r m mm = Inr c"
proof -
  obtain a q where "capacity_int (mn_capacity m) ''available_concurrent_requests'' 1 0
      max_available_concurrent_requests = Inr a"
    "capacity_int (mn_capacity m) ''queue_depth'' 0 0 max_queue_depth = Inr q"
    using assms capacity_int_runs unfolding capacity_ok_def by metis
  then show ?thesis unfolding candidate_of_def by simp
qed

section \<open>Collecting the candidates\<close>

definition reputation_in_range :: "(nat \<Rightarrow> rat option) \<Rightarrow> bool" where
  "reputation_in_range r \<longleftrightarrow> (\<forall>i x. r i = Some x \<longrightarrow> 0 \<le> x \<and> x \<le> 1)"

lemma platform_reputation_range: "reputation_in_range (platform_reputation now ids s)"
  unfolding reputation_in_range_def
proof (intro allI impI)
  fix i x assume "platform_reputation now ids s i = Some x"
  then obtain a :: nat where a: "x = of_nat a / of_nat (length (recent_rows now i s))"
    "a \<le> length (recent_rows now i s)"
    unfolding platform_reputation_def Let_def by (metis length_filter_le option.distinct(1) option.inject)
  then have "(of_nat a :: rat) \<le> of_nat (length (recent_rows now i s))" by (simp del: of_nat_le_iff add: of_nat_mono)
  then show "0 \<le> x \<and> x \<le> 1" unfolding a(1) by (auto intro: divide_le_eq_1 [THEN iffD2])
qed

lemma candidate_of_fields:
  assumes "candidate_of r m mm = Inr c" "reputation_in_range r"
  shows "cd_miner_id c = mn_id m \<and> cd_miner_model_id c = mm_id mm \<and> cd_model_id c = mm_model_id mm \<and>
    0 \<le> cd_available_concurrent_requests c \<and> cd_available_concurrent_requests c \<le> 1024 \<and>
    0 \<le> cd_queue_depth c \<and> cd_queue_depth c \<le> 100000 \<and> 0 \<le> cd_reputation c \<and> cd_reputation c \<le> 1"
proof -
  obtain a q where aq: "capacity_int (mn_capacity m) ''available_concurrent_requests'' 1 0
      max_available_concurrent_requests = Inr a"
    "capacity_int (mn_capacity m) ''queue_depth'' 0 0 max_queue_depth = Inr q"
    using assms(1) by (simp add: candidate_of_def split: sum.splits)
  have "0 \<le> a \<and> a \<le> max_available_concurrent_requests" "0 \<le> q \<and> q \<le> max_queue_depth"
    using aq unfolding capacity_int_def
    by (auto dest!: clamp_int_range simp: max_available_concurrent_requests_def max_queue_depth_def)
  moreover have "0 \<le> x \<and> x \<le> 1" if "x = (case r (mn_id m) of None \<Rightarrow> reputation_neutral | Some y \<Rightarrow> y)" for x
    using assms(2) that by (auto simp: reputation_in_range_def reputation_neutral_def split: option.splits)
  ultimately show ?thesis
    using assms(1) unfolding candidate_of_def aq
    by (clarsimp simp: max_available_concurrent_requests_def max_queue_depth_def)
qed

lemma collect_ids:
  assumes "collect_candidates r seen rows = Inr cs" "reputation_in_range r"
  shows "distinct (map cd_miner_model_id cs) \<and>
    set (map cd_miner_model_id cs) = (mm_id \<circ> snd) ` set rows - seen"
  using assms(1)
proof (induction rows arbitrary: seen cs)
  case (Cons row rows)
  show ?case
  proof (cases "mm_id (snd row) \<in> seen")
    case True
    then show ?thesis using Cons.IH [of seen cs] Cons.prems by auto
  next
    case False
    then obtain c cs' where c: "candidate_of r (fst row) (snd row) = Inr c"
      "collect_candidates r (insert (mm_id (snd row)) seen) rows = Inr cs'" "cs = c # cs'"
      using Cons.prems by (auto split: sum.splits)
    from Cons.IH [OF c(2)] candidate_of_fields [OF c(1) assms(2)] False show ?thesis
      by (auto simp: c(3))
  qed
qed simp

lemma collect_member:
  assumes "collect_candidates r seen rows = Inr cs" "c \<in> set cs"
  shows "\<exists>row \<in> set rows. candidate_of r (fst row) (snd row) = Inr c"
  using assms by (induction rows arbitrary: seen cs) (simp, fastforce split: if_splits sum.splits)

lemma collect_runs:
  assumes "\<And>row. row \<in> set rows \<Longrightarrow> capacity_ok (mn_capacity (fst row))"
  shows "\<exists>cs. collect_candidates r seen rows = Inr cs"
  using assms
proof (induction rows arbitrary: seen)
  case (Cons row rows)
  obtain c where "candidate_of r (fst row) (snd row) = Inr c"
    using candidate_of_runs [of "fst row"] Cons.prems [of row] by auto
  moreover obtain cs where "collect_candidates r (insert (mm_id (snd row)) seen) rows = Inr cs"
    using Cons.IH Cons.prems by fastforce
  moreover obtain cs' where "collect_candidates r seen rows = Inr cs'"
    using Cons.IH Cons.prems by fastforce
  ultimately show ?case by simp
qed simp

lemma collect_all_seen:
  "(\<And>row. row \<in> set rows \<Longrightarrow> mm_id (snd row) \<in> seen) \<Longrightarrow> collect_candidates r seen rows = Inr []"
  by (induction rows) auto

lemma eligible_rows_set:
  "(m, mm) \<in> set (eligible_rows wanted s) \<longleftrightarrow> m \<in> set (miners s) \<and> mm \<in> set (miner_models s) \<and>
     wanted mm \<and> (\<exists>t \<in> set (provisioned_tokens s). eligible m mm t)"
  by (auto simp: eligible_rows_def split: if_splits)

lemma candidates_ids:
  assumes "candidates now wanted s = Inr cs"
  shows "distinct (map cd_miner_model_id cs) \<and>
    (i \<in> set (map cd_miner_model_id cs) \<longleftrightarrow> (\<exists>m \<in> set (miners s). \<exists>mm \<in> set (miner_models s).
       \<exists>t \<in> set (provisioned_tokens s). eligible m mm t \<and> wanted mm \<and> mm_id mm = i))"
proof -
  have c: "collect_candidates (platform_reputation now (set (map (\<lambda>r. mn_id (fst r)) (eligible_rows wanted s))) s)
      {} (eligible_rows wanted s) = Inr cs"
    using assms by (simp add: candidates_def Let_def)
  have "i \<in> (mm_id \<circ> snd) ` set (eligible_rows wanted s) \<longleftrightarrow>
      (\<exists>m mm. (m, mm) \<in> set (eligible_rows wanted s) \<and> mm_id mm = i)" by force
  with collect_ids [OF c platform_reputation_range] show ?thesis
    unfolding eligible_rows_set by auto
qed

lemma candidates_member:
  assumes "candidates now wanted s = Inr cs" "c \<in> set cs"
  shows "\<exists>m mm. (m, mm) \<in> set (eligible_rows wanted s) \<and>
    candidate_of (platform_reputation now (mn_id ` fst ` set (eligible_rows wanted s)) s) m mm = Inr c"
proof -
  have "collect_candidates (platform_reputation now (mn_id ` fst ` set (eligible_rows wanted s)) s)
      {} (eligible_rows wanted s) = Inr cs"
    using assms(1) by (simp add: candidates_def Let_def image_image)
  from collect_member [OF this assms(2)] show ?thesis by force
qed

lemma candidates_run:
  "(\<And>m. m \<in> set (miners s) \<Longrightarrow> capacity_ok (mn_capacity m)) \<Longrightarrow> \<exists>cs. candidates now wanted s = Inr cs"
  unfolding candidates_def Let_def by (rule collect_runs) (auto simp: eligible_rows_def split: if_splits)

lemma platform_reputation_local:
  "mid \<in> ids \<Longrightarrow> mid \<in> ids' \<Longrightarrow> platform_reputation now ids s mid = platform_reputation now ids' s mid"
  by (simp add: platform_reputation_def)

lemma candidate_of_cong:
  assumes "r (mn_id m) = r' (mn_id m)"
  shows "candidate_of r m mm = candidate_of r' m mm"
  unfolding candidate_of_def assms by (rule refl)

section \<open>Selection\<close>

text \<open>C26: Selection offers exactly the eligible enclaves, once each, in ranked order, whatever the
  shuffle. An enclave is offered if and only if its model is the requested one (and, when asked for, it
  has an attested E2EE key), it is loaded and attested, its miner is healthy and holds an active token
  for the model; and what a miner reports about itself stays within fixed bounds.\<close>

theorem selection_exact:
  assumes "select_candidates shuffle now model_id e2ee_only s = Inr cs" "\<And>xs. mset (shuffle xs) = mset xs"
  shows "distinct (map cd_miner_model_id cs) \<and> sorted (map candidate_key cs) \<and>
    (i \<in> set (map cd_miner_model_id cs) \<longleftrightarrow>
      (\<exists>m \<in> set (miners s). \<exists>mm \<in> set (miner_models s). \<exists>t \<in> set (provisioned_tokens s).
         mm_id mm = i \<and> mm_model_id mm = model_id \<and> (e2ee_only \<longrightarrow> mm_e2ee_public_key mm \<noteq> None) \<and>
         mm_loaded mm \<and> mm_attestation_status mm = Attested \<and> mm_miner_id mm = mn_id m \<and>
         mn_health m = Healthy \<and> pt_miner_id t = mn_id m \<and> pt_model_id t = Some model_id \<and>
         pt_status t = TokenActive)) \<and>
    (c \<in> set cs \<longrightarrow> 0 \<le> cd_available_concurrent_requests c \<and> cd_available_concurrent_requests c \<le> 1024 \<and>
       0 \<le> cd_queue_depth c \<and> cd_queue_depth c \<le> 100000 \<and> 0 \<le> cd_reputation c \<and> cd_reputation c \<le> 1)"
proof -
  let ?w = "\<lambda>mm. mm_model_id mm = model_id \<and> (e2ee_only \<longrightarrow> mm_e2ee_public_key mm \<noteq> None)"
  obtain cs0 where c0: "candidates now ?w s = Inr cs0" "cs = sort_key candidate_key (shuffle cs0)"
    using assms(1) by (auto simp: select_candidates_def split: sum.splits)
  have ms: "mset cs = mset cs0" by (simp add: c0(2) assms(2))
  then have st: "set cs = set cs0" by (metis set_mset_mset)
  have ids: "mset (map cd_miner_model_id cs) = mset (map cd_miner_model_id cs0)" by (simp add: ms)
  have d: "distinct (map cd_miner_model_id cs)"
    using mset_eq_imp_distinct_iff [OF ids] candidates_ids [OF c0(1)] by blast
  have iff: "i \<in> set (map cd_miner_model_id cs) \<longleftrightarrow>
      (\<exists>m \<in> set (miners s). \<exists>mm \<in> set (miner_models s). \<exists>t \<in> set (provisioned_tokens s).
         eligible m mm t \<and> ?w mm \<and> mm_id mm = i)"
    using candidates_ids [OF c0(1)] by (simp add: st)
  have "c \<in> set cs \<Longrightarrow> \<exists>r m mm. candidate_of r m mm = Inr c \<and> reputation_in_range r"
    using candidates_member [OF c0(1)] platform_reputation_range by (simp add: st) blast
  then have b: "c \<in> set cs \<longrightarrow> 0 \<le> cd_available_concurrent_requests c \<and>
      cd_available_concurrent_requests c \<le> 1024 \<and> 0 \<le> cd_queue_depth c \<and> cd_queue_depth c \<le> 100000 \<and>
      0 \<le> cd_reputation c \<and> cd_reputation c \<le> 1"
    using candidate_of_fields by blast
  have "sorted (map candidate_key cs)" by (simp add: c0(2))
  with d b show ?thesis unfolding iff eligible_def by (intro conjI) (assumption, assumption, blast, assumption)
qed

text \<open>The two queries agree. Looking an offered enclave up by its identifier at the same instant
  answers the very same candidate, endpoint, fingerprint and keys included.\<close>

theorem instance_agrees_with_selection:
  assumes "select_candidates shuffle now model_id e2ee_only s = Inr cs" "\<And>xs. mset (shuffle xs) = mset xs"
    "distinct (map mm_id (miner_models s))" "distinct (map mn_id (miners s))" "c \<in> set cs"
  shows "select_instance now (cd_miner_model_id c) s = Inr (Some c)"
proof -
  let ?w = "\<lambda>mm. mm_model_id mm = model_id \<and> (e2ee_only \<longrightarrow> mm_e2ee_public_key mm \<noteq> None)"
  let ?v = "\<lambda>mm. mm_id mm = cd_miner_model_id c"
  let ?rep = "\<lambda>w. platform_reputation now (mn_id ` fst ` set (eligible_rows w s)) s"
  obtain cs0 where c0: "candidates now ?w s = Inr cs0" "cs = sort_key candidate_key (shuffle cs0)"
    using assms(1) by (auto simp: select_candidates_def split: sum.splits)
  have "c \<in> set cs0" using assms(5) by (metis c0(2) assms(2) set_sort set_mset_mset)
  then obtain m mm where r: "(m, mm) \<in> set (eligible_rows ?w s)" "candidate_of (?rep ?w) m mm = Inr c"
    using candidates_member [OF c0(1)] by blast
  have e: "m \<in> set (miners s)" "mm \<in> set (miner_models s)" "mm_miner_id mm = mn_id m"
    using r(1) unfolding eligible_rows_set eligible_def by blast+
  have i: "cd_miner_model_id c = mm_id mm"
    using candidate_of_fields [OF r(2) platform_reputation_range] by blast
  have v: "(m, mm) \<in> set (eligible_rows ?v s)" using r(1) by (simp add: eligible_rows_set i)
  have only: "row = (m, mm)" if "row \<in> set (eligible_rows ?v s)" for row
  proof -
    obtain m' mm' where row: "row = (m', mm')" by (cases row)
    then have w: "m' \<in> set (miners s)" "mm' \<in> set (miner_models s)" "mm_miner_id mm' = mn_id m'" "mm_id mm' = mm_id mm"
      using that i by (auto simp: eligible_rows_set eligible_def)
    have "mm' = mm" using assms(3) w(2,4) e(2) by (metis same_key_same_row)
    moreover from this have "m' = m" using assms(4) w(1,3) e(1,3) by (metis same_key_same_row)
    ultimately show ?thesis by (simp add: row)
  qed
  then obtain rest where rows: "eligible_rows ?v s = (m, mm) # rest" "\<And>row. row \<in> set rest \<Longrightarrow> row = (m, mm)"
    using v by (cases "eligible_rows ?v s") auto
  let ?r = "platform_reputation now (set (map (\<lambda>r. mn_id (fst r)) ((m, mm) # rest))) s"
  have "candidate_of ?r m mm = candidate_of (?rep ?w) m mm"
    by (intro candidate_of_cong platform_reputation_local) (use r(1) in force)+
  then have "candidate_of ?r m mm = Inr c" using r(2) by (rule trans)
  moreover have "collect_candidates ?r {mm_id mm} rest = Inr []"
    by (rule collect_all_seen) (use rows(2) in fastforce)
  ultimately have "candidates now ?v s = Inr [c]"
    unfolding candidates_def Let_def rows(1) by simp
  then show ?thesis by (simp add: select_instance_def)
qed

section \<open>A registry with two enclaves\<close>

definition demo_miner :: "nat \<Rightarrow> string \<Rightarrow> json_dict \<Rightarrow> miner" where
  "demo_miner i hotkey capacity =
     \<lparr>mn_id = i, mn_hotkey = hotkey, mn_subnet_node_id = Some 4, mn_peer_id = Some ''p'',
      mn_tee_endpoint = ''https://a'', mn_tls_cert_fingerprint = Some ''f'', mn_enclave_verify_key = Some ''v'',
      mn_attestation_status = Attested, mn_attestation_mode = Some ''tdx'', mn_attestation_verified_at = Some 5,
      mn_attestation_expiry = Some 90, mn_miner_hash = Some ''h'', mn_chain_class = None, mn_health = Healthy,
      mn_last_seen = Some 5, mn_capacity = capacity, mn_usage_chain_head = None, mn_usage_count = None,
      mn_usage_total_tokens = None, mn_registered_at = 1\<rparr>"

definition demo_model :: "nat \<Rightarrow> nat \<Rightarrow> miner_model" where
  "demo_model i mid =
     \<lparr>mm_id = i, mm_miner_id = mid, mm_model_id = ''m'', mm_model_version = None, mm_model_hash = Some ''x'',
      mm_tee_endpoint = None, mm_tls_cert_fingerprint = Some ''f'', mm_enclave_verify_key = Some ''v'',
      mm_e2ee_public_key = None, mm_attestation_status = Attested, mm_attestation_mode = Some ''tdx'',
      mm_attestation_verified_at = Some 5, mm_attestation_expiry = Some 90, mm_usage_chain_head = None,
      mm_usage_count = None, mm_usage_total_tokens = None, mm_receipt_cursor_row_id = None,
      mm_status = ''loaded'', mm_loaded = True, mm_last_advertised_at = 1\<rparr>"

definition demo_token :: "nat \<Rightarrow> nat \<Rightarrow> provisioned_token" where
  "demo_token i mid =
     \<lparr>pt_id = i, pt_miner_id = mid, pt_model_id = Some ''m'', pt_key_id = ''platform-default'',
      pt_encrypted_token = ''t'', pt_admin_encrypted_token = None, pt_status = TokenActive,
      pt_provisioned_at = 5, pt_expires_at = Some 100\<rparr>"

definition demo_registry :: miners_db where
  "demo_registry =
     \<lparr>miners = [demo_miner 1 ''aa'' [(''queue_depth'', JInt 3)],
                demo_miner 2 ''bb'' [(''available_concurrent_requests'', JInt 9)]],
      miner_models = [demo_model 3 1, demo_model 4 2], provisioned_tokens = [demo_token 5 1, demo_token 6 2],
      model_allowlist = [], miner_request_stats = [], md_next = 7\<rparr>"

lemmas eval_registry = demo_registry_def demo_miner_def demo_model_def demo_token_def

lemma demo_rows:
  "eligible_rows (\<lambda>mm. mm_model_id mm = ''m'' \<and> (False \<longrightarrow> mm_e2ee_public_key mm \<noteq> None)) demo_registry =
     [(demo_miner 1 ''aa'' [(''queue_depth'', JInt 3)], demo_model 3 1),
      (demo_miner 2 ''bb'' [(''available_concurrent_requests'', JInt 9)], demo_model 4 2)]"
  by (simp add: eligible_rows_def eligible_def eval_registry)

lemma demo_rep: "platform_reputation now ids demo_registry = (\<lambda>_. None)"
  by (rule ext) (simp add: platform_reputation_def recent_rows_def reputation_min_samples_def demo_registry_def)

lemmas eval_candidate =
  candidate_of_def capacity_int_def clamp_int_def candidate_key_def reputation_neutral_def eval_registry
  max_available_concurrent_requests_def max_queue_depth_def

lemma demo_candidates:
  "\<exists>c d. candidate_of (\<lambda>_. None) (demo_miner 1 ''aa'' [(''queue_depth'', JInt 3)]) (demo_model 3 1) = Inr c \<and>
    candidate_of (\<lambda>_. None) (demo_miner 2 ''bb'' [(''available_concurrent_requests'', JInt 9)]) (demo_model 4 2) = Inr d \<and>
    cd_miner_model_id c = 3 \<and> candidate_key c = (-1, 3, -1) \<and> cd_miner_model_id d = 4 \<and> candidate_key d = (-9, 0, -1) \<and>
    cd_miner_id c = 1 \<and> cd_model_id c = ''m'' \<and> cd_miner_id d = 2 \<and> cd_model_id d = ''m''"
  by (simp add: eval_candidate)

lemma demo_collect:
  "mm_id mm = 3 \<Longrightarrow> mm_id nn = 4 \<Longrightarrow> candidate_of r m mm = Inr c \<Longrightarrow> candidate_of r n nn = Inr d
    \<Longrightarrow> collect_candidates r {} [(m, mm), (n, nn)] = Inr [c, d]"
  by simp

lemma demo_ranked:
  "\<exists>c d. select_candidates rev now ''m'' False demo_registry = Inr [d, c] \<and>
     cd_miner_model_id c = 3 \<and> cd_miner_model_id d = 4 \<and>
     cd_miner_id c = 1 \<and> cd_model_id c = ''m'' \<and> cd_miner_id d = 2 \<and> cd_model_id d = ''m''"
proof -
  obtain c d where c:
    "candidate_of (\<lambda>_. None) (demo_miner 1 ''aa'' [(''queue_depth'', JInt 3)]) (demo_model 3 1) = Inr c"
    "candidate_of (\<lambda>_. None) (demo_miner 2 ''bb'' [(''available_concurrent_requests'', JInt 9)]) (demo_model 4 2) = Inr d"
    and k: "candidate_key c = (-1, 3, -1)" "candidate_key d = (-9, 0, -1)"
    and f: "cd_miner_model_id c = 3" "cd_miner_model_id d = 4"
      "cd_miner_id c = 1" "cd_model_id c = ''m''" "cd_miner_id d = 2" "cd_model_id d = ''m''"
    using demo_candidates by blast
  have "mm_id (demo_model 3 1) = 3" "mm_id (demo_model 4 2) = 4" by (simp_all add: demo_model_def)
  then have "candidates now (\<lambda>mm. mm_model_id mm = ''m'' \<and> (False \<longrightarrow> mm_e2ee_public_key mm \<noteq> None)) demo_registry
      = Inr [c, d]"
    unfolding candidates_def Let_def demo_rows demo_rep by (intro demo_collect c)
  moreover have "sort_key candidate_key (rev [c, d]) = [d, c]" using k by simp
  ultimately show ?thesis
    unfolding select_candidates_def using f by (intro exI [of _ c] exI [of _ d]) simp
qed

lemma demo_selects:
  "\<exists>cs. select_candidates rev now ''m'' False demo_registry = Inr cs \<and> map cd_miner_model_id cs = [4, 3]"
  using demo_ranked [of now] by (elim exE conjE) simp

lemma selection_exact_witness:
  "\<exists>cs. select_candidates rev 20 ''m'' False demo_registry = Inr cs \<and> sorted (map candidate_key cs)"
proof -
  obtain cs where "select_candidates rev 20 ''m'' False demo_registry = Inr cs" using demo_selects [where now = 20] by (elim exE conjE) (rule that)
  with selection_exact [OF this, where i = 4] show ?thesis by simp
qed

lemma instance_agrees_with_selection_witness:
  "\<exists>c. cd_miner_model_id c = 4 \<and> select_instance 20 4 demo_registry = Inr (Some c)"
proof -
  obtain cs where cs: "select_candidates rev 20 ''m'' False demo_registry = Inr cs"
    "map cd_miner_model_id cs = [4, 3]" using demo_selects [where now = 20] by (elim exE conjE) (rule that)
  have "4 \<in> set (map cd_miner_model_id cs)" unfolding cs(2) by simp
  then obtain c where c: "c \<in> set cs" "cd_miner_model_id c = 4" by (metis (mono_tags) imageE set_map)
  have "distinct (map mm_id (miner_models demo_registry))" "distinct (map mn_id (miners demo_registry))"
    by (simp_all add: eval_registry)
  from instance_agrees_with_selection [OF cs(1) _ this c(1)] c(2) show ?thesis by auto
qed

end
