(* ===== verification/Registry.thy ===== *)
theory Registry
  imports SelectorProps
begin

text \<open>
  The invariant of the registry: identifiers and keys are unique, a miner has at most one active token
  for a model, stored capacities are bounded, and an attested enclave shows what the shared verifier
  accepted. Every operation of the registry, of provisioning and of maintenance keeps it.
\<close>

section \<open>The invariant\<close>

definition model_key :: "miner_model \<Rightarrow> nat \<times> nat \<times> string \<times> string option" where
  "model_key mm = (mm_id mm, mm_miner_id mm, mm_model_id mm, mm_model_version mm)"

definition miner_key :: "miner \<Rightarrow> nat \<times> string" where
  "miner_key m = (mn_id m, mn_hotkey m)"

definition active_token_keys :: "miners_db \<Rightarrow> (nat \<times> string option) list" where
  "active_token_keys s =
     map (\<lambda>t. (pt_miner_id t, pt_model_id t)) (filter (\<lambda>t. pt_status t = TokenActive) (provisioned_tokens s))"

text \<open>The shape of the tables: everything the invariant says of identifiers and keys.\<close>

definition shape_ok :: "(nat \<times> string) list \<Rightarrow> (nat \<times> nat \<times> string \<times> string option) list \<Rightarrow> nat \<Rightarrow> bool" where
  "shape_ok ms mms n \<longleftrightarrow> distinct (map fst ms) \<and> distinct (map snd ms) \<and> distinct (map fst mms) \<and>
     distinct (map snd mms) \<and> (\<forall>x \<in> set mms. fst (snd x) \<in> fst ` set ms) \<and>
     (\<forall>i \<in> fst ` set ms. i < n) \<and> (\<forall>i \<in> fst ` set mms. i < n)"

definition verified_model :: "miner_settings \<Rightarrow> tee \<Rightarrow> string \<Rightarrow> miner_model \<Rightarrow> bool" where
  "verified_model cfg tee hotkey mm \<longleftrightarrow>
     (\<exists>h doc claims nonce. tee_miner_hash tee hotkey = Inr h \<and>
        (if doc_miner doc = None then allow_dev_attestation cfg \<and> ec_miner_hash claims = None
         else doc_miner doc = Some h \<and> ec_miner_hash claims = Some h) \<and>
        vf_ok (tee_verify tee doc claims nonce) \<and>
        mm_tls_cert_fingerprint mm = doc_tls_cert_fingerprint doc \<and>
        mm_enclave_verify_key mm = doc_verify_key doc \<and>
        mm_e2ee_public_key mm = vf_e2ee_key_hex (tee_verify tee doc claims nonce))"

definition models_verified :: "miner_settings \<Rightarrow> tee \<Rightarrow> (nat \<times> string) list \<Rightarrow> miner_model list \<Rightarrow> bool" where
  "models_verified cfg tee ms mms \<longleftrightarrow> (\<forall>mm \<in> set mms. mm_attestation_status mm = Attested \<longrightarrow>
     (\<exists>hotkey. (mm_miner_id mm, hotkey) \<in> set ms \<and> verified_model cfg tee hotkey mm))"

definition registry_ok :: "miner_settings \<Rightarrow> tee \<Rightarrow> miners_db \<Rightarrow> bool" where
  "registry_ok cfg tee s \<longleftrightarrow>
     shape_ok (map miner_key (miners s)) (map model_key (miner_models s)) (md_next s) \<and>
     distinct (active_token_keys s) \<and> (\<forall>m \<in> set (miners s). capacity_ok (mn_capacity m)) \<and>
     models_verified cfg tee (map miner_key (miners s)) (miner_models s)"

lemma shape_ok_mono: "shape_ok ms mms n \<Longrightarrow> n \<le> n' \<Longrightarrow> shape_ok ms mms n'"
  by (auto simp: shape_ok_def)

lemma models_verified_mono:
  "models_verified cfg tee ms mms \<Longrightarrow> set ms \<subseteq> set ms' \<Longrightarrow> models_verified cfg tee ms' mms"
  unfolding models_verified_def by blast

lemma shape_ids:
  "shape_ok (map miner_key (miners s)) (map model_key (miner_models s)) n \<Longrightarrow>
     distinct (map mn_id (miners s)) \<and> distinct (map mm_id (miner_models s)) \<and> distinct (map mn_hotkey (miners s))"
  by (simp add: shape_ok_def comp_def miner_key_def model_key_def)

lemma distinct_filter_map:
  "distinct (map f (filter P xs)) \<Longrightarrow> (\<And>x. f (g x) = f x) \<Longrightarrow> (\<And>x. P (g x) \<Longrightarrow> P x)
    \<Longrightarrow> distinct (map f (filter P (map g xs)))"
  by (induction xs) (auto split: if_splits)

section \<open>Frames\<close>

lemma put_miner_fields [simp]:
  "miner_models (put_miner m s) = miner_models s" "provisioned_tokens (put_miner m s) = provisioned_tokens s"
  "md_next (put_miner m s) = md_next s" "miners (put_miner m s) = replace_by mn_id m (miners s)"
  "model_allowlist (put_miner m s) = model_allowlist s" "miner_request_stats (put_miner m s) = miner_request_stats s"
  by (simp_all add: put_miner_def)

lemma put_model_fields [simp]:
  "miners (put_model m s) = miners s" "provisioned_tokens (put_model m s) = provisioned_tokens s"
  "md_next (put_model m s) = md_next s" "miner_models (put_model m s) = replace_by mm_id m (miner_models s)"
  by (simp_all add: put_model_def)

lemma active_token_keys_cong:
  "provisioned_tokens s = provisioned_tokens s' \<Longrightarrow> active_token_keys s = active_token_keys s'"
  by (simp add: active_token_keys_def)

lemma registry_ok_put_miner:
  assumes "registry_ok cfg tee s" "m \<in> set (miners s)" "miner_key m' = miner_key m" "capacity_ok (mn_capacity m')"
  shows "registry_ok cfg tee (put_miner m' s)"
proof -
  have d: "distinct (map mn_id (miners s))" using assms(1) shape_ids unfolding registry_ok_def by blast
  have i: "mn_id m' = mn_id m" using assms(3) by (simp add: miner_key_def)
  have k: "map miner_key (replace_by mn_id m' (miners s)) = map miner_key (miners s)"
    by (rule map_replace_by) (metis same_key_same_row [OF d] assms(2,3) i)
  show ?thesis
    using assms(1,4) k
    by (auto simp: registry_ok_def set_replace_by active_token_keys_cong [of "put_miner m' s" s] split: if_splits)
qed

lemma registry_ok_map_miners:
  assumes "registry_ok cfg tee s" "\<And>m. miner_key (f m) = miner_key m" "\<And>m. mn_capacity (f m) = mn_capacity m"
  shows "registry_ok cfg tee (miners_update (map f) s)"
  using assms by (simp add: registry_ok_def active_token_keys_def comp_def)

lemma registry_ok_tokens:
  assumes "registry_ok cfg tee s" "\<And>t. pt_miner_id (g t) = pt_miner_id t \<and> pt_model_id (g t) = pt_model_id t"
    "\<And>t. pt_status (g t) = TokenActive \<Longrightarrow> pt_status t = TokenActive"
  shows "registry_ok cfg tee (provisioned_tokens_update (map g) s)"
  using assms(1) unfolding registry_ok_def active_token_keys_def
  by (simp, intro distinct_filter_map) (use assms(2,3) in auto)

lemma registry_ok_frame:
  assumes "registry_ok cfg tee s" "miners s' = miners s" "miner_models s' = miner_models s"
    "provisioned_tokens s' = provisioned_tokens s" "md_next s \<le> md_next s'"
  shows "registry_ok cfg tee s'"
  using assms by (auto simp: registry_ok_def active_token_keys_def intro: shape_ok_mono)

section \<open>Registration\<close>

lemma registry_ok_delete:
  assumes "registry_ok cfg tee s"
  shows "registry_ok cfg tee (delete_models mid s)"
  using assms
  by (auto simp: registry_ok_def shape_ok_def delete_models_def Let_def active_token_keys_def models_verified_def
      intro: distinct_map_filter)

lemma registry_ok_add_model:
  assumes "registry_ok cfg tee s" "mid \<in> mn_id ` set (miners s)"
    "(mid, hm_model_id hm, hm_model_version hm) \<notin> snd ` model_key ` set (miner_models s)"
  shows "registry_ok cfg tee (add_model now mid hm s)"
proof -
  have "md_next s \<notin> mm_id ` set (miner_models s)"
    using assms(1) by (auto simp: registry_ok_def shape_ok_def model_key_def)
  then show ?thesis
    using assms
    by (auto simp: registry_ok_def shape_ok_def add_model_def new_model_def active_token_keys_def
        models_verified_def model_key_def miner_key_def image_image less_Suc_eq)
qed

lemma add_models_run:
  assumes "registry_ok cfg tee s" "mid \<in> mn_id ` set (miners s)"
    "\<And>x. (mid, x) \<in> snd ` model_key ` set (miner_models s) \<Longrightarrow> x \<in> seen"
  shows "\<exists>s'. add_models now mid seen hms s = (Inr (), s') \<and> registry_ok cfg tee s' \<and> miners s' = miners s \<and>
    provisioned_tokens s' = provisioned_tokens s \<and>
    (\<exists>new. miner_models s' = miner_models s @ new \<and>
       (\<forall>mm \<in> set new. mm_miner_id mm = mid \<and> mm_attestation_status mm = Pending) \<and>
       ((\<exists>hm \<in> set hms. (hm_model_id hm, hm_model_version hm) \<notin> seen) \<longrightarrow> new \<noteq> []))"
  using assms
proof (induction hms arbitrary: s seen)
  case Nil
  then show ?case by simp
next
  case (Cons hm hms)
  show ?case
  proof (cases "(hm_model_id hm, hm_model_version hm) \<in> seen")
    case True
    from Cons.IH [OF Cons.prems] True show ?thesis by auto
  next
    case False
    let ?t = "add_model now mid hm s"
    have t: "miner_models ?t = miner_models s @ [new_model now (md_next s) mid hm]" "miners ?t = miners s"
      "provisioned_tokens ?t = provisioned_tokens s"
      by (simp_all add: add_model_def)
    have "registry_ok cfg tee ?t"
      using Cons.prems False by (intro registry_ok_add_model) auto
    moreover have "mid \<in> mn_id ` set (miners ?t)" using Cons.prems(2) by (simp add: t)
    moreover have "(mid, x) \<in> snd ` model_key ` set (miner_models ?t) \<Longrightarrow>
        x \<in> insert (hm_model_id hm, hm_model_version hm) seen" for x
      using Cons.prems(3) [of x] by (auto simp: t new_model_def model_key_def)
    ultimately obtain s' new where s': "add_models now mid (insert (hm_model_id hm, hm_model_version hm) seen) hms ?t
        = (Inr (), s')" "registry_ok cfg tee s'" "miners s' = miners ?t" "provisioned_tokens s' = provisioned_tokens ?t"
      "miner_models s' = miner_models ?t @ new"
      "\<forall>mm \<in> set new. mm_miner_id mm = mid \<and> mm_attestation_status mm = Pending"
      using Cons.IH by metis
    have "miner_models s' = miner_models s @ (new_model now (md_next s) mid hm # new)" by (simp add: s'(5) t)
    then show ?thesis
      using s' False t by (auto simp: then_do_def bind_def Let_def new_model_def)
  qed
qed

lemma lower_char_idem: "lower_char (lower_char c) = lower_char c"
  by (auto simp: lower_char_def is_upper_def code_of_def)

lemma lower_idem [simp]: "lower (lower s) = lower s"
  by (simp add: lower_def lower_char_idem)

lemma replace_models_run:
  assumes "registry_ok cfg tee s" "mid \<in> mn_id ` set (miners s)"
  shows "\<exists>s'. replace_models now mid hms s = (Inr (), s') \<and> registry_ok cfg tee s' \<and> miners s' = miners s \<and>
    (\<forall>mm \<in> set (miner_models s'). mm_miner_id mm = mid \<longrightarrow> mm_attestation_status mm = Pending) \<and>
    (hms \<noteq> [] \<longrightarrow> (\<exists>mm \<in> set (miner_models s'). mm_miner_id mm = mid))"
proof -
  let ?t = "delete_models mid s"
  have t: "miners ?t = miners s" "miner_models ?t = filter (\<lambda>mm. mm_miner_id mm \<noteq> mid) (miner_models s)"
    by (simp_all add: delete_models_def Let_def)
  have "mid \<in> mn_id ` set (miners ?t)" using assms(2) by (simp add: t)
  moreover have "(mid, x) \<in> snd ` model_key ` set (miner_models ?t) \<Longrightarrow> x \<in> {}" for x
    by (auto simp: t model_key_def)
  ultimately obtain s' new where s': "add_models now mid {} hms ?t = (Inr (), s')" "registry_ok cfg tee s'"
    "miners s' = miners ?t" "miner_models s' = miner_models ?t @ new"
    "\<forall>mm \<in> set new. mm_miner_id mm = mid \<and> mm_attestation_status mm = Pending"
    "(\<exists>hm \<in> set hms. (hm_model_id hm, hm_model_version hm) \<notin> {}) \<longrightarrow> new \<noteq> []"
    using add_models_run [OF registry_ok_delete [OF assms(1)], of mid mid "{}" now hms] by metis
  have "replace_models now mid hms s = (Inr (), s')"
    unfolding replace_models_def then_Inr [OF modify_run] by (rule s'(1))
  moreover have "\<forall>mm \<in> set (miner_models s'). mm_miner_id mm = mid \<longrightarrow> mm_attestation_status mm = Pending"
    using s'(5) by (auto simp: s'(4) t)
  moreover have "hms \<noteq> [] \<longrightarrow> (\<exists>mm \<in> set (miner_models s'). mm_miner_id mm = mid)"
    using s'(5,6) by (cases hms; cases new) (auto simp: s'(4))
  ultimately show ?thesis using s'(2,3) t(1) by metis
qed

lemma revoke_active_tokens_ok:
  "registry_ok cfg tee s \<Longrightarrow> registry_ok cfg tee (snd (revoke_active_tokens mid s))"
  unfolding revoke_active_tokens_def modify_run snd_conv
  by (rule registry_ok_tokens) (auto split: if_splits)

lemma revoke_active_tokens_fields:
  "revoke_active_tokens mid s = (Inr (), snd (revoke_active_tokens mid s))"
  "miners (snd (revoke_active_tokens mid s)) = miners s"
  by (simp_all add: revoke_active_tokens_def)

text \<open>The row a registration writes: a new miner, or the known one refreshed.\<close>

lemma known_miner_row:
  assumes "registry_ok cfg tee s" "old \<in> set (miners s)" "miner_key m = miner_key old"
    "mn_capacity m = mn_capacity old"
  shows "registry_ok cfg tee (put_miner m s) \<and> mn_id m \<in> mn_id ` set (miners (put_miner m s))"
proof -
  have i: "mn_id m = mn_id old" using assms(3) by (simp add: miner_key_def)
  have "capacity_ok (mn_capacity m)" using assms(1,2,4) by (simp add: registry_ok_def)
  with assms show ?thesis
    by (auto intro!: registry_ok_put_miner simp: set_replace_by image_iff i)
qed

lemma new_miner_row:
  assumes "registry_ok cfg tee s" "lower (sr_hotkey reg) \<notin> mn_hotkey ` set (miners s)"
  shows "registry_ok cfg tee (add_miner (new_miner now (md_next s) reg nid cls h) s)"
proof -
  let ?t = "add_miner (new_miner now (md_next s) reg nid cls h) s"
  have "md_next s \<notin> mn_id ` set (miners s)"
    using assms(1) by (auto simp: registry_ok_def shape_ok_def miner_key_def)
  with assms have "shape_ok (map miner_key (miners ?t)) (map model_key (miner_models ?t)) (md_next ?t)"
    by (auto simp: registry_ok_def shape_ok_def add_miner_def new_miner_def miner_key_def image_image less_Suc_eq)
  moreover have "models_verified cfg tee (map miner_key (miners ?t)) (miner_models ?t)"
    using assms(1) by (auto simp: registry_ok_def add_miner_def intro: models_verified_mono)
  ultimately show ?thesis
    using assms(1) by (auto simp: registry_ok_def add_miner_def new_miner_def active_token_keys_def capacity_ok_Nil)
qed

lemma renewed_miner_key:
  "miner_key (renewed_miner now reg nid cls h old) = miner_key old"
  "mn_capacity (renewed_miner now reg nid cls h old) = mn_capacity old"
  by (simp_all add: renewed_miner_def refreshed_miner_def miner_key_def Let_def)

lemma write_registration_run:
  assumes "registry_ok cfg tee s"
    "scalar_one_or_none (filter (\<lambda>m. mn_hotkey m = lower (sr_hotkey reg)) (miners s)) = Inr found"
  shows "\<exists>m t. write_registration now reg nid cls h found s = (Inr m, t) \<and> registry_ok cfg tee t \<and>
    mn_hotkey m = lower (sr_hotkey reg) \<and> m \<in> set (miners t)"
proof (cases found)
  case None
  have "lower (sr_hotkey reg) \<notin> mn_hotkey ` set (miners s)"
    using scalar_filter_absent [OF assms(2) [unfolded None]] by fastforce
  from new_miner_row [OF assms(1) this, of now nid cls h] show ?thesis
    unfolding write_registration_def None option.case bind_Inr [OF gets_run] Let_def then_Inr [OF modify_run] ret_run
    by (intro exI conjI) (auto simp: add_miner_def new_miner_def)
next
  case (Some old)
  let ?m = "renewed_miner now reg nid cls h old"
  let ?t = "if starts_over reg old then snd (revoke_active_tokens (mn_id old) s) else s"
  have o: "old \<in> set (miners s)" "mn_hotkey old = lower (sr_hotkey reg)"
    using scalar_filter_member [OF assms(2) [unfolded Some]] by blast+
  have run: "(if starts_over reg old then revoke_active_tokens (mn_id old) else ret ()) s = (Inr (), ?t)"
    using revoke_active_tokens_fields by simp
  have t: "registry_ok cfg tee ?t" "old \<in> set (miners ?t)"
    using revoke_active_tokens_ok [OF assms(1)] assms(1) o(1) revoke_active_tokens_fields by simp_all
  have "?m \<in> set (miners (put_miner ?m ?t))" "mn_hotkey ?m = lower (sr_hotkey reg)"
    using t(2) renewed_miner_key(1) [of now reg nid cls h old] o(2)
    by (auto simp: set_replace_by image_iff miner_key_def)
  moreover have "registry_ok cfg tee (put_miner ?m ?t)"
    using known_miner_row [OF t renewed_miner_key] by blast
  ultimately show ?thesis
    unfolding write_registration_def Some option.case Let_def then_Inr [where m = "if starts_over reg old then revoke_active_tokens (mn_id old) else ret ()", OF run] then_Inr [OF modify_run] ret_run
    by blast
qed

lemma upsert_run:
  assumes "registry_ok cfg tee s"
  shows "\<exists>m s'. upsert_from_registration now reg nid cls h s = (Inr m, s') \<and> registry_ok cfg tee s' \<and>
    mn_hotkey m = lower (sr_hotkey reg) \<and> m \<in> set (miners s') \<and>
    (\<forall>mm \<in> set (miner_models s'). mm_miner_id mm = mn_id m \<longrightarrow> mm_attestation_status mm = Pending) \<and>
    (sr_hosted_models reg \<noteq> [] \<longrightarrow> (\<exists>mm \<in> set (miner_models s'). mm_miner_id mm = mn_id m))"
proof -
  have d: "distinct (map mn_hotkey (miners s))" using assms shape_ids unfolding registry_ok_def by blast
  obtain found where found: "get_by_hotkey (lower (sr_hotkey reg)) s = (Inr found, s)"
    "scalar_one_or_none (filter (\<lambda>m. mn_hotkey m = lower (sr_hotkey reg)) (miners s)) = Inr found"
    using scalar_unique [OF d, of "\<lambda>m. mn_hotkey m = lower (sr_hotkey reg)"]
    by (auto simp: get_by_hotkey_def select_one_or_none_def)
  obtain m t where t: "write_registration now reg nid cls h found s = (Inr m, t)" "registry_ok cfg tee t"
    "mn_hotkey m = lower (sr_hotkey reg)" "m \<in> set (miners t)"
    using write_registration_run [OF assms found(2)] by blast
  obtain s' where s': "replace_models now (mn_id m) (sr_hosted_models reg) t = (Inr (), s')" "registry_ok cfg tee s'"
    "miners s' = miners t"
    "\<forall>mm \<in> set (miner_models s'). mm_miner_id mm = mn_id m \<longrightarrow> mm_attestation_status mm = Pending"
    "sr_hosted_models reg \<noteq> [] \<longrightarrow> (\<exists>mm \<in> set (miner_models s'). mm_miner_id mm = mn_id m)"
    using replace_models_run [OF t(2), of "mn_id m" now "sr_hosted_models reg"] t(4) by blast
  have "upsert_from_registration now reg nid cls h s = (Inr m, s')"
    unfolding upsert_from_registration_def
    by (simp only: bind_Inr [where m = "get_by_hotkey (lower (sr_hotkey reg))", OF found(1)]
        bind_Inr [where m = "write_registration now reg nid cls h found", OF t(1)] then_Inr [where m = "replace_models now (mn_id m) (sr_hosted_models reg)", OF s'(1)] ret_run)
  with s' t show ?thesis by metis
qed

section \<open>Heartbeats and maintenance\<close>

lemma heartbeat_ok:
  assumes "registry_ok cfg tee s" "m \<in> set (miners s)" "record_heartbeat now m h capacity s = (Inr m', s')"
  shows "registry_ok cfg tee s'"
proof -
  let ?m = "\<lambda>c. m\<lparr>mn_last_seen := Some now, mn_health := h, mn_capacity := c\<rparr>"
  have "\<exists>c. m' = ?m c \<and> s' = put_miner (?m c) s \<and> (c = mn_capacity m \<or> sanitize_capacity capacity = Inr c)"
  proof (cases "capacity = []")
    case True
    then have "record_heartbeat now m h capacity s =
        (Inr (m\<lparr>mn_last_seen := Some now, mn_health := h\<rparr>), put_miner (m\<lparr>mn_last_seen := Some now, mn_health := h\<rparr>) s)"
      by (simp add: record_heartbeat_def bind_def then_do_def Let_def)
    then have "m' = m\<lparr>mn_last_seen := Some now, mn_health := h\<rparr>" "s' = put_miner (m\<lparr>mn_last_seen := Some now, mn_health := h\<rparr>) s"
      using assms(3) by simp_all
    then show ?thesis by (intro exI [of _ "mn_capacity m"]) simp
  next
    case False
    then obtain c where c: "sanitize_capacity capacity = Inr c"
      using assms(3) by (cases "sanitize_capacity capacity")
        (simp_all add: record_heartbeat_def bind_def then_do_def Let_def of_result_def)
    with False have "record_heartbeat now m h capacity s = (Inr (?m c), put_miner (?m c) s)"
      by (simp add: record_heartbeat_def bind_def then_do_def Let_def of_result_def)
    then have "m' = ?m c" "s' = put_miner (?m c) s" using assms(3) by simp_all
    then show ?thesis using c by blast
  qed
  then obtain c where c: "m' = ?m c" "s' = put_miner (?m c) s" "c = mn_capacity m \<or> sanitize_capacity capacity = Inr c"
    by blast
  have "capacity_ok c" using c(3) assms(1,2) sanitize_capacity_ok by (auto simp: registry_ok_def)
  then show ?thesis
    unfolding c(2) by (intro registry_ok_put_miner [OF assms(1,2)]) (simp_all add: c(1) miner_key_def)
qed

lemma change_miners_ok:
  assumes "registry_ok cfg tee s" "\<And>m. miner_key (f m) = miner_key m" "\<And>m. mn_capacity (f m) = mn_capacity m"
  shows "registry_ok cfg tee (snd (change_miners p f s))"
  unfolding change_miners_def snd_conv using assms by (intro registry_ok_map_miners) auto

lemma maintain_miners_ok:
  assumes "registry_ok cfg tee s"
  shows "registry_ok cfg tee (maintain_miners cfg' now s)"
proof -
  have tokens: "registry_ok cfg tee t \<Longrightarrow> registry_ok cfg tee (snd (expire_tokens now t))" for t
    unfolding expire_tokens_def snd_conv by (rule registry_ok_tokens) (auto simp: token_expired_def split: if_splits)
  show ?thesis
    unfolding maintain_miners_def deregister_stale_def expire_health_def flag_near_expiry_def Let_def
    by (intro change_miners_ok tokens assms) (simp_all add: miner_key_def)
qed

lemma mark_stale_ok:
  assumes "registry_ok cfg tee s"
  shows "registry_ok cfg tee (mark_stale mid s)"
proof (cases "find (\<lambda>m. mn_id m = mid) (miners s)")
  case (Some m)
  then have "m \<in> set (miners s)" by (metis find_Some_iff nth_mem)
  then show ?thesis
    using assms registry_ok_put_miner [of cfg tee s m "m\<lparr>mn_attestation_status := Stale\<rparr>"]
    by (simp add: mark_stale_def Some miner_key_def registry_ok_def del: put_miner_fields)
qed (simp add: mark_stale_def assms)

section \<open>Provisioning\<close>

lemma registry_ok_put_model:
  assumes "registry_ok cfg tee s" "model_key mm \<in> set (map model_key (miner_models s))"
    "mm_attestation_status mm = Attested \<Longrightarrow>
      \<exists>hotkey. (mm_miner_id mm, hotkey) \<in> set (map miner_key (miners s)) \<and> verified_model cfg tee hotkey mm"
  shows "registry_ok cfg tee (put_model mm s) \<and>
    map model_key (miner_models (put_model mm s)) = map model_key (miner_models s)"
proof -
  have d: "distinct (map mm_id (miner_models s))" using assms(1) shape_ids unfolding registry_ok_def by blast
  obtain q where q: "q \<in> set (miner_models s)" "model_key mm = model_key q" using assms(2) by auto
  then have i: "mm_id q = mm_id mm" by (simp add: model_key_def)
  have k: "map model_key (replace_by mm_id mm (miner_models s)) = map model_key (miner_models s)"
    by (rule map_replace_by) (metis same_key_same_row [OF d] q i)
  moreover have "models_verified cfg tee (map miner_key (miners s)) (replace_by mm_id mm (miner_models s))"
    using assms(1,3) by (auto simp: registry_ok_def models_verified_def set_replace_by split: if_splits)
  ultimately show ?thesis
    using assms(1) by (simp add: registry_ok_def active_token_keys_cong [of "put_model mm s" s])
qed

definition keyed ::
    "miner_settings \<Rightarrow> tee \<Rightarrow> (nat \<times> string) list \<Rightarrow> (nat \<times> nat \<times> string \<times> string option) list \<Rightarrow> miners_db \<Rightarrow> bool" where
  "keyed cfg tee ms mms s \<longleftrightarrow> registry_ok cfg tee s \<and> map miner_key (miners s) = ms \<and>
     map model_key (miner_models s) = mms"

lemma keyed_put_miner:
  assumes "keyed cfg tee ms mms s" "miner_key m \<in> set ms" "capacity_ok (mn_capacity m)"
  shows "keyed cfg tee ms mms (put_miner m s)"
proof -
  obtain q where q: "q \<in> set (miners s)" "miner_key m = miner_key q" using assms(1,2) by (auto simp: keyed_def)
  have d: "distinct (map mn_id (miners s))" using assms(1) shape_ids unfolding keyed_def registry_ok_def by blast
  have "mn_id q = mn_id m" using q(2) by (simp add: miner_key_def)
  then have "map miner_key (replace_by mn_id m (miners s)) = map miner_key (miners s)"
    by (intro map_replace_by) (metis same_key_same_row [OF d] q)
  then show ?thesis
    using assms(1,3) registry_ok_put_miner [OF _ q, of cfg tee] by (simp add: keyed_def)
qed

lemma keyed_put_model:
  assumes "keyed cfg tee ms mms s" "model_key mm \<in> set mms" "(mm_miner_id mm, hotkey) \<in> set ms"
    "verified_model cfg tee hotkey mm"
  shows "keyed cfg tee ms mms (put_model mm s)"
  using registry_ok_put_model [of cfg tee s mm] assms unfolding keyed_def by auto

lemma attest_model_verified:
  assumes "attest_model cfg tee i h endpoint al = Inr (doc, result)" "tee_miner_hash tee hotkey = Inr h"
  shows "verified_model cfg tee hotkey (attested_model now cfg doc result mm)"
proof -
  let ?n = "fst (tee_draw tee i)"
  let ?c = "expected_claims_for cfg (if doc_miner doc \<noteq> None then Some h else None) al"
  have a: "result = tee_verify tee doc ?c ?n" "vf_ok result"
    "doc_miner doc = None \<longrightarrow> allow_dev_attestation cfg" "doc_miner doc \<noteq> None \<longrightarrow> doc_miner doc = Some h"
    using assms(1) by (auto simp: attest_model_def Let_def split: if_splits sum.splits)
  show ?thesis
    unfolding verified_model_def
    by (rule exI [of _ h], rule exI [of _ doc], rule exI [of _ ?c], rule exI [of _ ?n])
      (use a assms(2) in \<open>auto simp: attested_model_def expected_claims_for_def\<close>)
qed

lemma maybe_start_engine_keeps:
  "model_key (maybe_start_engine now tee endpoint token mm) = model_key mm"
  "mm_miner_id (maybe_start_engine now tee endpoint token mm) = mm_miner_id mm"
  "verified_model cfg tee' hotkey (maybe_start_engine now tee endpoint token mm) = verified_model cfg tee' hotkey mm"
  by (simp_all add: maybe_start_engine_def Let_def model_key_def verified_model_def)

lemma superseded_fields:
  "pt_miner_id (superseded mid model t) = pt_miner_id t" "pt_model_id (superseded mid model t) = pt_model_id t"
  "pt_status (superseded mid model t) = TokenActive \<longleftrightarrow>
     pt_status t = TokenActive \<and> (pt_miner_id t, pt_model_id t) \<noteq> (mid, Some model)"
  by (auto simp: superseded_def)

lemma keyed_supersede:
  assumes "keyed cfg tee ms mms s"
  shows "keyed cfg tee ms mms (supersede_active_tokens mid model s) \<and>
    (mid, Some model) \<notin> set (active_token_keys (supersede_active_tokens mid model s))"
proof -
  have "registry_ok cfg tee (supersede_active_tokens mid model s)"
    unfolding supersede_active_tokens_def
    by (rule registry_ok_tokens) (use assms in \<open>simp_all add: keyed_def superseded_fields\<close>)
  moreover have "miners (supersede_active_tokens mid model s) = miners s"
    "miner_models (supersede_active_tokens mid model s) = miner_models s"
    by (simp_all add: supersede_active_tokens_def)
  ultimately have "keyed cfg tee ms mms (supersede_active_tokens mid model s)"
    using assms by (simp add: keyed_def)
  moreover have "(mid, Some model) \<notin> set (active_token_keys (supersede_active_tokens mid model s))"
    by (auto simp: supersede_active_tokens_def active_token_keys_def filter_map comp_def superseded_fields)
  ultimately show ?thesis by blast
qed

lemma keyed_add_token:
  assumes "keyed cfg tee ms mms s" "(mid, Some model) \<notin> set (active_token_keys s)"
  shows "keyed cfg tee ms mms (add_token now cfg' mid model kid e a s)"
  using assms
  by (auto simp: keyed_def registry_ok_def add_token_def active_token_keys_def intro: shape_ok_mono)

lemma keyed_sync:
  "keyed cfg tee ms mms s \<Longrightarrow> keyed cfg tee ms mms (sync_observed_model_allowlist model version hash s)"
  unfolding keyed_def sync_observed_model_allowlist_def add_allowed_def
  by (auto intro: registry_ok_frame)

lemma provision_model_keeps:
  assumes "model_key mm \<in> set mms" "(mn_id miner, hotkey) \<in> set ms" "mm_miner_id mm = mn_id miner"
    "tee_miner_hash tee hotkey = Inr h"
  shows "triple (keyed cfg tee ms mms) (provision_model cfg tee now miner mm h) (\<lambda>_. keyed cfg tee ms mms)
    (keyed cfg tee ms mms)"
proof -
  let ?K = "keyed cfg tee ms mms"
  let ?free = "\<lambda>s. (mn_id miner, Some (mm_model_id mm)) \<notin> set (active_token_keys s)"
  obtain nonce admin inf where draw: "tee_draw tee (mm_id mm) = (nonce, admin, inf)" by (metis prod_cases3)
  have put: "triple ?K (modify (put_model x)) (\<lambda>_. ?K) ?K"
    if "model_key x = model_key mm" "verified_model cfg tee hotkey x" for x
    by (rule triple_modify, rule keyed_put_model)
      (use that assms in \<open>auto simp: model_key_def\<close>)
  show ?thesis
    unfolding provision_model_def Let_def draw prod.case
    apply (rule triple_bind [where R = "\<lambda>_. ?K"], rule triple_gets, assumption)
    apply (rule triple_bind [where R = "\<lambda>x s. ?K s \<and> verified_model cfg tee hotkey (attested_model now cfg (fst x) (snd x) mm)"])
     apply (rule triple_of_result)
      apply (metis attest_model_verified assms(4) prod.collapse)
     apply assumption
    subgoal for allowlist x
      apply (cases x, simp only: prod.case fst_conv snd_conv)
      apply (rule triple_assume)
      subgoal for doc result s0
        apply (rule triple_conseq [where P' = ?K and Q' = "\<lambda>_. ?K" and E' = ?K])
           apply (rule triple_bind [where R = "\<lambda>_. ?K"], rule triple_of_result, assumption, assumption)
           apply (rule triple_then [where R = ?K], rule triple_guard, assumption, assumption)
           apply (rule triple_then [where R = "\<lambda>s. ?K s \<and> ?free s"], rule triple_modify, erule keyed_supersede)
           apply (rule triple_then [where R = ?K], rule triple_modify, rule keyed_add_token, blast, blast)
           apply (rule triple_then [where R = ?K], rule put, simp add: attested_model_def model_key_def, blast)
           apply (rule triple_then [where R = ?K], rule triple_modify, erule keyed_sync)
           apply (rule triple_then [where R = ?K], rule put)
             apply (simp add: maybe_start_engine_keeps, simp add: attested_model_def model_key_def)
            apply (simp add: maybe_start_engine_keeps)
           apply (rule triple_ret, assumption)
          apply auto
        done
      done
    done
qed

lemma triple_try:
  assumes "triple P (provision_model cfg tee now miner mm h) (\<lambda>_. P) P"
  shows "triple P (try_model cfg tee now miner h mm) (\<lambda>_. P) P"
  unfolding triple_def
proof (intro allI impI)
  fix s assume p: "P s"
  obtain r s' where r: "provision_model cfg tee now miner mm h s = (r, s')" by fastforce
  have "P s'" using tripleD [OF assms p] tripleD_err [OF assms p] r by (cases r) auto
  then show "case try_model cfg tee now miner h mm s of (Inl e, s') \<Rightarrow> P s' | (Inr x, s') \<Rightarrow> P s'"
    by (cases r) (simp_all add: try_model_def r)
qed

lemma try_models_keeps:
  assumes "(mn_id miner, hotkey) \<in> set ms" "tee_miner_hash tee hotkey = Inr h"
    "\<And>mm. mm \<in> set todo \<Longrightarrow> model_key mm \<in> set mms \<and> mm_miner_id mm = mn_id miner"
  shows "triple (keyed cfg tee ms mms) (try_models cfg tee now miner h todo) (\<lambda>_. keyed cfg tee ms mms)
    (keyed cfg tee ms mms)"
  using assms(3)
proof (induction todo)
  case Nil
  show ?case unfolding try_models.simps by (rule triple_ret)
next
  case (Cons mm todo)
  have t: "triple (keyed cfg tee ms mms) (provision_model cfg tee now miner mm h) (\<lambda>_. keyed cfg tee ms mms)
      (keyed cfg tee ms mms)"
    by (rule provision_model_keeps) (use assms(1,2) Cons.prems in auto)
  have one: "triple (keyed cfg tee ms mms) (try_model cfg tee now miner h mm) (\<lambda>_. keyed cfg tee ms mms)
      (keyed cfg tee ms mms)"
    by (rule triple_try [OF t])
  have rest: "triple (keyed cfg tee ms mms) (try_models cfg tee now miner h todo) (\<lambda>_. keyed cfg tee ms mms)
      (keyed cfg tee ms mms)"
    using Cons.IH Cons.prems by simp
  show ?case
    unfolding try_models.simps
    by (rule triple_bind [OF one], rule triple_bind [OF rest], rule triple_ret)
qed

lemma run_provision_keeps:
  assumes "miner_key miner = (mid, hotkey)" "(mid, hotkey) \<in> set ms" "tee_miner_hash tee hotkey = Inr h"
    "capacity_ok (mn_capacity miner)"
  shows "triple (keyed cfg tee ms mms) (run_provision cfg tee now miner h) (\<lambda>_. keyed cfg tee ms mms)
    (keyed cfg tee ms mms)"
proof -
  let ?K = "keyed cfg tee ms mms"
  have i: "mn_id miner = mid" "mn_hotkey miner = hotkey" using assms(1) by (simp_all add: miner_key_def)
  have tries: "triple ?K (try_models cfg tee now miner h models) (\<lambda>_. ?K) ?K"
    if "\<forall>mm \<in> set models. model_key mm \<in> set mms \<and> mm_miner_id mm = mn_id miner" for models
    by (rule try_models_keeps [of _ hotkey]) (use assms(2,3) that i in auto)
  have put: "?K s \<Longrightarrow> ?K (put_miner (attested_miner p miner) s)" for p s
    by (rule keyed_put_miner) (use assms i in \<open>simp_all add: attested_miner_def miner_key_def\<close>)
  show ?thesis
    unfolding run_provision_def
    apply (rule triple_bind [where R = "\<lambda>models s. ?K s \<and>
        (\<forall>mm \<in> set models. model_key mm \<in> set mms \<and> mm_miner_id mm = mn_id miner)"])
     apply (rule triple_gets, force simp: keyed_def)
    apply (rule triple_assume)
    subgoal for models s0
      apply (rule triple_conseq [where P' = ?K and Q' = "\<lambda>_. ?K" and E' = ?K])
         apply (rule triple_then [where R = ?K], rule triple_guard, assumption, assumption)
         apply (rule triple_bind [where R = "\<lambda>_. ?K"], rule tries, blast)
         apply (rule triple_then [where R = ?K], rule triple_guard, assumption, assumption)
         apply (rule triple_modify, erule put)
        apply auto
      done
    done
qed

end
