(* ===== verification/RegistryProps.thy ===== *)
theory RegistryProps
  imports Registry
begin

text \<open>
  The registry as a whole: the steps that change it (registrations, heartbeats, provisioning,
  maintenance, a pin mismatch) keep its invariant, and what follows for routing. An enclave that is
  offered was verified by the shared verifier and bound to its miner; a registration takes a miner out
  of service until it is provisioned again; a failed re-attestation does not.
\<close>

section \<open>Steps\<close>

lemma provision_miner_ok:
  assumes "registry_ok cfg tee s"
  shows "case provision_miner cfg tee now mid s of (r, s') \<Rightarrow>
    registry_ok cfg tee s' \<and> map miner_key (miners s') = map miner_key (miners s)"
proof -
  let ?ms = "map miner_key (miners s)" and ?mms = "map model_key (miner_models s)"
  let ?K = "keyed cfg tee ?ms ?mms"
  have k: "?K s" using assms by (simp add: keyed_def)
  consider (stop) e where "provision_miner cfg tee now mid s = (Inl e, s)"
    | (run) m h where "m \<in> set (miners s)" "tee_miner_hash tee (mn_hotkey m) = Inr h"
        "provision_miner cfg tee now mid s =
          (let miner = m\<lparr>mn_attestation_status := Verifying\<rparr>
           in case run_provision cfg tee now miner h (put_miner miner s) of
                (Inr u, s') \<Rightarrow> (Inr u, s')
              | (Inl e, s') \<Rightarrow> if isolated e then (Inl provision_error,
                   put_miner (miner\<lparr>mn_attestation_status := AttestationFailed\<rparr>) s') else (Inl e, s'))"
  proof (cases "find (\<lambda>m. mn_id m = mid) (miners s)")
    case None
    then show ?thesis by (intro stop) (simp add: provision_miner_def get_miner_def bind_def)
  next
    case (Some m)
    then have m: "m \<in> set (miners s)" by (metis find_Some_iff nth_mem)
    show ?thesis
    proof (cases "mn_hotkey m \<noteq> []")
      case False
      then show ?thesis
        by (intro stop) (simp add: provision_miner_def get_miner_def bind_def then_do_def Some)
    next
      case True
      show ?thesis
      proof (cases "tee_miner_hash tee (mn_hotkey m)")
        case (Inl e)
        then show ?thesis using True
          by (intro stop) (simp add: provision_miner_def get_miner_def bind_def then_do_def of_result_def Some)
      next
        case (Inr h)
        then show ?thesis using True m
          by (intro run [of m h])
            (simp_all add: provision_miner_def get_miner_def bind_def then_do_def of_result_def Some Let_def)
      qed
    qed
  qed
  then show ?thesis
  proof cases
    case stop
    then show ?thesis using assms by simp
  next
    case run
    let ?m = "m\<lparr>mn_attestation_status := Verifying\<rparr>"
    have cap: "capacity_ok (mn_capacity m)" using assms run(1) by (simp add: registry_ok_def)
    have key: "miner_key ?m = (mn_id m, mn_hotkey m)" "(mn_id m, mn_hotkey m) \<in> set ?ms"
      using run(1) by (auto simp: miner_key_def)
    have start: "?K (put_miner ?m s)" by (rule keyed_put_miner [OF k]) (use key cap in simp_all)
    have t: "triple ?K (run_provision cfg tee now ?m h) (\<lambda>_. ?K) ?K"
      by (rule run_provision_keeps [OF key run(2)]) (use cap in simp)
    obtain r s' where r: "run_provision cfg tee now ?m h (put_miner ?m s) = (r, s')" by fastforce
    have s': "?K s'" using tripleD [OF t start] tripleD_err [OF t start] r by (cases r) auto
    have "?K (put_miner (?m\<lparr>mn_attestation_status := AttestationFailed\<rparr>) s')"
      by (rule keyed_put_miner [OF s']) (use key cap in \<open>simp_all add: miner_key_def\<close>)
    with s' show ?thesis
      by (cases r) (simp_all add: run(3) r keyed_def Let_def del: put_miner_fields)
  qed
qed

lemma provision_one_ok:
  assumes "registry_ok cfg tee s"
  shows "registry_ok cfg tee (snd (provision_one cfg tee now mid s))"
  using provision_miner_ok [OF assms, of now mid] assms
  by (auto simp: provision_one_def split: prod.splits sum.splits)

inductive registry_step :: "miner_settings \<Rightarrow> tee \<Rightarrow> miners_db \<Rightarrow> miners_db \<Rightarrow> bool" for cfg tee where
  register: "upsert_from_registration now reg nid cls h s = (r, s') \<Longrightarrow> registry_step cfg tee s s'"
| heartbeat: "m \<in> set (miners s) \<Longrightarrow> record_heartbeat now m h capacity s = (Inr m', s') \<Longrightarrow> registry_step cfg tee s s'"
| provision: "registry_step cfg tee s (snd (provision_one cfg tee now mid s))"
| maintain: "registry_step cfg tee s (maintain_miners cfg now s)"
| pin_mismatch: "registry_step cfg tee s (mark_stale mid s)"
| attempt: "registry_step cfg tee s (s\<lparr>miner_request_stats := miner_request_stats s @ [row]\<rparr>)"
| seed: "seed_default_model_allowlist s = (Inr (), s') \<Longrightarrow> registry_step cfg tee s s'"

lemma registry_step_ok:
  assumes "registry_ok cfg tee s" "registry_step cfg tee s s'"
  shows "registry_ok cfg tee s'"
  using assms(2)
proof cases
  case (register now reg nid cls h r)
  then show ?thesis using upsert_run [OF assms(1), of now reg nid cls h] by auto
next
  case (heartbeat m now h capacity m')
  then show ?thesis using heartbeat_ok [OF assms(1)] by blast
next
  case (provision now mid)
  then show ?thesis using provision_one_ok [OF assms(1)] by simp
next
  case (maintain now)
  then show ?thesis using maintain_miners_ok [OF assms(1)] by simp
next
  case (pin_mismatch mid)
  then show ?thesis using mark_stale_ok [OF assms(1)] by simp
next
  case (attempt row)
  show ?thesis unfolding attempt by (rule registry_ok_frame [OF assms(1)]) simp_all
next
  case seed
  then have "miners s' = miners s" "miner_models s' = miner_models s" "provisioned_tokens s' = provisioned_tokens s"
    "md_next s \<le> md_next s'"
    by (auto simp: seed_default_model_allowlist_def bind_def select_one_or_none_def add_allowed_def
        split: sum.splits if_splits)
  then show ?thesis by (rule registry_ok_frame [OF assms(1)])
qed

interpretation registry: step_invariant "registry_step cfg tee" "registry_ok cfg tee" for cfg tee
  by unfold_locales (rule registry_step_ok)

lemma candidate_of_ids:
  assumes "candidate_of r m mm = Inr c"
  shows "cd_miner_id c = mn_id m \<and> cd_miner_model_id c = mm_id mm \<and> cd_hotkey c = mn_hotkey m \<and>
    cd_e2ee_public_key c = mm_e2ee_public_key mm"
  using assms unfolding candidate_of_def by (clarsimp split: sum.splits)

section \<open>Properties\<close>

text \<open>C25: What is offered was verified. In every reachable registry, selection succeeds and each
  candidate is an enclave whose TLS fingerprint, verification key and E2EE key are those of an
  attestation document that the shared verifier accepted, and that names the candidate's own miner
  (an unbound document passes only under the development setting). No two miners share a hotkey, and a
  miner has at most one active token for a model.\<close>

theorem offered_enclaves_verified:
  assumes "registry_ok cfg tee s" "(registry_step cfg tee)\<^sup>*\<^sup>* s s'" "\<And>xs. mset (shuffle xs) = mset xs"
  shows "\<exists>cs. select_candidates shuffle now model_id e2ee_only s' = Inr cs \<and>
    (\<forall>c \<in> set cs. \<exists>mm \<in> set (miner_models s'). \<exists>h doc claims nonce.
       mm_id mm = cd_miner_model_id c \<and> tee_miner_hash tee (cd_hotkey c) = Inr h \<and>
       (doc_miner doc = Some h \<and> ec_miner_hash claims = Some h \<or>
        doc_miner doc = None \<and> allow_dev_attestation cfg) \<and>
       vf_ok (tee_verify tee doc claims nonce) \<and>
       mm_tls_cert_fingerprint mm = doc_tls_cert_fingerprint doc \<and>
       mm_enclave_verify_key mm = doc_verify_key doc \<and>
       cd_e2ee_public_key c = vf_e2ee_key_hex (tee_verify tee doc claims nonce)) \<and>
    distinct (map mn_hotkey (miners s')) \<and>
    distinct (map (\<lambda>t. (pt_miner_id t, pt_model_id t))
      (filter (\<lambda>t. pt_status t = TokenActive) (provisioned_tokens s')))"
proof -
  let ?w = "\<lambda>mm. mm_model_id mm = model_id \<and> (e2ee_only \<longrightarrow> mm_e2ee_public_key mm \<noteq> None)"
  have ok: "registry_ok cfg tee s'" by (rule registry.reachable [OF assms(2,1)])
  have d: "distinct (map mn_id (miners s'))" "distinct (map mn_hotkey (miners s'))"
    using ok shape_ids unfolding registry_ok_def by blast+
  obtain cs0 where c0: "candidates now ?w s' = Inr cs0"
    using candidates_run [of s' now ?w] ok unfolding registry_ok_def by blast
  let ?cs = "sort_key candidate_key (shuffle cs0)"
  have st: "set ?cs = set cs0" by (metis assms(3) set_mset_mset set_sort)
  have each: "\<exists>mm \<in> set (miner_models s'). \<exists>h doc claims nonce.
       mm_id mm = cd_miner_model_id c \<and> tee_miner_hash tee (cd_hotkey c) = Inr h \<and>
       (doc_miner doc = Some h \<and> ec_miner_hash claims = Some h \<or>
        doc_miner doc = None \<and> allow_dev_attestation cfg) \<and>
       vf_ok (tee_verify tee doc claims nonce) \<and>
       mm_tls_cert_fingerprint mm = doc_tls_cert_fingerprint doc \<and>
       mm_enclave_verify_key mm = doc_verify_key doc \<and>
       cd_e2ee_public_key c = vf_e2ee_key_hex (tee_verify tee doc claims nonce)"
    if c: "c \<in> set ?cs" for c
  proof -
    obtain m mm r where r: "(m, mm) \<in> set (eligible_rows ?w s')" "candidate_of r m mm = Inr c"
      using candidates_member [OF c0, of c] c unfolding st by blast
    have e: "m \<in> set (miners s')" "mm \<in> set (miner_models s')" "mm_miner_id mm = mn_id m"
      "mm_attestation_status mm = Attested"
      using r(1) by (auto simp: eligible_rows_set eligible_def)
    have f: "cd_miner_model_id c = mm_id mm" "cd_hotkey c = mn_hotkey m" "cd_e2ee_public_key c = mm_e2ee_public_key mm"
      using candidate_of_ids [OF r(2)] by simp_all
    obtain hotkey where h: "(mm_miner_id mm, hotkey) \<in> set (map miner_key (miners s'))"
      "verified_model cfg tee hotkey mm"
      using ok e(2,4) unfolding registry_ok_def models_verified_def by blast
    have "hotkey = mn_hotkey m"
    proof -
      obtain q where "q \<in> set (miners s')" "mn_id q = mn_id m" "hotkey = mn_hotkey q"
        using h(1) e(3) by (auto simp: miner_key_def)
      then show ?thesis using same_key_same_row [OF d(1)] e(1) by metis
    qed
    with h(2) obtain k doc claims nonce where "tee_miner_hash tee (cd_hotkey c) = Inr k"
      "if doc_miner doc = None then allow_dev_attestation cfg \<and> ec_miner_hash claims = None
       else doc_miner doc = Some k \<and> ec_miner_hash claims = Some k"
      "vf_ok (tee_verify tee doc claims nonce)" "mm_tls_cert_fingerprint mm = doc_tls_cert_fingerprint doc"
      "mm_enclave_verify_key mm = doc_verify_key doc"
      "cd_e2ee_public_key c = vf_e2ee_key_hex (tee_verify tee doc claims nonce)"
      unfolding verified_model_def f by blast
    then show ?thesis using e(2) f(1) by (metis)
  qed
  have "distinct (active_token_keys s')" using ok by (simp add: registry_ok_def)
  with each d(2) c0 show ?thesis
    by (simp add: select_candidates_def active_token_keys_def)
qed

text \<open>A registration takes the miner out of service. Registering succeeds, writes exactly the
  caller's hotkey, and leaves none of the miner's enclaves in any selection; if it advertises a model,
  the provisioning loop picks the miner up at its next pass.\<close>

theorem registration_stops_serving:
  assumes "registry_ok cfg tee s"
  shows "\<exists>m s'. upsert_from_registration now reg nid cls h s = (Inr m, s') \<and>
    mn_hotkey m = lower (sr_hotkey reg) \<and> m \<in> set (miners s') \<and>
    (select_candidates shuffle later model_id e2ee_only s' = Inr cs \<longrightarrow> (\<forall>xs. mset (shuffle xs) = mset xs) \<longrightarrow>
       mn_id m \<notin> cd_miner_id ` set cs) \<and>
    (sr_hosted_models reg \<noteq> [] \<longrightarrow> mn_id m \<in> set (loop_candidates later s'))"
proof -
  let ?w = "\<lambda>mm. mm_model_id mm = model_id \<and> (e2ee_only \<longrightarrow> mm_e2ee_public_key mm \<noteq> None)"
  obtain m s' where u: "upsert_from_registration now reg nid cls h s = (Inr m, s')" "registry_ok cfg tee s'"
    "mn_hotkey m = lower (sr_hotkey reg)" "m \<in> set (miners s')"
    "\<forall>mm \<in> set (miner_models s'). mm_miner_id mm = mn_id m \<longrightarrow> mm_attestation_status mm = Pending"
    "sr_hosted_models reg \<noteq> [] \<longrightarrow> (\<exists>mm \<in> set (miner_models s'). mm_miner_id mm = mn_id m)"
    using upsert_run [OF assms, of now reg nid cls h] by blast
  have "mn_id m \<notin> cd_miner_id ` set cs"
    if c: "select_candidates shuffle later model_id e2ee_only s' = Inr cs" and sh: "\<forall>xs. mset (shuffle xs) = mset xs"
  proof
    assume "mn_id m \<in> cd_miner_id ` set cs"
    then obtain x where x: "x \<in> set cs" "cd_miner_id x = mn_id m" by (metis imageE)
    obtain cs0 where c0: "candidates later ?w s' = Inr cs0" "cs = sort_key candidate_key (shuffle cs0)"
      using c by (auto simp: select_candidates_def split: sum.splits)
    have "x \<in> set cs0" using x(1) by (metis c0(2) sh set_sort set_mset_mset)
    then obtain m' mm where r: "(m', mm) \<in> set (eligible_rows ?w s')" "\<exists>r. candidate_of r m' mm = Inr x"
      using candidates_member [OF c0(1)] by blast
    then have "mn_id m' = mn_id m" using candidate_of_ids x(2) by metis
    then show False using r(1) u(5) by (auto simp: eligible_rows_set eligible_def)
  qed
  moreover have "mn_id m \<in> set (loop_candidates later s')" if hosted: "sr_hosted_models reg \<noteq> []"
  proof -
    obtain mm where "mm \<in> set (miner_models s')" "mm_miner_id mm = mn_id m" "mm_attestation_status mm = Pending"
      using hosted u(5,6) by blast
    then have "mn_id m \<in> set (map mm_miner_id (filter (\<lambda>mm. mm_attestation_status mm = Pending \<or>
        mm_attestation_status mm = Stale) (miner_models s')))" by force
    with u(4) show ?thesis unfolding loop_candidates_def Let_def by simp
  qed
  ultimately show ?thesis using u(1,3,4) by blast
qed

section \<open>Selection does not read the miner's attestation\<close>

lemma eligible_rows_map:
  assumes "miners s' = map f (miners s)" "miner_models s' = miner_models s" "provisioned_tokens s' = provisioned_tokens s"
    "\<And>m. mn_id (f m) = mn_id m" "\<And>m. mn_health (f m) = mn_health m"
  shows "eligible_rows w s' = map (map_prod f id) (eligible_rows w s)"
proof -
  have "eligible (f m) mm t = eligible m mm t" for m mm t by (simp add: eligible_def assms(4,5))
  then show ?thesis
    unfolding eligible_rows_def assms(1-3)
    by (simp add: map_concat comp_def if_distrib cong: if_cong)
qed

lemma collect_map:
  assumes "\<And>m mm. candidate_of r (f m) mm = candidate_of r m mm"
  shows "collect_candidates r seen (map (map_prod f id) rows) = collect_candidates r seen rows"
  by (induction rows arbitrary: seen) (auto simp: assms split: sum.splits)

lemma selection_map:
  assumes "miners s' = map f (miners s)" "miner_models s' = miner_models s" "provisioned_tokens s' = provisioned_tokens s"
    "miner_request_stats s' = miner_request_stats s"
    "\<And>m. mn_id (f m) = mn_id m" "\<And>m. mn_health (f m) = mn_health m"
    "\<And>r m mm. candidate_of r (f m) mm = candidate_of r m mm"
  shows "select_candidates shuffle now model_id e2ee_only s' = select_candidates shuffle now model_id e2ee_only s"
proof -
  have "platform_reputation now ids s' = platform_reputation now ids s" for ids
    by (rule ext) (simp add: platform_reputation_def recent_rows_def assms(4))
  moreover have "map (\<lambda>r. mn_id (fst r)) (eligible_rows w s') = map (\<lambda>r. mn_id (fst r)) (eligible_rows w s)" for w
    by (simp add: eligible_rows_map [OF assms(1-3,5,6)] comp_def assms(5))
  ultimately have "candidates now w s' = candidates now w s" for w
    unfolding candidates_def Let_def
    by (metis eligible_rows_map [OF assms(1-3,5,6)] collect_map [OF assms(7)])
  then show ?thesis by (simp add: select_candidates_def)
qed

definition with_attestation :: "nat \<Rightarrow> attestation \<Rightarrow> miner \<Rightarrow> miner" where
  "with_attestation mid st m = (if mn_id m = mid then m\<lparr>mn_attestation_status := st\<rparr> else m)"

lemma with_attestation_candidate:
  "candidate_of r (with_attestation mid st m) mm = candidate_of r m mm"
  by (cases "mn_id m = mid") (simp_all add: with_attestation_def candidate_of_def cong: sum.case_cong)

lemma not_in_map_filter: "(\<And>q. q \<in> set xs \<Longrightarrow> f q = i \<Longrightarrow> \<not> P q) \<Longrightarrow> i \<notin> set (map f (filter P xs))"
  by auto

lemma selection_ignores_status:
  assumes "distinct (map mn_id (miners s))" "m \<in> set (miners s)"
  shows "select_candidates shuffle now model_id e2ee_only (put_miner (m\<lparr>mn_attestation_status := st\<rparr>) s) =
    select_candidates shuffle now model_id e2ee_only s"
proof (rule selection_map [where f = "with_attestation (mn_id m) st"])
  show "miners (put_miner (m\<lparr>mn_attestation_status := st\<rparr>) s) = map (with_attestation (mn_id m) st) (miners s)"
    using same_key_same_row [OF assms(1) _ assms(2)]
    by (auto simp: replace_by_def with_attestation_def)
qed (simp_all add: with_attestation_candidate, simp_all add: with_attestation_def)

lemma rejected_attestation:
  assumes "\<And>doc claims nonce. \<not> vf_ok (tee_verify tee doc claims nonce)"
    "\<And>endpoint nonce e. tee_attestation tee endpoint nonce = Inl e \<Longrightarrow> e = http_error"
  shows "provision_model cfg tee now miner mm h s = (Inl provision_error, s)"
proof -
  have "attest_model cfg tee i h endpoint al = Inl provision_error" for i endpoint al
    using assms by (auto simp: attest_model_def Let_def http_as_provision_def split: sum.splits)
  then show ?thesis
    by (simp add: provision_model_def Let_def bind_def of_result_def split: prod.splits)
qed

lemma rejected_models:
  assumes "\<And>doc claims nonce. \<not> vf_ok (tee_verify tee doc claims nonce)"
    "\<And>endpoint nonce e. tee_attestation tee endpoint nonce = Inl e \<Longrightarrow> e = http_error"
  shows "try_models cfg tee now miner h mms s = (Inr [], s)"
  by (induction mms) (simp_all add: try_model_def rejected_attestation [OF assms] isolated_def bind_def)

text \<open>A miner that fails re-attestation keeps serving. When the verifier rejects every document
  of a miner whose enclaves are all attested, the pass marks the miner failed, but selection offers its
  enclaves exactly as before, and the loop does not pick the miner up again.\<close>

theorem failed_reattestation_keeps_serving:
  assumes "distinct (map mn_id (miners s))" "m \<in> set (miners s)" "mn_hotkey m \<noteq> []" "tee_miner_hash tee (mn_hotkey m) = Inr h"
    "\<And>doc claims nonce. \<not> vf_ok (tee_verify tee doc claims nonce)"
    "\<And>endpoint nonce e. tee_attestation tee endpoint nonce = Inl e \<Longrightarrow> e = http_error"
    "\<And>mm. mm \<in> set (miner_models s) \<Longrightarrow> mm_miner_id mm = mn_id m \<Longrightarrow> mm_attestation_status mm = Attested"
  shows "provision_one cfg tee now (mn_id m) s = (False, put_miner (m\<lparr>mn_attestation_status := AttestationFailed\<rparr>) s) \<and>
    select_candidates shuffle later model_id e2ee_only (snd (provision_one cfg tee now (mn_id m) s)) =
      select_candidates shuffle later model_id e2ee_only s \<and>
    mn_id m \<notin> set (loop_candidates later (snd (provision_one cfg tee now (mn_id m) s)))"
proof -
  let ?v = "m\<lparr>mn_attestation_status := Verifying\<rparr>" and ?f = "m\<lparr>mn_attestation_status := AttestationFailed\<rparr>"
  have run: "run_provision cfg tee now x h t = (Inl provision_error, t)" for x t
    by (simp add: run_provision_def bind_def then_do_def rejected_models [OF assms(5,6)])
  have twice: "put_miner ?f (put_miner ?v s) = put_miner ?f s"
    by (simp add: put_miner_def replace_by_def comp_def)
  have "provision_miner cfg tee now (mn_id m) s = (Inl provision_error, put_miner ?f s)"
    using assms(3,4) find_by_key [OF assms(1,2)]
    by (simp add: provision_miner_def get_miner_def bind_def then_do_def of_result_def Let_def run isolated_def
        twice del: put_miner_fields)
  then have one: "provision_one cfg tee now (mn_id m) s = (False, put_miner ?f s)"
    by (simp add: provision_one_def)
  have "mn_attestation_status q = AttestationFailed"
    if "q \<in> set (replace_by mn_id ?f (miners s))" "mn_id q = mn_id m" for q
    using that by (auto simp: set_replace_by split: if_splits)
  moreover have "mn_id m \<notin> set (map mm_miner_id (filter (\<lambda>mm. mm_attestation_status mm = Pending \<or>
      mm_attestation_status mm = Stale) (miner_models s)))"
    using assms(7) by auto
  ultimately have "mn_id m \<notin> set (loop_candidates later (put_miner ?f s))"
    unfolding loop_candidates_def Let_def put_miner_fields
    by (intro not_in_map_filter) (simp del: set_map set_filter)
  with one selection_ignores_status [OF assms(1,2)] show ?thesis by simp
qed

section \<open>Concrete instances\<close>

definition demo_document :: attestation_document where
  "demo_document = \<lparr>doc_miner = Some ''h'', doc_mode = Some ''tdx'', doc_tls_cert_fingerprint = Some ''f'',
     doc_sealing_key = Some ''k'', doc_verify_key = Some ''v'', doc_model_hash = Some ''x'',
     doc_usage_chain_head = None, doc_usage_count = None, doc_usage_total_tokens = None\<rparr>"

definition demo_tee :: "bool \<Rightarrow> tee" where
  "demo_tee accepts = \<lparr>tee_miner_hash = \<lambda>_. Inr ''h'', tee_endpoint_safe = \<lambda>_. True,
     tee_draw = \<lambda>_. (''n'', ''adm'', ''inf''), tee_attestation = \<lambda>_ _. Inr demo_document,
     tee_verify = \<lambda>doc claims nonce. \<lparr>vf_ok = accepts \<and> doc_miner doc = ec_miner_hash claims, vf_e2ee_key_hex = None\<rparr>,
     tee_provision = \<lambda>_ _ _. Inr True, tee_encrypt = id,
     tee_engine = \<lambda>_ _. \<lparr>en_ready = True, en_start = Inr 200, en_becomes_ready = True, en_model_hash = None\<rparr>\<rparr>"

definition demo_miner_settings :: miner_settings where
  "demo_miner_settings = \<lparr>allow_dev_attestation = False, verifier_backend = ''auto'', token_ttl_seconds = 86400,
     attestation_ttl_seconds = 3600, provisioner_start_engine = False, health_stale_after_seconds = 300,
     maintenance_interval_seconds = 120, dereg_after_seconds = 3600\<rparr>"

lemma demo_model_verified: "verified_model demo_miner_settings (demo_tee True) hotkey (demo_model i mid)"
  unfolding verified_model_def
  by (rule exI [of _ "''h''"], rule exI [of _ demo_document],
      rule exI [of _ "\<lparr>ec_allow_dev = False, ec_miner_hash = Some ''h'', ec_model_allowlist = None\<rparr>"])
    (simp add: demo_tee_def demo_document_def demo_model_def)

lemma demo_registry_ok: "registry_ok demo_miner_settings (demo_tee True) demo_registry"
proof -
  have "models_verified demo_miner_settings (demo_tee True) (map miner_key (miners demo_registry))
      (miner_models demo_registry)"
    using demo_model_verified
    by (auto simp: models_verified_def demo_registry_def miner_key_def) (auto simp: demo_miner_def demo_model_def)
  moreover have "shape_ok (map miner_key (miners demo_registry)) (map model_key (miner_models demo_registry))
      (md_next demo_registry)"
    by (simp add: shape_ok_def miner_key_def model_key_def eval_registry)
  moreover have "distinct (active_token_keys demo_registry)"
    by (simp add: active_token_keys_def eval_registry)
  moreover have "\<forall>m \<in> set (miners demo_registry). capacity_ok (mn_capacity m)"
    by (simp add: eval_registry capacity_ok_def stored_bounded_def max_queue_depth_def
        max_available_concurrent_requests_def)
  ultimately show ?thesis by (simp add: registry_ok_def)
qed

lemma offered_enclaves_verified_witness:
  "\<exists>cs. select_candidates rev 20 ''m'' False (mark_stale 1 demo_registry) = Inr cs \<and>
     (\<forall>c \<in> set cs. tee_miner_hash (demo_tee True) (cd_hotkey c) = Inr ''h'')"
proof -
  have step: "(registry_step demo_miner_settings (demo_tee True))\<^sup>*\<^sup>* demo_registry (mark_stale 1 demo_registry)"
    by (intro r_into_rtranclp registry_step.pin_mismatch)
  have "tee_miner_hash (demo_tee True) k = Inr ''h''" for k by (simp add: demo_tee_def)
  moreover have "\<exists>cs. select_candidates rev 20 ''m'' False (mark_stale 1 demo_registry) = Inr cs"
    using offered_enclaves_verified [OF demo_registry_ok step, where shuffle = rev and now = 20 and
        model_id = "''m''" and e2ee_only = False] by auto
  ultimately show ?thesis by blast
qed

definition demo_registration :: self_registration where
  "demo_registration = \<lparr>sr_hotkey = ''aa'', sr_peer_id = ''p'', sr_subnet_node_id = 4, sr_tee_endpoint = ''https://a'',
     sr_hosted_models = [\<lparr>hm_model_id = ''m'', hm_model_version = None, hm_tee_endpoint = None,
       hm_status = ''loaded'', hm_loaded = True\<rparr>],
     sr_health = \<lparr>mh_state = ''online'', mh_healthy = True\<rparr>, sr_signature = ''s'', sr_nonce = None, sr_timestamp = None\<rparr>"

lemma registration_stops_serving_witness:
  "\<exists>m s'. upsert_from_registration 30 demo_registration None None ''h'' demo_registry = (Inr m, s') \<and>
     mn_id m \<in> set (loop_candidates 31 s')"
proof -
  have "sr_hosted_models demo_registration \<noteq> []" by (simp add: demo_registration_def)
  with registration_stops_serving [OF demo_registry_ok, of 30 demo_registration None None "''h''" rev 31]
  show ?thesis by blast
qed

lemma failed_reattestation_keeps_serving_witness:
  "fst (provision_one demo_miner_settings (demo_tee False) 30 1 demo_registry) = False \<and>
   (\<exists>cs. select_candidates rev 20 ''m'' False
        (snd (provision_one demo_miner_settings (demo_tee False) 30 1 demo_registry)) = Inr cs \<and>
      cs \<noteq> [])"
proof -
  let ?m = "demo_miner 1 ''aa'' [(''queue_depth'', JInt 3)]"
  have d: "distinct (map mn_id (miners demo_registry))" "?m \<in> set (miners demo_registry)"
    by (simp_all add: demo_registry_def, simp add: demo_miner_def)
  have m: "mn_hotkey ?m \<noteq> []" "mn_id ?m = 1" "tee_miner_hash (demo_tee False) (mn_hotkey ?m) = Inr ''h''"
    by (simp_all add: demo_miner_def demo_tee_def)
  have t: "\<not> vf_ok (tee_verify (demo_tee False) doc claims nonce)"
    "tee_attestation (demo_tee False) endpoint nonce = Inl e \<Longrightarrow> e = http_error"
    "mm \<in> set (miner_models demo_registry) \<Longrightarrow> mm_attestation_status mm = Attested" for doc claims nonce endpoint e mm
    by (auto simp: demo_tee_def eval_registry)
  let ?p = "provision_one demo_miner_settings (demo_tee False) 30 (mn_id ?m) demo_registry"
  have r: "?p = (False, put_miner (?m\<lparr>mn_attestation_status := AttestationFailed\<rparr>) demo_registry) \<and>
      select_candidates rev 20 ''m'' False (snd ?p) = select_candidates rev 20 ''m'' False demo_registry \<and>
      mn_id ?m \<notin> set (loop_candidates 20 (snd ?p))"
    by (rule failed_reattestation_keeps_serving [OF d m(1,3)]) (use t in blast)+
  obtain cs where cs: "select_candidates rev 20 ''m'' False demo_registry = Inr cs" "map cd_miner_model_id cs = [4, 3]"
    using demo_selects [where now = 20] by (elim exE conjE) (rule that)
  then have "cs \<noteq> []" by (intro notI) simp
  moreover have "fst ?p = False" "select_candidates rev 20 ''m'' False (snd ?p) = Inr cs"
    using r cs(1) by (metis fst_conv, metis)
  ultimately show ?thesis unfolding m(2) by blast
qed

end
