(* ===== verification/UsageProps.thy ===== *)
theory UsageProps
  imports Demo
begin

text \<open>
  The properties of the serving plane's accounting: the books stay balanced over every trace of
  operations, a reservation draws the wallet only beyond the allowance, is idempotent per request
  and respects the caps of its key, a settlement charges what it should, and an ended event is
  final. The locales of the prelude carry the invariants of single steps to all reachable states.
\<close>

section \<open>The steps of the accounts\<close>

text \<open>One operation of a session. A settlement that ends in the failed assertion of the wallet is no step: the
  routes release and commit after it, and \<open>crashed_settlement_unbalances\<close> below shows that this breaks
  what the other operations keep. A top-up is the credit the control plane writes from the payment webhook.\<close>

inductive usage_step :: "settings \<Rightarrow> ledger \<Rightarrow> ledger \<Rightarrow> bool" for cfg where
  reserve: "0 \<le> ra_prompt_tokens ra + ra_max_completion_tokens ra \<Longrightarrow>
     reserve_inference_tokens cfg now user ra s = (r, s') \<Longrightarrow> usage_step cfg s s'"
| settle: "e \<in> set (inference_usage_events s) \<Longrightarrow> 0 \<le> prompt + completion \<Longrightarrow>
     settle_inference_usage now e prompt completion s = (r, s') \<Longrightarrow>
     r \<noteq> Inl (PyExc ''AssertionError'') \<Longrightarrow> usage_step cfg s s'"
| release: "e \<in> set (inference_usage_events s) \<Longrightarrow>
     release_inference_reservation now e s = (r, s') \<Longrightarrow> usage_step cfg s s'"
| expire: "expire_stale_reservations now uid s = (r, s') \<Longrightarrow> usage_step cfg s s'"
| recalculate: "recalculate_current_period cfg now user s = (r, s') \<Longrightarrow> usage_step cfg s s'"
| topup: "0 \<le> d \<Longrightarrow> usage_step cfg s (post now uid d ''topup'' s)"

inductive_cases usage_stepE: "usage_step cfg s s'"

lemma topup_service_ok:
  assumes "service_ok s" "0 \<le> d" shows "service_ok (post now uid d ''topup'' s)"
proof -
  have "model_pricing (post now uid d ''topup'' s) = model_pricing s"
    by (simp add: post_def Let_def move_balance_def put_defs ensure_wallet_def)
  moreover have "wallets_ok (post now uid d ''topup'' s)"
    using assms ledger_okD(6) [of s]
    by (auto simp: service_ok_def wallets_ok_def post_balance post_entries post_transactions moved_def usage_kind_def)
  moreover have "keys_ok (post now uid d ''topup'' s)"
    using assms(1) post_keys [of s now uid d] by (simp add: service_ok_def ledger_ok_def keys_ok_def)
  ultimately show ?thesis
    using assms(1) by (simp add: service_ok_def prices_ok_def ledger_ok_def requests_ok_def windows_ok_def
        links_ok_def periods_ok_def)
qed

lemma reserve_service_ok:
  assumes "service_ok s" "0 \<le> ra_prompt_tokens ra + ra_max_completion_tokens ra"
    "reserve_inference_tokens cfg now user ra s = (r, s')"
  shows "service_ok s'"
  by (rule reserve_outcome [OF assms]) simp_all

lemma expire_service_ok:
  assumes "service_ok s" "expire_stale_reservations now uid s = (r, s')" shows "service_ok s'"
proof -
  have "ledger_ok s" using assms(1) by (simp add: service_ok_def)
  from expire_stale_run [OF this, of now uid] show ?thesis
    using assms by (auto simp: service_ok_def prices_ok_def expiry_frame_def)
qed

lemma recalculate_service_ok:
  assumes "service_ok s" "recalculate_current_period cfg now user s = (r, s')" shows "service_ok s'"
  using assms tripleD [OF recalculate_ready assms(1)] tripleD_err [OF recalculate_ready assms(1)]
  by (cases r) (auto simp: ready_def)

lemma release_keeps:
  assumes "service_ok s" "e \<in> set (inference_usage_events s)" "release_inference_reservation now e s = (r, s')"
  shows "service_ok s'"
  using release_service_ok [OF assms(1,2), of now] assms(3) by auto

lemma usage_step_service_ok: "service_ok s \<Longrightarrow> usage_step cfg s s' \<Longrightarrow> service_ok s'"
  by (erule usage_stepE)
    (auto intro: reserve_service_ok settle_service_ok expire_service_ok recalculate_service_ok topup_service_ok
      release_keeps)

section \<open>Ended events are final\<close>

lemma rebook_ended:
  assumes "ledger_ok s" "e \<in> ended_events s" "x \<in> set (inference_usage_events s)" "ev_status x = Reserved"
    "ev_id x' = ev_id x"
  shows "e \<in> ended_events (rebook now p u x' d k s)"
proof -
  have "distinct (map ev_id (inference_usage_events s))" using assms(1) by (simp add: ledger_ok_def keys_ok_def)
  then have "ev_id e \<noteq> ev_id x"
    using same_key_same_row [of ev_id "inference_usage_events s" e x] assms by (auto simp: ended_events_def)
  then show ?thesis using assms by (simp add: ended_events_def set_replace_by)
qed

lemma reserve_ended:
  assumes "service_ok s" "0 \<le> ra_prompt_tokens ra + ra_max_completion_tokens ra"
    "reserve_inference_tokens cfg now user ra s = (r, s')"
  shows "ended_events s \<subseteq> ended_events s'"
proof (rule reserve_outcome [OF assms])
  fix ev p t assume "nothing_booked s t" "reserve_booked cfg now user ra (effective_request_id ra) p t ev s'"
  moreover from this(2) have "ended_events t \<subseteq> ended_events s'"
    by (auto simp: reserve_booked_def Let_def ended_events_def same_accounts_def)
  ultimately show ?thesis by (auto simp: nothing_booked_def)
qed (auto simp: nothing_booked_def)

lemma settle_ended:
  assumes ok: "service_ok s" and e: "e \<in> set (inference_usage_events s)" and tok: "0 \<le> prompt + completion"
    and run: "settle_inference_usage now e prompt completion s = (r, s')"
  shows "ended_events s \<subseteq> ended_events s'"
proof -
  have lok: "ledger_ok s" using ok by (simp add: service_ok_def)
  consider "ev_status e \<noteq> Reserved" | "ev_status e = Reserved" "ev_expires_at e \<le> now"
    | "ev_status e = Reserved" "now < ev_expires_at e" by (metis not_le)
  then show ?thesis
  proof cases
    case 1
    then have "s' = s" using run by (cases "ev_status e") (auto simp: settle_inference_usage_def)
    then show ?thesis by simp
  next
    case 2
    obtain n t where t: "expire_stale_reservations now (Some (ev_user_id e)) s = (Inr n, t)"
      using expire_stale_run [OF lok, of now "Some (ev_user_id e)"] by blast
    have "s' = t" using run 2 by (simp add: settle_inference_usage_def then_do_def bind_def t)
    then show ?thesis using expire_nothing_booked [OF lok t] by (simp add: nothing_booked_def)
  next
    case 3
    obtain p where p: "p \<in> set (usage_periods s)" "per_id p = ev_usage_period_id e"
      using event_period [OF lok e] by blast
    have un: "snd (is_unlimited_subscriber (ev_user_id e) s) = s"
      using read_only_queries(2) by (simp add: read_only_def)
    have lp: "lock_period (ev_usage_period_id e) s = (Inr p, s)"
      using lock_period_run [OF ledger_okD(1) [OF lok] p(1)] p(2) by simp
    show ?thesis
    proof (cases "fst (is_unlimited_subscriber (ev_user_id e) s)")
      case (Inl er)
      then have "is_unlimited_subscriber (ev_user_id e) s = (Inl er, s)" using un by (metis prod.collapse)
      then have "s' = s"
        using run 3 by (simp add: settle_inference_usage_def bind_def lp Let_def split_settlement_def)
      then show ?thesis by simp
    next
      case (Inr unl)
      then have unl: "is_unlimited_subscriber (ev_user_id e) s = (Inr unl, s)" using un by (metis prod.collapse)
      note sr = settle_live_run [OF lok e 3 p unl tok refl refl refl refl]
      have "x \<in> ended_events s'" if x: "x \<in> ended_events s" for x
      proof -
        have "ended_events (settle_ledger unl e w s) = ended_events s" for w by (rule events_cong) simp
        moreover have "x \<in> ended_events (rebook now p u (settled now e prompt completion w) d k (settle_ledger unl e w s))" for u d k w
          using x e 3(1) by (intro rebook_ended [OF settle_ledger_ok [OF lok]])
            (simp_all add: events_cong(2) [of "settle_ledger unl e w s" s])
        moreover have "ended_events (put_period q s) = ended_events s" for q by (rule events_cong) simp
        ultimately show ?thesis using run x unfolding sr by (auto split: if_splits)
      qed
      then show ?thesis by blast
    qed
  qed
qed

lemma release_ended:
  assumes ok: "service_ok s" and e: "e \<in> set (inference_usage_events s)"
    and run: "release_inference_reservation now e s = (r, s')"
  shows "ended_events s \<subseteq> ended_events s'"
proof -
  have lok: "ledger_ok s" using ok by (simp add: service_ok_def)
  consider "ev_status e \<noteq> Reserved" | "ev_status e = Reserved" "ev_expires_at e \<le> now"
    | "ev_status e = Reserved" "now < ev_expires_at e" by (metis not_le)
  then show ?thesis
  proof cases
    case 2
    obtain n t where t: "expire_stale_reservations now (Some (ev_user_id e)) s = (Inr n, t)"
      using expire_stale_run [OF lok, of now "Some (ev_user_id e)"] by blast
    have "s' = t" using run 2 by (simp add: release_inference_reservation_def then_do_def bind_def t)
    then show ?thesis using expire_nothing_booked [OF lok t] by (simp add: nothing_booked_def)
  next
    case 3
    obtain p where p: "p \<in> set (usage_periods s)" "per_id p = ev_usage_period_id e"
      using event_period [OF lok e] by blast
    show ?thesis
      using run 3 give_back_run [OF lok e 3(1) p, of now Released] rebook_ended [OF lok _ e 3(1)]
      by (auto simp: release_inference_reservation_def)
  qed (use run in \<open>simp add: release_inference_reservation_def\<close>)
qed

lemma usage_step_ended:
  assumes "service_ok s" "usage_step cfg s s'" shows "ended_events s \<subseteq> ended_events s'"
  using assms(2)
proof (cases rule: usage_step.cases)
  case (topup d now uid)
  then show ?thesis using events_cong(2) [of "post now uid d ''topup'' s" s] by simp
next
  case (expire now uid r)
  then show ?thesis using expire_nothing_booked assms(1) by (fastforce simp: service_ok_def nothing_booked_def)
next
  case (recalculate now user r)
  then show ?thesis using recalculate_nothing_booked assms(1) by (fastforce simp: service_ok_def nothing_booked_def)
qed (use assms(1) reserve_ended settle_ended release_ended in blast)+

interpretation accounts: step_invariant "usage_step cfg" service_ok for cfg
  by unfold_locales (rule usage_step_service_ok)

interpretation final: step_fact "usage_step cfg" service_ok "\<lambda>s. e \<in> ended_events s" for cfg e
  by unfold_locales (use usage_step_ended in blast)

section \<open>Properties\<close>

text \<open>C3: The books stay balanced. From consistent tables, after any sequence of reservations,
  settlements, releases, expiries, recalculations and top-ups, successful or refused, in which no settlement
  ends in the failed assertion on the wallet and none reports a negative total: the counters of every usage period are the sum of the allowance parts of its events and the remainder up to its
  allowance, and every wallet balance is the sum of its transactions, is not negative, and was moved
  by usage exactly by the wallet parts of the user's live events.\<close>

theorem books_stay_balanced:
  assumes "service_ok s" "(usage_step cfg)\<^sup>*\<^sup>* s s'"
  shows "(\<forall>p \<in> set (usage_periods s').
            per_used_tokens p = booked (inference_usage_events s') (per_id p) \<and>
            per_remaining_tokens p = max 0 (per_total_allowance p - booked (inference_usage_events s') (per_id p))) \<and>
         (\<forall>u. wallet_balance s' u = wallet_entries s' u \<and> 0 \<le> wallet_balance s' u \<and>
            moved (wallet_transactions s') u = - drawn (inference_usage_events s') u)"
proof -
  have "ledger_ok s'" using accounts.reachable [OF assms(2,1)] by (simp add: service_ok_def)
  then show ?thesis by (simp add: ledger_ok_def periods_ok_def wallets_ok_def)
qed

lemma books_stay_balanced_witness:
  "wallet_balance demo_reserved 1 = wallet_entries demo_reserved 1 \<and> wallet_balance demo_reserved 1 = 80"
proof -
  have "usage_step demo_settings demo_ledger demo_reserved"
    by (rule usage_step.reserve [OF _ demo_reserves [unfolded demo_run_def]]) (simp add: demo_args_def)
  then have "wallet_balance demo_reserved 1 = wallet_entries demo_reserved 1"
    using books_stay_balanced [OF demo_accounts r_into_rtranclp] by blast
  then show ?thesis by (simp add: wallet_balance_def demo_reserved_def)
qed

lemma unlimited_cong:
  assumes "user_subscriptions s' = user_subscriptions s" "billing_plans s' = billing_plans s"
  shows "fst (is_unlimited_subscriber uid s') = fst (is_unlimited_subscriber uid s)"
  using assms
  by (auto simp: is_unlimited_subscriber_def active_subscription_def select_one_or_none_def get_plan_def bind_def gets_def
      ret_def split: sum.splits option.splits)

lemma unlimited_reads:
  "fst (is_unlimited_subscriber uid s) = r \<Longrightarrow> is_unlimited_subscriber uid s = (r, s)"
  using read_only_queries(2) by (metis prod.collapse read_only_def)

text \<open>C4: What a reservation draws. A successful reservation of a new request adds exactly one event,
  for the request, its key and the current period, to the tables it swept and recalculated; its tokens
  are the estimate times the multiplier of the model, rounded up; the wallet pays exactly what exceeds the remaining allowance, and nothing if and only if nothing exceeds it or
  the user's subscription is to an unlimited plan; it is debited by that amount and stays non-negative, and the
  period is charged the rest.\<close>

theorem reserve_draws_beyond_allowance:
  assumes ok: "service_ok s" and tok: "0 \<le> ra_prompt_tokens ra + ra_max_completion_tokens ra"
    and run: "reserve_inference_tokens cfg now user ra s = (Inr ev, s')"
    and new: "\<forall>q \<in> set (inference_usage_events s). \<not> requested (usr_id user) (effective_request_id ra) q"
  shows "\<exists>t p unl. nothing_booked s t \<and> owned_period (usr_id user) p t \<and>
    recalculate_current_period cfg now user (snd (expire_stale_reservations now (Some (usr_id user)) s)) = (Inr p, t) \<and>
    inference_usage_events s' = inference_usage_events t @ [ev] \<and> ev_status ev = Reserved \<and>
    ev_user_id ev = usr_id user \<and> ev_usage_period_id ev = per_id p \<and> ev_request_id ev = effective_request_id ra \<and>
    ev_api_key_id ev = Some (ra_api_key_id ra) \<and>
    fst (multiplier_for_model (ra_model ra) t) = Inr (ev_model_multiplier ev) \<and>
    ev_reserved_tokens ev = charged_token_count (ra_prompt_tokens ra + ra_max_completion_tokens ra) (ev_model_multiplier ev) \<and>
    is_unlimited_subscriber (usr_id user) s' = (Inr unl, s') \<and>
    ev_wallet_reserved_tokens ev
      = (if unl then 0 else max 0 (ev_reserved_tokens ev - per_remaining_tokens p)) \<and>
    usage_periods s' = replace_by per_id (with_used p
      (per_used_tokens p + (ev_reserved_tokens ev - ev_wallet_reserved_tokens ev))) (usage_periods t) \<and>
    wallet_balance s' (usr_id user) = wallet_balance t (usr_id user) - ev_wallet_reserved_tokens ev \<and>
    0 \<le> wallet_balance s' (usr_id user)"
proof (rule reserve_outcome [OF ok tok run])
  fix e assume e: "Inr ev = Inr e" "nothing_booked s s'"
    "find (requested (usr_id user) (effective_request_id ra)) (inference_usage_events s') = Some e"
  then have "e \<in> set (inference_usage_events s')" "requested (usr_id user) (effective_request_id ra) e"
    by (auto simp: find_Some_iff)
  moreover have "event_key ` set (inference_usage_events s') = event_key ` set (inference_usage_events s)"
    using e(2) by (metis nothing_booked_def set_map)
  ultimately have "\<exists>q \<in> set (inference_usage_events s). requested (usr_id user) (effective_request_id ra) q"
    by (smt (verit) event_key_def image_iff old.prod.inject requested_def)
  with new show ?thesis by blast
next
  fix e p t assume a: "Inr ev = Inr e" "nothing_booked s t" "owned_period (usr_id user) p t"
    "reserve_booked cfg now user ra (effective_request_id ra) p t e s'" "ready now (usr_id user) t"
    "recalculate_current_period cfg now user (snd (expire_stale_reservations now (Some (usr_id user)) s)) = (Inr p, t)"
  let ?raw = "ra_prompt_tokens ra + ra_max_completion_tokens ra"
  obtain m unl s1 w where m: "same_accounts t s1" "w = wallet_share unl (charged_token_count ?raw m) (per_remaining_tokens p)"
    "w \<le> wallet_balance t (usr_id user)"
    "ev = new_event cfg now user ra (next_id s1) p (effective_request_id ra) m ?raw (charged_token_count ?raw m) w"
    "s' = book_new now p (per_used_tokens p + (charged_token_count ?raw m - w)) ev s1"
    "is_unlimited_subscriber (usr_id user) s1 = (Inr unl, s1)" "fst (multiplier_for_model (ra_model ra) t) = Inr m"
    using a(1,4) by (auto simp: reserve_booked_def Let_def)
  have "fst (is_unlimited_subscriber (usr_id user) s') = Inr unl"
    using unlimited_cong [of s' s1 "usr_id user"] m(6) by (simp add: m(5))
  then have un: "is_unlimited_subscriber (usr_id user) s' = (Inr unl, s')" by (rule unlimited_reads)
  have ev: "ev_reserved_tokens ev = charged_token_count ?raw m" "ev_wallet_reserved_tokens ev = w"
    "ev_user_id ev = usr_id user" "ev_status ev = Reserved" "ev_model_multiplier ev = m" "wallet_portion ev = w"
    "ev_usage_period_id ev = per_id p" "ev_request_id ev = effective_request_id ra" "ev_api_key_id ev = Some (ra_api_key_id ra)"
    by (simp_all add: m(4) new_event_def wallet_portion_def)
  have b: "wallet_balance s1 u = wallet_balance t u" for u
    using m(1) by (simp add: same_accounts_def wallet_balance_def)
  show ?thesis
    using a(2,3,6) m(1,3,7) un
    by (intro exI [of _ t] exI [of _ p] exI [of _ unl] conjI)
      (simp_all add: ev m(5) b same_accounts_def, simp_all add: m(2) wallet_share_def min_def max_def)
qed simp

lemma reserve_draws_beyond_allowance_witness:
  "ev_wallet_reserved_tokens demo_event = 20 \<and>
   (\<exists>t p unl. nothing_booked demo_ledger t \<and> owned_period 1 p t \<and>
      inference_usage_events demo_reserved = inference_usage_events t @ [demo_event])"
proof -
  have "\<exists>t p unl. nothing_booked demo_ledger t \<and> owned_period (usr_id demo_user) p t \<and>
      inference_usage_events demo_reserved = inference_usage_events t @ [demo_event]"
    using reserve_draws_beyond_allowance [OF demo_accounts _ demo_reserves [unfolded demo_run_def]]
    by (simp add: demo_ledger_def demo_args_def) blast
  then show ?thesis by (simp add: demo_event_def demo_user_def)
qed

text \<open>C5: A reservation that fails, for lack of funds, past a cap of the key, or on a database
  error, books nothing: no event is added or changed except reservations that had expired, and no
  wallet balance went down.\<close>

theorem failed_reservation_books_nothing:
  assumes "service_ok s" "0 \<le> ra_prompt_tokens ra + ra_max_completion_tokens ra"
    and "reserve_inference_tokens cfg now user ra s = (Inl e, s')"
  shows "map event_key (inference_usage_events s') = map event_key (inference_usage_events s) \<and>
    open_events s' \<subseteq> open_events s \<and> (\<forall>u. wallet_balance s u \<le> wallet_balance s' u)"
  by (rule reserve_outcome [OF assms]) (simp_all add: nothing_booked_def)

lemma failed_reservation_books_nothing_witness:
  "fst (demo_run 1000) = Inl payment_required \<and> 100 \<le> wallet_balance (snd (demo_run 1000)) 1"
proof -
  have "reserve_inference_tokens demo_settings demo_now demo_user (demo_args 1000) demo_ledger
      = (Inl payment_required, snd (demo_run 1000))"
    using demo_refused unfolding demo_run_def by (metis prod.collapse)
  from failed_reservation_books_nothing [OF demo_accounts _ this]
  have "wallet_balance demo_ledger 1 \<le> wallet_balance (snd (demo_run 1000)) 1"
    by (simp add: demo_args_def)
  then show ?thesis using demo_refused by (simp add: wallet_balance_def demo_ledger_def)
qed

text \<open>C6: Reserving is idempotent per request. A second reservation of the same user under the same
  request id, at any time before the first one expires, returns the very same event and books
  nothing.\<close>

theorem reserve_idempotent:
  assumes ok: "service_ok s" and tok: "0 \<le> ra_prompt_tokens ra + ra_max_completion_tokens ra"
    and run: "reserve_inference_tokens cfg now user ra s = (Inr ev, s')"
    and again: "usr_id user' = usr_id user" "effective_request_id ra' = effective_request_id ra"
      "\<not> is_stale now' (Some (usr_id user)) ev"
  shows "\<exists>s''. reserve_inference_tokens cfg' now' user' ra' s' = (Inr ev, s'') \<and> nothing_booked s' s''"
proof -
  let ?rid = "effective_request_id ra" and ?uid = "usr_id user"
  have ok': "service_ok s'" using reserve_service_ok [OF ok tok run] .
  have ev: "ev \<in> set (inference_usage_events s')" "requested ?uid ?rid ev"
    by (rule reserve_outcome [OF ok tok run];
        auto simp: find_Some_iff reserve_booked_def Let_def requested_def new_event_def)+
  obtain t where t: "expire_stale_reservations now' (Some ?uid) s'
        = (Inr (length (filter (is_stale now' (Some ?uid)) (inference_usage_events s'))), t)" "ledger_ok t"
    "inference_usage_events t
      = map (\<lambda>e. if is_stale now' (Some ?uid) e then closed now' Expired e else e) (inference_usage_events s')"
    using expire_stale_run [of s' now' "Some ?uid"] ok' by (auto simp: service_ok_def)
  have in_t: "ev \<in> set (inference_usage_events t)"
    unfolding t(3) using ev(1) again(3) by (auto intro!: image_eqI [of _ _ ev])
  have "distinct (map (\<lambda>e. (ev_user_id e, ev_request_id e)) (inference_usage_events t))"
    using t(2) by (simp add: ledger_ok_def requests_ok_def)
  from find_by_key [OF this in_t] ev(2)
  have "find (requested ?uid ?rid) (inference_usage_events t) = Some ev"
    by (simp add: requested_def [abs_def])
  then have "find_request ?uid ?rid t = (Inr (Some ev), t)"
    using find_request_run [of t ?uid ?rid] t(2) by (simp add: ledger_ok_def)
  then have "reserve_inference_tokens cfg' now' user' ra' s' = (Inr ev, t)"
    by (simp add: reserve_inference_tokens_def again t(1) then_do_def bind_def Let_def)
  then show ?thesis using expire_nothing_booked [OF _ t(1)] ok' by (auto simp: service_ok_def)
qed

lemma reserve_idempotent_witness:
  "\<exists>s''. reserve_inference_tokens demo_settings (demo_now + 1) demo_user (demo_args 7) demo_reserved
      = (Inr demo_event, s'') \<and> nothing_booked demo_reserved s''"
  by (rule reserve_idempotent [OF demo_accounts _ demo_reserves [unfolded demo_run_def]])
    (simp_all add: demo_args_def effective_request_id_def truthy_def is_stale_def demo_event_def)

lemma spend_after_booking:
  assumes "ev_api_key_id ev = Some kid" "ev_status ev = Reserved" "0 \<le> ev_reserved_tokens ev"
    "0 \<le> ev_wallet_reserved_tokens ev" "inference_usage_events s' = inference_usage_events s @ [ev]"
  shows "fst (key_spend now kid start s') \<le> fst (key_spend now kid start s) + ev_reserved_tokens ev"
    "snd (key_spend now kid start s') \<le> snd (key_spend now kid start s) + ev_wallet_reserved_tokens ev"
  using assms
  by (auto simp: key_spend_def key_events_def Let_def spent_credits_def spent_wallet_def split: option.splits)

text \<open>C7: A key does not pass its caps by reserving. After a successful reservation under a request id that is new
  to the user, the credits the key has used in the current window of its cap are within the cap. Its dollar cap
  bounds the wallet only: when this reservation drew the wallet (and the configured prices are positive), the
  exact dollar amount of the key's wallet use in the window is within the cap; a reservation that the allowance
  covers is not checked against it.\<close>

theorem reservation_respects_caps:
  assumes ok: "service_ok s" and tok: "0 \<le> ra_prompt_tokens ra + ra_max_completion_tokens ra"
    and run: "reserve_inference_tokens cfg now user ra s = (Inr ev, s')"
    and new: "\<forall>q \<in> set (inference_usage_events s). \<not> requested (usr_id user) (effective_request_id ra) q"
    and key: "find (\<lambda>k. key_id k = ra_api_key_id ra) (api_keys s) = Some k"
  shows "(\<forall>cap. key_credit_limit k = Some cap \<longrightarrow>
            fst (key_spend now (key_id k) (fst (limit_window (key_limit_period k) now)) s') \<le> cap) \<and>
         (\<forall>cap. key_usd_limit_cents k = Some cap \<longrightarrow> 0 < ev_wallet_reserved_tokens ev \<longrightarrow>
            settings_ok cfg \<longrightarrow>
            wallet_tokens_to_usd_cents cfg
              (snd (key_spend now (key_id k) (fst (limit_window (key_limit_period k) now)) s')) \<le> cap * 1000000)"
proof (rule reserve_outcome [OF ok tok run])
  fix e assume e: "Inr ev = Inr e" "nothing_booked s s'"
    "find (requested (usr_id user) (effective_request_id ra)) (inference_usage_events s') = Some e"
  then have "e \<in> set (inference_usage_events s')" "requested (usr_id user) (effective_request_id ra) e"
    by (auto simp: find_Some_iff)
  moreover have "event_key ` set (inference_usage_events s') = event_key ` set (inference_usage_events s)"
    using e(2) by (metis nothing_booked_def set_map)
  ultimately have "\<exists>q \<in> set (inference_usage_events s). requested (usr_id user) (effective_request_id ra) q"
    by (smt (verit) event_key_def image_iff old.prod.inject requested_def)
  with new show ?thesis by blast
next
  fix e p t assume a: "Inr ev = Inr e" "nothing_booked s t" "owned_period (usr_id user) p t"
    "reserve_booked cfg now user ra (effective_request_id ra) p t e s'" "ready now (usr_id user) t"
  let ?raw = "ra_prompt_tokens ra + ra_max_completion_tokens ra" and ?kid = "ra_api_key_id ra"
  obtain m unl s1 s2 w where m: "0 \<le> m" "w = wallet_share unl (charged_token_count ?raw m) (per_remaining_tokens p)"
    "api_keys s2 = api_keys t" "inference_usage_events s2 = inference_usage_events t" "same_accounts t s1"
    "enforce_spend_limits cfg now (Some ?kid) (charged_token_count ?raw m) w s2 = (Inr (), s2)"
    "ev = new_event cfg now user ra (next_id s1) p (effective_request_id ra) m ?raw (charged_token_count ?raw m) w"
    "s' = book_new now p (per_used_tokens p + (charged_token_count ?raw m - w)) ev s1"
    using a(1,4) by (auto simp: reserve_booked_def Let_def)
  have w0: "0 \<le> w" using wallet_share_nonneg by (simp add: m(2))
  have r0: "0 \<le> charged_token_count ?raw m" by (rule charged_token_count_nonneg [OF tok m(1)])
  have kid: "key_id k = ?kid" using key by (auto simp: find_Some_iff)
  have "find (\<lambda>k. key_id k = ?kid) (api_keys s2) = Some k"
    using key m(3) a(2) by (simp add: nothing_booked_def)
  from enforce_spend_limits_pass [OF this, of cfg now "charged_token_count ?raw m" w] m(6)
  have caps: "within_caps cfg now k (charged_token_count ?raw m) w s2" by simp
  have ev: "ev_api_key_id ev = Some (key_id k)" "ev_status ev = Reserved"
    "ev_reserved_tokens ev = charged_token_count ?raw m" "ev_wallet_reserved_tokens ev = w"
    by (simp_all add: m(7) new_event_def kid)
  have "inference_usage_events s' = inference_usage_events s2 @ [ev]"
    using m(4,5,8) by (simp add: same_accounts_def)
  note sp = spend_after_booking [OF ev(1,2) _ _ this, of now "fst (limit_window (key_limit_period k) now)", unfolded ev(3,4), OF r0 w0]
  have mono: "wallet_tokens_to_usd_cents cfg x \<le> wallet_tokens_to_usd_cents cfg y" if "x \<le> y" "settings_ok cfg" for x y
    using that by (auto simp: wallet_tokens_to_usd_cents_def settings_ok_def intro: mult_right_mono)
  show ?thesis
    using caps sp mono [OF sp(2)] unfolding within_caps_def Let_def ev(4)
    by (meson add_left_mono order_trans)
qed simp

lemma reservation_respects_caps_witness:
  "fst (key_spend demo_now 2 None demo_reserved) \<le> 500"
proof -
  have "fst (key_spend demo_now (key_id demo_key) (fst (limit_window (key_limit_period demo_key) demo_now))
      demo_reserved) \<le> 500"
    using reservation_respects_caps [OF demo_accounts _ demo_reserves [unfolded demo_run_def], of demo_key]
    by (simp add: demo_args_def demo_ledger_def demo_key_def)
  then show ?thesis by (simp add: demo_key_def limit_window_def)
qed

lemma settle_replaces:
  assumes ok: "service_ok s" and e: "e \<in> set (inference_usage_events s)" "ev_status e = Reserved" "now < ev_expires_at e"
    and tok: "0 \<le> prompt + completion"
    and run: "settle_inference_usage now e prompt completion s = (Inr e', s')"
  shows "\<exists>p unl. p \<in> set (usage_periods s) \<and> per_id p = ev_usage_period_id e \<and>
    is_unlimited_subscriber (ev_user_id e) s = (Inr unl, s) \<and>
    inference_usage_events s' = replace_by ev_id e' (inference_usage_events s) \<and> same_event e e' \<and>
    ev_status e' = Settled \<and>
    ev_charged_tokens e' = charged_token_count (prompt + completion) (ev_model_multiplier e) \<and>
    ev_wallet_reserved_tokens e' = (if unl then 0 else max 0 (ev_charged_tokens e'
       - (per_remaining_tokens p + (ev_reserved_tokens e - ev_wallet_reserved_tokens e)))) \<and>
    usage_periods s' = replace_by per_id (with_used p (per_used_tokens p
       - (ev_reserved_tokens e - ev_wallet_reserved_tokens e)
       + (ev_charged_tokens e' - ev_wallet_reserved_tokens e'))) (usage_periods s) \<and>
    wallet_balance s' (ev_user_id e) = wallet_balance s (ev_user_id e)
       + (ev_wallet_reserved_tokens e - ev_wallet_reserved_tokens e')"
proof -
  have lok: "ledger_ok s" using ok by (simp add: service_ok_def)
  obtain p where p: "p \<in> set (usage_periods s)" "per_id p = ev_usage_period_id e"
    using event_period [OF lok e(1)] by blast
  have un: "snd (is_unlimited_subscriber (ev_user_id e) s) = s"
    using read_only_queries(2) by (simp add: read_only_def)
  have lp: "lock_period (ev_usage_period_id e) s = (Inr p, s)"
    using lock_period_run [OF ledger_okD(1) [OF lok] p(1)] p(2) by simp
  obtain unl where "fst (is_unlimited_subscriber (ev_user_id e) s) = Inr unl"
  proof (cases "fst (is_unlimited_subscriber (ev_user_id e) s)")
    case (Inl er)
    then have "is_unlimited_subscriber (ev_user_id e) s = (Inl er, s)" using un by (metis prod.collapse)
    then show ?thesis
      using run e(2,3) by (simp add: settle_inference_usage_def bind_def lp Let_def split_settlement_def)
  qed (use that in blast)
  then have unl: "is_unlimited_subscriber (ev_user_id e) s = (Inr unl, s)" using un by (metis prod.collapse)
  define w where "w = settle_share unl e p (charged_token_count (prompt + completion) (ev_model_multiplier e))"
  note sr = settle_live_run [OF lok e p unl tok refl w_def refl refl]
  have r: "e' = settled now e prompt completion w" "s' = rebook now p (per_used_tokens p - allowance_portion e
       + (charged_token_count (prompt + completion) (ev_model_multiplier e) - w)) (settled now e prompt completion w)
       (ev_wallet_reserved_tokens e - w) (net_kind (ev_wallet_reserved_tokens e - w)) (settle_ledger unl e w s)"
    using run unfolding sr by (auto split: if_splits)
  have a: "allowance_portion e = ev_reserved_tokens e - ev_wallet_reserved_tokens e"
    using e(2) by (simp add: allowance_portion_def)
  show ?thesis
    using p unl by (intro exI [of _ p] exI [of _ unl] conjI)
      (simp_all add: r same_event_def a, simp_all add: w_def settle_share_def wallet_share_def max_def min_def)
qed

lemma settle_event_in:
  assumes ok: "service_ok s" and e: "e \<in> set (inference_usage_events s)" "ev_status e = Reserved" "now < ev_expires_at e"
    and tok: "0 \<le> prompt + completion"
    and run: "settle_inference_usage now e prompt completion s = (Inr e', s')"
  shows "e' \<in> set (inference_usage_events s')"
proof -
  have "inference_usage_events s' = replace_by ev_id e' (inference_usage_events s)" "ev_id e' = ev_id e"
    using settle_replaces [OF ok e tok run] by (auto simp: same_event_def)
  then show ?thesis using e(1) by (auto simp: set_replace_by)
qed





text \<open>Settling or releasing an ended event books nothing: a settled event is returned as it is,
  whatever tokens are reported, a released or expired one is refused, and a release is ignored.\<close>

theorem ended_event_not_charged_again:
  "(ev_status e = Settled \<longrightarrow> settle_inference_usage now e prompt completion s = (Inr e, s)) \<and>
   (ev_status e = Expired \<or> ev_status e = Released \<longrightarrow>
      settle_inference_usage now e prompt completion s = (Inl (bad_request ''reservation_not_active''), s)) \<and>
   (ev_status e \<noteq> Reserved \<longrightarrow> release_inference_reservation now e s = (Inr (), s))"
  by (auto simp: settle_inference_usage_def release_inference_reservation_def)

lemma ended_event_not_charged_again_witness:
  "settle_inference_usage 5 (settled 0 demo_event 1 1 0) 900 900 demo_reserved
     = (Inr (settled 0 demo_event 1 1 0), demo_reserved)"
  using ended_event_not_charged_again [of "settled 0 demo_event 1 1 0" 5 900 900 demo_reserved] by simp

text \<open>Releasing a live reservation returns exactly what it held: the event is released, the
  period's use goes down by the allowance part, the wallet goes up by the wallet part.\<close>

theorem release_returns_reservation:
  assumes ok: "service_ok s" and e: "e \<in> set (inference_usage_events s)" "ev_status e = Reserved" "now < ev_expires_at e"
  shows "\<exists>p s'. release_inference_reservation now e s = (Inr (), s') \<and>
    p \<in> set (usage_periods s) \<and> per_id p = ev_usage_period_id e \<and>
    inference_usage_events s'
      = replace_by ev_id (e\<lparr>ev_status := Released, ev_released_at := Some now\<rparr>) (inference_usage_events s) \<and>
    usage_periods s' = replace_by per_id (with_used p (per_used_tokens p
       - (ev_reserved_tokens e - ev_wallet_reserved_tokens e))) (usage_periods s) \<and>
    wallet_balance s' (ev_user_id e) = wallet_balance s (ev_user_id e) + ev_wallet_reserved_tokens e \<and>
    service_ok s'"
proof -
  have lok: "ledger_ok s" using ok by (simp add: service_ok_def)
  obtain p where p: "p \<in> set (usage_periods s)" "per_id p = ev_usage_period_id e"
    using event_period [OF lok e(1)] by blast
  obtain s' where s': "release_inference_reservation now e s = (Inr (), s')" "service_ok s'"
    using release_service_ok [OF ok e(1)] by blast
  have a: "allowance_portion e = ev_reserved_tokens e - ev_wallet_reserved_tokens e"
    using e(2) by (simp add: allowance_portion_def)
  have "s' = rebook now p (per_used_tokens p - allowance_portion e) (closed now Released e)
      (ev_wallet_reserved_tokens e) ''refund'' s"
    using s'(1) give_back_run [OF lok e(1,2) p, of now Released] e(2,3)
    by (simp add: release_inference_reservation_def)
  then show ?thesis
    using s' p by (intro exI [of _ p] exI [of _ s']) (simp add: closed_def a)
qed

lemma release_returns_reservation_witness:
  "\<exists>(p :: usage_period) s'. release_inference_reservation demo_now demo_event demo_reserved = (Inr (), s') \<and>
     per_id p = 14 \<and> wallet_balance s' 1 = 100"
proof -
  have live: "ev_status demo_event = Reserved" "demo_now < ev_expires_at demo_event"
    by (simp_all add: demo_event_def)
  have "wallet_balance demo_reserved 1 = 80" by (simp add: demo_reserved_def wallet_balance_def)
  then have b: "wallet_balance demo_reserved 1 + ev_wallet_reserved_tokens demo_event = 100"
    "ev_user_id demo_event = 1" "ev_usage_period_id demo_event = 14" by (simp_all add: demo_event_def)
  show ?thesis
    using release_returns_reservation [OF demo_reserved_accounts demo_event_in live]
    unfolding b by blast
qed

text \<open>C10: Recalculation agrees with the bookkeeping. Recalculating the current period returns the
  user's period with the sum of the five allowances as total, the counters the bookkeeping keeps,
  and books nothing.\<close>

theorem recalculation_agrees:
  assumes "service_ok s" "recalculate_current_period cfg now user s = (Inr p, s')"
  shows "p \<in> set (usage_periods s') \<and> per_user_id p = usr_id user \<and>
    per_total_allowance p = per_stripe_allowance p + per_ethereum_erc20_allowance p
      + per_substrate_native_allowance p + per_subnet_stake_allowance p + per_manual_allowance p \<and>
    per_used_tokens p = booked (inference_usage_events s') (per_id p) \<and>
    per_remaining_tokens p = max 0 (per_total_allowance p - booked (inference_usage_events s') (per_id p)) \<and>
    swept now (usr_id user) s' \<and> nothing_booked s s'"
proof -
  have r: "ready now (usr_id user) s'" "owned_period (usr_id user) p s'"
    using tripleD [OF recalculate_ready assms] by simp_all
  then have "periods_ok s'" by (simp add: ready_def service_ok_def ledger_ok_def)
  moreover have "per_total_allowance p = per_stripe_allowance p + per_ethereum_erc20_allowance p
      + per_substrate_native_allowance p + per_subnet_stake_allowance p + per_manual_allowance p"
    using assms(2) unfolding recalculate_current_period_def
    by (auto simp: then_ok bind_ok Let_def split: prod.splits)
  ultimately show ?thesis
    using r recalculate_nothing_booked [OF _ assms(2)] assms(1)
    by (simp add: ready_def service_ok_def owned_period_def periods_ok_def)
qed

lemma recalculation_agrees_witness:
  "\<exists>p s'. recalculate_current_period demo_settings demo_now demo_user demo_reserved = (Inr p, s') \<and>
     per_used_tokens p = booked (inference_usage_events s') (per_id p) \<and> nothing_booked demo_reserved s'"
proof -
  obtain p s' where "recalculate_current_period demo_settings demo_now demo_user demo_reserved = (Inr p, s')"
    using demo_recalculates by (metis prod.collapse)
  then show ?thesis using recalculation_agrees [OF demo_reserved_accounts] by blast
qed

text \<open>C11: Settling can crash. When the user was moved to an unlimited plan after a reservation that
  drew the wallet, settling that reservation ends in the assertion on the wallet, although the
  comment states that such a reservation never has a wallet part.\<close>

theorem settlement_after_upgrade_fails:
  assumes "service_ok s" "e \<in> set (inference_usage_events s)" "ev_status e = Reserved" "now < ev_expires_at e"
    and "is_unlimited_subscriber (ev_user_id e) s = (Inr True, s)" "0 < ev_wallet_reserved_tokens e"
    and "0 \<le> prompt + completion"
  shows "fst (settle_inference_usage now e prompt completion s) = Inl (PyExc ''AssertionError'')"
proof -
  have lok: "ledger_ok s" using assms(1) by (simp add: service_ok_def)
  obtain p where p: "p \<in> set (usage_periods s)" "per_id p = ev_usage_period_id e"
    using event_period [OF lok assms(2)] by blast
  show ?thesis
    using settle_live_run [OF lok assms(2,3,4) p assms(5,7) refl refl refl refl] assms(6)
    by (simp add: settle_share_def wallet_share_def)
qed

lemma settlement_after_upgrade_fails_witness:
  "fst (settle_inference_usage demo_now demo_event 10 10 demo_upgraded) = Inl (PyExc ''AssertionError'')"
  by (rule settlement_after_upgrade_fails [OF demo_upgraded_accounts])
    (use demo_upgraded_unlimited in \<open>simp_all add: demo_upgraded_def demo_reserved_def demo_event_def\<close>)

text \<open>C39: A crashed settlement unbalances the books. After the assertion of a settlement failed, the routes release
  the reservation and commit: the release succeeds and returns the wallet part, but the period keeps the
  charge of the settlement that did not happen and loses the allowance part twice, so its counter is off by
  the difference of the two, unless that would be below zero.\<close>

theorem crashed_settlement_unbalances:
  assumes ok: "service_ok s" and e: "e \<in> set (inference_usage_events s)" "ev_status e = Reserved" "now < ev_expires_at e"
    and un: "is_unlimited_subscriber (ev_user_id e) s = (Inr True, s)" "0 < ev_wallet_reserved_tokens e"
    and tok: "0 \<le> prompt + completion"
    and crash: "settle_inference_usage now e prompt completion s = (r, s1)"
    and release: "release_inference_reservation now e s1 = (r', s2)"
  shows "r = Inl (PyExc ''AssertionError'') \<and> r' = Inr () \<and>
    inference_usage_events s2
      = replace_by ev_id (e\<lparr>ev_status := Released, ev_released_at := Some now\<rparr>) (inference_usage_events s) \<and>
    wallet_balance s2 (ev_user_id e) = wallet_balance s (ev_user_id e) + ev_wallet_reserved_tokens e \<and>
    (\<exists>p \<in> set (usage_periods s2). per_id p = ev_usage_period_id e \<and>
       per_used_tokens p = max 0 (booked (inference_usage_events s2) (per_id p)
         + charged_token_count (prompt + completion) (ev_model_multiplier e)
         - (ev_reserved_tokens e - ev_wallet_reserved_tokens e)))"
proof -
  have lok: "ledger_ok s" using ok by (simp add: service_ok_def)
  obtain p where p: "p \<in> set (usage_periods s)" "per_id p = ev_usage_period_id e"
    using event_period [OF lok e(1)] by blast
  define charged where "charged = charged_token_count (prompt + completion) (ev_model_multiplier e)"
  let ?q = "with_used p (per_used_tokens p - allowance_portion e + charged)"
  let ?closed = "e\<lparr>ev_status := Released, ev_released_at := Some now\<rparr>"
  have a: "allowance_portion e = ev_reserved_tokens e - ev_wallet_reserved_tokens e"
    using e(2) by (simp add: allowance_portion_def)
  have share: "settle_share True e p charged = 0" by (simp add: settle_share_def wallet_share_def)
  have s1: "r = Inl (PyExc ''AssertionError'')" "s1 = put_period ?q s"
    using crash un(2) unfolding settle_live_run [OF lok e p un(1) tok charged_def refl refl refl] by (simp_all add: share)
  have "keys_ok s1" using ledger_okD(1) [OF lok] p(1) by (auto simp: s1(2) keys_ok_def wallet_keys_def set_replace_by)
  moreover have "?q \<in> set (usage_periods s1)" using p(1) by (auto simp: s1(2) set_replace_by)
  ultimately have lock: "lock_period (ev_usage_period_id e) s1 = (Inr ?q, s1)"
    using lock_period_run [of s1 ?q] p(2) by simp
  have wk: "wallet_keys (put_period x s1)" for x using ledger_wallet_keys [OF lok] by (simp add: s1(2))
  let ?q2 = "with_used ?q (max 0 (per_used_tokens ?q - allowance_portion e))"
  have s2: "r' = Inr ()" "s2 = put_event ?closed
      (post now (ev_user_id e) (ev_wallet_reserved_tokens e) ''refund'' (put_period ?q2 s1))"
    using release e un(2)
    by (simp_all add: release_inference_reservation_def give_back_def bind_def then_do_def lock Let_def a
        refund_wallet_run [OF wk])
  have events: "inference_usage_events s2 = replace_by ev_id ?closed (inference_usage_events s)"
    by (simp add: s2(2) s1(2))
  have b: "booked (inference_usage_events s2) (per_id p) = per_used_tokens p - allowance_portion e"
    unfolding events using booked_replace [of "inference_usage_events s" e ?closed "per_id p"] e p lok
    by (simp add: ledger_ok_def keys_ok_def periods_ok_def same_event_def allowance_portion_def)
  have "usage_periods s2 = replace_by per_id ?q2 (replace_by per_id ?q (usage_periods s))"
    by (simp add: s2(2) s1(2))
  then have "?q2 \<in> set (usage_periods s2)" using p(1) by (auto simp: set_replace_by)
  moreover have "wallet_balance s2 (ev_user_id e) = wallet_balance s (ev_user_id e) + ev_wallet_reserved_tokens e"
    by (simp add: s2(2) s1(2) post_balance)
  ultimately show ?thesis
    using s1(1) s2(1) events b p(2) by (intro conjI bexI [of _ ?q2]) (simp_all add: a charged_def)
qed

lemma crashed_settlement_unbalances_witness:
  "\<exists>s2 p. release_inference_reservation demo_now demo_event
       (snd (settle_inference_usage demo_now demo_event 100 100 demo_upgraded)) = (Inr (), s2) \<and>
     p \<in> set (usage_periods s2) \<and> per_used_tokens p = 200 \<and> booked (inference_usage_events s2) (per_id p) = 0"
proof -
  obtain r s1 where run: "settle_inference_usage demo_now demo_event 100 100 demo_upgraded = (r, s1)" by force
  obtain r' s2 where rel: "release_inference_reservation demo_now demo_event s1 = (r', s2)" by force
  have e: "demo_event \<in> set (inference_usage_events demo_upgraded)" "ev_status demo_event = Reserved"
    "demo_now < ev_expires_at demo_event" "0 < ev_wallet_reserved_tokens demo_event"
    "is_unlimited_subscriber (ev_user_id demo_event) demo_upgraded = (Inr True, demo_upgraded)"
    using demo_upgraded_unlimited by (simp_all add: demo_upgraded_def demo_reserved_def demo_event_def)
  note all = crashed_settlement_unbalances [OF demo_upgraded_accounts e(1-3,5,4) _ run rel]
  have events: "inference_usage_events s2 = [demo_event\<lparr>ev_status := Released, ev_released_at := Some demo_now\<rparr>]"
    using all by (simp add: demo_upgraded_def demo_reserved_def replace_by_def)
  have "booked (inference_usage_events s2) x = 0" for x by (simp add: events booked_def allowance_portion_def)
  then show ?thesis using all run rel by (auto simp: demo_event_def charged_token_count_def)
qed

end
