(* ===== verification/Router.thy ===== *)
theory Router
  imports Keys UsageProps
begin

text \<open>
  The plane of the subnet routers (\<^verbatim>\<open>inference_api/router_service.py\<close> and
  \<^verbatim>\<open>router_routes.py\<close>): a router, itself authenticated by its token, validates, reserves,
  settles and releases on behalf of the owner of a user key. A route runs the service and commits;
  an error rolls the session back.
\<close>

section \<open>Sessions\<close>

definition transaction :: "('s, 'a) handler \<Rightarrow> ('s, 'a) handler" where
  "transaction h = (\<lambda>s. case h s of (r, s') \<Rightarrow> (case r of Inl e \<Rightarrow> (Inl e, s) | Inr x \<Rightarrow> (Inr x, s')))"

section \<open>Payloads and responses\<close>

record reservation_create =
  rc_request_id :: string
  rc_model :: string
  rc_input_tokens :: int
  rc_max_output_tokens :: int

definition reservation_create_valid :: "key_settings \<Rightarrow> reservation_create \<Rightarrow> bool" where
  "reservation_create_valid cfg p \<longleftrightarrow>
     1 \<le> length (rc_request_id p) \<and> length (rc_request_id p) \<le> 128 \<and>
     1 \<le> length (rc_model p) \<and> length (rc_model p) \<le> 120 \<and>
     1 \<le> rc_input_tokens p \<and> 1 \<le> rc_max_output_tokens p \<and>
     \<not> rc_input_tokens p > router_max_input_tokens cfg \<and>
     \<not> rc_max_output_tokens p > router_max_output_tokens cfg"

record usage_settle =
  us_reservation_id :: nat
  us_request_id :: string
  us_input_tokens :: int
  us_output_tokens :: int

definition usage_settle_valid :: "key_settings \<Rightarrow> usage_settle \<Rightarrow> bool" where
  "usage_settle_valid cfg p \<longleftrightarrow>
     1 \<le> length (us_request_id p) \<and> length (us_request_id p) \<le> 128 \<and>
     1 \<le> us_input_tokens p \<and> 0 \<le> us_output_tokens p \<and>
     \<not> us_input_tokens p > router_max_input_tokens cfg \<and>
     \<not> us_output_tokens p > router_max_output_tokens cfg"

record validation_response =
  vr_allowed :: bool
  vr_reason :: string
  vr_user_id :: nat
  vr_api_key_id :: nat
  vr_model :: string
  vr_estimated_tokens :: int
  vr_estimated_charged_tokens :: int
  vr_remaining_tokens :: int
  vr_model_multiplier :: decimal4

record reservation_response =
  rr_reservation_id :: nat
  rr_request_id :: string
  rr_status :: event_status
  rr_user_id :: nat
  rr_api_key_id :: "nat option"
  rr_router_client_id :: "nat option"
  rr_model :: string
  rr_input_tokens :: int
  rr_output_tokens :: int
  rr_raw_total_tokens :: int
  rr_reserved_tokens :: int
  rr_charged_tokens :: int
  rr_remaining_tokens :: int
  rr_expires_at :: time
  rr_settled_at :: "time option"
  rr_released_at :: "time option"

definition reservation_response :: "usage_event \<Rightarrow> usage_period \<Rightarrow> reservation_response" where
  "reservation_response event period =
     \<lparr>rr_reservation_id = ev_id event, rr_request_id = ev_request_id event, rr_status = ev_status event,
      rr_user_id = ev_user_id event, rr_api_key_id = ev_api_key_id event,
      rr_router_client_id = ev_router_client_id event, rr_model = ev_model event,
      rr_input_tokens = ev_prompt_tokens event, rr_output_tokens = ev_completion_tokens event,
      rr_raw_total_tokens = ev_raw_total_tokens event, rr_reserved_tokens = ev_reserved_tokens event,
      rr_charged_tokens = ev_charged_tokens event, rr_remaining_tokens = per_remaining_tokens period,
      rr_expires_at = ev_expires_at event, rr_settled_at = ev_settled_at event,
      rr_released_at = ev_released_at event\<rparr>"

section \<open>The service\<close>

definition check_model_allowed :: "api_key_row \<Rightarrow> string \<Rightarrow> error + unit" where
  "check_model_allowed db_key model =
     (case key_allowed_models db_key of None \<Rightarrow> Inr ()
      | Some models \<Rightarrow> if models \<noteq> [] \<and> model \<notin> set models then Inl forbidden else Inr ())"

text \<open>What one request fixes: the settings, the keyed hash, the instant, Redis.\<close>

record request_env =
  env_settings :: key_settings
  env_hash :: "string \<Rightarrow> string"
  env_now :: time
  env_redis :: "rate_store option"

definition authenticate_user_api_key ::
    "request_env \<Rightarrow> string \<Rightarrow> rate_store option \<Rightarrow> bool \<Rightarrow> (ledger, api_key_row \<times> user_row) handler" where
  "authenticate_user_api_key env raw_key redis_client apply_rate_limit =
     bind (authenticate_key (env_settings env) (env_hash env) (env_now env) raw_key redis_client apply_rate_limit None)
       (\<lambda>db_key.
        then_do (of_result (require_scopes db_key [''inference:write'']))
       (bind (gets (get_user (key_user_id db_key))) (\<lambda>user.
          case user of None \<Rightarrow> raise unauthorized
          | Some user \<Rightarrow> then_do (guard_or (usr_is_active user) forbidden) (ret (db_key, user)))))"

definition base_settings :: "request_env \<Rightarrow> settings" where
  "base_settings env = settings.truncate (env_settings env)"

text \<open>\<open>current_period\<close> is the recalculation.\<close>

definition validate_request ::
    "request_env \<Rightarrow> string \<Rightarrow> string \<Rightarrow> int \<Rightarrow> int \<Rightarrow> (ledger, validation_response) handler" where
  "validate_request env raw_key model input_tokens max_output_tokens =
     bind (authenticate_user_api_key env raw_key None False) (\<lambda>(db_key, user).
       then_do (of_result (check_model_allowed db_key model))
      (then_do (expire_stale_reservations (env_now env) (Some (usr_id user)))
      (bind (recalculate_current_period (base_settings env) (env_now env) user) (\<lambda>period.
       bind (multiplier_for_model model) (\<lambda>multiplier.
         let estimated_tokens = input_tokens + max_output_tokens;
             estimated_charged_tokens = charged_token_count estimated_tokens multiplier;
             allowed = (per_remaining_tokens period \<ge> estimated_charged_tokens)
         in ret \<lparr>vr_allowed = allowed, vr_reason = (if allowed then ''allowed'' else ''insufficient_credits''),
                 vr_user_id = usr_id user, vr_api_key_id = key_id db_key, vr_model = model,
                 vr_estimated_tokens = estimated_tokens,
                 vr_estimated_charged_tokens = estimated_charged_tokens,
                 vr_remaining_tokens = per_remaining_tokens period, vr_model_multiplier = multiplier\<rparr>)))))"

definition reservation_args ::
    "request_env \<Rightarrow> nat \<Rightarrow> api_key_row \<Rightarrow> reservation_create \<Rightarrow> string option \<Rightarrow> string \<Rightarrow> reserve_args" where
  "reservation_args env router_id db_key payload context_id random_id =
     \<lparr>ra_api_key_id = key_id db_key, ra_router_client_id = Some router_id, ra_miner_id = None,
      ra_miner_hotkey = None, ra_model = rc_model payload, ra_prompt_tokens = rc_input_tokens payload,
      ra_max_completion_tokens = rc_max_output_tokens payload,
      ra_request_id = Some (rc_request_id payload), ra_context_request_id = context_id,
      ra_random_request_id = random_id,
      ra_expires_at = Some (env_now env + router_reservation_ttl_seconds (env_settings env) * second_us)\<rparr>"

definition check_reserved ::
    "nat \<Rightarrow> api_key_row \<Rightarrow> reservation_create \<Rightarrow> usage_event \<Rightarrow> error + unit" where
  "check_reserved router_id db_key payload event =
     (if ev_status event = Expired then Inl (bad_request ''reservation_expired'')
      else if ev_status event \<noteq> Reserved then Inl (bad_request ''reservation_not_active'')
      else if ev_router_client_id event \<noteq> Some router_id then Inl forbidden
      else if ev_api_key_id event \<noteq> Some (key_id db_key) then Inl forbidden
      else if ev_model event \<noteq> rc_model payload \<or> ev_prompt_tokens event \<noteq> rc_input_tokens payload \<or>
         ev_raw_total_tokens event \<noteq> rc_input_tokens payload + rc_max_output_tokens payload
      then Inl (bad_request ''request_id_conflict'')
      else Inr ())"

definition create_reservation ::
    "request_env \<Rightarrow> nat \<Rightarrow> string \<Rightarrow> reservation_create \<Rightarrow> string option \<Rightarrow> string \<Rightarrow>
     (ledger, reservation_response) handler" where
  "create_reservation env router_id raw_key payload context_id random_id =
     bind (authenticate_user_api_key env raw_key (env_redis env) True) (\<lambda>(db_key, user).
       then_do (of_result (check_model_allowed db_key (rc_model payload)))
      (bind (reserve_inference_tokens (base_settings env) (env_now env) user
               (reservation_args env router_id db_key payload context_id random_id)) (\<lambda>event.
       then_do (of_result (check_reserved router_id db_key payload event))
      (bind (recalculate_current_period (base_settings env) (env_now env) user) (\<lambda>period.
         ret (reservation_response event period))))))"

definition get_router_event ::
    "nat \<Rightarrow> nat \<Rightarrow> api_key_row \<Rightarrow> string option \<Rightarrow> (ledger, usage_event) handler" where
  "get_router_event reservation_id router_id db_key request_id =
     bind (select_one_or_none (\<lambda>s. filter (\<lambda>e. ev_id e = reservation_id) (inference_usage_events s))) (\<lambda>found.
       case found of None \<Rightarrow> raise not_found
       | Some event \<Rightarrow>
           then_do (guard_or (\<not> (request_id \<noteq> None \<and> request_id \<noteq> Some (ev_request_id event))) forbidden)
          (then_do (guard_or (ev_router_client_id event = Some router_id) forbidden)
          (then_do (guard_or (ev_api_key_id event = Some (key_id db_key)) forbidden)
             (ret event))))"

definition settle_usage ::
    "request_env \<Rightarrow> web_request \<Rightarrow> nat \<Rightarrow> string \<Rightarrow> usage_settle \<Rightarrow> (keys_db, reservation_response) handler" where
  "settle_usage env request router_id raw_key payload =
     bind (on_ledger (authenticate_user_api_key env raw_key None False)) (\<lambda>(db_key, user).
       then_do (on_ledger (expire_stale_reservations (env_now env) (Some (usr_id user))))
      (bind (on_ledger (get_router_event (us_reservation_id payload) router_id db_key
               (Some (us_request_id payload)))) (\<lambda>event.
       then_do (guard_or (\<not> (ev_status event = Settled \<and>
                  (ev_prompt_tokens event \<noteq> us_input_tokens payload \<or>
                   ev_completion_tokens event \<noteq> us_output_tokens payload)))
                 (bad_request ''request_id_conflict''))
      (let already_settled = (ev_status event = Settled)
       in bind (on_ledger (settle_inference_usage (env_now env) event (us_input_tokens payload)
                 (us_output_tokens payload))) (\<lambda>event.
          then_do (if \<not> already_settled
                   then record_usage (env_now env) db_key request 200 (us_input_tokens payload)
                          (us_output_tokens payload) (Some (us_request_id payload))
                   else ret ())
         (bind (on_ledger (recalculate_current_period (base_settings env) (env_now env) user)) (\<lambda>period.
            ret (reservation_response event period))))))))"

text \<open>The event a caller holds is the row, so the response reads the row back after the release.\<close>

definition reread :: "usage_event \<Rightarrow> ledger \<Rightarrow> usage_event" where
  "reread event s = (case find (\<lambda>e. ev_id e = ev_id event) (inference_usage_events s) of
      None \<Rightarrow> event | Some e \<Rightarrow> e)"

definition release_reservation ::
    "request_env \<Rightarrow> nat \<Rightarrow> string \<Rightarrow> nat \<Rightarrow> (ledger, reservation_response) handler" where
  "release_reservation env router_id raw_key reservation_id =
     bind (authenticate_user_api_key env raw_key None False) (\<lambda>(db_key, user).
       then_do (expire_stale_reservations (env_now env) (Some (usr_id user)))
      (bind (get_router_event reservation_id router_id db_key None) (\<lambda>event.
       then_do (guard_or (ev_status event \<noteq> Settled) (bad_request ''reservation_already_settled''))
      (then_do (release_inference_reservation (env_now env) event)
      (bind (recalculate_current_period (base_settings env) (env_now env) user) (\<lambda>period.
       bind (gets (reread event)) (\<lambda>event.
         ret (reservation_response event period))))))))"

section \<open>The routes\<close>

definition raw_user_api_key_from_header :: "string option \<Rightarrow> error + string" where
  "raw_user_api_key_from_header x_user_api_key =
     (if truthy x_user_api_key then Inr (the x_user_api_key) else Inl unauthorized)"

definition router_client ::
    "request_env \<Rightarrow> (string \<times> string) option \<Rightarrow> (keys_db, nat) handler" where
  "router_client env credentials =
     bind (on_clients (current_router_client (env_settings env) (env_hash env) (env_now env) (env_redis env)
       credentials)) (\<lambda>client. ret (sc_id client))"

text \<open>The dependencies of a route (the header, the router's token) are resolved before its parameters
  and its body are validated.\<close>

definition router_route ::
    "request_env \<Rightarrow> (string \<times> string) option \<Rightarrow> string option \<Rightarrow> bool \<Rightarrow> (nat \<Rightarrow> string \<Rightarrow> (keys_db, 'a) handler) \<Rightarrow>
     (keys_db, 'a) handler" where
  "router_route env credentials x_user_api_key valid service =
     transaction
      (bind (of_result (raw_user_api_key_from_header x_user_api_key)) (\<lambda>raw_key.
       bind (router_client env credentials) (\<lambda>router_id.
       then_do (guard_or valid validation_error) (service router_id raw_key))))"

definition validate_route ::
    "request_env \<Rightarrow> (string \<times> string) option \<Rightarrow> string option \<Rightarrow> string \<Rightarrow> int \<Rightarrow> int \<Rightarrow>
     (keys_db, validation_response) handler" where
  "validate_route env credentials x_user_api_key model input_tokens max_output_tokens =
     router_route env credentials x_user_api_key
       (1 \<le> length model \<and> length model \<le> 120 \<and>
        1 \<le> input_tokens \<and> input_tokens \<le> router_max_input_tokens (env_settings env) \<and>
        1 \<le> max_output_tokens \<and> max_output_tokens \<le> router_max_output_tokens (env_settings env))
       (\<lambda>_ raw_key. on_ledger (validate_request env raw_key model input_tokens max_output_tokens))"

definition reserve_route ::
    "request_env \<Rightarrow> (string \<times> string) option \<Rightarrow> string option \<Rightarrow> reservation_create \<Rightarrow> string option \<Rightarrow> string \<Rightarrow>
     (keys_db, reservation_response) handler" where
  "reserve_route env credentials x_user_api_key payload context_id random_id =
     router_route env credentials x_user_api_key (reservation_create_valid (env_settings env) payload)
       (\<lambda>router_id raw_key. on_ledger (create_reservation env router_id raw_key payload context_id random_id))"

definition settle_route ::
    "request_env \<Rightarrow> web_request \<Rightarrow> (string \<times> string) option \<Rightarrow> string option \<Rightarrow> usage_settle \<Rightarrow>
     (keys_db, reservation_response) handler" where
  "settle_route env request credentials x_user_api_key payload =
     router_route env credentials x_user_api_key (usage_settle_valid (env_settings env) payload)
       (\<lambda>router_id raw_key. settle_usage env request router_id raw_key payload)"

definition release_route ::
    "request_env \<Rightarrow> (string \<times> string) option \<Rightarrow> string option \<Rightarrow> nat \<Rightarrow> (keys_db, reservation_response) handler" where
  "release_route env credentials x_user_api_key reservation_id =
     router_route env credentials x_user_api_key True
       (\<lambda>router_id raw_key. on_ledger (release_reservation env router_id raw_key reservation_id))"

end
