(* ===== verification/Forwarder.thy ===== *)
theory Forwarder
  imports Provisioner
begin

text \<open>
  Forwarding a request to an enclave and recording the attempt: \<^verbatim>\<open>TEEForwarder\<close> of
  \<^verbatim>\<open>inference_api/routing/forwarder.py\<close>, the accumulation of a stream, and
  \<^verbatim>\<open>stats_recorder.py\<close>. What the network answers, the decryption of a stored token, the clock and
  \<open>json.loads\<close> are the parameter \<open>network\<close>.
\<close>

section \<open>Values of a JSON body\<close>

definition json_field :: "string \<Rightarrow> json \<Rightarrow> json" where
  "json_field key body = (case body of JObj d \<Rightarrow> (case map_of d key of None \<Rightarrow> JNull | Some v \<Rightarrow> v) | _ \<Rightarrow> JNull)"

text \<open>\<open>int(value or fallback)\<close>.\<close>

definition int_or :: "json \<Rightarrow> int \<Rightarrow> error + int" where
  "int_or v fallback = (if json_true v then py_int v else Inr fallback)"

record token_usage =
  tu_prompt_tokens :: int
  tu_completion_tokens :: int
  tu_total_tokens :: int

definition no_usage :: token_usage where
  "no_usage = \<lparr>tu_prompt_tokens = 0, tu_completion_tokens = 0, tu_total_tokens = 0\<rparr>"

definition usage_from_dict :: "json \<Rightarrow> error + token_usage" where
  "usage_from_dict data =
     (case data of JObj _ \<Rightarrow>
        (case int_or (json_field ''prompt_tokens'' data) 0 of Inl e \<Rightarrow> Inl e | Inr prompt \<Rightarrow>
         case int_or (json_field ''completion_tokens'' data) 0 of Inl e \<Rightarrow> Inl e | Inr completion \<Rightarrow>
         case int_or (json_field ''total_tokens'' data) (prompt + completion) of Inl e \<Rightarrow> Inl e | Inr tokens \<Rightarrow>
           Inr \<lparr>tu_prompt_tokens = prompt, tu_completion_tokens = completion, tu_total_tokens = tokens\<rparr>)
      | _ \<Rightarrow> Inr no_usage)"

section \<open>The network\<close>

text \<open>An answer has its status and its body, or the exception that decoding it raises.\<close>

datatype exchange = PinMismatch | TransportFailure bool | Answer int "error + json"

record network =
  net_decrypt :: "string \<Rightarrow> error + string"
  net_pinned :: "miner_candidate \<Rightarrow> bool"
  net_post :: "miner_candidate \<Rightarrow> string \<Rightarrow> nat \<Rightarrow> exchange"
  net_open :: "miner_candidate \<Rightarrow> string \<Rightarrow> exchange"
  net_elapsed_ms :: "miner_candidate \<Rightarrow> int"
  net_ttft_ms :: "miner_candidate \<Rightarrow> int"
  net_loads :: "string \<Rightarrow> json option"

record forward_error =
  fe_outcome :: string
  fe_latency_ms :: "int option"
  fe_http_status :: "int option"

record forward_result =
  fr_candidate :: miner_candidate
  fr_status_code :: int
  fr_body :: json
  fr_usage :: token_usage
  fr_latency_ms :: int

definition elapsed_ms :: "network \<Rightarrow> miner_candidate \<Rightarrow> int" where
  "elapsed_ms net c = max 0 (net_elapsed_ms net c)"

definition transport_outcome :: "bool \<Rightarrow> string" where
  "transport_outcome timeout = (if timeout then ''timeout'' else ''forward_error'')"

definition active_token :: "nat \<Rightarrow> string \<Rightarrow> miners_db \<Rightarrow> provisioned_token option" where
  "active_token mid model_id s =
     find (\<lambda>t. pt_miner_id t = mid \<and> pt_status t = TokenActive \<and> pt_model_id t = Some model_id) (provisioned_tokens s)"

text \<open>The bearer and the pinned client: no active token and no pin are \<open>ForwardError\<close>s, the second
  with a latency of zero.\<close>

definition prepare_forward ::
    "network \<Rightarrow> miner_candidate \<Rightarrow> (miners_db, forward_error + string) handler" where
  "prepare_forward net c =
     bind (gets (active_token (cd_miner_id c) (cd_model_id c))) (\<lambda>token.
       case token of
         None \<Rightarrow> ret (Inl \<lparr>fe_outcome = ''no_token'', fe_latency_ms = None, fe_http_status = None\<rparr>)
       | Some t \<Rightarrow>
           bind (of_result (net_decrypt net (pt_encrypted_token t))) (\<lambda>bearer.
             if net_pinned net c then ret (Inr bearer)
             else ret (Inl \<lparr>fe_outcome = ''no_pin'', fe_latency_ms = Some 0, fe_http_status = None\<rparr>)))"

text \<open>One attempt; \<open>None\<close> asks for the retry after a 401.\<close>

definition forward_attempt ::
    "network \<Rightarrow> miner_candidate \<Rightarrow> nat \<Rightarrow> (miners_db, (forward_error + forward_result) option) handler" where
  "forward_attempt net c attempt =
     bind (prepare_forward net c) (\<lambda>prepared.
       case prepared of Inl e \<Rightarrow> ret (Some (Inl e))
       | Inr bearer \<Rightarrow>
           (case net_post net c bearer attempt of
              PinMismatch \<Rightarrow>
                then_do (modify (mark_stale (cd_miner_id c)))
                  (ret (Some (Inl \<lparr>fe_outcome = ''pin_mismatch'', fe_latency_ms = Some (elapsed_ms net c),
                                   fe_http_status = None\<rparr>)))
            | TransportFailure timeout \<Rightarrow>
                ret (Some (Inl \<lparr>fe_outcome = transport_outcome timeout, fe_latency_ms = Some (elapsed_ms net c),
                               fe_http_status = None\<rparr>))
            | Answer status body \<Rightarrow>
                if status = 401 \<and> attempt = 1 then ret None
                else if status \<ge> 400 then
                  ret (Some (Inl \<lparr>fe_outcome = ''http_error'', fe_latency_ms = Some (elapsed_ms net c),
                                 fe_http_status = Some status\<rparr>))
                else bind (of_result body) (\<lambda>body.
                     bind (of_result (usage_from_dict (json_field ''usage'' body))) (\<lambda>usage.
                       ret (Some (Inr \<lparr>fr_candidate = c, fr_status_code = status, fr_body = body,
                                       fr_usage = usage, fr_latency_ms = elapsed_ms net c\<rparr>))))))"

definition forward ::
    "network \<Rightarrow> miner_candidate \<Rightarrow> (miners_db, forward_error + forward_result) handler" where
  "forward net c =
     bind (forward_attempt net c 1) (\<lambda>first.
       case first of Some r \<Rightarrow> ret r
       | None \<Rightarrow> bind (forward_attempt net c 2) (\<lambda>second.
           case second of Some r \<Rightarrow> ret r
           | None \<Rightarrow> ret (Inl \<lparr>fe_outcome = ''http_error'', fe_latency_ms = Some (elapsed_ms net c),
                              fe_http_status = Some 401\<rparr>)))"

section \<open>Streams\<close>

record stream_state =
  st_usage :: token_usage
  st_seen_payload :: bool
  st_content_chunks :: nat

definition stream_start :: stream_state where
  "stream_start = \<lparr>st_usage = no_usage, st_seen_payload = False, st_content_chunks = 0\<rparr>"

text \<open>Whether a choice carries generated text: \<open>delta.content or delta.reasoning_content\<close>, or else the
  choice's own \<open>text\<close>.\<close>

definition choice_has_text :: "json \<Rightarrow> bool" where
  "choice_has_text choice =
     (case choice of JObj _ \<Rightarrow>
        (let delta = json_field ''delta'' choice
         in json_true (json_field ''content'' delta) \<or> json_true (json_field ''reasoning_content'' delta) \<or>
            json_true (json_field ''text'' choice))
      | _ \<Rightarrow> False)"

definition is_json_object :: "json \<Rightarrow> bool" where
  "is_json_object v = (case v of JObj _ \<Rightarrow> True | _ \<Rightarrow> False)"

text \<open>One \<open>data:\<close> line. The only exception is a usage object whose counts are no numbers; the
  choices of its line are then not counted.\<close>

definition accumulate_line :: "network \<Rightarrow> string \<Rightarrow> stream_state \<Rightarrow> stream_state \<times> error option" where
  "accumulate_line net raw st =
     (let line = strip raw in
      if \<not> starts_with ''data:'' line then (st, None)
      else (let payload = strip (drop 5 line) in
        if payload = [] \<or> payload = ''[DONE]'' then (st, None)
        else (let st = st\<lparr>st_seen_payload := True\<rparr> in
          case net_loads net payload of None \<Rightarrow> (st, None)
          | Some obj \<Rightarrow>
              (let usage = json_field ''usage'' obj;
                   counted = (case json_field ''choices'' obj of
                       JList choices \<Rightarrow> length (filter choice_has_text choices) | _ \<Rightarrow> 0)
               in case (if is_json_object usage then usage_from_dict usage else Inr (st_usage st)) of
                    Inl e \<Rightarrow> (st, Some e)
                  | Inr u \<Rightarrow> (st\<lparr>st_usage := u, st_content_chunks := st_content_chunks st + counted\<rparr>, None)))))"

fun accumulate_lines :: "network \<Rightarrow> string list \<Rightarrow> stream_state \<Rightarrow> stream_state \<times> error option" where
  "accumulate_lines net [] st = (st, None)"
| "accumulate_lines net (l # ls) st =
     (case accumulate_line net l st of
        (st', Some e) \<Rightarrow> (st', Some e) | (st', None) \<Rightarrow> accumulate_lines net ls st')"

definition accumulate :: "network \<Rightarrow> string \<Rightarrow> stream_state \<Rightarrow> stream_state \<times> error option" where
  "accumulate net raw st = accumulate_lines net (split_on (CHR 0x0A) raw) st"

text \<open>What is accumulated when the reads of a response have been taken, up to the end of the stream,
  to the disconnect of the client or to an exception.\<close>

fun drain :: "network \<Rightarrow> string list \<Rightarrow> stream_state \<Rightarrow> stream_state" where
  "drain net [] st = st"
| "drain net (raw # reads) st =
     (case accumulate net raw st of (st', Some _) \<Rightarrow> st' | (st', None) \<Rightarrow> drain net reads st')"

text \<open>Opening a stream: one attempt, without the retry of \<open>forward\<close>.\<close>

definition forward_stream :: "network \<Rightarrow> miner_candidate \<Rightarrow> (miners_db, forward_error + miner_candidate) handler" where
  "forward_stream net c =
     bind (prepare_forward net c) (\<lambda>prepared.
       case prepared of Inl e \<Rightarrow> ret (Inl e)
       | Inr bearer \<Rightarrow>
           (case net_open net c bearer of
              PinMismatch \<Rightarrow>
                then_do (modify (mark_stale (cd_miner_id c)))
                  (ret (Inl \<lparr>fe_outcome = ''pin_mismatch'', fe_latency_ms = Some (elapsed_ms net c),
                             fe_http_status = None\<rparr>))
            | TransportFailure timeout \<Rightarrow>
                ret (Inl \<lparr>fe_outcome = transport_outcome timeout, fe_latency_ms = Some (elapsed_ms net c),
                         fe_http_status = None\<rparr>)
            | Answer status _ \<Rightarrow>
                if status \<ge> 400 then
                  ret (Inl \<lparr>fe_outcome = ''http_error'', fe_latency_ms = Some (elapsed_ms net c),
                           fe_http_status = Some status\<rparr>)
                else ret (Inr c)))"

section \<open>Recording attempts\<close>

definition record_attempt ::
    "time \<Rightarrow> int option \<Rightarrow> miner_candidate \<Rightarrow> string \<Rightarrow> string \<Rightarrow> int option \<Rightarrow> int option \<Rightarrow> int option \<Rightarrow>
     int \<Rightarrow> int \<Rightarrow> int \<Rightarrow> (miners_db, unit) handler" where
  "record_attempt now epoch c outcome request_id http_status latency_ms ttft_ms prompt completion tokens =
     modify (\<lambda>s. s\<lparr>miner_request_stats := miner_request_stats s @
         [\<lparr>rs_id = md_next s, rs_epoch = epoch, rs_miner_id = Some (cd_miner_id c),
           rs_miner_hotkey = cd_hotkey c, rs_subnet_node_id = cd_subnet_node_id c,
           rs_miner_model_id = Some (cd_miner_model_id c), rs_model_id = cd_model_id c,
           rs_model_version = cd_model_version c, rs_model_hash = cd_model_hash c,
           rs_request_id = Some request_id, rs_outcome = outcome, rs_http_status = http_status,
           rs_latency_ms = latency_ms, rs_ttft_ms = ttft_ms, rs_prompt_tokens = max 0 prompt,
           rs_completion_tokens = max 0 completion, rs_total_tokens = max 0 tokens, rs_verified = False,
           rs_created_at = now\<rparr>],
       md_next := Suc (md_next s)\<rparr>)"

definition record_success ::
    "time \<Rightarrow> int option \<Rightarrow> forward_result \<Rightarrow> string \<Rightarrow> int \<Rightarrow> int \<Rightarrow> (miners_db, unit) handler" where
  "record_success now epoch result request_id prompt completion =
     record_attempt now epoch (fr_candidate result) ''success'' request_id (Some (fr_status_code result))
       (Some (fr_latency_ms result)) None prompt completion
       (if tu_total_tokens (fr_usage result) \<noteq> 0 then tu_total_tokens (fr_usage result) else prompt + completion)"

definition record_stream_success ::
    "time \<Rightarrow> int option \<Rightarrow> miner_candidate \<Rightarrow> int \<Rightarrow> int option \<Rightarrow> stream_state \<Rightarrow> string \<Rightarrow> (miners_db, unit) handler" where
  "record_stream_success now epoch c latency_ms ttft_ms st request_id =
     (let u = st_usage st
      in record_attempt now epoch c ''success'' request_id (Some 200) (Some latency_ms) ttft_ms
           (tu_prompt_tokens u) (tu_completion_tokens u)
           (if tu_total_tokens u \<noteq> 0 then tu_total_tokens u else tu_prompt_tokens u + tu_completion_tokens u))"

definition record_failure ::
    "time \<Rightarrow> int option \<Rightarrow> miner_candidate \<Rightarrow> forward_error \<Rightarrow> string \<Rightarrow> (miners_db, unit) handler" where
  "record_failure now epoch c e request_id =
     record_attempt now epoch c (if fe_outcome e \<noteq> [] then fe_outcome e else ''forward_error'') request_id
       (fe_http_status e) (fe_latency_ms e) None 0 0 0"

end
