(* ===== verification/Inference.thy ===== *)
theory Inference
  imports Router Forwarder
begin

text \<open>
  The inference routes of \<^verbatim>\<open>inference_api/product_routes.py\<close>: a request is reserved once, forwarded
  to the ranked candidates with failover, and settled with the token counts the enclave reports, or
  released. The development echo (\<^verbatim>\<open>mesh.py\<close>), the streamed pass-through, the model catalogue and the
  conversion of chat messages are here too. The content of the signed receipt of an answer is left
  out; signing it is the parameter \<open>env_sign\<close>, which may fail.

  A handler's \<open>Inl\<close> is an error the session is rolled back for; an answer \<open>Inl\<close> inside \<open>Inr\<close> is an
  error raised after the code committed.
\<close>

section \<open>State\<close>

record product_db = keys_db +
  pd_miners :: miners_db

definition on_miners :: "(miners_db, 'a) handler \<Rightarrow> ('z product_db_scheme, 'a) handler" where
  "on_miners h = (\<lambda>s. case h (pd_miners s) of (r, m) \<Rightarrow> (r, s\<lparr>pd_miners := m\<rparr>))"

record inference_request =
  ir_model :: string
  ir_prompt :: string
  ir_max_tokens :: int

record inference_env = request_env +
  env_network :: network
  env_shuffle :: "miner_candidate list \<Rightarrow> miner_candidate list"
  env_served_at :: time
  env_epoch :: "int option"
  env_forward_max_attempts :: nat
  env_allow_dev_echo_fallback :: bool
  env_mesh :: "(error + string \<times> int option) option"
  env_context_id :: "string option"
  env_random_id :: string
  env_web :: web_request
  env_resolve :: "client_request \<Rightarrow> string option"
  env_sign :: "miner_candidate \<Rightarrow> error + unit"

record execution =
  ex_output :: string
  ex_input_tokens :: int
  ex_output_tokens :: int
  ex_charged_tokens :: int
  ex_remaining_tokens :: int
  ex_request_id :: string
  ex_attested :: bool
  ex_candidate :: "miner_candidate option"

section \<open>The catalogue\<close>

definition registered_rows :: "miners_db \<Rightarrow> miner_model list" where
  "registered_rows s =
     [mm. mm \<leftarrow> miner_models s, m \<leftarrow> miners s, mn_id m = mm_miner_id mm \<and>
        mn_attestation_status m \<noteq> AttestationRevoked]"

definition all_registered_model_ids :: "miners_db \<Rightarrow> string list" where
  "all_registered_model_ids s = remdups (map mm_model_id (registered_rows s))"

definition is_model_registered :: "string \<Rightarrow> miners_db \<Rightarrow> bool" where
  "is_model_registered model_id s \<longleftrightarrow> filter (\<lambda>mm. mm_model_id mm = model_id) (registered_rows s) \<noteq> []"

definition model_not_found :: error where "model_not_found = HttpError 404 ''model_not_found''"

datatype model_status = ModelAvailable | ModelDegraded

definition model_status_of :: "string \<Rightarrow> miners_db \<Rightarrow> model_status" where
  "model_status_of model_id s =
     (if model_id \<in> set (list_available_models s) then ModelAvailable else ModelDegraded)"

definition key_may_use :: "api_key_row \<Rightarrow> string \<Rightarrow> bool" where
  "key_may_use db_key model_id =
     (case key_allowed_models db_key of None \<Rightarrow> True | Some ms \<Rightarrow> ms = [] \<or> model_id \<in> set ms)"

definition list_models :: "api_key_row \<Rightarrow> miners_db \<Rightarrow> (string \<times> model_status) list" where
  "list_models db_key s =
     map (\<lambda>i. (i, model_status_of i s)) (sort (filter (key_may_use db_key) (all_registered_model_ids s)))"

definition get_model :: "api_key_row \<Rightarrow> string \<Rightarrow> miners_db \<Rightarrow> error + model_status" where
  "get_model db_key model_id s =
     (if \<not> key_may_use db_key model_id then Inl not_found
      else if model_id \<in> set (list_available_models s) then Inr ModelAvailable
      else if is_model_registered model_id s then Inr ModelDegraded else Inl not_found)"

section \<open>Prompts and answers\<close>

definition input_tokens_of :: "string \<Rightarrow> int" where
  "input_tokens_of prompt = max 1 (int (length (split_ws prompt)))"

text \<open>The text of a completion. A truthy \<open>choices\<close> that is not a list raises or has no first message.\<close>

definition message_text :: "json \<Rightarrow> string" where
  "message_text choice =
     (case json_field ''content'' (json_field ''message'' choice) of JStr t \<Rightarrow> t | _ \<Rightarrow> [])"

definition text_from_completion :: "json \<Rightarrow> error + string" where
  "text_from_completion body =
     (case body of JObj _ \<Rightarrow>
        (let choices = json_field ''choices'' body
         in if \<not> json_true choices then Inr []
            else (case choices of JList (c # _) \<Rightarrow> Inr (message_text c)
                  | JStr _ \<Rightarrow> Inr [] | JObj _ \<Rightarrow> Inl (PyExc ''KeyError'') | _ \<Rightarrow> Inl (PyExc ''TypeError'')))
      | _ \<Rightarrow> Inr [])"

record content_part =
  cp_type :: string
  cp_text :: "string option"

datatype message_content = NoContent | TextContent string | PartsContent "content_part option list"

definition text_from_openai_content :: "message_content \<Rightarrow> string" where
  "text_from_openai_content content =
     (case content of NoContent \<Rightarrow> [] | TextContent t \<Rightarrow> t
      | PartsContent parts \<Rightarrow> join [CHR 0x0A] [the (cp_text p). Some p \<leftarrow> parts,
          (cp_type p = ''text'' \<or> cp_type p = ''input_text'') \<and> cp_text p \<noteq> None])"

definition prompt_from_openai_messages :: "(string \<times> message_content) list \<Rightarrow> error + string" where
  "prompt_from_openai_messages messages =
     (let parts = [role @ '': '' @ strip (text_from_openai_content content). (role, content) \<leftarrow> messages,
                     strip (text_from_openai_content content) \<noteq> []]
      in if parts = [] then Inl (bad_request ''invalid_messages'') else Inr (join [CHR 0x0A, CHR 0x0A] parts))"

definition prompt_max_length :: nat where "prompt_max_length = 20000"

definition chat_payload :: "string \<Rightarrow> (string \<times> message_content) list \<Rightarrow> int \<Rightarrow> error + inference_request" where
  "chat_payload model messages max_tokens =
     (case prompt_from_openai_messages messages of Inl e \<Rightarrow> Inl e
      | Inr prompt \<Rightarrow>
          if length prompt > prompt_max_length then Inl (HttpError 413 ''prompt_too_long'')
          else if max_tokens < 1 \<or> max_tokens > 4096 then Inl (HttpError 422 ''invalid_request'')
          else Inr \<lparr>ir_model = model, ir_prompt = prompt, ir_max_tokens = max_tokens\<rparr>)"

section \<open>Reserve, forward, settle\<close>

definition inference_args :: "inference_env \<Rightarrow> api_key_row \<Rightarrow> inference_request \<Rightarrow> int \<Rightarrow> reserve_args" where
  "inference_args env db_key payload input_tokens =
     \<lparr>ra_api_key_id = key_id db_key, ra_router_client_id = None, ra_miner_id = None, ra_miner_hotkey = None,
      ra_model = ir_model payload, ra_prompt_tokens = input_tokens,
      ra_max_completion_tokens = ir_max_tokens payload + 1, ra_request_id = None,
      ra_context_request_id = env_context_id env, ra_random_request_id = env_random_id env,
      ra_expires_at = None\<rparr>"

definition product_settings :: "inference_env \<Rightarrow> settings" where
  "product_settings env = settings.truncate (env_settings env)"

text \<open>The reservation is made at \<open>env_now\<close>, and everything after the forwards happens at
  \<open>env_served_at\<close>.\<close>

text \<open>The forwards: each failure is recorded before the next candidate is tried.\<close>

primrec forward_all ::
    "inference_env \<Rightarrow> string \<Rightarrow> miner_candidate list \<Rightarrow> (miners_db, forward_result option) handler" where
  "forward_all env request_id [] = ret None"
| "forward_all env request_id (c # cs) =
     bind (forward (env_network env) c) (\<lambda>outcome.
       case outcome of
         Inl e \<Rightarrow> then_do (record_failure (env_served_at env) (env_epoch env) c e request_id)
                    (forward_all env request_id cs)
       | Inr result \<Rightarrow> ret (Some result))"

text \<open>The serving miner is stamped onto the settled event.\<close>

definition attributed :: "miner_candidate \<Rightarrow> usage_event \<Rightarrow> usage_event" where
  "attributed c e = e\<lparr>ev_miner_id := Some (cd_miner_id c), ev_miner_hotkey := Some (cd_hotkey c),
     ev_miner_model_hash := cd_model_hash c\<rparr>"

definition or_count :: "int \<Rightarrow> int \<Rightarrow> int" where
  "or_count n fallback = (if n \<noteq> 0 then n else fallback)"

definition settle_served ::
    "inference_env \<Rightarrow> api_key_row \<Rightarrow> user_row \<Rightarrow> int \<Rightarrow> usage_event \<Rightarrow> forward_result \<Rightarrow>
     (product_db, execution) handler" where
  "settle_served env db_key user input_tokens event result =
     bind (of_result (text_from_completion (fr_body result))) (\<lambda>output.
       let u = fr_usage result;
           output_tokens = or_count (tu_completion_tokens u) (input_tokens_of output);
           prompt_tokens = or_count (tu_prompt_tokens u) input_tokens;
           c = fr_candidate result
       in bind (on_ledger (settle_inference_usage (env_served_at env) event prompt_tokens output_tokens)) (\<lambda>settled.
          let settled = attributed c settled
          in then_do (on_ledger (modify (put_event settled)))
            (then_do (on_miners (record_success (env_served_at env) (env_epoch env) result (ev_request_id event)
                        prompt_tokens output_tokens))
            (then_do (record_usage (env_served_at env) db_key (env_web env) 200 prompt_tokens output_tokens None)
            (bind (on_ledger (recalculate_current_period (product_settings env) (env_served_at env) user)) (\<lambda>period.
             then_do (of_result (env_sign env c))
               (ret \<lparr>ex_output = output, ex_input_tokens = prompt_tokens, ex_output_tokens = output_tokens,
                     ex_charged_tokens = ev_charged_tokens settled,
                     ex_remaining_tokens = per_remaining_tokens period, ex_request_id = ev_request_id event,
                     ex_attested = True, ex_candidate = Some c\<rparr>)))))))"

text \<open>The \<open>except\<close> clause: whatever failed, the reservation is released as its row now stands, the
  session is committed, and the error is raised.\<close>

definition release_and_raise :: "inference_env \<Rightarrow> usage_event \<Rightarrow> error \<Rightarrow> (product_db, error + 'a) handler" where
  "release_and_raise env event e =
     bind (on_ledger (gets (reread event))) (\<lambda>event.
       then_do (on_ledger (release_inference_reservation (env_served_at env) event)) (ret (Inl e)))"

definition forward_and_settle ::
    "inference_env \<Rightarrow> api_key_row \<Rightarrow> user_row \<Rightarrow> int \<Rightarrow> usage_event \<Rightarrow> miner_candidate list \<Rightarrow>
     (product_db, execution option) handler" where
  "forward_and_settle env db_key user input_tokens event cands =
     bind (on_miners (forward_all env (ev_request_id event) cands)) (\<lambda>served.
       case served of
         None \<Rightarrow> then_do (on_ledger (release_inference_reservation (env_served_at env) event)) (ret None)
       | Some result \<Rightarrow> bind (settle_served env db_key user input_tokens event result) (\<lambda>x. ret (Some x)))"

definition serve ::
    "inference_env \<Rightarrow> api_key_row \<Rightarrow> user_row \<Rightarrow> int \<Rightarrow> usage_event \<Rightarrow> miner_candidate list \<Rightarrow>
     (product_db, error + execution) handler" where
  "serve env db_key user input_tokens event cands =
     on_error (forward_and_settle env db_key user input_tokens event cands)
       (release_and_raise env event)
       (\<lambda>served. ret (case served of None \<Rightarrow> Inl (service_unavailable ''forward_failed'') | Some x \<Rightarrow> Inr x))"

section \<open>The development echo\<close>

text \<open>Without a mesh router the prompt is echoed; with one the answer is a parameter.\<close>

definition mesh_run :: "inference_env \<Rightarrow> inference_request \<Rightarrow> error + string \<times> int option" where
  "mesh_run env payload =
     (case env_mesh env of
        None \<Rightarrow> Inr (''[UNATTESTED-DEV-ECHO] Echo: '' @ take (nat (ir_max_tokens payload)) (ir_prompt payload), None)
      | Some answer \<Rightarrow> answer)"

definition mesh_answer ::
    "inference_env \<Rightarrow> api_key_row \<Rightarrow> inference_request \<Rightarrow> usage_event \<Rightarrow> (product_db, string \<times> int) handler" where
  "mesh_answer env db_key payload event =
     bind (of_result (mesh_run env payload)) (\<lambda>(output, output_tokens).
       then_do (on_ledger (release_inference_reservation (env_served_at env) event))
      (then_do (record_usage (env_served_at env) db_key (env_web env) 200 0 0 None)
         (ret (output, or_count (case output_tokens of None \<Rightarrow> 0 | Some n \<Rightarrow> n) (input_tokens_of output)))))"

definition mesh_execution :: "int \<Rightarrow> usage_event \<Rightarrow> string \<times> int \<Rightarrow> usage_period \<Rightarrow> execution" where
  "mesh_execution input_tokens event answer period =
     \<lparr>ex_output = fst answer, ex_input_tokens = input_tokens, ex_output_tokens = snd answer, ex_charged_tokens = 0,
      ex_remaining_tokens = per_remaining_tokens period, ex_request_id = ev_request_id event, ex_attested = False,
      ex_candidate = None\<rparr>"

definition mesh_serve ::
    "inference_env \<Rightarrow> api_key_row \<Rightarrow> user_row \<Rightarrow> inference_request \<Rightarrow> int \<Rightarrow> (product_db, error + execution) handler" where
  "mesh_serve env db_key user payload input_tokens =
     bind (on_ledger (reserve_inference_tokens (product_settings env) (env_now env) user
             (inference_args env db_key payload input_tokens))) (\<lambda>event.
       on_error (mesh_answer env db_key payload event) (release_and_raise env event)
         (\<lambda>answer. bind (on_ledger (recalculate_current_period (product_settings env) (env_served_at env) user))
            (\<lambda>period. ret (Inr (mesh_execution input_tokens event answer period)))))"

section \<open>The route\<close>

definition select_for :: "inference_env \<Rightarrow> string \<Rightarrow> product_db \<Rightarrow> error + miner_candidate list" where
  "select_for env model s = select_candidates (env_shuffle env) (env_now env) model False (pd_miners s)"

definition key_owner_row :: "api_key_row \<Rightarrow> (product_db, user_row) handler" where
  "key_owner_row db_key =
     bind (on_ledger (gets (get_user (key_user_id db_key)))) (\<lambda>user.
       case user of None \<Rightarrow> raise unauthorized | Some user \<Rightarrow> ret user)"

definition execute_inference ::
    "inference_env \<Rightarrow> inference_request \<Rightarrow> api_key_row \<Rightarrow> (product_db, error + execution) handler" where
  "execute_inference env payload db_key =
     then_do (of_result (check_model_allowed db_key (ir_model payload)))
    (bind (key_owner_row db_key) (\<lambda>user.
       let input_tokens = input_tokens_of (ir_prompt payload)
       in bind (gets (select_for env (ir_model payload))) (\<lambda>selected. bind (of_result selected) (\<lambda>cands.
          if cands = [] then
            if env_allow_dev_echo_fallback env then mesh_serve env db_key user payload input_tokens
            else bind (gets (\<lambda>s. is_model_registered (ir_model payload) (pd_miners s))) (\<lambda>known.
                   raise (if known then service_unavailable ''no_capacity'' else model_not_found))
          else
            bind (on_ledger (reserve_inference_tokens (product_settings env) (env_now env) user
                    (inference_args env db_key payload input_tokens))) (\<lambda>event.
              serve env db_key user input_tokens event
                (take (env_forward_max_attempts env) cands))))))"

section \<open>Streamed answers\<close>

text \<open>The reservation is committed before a stream is opened; an exception while opening releases it.\<close>

primrec open_all ::
    "inference_env \<Rightarrow> string \<Rightarrow> miner_candidate list \<Rightarrow> (miners_db, miner_candidate option) handler" where
  "open_all env request_id [] = ret None"
| "open_all env request_id (c # cs) =
     bind (forward_stream (env_network env) c) (\<lambda>outcome.
       case outcome of
         Inl e \<Rightarrow> then_do (record_failure (env_served_at env) (env_epoch env) c e request_id)
                    (open_all env request_id cs)
       | Inr selected \<Rightarrow> ret (Some selected))"

record open_stream =
  os_candidate :: miner_candidate
  os_reservation_id :: nat
  os_request_id :: string
  os_input_tokens :: int
  os_max_tokens :: int

definition open_or_release ::
    "inference_env \<Rightarrow> usage_event \<Rightarrow> miner_candidate list \<Rightarrow> (product_db, error + miner_candidate) handler" where
  "open_or_release env event cands =
     on_error (on_miners (open_all env (ev_request_id event) cands))
       (release_and_raise env event)
       (\<lambda>stream. case stream of
          None \<Rightarrow> then_do (on_ledger (release_inference_reservation (env_served_at env) event))
                   (ret (Inl (service_unavailable ''forward_failed'')))
        | Some c \<Rightarrow> ret (Inr c))"

definition routed_stream ::
    "inference_env \<Rightarrow> inference_request \<Rightarrow> miner_candidate list \<Rightarrow> api_key_row \<Rightarrow> user_row \<Rightarrow>
     (product_db, error + open_stream) handler" where
  "routed_stream env payload cands db_key user =
     (let input_tokens = input_tokens_of (ir_prompt payload)
      in bind (on_ledger (reserve_inference_tokens (product_settings env) (env_now env) user
                (inference_args env db_key payload input_tokens))) (\<lambda>event.
           on_error (transaction (open_or_release env event (take (env_forward_max_attempts env) cands)))
             (\<lambda>e. ret (Inl e))
             (\<lambda>opened. ret (map_sum id (\<lambda>c. \<lparr>os_candidate = c, os_reservation_id = ev_id event,
                os_request_id = ev_request_id event, os_input_tokens = input_tokens,
                os_max_tokens = ir_max_tokens payload\<rparr>) opened))))"

text \<open>The \<open>finally\<close> of the body iterator, in its own session, after the stream was drained to the
  state \<open>st\<close>, at the time \<open>now\<close>. The counts it bills: the usage chunk's, and without one the chunks of text relayed, at
  most the tokens reserved for the completion.\<close>

definition stream_counts :: "open_stream \<Rightarrow> stream_state \<Rightarrow> (int \<times> int) option" where
  "stream_counts os st =
     (let u = st_usage st;
          completion = tu_completion_tokens u;
          completion = (if \<not> (completion \<noteq> 0 \<or> tu_total_tokens u \<noteq> 0) \<and> st_content_chunks st \<noteq> 0
                        then min (int (st_content_chunks st)) (os_max_tokens os) else completion)
      in if completion \<noteq> 0 \<or> tu_total_tokens u \<noteq> 0
         then Some (or_count (tu_prompt_tokens u) (os_input_tokens os), completion) else None)"

definition settle_stream ::
    "inference_env \<Rightarrow> time \<Rightarrow> api_key_row \<Rightarrow> open_stream \<Rightarrow> stream_state \<Rightarrow> (product_db, unit) handler" where
  "settle_stream env now db_key os st =
     transaction (bind (on_ledger (gets (\<lambda>s. find (\<lambda>e. ev_id e = os_reservation_id os) (inference_usage_events s))))
       (\<lambda>row. case row of None \<Rightarrow> ret ()
        | Some event \<Rightarrow>
            if ev_status event \<noteq> Reserved then ret ()
            else (case stream_counts os st of
                None \<Rightarrow> then_do (on_ledger (release_inference_reservation now event)) (ret ())
              | Some (prompt, completion) \<Rightarrow>
                  bind (on_ledger (settle_inference_usage now event prompt completion)) (\<lambda>settled.
                    let c = os_candidate os
                    in then_do (on_ledger (modify (put_event (attributed c settled))))
                      (then_do (on_miners (record_stream_success now (env_epoch env) c
                          (elapsed_ms (env_network env) c)
                          (if st_seen_payload st then Some (max 0 (net_ttft_ms (env_network env) c)) else None)
                          st (os_request_id os)))
                        (record_usage now db_key (env_web env) 200 prompt completion
                          (Some (os_request_id os))))))))"

section \<open>The routes\<close>

text \<open>The route: the dependency authenticates and checks the scope, the error that was committed is
  answered as an error.\<close>

definition inference_request_valid :: "inference_request \<Rightarrow> bool" where
  "inference_request_valid p \<longleftrightarrow> 1 \<le> length (ir_prompt p) \<and> length (ir_prompt p) \<le> prompt_max_length \<and>
     1 \<le> ir_max_tokens p \<and> ir_max_tokens p \<le> 4096"

definition answer_of :: "(product_db, error + 'a) handler \<Rightarrow> (product_db, 'a) handler" where
  "answer_of h = bind (transaction h) of_result"

definition inference_key :: "inference_env \<Rightarrow> string list \<Rightarrow> api_request \<Rightarrow> (product_db, api_key_row) handler" where
  "inference_key env scopes request =
     on_ledger (require_api_key (env_settings env) (env_hash env) (env_now env) (env_redis env)
       (env_resolve env) scopes request)"

definition run_inference ::
    "inference_env \<Rightarrow> api_request \<Rightarrow> inference_request \<Rightarrow> (product_db, execution) handler" where
  "run_inference env request payload =
     answer_of (bind (inference_key env [''inference:write''] request) (\<lambda>db_key.
       then_do (guard_or (inference_request_valid payload) validation_error)
         (execute_inference env payload db_key)))"

text \<open>The chat completions: a stream is opened when a candidate serves the model, and everything else
  is the plain execution.\<close>

record chat_request =
  cr_model :: string
  cr_messages :: "(string \<times> message_content) list"
  cr_max_tokens :: "int option"
  cr_max_completion_tokens :: "int option"
  cr_stream :: bool

datatype chat_answer = Completed execution | Streaming open_stream

definition resolved_max_tokens :: "chat_request \<Rightarrow> int" where
  "resolved_max_tokens r =
     (case cr_max_completion_tokens r of
        Some n \<Rightarrow> (if n \<noteq> 0 then n else (case cr_max_tokens r of Some m \<Rightarrow> or_count m 128 | None \<Rightarrow> 128))
      | None \<Rightarrow> (case cr_max_tokens r of Some m \<Rightarrow> or_count m 128 | None \<Rightarrow> 128))"

definition count_in_range :: "int option \<Rightarrow> bool" where
  "count_in_range n = (case n of None \<Rightarrow> True | Some n \<Rightarrow> 1 \<le> n \<and> n \<le> 4096)"

definition chat_request_valid :: "chat_request \<Rightarrow> bool" where
  "chat_request_valid r \<longleftrightarrow> 1 \<le> length (cr_model r) \<and> length (cr_model r) \<le> 120 \<and> cr_messages r \<noteq> [] \<and>
     count_in_range (cr_max_tokens r) \<and> count_in_range (cr_max_completion_tokens r)"

definition create_chat_completion ::
    "inference_env \<Rightarrow> chat_request \<Rightarrow> api_key_row \<Rightarrow> (product_db, error + chat_answer) handler" where
  "create_chat_completion env r db_key =
     bind (of_result (chat_payload (cr_model r) (cr_messages r) (resolved_max_tokens r))) (\<lambda>payload.
     then_do (of_result (check_model_allowed db_key (cr_model r)))
       (bind (if cr_stream r then bind (gets (select_for env (cr_model r))) of_result else ret []) (\<lambda>cands.
          if cands \<noteq> [] then
            bind (key_owner_row db_key) (\<lambda>user.
              bind (routed_stream env payload cands db_key user) (\<lambda>answer.
                ret (map_sum id Streaming answer)))
          else bind (execute_inference env payload db_key) (\<lambda>answer. ret (map_sum id Completed answer)))))"

definition run_chat :: "inference_env \<Rightarrow> api_request \<Rightarrow> chat_request \<Rightarrow> (product_db, chat_answer) handler" where
  "run_chat env request r =
     answer_of (bind (inference_key env [''inference:write''] request) (\<lambda>db_key.
       then_do (guard_or (chat_request_valid r) validation_error) (create_chat_completion env r db_key)))"

text \<open>The catalogue routes record the read.\<close>

definition list_models_route ::
    "inference_env \<Rightarrow> api_request \<Rightarrow> (product_db, (string \<times> model_status) list) handler" where
  "list_models_route env request =
     transaction (bind (inference_key env [''models:read''] request) (\<lambda>db_key.
       then_do (record_usage (env_now env) db_key (env_web env) 200 0 0 None)
         (gets (\<lambda>s. list_models db_key (pd_miners s)))))"

definition get_model_route :: "inference_env \<Rightarrow> api_request \<Rightarrow> string \<Rightarrow> (product_db, model_status) handler" where
  "get_model_route env request model_id =
     transaction (bind (inference_key env [''models:read''] request) (\<lambda>db_key.
       bind (gets (\<lambda>s. get_model db_key model_id (pd_miners s))) (\<lambda>found. bind (of_result found) (\<lambda>status.
         then_do (record_usage (env_now env) db_key (env_web env) 200 0 0 None) (ret status)))))"

definition get_usage_route :: "inference_env \<Rightarrow> api_request \<Rightarrow> (product_db, nat \<times> nat \<times> int \<times> int) handler" where
  "get_usage_route env request =
     transaction (bind (inference_key env [''usage:read''] request) (\<lambda>db_key. gets (usage_summary db_key)))"

end
