(* ===== verification/RouterProps.thy ===== *)
theory RouterProps
  imports Router
begin

text \<open>
  The router plane keeps the books: every route preserves the invariants of the accounts, a
  settlement is only answered to the router and key that reserved, and it is billed and recorded
  once. The triples of the accounting operations carry the proofs.
\<close>

section \<open>Lifting\<close>

lemma triple_on_ledger:
  assumes "triple P h Q E"
  shows "triple (\<lambda>s. P (kd_ledger s)) (on_ledger h) (\<lambda>x s. Q x (kd_ledger s)) (\<lambda>s. E (kd_ledger s))"
  using assms by (fastforce simp: triple_def on_ledger_def split: prod.splits sum.splits)

lemma triple_on_clients:
  "triple (\<lambda>s. P (kd_ledger s)) (on_clients h) (\<lambda>_ s. P (kd_ledger s)) (\<lambda>s. P (kd_ledger s))"
  by (auto simp: triple_def on_clients_def split: prod.splits sum.splits)

lemma triple_transaction:
  assumes "triple P h Q (\<lambda>_. True)" shows "triple P (transaction h) Q P"
  using assms by (fastforce simp: triple_def transaction_def split: prod.splits sum.splits)

lemma triple_weaken_error: "triple P m Q E \<Longrightarrow> triple P m Q (\<lambda>_. True)"
  by (fastforce simp: triple_def split: prod.splits sum.splits)

lemma service_ok_put_key: "service_ok (put_key k s) = service_ok s"
  by (auto simp: service_ok_def prices_ok_def ledger_ok_def ledger_parts wallet_keys_def wallet_balance_def
      wallet_entries_def put_key_def)

lemma authenticate_keeps:
  "triple service_ok (authenticate_key cfg h now raw rc lim ip) (\<lambda>_. service_ok) service_ok"
proof (rule tripleI)
  fix s e s' assume "service_ok s" "authenticate_key cfg h now raw rc lim ip s = (Inl e, s')"
  from this(2) this(1) show "service_ok s'" by (cases rule: authenticate_cases) simp_all
next
  fix s x s' assume "service_ok s" "authenticate_key cfg h now raw rc lim ip s = (Inr x, s')"
  from this(2) this(1) show "service_ok s'" by (cases rule: authenticate_cases) (simp_all add: service_ok_put_key)
qed

lemma authenticate_user_keeps:
  "triple service_ok (authenticate_user_api_key env raw rc lim) (\<lambda>_. service_ok) service_ok"
  unfolding authenticate_user_api_key_def
  by (intro triple_bind [OF authenticate_keeps] triple_then [where R = service_ok] triple_of_result
      triple_bind [where R = "\<lambda>_. service_ok"] triple_gets)
    (auto simp: triple_def handler_defs split: option.splits)

lemma recalculate_keeps:
  "triple service_ok (recalculate_current_period cfg now user) (\<lambda>_. service_ok) service_ok"
  by (rule triple_conseq [OF recalculate_ready]) (auto simp: ready_def)

lemma expire_keeps:
  "triple service_ok (expire_stale_reservations now (Some uid)) (\<lambda>_. service_ok) service_ok"
  by (rule triple_conseq [OF service_ok_expire]) auto

lemma reserve_keeps:
  assumes "0 \<le> ra_prompt_tokens ra + ra_max_completion_tokens ra"
  shows "triple service_ok (reserve_inference_tokens cfg now user ra) (\<lambda>_. service_ok) service_ok"
  using reserve_service_ok [OF _ assms] by (auto intro!: tripleI)

lemma multiplier_keeps: "triple service_ok (multiplier_for_model model) (\<lambda>_. service_ok) service_ok"
proof (rule tripleI)
  fix s e s' assume s: "service_ok s" "multiplier_for_model model s = (Inl e, s')"
  then show "service_ok s'"
    using tripleD_err [OF multiplier_for_model_ok _ s(2)] tripleD_err [OF multiplier_for_model_frame same_accounts_refl s(2)]
      ledger_ok_same_accounts by (auto simp: service_ok_def)
next
  fix s x s' assume s: "service_ok s" "multiplier_for_model model s = (Inr x, s')"
  then show "service_ok s'"
    using tripleD [OF multiplier_for_model_ok _ s(2)] tripleD [OF multiplier_for_model_frame same_accounts_refl s(2)]
      ledger_ok_same_accounts by (auto simp: service_ok_def)
qed

lemma get_router_event_member:
  "triple service_ok (get_router_event rid router k req)
     (\<lambda>e s. service_ok s \<and> e \<in> set (inference_usage_events s)) service_ok"
  by (rule tripleI)
    (auto simp: get_router_event_def handler_defs scalar_one_or_none_Some filter_eq_Cons_iff
      split: sum.splits option.splits if_splits dest!: scalar_filter_member)

lemma settle_keeps:
  assumes "0 \<le> prompt + completion"
  shows "triple (\<lambda>s. service_ok s \<and> e \<in> set (inference_usage_events s))
    (settle_inference_usage now e prompt completion) (\<lambda>_. service_ok) (\<lambda>_. True)"
  using settle_service_ok [OF _ _ assms] by (auto intro!: tripleI)

lemma release_keeps_books:
  "triple (\<lambda>s. service_ok s \<and> e \<in> set (inference_usage_events s))
    (release_inference_reservation now e) (\<lambda>_. service_ok) (\<lambda>_. True)"
proof (rule tripleI)
  fix s x s' assume "service_ok s \<and> e \<in> set (inference_usage_events s)"
    "release_inference_reservation now e s = (Inr x, s')"
  then show "service_ok s'" using release_service_ok [of s e now] by auto
qed simp

section \<open>The services keep the books\<close>

abbreviation books :: "'z keys_db_scheme \<Rightarrow> bool" where "books s \<equiv> service_ok (kd_ledger s)"

lemma route_keeps:
  assumes "\<And>r raw. valid \<Longrightarrow> triple books (service r raw) (\<lambda>_. books) (\<lambda>_. True)"
  shows "triple books (router_route env cred x valid service) (\<lambda>_. books) books"
proof -
  have rc: "triple books (router_client env cred) (\<lambda>_. books) (\<lambda>_. True)"
    unfolding router_client_def
    by (intro triple_bind [OF triple_weaken_error [OF triple_on_clients]] triple_ret) simp
  show ?thesis
    unfolding router_route_def
    by (rule triple_transaction, intro triple_bind [where R = "\<lambda>_. books", OF triple_of_result] triple_bind [OF rc])
      (auto simp: triple_def handler_defs assms [unfolded triple_def, rule_format] split: prod.splits sum.splits
        dest: assms [unfolded triple_def, rule_format])
qed

lemma validate_keeps:
  "triple service_ok (validate_request env raw model inp out) (\<lambda>_. service_ok) service_ok"
  unfolding validate_request_def Let_def
  apply (rule triple_bind [OF authenticate_user_keeps])
  apply (simp only: split_paired_all prod.case)
  apply (rule triple_then [where R = service_ok, OF triple_of_result], assumption+)
  apply (intro triple_then [OF expire_keeps] triple_bind [OF recalculate_keeps] triple_bind [OF multiplier_keeps]
      triple_ret, assumption)
  done

lemma create_reservation_keeps:
  assumes "reservation_create_valid (env_settings env) p"
  shows "triple service_ok (create_reservation env router raw p ctx rnd) (\<lambda>_. service_ok) service_ok"
proof -
  have tok: "0 \<le> ra_prompt_tokens (reservation_args env router k p ctx rnd)
      + ra_max_completion_tokens (reservation_args env router k p ctx rnd)" for k
    using assms by (simp add: reservation_args_def reservation_create_valid_def)
  show ?thesis
    unfolding create_reservation_def
    apply (rule triple_bind [OF authenticate_user_keeps])
    apply (simp only: split_paired_all prod.case)
    apply (intro triple_then [where R = service_ok] triple_of_result triple_bind [OF reserve_keeps [OF tok]]
        triple_bind [OF recalculate_keeps] triple_ret)
       apply assumption+
    done
qed

lemma release_reservation_keeps:
  "triple service_ok (release_reservation env router raw rid) (\<lambda>_. service_ok) (\<lambda>_. True)"
  unfolding release_reservation_def
  apply (rule triple_bind [OF triple_weaken_error [OF authenticate_user_keeps]])
  apply (simp only: split_paired_all prod.case)
  apply (rule triple_then [OF triple_weaken_error [OF expire_keeps]])
  apply (rule triple_bind [OF triple_weaken_error [OF get_router_event_member]])
  apply (rule triple_then [OF triple_guard])
    apply assumption
   apply simp
  apply (intro triple_then [OF release_keeps_books] triple_bind [OF triple_weaken_error [OF recalculate_keeps]]
      triple_bind [where R = "\<lambda>_. service_ok", OF triple_gets] triple_ret)
   apply assumption+
  done

lemma record_usage_keeps: "triple books (record_usage now k req st i out rid) (\<lambda>_. books) (\<lambda>_. True)"
  by (simp add: record_usage_def triple_def handler_defs)

lemma settle_usage_keeps:
  assumes "usage_settle_valid (env_settings env) p"
  shows "triple books (settle_usage env req router raw p) (\<lambda>_. books) (\<lambda>_. True)"
proof -
  have tok: "0 \<le> us_input_tokens p + us_output_tokens p" using assms by (simp add: usage_settle_valid_def)
  note lift = triple_weaken_error [OF triple_on_ledger]
  show ?thesis
    unfolding settle_usage_def Let_def
    apply (rule triple_bind [OF lift [OF authenticate_user_keeps]])
    apply (simp only: split_paired_all prod.case)
    apply (rule triple_then [OF lift [OF expire_keeps]])
    apply (rule triple_bind [OF lift [OF get_router_event_member]])
    apply (rule triple_then [OF triple_guard])
      apply assumption
     apply simp
    apply (rule triple_bind [OF lift [OF settle_keeps [OF tok]]])
    apply (rule triple_then [where R = books])
     apply (intro triple_if record_usage_keeps triple_ret, assumption)
    apply (intro triple_bind [OF lift [OF recalculate_keeps]] triple_ret, assumption)
    done
qed

section \<open>What an answered settlement did\<close>

lemma on_ledger_ok:
  "on_ledger h s = (Inr x, s') \<longleftrightarrow> (\<exists>l. h (kd_ledger s) = (Inr x, l) \<and> s' = s\<lparr>kd_ledger := l\<rparr>)"
  by (auto simp: on_ledger_def split: prod.splits)

lemma transaction_ok: "transaction h s = (Inr x, s') \<longleftrightarrow> h s = (Inr x, s')"
  by (auto simp: transaction_def split: prod.splits sum.splits)

lemma of_result_ok: "of_result r s = (Inr x, s') \<longleftrightarrow> r = Inr x \<and> s' = s"
  by (auto simp: of_result_def)

lemma guard_ok: "guard_or b e s = (Inr u, s') \<longleftrightarrow> b \<and> s' = s"
  by (auto simp: guard_or_def)

lemmas run_ok = then_ok bind_ok on_ledger_ok of_result_ok guard_ok

definition usage_row_of :: "request_env \<Rightarrow> web_request \<Rightarrow> api_key_row \<Rightarrow> usage_settle \<Rightarrow> usage_row" where
  "usage_row_of env req k p =
     \<lparr>ku_api_key_id = key_id k, ku_user_id = key_user_id k, ku_endpoint = req_path req,
      ku_method = req_method req, ku_status_code = 200,
      ku_request_id = (if truthy (Some (us_request_id p)) then Some (us_request_id p) else req_context_id req),
      ku_input_tokens = us_input_tokens p, ku_output_tokens = us_output_tokens p, ku_created_at = env_now env\<rparr>"

lemma ledger_of_update: "kd_ledger (s\<lparr>kd_ledger := l\<rparr>) = l"
  by simp

lemma get_router_event_ok:
  assumes "get_router_event rid router k req l = (Inr e, l')"
  shows "l' = l \<and> e \<in> set (inference_usage_events l) \<and> ev_id e = rid \<and>
    (case req of None \<Rightarrow> True | Some q \<Rightarrow> ev_request_id e = q) \<and>
    ev_router_client_id e = Some router \<and> ev_api_key_id e = Some (key_id k)"
proof -
  from assms obtain found l1 where f: "select_one_or_none (\<lambda>s. filter (\<lambda>e. ev_id e = rid) (inference_usage_events s)) l
      = (Inr found, l1)" "(case found of None \<Rightarrow> raise not_found
       | Some event \<Rightarrow>
           then_do (guard_or (\<not> (req \<noteq> None \<and> req \<noteq> Some (ev_request_id event))) forbidden)
          (then_do (guard_or (ev_router_client_id event = Some router) forbidden)
          (then_do (guard_or (ev_api_key_id event = Some (key_id k)) forbidden)
             (ret event)))) l1 = (Inr e, l')"
    unfolding get_router_event_def by (elim bindE)
  have l1: "l1 = l" "scalar_one_or_none (filter (\<lambda>e. ev_id e = rid) (inference_usage_events l)) = Inr found"
    using f(1) by (auto simp: select_one_or_none_def)
  show ?thesis
  proof (cases found)
    case (Some x)
    have "x \<in> set (inference_usage_events l)" "ev_id x = rid"
      using scalar_filter_member [of "\<lambda>e. ev_id e = rid" _ x] l1(2) Some by blast+
    then show ?thesis using f(2) Some l1(1) by (auto simp: then_ok split: option.splits if_splits)
  qed (use f(2) in simp)
qed

lemma settle_usage_ok:
  assumes "settle_usage env req router raw p s = (Inr resp, s')"
  obtains k user n l1 l2 e e' l3 per where
    "authenticate_user_api_key env raw None False (kd_ledger s) = (Inr (k, user), l1)"
    "expire_stale_reservations (env_now env) (Some (usr_id user)) l1 = (Inr n, l2)"
    "get_router_event (us_reservation_id p) router k (Some (us_request_id p)) l2 = (Inr e, l2)"
    "ev_status e = Settled \<Longrightarrow> ev_prompt_tokens e = us_input_tokens p \<and> ev_completion_tokens e = us_output_tokens p"
    "settle_inference_usage (env_now env) e (us_input_tokens p) (us_output_tokens p) l2 = (Inr e', l3)"
    "recalculate_current_period (base_settings env) (env_now env) user l3 = (Inr per, kd_ledger s')"
    "kd_usage s' = kd_usage s @ (if ev_status e = Settled then [] else [usage_row_of env req k p])"
    "resp = reservation_response e' per"
  using assms unfolding settle_usage_def Let_def
  apply (elim bindE)
  apply (simp only: split_paired_all prod.case)
  apply (elim thenE bindE)
  apply (simp only: on_ledger_ok guard_ok)
  apply (elim exE conjE)
  apply (frule get_router_event_ok)
  apply (elim conjE)
  apply hypsubst
  apply (simp only: ledger_of_update)
  apply (rule that)
         apply assumption
        apply assumption
       apply assumption
      apply blast
     apply assumption
    apply (auto simp: record_usage_def usage_row_of_def split: if_splits)
  done

lemma authenticate_token_ok:
  assumes "authenticate_token cfg h now raw rc role cl = (Inr c, cl')"
  obtains c0 where "c0 \<in> set (service_clients cl)" "sc_hashed_token c0 = h raw" "sc_role c0 = role"
    "sc_revoked_at c0 = None" "\<not> past now (sc_expires_at c0)" "sc_id c = sc_id c0"
proof (cases "filter (\<lambda>c. sc_hashed_token c = h raw) (service_clients cl)" rule: scalar_one_or_none.cases)
  case (2 c0)
  then have "c0 \<in> set (service_clients cl)" "sc_hashed_token c0 = h raw" by (auto simp: filter_eq_Cons_iff)
  then show ?thesis
    using assms 2 that [of c0]
    by (auto simp: authenticate_token_def handler_defs Let_def split: sum.splits if_splits)
qed (use assms in \<open>auto simp: authenticate_token_def handler_defs Let_def\<close>)

lemma router_route_ok:
  assumes "router_route env cred x valid service s = (Inr r, s')"
  obtains c0 cl where "valid" "truthy x" "c0 \<in> set (service_clients (kd_clients s))"
    "cred \<noteq> None" "sc_hashed_token c0 = env_hash env (snd (the cred))" "sc_role c0 = RouterRole"
    "sc_revoked_at c0 = None" "\<not> past (env_now env) (sc_expires_at c0)"
    "service (sc_id c0) (the x) (s\<lparr>kd_clients := cl\<rparr>) = (Inr r, s')"
proof -
  obtain raw s1 rid s2 u s3 where r: "raw_user_api_key_from_header x = Inr raw" "router_client env cred s = (Inr rid, s2)"
    "valid" "service rid raw s2 = (Inr r, s')"
    using assms unfolding router_route_def transaction_ok
    by (elim bindE thenE) (auto simp: of_result_ok split: if_splits)
  have x: "truthy x" "raw = the x" using r(1) by (auto simp: raw_user_api_key_from_header_def split: if_splits)
  obtain c cl where c: "current_router_client (env_settings env) (env_hash env) (env_now env) (env_redis env) cred
      (kd_clients s) = (Inr c, cl)" "rid = sc_id c" "s2 = s\<lparr>kd_clients := cl\<rparr>"
    using r(2) unfolding router_client_def by (auto simp: bind_ok on_clients_def split: prod.splits)
  obtain tok where t: "raw_service_token_from_request cred = Inr tok"
    "authenticate_token (env_settings env) (env_hash env) (env_now env) tok (env_redis env) RouterRole
      (kd_clients s) = (Inr c, cl)"
    using c(1) unfolding current_router_client_def by (auto simp: bind_ok of_result_ok)
  have "cred \<noteq> None" "tok = snd (the cred)"
    using t(1) by (auto simp: raw_service_token_from_request_def split: option.splits if_splits)
  with t(2) show ?thesis
    by (elim authenticate_token_ok) (use that r(3,4) x c(2,3) in auto)
qed

lemma authenticate_user_ok:
  assumes "authenticate_user_api_key env raw rc lim l = (Inr (k, user), l')"
  obtains k0 where "k0 \<in> set (api_keys l)" "key_hashed_key k0 = env_hash env raw" "key_revoked_at k0 = None"
    "\<not> past (env_now env) (key_expires_at k0)" "key_id k = key_id k0" "''inference:write'' \<in> set (key_scopes k0)"
    "check_ip_allowed k0 None = Inr ()" "get_user (key_user_id k0) l = Some user" "usr_is_active user" "l' = put_key k l"
proof -
  obtain k1 l1 where r: "authenticate_key (env_settings env) (env_hash env) (env_now env) raw rc lim None l = (Inr k1, l1)"
    "require_scopes k1 [''inference:write''] = Inr ()" "get_user (key_user_id k1) l1 = Some user" "usr_is_active user"
    "k = k1" "l' = l1"
    using assms unfolding authenticate_user_api_key_def
    by (elim bindE thenE) (auto simp: of_result_ok then_ok split: option.splits if_splits)
  from r(1) show ?thesis
  proof (cases rule: authenticate_cases)
    case (accepted k0)
    have m: "k0 \<in> set (api_keys l)" "key_hashed_key k0 = env_hash env raw"
      using accepted(1) by (auto simp: filter_eq_Cons_iff)
    have k: "k = k0\<lparr>key_last_used_at := Some (env_now env)\<rparr>" "l' = put_key k l" using accepted(3,4) r(5,6) by simp_all
    have "key_user_id k1 = key_user_id k0" "users l1 = users l" using accepted(3,4) by (auto simp: put_key_def)
    then have u: "get_user (key_user_id k0) l = Some user" using r(3) by (simp add: get_user_def)
    have s: "''inference:write'' \<in> set (key_scopes k0)"
      using r(2,5) k(1) by (auto simp: require_scopes_def split: if_splits)
    show ?thesis
      by (rule that [OF m]) (use accepted(2) k u s r(4) in \<open>auto simp: key_admits_def\<close>)
  qed simp
qed

lemma settle_result:
  assumes "settle_inference_usage now e i out l = (Inr e', l')"
  shows "ev_status e' = Settled" "ev_id e' = ev_id e" "ev_request_id e' = ev_request_id e"
    "ev_router_client_id e' = ev_router_client_id e" "ev_api_key_id e' = ev_api_key_id e"
    "ev_status e = Settled \<Longrightarrow> e' = e \<and> l' = l"
    "ev_status e \<noteq> Settled \<Longrightarrow> ev_prompt_tokens e' = i \<and> ev_completion_tokens e' = out \<and> ev_status e = Reserved \<and> now < ev_expires_at e"
  using assms unfolding settle_inference_usage_def Let_def
  by (auto simp: bind_ok then_ok split: if_splits prod.splits) (cases "ev_status e"; simp)+

section \<open>Properties\<close>

text \<open>C31: The router plane keeps the books: whatever a router sends, and whether the request is
  answered or refused, after each of the four routes the accounts satisfy the invariants of the
  accounting (period counters, wallet balances, unique requests).\<close>

theorem router_routes_keep_books:
  assumes "service_ok (kd_ledger s)"
  shows "service_ok (kd_ledger (snd (validate_route env cred x model inp out s))) \<and>
    service_ok (kd_ledger (snd (reserve_route env cred x create ctx rnd s))) \<and>
    service_ok (kd_ledger (snd (settle_route env req cred x settle s))) \<and>
    service_ok (kd_ledger (snd (release_route env cred x rid s)))"
proof -
  note lift = triple_weaken_error [OF triple_on_ledger]
  have run: "books (snd (m s))" if "triple books m (\<lambda>_. books) books" for m :: "(keys_db, 'a) handler"
    using that assms by (auto simp: triple_def split: prod.splits sum.splits) (metis obj_sumE snd_conv surj_pair)
  show ?thesis
    unfolding validate_route_def reserve_route_def settle_route_def release_route_def
    by (intro conjI run route_keeps lift [OF validate_keeps] lift [OF create_reservation_keeps] settle_usage_keeps
        triple_on_ledger [OF release_reservation_keeps])
qed

text \<open>C32: A settlement needs both credentials. It is only answered to an unrevoked, unexpired router
  token and an unrevoked, unexpired user key with the inference scope and no IP allowlist, for a
  reservation made by that router under that key and that request id; the answer says settled.\<close>

theorem settlement_needs_both_credentials:
  assumes "settle_route env req cred x p s = (Inr resp, s')"
  shows "\<exists>c \<in> set (service_clients (kd_clients s)). \<exists>k \<in> set (api_keys (kd_ledger s)).
    sc_hashed_token c = env_hash env (snd (the cred)) \<and> sc_role c = RouterRole \<and> sc_revoked_at c = None \<and>
    \<not> past (env_now env) (sc_expires_at c) \<and>
    key_hashed_key k = env_hash env (the x) \<and> key_revoked_at k = None \<and> \<not> past (env_now env) (key_expires_at k) \<and>
    ''inference:write'' \<in> set (key_scopes k) \<and> check_ip_allowed k None = Inr () \<and>
    rr_reservation_id resp = us_reservation_id p \<and> rr_request_id resp = us_request_id p \<and>
    rr_router_client_id resp = Some (sc_id c) \<and> rr_api_key_id resp = Some (key_id k) \<and>
    rr_status resp = Settled \<and> rr_input_tokens resp = us_input_tokens p \<and> rr_output_tokens resp = us_output_tokens p"
proof (rule router_route_ok [OF assms [unfolded settle_route_def]])
  fix c0 cl
  assume c: "c0 \<in> set (service_clients (kd_clients s))" "sc_hashed_token c0 = env_hash env (snd (the cred))"
    "sc_role c0 = RouterRole" "sc_revoked_at c0 = None" "\<not> past (env_now env) (sc_expires_at c0)"
    and run: "settle_usage env req (sc_id c0) (the x) p (s\<lparr>kd_clients := cl\<rparr>) = (Inr resp, s')"
  show ?thesis
  proof (rule settle_usage_ok [OF run])
    fix k user n l1 l2 e e' l3 per
    assume a: "authenticate_user_api_key env (the x) None False (kd_ledger (s\<lparr>kd_clients := cl\<rparr>)) = (Inr (k, user), l1)"
      and g: "get_router_event (us_reservation_id p) (sc_id c0) k (Some (us_request_id p)) l2 = (Inr e, l2)"
      and t: "ev_status e = Settled \<Longrightarrow> ev_prompt_tokens e = us_input_tokens p \<and> ev_completion_tokens e = us_output_tokens p"
      and st: "settle_inference_usage (env_now env) e (us_input_tokens p) (us_output_tokens p) l2 = (Inr e', l3)"
      and r: "resp = reservation_response e' per"
    note e = get_router_event_ok [OF g]
    note e' = settle_result [OF st]
    have tok: "ev_prompt_tokens e' = us_input_tokens p \<and> ev_completion_tokens e' = us_output_tokens p"
      using t e'(6,7) by blast
    show ?thesis
    proof (rule authenticate_user_ok [OF a])
      fix k0 assume k: "k0 \<in> set (api_keys (kd_ledger (s\<lparr>kd_clients := cl\<rparr>)))" "key_hashed_key k0 = env_hash env (the x)"
        "key_revoked_at k0 = None" "\<not> past (env_now env) (key_expires_at k0)" "key_id k = key_id k0"
        "''inference:write'' \<in> set (key_scopes k0)" "check_ip_allowed k0 None = Inr ()"
      show ?thesis
        by (intro bexI [of _ c0] bexI [of _ k0] conjI) (use c k e e'(1-5) tok in \<open>simp_all add: r reservation_response_def\<close>)
    qed
  qed
qed

lemma ended_after_settlement:
  assumes ok: "service_ok l2" and e: "e \<in> set (inference_usage_events l2)" and tok: "0 \<le> i + out"
    and st: "settle_inference_usage now e i out l2 = (Inr e', l3)"
  shows "e' \<in> ended_events l3"
proof (cases "ev_status e = Settled")
  case True
  then show ?thesis using settle_result(6) [OF st True] e by (auto simp: ended_events_def)
next
  case False
  then have "ev_status e = Reserved" "now < ev_expires_at e" using settle_result(7) [OF st] by auto
  from settle_event_in [OF ok e this tok st] show ?thesis
    using settle_result(1) [OF st] by (simp add: ended_events_def)
qed

lemma booked_once:
  assumes ok: "service_ok (kd_ledger s)" and ev: "e' \<in> ended_events (kd_ledger s)" "ev_status e' = Settled"
      "ev_id e' = us_reservation_id p"
    and run: "settle_usage env req router raw p s = (Inr resp, s')"
  shows "kd_usage s' = kd_usage s \<and> (\<exists>per. resp = reservation_response e' per) \<and>
    (\<forall>u. wallet_balance (kd_ledger s) u \<le> wallet_balance (kd_ledger s') u)"
proof (rule settle_usage_ok [OF run])
  fix k user n l1 l2 e e'' l3 per
  assume a: "authenticate_user_api_key env raw None False (kd_ledger s) = (Inr (k, user), l1)"
    and x: "expire_stale_reservations (env_now env) (Some (usr_id user)) l1 = (Inr n, l2)"
    and g: "get_router_event (us_reservation_id p) router k (Some (us_request_id p)) l2 = (Inr e, l2)"
    and st: "settle_inference_usage (env_now env) e (us_input_tokens p) (us_output_tokens p) l2 = (Inr e'', l3)"
    and rc: "recalculate_current_period (base_settings env) (env_now env) user l3 = (Inr per, kd_ledger s')"
    and u: "kd_usage s' = kd_usage s @ (if ev_status e = Settled then [] else [usage_row_of env req k p])"
    and r: "resp = reservation_response e'' per"
  have l1: "l1 = put_key k (kd_ledger s)" using a by (elim authenticate_user_ok) simp
  have ok1: "service_ok l1" unfolding l1 service_ok_put_key by (rule ok)
  have lok1: "ledger_ok l1" using ok1 by (simp add: service_ok_def)
  have nb: "nothing_booked l1 l2" by (rule expire_nothing_booked [OF lok1 x])
  have ok2: "service_ok l2" using tripleD [OF service_ok_expire ok1 x] by simp
  have "ended_events l1 = ended_events (kd_ledger s)" unfolding l1 by (rule events_cong) (simp add: put_key_def)
  then have "e' \<in> ended_events l2" using ev(1) nb by (auto simp: nothing_booked_def)
  then have "e' \<in> set (inference_usage_events l2)" by (simp add: ended_events_def)
  moreover have "distinct (map ev_id (inference_usage_events l2))"
    using ok2 by (simp add: service_ok_def ledger_ok_def keys_ok_def)
  ultimately have "e = e'"
    using get_router_event_ok [OF g] ev(3) same_key_same_row [of ev_id "inference_usage_events l2" e e'] by simp
  then have s: "ev_status e = Settled" "e'' = e'" "l3 = l2" using settle_result(6) [OF st] ev(2) by auto
  have "nothing_booked l3 (kd_ledger s')"
    using recalculate_nothing_booked [OF _ rc] ok2 s(3) by (simp add: service_ok_def)
  then have "wallet_balance l2 v \<le> wallet_balance (kd_ledger s') v" for v using s(3) by (simp add: nothing_booked_def)
  moreover have "wallet_balance l1 v \<le> wallet_balance l2 v" for v using nb by (simp add: nothing_booked_def)
  ultimately have "wallet_balance l1 v \<le> wallet_balance (kd_ledger s') v" for v by (rule order_trans [rotated])
  moreover have "wallet_balance l1 v = wallet_balance (kd_ledger s) v" for v
    by (simp add: l1 put_key_def wallet_balance_def)
  ultimately show ?thesis using u s r by auto
qed

text \<open>A settlement is billed and recorded once. When a router repeats an answered settlement, with
  whatever credentials and however much later, a repeated answer shows the same charge, adds no usage
  record, and takes nothing more from any wallet.\<close>

theorem settlement_billed_once:
  assumes ok: "service_ok (kd_ledger s)"
    and first: "settle_route env req cred x p s = (Inr resp, s1)"
    and again: "settle_route env2 req2 cred2 x2 p s1 = (Inr resp2, s2)"
  shows "rr_charged_tokens resp2 = rr_charged_tokens resp \<and> kd_usage s2 = kd_usage s1 \<and>
    (\<forall>u. wallet_balance (kd_ledger s1) u \<le> wallet_balance (kd_ledger s2) u)"
proof (rule router_route_ok [OF first [unfolded settle_route_def]])
  fix c0 cl
  assume v: "usage_settle_valid (env_settings env) p"
    and run: "settle_usage env req (sc_id c0) (the x) p (s\<lparr>kd_clients := cl\<rparr>) = (Inr resp, s1)"
  have tok: "0 \<le> us_input_tokens p + us_output_tokens p" using v by (simp add: usage_settle_valid_def)
  have ok1: "books s1"
    using tripleD [OF settle_usage_keeps [OF v] _ run] ok by simp
  obtain e' per where e': "e' \<in> ended_events (kd_ledger s1)" "ev_status e' = Settled" "ev_id e' = us_reservation_id p"
    "resp = reservation_response e' per"
  proof (rule settle_usage_ok [OF run])
    fix k user n l1 l2 e e' l3 per
    assume a: "authenticate_user_api_key env (the x) None False (kd_ledger (s\<lparr>kd_clients := cl\<rparr>)) = (Inr (k, user), l1)"
      and xp: "expire_stale_reservations (env_now env) (Some (usr_id user)) l1 = (Inr n, l2)"
      and g: "get_router_event (us_reservation_id p) (sc_id c0) k (Some (us_request_id p)) l2 = (Inr e, l2)"
      and st: "settle_inference_usage (env_now env) e (us_input_tokens p) (us_output_tokens p) l2 = (Inr e', l3)"
      and rc: "recalculate_current_period (base_settings env) (env_now env) user l3 = (Inr per, kd_ledger s1)"
      and r: "resp = reservation_response e' per"
    have l1: "service_ok l1" using a ok by (elim authenticate_user_ok) (simp add: service_ok_put_key)
    have l2: "service_ok l2" using tripleD [OF service_ok_expire l1 xp] by simp
    note e = get_router_event_ok [OF g]
    have l3: "service_ok l3" by (rule settle_service_ok [OF l2 _ tok st]) (use e in auto)
    have "e' \<in> ended_events l3" by (rule ended_after_settlement [OF l2 _ tok st]) (use e in blast)
    moreover have "nothing_booked l3 (kd_ledger s1)"
      using recalculate_nothing_booked [OF _ rc] l3 by (simp add: service_ok_def)
    ultimately have "e' \<in> ended_events (kd_ledger s1)" by (auto simp: nothing_booked_def)
    then show ?thesis using that [OF _ _ _ r] settle_result(1,2) [OF st] e by simp
  qed
  show ?thesis
  proof (rule router_route_ok [OF again [unfolded settle_route_def]])
    fix c1 cl1
    assume run2: "settle_usage env2 req2 (sc_id c1) (the x2) p (s1\<lparr>kd_clients := cl1\<rparr>) = (Inr resp2, s2)"
    from booked_once [OF _ _ e'(2,3) run2] ok1 e'(1,4) show ?thesis
      by (auto simp: reservation_response_def)
  qed
qed

end
