(* ===== verification/Reservations.thy ===== *)
theory Reservations
  imports Inference RouterProps
begin

text \<open>
  The open reservations of the accounts, and what a settlement and a release do to the one a request
  holds: with counts that add up to a number that is not negative the accounts stay consistent, and
  with a negative total, which the code accepts, the reservation is settled all the same.
\<close>

section \<open>The open reservations\<close>

definition reservations :: "ledger \<Rightarrow> usage_event set" where
  "reservations s = {e \<in> set (inference_usage_events s). ev_status e = Reserved}"

text \<open>The books while a request holds the reservation \<open>i\<close>, the other ones being in \<open>R\<close>, and after it
  has ended.\<close>

definition holding :: "usage_event set \<Rightarrow> nat \<Rightarrow> ledger \<Rightarrow> bool" where
  "holding R i l \<longleftrightarrow> service_ok l \<and> i \<in> ev_id ` set (inference_usage_events l) \<and>
     {e \<in> reservations l. ev_id e \<noteq> i} \<subseteq> R"

definition concluded :: "usage_event set \<Rightarrow> nat \<Rightarrow> ledger \<Rightarrow> bool" where
  "concluded R i l \<longleftrightarrow> holding R i l \<and> (\<forall>e \<in> reservations l. ev_id e \<noteq> i)"

lemma concluded_holding: "concluded R i l \<Longrightarrow> holding R i l"
  by (simp add: concluded_def)

lemma concluded_reservations: "concluded R i l \<Longrightarrow> service_ok l \<and> reservations l \<subseteq> R"
  by (auto simp: concluded_def holding_def)

lemma nothing_booked_reservations: "nothing_booked s s' \<Longrightarrow> reservations s' \<subseteq> reservations s"
  by (auto simp: nothing_booked_def reservations_def open_events_def)

lemma nothing_booked_ids:
  assumes "nothing_booked s s'"
  shows "ev_id ` set (inference_usage_events s') = ev_id ` set (inference_usage_events s)"
proof -
  have "map event_key (inference_usage_events s') = map event_key (inference_usage_events s)"
    using assms by (simp add: nothing_booked_def)
  then have "(fst ` set (map event_key (inference_usage_events s'))) = fst ` set (map event_key (inference_usage_events s))"
    by simp
  then show ?thesis by (simp add: image_image event_key_def)
qed

lemma nothing_booked_keeps:
  assumes "nothing_booked s s'" "service_ok s'"
  shows "holding R i s \<Longrightarrow> holding R i s'" "concluded R i s \<Longrightarrow> concluded R i s'"
  using assms nothing_booked_ids [OF assms(1)] nothing_booked_reservations [OF assms(1)]
  by (auto simp: holding_def concluded_def)

lemma event_of_id:
  assumes "service_ok l" "e \<in> set (inference_usage_events l)" "x \<in> set (inference_usage_events l)" "ev_id x = ev_id e"
  shows "x = e"
  using assms same_key_same_row [of ev_id "inference_usage_events l" x e]
  by (simp add: service_ok_def ledger_ok_def keys_ok_def)

lemma reread_member:
  assumes "service_ok l" "ev_id event \<in> ev_id ` set (inference_usage_events l)"
  shows "reread event l \<in> set (inference_usage_events l) \<and> ev_id (reread event l) = ev_id event"
proof (cases "find (\<lambda>e. ev_id e = ev_id event) (inference_usage_events l)")
  case None
  then show ?thesis using assms(2) by (auto simp: find_None_iff)
next
  case (Some e)
  moreover from this have "e \<in> set (inference_usage_events l)" "ev_id e = ev_id event" by (auto simp: find_Some_iff)
  ultimately show ?thesis by (simp add: reread_def)
qed

section \<open>Settlements and releases\<close>

lemma scalar_error: "scalar_one_or_none rs = Inl er \<Longrightarrow> er = PyExc ''MultipleResultsFound''"
  by (cases rs rule: scalar_one_or_none.cases) auto

lemma unlimited_error:
  "is_unlimited_subscriber uid s = (Inl er, t) \<Longrightarrow> er = PyExc ''MultipleResultsFound''"
  by (auto simp: is_unlimited_subscriber_def active_subscription_def handler_defs select_one_or_none_def
      split: sum.splits option.splits dest: scalar_error)

text \<open>An unlimited account has no wallet part to return.\<close>

definition unlimited_draws_nothing :: "usage_event \<Rightarrow> ledger \<Rightarrow> bool" where
  "unlimited_draws_nothing e l \<longleftrightarrow>
     (is_unlimited_subscriber (ev_user_id e) l = (Inr True, l) \<and> ev_status e = Reserved \<longrightarrow> ev_wallet_reserved_tokens e = 0)"

text \<open>How a settlement ends: it books, or nothing is booked.\<close>

lemma settle_fails:
  assumes ok: "service_ok l" and e: "e \<in> set (inference_usage_events l)" and tok: "0 \<le> prompt + completion"
    and un: "unlimited_draws_nothing e l"
    and run: "settle_inference_usage now e prompt completion l = (Inl er, l')"
  shows "nothing_booked l l' \<and> service_ok l'"
proof -
  have lok: "ledger_ok l" using ok by (simp add: service_ok_def)
  consider "ev_status e \<noteq> Reserved" | "ev_status e = Reserved" "ev_expires_at e \<le> now"
    | "ev_status e = Reserved" "now < ev_expires_at e" by (metis not_le)
  then show ?thesis
  proof cases
    case 1
    then have "l' = l" using run by (cases "ev_status e") (auto simp: settle_inference_usage_def)
    then show ?thesis using ok by (simp add: nothing_booked_refl)
  next
    case 2
    obtain n t where t: "expire_stale_reservations now (Some (ev_user_id e)) l = (Inr n, t)"
      using expire_stale_run [OF lok, of now "Some (ev_user_id e)"] by blast
    have "l' = t" using run 2 by (simp add: settle_inference_usage_def then_do_def bind_def t)
    then show ?thesis using expire_nothing_booked [OF lok t] tripleD [OF service_ok_expire ok t] by simp
  next
    case 3
    obtain p where p: "p \<in> set (usage_periods l)" "per_id p = ev_usage_period_id e"
      using event_period [OF lok e] by blast
    have lp: "lock_period (ev_usage_period_id e) l = (Inr p, l)"
      using lock_period_run [OF ledger_okD(1) [OF lok] p(1)] p(2) by simp
    have sn: "snd (is_unlimited_subscriber (ev_user_id e) l) = l"
      using read_only_queries(2) by (simp add: read_only_def)
    show ?thesis
    proof (cases "fst (is_unlimited_subscriber (ev_user_id e) l)")
      case (Inl x)
      then have "is_unlimited_subscriber (ev_user_id e) l = (Inl x, l)" using sn by (metis prod.collapse)
      then have "l' = l"
        using run 3 by (simp add: settle_inference_usage_def bind_def lp Let_def split_settlement_def)
      then show ?thesis using ok by (simp add: nothing_booked_refl)
    next
      case (Inr unl)
      then have unl: "is_unlimited_subscriber (ev_user_id e) l = (Inr unl, l)" using sn by (metis prod.collapse)
      note sr = settle_live_run [OF lok e 3 p unl tok refl refl refl refl]
      have share0: "settle_share True e p c = 0" for c by (simp add: settle_share_def wallet_share_def)
      have w0: "unl \<Longrightarrow> ev_wallet_reserved_tokens e = 0" using un unl 3(1) by (simp add: unlimited_draws_nothing_def)
      have "\<exists>w. l' = settle_ledger unl e w l" using run w0 unfolding sr by (auto simp: share0 split: if_splits)
      then obtain w where w: "l' = settle_ledger unl e w l" by blast
      have "nothing_booked l l'"
        unfolding w by (simp add: nothing_booked_def events_cong [of "settle_ledger unl e w l" l])
          (simp add: settle_ledger_def)
      moreover have "service_ok l'" using ok settle_ledger_ok [OF lok] by (simp add: w service_ok_def prices_ok_def)
      ultimately show ?thesis by simp
    qed
  qed
qed

lemma settle_succeeds:
  assumes ok: "service_ok l" and e: "e \<in> set (inference_usage_events l)" and tok: "0 \<le> prompt + completion"
    and run: "settle_inference_usage now e prompt completion l = (Inr e', l')"
    and h: "holding R (ev_id e) l"
  shows "concluded R (ev_id e) l' \<and> e' \<in> set (inference_usage_events l') \<and> ev_id e' = ev_id e"
proof -
  have ok': "service_ok l'" by (rule settle_service_ok [OF ok e tok run]) simp
  have e': "e' \<in> set (inference_usage_events l')" "ev_status e' = Settled" "ev_id e' = ev_id e"
    using ended_after_settlement [OF ok e tok run] settle_result(1,2) [OF run] by (simp_all add: ended_events_def)
  have others: "{x \<in> reservations l'. ev_id x \<noteq> ev_id e} \<subseteq> reservations l"
  proof (cases "ev_status e = Settled")
    case True
    then show ?thesis using settle_result(6) [OF run True] by auto
  next
    case False
    then have live: "ev_status e = Reserved" "now < ev_expires_at e" using settle_result(7) [OF run] by auto
    have "inference_usage_events l' = replace_by ev_id e' (inference_usage_events l)"
      using settle_replaces [OF ok e live tok run] by auto
    then show ?thesis using e'(3) by (auto simp: reservations_def set_replace_by)
  qed
  have "x \<in> reservations l' \<Longrightarrow> ev_id x \<noteq> ev_id e" for x
    using event_of_id [OF ok' e'(1), of x] e'(2,3) by (auto simp: reservations_def)
  moreover have "ev_id e \<in> ev_id ` set (inference_usage_events l')" using e'(1,3) by (metis image_eqI)
  ultimately show ?thesis
    using others h e' ok' unfolding concluded_def holding_def by (intro conjI) auto
qed

lemma release_concludes:
  assumes ok: "service_ok l" and e: "e \<in> set (inference_usage_events l)" and h: "holding R (ev_id e) l"
  shows "\<exists>l'. release_inference_reservation now e l = (Inr (), l') \<and> concluded R (ev_id e) l'"
proof -
  have lok: "ledger_ok l" using ok by (simp add: service_ok_def)
  obtain l' where run: "release_inference_reservation now e l = (Inr (), l')" and ok': "service_ok l'"
    using release_service_ok [OF ok e, of now] by blast
  have only: "x = e" if "x \<in> set (inference_usage_events l)" "ev_id x = ev_id e" for x
    by (rule event_of_id [OF ok e that])
  consider "ev_status e \<noteq> Reserved" | "ev_status e = Reserved" "ev_expires_at e \<le> now"
    | "ev_status e = Reserved" "now < ev_expires_at e" by (metis not_le)
  then have "concluded R (ev_id e) l'"
  proof cases
    case 1
    then have "l' = l" using run by (simp add: release_inference_reservation_def)
    then show ?thesis using h only 1 by (auto simp: concluded_def reservations_def)
  next
    case 2
    obtain t where t: "expire_stale_reservations now (Some (ev_user_id e)) l
          = (Inr (length (filter (is_stale now (Some (ev_user_id e))) (inference_usage_events l))), t)"
      "inference_usage_events t
        = map (\<lambda>x. if is_stale now (Some (ev_user_id e)) x then UsageRuns.closed now Expired x else x) (inference_usage_events l)"
      using expire_stale_run [OF lok, of now "Some (ev_user_id e)"] by blast
    have l': "l' = t" using run 2 by (simp add: release_inference_reservation_def then_do_def bind_def t(1))
    have "holding R (ev_id e) l'"
      using nothing_booked_keeps(1) [OF expire_nothing_booked [OF lok t(1)] _ h] ok' l' by simp
    moreover have "ev_id x \<noteq> ev_id e" if x: "x \<in> reservations l'" for x
    proof
      assume i: "ev_id x = ev_id e"
      obtain q where q: "q \<in> set (inference_usage_events l)"
          "x = (if is_stale now (Some (ev_user_id e)) q then UsageRuns.closed now Expired q else q)"
        using x unfolding reservations_def l' t(2) by auto
      then have "q = e" using only [of q] i by (auto split: if_splits)
      then show False using q(2) x 2 by (simp add: is_stale_def reservations_def)
    qed
    ultimately show ?thesis by (simp add: concluded_def)
  next
    case 3
    obtain p where p: "p \<in> set (usage_periods l)" "per_id p = ev_usage_period_id e"
      using event_period [OF lok e] by blast
    have "inference_usage_events l' = replace_by ev_id (UsageRuns.closed now Released e) (inference_usage_events l)"
      using run 3 give_back_run [OF lok e 3(1) p, of now Released] by (auto simp: release_inference_reservation_def)
    then show ?thesis
      using h ok' e by (auto simp: concluded_def holding_def reservations_def set_replace_by)
  qed
  then show ?thesis using run by blast
qed

section \<open>The serving miner on the event\<close>

lemma attributed_fields [simp]:
  "ev_id (attributed c e) = ev_id e" "ev_user_id (attributed c e) = ev_user_id e"
  "ev_usage_period_id (attributed c e) = ev_usage_period_id e" "ev_request_id (attributed c e) = ev_request_id e"
  "ev_status (attributed c e) = ev_status e" "ev_charged_tokens (attributed c e) = ev_charged_tokens e"
  "ev_wallet_reserved_tokens (attributed c e) = ev_wallet_reserved_tokens e"
  "ev_reserved_tokens (attributed c e) = ev_reserved_tokens e"
  "ev_model_multiplier (attributed c e) = ev_model_multiplier e"
  by (simp_all add: attributed_def)

lemma attributed_portions [simp]:
  "allowance_portion (attributed c e) = allowance_portion e" "wallet_portion (attributed c e) = wallet_portion e"
  "event_ok (attributed c e) = event_ok e"
  by (simp_all add: allowance_portion_def wallet_portion_def event_ok_def cong: event_status.case_cong)

lemma put_attributed_map:
  assumes "service_ok l" "e \<in> set (inference_usage_events l)" "\<And>x. f (attributed c x) = f x"
  shows "map f (inference_usage_events (put_event (attributed c e) l)) = map f (inference_usage_events l)"
proof -
  have "f (attributed c e) = f q" if "q \<in> set (inference_usage_events l)" "ev_id q = ev_id (attributed c e)" for q
    using event_of_id [OF assms(1,2) that(1)] that(2) assms(3) by simp
  then show ?thesis by (simp add: map_replace_by)
qed

lemma put_attributed_ok:
  assumes ok: "service_ok l" and e: "e \<in> set (inference_usage_events l)"
  shows "service_ok (put_event (attributed c e) l)"
proof -
  let ?l = "put_event (attributed c e) l"
  note m = put_attributed_map [OF assms, of _ c]
  have b: "booked (inference_usage_events ?l) = booked (inference_usage_events l)"
    by (rule ext, unfold booked_def, rule arg_cong [where f = sum_list], rule m) simp
  have d: "drawn (inference_usage_events ?l) = drawn (inference_usage_events l)"
    by (rule ext, unfold drawn_def, rule arg_cong [where f = sum_list], rule m) simp
  have ids: "map ev_id (inference_usage_events ?l) = map ev_id (inference_usage_events l)" by (rule m) simp
  have rq: "map (\<lambda>e. (ev_user_id e, ev_request_id e)) (inference_usage_events ?l)
      = map (\<lambda>e. (ev_user_id e, ev_request_id e)) (inference_usage_events l)" by (rule m) simp
  have mem: "x \<in> set (inference_usage_events l) \<or> x = attributed c e" if "x \<in> set (inference_usage_events ?l)" for x
    using that by (auto simp: set_replace_by split: if_splits)
  have lok: "ledger_ok l" using ok by (simp add: service_ok_def)
  have "keys_ok ?l" using ledger_okD(1) [OF lok] ids mem e by (fastforce simp: keys_ok_def)
  moreover have "requests_ok ?l" using ledger_okD(2) [OF lok] rq by (simp add: requests_ok_def)
  moreover have "windows_ok ?l" using ledger_okD(3) [OF lok] by (simp add: windows_ok_def)
  moreover have "links_ok ?l" using ledger_okD(4) [OF lok] mem e by (fastforce simp: links_ok_def)
  moreover have "periods_ok ?l" using ledger_okD(5) [OF lok] b by (simp add: periods_ok_def)
  moreover have "wallets_ok ?l" using ledger_okD(6) [OF lok] d by (simp add: wallets_ok_def)
  moreover have "prices_ok ?l" using ok by (simp add: service_ok_def prices_ok_def put_event_def)
  ultimately show ?thesis by (simp add: service_ok_def ledger_ok_def)
qed

lemma put_attributed_concluded:
  assumes "concluded R i l" "e \<in> set (inference_usage_events l)" "ev_id e = i"
  shows "concluded R i (put_event (attributed c e) l)"
proof -
  have ok: "service_ok l" using assms(1) by (simp add: concluded_def holding_def)
  have "e \<notin> reservations l" using assms by (auto simp: concluded_def)
  then have "ev_status e \<noteq> Reserved" using assms(2) by (simp add: reservations_def)
  then show ?thesis
    using assms put_attributed_ok [OF ok assms(2)]
    by (auto simp: concluded_def holding_def reservations_def set_replace_by)
qed

section \<open>A settlement with a negative total\<close>

text \<open>Nothing in the settlement rejects negative counts: the event is settled and what it charges is not
  positive. The counters of the period then stand below the sum of their events.\<close>

definition negative_row :: "usage_event \<Rightarrow> usage_event \<Rightarrow> bool" where
  "negative_row e x \<longleftrightarrow> ev_id x = ev_id e \<and> ev_request_id x = ev_request_id e \<and> ev_status x = Settled \<and>
     ev_prompt_tokens x + ev_completion_tokens x < 0"

text \<open>The row of an ended event, among the open reservations \<open>R\<close>.\<close>

definition kept :: "usage_event set \<Rightarrow> usage_event \<Rightarrow> ledger \<Rightarrow> bool" where
  "kept R x l \<longleftrightarrow> reservations l \<subseteq> R \<and> (\<forall>y \<in> reservations l. ev_id y \<noteq> ev_id x) \<and> x \<in> set (inference_usage_events l)"

definition undercharged :: "usage_event set \<Rightarrow> usage_event \<Rightarrow> ledger \<Rightarrow> bool" where
  "undercharged R e l \<longleftrightarrow> (\<exists>x. kept R x l \<and> negative_row e x)"

lemma kept_cong: "inference_usage_events l' = inference_usage_events l \<Longrightarrow> kept R x l' = kept R x l"
  by (simp add: kept_def reservations_def)

lemma kept_put:
  assumes "kept R x l" "ev_status q \<noteq> Reserved" "ev_id q \<noteq> ev_id x"
  shows "kept R x (put_event q l)"
  using assms by (auto simp: kept_def reservations_def set_replace_by)

lemma kept_put_row:
  assumes "kept R x l" "ev_status q \<noteq> Reserved" "ev_id q = ev_id x"
  shows "kept R q (put_event q l)"
proof -
  have "ev_id q \<in> ev_id ` set (inference_usage_events l)"
    using assms by (auto simp: kept_def intro: rev_image_eqI)
  then show ?thesis
    using assms by (auto simp: kept_def reservations_def set_replace_by)
qed

lemma undercharged_put_row:
  "undercharged R e l \<Longrightarrow> negative_row e q \<Longrightarrow> undercharged R e (put_event q l)"
  by (auto simp: undercharged_def negative_row_def intro!: exI [of _ q] kept_put_row)

lemma negative_row_attributed: "negative_row e (attributed c x) = negative_row e x"
  by (simp add: negative_row_def) (simp add: attributed_def)

text \<open>Later operations leave such an event alone, whatever the accounts look like.\<close>

lemma kept_frame:
  assumes "\<And>s r s'. h s = (r, s') \<Longrightarrow> inference_usage_events s' = inference_usage_events s"
  shows "triple (kept R x) h (\<lambda>_. kept R x) (kept R x)"
  by (rule tripleI; use assms kept_cong in blast)

lemma wallet_kept:
  "triple (kept R x) (lock_or_create_wallet uid) (\<lambda>_. kept R x) (kept R x)"
  by (rule kept_frame)
    (auto simp: lock_or_create_wallet_def handler_defs Let_def split: sum.splits option.splits)

lemma give_back_kept:
  assumes "ev_id q \<noteq> ev_id x" "st \<noteq> Reserved"
  shows "triple (kept R x) (give_back now q st) (\<lambda>_. kept R x) (kept R x)"
proof -
  have pp: "kept R x (put_period p s) = kept R x s" for p s
    by (rule kept_cong) simp
  have mb: "kept R x (move_balance now w d k s) = kept R x s" for w d k s
    by (rule kept_cong) (simp add: move_balance_def put_wallet_def add_transaction_def)
  show ?thesis
    unfolding give_back_def refund_wallet_def Let_def
    apply (rule triple_bind [OF triple_read_only [OF read_only_queries(6)]])
    apply (rule triple_then [where R = "kept R x"], rule triple_modify, simp add: pp)
    apply (rule triple_then [where R = "kept R x"], rule triple_if)
      apply (rule triple_bind [OF wallet_kept], rule triple_modify, simp add: mb)
     apply (rule triple_ret, assumption)
    apply (rule triple_modify, rule kept_put)
      apply (use assms in simp_all)
    done
qed

lemma expire_kept:
  "triple (kept R x) (expire_stale_reservations now uid) (\<lambda>_. kept R x) (kept R x)"
  unfolding expire_stale_reservations_def
proof (rule triple_bind)
  show "triple (kept R x) (gets (stale_events now uid))
      (\<lambda>stale s. kept R x s \<and> (\<forall>q \<in> set stale. ev_id q \<noteq> ev_id x)) (kept R x)"
    by (rule triple_gets) (auto simp: kept_def stale_events_def reservations_def)
next
  fix stale
  show "triple (\<lambda>s. kept R x s \<and> (\<forall>q \<in> set stale. ev_id q \<noteq> ev_id x))
      (then_do (for_each (expire_event now) stale) (ret (length stale))) (\<lambda>_. kept R x) (kept R x)"
  proof (cases "\<forall>q \<in> set stale. ev_id q \<noteq> ev_id x")
    case True
    then have "triple (kept R x) (for_each (expire_event now) stale) (\<lambda>_. kept R x) (kept R x)"
      by (intro triple_for_each) (simp add: expire_event_def give_back_kept)
    then have "triple (kept R x) (then_do (for_each (expire_event now) stale) (ret (length stale)))
        (\<lambda>_. kept R x) (kept R x)"
      by (rule triple_then) (rule triple_ret)
    then show ?thesis by (rule triple_conseq) simp_all
  next
    case False
    then have "\<And>s. \<not> (kept R x s \<and> (\<forall>q \<in> set stale. ev_id q \<noteq> ev_id x))" by blast
    then show ?thesis by (simp only: triple_def) simp
  qed
qed

lemma recalculate_kept:
  "triple (kept R x) (recalculate_current_period cfg now user) (\<lambda>_. kept R x) (kept R x)"
proof -
  have sd: "triple (kept R x) (seed_default_billing_plans cfg) (\<lambda>_. kept R x) (kept R x)"
    by (rule triple_seed) (simp add: kept_def reservations_def same_accounts_def)
  have gc: "triple (kept R x) (get_or_create_period now user a b) (\<lambda>_. kept R x) (kept R x)" for a b
    by (rule kept_frame)
      (auto simp: get_or_create_period_def handler_defs Let_def split: sum.splits option.splits)
  have pp: "kept R x (put_period p s) = kept R x s" for p s
    by (rule kept_cong) simp
  show ?thesis
    unfolding recalculate_current_period_def
    apply (rule triple_then [OF expire_kept])
    apply (rule triple_then [OF sd])
    apply (rule triple_bind [OF triple_read_only [OF read_only_queries(3)]])
    apply (simp only: split_paired_all prod.case)
    apply (rule triple_bind [OF gc])
    apply (rule triple_bind [OF triple_read_only [OF read_only_queries(4)]])
    apply (simp add: Let_def triple_def handler_defs pp)
    done
qed

lemma recalculate_undercharged:
  "triple (undercharged R e) (recalculate_current_period cfg now user) (\<lambda>_. undercharged R e) (undercharged R e)"
  unfolding undercharged_def
  by (rule tripleI) (blast dest: tripleD_err [OF recalculate_kept], blast dest: tripleD [OF recalculate_kept])

text \<open>A settlement that returns rewrites exactly its event, in any accounts.\<close>

lemma settle_rewrites:
  assumes "settle_inference_usage now e prompt completion l = (Inr e', l')" "ev_status e = Reserved"
  shows "\<exists>w. e' = settled now e prompt completion w \<and>
    inference_usage_events l' = replace_by ev_id e' (inference_usage_events l)"
proof -
  have ro: "lock_period pid l = (x, t) \<Longrightarrow> t = l" "is_unlimited_subscriber u l = (y, t) \<Longrightarrow> t = l" for pid u x y t
    using read_only_queries(2,6) by (auto simp: read_only_def) (metis snd_conv)+
  have wl: "lock_or_create_wallet u s = (Inr w, t) \<Longrightarrow> inference_usage_events t = inference_usage_events s" for u s w t
    by (auto simp: lock_or_create_wallet_def handler_defs Let_def split: sum.splits option.splits)
  have mb: "inference_usage_events (move_balance now w d k s) = inference_usage_events s" for w d k s
    by (simp add: move_balance_def put_wallet_def add_transaction_def)
  have sw: "settle_wallet now w d s = (Inr (), t) \<Longrightarrow> inference_usage_events t = inference_usage_events s" for w d s t
    by (auto simp: settle_wallet_def mb split: if_splits option.splits)
  obtain p np nw wal t u where sp: "split_settlement e p (charged_token_count (prompt + completion) (ev_model_multiplier e)) l
        = (Inr (np, nw, wal), t)"
    and sw': "settle_wallet now wal (ev_wallet_reserved_tokens e - nw)
        (put_period (with_used p (max 0 (per_used_tokens p - (ev_reserved_tokens e - ev_wallet_reserved_tokens e) + np))) t) = (Inr (), u)"
    and e': "e' = settled now e prompt completion nw" "l' = put_event e' u"
    using assms unfolding settle_inference_usage_def Let_def
    by (auto simp: bind_ok then_ok settled_def split: if_splits prod.splits dest!: ro)
  have "inference_usage_events t = inference_usage_events l"
    using sp unfolding split_settlement_def Let_def
    by (auto simp: bind_ok then_ok split: if_splits dest!: ro(2) wl)
  then show ?thesis using sw [OF sw'] e' by auto
qed

lemma charged_not_positive:
  assumes "raw < 0" "0 \<le> m" shows "charged_token_count raw m \<le> 0"
  using charged_token_count_le [of raw m 0] assms by (simp add: mult_nonpos_nonneg)

text \<open>It fails only as a settlement with other counts does, without booking anything.\<close>

lemma settle_negative_fails:
  assumes ok: "service_ok l" and e: "e \<in> set (inference_usage_events l)" "ev_status e = Reserved" and neg: "prompt + completion < 0"
    and un: "unlimited_draws_nothing e l"
    and run: "settle_inference_usage now e prompt completion l = (Inl er, l')"
  shows "nothing_booked l l' \<and> service_ok l'"
proof (cases "ev_expires_at e \<le> now")
  case True
  have lok: "ledger_ok l" using ok by (simp add: service_ok_def)
  obtain n t where t: "expire_stale_reservations now (Some (ev_user_id e)) l = (Inr n, t)"
    using expire_stale_run [OF lok, of now "Some (ev_user_id e)"] by blast
  have "l' = t" using run True e(2) by (simp add: settle_inference_usage_def then_do_def bind_def t)
  then show ?thesis using expire_nothing_booked [OF lok t] tripleD [OF service_ok_expire ok t] by simp
next
  case live: False
  have lok: "ledger_ok l" using ok by (simp add: service_ok_def)
  obtain p where p: "p \<in> set (usage_periods l)" "per_id p = ev_usage_period_id e" using event_period [OF lok e(1)] by blast
  have lp: "lock_period (ev_usage_period_id e) l = (Inr p, l)"
    using lock_period_run [OF ledger_okD(1) [OF lok] p(1)] p(2) by simp
  have sn: "snd (is_unlimited_subscriber (ev_user_id e) l) = l" using read_only_queries(2) by (simp add: read_only_def)
  let ?ch = "charged_token_count (prompt + completion) (ev_model_multiplier e)"
  have eok: "0 \<le> ev_wallet_reserved_tokens e" "0 \<le> ev_model_multiplier e" "0 \<le> ev_reserved_tokens e - ev_wallet_reserved_tokens e"
    using ledger_okD(4) [OF lok] e by (auto simp: links_ok_def event_ok_def allowance_portion_def)
  have rem: "0 \<le> per_remaining_tokens p" using ledger_okD(5) [OF lok] p(1) by (auto simp: periods_ok_def)
  have bal: "0 \<le> wallet_balance l (ev_user_id e)" using ledger_okD(6) [OF lok] by (simp add: wallets_ok_def)
  show ?thesis
  proof (cases "fst (is_unlimited_subscriber (ev_user_id e) l)")
    case (Inl x)
    then have "is_unlimited_subscriber (ev_user_id e) l = (Inl x, l)" using sn by (metis prod.collapse)
    then have "l' = l" using run live e(2) by (simp add: settle_inference_usage_def bind_def lp Let_def split_settlement_def)
    then show ?thesis using ok by (simp add: nothing_booked_refl)
  next
    case (Inr unl)
    then have unl: "is_unlimited_subscriber (ev_user_id e) l = (Inr unl, l)" using sn by (metis prod.collapse)
    have "settle_share unl e p ?ch = 0"
      using charged_not_positive [OF neg eok(2)] rem eok(3) by (simp add: settle_share_def wallet_share_def)
    from split_settlement_run [OF ledger_wallet_keys [OF lok] unl this [symmetric] eok(1) bal]
    have sp: "split_settlement e p ?ch l = (Inr (?ch, 0, if \<not> unl \<and> ev_wallet_reserved_tokens e > 0
        then Some \<lparr>wal_user_id = ev_user_id e, wal_balance_tokens = wallet_balance l (ev_user_id e)\<rparr> else None), settle_ledger unl e 0 l)"
      using bal eok(1) by simp
    have "unl \<Longrightarrow> ev_wallet_reserved_tokens e = 0" using un unl e(2) by (simp add: unlimited_draws_nothing_def)
    then consider "ev_wallet_reserved_tokens e = 0" | "\<not> unl" "0 < ev_wallet_reserved_tokens e" using eok(1) by fastforce
    then have False
      by cases (use run live e(2) in \<open>simp_all add: settle_inference_usage_def bind_def then_do_def lp Let_def sp settle_wallet_def\<close>)
    then show ?thesis ..
  qed
qed

lemma settle_kept:
  assumes run: "settle_inference_usage now e prompt completion l = (Inr e', l')" "ev_status e = Reserved"
    and h: "{x \<in> reservations l. ev_id x \<noteq> ev_id e} \<subseteq> R" "e \<in> set (inference_usage_events l)"
  shows "kept R e' l'"
proof -
  obtain w where w: "e' = settled now e prompt completion w"
    "inference_usage_events l' = replace_by ev_id e' (inference_usage_events l)"
    using settle_rewrites [OF run] by blast
  have "e' \<in> set (inference_usage_events l')"
    using image_eqI [OF refl h(2), of ev_id] by (simp add: w set_replace_by)
  then show ?thesis using h(1) by (auto simp: kept_def reservations_def w set_replace_by)
qed

lemma settle_negative:
  assumes "settle_inference_usage now e prompt completion l = (Inr e', l')" "ev_status e = Reserved"
    and "prompt + completion < 0" "holding R (ev_id e) l" "e \<in> set (inference_usage_events l)"
  shows "undercharged R e l' \<and> negative_row e e'"
proof -
  have "kept R e' l'" using settle_kept [OF assms(1,2) _ assms(5)] assms(4) by (simp add: holding_def)
  moreover have "negative_row e e'" using settle_rewrites [OF assms(1,2)] assms(3) by (auto simp: negative_row_def)
  ultimately show ?thesis by (auto simp: undercharged_def)
qed

end
