(* ===== verification/InferenceProps.thy ===== *)
theory InferenceProps
  imports Reservations
begin

text \<open>
  What an inference request leaves in the books: every reservation it makes is settled or released
  before it is answered, whatever the enclaves do, and a served answer is billed, attributed and
  recorded once with the counts it reports.
\<close>

section \<open>The parts of a request\<close>

text \<open>What only touches the miners or the usage log leaves the ledger.\<close>

lemma triple_on_miners:
  assumes "\<And>m x m'. h m = (Inr x, m') \<Longrightarrow> V x"
  shows "triple (\<lambda>s. P (kd_ledger s)) (on_miners h) (\<lambda>x s. V x \<and> P (kd_ledger s)) (\<lambda>s. P (kd_ledger s))"
  by (rule tripleI) (auto simp: on_miners_def split: prod.splits intro: assms)

lemma record_usage_ledger:
  "triple (\<lambda>s. P (kd_ledger s)) (record_usage now k req st i out rid) (\<lambda>_ s. P (kd_ledger s)) E"
  by (simp add: record_usage_def triple_def handler_defs)

lemma of_result_keeps: "triple P (of_result r) (\<lambda>x s. r = Inr x \<and> P s) P"
  by (auto simp: triple_def of_result_def split: sum.splits)

lemma recalculate_concluded:
  "triple (concluded R i) (recalculate_current_period cfg now user) (\<lambda>_. concluded R i) (concluded R i)"
proof (rule tripleI)
  fix l e l' assume "concluded R i l" and run: "recalculate_current_period cfg now user l = (Inl e, l')"
  moreover from this have ok: "service_ok l" by (simp add: concluded_def holding_def)
  ultimately show "concluded R i l'"
    using nothing_booked_keeps(2) recalculate_nothing_booked [OF _ run] recalculate_service_ok [OF ok run]
    by (simp add: service_ok_def)
next
  fix l p l' assume "concluded R i l" and run: "recalculate_current_period cfg now user l = (Inr p, l')"
  moreover from this have ok: "service_ok l" by (simp add: concluded_def holding_def)
  ultimately show "concluded R i l'"
    using nothing_booked_keeps(2) recalculate_nothing_booked [OF _ run] recalculate_service_ok [OF ok run]
    by (simp add: service_ok_def)
qed

abbreviation on_books :: "(ledger \<Rightarrow> bool) \<Rightarrow> product_db \<Rightarrow> bool" where "on_books P s \<equiv> P (kd_ledger s)"

text \<open>The state in which a request that holds the reservation \<open>e\<close> is served.\<close>

definition held :: "usage_event set \<Rightarrow> usage_event \<Rightarrow> ledger \<Rightarrow> bool" where
  "held R e l \<longleftrightarrow> holding R (ev_id e) l \<and> e \<in> set (inference_usage_events l) \<and> ev_status e = Reserved \<and>
     unlimited_draws_nothing e l"

text \<open>The states after it: the reservation is gone, or it was settled with a negative total.\<close>

definition ended :: "usage_event set \<Rightarrow> usage_event \<Rightarrow> ledger \<Rightarrow> bool" where
  "ended R e l \<longleftrightarrow> concluded R (ev_id e) l \<or> undercharged R e l"

definition unended :: "usage_event set \<Rightarrow> usage_event \<Rightarrow> ledger \<Rightarrow> bool" where
  "unended R e l \<longleftrightarrow> holding R (ev_id e) l \<or> undercharged R e l"

lemma ended_unended: "ended R e l \<Longrightarrow> unended R e l"
  by (auto simp: ended_def unended_def concluded_holding)

lemma held_unended: "held R e l \<Longrightarrow> unended R e l"
  by (simp add: held_def unended_def)

lemma recalculate_ended:
  "triple (ended R e) (recalculate_current_period cfg now user) (\<lambda>_. ended R e) (ended R e)"
  unfolding ended_def
  by (rule tripleI)
    (blast dest: tripleD_err [OF recalculate_concluded] tripleD_err [OF recalculate_undercharged],
     blast dest: tripleD [OF recalculate_concluded] tripleD [OF recalculate_undercharged])

text \<open>With counts that add up to no negative number a settlement concludes the reservation, with any
  other counts it ends it too.\<close>

definition settled_to :: "usage_event set \<Rightarrow> usage_event \<Rightarrow> usage_event \<Rightarrow> ledger \<Rightarrow> bool" where
  "settled_to R e e' l \<longleftrightarrow>
     e' \<in> set (inference_usage_events l) \<and> ev_id e' = ev_id e \<and> concluded R (ev_id e) l \<or>
     undercharged R e l \<and> negative_row e e'"

lemma settle_held:
  "triple (held R e) (settle_inference_usage now e prompt completion) (settled_to R e) (unended R e)"
proof (rule tripleI)
  fix l er l' assume h: "held R e l" and run: "settle_inference_usage now e prompt completion l = (Inl er, l')"
  have "nothing_booked l l' \<and> service_ok l'"
  proof (cases "prompt + completion < 0")
    case True
    then show ?thesis using settle_negative_fails [OF _ _ _ True _ run] h by (simp add: held_def holding_def)
  next
    case False
    then show ?thesis using settle_fails [OF _ _ _ _ run] h by (simp add: held_def holding_def)
  qed
  then show "unended R e l'" using nothing_booked_keeps(1) h by (auto simp: held_def unended_def)
next
  fix l e' l' assume h: "held R e l" and run: "settle_inference_usage now e prompt completion l = (Inr e', l')"
  show "settled_to R e e' l'"
  proof (cases "prompt + completion < 0")
    case True
    then show ?thesis using settle_negative [OF run _ True, of R] h by (simp add: held_def settled_to_def)
  next
    case False
    then show ?thesis using settle_succeeds [OF _ _ _ run, of R] h by (simp add: held_def holding_def settled_to_def)
  qed
qed

lemma put_attributed_ended: "settled_to R e e' l \<Longrightarrow> ended R e (put_event (attributed c e') l)"
  unfolding settled_to_def ended_def
  using put_attributed_concluded undercharged_put_row negative_row_attributed by blast

lemma release_held:
  "triple (held R e) (release_inference_reservation now e) (\<lambda>_. concluded R (ev_id e)) E"
  using release_concludes [of _ e R now] by (fastforce simp: triple_def held_def holding_def)

text \<open>After any failure of the service the row of the reservation is released as it stands.\<close>

lemma release_and_raise_ends:
  "triple (on_books (unended R event)) (release_and_raise env event e :: (product_db, error + 'a) handler)
    (\<lambda>_. on_books (ended R event)) E"
proof -
  have run: "\<exists>s'. (release_and_raise env event e :: (product_db, error + 'a) handler) s = (Inr (Inl e), s') \<and> ended R event (kd_ledger s')"
    if h: "holding R (ev_id event) (kd_ledger s)" for s
  proof -
    have ok: "service_ok (kd_ledger s)" using h by (simp add: holding_def)
    let ?e = "reread event (kd_ledger s)"
    have m: "?e \<in> set (inference_usage_events (kd_ledger s))" "ev_id ?e = ev_id event"
      using reread_member [OF ok] h by (simp_all add: holding_def)
    obtain l' where "release_inference_reservation (env_served_at env) ?e (kd_ledger s) = (Inr (), l')"
      "concluded R (ev_id event) l'"
      using release_concludes [OF ok m(1), of R] h m(2) by auto
    then show ?thesis
      by (simp add: release_and_raise_def bind_def then_do_def on_ledger_def ended_def)
  qed
  moreover have "\<exists>s'. (release_and_raise env event e :: (product_db, error + 'a) handler) s = (Inr (Inl e), s') \<and> ended R event (kd_ledger s')"
    if u: "undercharged R event (kd_ledger s)" for s
  proof -
    obtain x where x: "kept R x (kd_ledger s)" "ev_id x = ev_id event"
      using u by (auto simp: undercharged_def negative_row_def)
    then obtain q where q: "find (\<lambda>e. ev_id e = ev_id event) (inference_usage_events (kd_ledger s)) = Some q"
      by (cases "find (\<lambda>e. ev_id e = ev_id event) (inference_usage_events (kd_ledger s))") (auto simp: kept_def find_None_iff)
    then have "q \<in> set (inference_usage_events (kd_ledger s))" "ev_id q = ev_id event" by (auto simp: find_Some_iff)
    then have "ev_status (reread event (kd_ledger s)) \<noteq> Reserved"
      using x by (auto simp: kept_def reread_def q reservations_def)
    then show ?thesis
      using u by (simp add: release_and_raise_def release_inference_reservation_def bind_def then_do_def on_ledger_def ended_def)
  qed
  ultimately show ?thesis unfolding triple_def unended_def by fastforce
qed

section \<open>Serving\<close>

text \<open>An answer that was served came from its candidate with a status below 400, and its counts are
  those of the usage object of the body.\<close>

definition answered :: "network \<Rightarrow> miner_candidate \<Rightarrow> json \<Rightarrow> token_usage \<Rightarrow> bool" where
  "answered net c body u \<longleftrightarrow>
     (\<exists>bearer n status. net_post net c bearer n = Answer status (Inr body) \<and> status < 400) \<and>
     usage_from_dict (json_field ''usage'' body) = Inr u"

lemma attempt_answered:
  assumes "forward_attempt net c n m = (Inr (Some (Inr r)), m')"
  shows "answered net c (fr_body r) (fr_usage r) \<and> fr_candidate r = c"
proof -
  obtain y m1 where k: "(case y of Inl e \<Rightarrow> ret (Some (Inl e)) | Inr bearer \<Rightarrow>
           (case net_post net c bearer n of
              PinMismatch \<Rightarrow>
                then_do (modify (mark_stale (cd_miner_id c)))
                  (ret (Some (Inl \<lparr>fe_outcome = ''pin_mismatch'', fe_latency_ms = Some (elapsed_ms net c),
                                   fe_http_status = None\<rparr>)))
            | TransportFailure timeout \<Rightarrow>
                ret (Some (Inl \<lparr>fe_outcome = transport_outcome timeout, fe_latency_ms = Some (elapsed_ms net c),
                               fe_http_status = None\<rparr>))
            | Answer status body \<Rightarrow>
                if status = 401 \<and> n = 1 then ret None
                else if status \<ge> 400 then
                  ret (Some (Inl \<lparr>fe_outcome = ''http_error'', fe_latency_ms = Some (elapsed_ms net c),
                                 fe_http_status = Some status\<rparr>))
                else bind (of_result body) (\<lambda>body.
                     bind (of_result (usage_from_dict (json_field ''usage'' body))) (\<lambda>usage.
                       ret (Some (Inr \<lparr>fr_candidate = c, fr_status_code = status, fr_body = body,
                                       fr_usage = usage, fr_latency_ms = elapsed_ms net c\<rparr>)))))) m1
      = (Inr (Some (Inr r)), m')"
    using assms unfolding forward_attempt_def by (elim bindE)
  then obtain bearer where y: "y = Inr bearer" by (cases y) simp_all
  show ?thesis
  proof (cases "net_post net c bearer n")
    case PinMismatch
    then show ?thesis using k y by (simp add: then_ok)
  next
    case TransportFailure
    then show ?thesis using k y by simp
  next
    case (Answer status body)
    then obtain b u where "body = Inr b" "usage_from_dict (json_field ''usage'' b) = Inr u"
      "fr_usage r = u" "fr_body r = b" "fr_candidate r = c" "status < 400"
      using k y by (auto simp: bind_ok of_result_ok split: if_splits)
    then show ?thesis using Answer unfolding answered_def by blast
  qed
qed

lemma forward_answered:
  assumes "forward net c m = (Inr (Inr r), m')"
  shows "answered net c (fr_body r) (fr_usage r) \<and> fr_candidate r = c"
  using assms unfolding forward_def
  by (auto simp: bind_ok split: option.splits dest!: attempt_answered)

lemma forward_all_answered:
  "forward_all env rid cs m = (Inr (Some r), m') \<Longrightarrow> answered (env_network env) (fr_candidate r) (fr_body r) (fr_usage r)"
proof (induction cs arbitrary: m)
  case (Cons c cs)
  obtain y m1 where f: "forward (env_network env) c m = (Inr y, m1)" and k: "(case y of
        Inl e \<Rightarrow> then_do (record_failure (env_served_at env) (env_epoch env) c e rid) (forward_all env rid cs)
      | Inr result \<Rightarrow> ret (Some result)) m1 = (Inr (Some r), m')"
    using Cons.prems unfolding forward_all.simps by (elim bindE)
  show ?case
  proof (cases y)
    case (Inl e)
    then show ?thesis using k by (auto simp: then_ok dest!: Cons.IH)
  next
    case (Inr r')
    then show ?thesis using k f forward_answered [of "env_network env" c m r' m1] by auto
  qed
qed simp

lemma input_tokens_pos: "1 \<le> input_tokens_of p"
  by (simp add: input_tokens_of_def)

lemma settle_served_ends:
  "triple (on_books (held R e)) (settle_served env k user input_tokens e r)
    (\<lambda>_. on_books (ended R e)) (on_books (unended R e))"
proof -
  let ?D = "ended R e"
  have weak: "triple (on_books ?D) m (\<lambda>_. on_books ?D) (on_books (unended R e))"
    if "triple (on_books ?D) m (\<lambda>_. on_books ?D) (on_books ?D)" for m :: "(product_db, 'x) handler"
    using that by (rule triple_conseq) (use ended_unended in auto)
  show ?thesis
    unfolding settle_served_def Let_def
    apply (rule triple_bind [where R = "\<lambda>_. on_books (held R e)"])
     apply (rule triple_conseq [OF of_result_keeps [where P = "on_books (held R e)"]]; use held_unended in blast)
    apply (rule triple_bind [OF triple_on_ledger [OF settle_held]])
    apply (rule triple_then [where R = "on_books ?D"])
     apply (rule triple_on_ledger [where P = "settled_to R e _"])
     apply (rule triple_modify, erule put_attributed_ended)
    apply (rule weak)
    apply (rule triple_then [where R = "on_books ?D"])
     apply (rule triple_conseq [OF triple_on_miners [where V = "\<lambda>_. True" and P = "?D"]]; simp)
    apply (rule triple_then [where R = "on_books ?D", OF record_usage_ledger])
    apply (rule triple_bind [where R = "\<lambda>_. on_books ?D", OF triple_on_ledger [OF recalculate_ended]])
    apply (rule triple_then [where R = "on_books ?D"])
     apply (rule triple_conseq [OF of_result_keeps [where P = "on_books ?D"]]; simp)
    apply (rule triple_ret)
    apply simp
    done
qed

lemma serve_ends:
  "triple (on_books (held R e)) (serve env k user input_tokens e cs) (\<lambda>_. on_books (ended R e)) E"
proof -
  let ?U = "on_books (unended R e)" and ?D = "on_books (ended R e)"
  have fa: "triple (on_books (held R e)) (on_miners (forward_all env (ev_request_id e) cs))
      (\<lambda>_. on_books (held R e)) ?U"
    by (rule triple_conseq [OF triple_on_miners [where P = "held R e" and V = "\<lambda>_. True"]])
      (simp_all add: held_unended)
  have none: "triple (on_books (held R e))
      (then_do (on_ledger (release_inference_reservation (env_served_at env) e)) (ret None)) (\<lambda>_. ?D) ?U"
    by (rule triple_then [OF triple_on_ledger [OF release_held]], rule triple_ret, simp add: ended_def)
  have some: "triple (on_books (held R e))
      (bind (settle_served env k user input_tokens e r) (\<lambda>x. ret (Some x))) (\<lambda>_. ?D) ?U" for r
    by (rule triple_bind [OF settle_served_ends], rule triple_ret)
  have fw: "triple (on_books (held R e)) (forward_and_settle env k user input_tokens e cs) (\<lambda>_. ?D) ?U"
    unfolding forward_and_settle_def by (rule triple_bind [OF fa]) (simp add: none some split: option.split)
  show ?thesis
    unfolding serve_def
    by (rule triple_on_error [OF fw release_and_raise_ends], rule triple_ret)
qed

section \<open>Reserving\<close>

text \<open>A reservation under a request id that no event has leaves its new event held.\<close>

lemma reserve_new_held:
  assumes tok: "0 \<le> ra_prompt_tokens ra + ra_max_completion_tokens ra"
  shows "triple (\<lambda>l. service_ok l \<and> reservations l \<subseteq> R \<and>
      (\<forall>q \<in> set (inference_usage_events l). \<not> requested (usr_id user) (effective_request_id ra) q))
    (reserve_inference_tokens cfg now user ra)
    (\<lambda>e l. held R e l \<and> ev_status e = Reserved \<and> ev_request_id e = effective_request_id ra) (\<lambda>_. True)"
proof (rule tripleI)
  fix l e l'
  assume pre: "service_ok l \<and> reservations l \<subseteq> R \<and>
      (\<forall>q \<in> set (inference_usage_events l). \<not> requested (usr_id user) (effective_request_id ra) q)"
    and run: "reserve_inference_tokens cfg now user ra l = (Inr e, l')"
  let ?uid = "usr_id user" and ?rid = "effective_request_id ra"
  have ok: "service_ok l" using pre by simp
  have fresh: "\<not> requested ?uid ?rid q" if "nothing_booked l t" "q \<in> set (inference_usage_events t)" for q t
  proof
    assume q: "requested ?uid ?rid q"
    have "event_key q \<in> set (map event_key (inference_usage_events t))" using that(2) by simp
    then have "event_key q \<in> set (map event_key (inference_usage_events l))"
      using that(1) unfolding nothing_booked_def by metis
    then obtain x where "x \<in> set (inference_usage_events l)" "event_key x = event_key q" by auto
    then show False using pre q by (auto simp: event_key_def requested_def)
  qed
  show "held R e l' \<and> ev_status e = Reserved \<and> ev_request_id e = effective_request_id ra"
  proof (rule reserve_outcome [OF ok tok run])
    fix ev assume "Inr e = Inr ev" "nothing_booked l l'" "find (requested ?uid ?rid) (inference_usage_events l') = Some ev"
    then show ?thesis using fresh [of l' ev] by (auto simp: find_Some_iff)
  next
    fix ev p t assume b: "Inr e = Inr ev" "nothing_booked l t" "reserve_booked cfg now user ra ?rid p t ev l'"
      "service_ok l'"
    obtain m unl s1 w where s1: "same_accounts t s1" "is_unlimited_subscriber ?uid s1 = (Inr unl, s1)"
      "w = wallet_share unl (charged_token_count (ra_prompt_tokens ra + ra_max_completion_tokens ra) m) (per_remaining_tokens p)"
      "ev = new_event cfg now user ra (next_id s1) p ?rid m (ra_prompt_tokens ra + ra_max_completion_tokens ra)
         (charged_token_count (ra_prompt_tokens ra + ra_max_completion_tokens ra) m) w"
      "l' = book_new now p (per_used_tokens p
         + (charged_token_count (ra_prompt_tokens ra + ra_max_completion_tokens ra) m - w)) ev s1"
      using b(3) unfolding reserve_booked_def Let_def by blast
    have ev: "ev_user_id ev = ?uid" "ev_wallet_reserved_tokens ev = w" "ev_status ev = Reserved" "ev_request_id ev = ?rid"
      by (simp_all add: s1(4) new_event_def)
    have es: "inference_usage_events l' = inference_usage_events t @ [ev]"
      using s1(1) by (simp add: s1(5) same_accounts_def)
    have sub: "reservations t \<subseteq> R" using nothing_booked_reservations [OF b(2)] pre by blast
    have un: "fst (is_unlimited_subscriber ?uid l') = Inr unl"
      using unlimited_cong [of l' s1 ?uid] s1(2) by (simp add: s1(5))
    have "unlimited_draws_nothing ev l'"
      using un by (auto simp: unlimited_draws_nothing_def ev s1(3) wallet_share_def)
    moreover have "holding R (ev_id ev) l'"
      using b(4) sub by (auto simp: holding_def reservations_def es)
    ultimately show ?thesis using b(1) by (simp add: held_def es ev(3,4))
  qed simp
qed simp

section \<open>The routes\<close>

definition request_id_of :: "inference_env \<Rightarrow> string" where
  "request_id_of env = (if truthy (env_context_id env) then the (env_context_id env) else env_random_id env)"

text \<open>The accounts before a request whose id is new.\<close>

definition before :: "inference_env \<Rightarrow> usage_event set \<Rightarrow> ledger \<Rightarrow> bool" where
  "before env R l \<longleftrightarrow> service_ok l \<and> reservations l \<subseteq> R \<and>
     (\<forall>e \<in> set (inference_usage_events l). ev_request_id e \<noteq> request_id_of env)"

text \<open>After it: no new reservation is open, and the accounts are consistent unless an event of the
  request was settled with counts that add up to a negative number.\<close>

definition settled_negative :: "string \<Rightarrow> ledger \<Rightarrow> bool" where
  "settled_negative rid l \<longleftrightarrow> (\<exists>x \<in> set (inference_usage_events l). ev_request_id x = rid \<and> ev_status x = Settled \<and>
     ev_prompt_tokens x + ev_completion_tokens x < 0)"

definition after :: "inference_env \<Rightarrow> usage_event set \<Rightarrow> ledger \<Rightarrow> bool" where
  "after env R l \<longleftrightarrow> reservations l \<subseteq> R \<and> (service_ok l \<or> settled_negative (request_id_of env) l)"

lemma ended_after: "ended R e l \<Longrightarrow> ev_request_id e = request_id_of env \<Longrightarrow> after env R l"
  using concluded_reservations [of R "ev_id e" l]
  by (auto simp: after_def ended_def undercharged_def kept_def negative_row_def settled_negative_def)

lemma triple_fact: "(A \<Longrightarrow> triple P m Q E) \<Longrightarrow> triple (\<lambda>s. P s \<and> A) m Q E"
  by (simp add: triple_def)

lemma reserve_request_new:
  assumes "inference_request_valid payload"
  shows "triple (on_books (before env R))
    (on_ledger (reserve_inference_tokens cfg now user (inference_args env k payload (input_tokens_of (ir_prompt payload)))))
    (\<lambda>e s. held R e (kd_ledger s) \<and> ev_request_id e = request_id_of env) (\<lambda>_. True)"
proof -
  let ?ra = "inference_args env k payload (input_tokens_of (ir_prompt payload))"
  have rid: "effective_request_id ?ra = request_id_of env"
    by (simp add: effective_request_id_def inference_args_def request_id_of_def truthy_def)
  have tok: "0 \<le> ra_prompt_tokens ?ra + ra_max_completion_tokens ?ra"
    using assms input_tokens_pos [of "ir_prompt payload"] by (simp add: inference_args_def inference_request_valid_def)
  show ?thesis
    by (rule triple_on_ledger, rule triple_conseq [OF reserve_new_held [OF tok, where R = R]])
      (auto simp: before_def requested_def rid)
qed

lemma mesh_serve_after:
  assumes "inference_request_valid payload"
  shows "triple (on_books (before env R)) (mesh_serve env k user payload (input_tokens_of (ir_prompt payload)))
    (\<lambda>_. on_books (after env R)) (\<lambda>_. True)"
  unfolding mesh_serve_def
proof (rule triple_bind [OF reserve_request_new [OF assms]], rule triple_fact)
  fix e :: usage_event assume rid: "ev_request_id e = request_id_of env"
  have "triple (on_books (held R e)) (mesh_answer env k payload e) (\<lambda>_. on_books (ended R e)) (on_books (unended R e))"
    unfolding mesh_answer_def
  proof (rule triple_bind)
    show "triple (on_books (held R e)) (of_result (mesh_run env payload)) (\<lambda>_. on_books (held R e)) (on_books (unended R e))"
      by (rule triple_of_result) (simp_all add: held_unended)
    fix x
    have "triple (on_books (held R e)) (then_do (on_ledger (release_inference_reservation (env_served_at env) e))
        (then_do (record_usage (env_served_at env) k (env_web env) 200 0 0 None) (ret y)))
        (\<lambda>_. on_books (concluded R (ev_id e))) (on_books (unended R e))" for y :: "string \<times> int"
      by (intro triple_then [OF triple_on_ledger [OF release_held]] triple_then [OF record_usage_ledger] triple_ret)
    then show "triple (on_books (held R e)) (case x of (output, output_tokens) \<Rightarrow>
        then_do (on_ledger (release_inference_reservation (env_served_at env) e))
          (then_do (record_usage (env_served_at env) k (env_web env) 200 0 0 None)
            (ret (output, or_count (case output_tokens of None \<Rightarrow> 0 | Some n \<Rightarrow> n) (input_tokens_of output)))))
        (\<lambda>_. on_books (ended R e)) (on_books (unended R e))"
      unfolding split_beta by (rule triple_conseq) (auto simp: ended_def)
  qed
  then show "triple (on_books (held R e)) (on_error (mesh_answer env k payload e) (release_and_raise env e)
      (\<lambda>answer. bind (on_ledger (recalculate_current_period (product_settings env) (env_served_at env) user))
        (\<lambda>period. ret (Inr (mesh_execution (input_tokens_of (ir_prompt payload)) e answer period)))))
    (\<lambda>_. on_books (after env R)) (\<lambda>_. True)"
    by (rule triple_conseq [OF triple_on_error [OF _ release_and_raise_ends [where E = "\<lambda>_. True"]]])
      (auto intro!: triple_bind [OF triple_weaken_error [OF triple_on_ledger [OF recalculate_ended]]] triple_ret
        intro: ended_after [OF _ rid])
qed

lemma execute_inference_after:
  assumes v: "inference_request_valid payload"
  shows "triple (on_books (before env R)) (execute_inference env payload k) (\<lambda>_. on_books (after env R)) (\<lambda>_. True)"
proof -
  have pure: "triple (on_books (before env R)) (of_result r) (\<lambda>_. on_books (before env R)) (\<lambda>_. True)" for r :: "error + 'b"
    by (rule triple_of_result) simp_all
  have owner: "triple (on_books (before env R)) (key_owner_row k) (\<lambda>_. on_books (before env R)) (\<lambda>_. True)"
    by (auto simp: key_owner_row_def triple_def handler_defs on_ledger_def split: option.splits)
  have reserve: "triple (on_books (before env R))
      (bind (on_ledger (reserve_inference_tokens (product_settings env) (env_now env) user
          (inference_args env k payload (input_tokens_of (ir_prompt payload)))))
        (\<lambda>event. serve env k user (input_tokens_of (ir_prompt payload)) event cs)) (\<lambda>_. on_books (after env R)) (\<lambda>_. True)" for user cs
    by (rule triple_bind [OF reserve_request_new [OF v]], rule triple_fact, rule triple_conseq [OF serve_ends])
      (auto intro: ended_after)
  show ?thesis
    unfolding execute_inference_def Let_def
    apply (rule triple_then [OF pure])
    apply (rule triple_bind [OF owner])
    apply (rule triple_bind [where R = "\<lambda>_. on_books (before env R)"])
     apply (rule triple_gets, assumption)
    apply (rule triple_bind [OF pure])
    apply (intro triple_if mesh_serve_after [OF v] reserve)
    apply (rule triple_bind [where R = "\<lambda>_ _. True"])
     apply (rule triple_gets, rule TrueI)
    apply (rule triple_raise, rule TrueI)
    done
qed

lemma put_key_before: "before env R (put_key k l) = before env R l"
  by (simp add: before_def service_ok_put_key reservations_def) (simp add: put_key_def)

lemma inference_key_before:
  "triple (on_books (before env R)) (inference_key env scopes request) (\<lambda>_. on_books (before env R)) (\<lambda>_. True)"
proof -
  have auth: "triple (before env R) (authenticate_key cfg h now raw rc lim ip) (\<lambda>_. before env R) (\<lambda>_. True)" for cfg h now raw rc lim ip
  proof (rule tripleI)
    fix l x l' assume "before env R l" "authenticate_key cfg h now raw rc lim ip l = (Inr x, l')"
    from this(2) this(1) show "before env R l'" by (cases rule: authenticate_cases) (simp_all add: put_key_before)
  qed simp
  have keep: "triple (before env R) (of_result r) (\<lambda>_. before env R) (\<lambda>_. True)" for r :: "error + 'b"
    by (rule triple_of_result) simp_all
  show ?thesis
    unfolding inference_key_def require_api_key_def current_api_key_def
    apply (rule triple_on_ledger [where E = "\<lambda>_. True"])
    apply (rule triple_bind [where R = "\<lambda>_. before env R"])
     apply (rule triple_bind [where R = "\<lambda>_. before env R", OF keep auth])
    apply (rule triple_then [where R = "before env R", OF keep])
    apply (rule triple_ret, assumption)
    done
qed

lemma triple_answer_of:
  assumes "triple P h (\<lambda>_. Q) (\<lambda>_. True)" "\<And>s. P s \<Longrightarrow> Q s"
  shows "triple P (answer_of h) (\<lambda>_. Q) Q"
  unfolding answer_of_def
  by (rule triple_bind [where R = "\<lambda>_. Q"], rule triple_conseq [OF triple_transaction [OF assms(1)]])
    (use assms(2) in \<open>auto intro: triple_of_result\<close>)

lemma before_after: "before env R l \<Longrightarrow> after env R l"
  by (simp add: before_def after_def)

lemma run_inference_after:
  "triple (on_books (before env R)) (run_inference env request payload) (\<lambda>_. on_books (after env R)) (on_books (after env R))"
  unfolding run_inference_def
proof (rule triple_answer_of)
  have "triple (on_books (before env R))
      (then_do (guard_or (inference_request_valid payload) validation_error) (execute_inference env payload k))
      (\<lambda>_. on_books (after env R)) (\<lambda>_. True)" for k
  proof (cases "inference_request_valid payload")
    case True
    from execute_inference_after [OF this] show ?thesis
      using True by (intro triple_then [where R = "on_books (before env R)"] triple_guard) simp_all
  next
    case False
    then show ?thesis by (simp add: triple_def then_do_def bind_def)
  qed
  then show "triple (on_books (before env R)) (bind (inference_key env [''inference:write''] request)
      (\<lambda>k. then_do (guard_or (inference_request_valid payload) validation_error) (execute_inference env payload k)))
      (\<lambda>_. on_books (after env R)) (\<lambda>_. True)"
    by (rule triple_bind [OF inference_key_before])
qed (rule before_after)

section \<open>The attempts of a request\<close>

definition failure_outcomes :: "string list" where
  "failure_outcomes = [''forward_error'', ''http_error'', ''timeout'', ''pin_mismatch'', ''no_token'', ''no_pin'']"

definition attempt_ok :: "miner_candidate \<Rightarrow> forward_error + forward_result \<Rightarrow> bool" where
  "attempt_ok c x = (case x of Inl e \<Rightarrow> fe_outcome e \<in> set failure_outcomes | Inr r \<Rightarrow> fr_candidate r = c)"

lemma mark_stale_stats [simp]: "miner_request_stats (mark_stale i m) = miner_request_stats m"
  by (simp add: mark_stale_def put_miner_def split: option.split)

abbreviation same_stats :: "request_stat list \<Rightarrow> miners_db \<Rightarrow> bool" where
  "same_stats rows m \<equiv> miner_request_stats m = rows"

lemma prepare_attempt:
  "triple (same_stats rows) (prepare_forward net c)
    (\<lambda>x m. same_stats rows m \<and> (case x of Inl e \<Rightarrow> fe_outcome e \<in> set failure_outcomes | Inr _ \<Rightarrow> True)) (same_stats rows)"
  unfolding prepare_forward_def
  by (auto simp: triple_def handler_defs failure_outcomes_def split: option.splits sum.splits)

lemma forward_attempt_rows:
  "triple (same_stats rows) (forward_attempt net c n)
    (\<lambda>x m. same_stats rows m \<and> (case x of None \<Rightarrow> True | Some y \<Rightarrow> attempt_ok c y)) (same_stats rows)"
  unfolding forward_attempt_def
  by (rule triple_bind [OF prepare_attempt])
    (auto simp: triple_def handler_defs attempt_ok_def transport_outcome_def failure_outcomes_def
      split: sum.splits exchange.splits option.splits)

lemma forward_rows:
  "triple (same_stats rows) (forward net c) (\<lambda>x m. same_stats rows m \<and> attempt_ok c x) (same_stats rows)"
proof -
  have second: "triple (\<lambda>m. same_stats rows m \<and> (case y of None \<Rightarrow> True | Some z \<Rightarrow> attempt_ok c z)) (case y of Some r \<Rightarrow> ret r
      | None \<Rightarrow> ret (Inl \<lparr>fe_outcome = ''http_error'', fe_latency_ms = Some (elapsed_ms net c), fe_http_status = Some 401\<rparr>))
      (\<lambda>x m. same_stats rows m \<and> attempt_ok c x) (same_stats rows)" for y
    by (cases y) (auto simp: attempt_ok_def failure_outcomes_def intro!: triple_ret)
  have first: "triple (\<lambda>m. same_stats rows m \<and> (case y of None \<Rightarrow> True | Some z \<Rightarrow> attempt_ok c z)) (case y of Some r \<Rightarrow> ret r
      | None \<Rightarrow> bind (forward_attempt net c 2) (\<lambda>second. case second of Some r \<Rightarrow> ret r
          | None \<Rightarrow> ret (Inl \<lparr>fe_outcome = ''http_error'', fe_latency_ms = Some (elapsed_ms net c), fe_http_status = Some 401\<rparr>)))
      (\<lambda>x m. same_stats rows m \<and> attempt_ok c x) (same_stats rows)" for y
  proof (cases y)
    case None
    then show ?thesis using triple_bind [OF forward_attempt_rows second] by simp
  next
    case (Some z)
    then show ?thesis by (auto intro!: triple_ret)
  qed
  show ?thesis unfolding forward_def by (rule triple_bind [OF forward_attempt_rows first])
qed

text \<open>Every failed candidate leaves one row, in order, and the one that answers comes next.\<close>

definition failed_rows :: "string \<Rightarrow> miner_candidate list \<Rightarrow> request_stat list \<Rightarrow> bool" where
  "failed_rows rid cs fs \<longleftrightarrow> list_all2 (\<lambda>f c. rs_request_id f = Some rid \<and> rs_outcome f \<in> set failure_outcomes \<and>
     rs_miner_id f = Some (cd_miner_id c) \<and> rs_miner_model_id f = Some (cd_miner_model_id c)) fs cs"

lemma record_failure_run:
  assumes "fe_outcome e \<in> set failure_outcomes"
  shows "\<exists>f. miner_request_stats (snd (record_failure now epoch c e rid m)) = miner_request_stats m @ [f] \<and>
    failed_rows rid [c] [f] \<and> fst (record_failure now epoch c e rid m) = Inr ()"
  using assms by (simp add: record_failure_def record_attempt_def failed_rows_def failure_outcomes_def)

lemma forward_all_rows:
  "forward_all env rid cs m = (Inr x, m') \<Longrightarrow>
     \<exists>fs tried rest. cs = tried @ rest \<and> miner_request_stats m' = miner_request_stats m @ fs \<and> failed_rows rid tried fs \<and>
       (case x of None \<Rightarrow> rest = [] | Some r \<Rightarrow> \<exists>more. rest = fr_candidate r # more)"
proof (induction cs arbitrary: m)
  case (Cons c cs)
  obtain y m1 where f: "forward (env_network env) c m = (Inr y, m1)" and k: "(case y of
        Inl e \<Rightarrow> then_do (record_failure (env_served_at env) (env_epoch env) c e rid) (forward_all env rid cs)
      | Inr result \<Rightarrow> ret (Some result)) m1 = (Inr x, m')"
    using Cons.prems unfolding forward_all.simps by (elim bindE)
  have y: "miner_request_stats m1 = miner_request_stats m" "attempt_ok c y"
    using tripleD [OF forward_rows _ f] by simp_all
  show ?case
  proof (cases y)
    case (Inr r)
    then show ?thesis
      using k y by (intro exI [of _ "[]"] exI [of _ "c # cs"]) (auto simp: failed_rows_def attempt_ok_def)
  next
    case (Inl e)
    then have "fe_outcome e \<in> set failure_outcomes" using y(2) by (simp add: attempt_ok_def)
    from record_failure_run [OF this, of "env_served_at env" "env_epoch env" c rid m1]
    obtain f m2 where r: "record_failure (env_served_at env) (env_epoch env) c e rid m1 = (Inr (), m2)"
      "miner_request_stats m2 = miner_request_stats m1 @ [f]" "failed_rows rid [c] [f]"
      by (metis prod.collapse)
    have "forward_all env rid cs m2 = (Inr x, m')" using k Inl r(1) by (simp add: then_do_def bind_def)
    from Cons.IH [OF this] obtain fs tried rest where *: "cs = tried @ rest"
      "miner_request_stats m' = miner_request_stats m2 @ fs" "failed_rows rid tried fs"
      "case x of None \<Rightarrow> rest = [] | Some r \<Rightarrow> \<exists>more. rest = fr_candidate r # more" by blast
    then show ?thesis
      using r(2,3) y(1) by (intro exI [of _ "f # fs"] exI [of _ "c # tried"] exI [of _ rest]) (auto simp: failed_rows_def)
  qed
qed (simp add: failed_rows_def)

section \<open>A served request\<close>

lemma on_miners_ok:
  "on_miners h s = (Inr x, s') \<longleftrightarrow> (\<exists>m. h (pd_miners s) = (Inr x, m) \<and> s' = s\<lparr>pd_miners := m\<rparr>)"
  by (auto simp: on_miners_def split: prod.splits)

text \<open>The row of a served attempt, with the settled counts.\<close>

definition served_row :: "forward_result \<Rightarrow> string \<Rightarrow> int \<Rightarrow> int \<Rightarrow> request_stat \<Rightarrow> bool" where
  "served_row r rid prompt completion row \<longleftrightarrow> rs_outcome row = ''success'' \<and> rs_request_id row = Some rid \<and>
     rs_miner_id row = Some (cd_miner_id (fr_candidate r)) \<and>
     rs_miner_model_id row = Some (cd_miner_model_id (fr_candidate r)) \<and>
     rs_prompt_tokens row = max 0 prompt \<and> rs_completion_tokens row = max 0 completion"

lemma record_success_run:
  "\<exists>row m'. record_success now epoch r rid prompt completion m = (Inr (), m') \<and>
     miner_request_stats m' = miner_request_stats m @ [row] \<and> served_row r rid prompt completion row"
  by (simp add: record_success_def record_attempt_def served_row_def)

definition usage_log_row :: "time \<Rightarrow> api_key_row \<Rightarrow> web_request \<Rightarrow> int \<Rightarrow> int \<Rightarrow> usage_row" where
  "usage_log_row now k req prompt completion =
     \<lparr>ku_api_key_id = key_id k, ku_user_id = key_user_id k, ku_endpoint = req_path req, ku_method = req_method req,
      ku_status_code = 200, ku_request_id = req_context_id req, ku_input_tokens = prompt, ku_output_tokens = completion,
      ku_created_at = now\<rparr>"

lemma settle_served_ok:
  assumes "settle_served env k user input_tokens e r s = (Inr x, s')"
  obtains answer e' l1 per row prompt completion where
    "prompt = or_count (tu_prompt_tokens (fr_usage r)) input_tokens"
    "completion = or_count (tu_completion_tokens (fr_usage r)) (input_tokens_of answer)"
    "text_from_completion (fr_body r) = Inr answer"
    "settle_inference_usage (env_served_at env) e prompt completion (kd_ledger s) = (Inr e', l1)"
    "recalculate_current_period (product_settings env) (env_served_at env) user
       (put_event (attributed (fr_candidate r) e') l1) = (Inr per, kd_ledger s')"
    "kd_usage s' = kd_usage s @ [usage_log_row (env_served_at env) k (env_web env) prompt completion]"
    "miner_request_stats (pd_miners s') = miner_request_stats (pd_miners s) @ [row]"
    "served_row r (ev_request_id e) prompt completion row"
    "x = \<lparr>ex_output = answer, ex_input_tokens = prompt, ex_output_tokens = completion,
          ex_charged_tokens = ev_charged_tokens e', ex_remaining_tokens = per_remaining_tokens per,
          ex_request_id = ev_request_id e, ex_attested = True, ex_candidate = Some (fr_candidate r)\<rparr>"
proof -
  obtain answer s1 where o: "text_from_completion (fr_body r) = Inr answer" "s1 = s"
    and k1: "(let u = fr_usage r;
           output_tokens = or_count (tu_completion_tokens u) (input_tokens_of answer);
           prompt_tokens = or_count (tu_prompt_tokens u) input_tokens;
           c = fr_candidate r
       in bind (on_ledger (settle_inference_usage (env_served_at env) e prompt_tokens output_tokens)) (\<lambda>settled.
          let settled = attributed c settled
          in then_do (on_ledger (modify (put_event settled)))
            (then_do (on_miners (record_success (env_served_at env) (env_epoch env) r (ev_request_id e)
                        prompt_tokens output_tokens))
            (then_do (record_usage (env_served_at env) k (env_web env) 200 prompt_tokens output_tokens None)
            (bind (on_ledger (recalculate_current_period (product_settings env) (env_served_at env) user)) (\<lambda>period.
             then_do (of_result (env_sign env c))
               (ret \<lparr>ex_output = answer, ex_input_tokens = prompt_tokens, ex_output_tokens = output_tokens,
                     ex_charged_tokens = ev_charged_tokens settled,
                     ex_remaining_tokens = per_remaining_tokens period, ex_request_id = ev_request_id e,
                     ex_attested = True, ex_candidate = Some c\<rparr>))))))) s1 = (Inr x, s')"
    using assms unfolding settle_served_def by (elim bindE) (auto simp: of_result_ok)
  define prompt completion where "prompt = or_count (tu_prompt_tokens (fr_usage r)) input_tokens"
    and "completion = or_count (tu_completion_tokens (fr_usage r)) (input_tokens_of answer)"
  obtain row m' where rs: "record_success (env_served_at env) (env_epoch env) r (ev_request_id e) prompt completion
      (pd_miners s) = (Inr (), m')" "miner_request_stats m' = miner_request_stats (pd_miners s) @ [row]"
    "served_row r (ev_request_id e) prompt completion row"
    using record_success_run by blast
  note k2 = k1 [unfolded Let_def o(2) prompt_def [symmetric] completion_def [symmetric]]
  from k2 show ?thesis
    by (elim bindE thenE)
      (auto simp: on_ledger_ok on_miners_ok rs record_usage_def usage_log_row_def truthy_def of_result_ok
        intro!: that [OF prompt_def completion_def o(1) _ _ _ _ rs(3)])
qed

lemma release_and_raise_value:
  "release_and_raise env event e s = (Inr y, s') \<Longrightarrow> y = Inl e"
  unfolding release_and_raise_def by (elim bindE thenE) simp

lemma serve_ok:
  assumes "serve env k user input_tokens e cs s = (Inr (Inr x), s')"
  obtains r m where "forward_all env (ev_request_id e) cs (pd_miners s) = (Inr (Some r), m)"
    "settle_served env k user input_tokens e r (s\<lparr>pd_miners := m\<rparr>) = (Inr x, s')"
proof -
  obtain y t where y: "forward_and_settle env k user input_tokens e cs s = (y, t)" by fastforce
  have "y = Inr (Some x) \<and> t = s'"
    using assms unfolding serve_def on_error_def y
    by (auto split: sum.splits option.splits dest: release_and_raise_value)
  then have "forward_and_settle env k user input_tokens e cs s = (Inr (Some x), s')" using y by simp
  then obtain o' s1 where o': "on_miners (forward_all env (ev_request_id e) cs) s = (Inr o', s1)"
    and k1: "(case o' of None \<Rightarrow> then_do (on_ledger (release_inference_reservation (env_served_at env) e)) (ret None)
       | Some result \<Rightarrow> bind (settle_served env k user input_tokens e result) (\<lambda>x. ret (Some x))) s1 = (Inr (Some x), s')"
    unfolding forward_and_settle_def by (elim bindE)
  show ?thesis
  proof (cases o')
    case None
    then show ?thesis using k1 by (auto simp: then_ok)
  next
    case (Some r)
    then show ?thesis using k1 o' that [of r] by (auto simp: bind_ok on_miners_ok)
  qed
qed

lemma mesh_unattested:
  assumes "mesh_serve env k user payload n s = (Inr (Inr x), s')" shows "\<not> ex_attested x"
proof -
  obtain e s1 where "on_error (mesh_answer env k payload e) (release_and_raise env e)
         (\<lambda>answer. bind (on_ledger (recalculate_current_period (product_settings env) (env_served_at env) user))
            (\<lambda>period. ret (Inr (mesh_execution n e answer period)))) s1 = (Inr (Inr x), s')"
    using assms unfolding mesh_serve_def by (elim bindE)
  then show ?thesis
    unfolding on_error_def
    by (auto simp: bind_ok mesh_execution_def split: prod.splits sum.splits dest: release_and_raise_value)
qed

text \<open>What a served reservation leaves.\<close>

definition served_event :: "miner_candidate \<Rightarrow> execution \<Rightarrow> usage_event \<Rightarrow> bool" where
  "served_event c x e \<longleftrightarrow> ev_status e = Settled \<and> ev_request_id e = ex_request_id x \<and>
     ev_miner_id e = Some (cd_miner_id c) \<and> ev_miner_hotkey e = Some (cd_hotkey c) \<and>
     ev_miner_model_hash e = cd_model_hash c \<and>
     ev_prompt_tokens e = ex_input_tokens x \<and> ev_completion_tokens e = ex_output_tokens x \<and>
     ev_charged_tokens e = ex_charged_tokens x \<and>
     ev_charged_tokens e = charged_token_count (ex_input_tokens x + ex_output_tokens x) (ev_model_multiplier e)"

text \<open>What an answer is billed with: the counts the enclave reported, and for a count of zero the
  number of words of the prompt or of the text.\<close>

definition billed_as_reported :: "network \<Rightarrow> int \<Rightarrow> miner_candidate \<Rightarrow> execution \<Rightarrow> bool" where
  "billed_as_reported net input_tokens c x \<longleftrightarrow>
     (\<exists>body u. answered net c body u \<and> text_from_completion body = Inr (ex_output x) \<and>
        ex_input_tokens x = (if tu_prompt_tokens u \<noteq> 0 then tu_prompt_tokens u else input_tokens) \<and>
        ex_output_tokens x = (if tu_completion_tokens u \<noteq> 0 then tu_completion_tokens u else input_tokens_of (ex_output x)))"

lemma serve_records:
  assumes h: "held R e (kd_ledger s)" and run: "serve env k user input_tokens e cs s = (Inr (Inr x), s')"
  shows "\<exists>c tried rest fs row ev. cs = tried @ c # rest \<and> ex_candidate x = Some c \<and> ex_request_id x = ev_request_id e \<and>
    billed_as_reported (env_network env) input_tokens c x \<and>
    ev \<in> set (inference_usage_events (kd_ledger s')) \<and> served_event c x ev \<and>
    miner_request_stats (pd_miners s') = miner_request_stats (pd_miners s) @ fs @ [row] \<and>
    failed_rows (ev_request_id e) tried fs \<and> rs_outcome row = ''success'' \<and> rs_request_id row = Some (ev_request_id e) \<and>
    rs_miner_id row = Some (cd_miner_id c) \<and>
    rs_prompt_tokens row = max 0 (ex_input_tokens x) \<and> rs_completion_tokens row = max 0 (ex_output_tokens x) \<and>
    kd_usage s' = kd_usage s @ [usage_log_row (env_served_at env) k (env_web env) (ex_input_tokens x) (ex_output_tokens x)]"
proof (rule serve_ok [OF run])
  fix r m assume f: "forward_all env (ev_request_id e) cs (pd_miners s) = (Inr (Some r), m)"
    and st: "settle_served env k user input_tokens e r (s\<lparr>pd_miners := m\<rparr>) = (Inr x, s')"
  obtain fs tried more where rows: "cs = tried @ fr_candidate r # more"
      "miner_request_stats m = miner_request_stats (pd_miners s) @ fs" "failed_rows (ev_request_id e) tried fs"
    using forward_all_rows [OF f] by auto
  note ans = forward_all_answered [OF f]
  show ?thesis
  proof (rule settle_served_ok [OF st])
    fix answer e' l1 per row prompt completion
    assume p: "prompt = or_count (tu_prompt_tokens (fr_usage r)) input_tokens"
        "completion = or_count (tu_completion_tokens (fr_usage r)) (input_tokens_of answer)"
      and ot: "text_from_completion (fr_body r) = Inr answer"
      and se: "settle_inference_usage (env_served_at env) e prompt completion (kd_ledger (s\<lparr>pd_miners := m\<rparr>)) = (Inr e', l1)"
      and rc: "recalculate_current_period (product_settings env) (env_served_at env) user
         (put_event (attributed (fr_candidate r) e') l1) = (Inr per, kd_ledger s')"
      and u: "kd_usage s' = kd_usage (s\<lparr>pd_miners := m\<rparr>) @ [usage_log_row (env_served_at env) k (env_web env) prompt completion]"
      and rs: "miner_request_stats (pd_miners s') = miner_request_stats (pd_miners (s\<lparr>pd_miners := m\<rparr>)) @ [row]"
        "served_row r (ev_request_id e) prompt completion row"
      and x: "x = \<lparr>ex_output = answer, ex_input_tokens = prompt, ex_output_tokens = completion,
          ex_charged_tokens = ev_charged_tokens e', ex_remaining_tokens = per_remaining_tokens per,
          ex_request_id = ev_request_id e, ex_attested = True, ex_candidate = Some (fr_candidate r)\<rparr>"
    have h': "ev_status e = Reserved" "e \<in> set (inference_usage_events (kd_ledger s))"
        "{x \<in> reservations (kd_ledger s). ev_id x \<noteq> ev_id e} \<subseteq> R"
      using h by (simp_all add: held_def holding_def)
    obtain w where w: "e' = settled (env_served_at env) e prompt completion w" using settle_rewrites [OF se h'(1)] by blast
    let ?ev = "attributed (fr_candidate r) e'"
    have "kept R e' l1" by (rule settle_kept [OF se h'(1)]) (use h' in simp_all)
    then have "kept R ?ev (put_event ?ev l1)" by (rule kept_put_row) (simp_all add: w)
    from tripleD [OF recalculate_kept this rc] have "?ev \<in> set (inference_usage_events (kd_ledger s'))"
      by (simp add: kept_def)
    moreover have "served_event (fr_candidate r) x ?ev"
      by (simp add: served_event_def x w) (simp add: attributed_def settled_def)
    moreover have "billed_as_reported (env_network env) input_tokens (fr_candidate r) x"
      unfolding billed_as_reported_def using ans ot
      by (intro exI [of _ "fr_body r"] exI [of _ "fr_usage r"]) (simp add: x p or_count_def)
    ultimately show ?thesis
      using rows rs u
      by (intro exI [of _ "fr_candidate r"] exI [of _ tried] exI [of _ more] exI [of _ fs] exI [of _ row] exI [of _ ?ev])
        (simp add: x served_row_def)
  qed
qed

lemma execute_served:
  assumes h: "before env R (kd_ledger s)" and v: "inference_request_valid payload"
    and run: "execute_inference env payload k s = (Inr (Inr x), s')" and att: "ex_attested x"
  obtains cs user e s1 where "select_for env (ir_model payload) s = Inr cs" "pd_miners s1 = pd_miners s" "kd_usage s1 = kd_usage s"
    "held R e (kd_ledger s1)" "ev_request_id e = request_id_of env"
    "serve env k user (input_tokens_of (ir_prompt payload)) e (take (env_forward_max_attempts env) cs) s1 = (Inr (Inr x), s')"
proof -
  obtain cs user where cs: "select_for env (ir_model payload) s = Inr cs"
    and k1: "(if cs = [] then
            if env_allow_dev_echo_fallback env then mesh_serve env k user payload (input_tokens_of (ir_prompt payload))
            else bind (gets (\<lambda>s. is_model_registered (ir_model payload) (pd_miners s))) (\<lambda>known.
                   raise (if known then service_unavailable ''no_capacity'' else model_not_found))
          else
            bind (on_ledger (reserve_inference_tokens (product_settings env) (env_now env) user
                    (inference_args env k payload (input_tokens_of (ir_prompt payload))))) (\<lambda>event.
              serve env k user (input_tokens_of (ir_prompt payload)) event
                (take (env_forward_max_attempts env) cs))) s = (Inr (Inr x), s')"
    using run unfolding execute_inference_def Let_def key_owner_row_def
    by (elim bindE thenE) (auto simp: of_result_ok on_ledger_ok split: option.splits)
  have "cs \<noteq> []" using k1 att by (auto simp: bind_ok split: if_splits dest: mesh_unattested)
  then obtain e s1 where r: "on_ledger (reserve_inference_tokens (product_settings env) (env_now env) user
        (inference_args env k payload (input_tokens_of (ir_prompt payload)))) s = (Inr e, s1)"
    and sv: "serve env k user (input_tokens_of (ir_prompt payload)) e (take (env_forward_max_attempts env) cs) s1 = (Inr (Inr x), s')"
    using k1 by (auto simp: bind_ok)
  have "pd_miners s1 = pd_miners s" "kd_usage s1 = kd_usage s" using r by (auto simp: on_ledger_ok)
  then show ?thesis
    using that [OF cs _ _ _ _ sv] tripleD [OF reserve_request_new [OF v], of env R s, OF h r] by simp
qed

lemma run_inference_ok:
  assumes "run_inference env request payload s = (Inr x, s')" "before env R (kd_ledger s)"
  obtains k s1 where "inference_key env [''inference:write''] request s = (Inr k, s1)" "before env R (kd_ledger s1)"
    "pd_miners s1 = pd_miners s" "kd_usage s1 = kd_usage s" "inference_request_valid payload"
    "execute_inference env payload k s1 = (Inr (Inr x), s')"
proof -
  have "bind (inference_key env [''inference:write''] request) (\<lambda>db_key.
       then_do (guard_or (inference_request_valid payload) validation_error)
         (execute_inference env payload db_key)) s = (Inr (Inr x), s')"
    using assms(1) unfolding run_inference_def answer_of_def by (elim bindE) (simp add: transaction_ok of_result_ok)
  then obtain k s1 where k: "inference_key env [''inference:write''] request s = (Inr k, s1)"
    "inference_request_valid payload" "execute_inference env payload k s1 = (Inr (Inr x), s')"
    by (auto simp: bind_ok then_ok split: if_splits)
  moreover have "pd_miners s1 = pd_miners s" "kd_usage s1 = kd_usage s"
    using k(1) by (auto simp: inference_key_def on_ledger_ok)
  moreover have "before env R (kd_ledger s1)" using tripleD [OF inference_key_before, OF assms(2) k(1)] .
  ultimately show ?thesis by (intro that)
qed

section \<open>Properties\<close>

text \<open>C1: A request whose id is new leaves no reservation of its own open. Whatever the candidates
  answer, whether the request is served, fails over, is refused or raises, and even if its reservation
  expires while it is forwarded, every reservation that is open afterwards was open before; so the one
  the request made is settled, released or expired. The accounts stay consistent, with one exception:
  an answer may report negative counts, which the plaintext path does not reject, and an event of the
  request is then settled with a negative total.\<close>

theorem request_leaves_no_reservation:
  assumes "service_ok (kd_ledger s)"
    and "\<forall>e \<in> set (inference_usage_events (kd_ledger s)). ev_request_id e \<noteq> request_id_of env"
    and run: "run_inference env request payload s = (r, s')"
  shows "reservations (kd_ledger s') \<subseteq> reservations (kd_ledger s) \<and>
    (service_ok (kd_ledger s') \<or> settled_negative (request_id_of env) (kd_ledger s'))"
proof -
  let ?R = "reservations (kd_ledger s)"
  have "before env ?R (kd_ledger s)" using assms by (simp add: before_def)
  then have "after env ?R (kd_ledger s')"
    using run tripleD [OF run_inference_after] tripleD_err [OF run_inference_after]
    by (cases r) blast+
  then show ?thesis by (simp add: after_def)
qed

text \<open>C2: A request whose id is new and that an enclave served is billed, attributed and recorded once.
  The answer comes from one of the ranked candidates, after the earlier ones each left a failed attempt.
  It is billed with the counts its body reports, and for a count of zero with the words of the prompt
  or of the answer: the event is settled with these counts at its price and names the serving miner,
  one row of a success and one row of use are added with the same counts, the row of the success with
  a negative count as zero.\<close>

theorem served_request_recorded_once:
  assumes ok: "service_ok (kd_ledger s)"
    and new: "\<forall>e \<in> set (inference_usage_events (kd_ledger s)). ev_request_id e \<noteq> request_id_of env"
    and run: "run_inference env request payload s = (Inr x, s')" and att: "ex_attested x"
  shows "\<exists>cs c tried rest fs row ev k. fst (inference_key env [''inference:write''] request s) = Inr k \<and>
    select_for env (ir_model payload) s = Inr cs \<and>
    take (env_forward_max_attempts env) cs = tried @ c # rest \<and> ex_candidate x = Some c \<and>
    billed_as_reported (env_network env) (input_tokens_of (ir_prompt payload)) c x \<and>
    ev \<in> set (inference_usage_events (kd_ledger s')) \<and> served_event c x ev \<and> ex_request_id x = request_id_of env \<and>
    miner_request_stats (pd_miners s') = miner_request_stats (pd_miners s) @ fs @ [row] \<and>
    failed_rows (request_id_of env) tried fs \<and> rs_outcome row = ''success'' \<and> rs_request_id row = Some (request_id_of env) \<and>
    rs_miner_id row = Some (cd_miner_id c) \<and>
    rs_prompt_tokens row = max 0 (ex_input_tokens x) \<and> rs_completion_tokens row = max 0 (ex_output_tokens x) \<and>
    kd_usage s' = kd_usage s @ [usage_log_row (env_served_at env) k (env_web env) (ex_input_tokens x) (ex_output_tokens x)]"
proof -
  let ?R = "reservations (kd_ledger s)"
  have h: "before env ?R (kd_ledger s)" using ok new by (simp add: before_def)
  obtain k s1 where k: "inference_key env [''inference:write''] request s = (Inr k, s1)"
    "before env ?R (kd_ledger s1)" "pd_miners s1 = pd_miners s" "kd_usage s1 = kd_usage s"
    "inference_request_valid payload" "execute_inference env payload k s1 = (Inr (Inr x), s')"
    using run_inference_ok [OF run h] by metis
  obtain cs user e s2 where c: "select_for env (ir_model payload) s1 = Inr cs" "pd_miners s2 = pd_miners s1"
    "kd_usage s2 = kd_usage s1" "held ?R e (kd_ledger s2)" "ev_request_id e = request_id_of env"
    "serve env k user (input_tokens_of (ir_prompt payload)) e (take (env_forward_max_attempts env) cs) s2 = (Inr (Inr x), s')"
    using execute_served [OF k(2,5,6) att] by metis
  have "select_for env (ir_model payload) s = Inr cs" using c(1) k(3) by (simp add: select_for_def)
  moreover have "fst (inference_key env [''inference:write''] request s) = Inr k" by (simp add: k(1))
  ultimately show ?thesis
    using serve_records [OF c(4,6)] c(2,3,5) k(3,4) by metis
qed

end
