(* ===== verification/StreamProps.thy ===== *)
theory StreamProps
  imports InferenceProps
begin

text \<open>
  The settlement of a streamed answer: it happens at most once, whatever it is called with again, it
  bills what the stream reported, and without a report at most the reserved completion.
\<close>

text \<open>The counts a stream is billed with.\<close>

lemma stream_counts_cases:
  fixes os :: open_stream and st :: stream_state
  defines "u \<equiv> st_usage st" and "n \<equiv> int (st_content_chunks st)"
  defines "reported \<equiv> tu_completion_tokens u \<noteq> 0 \<or> tu_total_tokens u \<noteq> 0"
  defines "c \<equiv> if reported then tu_completion_tokens u else if n = 0 then 0 else min n (os_max_tokens os)"
  shows "stream_counts os st =
    (if reported \<or> c \<noteq> 0 then Some (if tu_prompt_tokens u \<noteq> 0 then tu_prompt_tokens u else os_input_tokens os, c) else None)"
  by (auto simp: stream_counts_def Let_def or_count_def u_def n_def reported_def c_def)

text \<open>A released reservation is charged nothing.\<close>

lemma release_row:
  assumes ok: "service_ok l" and e: "e \<in> set (inference_usage_events l)" "ev_status e = Reserved"
    and run: "release_inference_reservation now e l = (Inr (), l')"
  shows "\<exists>e' \<in> set (inference_usage_events l'). ev_id e' = ev_id e \<and> ev_status e' \<in> {Released, Expired} \<and>
    ev_charged_tokens e' = ev_charged_tokens e"
proof (cases "ev_expires_at e \<le> now")
  case True
  have lok: "ledger_ok l" using ok by (simp add: service_ok_def)
  obtain t where t: "expire_stale_reservations now (Some (ev_user_id e)) l
        = (Inr (length (filter (is_stale now (Some (ev_user_id e))) (inference_usage_events l))), t)"
    "inference_usage_events t
      = map (\<lambda>x. if is_stale now (Some (ev_user_id e)) x then UsageRuns.closed now Expired x else x) (inference_usage_events l)"
    using expire_stale_run [OF lok, of now "Some (ev_user_id e)"] by blast
  have "l' = t" using run True e(2) by (simp add: release_inference_reservation_def then_do_def bind_def t(1))
  moreover have "is_stale now (Some (ev_user_id e)) e" using True e(2) by (simp add: is_stale_def)
  ultimately have "UsageRuns.closed now Expired e \<in> set (inference_usage_events l')"
    using e(1) by (auto simp: t(2) intro: rev_image_eqI)
  then show ?thesis by (intro bexI) (simp_all, simp add: UsageRuns.closed_def)
next
  case False
  have lok: "ledger_ok l" using ok by (simp add: service_ok_def)
  obtain p where p: "p \<in> set (usage_periods l)" "per_id p = ev_usage_period_id e"
    using event_period [OF lok e(1)] by blast
  have "inference_usage_events l' = replace_by ev_id (UsageRuns.closed now Released e) (inference_usage_events l)"
    using run False e(2) give_back_run [OF lok e p, of now Released] by (auto simp: release_inference_reservation_def)
  then have "UsageRuns.closed now Released e \<in> set (inference_usage_events l')"
    using image_eqI [OF refl e(1), of ev_id] by (simp add: set_replace_by)
  then show ?thesis by (intro bexI) (simp_all, simp add: UsageRuns.closed_def)
qed

lemma settle_stream_closed:
  assumes "\<And>e. e \<in> set (inference_usage_events (kd_ledger s)) \<Longrightarrow> ev_id e = os_reservation_id os \<Longrightarrow> ev_status e \<noteq> Reserved"
  shows "settle_stream env now k os st s = (Inr (), s)"
proof -
  have "case find (\<lambda>e. ev_id e = os_reservation_id os) (inference_usage_events (kd_ledger s)) of
      None \<Rightarrow> True | Some e \<Rightarrow> ev_status e \<noteq> Reserved"
    using assms by (auto simp: find_Some_iff split: option.split)
  then show ?thesis
    by (auto simp: settle_stream_def transaction_def bind_def on_ledger_def split: option.splits)
qed

lemma settle_stream_open:
  assumes e: "find (\<lambda>e. ev_id e = os_reservation_id os) (inference_usage_events (kd_ledger s)) = Some e" "ev_status e = Reserved"
    and run: "settle_stream env now k os st s = (Inr u, s')"
  shows "case stream_counts os st of
      None \<Rightarrow> release_inference_reservation now e (kd_ledger s) = (Inr (), kd_ledger s')
    | Some (p, c) \<Rightarrow> \<exists>e' l. settle_inference_usage now e p c (kd_ledger s) = (Inr e', l) \<and>
        kd_ledger s' = put_event (attributed (os_candidate os) e') l"
  using run unfolding settle_stream_def transaction_ok
  by (auto simp: bind_ok then_ok on_ledger_ok on_miners_ok Let_def e record_usage_def split: option.splits prod.splits)

text \<open>The row a stream leaves of its reservation \<open>e\<close>.\<close>

definition stream_row :: "open_stream \<Rightarrow> stream_state \<Rightarrow> usage_event \<Rightarrow> ledger \<Rightarrow> bool" where
  "stream_row os st e l \<longleftrightarrow>
     (let u = st_usage st; n = int (st_content_chunks st);
          reported = (tu_completion_tokens u \<noteq> 0 \<or> tu_total_tokens u \<noteq> 0);
          p = (if tu_prompt_tokens u \<noteq> 0 then tu_prompt_tokens u else os_input_tokens os);
          c = (if reported then tu_completion_tokens u else if n = 0 then 0 else min n (os_max_tokens os))
      in \<exists>e' \<in> set (inference_usage_events l). ev_id e' = os_reservation_id os \<and>
           (if reported \<or> c \<noteq> 0
            then ev_status e' = Settled \<and> ev_prompt_tokens e' = p \<and> ev_completion_tokens e' = c \<and>
              ev_charged_tokens e' = charged_token_count (p + c) (ev_model_multiplier e) \<and>
              ev_miner_id e' = Some (cd_miner_id (os_candidate os))
            else ev_status e' \<in> {Released, Expired} \<and> ev_charged_tokens e' = ev_charged_tokens e))"

text \<open>C16: A stream is billed once. When its settlement returns, its reservation is no longer open and
  every later settlement of the stream changes nothing, whatever was drained. A reservation that was
  open is then settled with the counts of the usage report, the words of the prompt standing in for a
  prompt count of zero; when no completion and no total was reported, with the chunks of text relayed,
  at most the tokens asked for; and when no text was relayed either it is released or expired and
  charged nothing. A settlement that raises is rolled back and bills nothing.\<close>

theorem stream_billed_once:
  assumes ok: "service_ok (kd_ledger s)" and run: "settle_stream env now k os st s = (r, s')"
  shows "case r of Inl _ \<Rightarrow> s' = s
    | Inr _ \<Rightarrow> (\<forall>e \<in> reservations (kd_ledger s'). ev_id e \<noteq> os_reservation_id os) \<and>
        settle_stream env' now' k' os st' s' = (Inr (), s') \<and>
        (\<forall>e \<in> reservations (kd_ledger s). ev_id e = os_reservation_id os \<longrightarrow> stream_row os st e (kd_ledger s'))"
proof (cases r)
  case (Inl x)
  then show ?thesis using run unfolding settle_stream_def by (auto simp: transaction_def split: prod.splits sum.splits)
next
  case (Inr v)
  let ?i = "os_reservation_id os"
  show ?thesis
  proof (cases "\<exists>e \<in> reservations (kd_ledger s). ev_id e = ?i")
    case False
    then have "settle_stream env1 now1 k1 os st1 s = (Inr (), s)" for env1 now1 k1 st1
      by (intro settle_stream_closed) (auto simp: reservations_def)
    then show ?thesis using run Inr False by (auto simp: reservations_def)
  next
    case True
    then obtain e where e: "e \<in> set (inference_usage_events (kd_ledger s))" "ev_id e = ?i" "ev_status e = Reserved"
      by (auto simp: reservations_def)
    have only: "x = e" if "x \<in> reservations (kd_ledger s)" "ev_id x = ?i" for x
      using event_of_id [OF ok e(1), of x] that e(2) by (simp add: reservations_def)
    have "distinct (map ev_id (inference_usage_events (kd_ledger s)))"
      using ok by (simp add: service_ok_def ledger_ok_def keys_ok_def)
    from find_by_key [OF this e(1)] have f: "find (\<lambda>e. ev_id e = ?i) (inference_usage_events (kd_ledger s)) = Some e"
      using e(2) by simp
    note out = settle_stream_open [OF f e(3) run [unfolded Inr]]
    define u n where "u = st_usage st" and "n = int (st_content_chunks st)"
    define reported where "reported \<longleftrightarrow> tu_completion_tokens u \<noteq> 0 \<or> tu_total_tokens u \<noteq> 0"
    define p where "p = (if tu_prompt_tokens u \<noteq> 0 then tu_prompt_tokens u else os_input_tokens os)"
    define c where "c = (if reported then tu_completion_tokens u else if n = 0 then 0 else min n (os_max_tokens os))"
    have sc: "stream_counts os st = (if reported \<or> c \<noteq> 0 then Some (p, c) else None)"
      unfolding stream_counts_cases by (simp add: u_def n_def reported_def p_def c_def)
    have fin: "(\<forall>x \<in> reservations (kd_ledger s'). ev_id x \<noteq> ?i) \<and>
        (\<exists>e' \<in> set (inference_usage_events (kd_ledger s')). ev_id e' = ?i \<and>
           (if reported \<or> c \<noteq> 0
            then ev_status e' = Settled \<and> ev_prompt_tokens e' = p \<and> ev_completion_tokens e' = c \<and>
              ev_charged_tokens e' = charged_token_count (p + c) (ev_model_multiplier e) \<and>
              ev_miner_id e' = Some (cd_miner_id (os_candidate os))
            else ev_status e' \<in> {Released, Expired} \<and> ev_charged_tokens e' = ev_charged_tokens e))"
    proof (cases "reported \<or> c \<noteq> 0")
      case False
      then have rel: "release_inference_reservation now e (kd_ledger s) = (Inr (), kd_ledger s')" using out sc by simp
      have "holding {x \<in> reservations (kd_ledger s). ev_id x \<noteq> ?i} (ev_id e) (kd_ledger s)"
        using ok e image_eqI [OF refl e(1), of ev_id] by (auto simp: holding_def)
      from release_concludes [OF ok e(1) this, of now] rel e(2)
      have "\<forall>x \<in> reservations (kd_ledger s'). ev_id x \<noteq> ?i" by (auto simp: concluded_def)
      then show ?thesis using False release_row [OF ok e(1,3) rel] e(2) by simp
    next
      case True
      then obtain e' l where st: "settle_inference_usage now e p c (kd_ledger s) = (Inr e', l)"
        "kd_ledger s' = put_event (attributed (os_candidate os) e') l"
        using out sc by auto
      obtain w where w: "e' = settled now e p c w" using settle_rewrites [OF st(1) e(3)] by blast
      let ?e' = "attributed (os_candidate os) e'"
      have "kept (reservations (kd_ledger s)) e' l" by (rule settle_kept [OF st(1) e(3) _ e(1)]) blast
      then have "kept (reservations (kd_ledger s)) ?e' (kd_ledger s')" unfolding st(2) by (rule kept_put_row) (simp_all add: w)
      moreover have "ev_prompt_tokens ?e' = p" "ev_completion_tokens ?e' = c"
          "ev_miner_id ?e' = Some (cd_miner_id (os_candidate os))" "ev_id e' = ?i"
        by (simp_all add: attributed_def w e(2))
      ultimately show ?thesis using True by (auto simp: kept_def w intro!: bexI [of _ ?e'])
    qed
    then have "settle_stream env' now' k' os st' s' = (Inr (), s')"
      by (intro settle_stream_closed) (auto simp: reservations_def)
    moreover have "stream_row os st e (kd_ledger s')"
      using fin by (simp only: stream_row_def Let_def u_def n_def reported_def p_def c_def)
    ultimately show ?thesis unfolding Inr using fin only by auto
  qed
qed

end
