(* ===== verification/RouterDemo.thy ===== *)
theory RouterDemo
  imports RouterProps
begin

text \<open>
  A concrete database for the witnesses of the router plane: a router with its token, a user key
  with the inference scope, and a live reservation that router made under that key.
\<close>

definition demo_router :: service_client where
  "demo_router = \<lparr>sc_id = 5, sc_name = ''r'', sc_role = RouterRole, sc_prefix = ''rk_live_'', sc_last_four = ''zzzz'',
     sc_hashed_token = ''rk_t'', sc_rate_limit_per_minute = 600, sc_created_at = 0, sc_expires_at = None,
     sc_last_used_at = None, sc_revoked_at = None\<rparr>"

definition demo_env :: request_env where
  "demo_env = \<lparr>env_settings = settings.extend demo_settings \<lparr>rate_limit_enabled = True, rate_limit_fail_open = False,
     api_key_default_rate_limit_per_minute = 60, router_default_rate_limit_per_minute = 600,
     router_max_input_tokens = 1000000, router_max_output_tokens = 1000000\<rparr>, env_hash = (\<lambda>t. t),
     env_now = demo_now, env_redis = None\<rparr>"

definition demo_routed :: usage_event where
  "demo_routed = demo_event\<lparr>ev_router_client_id := Some 5\<rparr>"

definition demo_router_ledger :: ledger where
  "demo_router_ledger = demo_reserved
     \<lparr>api_keys := [demo_key\<lparr>key_hashed_key := ''sk_u'', key_scopes := [''inference:write'']\<rparr>],
      inference_usage_events := [demo_routed]\<rparr>"

definition demo_router_db :: keys_db where
  "demo_router_db = \<lparr>kd_ledger = demo_router_ledger, kd_clients = \<lparr>service_clients = [demo_router], next_client = 6\<rparr>,
     kd_usage = []\<rparr>"

definition demo_web :: web_request where
  "demo_web = \<lparr>req_path = ''/router/inference/usage'', req_method = ''POST'', req_context_id = None\<rparr>"

definition demo_report :: usage_settle where
  "demo_report = \<lparr>us_reservation_id = 15, us_request_id = ''r'', us_input_tokens = 10, us_output_tokens = 10\<rparr>"

lemma demo_router_accounts: "service_ok demo_router_ledger"
proof -
  have e: "inference_usage_events demo_reserved = [demo_event]" by (simp add: demo_reserved_def)
  have f: "ev_id demo_routed = ev_id demo_event" "ev_user_id demo_routed = ev_user_id demo_event"
    "ev_request_id demo_routed = ev_request_id demo_event"
    "ev_usage_period_id demo_routed = ev_usage_period_id demo_event"
    "event_ok demo_routed = event_ok demo_event" "allowance_portion demo_routed = allowance_portion demo_event"
    "wallet_portion demo_routed = wallet_portion demo_event"
    by (simp_all add: demo_routed_def event_ok_def allowance_portion_def wallet_portion_def split: event_status.split)
  show ?thesis
    using demo_reserved_accounts
    by (simp add: service_ok_def ledger_ok_def ledger_parts prices_ok_def wallet_keys_def wallet_balance_def
        wallet_entries_def demo_router_ledger_def e f booked_def drawn_def)
qed

lemmas eval_router =
  settle_route_def router_route_def transaction_def raw_user_api_key_from_header_def router_client_def
  on_clients_def on_ledger_def current_router_client_def raw_service_token_from_request_def
  authenticate_token_def enforce_client_rate_def past_def usage_settle_valid_def settle_usage_def
  authenticate_user_api_key_def authenticate_key_def require_scopes_def allowed_api_key_scopes_def
  get_user_def put_key_def put_client_def check_ip_allowed_def get_router_event_def record_usage_def
  reservation_response_def base_settings_def of_result_def settings.truncate_def settings.extend_def
  starts_with_def lower_def lower_char_def is_upper_def code_of_def

lemma demo_settles_route:
  "\<exists>resp s'. settle_route demo_env demo_web (Some (''bearer'', ''rk_t'')) (Some ''sk_u'') demo_report demo_router_db
     = (Inr resp, s') \<and> rr_charged_tokens resp = 30 \<and> length (kd_usage s') = 1"
  unfolding demo_router_db_def demo_router_ledger_def demo_reserved_def demo_routed_def demo_event_def demo_period_def
    demo_web_def demo_report_def demo_router_def demo_env_def
  by (simp add: eval_handlers eval_router eval_settle eval_usage eval_seeds eval_reserve demo_defs demo_plan_row_def
      cong: eval_cong)

text \<open>The witnesses of the properties of the router plane.\<close>

lemma router_routes_keep_books_witness:
  "service_ok (kd_ledger (snd (settle_route demo_env demo_web (Some (''bearer'', ''rk_t'')) (Some ''sk_u'') demo_report
     demo_router_db)))"
proof -
  have "service_ok (kd_ledger demo_router_db)" using demo_router_accounts by (simp add: demo_router_db_def)
  from router_routes_keep_books [OF this] show ?thesis by blast
qed

lemma settlement_needs_both_credentials_witness:
  "\<exists>c \<in> set (service_clients (kd_clients demo_router_db)). sc_hashed_token c = ''rk_t'' \<and> sc_revoked_at c = None"
proof -
  obtain resp s' where "settle_route demo_env demo_web (Some (''bearer'', ''rk_t'')) (Some ''sk_u'') demo_report demo_router_db
     = (Inr resp, s')" using demo_settles_route by blast
  from settlement_needs_both_credentials [OF this] show ?thesis by (auto simp: demo_env_def)
qed

lemma demo_settles_again:
  "\<exists>resp s1 resp2 s2. settle_route demo_env demo_web (Some (''bearer'', ''rk_t'')) (Some ''sk_u'') demo_report demo_router_db
     = (Inr resp, s1) \<and>
     settle_route demo_env demo_web (Some (''bearer'', ''rk_t'')) (Some ''sk_u'') demo_report s1 = (Inr resp2, s2)"
  unfolding demo_router_db_def demo_router_ledger_def demo_reserved_def demo_routed_def demo_event_def demo_period_def
    demo_web_def demo_report_def demo_router_def demo_env_def
  by (simp add: eval_handlers eval_router eval_settle eval_usage eval_seeds eval_reserve demo_defs demo_plan_row_def
      cong: eval_cong)

lemma settlement_billed_once_witness:
  "\<exists>resp s1 resp2 s2. settle_route demo_env demo_web (Some (''bearer'', ''rk_t'')) (Some ''sk_u'') demo_report demo_router_db
     = (Inr resp, s1) \<and>
     settle_route demo_env demo_web (Some (''bearer'', ''rk_t'')) (Some ''sk_u'') demo_report s1 = (Inr resp2, s2) \<and>
     rr_charged_tokens resp2 = rr_charged_tokens resp"
proof -
  have ok: "service_ok (kd_ledger demo_router_db)" using demo_router_accounts by (simp add: demo_router_db_def)
  obtain resp s1 resp2 s2 where r: "settle_route demo_env demo_web (Some (''bearer'', ''rk_t'')) (Some ''sk_u'') demo_report
      demo_router_db = (Inr resp, s1)"
    "settle_route demo_env demo_web (Some (''bearer'', ''rk_t'')) (Some ''sk_u'') demo_report s1 = (Inr resp2, s2)"
    using demo_settles_again by blast
  from settlement_billed_once [OF ok r] r show ?thesis by blast
qed

end
