(* ===== verification/InferenceDemo.thy ===== *)
theory InferenceDemo
  imports StreamProps RouterDemo SelectorProps
begin

text \<open>
  A request on a concrete database: the best ranked enclave times out, the next one answers, and the
  reservation is settled. It carries the witnesses of the inference routes.
\<close>

definition demo_answer :: json where
  "demo_answer = JObj [(''choices'', JList [JObj [(''message'', JObj [(''content'', JStr ''ok'')])]]),
     (''usage'', JObj [(''prompt_tokens'', JInt 10), (''completion_tokens'', JInt 10)])]"

definition demo_network :: network where
  "demo_network = \<lparr>net_decrypt = Inr, net_pinned = (\<lambda>_. True),
     net_post = (\<lambda>c _ _. if cd_miner_id c = 2 then TransportFailure True else Answer 200 (Inr demo_answer)),
     net_open = (\<lambda>_ _. Answer 200 (Inr JNull)), net_elapsed_ms = (\<lambda>_. 7), net_ttft_ms = (\<lambda>_. 3),
     net_loads = (\<lambda>_. None)\<rparr>"

definition demo_inference_env :: inference_env where
  "demo_inference_env = request_env.extend demo_env
     \<lparr>env_network = demo_network, env_shuffle = rev, env_served_at = demo_now, env_epoch = Some 5,
      env_forward_max_attempts = 3, env_allow_dev_echo_fallback = False, env_mesh = None, env_context_id = Some ''q'',
      env_random_id = ''u'', env_web = \<lparr>req_path = ''/v1/inference'', req_method = ''POST'', req_context_id = Some ''q''\<rparr>,
      env_resolve = (\<lambda>_. None), env_sign = (\<lambda>_. Inr ())\<rparr>"

definition demo_product_ledger :: ledger where
  "demo_product_ledger = demo_ledger\<lparr>api_keys := [demo_key\<lparr>key_hashed_key := ''sk_u'', key_scopes := [''inference:write'']\<rparr>]\<rparr>"

definition demo_product :: product_db where
  "demo_product = \<lparr>kd_ledger = demo_product_ledger, kd_clients = \<lparr>service_clients = [], next_client = 6\<rparr>,
     kd_usage = [], pd_miners = demo_registry\<rparr>"

definition demo_api_request :: api_request where
  "demo_api_request = \<lparr>ar_header_key = Some ''sk_u'', ar_credentials = None,
     ar_client = \<lparr>cr_peer_host = None, cr_cf_connecting_ip = None, cr_x_forwarded_for = None\<rparr>,
     ar_web = \<lparr>req_path = ''/v1/inference'', req_method = ''POST'', req_context_id = Some ''q''\<rparr>\<rparr>"

definition demo_payload :: inference_request where
  "demo_payload = \<lparr>ir_model = ''m'', ir_prompt = ''hi'', ir_max_tokens = 20\<rparr>"

lemma demo_product_accounts: "service_ok (kd_ledger demo_product)"
proof -
  have "kd_ledger demo_product = put_key (demo_key\<lparr>key_hashed_key := ''sk_u'', key_scopes := [''inference:write'']\<rparr>) demo_ledger"
    by (simp add: demo_product_def demo_product_ledger_def put_key_def demo_ledger_def demo_key_def replace_by_def)
  then show ?thesis using demo_accounts by (simp add: service_ok_put_key)
qed

lemma demo_new_request:
  "\<forall>e \<in> set (inference_usage_events (kd_ledger demo_product)). ev_request_id e \<noteq> request_id_of demo_inference_env"
  by (simp add: demo_product_def demo_product_ledger_def demo_ledger_def)

lemma request_leaves_no_reservation_witness:
  "\<exists>r s'. run_inference demo_inference_env demo_api_request demo_payload demo_product = (r, s') \<and>
     reservations (kd_ledger s') = {}"
proof -
  obtain r s' where r: "run_inference demo_inference_env demo_api_request demo_payload demo_product = (r, s')" by fastforce
  have "reservations (kd_ledger demo_product) = {}"
    by (simp add: reservations_def demo_product_def demo_product_ledger_def demo_ledger_def)
  then show ?thesis
    using request_leaves_no_reservation [OF demo_product_accounts demo_new_request r] r by auto
qed

lemma demo_selected:
  "\<exists>c d. select_for demo_inference_env ''m'' (demo_product\<lparr>kd_ledger := l\<rparr>) = Inr [d, c] \<and>
     cd_miner_id c = 1 \<and> cd_model_id c = ''m'' \<and> cd_miner_id d = 2 \<and> cd_model_id d = ''m''"
  using demo_ranked [of demo_now]
  by (auto simp: select_for_def demo_inference_env_def demo_env_def request_env.extend_def demo_product_def)

lemmas eval_forward =
  forward_all.simps forward_def forward_attempt_def prepare_forward_def active_token_def elapsed_ms_def
  transport_outcome_def usage_from_dict_def json_field_def int_or_def json_true.simps py_int.simps
  text_from_completion_def message_text_def on_miners_def record_failure_def record_attempt_def record_success_def
  demo_network_def demo_answer_def on_error_def serve_def forward_and_settle_def settle_served_def attributed_def
  or_count_def

lemma demo_authenticates:
  "inference_key demo_inference_env [''inference:write''] demo_api_request demo_product =
     (Inr (demo_key\<lparr>key_hashed_key := ''sk_u'', key_scopes := [''inference:write''], key_last_used_at := Some demo_now\<rparr>),
      demo_product\<lparr>kd_ledger := demo_product_ledger\<lparr>api_keys := [demo_key\<lparr>key_hashed_key := ''sk_u'',
        key_scopes := [''inference:write''], key_last_used_at := Some demo_now\<rparr>]\<rparr>\<rparr>)"
  unfolding demo_inference_env_def demo_env_def demo_api_request_def demo_product_def demo_product_ledger_def inference_key_def
    require_api_key_def current_api_key_def raw_api_key_from_request_def
  by (simp add: eval_handlers eval_router demo_defs request_env.extend_def truthy_def enforce_rate_limit_def replace_by_def
      cong: eval_cong)

lemma demo_env_fields:
  "env_now demo_inference_env = demo_now" "env_served_at demo_inference_env = demo_now"
  "env_network demo_inference_env = demo_network" "env_epoch demo_inference_env = Some 5"
  "env_forward_max_attempts demo_inference_env = 3" "env_context_id demo_inference_env = Some ''q''"
  "env_random_id demo_inference_env = ''u''" "env_sign demo_inference_env = (\<lambda>_. Inr ())"
  "env_web demo_inference_env = \<lparr>req_path = ''/v1/inference'', req_method = ''POST'', req_context_id = Some ''q''\<rparr>"
  "product_settings demo_inference_env = demo_settings"
  by (simp_all add: demo_inference_env_def request_env.extend_def demo_env_def product_settings_def settings.extend_def
      settings.truncate_def demo_settings_def)

lemma demo_tables: "pd_miners demo_product = demo_registry" "kd_usage demo_product = []"
  by (simp_all add: demo_product_def)

lemma demo_words: "input_tokens_of ''hi'' = 1" "input_tokens_of ''ok'' = 1"
  by (simp_all add: input_tokens_of_def split_ws.simps is_space_def)

lemma demo_serves:
  "\<exists>x s'. run_inference demo_inference_env demo_api_request demo_payload demo_product = (Inr x, s') \<and> ex_attested x \<and>
     ex_charged_tokens x = 30 \<and> length (miner_request_stats (pd_miners s')) = 2"
proof -
  obtain c d where sel: "select_for demo_inference_env ''m'' (demo_product\<lparr>kd_ledger := demo_product_ledger\<lparr>api_keys :=
        [demo_key\<lparr>key_hashed_key := ''sk_u'', key_scopes := [''inference:write''], key_last_used_at := Some demo_now\<rparr>]\<rparr>\<rparr>)
      = Inr [d, c]" and f: "cd_miner_id c = 1" "cd_model_id c = ''m''" "cd_miner_id d = 2" "cd_model_id d = ''m''"
    using demo_selected by blast
  note sel' = sel [unfolded demo_product_ledger_def demo_defs, simplified]
  show ?thesis
    unfolding run_inference_def answer_of_def execute_inference_def
    by (simp add: eval_handlers transaction_def demo_authenticates sel' key_owner_row_def demo_payload_def inference_request_valid_def
        prompt_max_length_def of_result_def check_model_allowed_def on_ledger_def demo_product_ledger_def demo_defs get_user_def
        inference_args_def demo_env_fields demo_words f demo_tables eval_seeds eval_usage eval_prices eval_reserve eval_settle eval_forward eval_registry
        record_usage_def demo_plan_row_def cong: eval_cong)
qed

lemma served_request_recorded_once_witness:
  "\<exists>x s'. run_inference demo_inference_env demo_api_request demo_payload demo_product = (Inr x, s') \<and>
     (\<exists>c ev. ex_candidate x = Some c \<and> ev \<in> set (inference_usage_events (kd_ledger s')) \<and> served_event c x ev)"
proof -
  obtain x s' where r: "run_inference demo_inference_env demo_api_request demo_payload demo_product = (Inr x, s')" "ex_attested x"
    using demo_serves by blast
  from served_request_recorded_once [OF demo_product_accounts demo_new_request r] r(1) show ?thesis by blast
qed

text \<open>A stream whose client left after five chunks.\<close>

definition demo_stream_db :: product_db where
  "demo_stream_db = demo_product\<lparr>kd_ledger := demo_reserved\<rparr>"

definition demo_stream :: "miner_candidate \<Rightarrow> open_stream" where
  "demo_stream c = \<lparr>os_candidate = c, os_reservation_id = 15, os_request_id = ''r'', os_input_tokens = 20, os_max_tokens = 60\<rparr>"

definition demo_relayed :: stream_state where
  "demo_relayed = stream_start\<lparr>st_seen_payload := True, st_content_chunks := 5\<rparr>"

lemma demo_stream_settles:
  "\<exists>s'. settle_stream demo_inference_env demo_now demo_key (demo_stream c) demo_relayed demo_stream_db = (Inr (), s')"
  unfolding demo_stream_db_def demo_reserved_def demo_event_def demo_period_def demo_product_def demo_product_ledger_def
    demo_stream_def demo_relayed_def settle_stream_def stream_counts_def
  by (simp add: eval_handlers transaction_def on_ledger_def stream_start_def no_usage_def demo_env_fields eval_usage
      eval_reserve eval_settle eval_forward record_stream_success_def record_usage_def demo_defs demo_plan_row_def
      cong: eval_cong)

lemma stream_billed_once_witness:
  "\<forall>c. \<exists>s'. settle_stream demo_inference_env demo_now demo_key (demo_stream c) demo_relayed demo_stream_db = (Inr (), s') \<and>
     (\<exists>e' \<in> set (inference_usage_events (kd_ledger s')). ev_id e' = 15 \<and> ev_status e' = Settled \<and>
        ev_prompt_tokens e' = 20 \<and> ev_completion_tokens e' = 5) \<and>
     settle_stream demo_inference_env (demo_now + 1) demo_key (demo_stream c) demo_relayed s' = (Inr (), s')"
proof
  fix c
  obtain s' where r: "settle_stream demo_inference_env demo_now demo_key (demo_stream c) demo_relayed demo_stream_db = (Inr (), s')"
    using demo_stream_settles by blast
  have ok: "service_ok (kd_ledger demo_stream_db)" by (simp add: demo_stream_db_def demo_reserved_accounts)
  have "demo_event \<in> reservations (kd_ledger demo_stream_db)" "ev_id demo_event = 15"
    by (simp_all add: reservations_def demo_stream_db_def demo_reserved_def demo_event_def)
  moreover note stream_billed_once [OF ok r, where env' = demo_inference_env and now' = "demo_now + 1" and k' = demo_key
      and st' = demo_relayed]
  ultimately show "\<exists>s'. settle_stream demo_inference_env demo_now demo_key (demo_stream c) demo_relayed demo_stream_db = (Inr (), s') \<and>
     (\<exists>e' \<in> set (inference_usage_events (kd_ledger s')). ev_id e' = 15 \<and> ev_status e' = Settled \<and>
        ev_prompt_tokens e' = 20 \<and> ev_completion_tokens e' = 5) \<and>
     settle_stream demo_inference_env (demo_now + 1) demo_key (demo_stream c) demo_relayed s' = (Inr (), s')"
    using r by (fastforce simp: stream_row_def demo_stream_def demo_relayed_def stream_start_def no_usage_def)
qed

end
