(* ===== verification/EpochStats.thy ===== *)
theory EpochStats
  imports Selector
begin

text \<open>
  The statistics of a closed epoch, which the platform freezes and signs:
  \<^verbatim>\<open>inference_api/stats_service.py\<close>, its routes (\<^verbatim>\<open>stats_routes.py\<close>), the pass of the maintenance
  loop that finalizes epochs, and the artifact of \<^verbatim>\<open>talaris_contracts/miner_stats.py\<close>. A JSON text is
  kept as the value it denotes, its object entries in the order they are written; the signature of a
  key over a text is the parameter \<open>sk_sign\<close>.
\<close>

section \<open>The artifact\<close>

record stats_entry =
  me_hotkey :: string
  me_subnet_node_id :: "int option"
  me_model_id :: string
  me_model_version :: "string option"
  me_requests_ok :: int
  me_requests_failed :: int
  me_verified_prompt_tokens :: int
  me_verified_completion_tokens :: int
  me_verified_total_tokens :: int
  me_latency_p95_ms :: "int option"
  me_usage_count_end :: "int option"
  me_usage_chain_head_end :: "string option"

record stats_artifact =
  ma_epoch :: int
  ma_entries :: "stats_entry list"
  ma_version :: int
  ma_signature :: string
  ma_not_before :: "int option"
  ma_signer_pubkey :: "string option"

record signing_key =
  sk_sign :: "json \<Rightarrow> string"
  sk_public :: string

definition or_zero :: "int option \<Rightarrow> int" where
  "or_zero v = (case v of None \<Rightarrow> 0 | Some n \<Rightarrow> n)"

definition entry_fields :: "stats_entry \<Rightarrow> stats_entry" where
  "entry_fields e = e\<lparr>me_hotkey := lower (me_hotkey e),
     me_subnet_node_id := Some (or_zero (me_subnet_node_id e)),
     me_model_version := Some (or_empty (me_model_version e)),
     me_latency_p95_ms := Some (or_zero (me_latency_p95_ms e)),
     me_usage_count_end := Some (or_zero (me_usage_count_end e)),
     me_usage_chain_head_end := Some (lower (or_empty (me_usage_chain_head_end e)))\<rparr>"

definition json_opt :: "('a \<Rightarrow> json) \<Rightarrow> 'a option \<Rightarrow> json" where
  "json_opt f v = (case v of None \<Rightarrow> JNull | Some x \<Rightarrow> f x)"

text \<open>The normalized fields with the keys sorted.\<close>

definition canonical_entry :: "stats_entry \<Rightarrow> json" where
  "canonical_entry e = JObj
     [(''hotkey'', JStr (me_hotkey e)),
      (''latency_p95_ms'', json_opt JInt (me_latency_p95_ms e)),
      (''model_id'', JStr (me_model_id e)),
      (''model_version'', json_opt JStr (me_model_version e)),
      (''requests_failed'', JInt (me_requests_failed e)),
      (''requests_ok'', JInt (me_requests_ok e)),
      (''subnet_node_id'', json_opt JInt (me_subnet_node_id e)),
      (''usage_chain_head_end'', json_opt JStr (me_usage_chain_head_end e)),
      (''usage_count_end'', json_opt JInt (me_usage_count_end e)),
      (''verified_completion_tokens'', JInt (me_verified_completion_tokens e)),
      (''verified_prompt_tokens'', JInt (me_verified_prompt_tokens e)),
      (''verified_total_tokens'', JInt (me_verified_total_tokens e))]"

definition entry_key :: "stats_entry \<Rightarrow> string \<times> string \<times> string" where
  "entry_key e = (me_hotkey e, me_model_id e, or_empty (me_model_version e))"

definition canonical_miner_stats_message :: "int \<Rightarrow> stats_entry list \<Rightarrow> int \<Rightarrow> int option \<Rightarrow> json" where
  "canonical_miner_stats_message epoch entries version not_before = JObj
     ([(''entries'', JList (map canonical_entry (sort_key entry_key (map entry_fields entries)))),
       (''epoch'', JInt epoch),
       (''kind'', JStr ''miner-stats/v1'')] @
      (case not_before of None \<Rightarrow> [] | Some t \<Rightarrow> [(''not_before'', JInt t)]) @
      [(''version'', JInt version)])"

definition artifact_message :: "stats_artifact \<Rightarrow> json" where
  "artifact_message a =
     canonical_miner_stats_message (ma_epoch a) (ma_entries a) (ma_version a) (ma_not_before a)"

definition sign_miner_stats ::
    "int \<Rightarrow> stats_entry list \<Rightarrow> int \<Rightarrow> signing_key \<Rightarrow> int option \<Rightarrow> stats_artifact" where
  "sign_miner_stats epoch entries version key not_before =
     \<lparr>ma_epoch = epoch, ma_entries = entries, ma_version = version,
      ma_signature = sk_sign key (canonical_miner_stats_message epoch entries version not_before),
      ma_not_before = not_before, ma_signer_pubkey = Some (sk_public key)\<rparr>"

section \<open>The stored payload\<close>

text \<open>\<open>model_dump\<close> lists the fields in the order of the class.\<close>

definition entry_dump :: "stats_entry \<Rightarrow> json" where
  "entry_dump e = JObj
     [(''hotkey'', JStr (me_hotkey e)),
      (''subnet_node_id'', json_opt JInt (me_subnet_node_id e)),
      (''model_id'', JStr (me_model_id e)),
      (''model_version'', json_opt JStr (me_model_version e)),
      (''requests_ok'', JInt (me_requests_ok e)),
      (''requests_failed'', JInt (me_requests_failed e)),
      (''verified_prompt_tokens'', JInt (me_verified_prompt_tokens e)),
      (''verified_completion_tokens'', JInt (me_verified_completion_tokens e)),
      (''verified_total_tokens'', JInt (me_verified_total_tokens e)),
      (''latency_p95_ms'', json_opt JInt (me_latency_p95_ms e)),
      (''usage_count_end'', json_opt JInt (me_usage_count_end e)),
      (''usage_chain_head_end'', json_opt JStr (me_usage_chain_head_end e))]"

definition artifact_dump :: "stats_artifact \<Rightarrow> json" where
  "artifact_dump a = JObj
     [(''epoch'', JInt (ma_epoch a)),
      (''entries'', JList (map entry_dump (ma_entries a))),
      (''version'', JInt (ma_version a)),
      (''signature'', JStr (ma_signature a)),
      (''not_before'', json_opt JInt (ma_not_before a)),
      (''signer_pubkey'', json_opt JStr (ma_signer_pubkey a))]"

text \<open>\<open>model_validate\<close> of pydantic on a decoded object: a required field has to be there, another
  one has its default. A value of another type is refused (the conversions of pydantic's lax mode
  are left out; a stored payload never needs them).\<close>

definition validation_error :: error where "validation_error = PyExc ''ValidationError''"

fun need_int :: "json option \<Rightarrow> int option \<Rightarrow> error + int" where
  "need_int (Some (JInt n)) d = Inr n"
| "need_int None (Some n) = Inr n"
| "need_int _ _ = Inl validation_error"

fun need_str :: "json option \<Rightarrow> error + string" where
  "need_str (Some (JStr s)) = Inr s"
| "need_str _ = Inl validation_error"

fun opt_int :: "json option \<Rightarrow> error + int option" where
  "opt_int (Some (JInt n)) = Inr (Some n)"
| "opt_int (Some JNull) = Inr None"
| "opt_int None = Inr None"
| "opt_int _ = Inl validation_error"

fun opt_str :: "json option \<Rightarrow> error + string option" where
  "opt_str (Some (JStr s)) = Inr (Some s)"
| "opt_str (Some JNull) = Inr None"
| "opt_str None = Inr None"
| "opt_str _ = Inl validation_error"

definition andthen :: "(error + 'a) \<Rightarrow> ('a \<Rightarrow> error + 'b) \<Rightarrow> error + 'b" where
  "andthen r f = (case r of Inl e \<Rightarrow> Inl e | Inr x \<Rightarrow> f x)"

fun each :: "('a \<Rightarrow> error + 'b) \<Rightarrow> 'a list \<Rightarrow> error + 'b list" where
  "each f [] = Inr []"
| "each f (x # xs) = andthen (f x) (\<lambda>y. andthen (each f xs) (\<lambda>ys. Inr (y # ys)))"

fun entry_validate :: "json \<Rightarrow> error + stats_entry" where
  "entry_validate (JObj kvs) =
     (let field = map_of kvs
      in andthen (need_str (field ''hotkey'')) (\<lambda>hotkey.
         andthen (opt_int (field ''subnet_node_id'')) (\<lambda>node.
         andthen (need_str (field ''model_id'')) (\<lambda>model.
         andthen (opt_str (field ''model_version'')) (\<lambda>version.
         andthen (need_int (field ''requests_ok'') (Some 0)) (\<lambda>ok.
         andthen (need_int (field ''requests_failed'') (Some 0)) (\<lambda>failed.
         andthen (need_int (field ''verified_prompt_tokens'') (Some 0)) (\<lambda>vp.
         andthen (need_int (field ''verified_completion_tokens'') (Some 0)) (\<lambda>vc.
         andthen (need_int (field ''verified_total_tokens'') (Some 0)) (\<lambda>vt.
         andthen (opt_int (field ''latency_p95_ms'')) (\<lambda>p95.
         andthen (opt_int (field ''usage_count_end'')) (\<lambda>count.
         andthen (opt_str (field ''usage_chain_head_end'')) (\<lambda>head.
           Inr \<lparr>me_hotkey = hotkey, me_subnet_node_id = node, me_model_id = model,
             me_model_version = version, me_requests_ok = ok, me_requests_failed = failed,
             me_verified_prompt_tokens = vp, me_verified_completion_tokens = vc,
             me_verified_total_tokens = vt, me_latency_p95_ms = p95, me_usage_count_end = count,
             me_usage_chain_head_end = head\<rparr>)))))))))))))"
| "entry_validate _ = Inl validation_error"

fun entries_validate :: "json option \<Rightarrow> error + stats_entry list" where
  "entries_validate (Some (JList vs)) = each entry_validate vs"
| "entries_validate _ = Inl validation_error"

fun artifact_validate :: "json \<Rightarrow> error + stats_artifact" where
  "artifact_validate (JObj kvs) =
     (let field = map_of kvs
      in andthen (need_int (field ''epoch'') None) (\<lambda>epoch.
         andthen (entries_validate (field ''entries'')) (\<lambda>entries.
         andthen (need_int (field ''version'') None) (\<lambda>version.
         andthen (need_str (field ''signature'')) (\<lambda>signature.
         andthen (opt_int (field ''not_before'')) (\<lambda>not_before.
         andthen (opt_str (field ''signer_pubkey'')) (\<lambda>signer.
           Inr \<lparr>ma_epoch = epoch, ma_entries = entries, ma_version = version,
             ma_signature = signature, ma_not_before = not_before, ma_signer_pubkey = signer\<rparr>)))))))"
| "artifact_validate _ = Inl validation_error"

lemma entry_validate_dump [simp]: "entry_validate (entry_dump e) = Inr e"
  by (simp add: entry_dump_def andthen_def json_opt_def split: option.splits)

lemma each_dump: "each entry_validate (map entry_dump es) = Inr es"
  by (induction es) (simp_all add: andthen_def)

lemma artifact_validate_dump [simp]: "artifact_validate (artifact_dump a) = Inr a"
  by (simp add: artifact_dump_def andthen_def json_opt_def each_dump split: option.splits)

section \<open>Rows\<close>

record epoch_stat =
  es_epoch :: int
  es_miner_hotkey :: string
  es_subnet_node_id :: "int option"
  es_model_id :: string
  es_model_version :: string
  es_requests_ok :: int
  es_requests_failed :: int
  es_prompt_tokens :: int
  es_completion_tokens :: int
  es_total_tokens :: int
  es_verified_prompt_tokens :: int
  es_verified_completion_tokens :: int
  es_verified_total_tokens :: int
  es_latency_p50_ms :: "int option"
  es_latency_p95_ms :: "int option"
  es_tee_usage_count_end :: "int option"
  es_tee_usage_chain_head_end :: "string option"

record epoch_snapshot =
  sn_epoch :: int
  sn_version :: int
  sn_signature :: string
  sn_signer_pubkey :: "string option"
  sn_entry_count :: nat
  sn_payload_json :: json
  sn_finalized_at :: time

record stats_db =
  sd_registry :: miners_db
  epoch_stats :: "epoch_stat list"
  snapshots :: "epoch_snapshot list"

text \<open>The clock read when an epoch is finalized, and the platform's key, whose loading may fail.\<close>

record stats_env =
  se_clock :: "int \<Rightarrow> time"
  se_signing_key :: "error + signing_key"

section \<open>Aggregation\<close>

definition percentile_ms :: "int list \<Rightarrow> nat \<Rightarrow> int option" where
  "percentile_ms values percentile =
     (let ordered = sort values;
          rank = (percentile * length ordered + 99) div 100;
          index = min (rank - 1) (length ordered - 1)
      in if ordered = [] then None else Some (ordered ! index))"

record bucket =
  bk_subnet_node_id :: "int option"
  bk_requests_ok :: int
  bk_requests_failed :: int
  bk_prompt_tokens :: int
  bk_completion_tokens :: int
  bk_total_tokens :: int
  bk_verified_prompt_tokens :: int
  bk_verified_completion_tokens :: int
  bk_verified_total_tokens :: int
  bk_latencies :: "int list"

type_synonym stat_key = "string \<times> string \<times> string"

definition row_key :: "request_stat \<Rightarrow> stat_key" where
  "row_key row = (rs_miner_hotkey row, rs_model_id row, or_empty (rs_model_version row))"

definition empty_bucket :: "request_stat \<Rightarrow> bucket" where
  "empty_bucket row =
     \<lparr>bk_subnet_node_id = rs_subnet_node_id row, bk_requests_ok = 0, bk_requests_failed = 0,
      bk_prompt_tokens = 0, bk_completion_tokens = 0, bk_total_tokens = 0,
      bk_verified_prompt_tokens = 0, bk_verified_completion_tokens = 0,
      bk_verified_total_tokens = 0, bk_latencies = []\<rparr>"

definition count_served :: "request_stat \<Rightarrow> bucket \<Rightarrow> bucket" where
  "count_served row b = b\<lparr>bk_requests_ok := bk_requests_ok b + 1,
     bk_prompt_tokens := bk_prompt_tokens b + rs_prompt_tokens row,
     bk_completion_tokens := bk_completion_tokens b + rs_completion_tokens row,
     bk_total_tokens := bk_total_tokens b + rs_total_tokens row\<rparr>"

definition count_verified :: "request_stat \<Rightarrow> bucket \<Rightarrow> bucket" where
  "count_verified row b = b\<lparr>
     bk_verified_prompt_tokens := bk_verified_prompt_tokens b + rs_prompt_tokens row,
     bk_verified_completion_tokens := bk_verified_completion_tokens b + rs_completion_tokens row,
     bk_verified_total_tokens := bk_verified_total_tokens b + rs_total_tokens row\<rparr>"

definition count_row :: "request_stat \<Rightarrow> bucket \<Rightarrow> bucket" where
  "count_row row b0 =
     (let b1 = (if bk_subnet_node_id b0 = None \<and> rs_subnet_node_id row \<noteq> None
                then b0\<lparr>bk_subnet_node_id := rs_subnet_node_id row\<rparr> else b0);
          served = (rs_outcome row = ''success'');
          b2 = (if served
                then (if rs_verified row then count_verified row (count_served row b1)
                      else count_served row b1)
                else b1\<lparr>bk_requests_failed := bk_requests_failed b1 + 1\<rparr>)
      in case rs_latency_ms row of
           Some ms \<Rightarrow> if served then b2\<lparr>bk_latencies := bk_latencies b2 @ [ms]\<rparr> else b2
         | None \<Rightarrow> b2)"

definition add_row :: "request_stat \<Rightarrow> (stat_key \<times> bucket) list \<Rightarrow> (stat_key \<times> bucket) list" where
  "add_row row buckets =
     (let key = row_key row;
          b = (case map_of buckets key of None \<Rightarrow> empty_bucket row | Some b \<Rightarrow> b)
      in AList.update key (count_row row b) buckets)"

text \<open>A later row of the join overwrites the anchor of the same hotkey and model.\<close>

definition usage_anchors ::
    "string list \<Rightarrow> miners_db \<Rightarrow> string \<times> string \<Rightarrow> int option \<times> string option" where
  "usage_anchors hotkeys s k =
     (let joined = [((mn_hotkey m, mm_model_id mm), (mm_usage_count mm, mm_usage_chain_head mm)).
             m \<leftarrow> miners s, mm \<leftarrow> miner_models s, mm_miner_id mm = mn_id m \<and> mn_hotkey m \<in> set hotkeys]
      in case map_of (rev joined) k of None \<Rightarrow> (None, None) | Some a \<Rightarrow> a)"

definition epoch_rows :: "int \<Rightarrow> miners_db \<Rightarrow> request_stat list" where
  "epoch_rows epoch s = filter (\<lambda>r. rs_epoch r = Some epoch) (miner_request_stats s)"

definition stat_of ::
    "int \<Rightarrow> (string \<times> string \<Rightarrow> int option \<times> string option) \<Rightarrow> stat_key \<times> bucket \<Rightarrow> epoch_stat" where
  "stat_of epoch anchors kb =
     (case kb of ((hotkey, model, version), b) \<Rightarrow>
        \<lparr>es_epoch = epoch, es_miner_hotkey = hotkey, es_subnet_node_id = bk_subnet_node_id b,
         es_model_id = model, es_model_version = version,
         es_requests_ok = bk_requests_ok b, es_requests_failed = bk_requests_failed b,
         es_prompt_tokens = bk_prompt_tokens b, es_completion_tokens = bk_completion_tokens b,
         es_total_tokens = bk_total_tokens b,
         es_verified_prompt_tokens = bk_verified_prompt_tokens b,
         es_verified_completion_tokens = bk_verified_completion_tokens b,
         es_verified_total_tokens = bk_verified_total_tokens b,
         es_latency_p50_ms = percentile_ms (bk_latencies b) 50,
         es_latency_p95_ms = percentile_ms (bk_latencies b) 95,
         es_tee_usage_count_end = fst (anchors (hotkey, model)),
         es_tee_usage_chain_head_end = snd (anchors (hotkey, model))\<rparr>)"

definition aggregate :: "int \<Rightarrow> miners_db \<Rightarrow> epoch_stat list" where
  "aggregate epoch s =
     (let buckets = fold add_row (epoch_rows epoch s) [];
          anchors = usage_anchors (map (fst \<circ> fst) buckets) s
      in map (stat_of epoch anchors) (sort_key fst buckets))"

section \<open>Finalizing\<close>

definition get_artifact :: "int \<Rightarrow> (stats_db, stats_artifact option) handler" where
  "get_artifact epoch =
     (\<lambda>s. (case find (\<lambda>sn. sn_epoch sn = epoch) (snapshots s) of
        None \<Rightarrow> Inr None
      | Some row \<Rightarrow> andthen (artifact_validate (sn_payload_json row)) (\<lambda>a. Inr (Some a)), s))"

definition latest_epoch :: "stats_db \<Rightarrow> int option" where
  "latest_epoch s =
     (if snapshots s = [] then None else Some (Max (set (map sn_epoch (snapshots s)))))"

definition stat_identity :: "epoch_stat \<Rightarrow> int \<times> string \<times> string \<times> string" where
  "stat_identity r = (es_epoch r, es_miner_hotkey r, es_model_id r, es_model_version r)"

text \<open>The flush violates the unique constraint when another finalization left its rows.\<close>

definition persist_aggregates :: "epoch_stat list \<Rightarrow> (stats_db, unit) handler" where
  "persist_aggregates rows =
     bind (gets (\<lambda>s. set (map stat_identity rows) \<inter> set (map stat_identity (epoch_stats s)) = {} \<and>
                     distinct (map stat_identity rows)))
       (\<lambda>fresh. then_do (guard_or fresh (PyExc ''IntegrityError''))
          (modify (epoch_stats_update (\<lambda>old. old @ rows))))"

definition stats_entry_of :: "epoch_stat \<Rightarrow> stats_entry" where
  "stats_entry_of row =
     \<lparr>me_hotkey = es_miner_hotkey row, me_subnet_node_id = es_subnet_node_id row,
      me_model_id = es_model_id row, me_model_version = Some (es_model_version row),
      me_requests_ok = es_requests_ok row, me_requests_failed = es_requests_failed row,
      me_verified_prompt_tokens = es_verified_prompt_tokens row,
      me_verified_completion_tokens = es_verified_completion_tokens row,
      me_verified_total_tokens = es_verified_total_tokens row,
      me_latency_p95_ms = es_latency_p95_ms row,
      me_usage_count_end = es_tee_usage_count_end row,
      me_usage_chain_head_end = es_tee_usage_chain_head_end row\<rparr>"

definition snapshot_of :: "time \<Rightarrow> stats_artifact \<Rightarrow> epoch_snapshot" where
  "snapshot_of finalized_at a =
     \<lparr>sn_epoch = ma_epoch a, sn_version = ma_version a, sn_signature = ma_signature a,
      sn_signer_pubkey = ma_signer_pubkey a, sn_entry_count = length (ma_entries a),
      sn_payload_json = artifact_dump a, sn_finalized_at = finalized_at\<rparr>"

definition stat_unix :: "time \<Rightarrow> int" where
  "stat_unix t = trunc_div (t - 62135596800000000) 1000000"

definition finalize :: "stats_env \<Rightarrow> int \<Rightarrow> (stats_db, stats_artifact) handler" where
  "finalize env epoch =
     bind (get_artifact epoch) (\<lambda>existing. case existing of
       Some a \<Rightarrow> ret a
     | None \<Rightarrow>
        bind (gets (\<lambda>s. aggregate epoch (sd_registry s))) (\<lambda>aggregates.
        then_do (persist_aggregates aggregates) (
        bind (of_result (se_signing_key env)) (\<lambda>key.
          let entries = map stats_entry_of aggregates;
              finalized_at = se_clock env epoch;
              version = stat_unix finalized_at;
              artifact = sign_miner_stats epoch entries version key (Some version)
          in then_do (modify (snapshots_update (\<lambda>l. l @ [snapshot_of finalized_at artifact])))
               (ret artifact)))))"

definition finalized :: "stats_db \<Rightarrow> int \<Rightarrow> bool" where
  "finalized s epoch \<longleftrightarrow> epoch \<in> set (map sn_epoch (snapshots s))"

definition has_rows :: "stats_db \<Rightarrow> int \<Rightarrow> bool" where
  "has_rows s epoch \<longleftrightarrow> epoch_rows epoch (sd_registry s) \<noteq> []"

text \<open>The backward walk: the number is what is left of \<open>max_per_pass\<close>.\<close>

fun finalize_back :: "stats_env \<Rightarrow> nat \<Rightarrow> int \<Rightarrow> (stats_db, int list) handler" where
  "finalize_back env 0 epoch = ret []"
| "finalize_back env (Suc left) epoch =
     bind (gets (\<lambda>s. 0 \<le> epoch \<and> \<not> finalized s epoch \<and> has_rows s epoch)) (\<lambda>go.
       if \<not> go then ret []
       else then_do (finalize env epoch)
         (bind (finalize_back env left (epoch - 1)) (\<lambda>older. ret (epoch # older))))"

definition finalize_due ::
    "stats_env \<Rightarrow> int \<Rightarrow> int \<Rightarrow> int \<Rightarrow> (stats_db, int list) handler" where
  "finalize_due env current_epoch settle_lag_epochs max_per_pass =
     (let newest = current_epoch - 1 - settle_lag_epochs
      in if newest < 0 then ret [] else finalize_back env (nat max_per_pass) newest)"

text \<open>The pass of the maintenance loop commits, or rolls back on any exception.\<close>

record stats_settings =
  ss_settle_lag_epochs :: int
  ss_max_finalize_per_pass :: int

definition finalize_miner_epoch_stats ::
    "stats_settings \<Rightarrow> stats_env \<Rightarrow> int option \<Rightarrow> (stats_db, nat) handler" where
  "finalize_miner_epoch_stats cfg env current =
     (case current of None \<Rightarrow> ret 0
      | Some epoch \<Rightarrow>
          bind (finalize_due env epoch (ss_settle_lag_epochs cfg) (ss_max_finalize_per_pass cfg))
            (\<lambda>l. ret (length l)))"

definition finalize_pass ::
    "stats_settings \<Rightarrow> stats_env \<Rightarrow> int option \<Rightarrow> stats_db \<Rightarrow> nat \<times> stats_db" where
  "finalize_pass cfg env current s =
     (case finalize_miner_epoch_stats cfg env current s of
        (Inl e, _) \<Rightarrow> (0, s) | (Inr n, s') \<Rightarrow> (n, s'))"

section \<open>Routes\<close>

definition get_miner_stats :: "int \<Rightarrow> (stats_db, stats_artifact) handler" where
  "get_miner_stats epoch =
     bind (get_artifact epoch) (\<lambda>a. case a of None \<Rightarrow> raise not_found | Some a \<Rightarrow> ret a)"

definition get_latest_miner_stats :: "(stats_db, stats_artifact) handler" where
  "get_latest_miner_stats =
     bind (gets latest_epoch) (\<lambda>epoch. case epoch of None \<Rightarrow> raise not_found
       | Some e \<Rightarrow> get_miner_stats e)"

end
