(* ===== verification/EpochProps.thy ===== *)
theory EpochProps
  imports EpochStats
begin

text \<open>
  What the epoch statistics promise: the published numbers are exact sums over the platform's rows,
  a published artifact never changes and always verifies, and a pass finalizes exactly the run of
  closed epochs below the newest one.
\<close>

section \<open>Aggregation\<close>

lemma map_of_add_row:
  "map_of (add_row r bs) k =
     (if k = row_key r
      then Some (count_row r (case map_of bs k of None \<Rightarrow> empty_bucket r | Some b \<Rightarrow> b))
      else map_of bs k)"
  by (simp add: add_row_def update_conv' Let_def)

lemma map_of_buckets:
  "map_of (fold add_row rows bs) k =
     (case filter (\<lambda>r. row_key r = k) rows of [] \<Rightarrow> map_of bs k
      | r # rs \<Rightarrow> Some (fold count_row (r # rs)
          (case map_of bs k of None \<Rightarrow> empty_bucket r | Some b \<Rightarrow> b)))"
  by (induction rows arbitrary: bs) (auto simp: map_of_add_row split: list.splits option.splits)

lemma buckets_distinct: "distinct (map fst bs) \<Longrightarrow> distinct (map fst (fold add_row rows bs))"
  by (induction rows arbitrary: bs) (simp_all add: add_row_def Let_def distinct_update)

lemma buckets_keys: "fst ` set (fold add_row rows bs) = fst ` set bs \<union> row_key ` set rows"
  by (induction rows arbitrary: bs) (auto simp: add_row_def Let_def dom_update)

definition served_rows :: "request_stat list \<Rightarrow> request_stat list" where
  "served_rows = filter (\<lambda>r. rs_outcome r = ''success'')"

definition verified_rows :: "request_stat list \<Rightarrow> request_stat list" where
  "verified_rows rows = filter rs_verified (served_rows rows)"

definition latencies :: "request_stat list \<Rightarrow> int list" where
  "latencies rows = map (the \<circ> rs_latency_ms) (filter (\<lambda>r. rs_latency_ms r \<noteq> None) (served_rows rows))"

lemmas row_groups = served_rows_def verified_rows_def latencies_def
lemmas counting = count_row_def count_served_def count_verified_def Let_def

lemma counted:
  "bk_requests_ok (fold count_row rows b) = bk_requests_ok b + int (length (served_rows rows))"
  "bk_requests_failed (fold count_row rows b)
     = bk_requests_failed b + int (length rows) - int (length (served_rows rows))"
  "bk_prompt_tokens (fold count_row rows b)
     = bk_prompt_tokens b + sum_list (map rs_prompt_tokens (served_rows rows))"
  "bk_completion_tokens (fold count_row rows b)
     = bk_completion_tokens b + sum_list (map rs_completion_tokens (served_rows rows))"
  "bk_total_tokens (fold count_row rows b)
     = bk_total_tokens b + sum_list (map rs_total_tokens (served_rows rows))"
  "bk_verified_prompt_tokens (fold count_row rows b)
     = bk_verified_prompt_tokens b + sum_list (map rs_prompt_tokens (verified_rows rows))"
  "bk_verified_completion_tokens (fold count_row rows b)
     = bk_verified_completion_tokens b + sum_list (map rs_completion_tokens (verified_rows rows))"
  "bk_verified_total_tokens (fold count_row rows b)
     = bk_verified_total_tokens b + sum_list (map rs_total_tokens (verified_rows rows))"
  "bk_latencies (fold count_row rows b) = bk_latencies b @ latencies rows"
  by (induction rows arbitrary: b, simp_all add: row_groups counting split: option.splits)+

lemma aggregate_keys:
  "map (\<lambda>a. (es_miner_hotkey a, es_model_id a, es_model_version a)) (aggregate epoch s)
     = sorted_list_of_set (row_key ` set (epoch_rows epoch s))"
proof -
  let ?bs = "fold add_row (epoch_rows epoch s) []"
  have k: "(\<lambda>a. (es_miner_hotkey a, es_model_id a, es_model_version a)) \<circ> stat_of epoch an = fst" for an
    by (auto simp: stat_of_def fun_eq_iff split: prod.splits)
  have "map fst (sort_key fst ?bs) = sorted_list_of_set (fst ` set ?bs)"
  proof (rule sorted_distinct_set_unique)
    have "distinct (map fst ?bs)" using buckets_distinct [of "[]"] by simp
    then show "distinct (map fst (sort_key fst ?bs))" by (simp add: distinct_map)
  qed simp_all
  also have "fst ` set ?bs = row_key ` set (epoch_rows epoch s)" by (simp add: buckets_keys)
  finally show ?thesis by (simp add: aggregate_def Let_def k)
qed

lemma aggregate_member:
  assumes "a \<in> set (aggregate epoch s)"
  obtains b rows where
    "rows = filter (\<lambda>r. row_key r = (es_miner_hotkey a, es_model_id a, es_model_version a)) (epoch_rows epoch s)"
    "rows \<noteq> []" "b = fold count_row rows (empty_bucket (hd rows))"
    "a = stat_of epoch (usage_anchors (map (fst \<circ> fst) (fold add_row (epoch_rows epoch s) [])) s)
           ((es_miner_hotkey a, es_model_id a, es_model_version a), b)"
proof -
  let ?bs = "fold add_row (epoch_rows epoch s) []"
  obtain k b where kb: "(k, b) \<in> set ?bs"
    and a: "a = stat_of epoch (usage_anchors (map (fst \<circ> fst) ?bs) s) (k, b)"
    using assms by (auto simp: aggregate_def Let_def)
  have k: "k = (es_miner_hotkey a, es_model_id a, es_model_version a)"
    unfolding a by (simp add: stat_of_def split: prod.splits)
  define rows where "rows = filter (\<lambda>r. row_key r = k) (epoch_rows epoch s)"
  have "map_of ?bs k = Some b"
    using kb buckets_distinct [of "[]"] by simp
  then have b: "rows \<noteq> []" "b = fold count_row rows (empty_bucket (hd rows))"
    by (simp_all add: map_of_buckets rows_def [symmetric] split: list.splits)
  show thesis
    using that [OF rows_def [unfolded k] b] a [unfolded k] by simp
qed

section \<open>Percentiles\<close>

lemma sorted_count_le:
  assumes "sorted xs" "i < length xs"
  shows "Suc i \<le> length (filter (\<lambda>x. x \<le> xs ! i) xs)" "length (filter (\<lambda>x. x < xs ! i) xs) \<le> i"
proof -
  have "\<forall>x \<in> set (take (Suc i) xs). x \<le> xs ! i"
    using assms by (auto simp: in_set_conv_nth sorted_iff_nth_mono less_Suc_eq_le)
  then have "length (filter (\<lambda>x. x \<le> xs ! i) (take (Suc i) xs)) = Suc i"
    using assms(2) by (simp add: filter_id_conv [THEN iffD2])
  then show "Suc i \<le> length (filter (\<lambda>x. x \<le> xs ! i) xs)"
    by (metis append_take_drop_id filter_append le_add1 length_append)
  have "\<forall>x \<in> set (drop i xs). \<not> x < xs ! i"
    using assms by (auto simp: in_set_conv_nth sorted_iff_nth_mono not_less)
  then have "filter (\<lambda>x. x < xs ! i) (drop i xs) = []" by (simp add: filter_empty_conv)
  then have "filter (\<lambda>x. x < xs ! i) xs = filter (\<lambda>x. x < xs ! i) (take i xs)"
    by (metis append.right_neutral append_take_drop_id filter_append)
  then show "length (filter (\<lambda>x. x < xs ! i) xs) \<le> i"
    by (metis length_filter_le length_take min.cobounded2 order_trans)
qed

lemma length_filter_sort: "length (filter P (sort xs)) = length (filter P (xs :: int list))"
  by (simp add: filter_sort)

lemma nearest_rank_index:
  fixes m n :: nat
  assumes "0 < m" "m \<le> 100 * n"
  defines "i \<equiv> (m + 99) div 100 - 1"
  shows "m \<le> 100 * Suc i" "100 * i < m" "i < n"
proof -
  define q where "q = (m + 99) div 100"
  have q: "100 * q \<le> m + 99" "m + 99 < 100 * q + 100"
    unfolding q_def using div_times_less_eq_dividend [of "m + 99" 100] dividend_less_div_times [of 100 "m + 99"]
    by simp_all
  then obtain j where "q = Suc j" using assms(1) by (cases q) simp_all
  then have j: "i = j" "100 * j < m" "m \<le> 100 * Suc j" using q by (simp_all add: i_def q_def)
  show "m \<le> 100 * Suc i" "100 * i < m" using j by simp_all
  have "100 * j < 100 * n" using j(2) assms(2) by linarith
  then show "i < n" using j(1) by simp
qed

text \<open>The nearest rank: at least p percent of the values are at most the result, and fewer than p
  percent are below it.\<close>

lemma percentile_nearest_rank:
  assumes "percentile_ms vs p = Some v" "0 < p" "p \<le> 100"
  shows "v \<in> set vs" "p * length vs \<le> 100 * length (filter (\<lambda>x. x \<le> v) vs)"
    "100 * length (filter (\<lambda>x. x < v) vs) < p * length vs"
proof -
  define n where "n = length vs"
  define i where "i = (p * n + 99) div 100 - 1"
  have n: "0 < n" using assms(1) by (auto simp: percentile_ms_def n_def Let_def split: if_splits)
  have pos: "0 < p * n" using n assms(2) by simp
  have le: "p * n \<le> 100 * n" using assms(3) by simp
  have i: "p * n \<le> 100 * Suc i" "100 * i < p * n" "i < n" using nearest_rank_index [OF pos le] by (simp_all add: i_def)
  then have v: "v = sort vs ! i"
    using assms(1) by (auto simp: percentile_ms_def n_def i_def Let_def min_def split: if_splits)
  have il: "i < length (sort vs)" using i(3) by (simp add: n_def)
  show "v \<in> set vs" using il unfolding v by (metis nth_mem set_sort)
  have "Suc i \<le> length (filter (\<lambda>x. x \<le> v) vs)" "length (filter (\<lambda>x. x < v) vs) \<le> i"
    using sorted_count_le [OF sorted_sort il] unfolding v length_filter_sort by simp_all
  then show "p * length vs \<le> 100 * length (filter (\<lambda>x. x \<le> v) vs)"
    "100 * length (filter (\<lambda>x. x < v) vs) < p * length vs"
    using i(1,2) by (simp_all add: n_def [symmetric])
qed

section \<open>Finalizing one epoch\<close>

definition artifact_at :: "stats_env \<Rightarrow> signing_key \<Rightarrow> int \<Rightarrow> stats_db \<Rightarrow> stats_artifact" where
  "artifact_at env key epoch s =
     (let version = stat_unix (se_clock env epoch)
      in sign_miner_stats epoch (map stats_entry_of (aggregate epoch (sd_registry s))) version key (Some version))"

definition publish :: "stats_env \<Rightarrow> signing_key \<Rightarrow> int \<Rightarrow> stats_db \<Rightarrow> stats_db" where
  "publish env key epoch s = s\<lparr>epoch_stats := epoch_stats s @ aggregate epoch (sd_registry s),
     snapshots := snapshots s @ [snapshot_of (se_clock env epoch) (artifact_at env key epoch s)]\<rparr>"

text \<open>The tables as the service leaves them under a signing key.\<close>

definition authentic :: "signing_key \<Rightarrow> epoch_snapshot \<Rightarrow> bool" where
  "authentic key sn \<longleftrightarrow> (\<exists>a. sn = snapshot_of (sn_finalized_at sn) a \<and>
     ma_signature a = sk_sign key (artifact_message a) \<and> ma_signer_pubkey a = Some (sk_public key))"

definition stats_ok :: "signing_key \<Rightarrow> stats_db \<Rightarrow> bool" where
  "stats_ok key s \<longleftrightarrow> distinct (map sn_epoch (snapshots s)) \<and> (\<forall>sn \<in> set (snapshots s). authentic key sn) \<and>
     (\<forall>r \<in> set (epoch_stats s). finalized s (es_epoch r))"

lemma artifact_at_simps [simp]:
  "ma_epoch (artifact_at env key epoch s) = epoch"
  "ma_entries (artifact_at env key epoch s) = map stats_entry_of (aggregate epoch (sd_registry s))"
  "ma_signature (artifact_at env key epoch s) = sk_sign key (artifact_message (artifact_at env key epoch s))"
  "ma_signer_pubkey (artifact_at env key epoch s) = Some (sk_public key)"
  by (simp_all add: artifact_at_def sign_miner_stats_def artifact_message_def Let_def)

lemma snapshot_of_simps [simp]:
  "sn_epoch (snapshot_of t a) = ma_epoch a" "sn_payload_json (snapshot_of t a) = artifact_dump a"
  "sn_finalized_at (snapshot_of t a) = t"
  by (simp_all add: snapshot_of_def)

lemma publish_simps [simp]:
  "sd_registry (publish env key epoch s) = sd_registry s"
  "finalized (publish env key epoch s) x \<longleftrightarrow> x = epoch \<or> finalized s x"
  "has_rows (publish env key epoch s) = has_rows s"
  by (auto simp: publish_def finalized_def has_rows_def fun_eq_iff)

lemma get_artifact_state [simp]: "snd (get_artifact e s) = s"
  by (simp add: get_artifact_def)

lemma get_artifact_None: "\<not> finalized s e \<Longrightarrow> get_artifact e s = (Inr None, s)"
  by (auto simp: get_artifact_def finalized_def find_None_iff split: option.splits dest: find_SomeD)

lemma get_artifact_found:
  assumes "stats_ok key s" "finalized s e"
  obtains a where "get_artifact e s = (Inr (Some a), s)" "ma_epoch a = e"
    "ma_signature a = sk_sign key (artifact_message a)" "ma_signer_pubkey a = Some (sk_public key)"
proof -
  obtain sn where sn: "find (\<lambda>sn. sn_epoch sn = e) (snapshots s) = Some sn"
    using assms(2) by (cases "find (\<lambda>sn. sn_epoch sn = e) (snapshots s)")
      (auto simp: finalized_def find_None_iff)
  then have m: "sn \<in> set (snapshots s)" "sn_epoch sn = e" by (auto dest: find_SomeD)
  then obtain a where a: "sn = snapshot_of (sn_finalized_at sn) a"
    "ma_signature a = sk_sign key (artifact_message a)" "ma_signer_pubkey a = Some (sk_public key)"
    using assms(1) by (auto simp: stats_ok_def authentic_def)
  have "sn_payload_json sn = artifact_dump a" "ma_epoch a = e"
    using a(1) m(2) snapshot_of_simps(1,2) by metis+
  then show thesis using that [of a] a sn by (simp add: get_artifact_def andthen_def)
qed

lemma stat_of_epoch [simp]: "es_epoch (stat_of epoch an kb) = epoch"
  by (simp add: stat_of_def split: prod.splits)

lemma aggregate_epoch: "a \<in> set (aggregate epoch s) \<Longrightarrow> es_epoch a = epoch"
  by (auto simp: aggregate_def Let_def)

lemma aggregate_identities: "distinct (map stat_identity (aggregate epoch s))"
proof -
  have "distinct (map (\<lambda>a. (es_miner_hotkey a, es_model_id a, es_model_version a)) (aggregate epoch s))"
    unfolding aggregate_keys by simp
  then show ?thesis by (auto simp: distinct_map stat_identity_def inj_on_def)
qed

lemma finalize_absent:
  assumes "stats_ok key s" "\<not> finalized s epoch" "se_signing_key env = Inr key"
  shows "finalize env epoch s = (Inr (artifact_at env key epoch s), publish env key epoch s)"
proof -
  have "stat_identity ` set (aggregate epoch (sd_registry s)) \<inter> stat_identity ` set (epoch_stats s) = {}"
    using assms(1,2) by (fastforce simp: stats_ok_def stat_identity_def dest: aggregate_epoch)
  then have "persist_aggregates (aggregate epoch (sd_registry s)) s
      = (Inr (), s\<lparr>epoch_stats := epoch_stats s @ aggregate epoch (sd_registry s)\<rparr>)"
    by (simp add: persist_aggregates_def bind_def then_do_def aggregate_identities)
  then show ?thesis
    by (simp add: finalize_def bind_def then_do_def get_artifact_None [OF assms(2)] assms(3)
        of_result_def artifact_at_def publish_def Let_def)
qed

lemma finalize_unkeyed:
  assumes "\<not> finalized s epoch" "se_signing_key env = Inl e"
  shows "\<exists>e' s'. finalize env epoch s = (Inl e', s')"
  by (simp add: finalize_def bind_def then_do_def get_artifact_None [OF assms(1)] assms(2)
      of_result_def persist_aggregates_def)

lemma publish_ok:
  assumes "stats_ok key s" "\<not> finalized s epoch"
  shows "stats_ok key (publish env key epoch s)"
proof -
  have f: "finalized (publish env key epoch s) = (\<lambda>x. x = epoch \<or> finalized s x)" by auto
  have "authentic key (snapshot_of (se_clock env epoch) (artifact_at env key epoch s))"
    unfolding authentic_def by (intro exI [of _ "artifact_at env key epoch s"]) simp
  then show ?thesis
    using assms unfolding stats_ok_def f
    by (auto simp: publish_def finalized_def dest: aggregate_epoch)
qed

section \<open>The backward walk\<close>

definition walked :: "stats_db \<Rightarrow> nat \<Rightarrow> int \<Rightarrow> int list \<Rightarrow> stats_db \<Rightarrow> bool" where
  "walked s n e l s' \<longleftrightarrow>
     l = map (\<lambda>i. e - int i) [0..<length l] \<and> length l \<le> n \<and>
     (\<forall>x. finalized s' x \<longleftrightarrow> finalized s x \<or> x \<in> set l) \<and>
     (\<forall>x \<in> set l. 0 \<le> x \<and> \<not> finalized s x \<and> has_rows s x) \<and>
     (length l < n \<longrightarrow> (let x = e - int (length l) in x < 0 \<or> finalized s x \<or> \<not> has_rows s x))"

lemma walked_stop: "n = 0 \<or> e < 0 \<or> finalized s e \<or> \<not> has_rows s e \<Longrightarrow> walked s n e [] s"
  by (auto simp: walked_def)

lemma walked_go:
  assumes "walked (publish env key e s) n (e - 1) l s'" "0 \<le> e" "\<not> finalized s e" "has_rows s e"
  shows "walked s (Suc n) e (e # l) s'"
proof -
  have l: "l = map (\<lambda>i. e - 1 - int i) [0..<length l]" using assms(1) by (simp add: walked_def)
  have "map (\<lambda>i. e - int i) [0..<Suc (length l)] = e # map (\<lambda>i. e - 1 - int i) [0..<length l]"
    by (rule nth_equalityI) (auto simp: nth_Cons' simp del: upt_Suc)
  then have "e # l = map (\<lambda>i. e - int i) [0..<length (e # l)]" using l by simp
  moreover have "\<forall>x. finalized s' x \<longleftrightarrow> finalized s x \<or> x \<in> set (e # l)"
    using assms(1) by (auto simp: walked_def)
  moreover have "\<forall>x \<in> set (e # l). 0 \<le> x \<and> \<not> finalized s x \<and> has_rows s x"
    using assms by (auto simp: walked_def)
  moreover have "length (e # l) < Suc n \<longrightarrow>
      (let x = e - int (length (e # l)) in x < 0 \<or> finalized s x \<or> \<not> has_rows s x)"
    using assms(1) by (auto simp: walked_def Let_def algebra_simps)
  moreover have "length (e # l) \<le> Suc n" using assms(1) by (simp add: walked_def)
  ultimately show ?thesis unfolding walked_def by blast
qed

lemma finalize_back_walks:
  assumes "se_signing_key env = Inr key" "stats_ok key s"
  shows "\<exists>l s'. finalize_back env n e s = (Inr l, s') \<and> walked s n e l s' \<and> stats_ok key s' \<and>
           sd_registry s' = sd_registry s \<and> (\<exists>later. snapshots s' = snapshots s @ later)"
  using assms(2)
proof (induction n arbitrary: e s)
  case 0
  then show ?case by (auto intro: walked_stop)
next
  case (Suc n)
  show ?case
  proof (cases "0 \<le> e \<and> \<not> finalized s e \<and> has_rows s e")
    case False
    then show ?thesis using Suc.prems by (auto simp: bind_def intro!: walked_stop)
  next
    case True
    let ?p = "publish env key e s"
    obtain l s' where l: "finalize_back env n (e - 1) ?p = (Inr l, s')" "walked ?p n (e - 1) l s'"
      "stats_ok key s'" "sd_registry s' = sd_registry s" "\<exists>later. snapshots s' = snapshots ?p @ later"
      using Suc.IH [of ?p "e - 1", OF publish_ok [OF Suc.prems]] True unfolding publish_simps(1) by blast
    have "finalize_back env (Suc n) e s = (Inr (e # l), s')"
      using True l(1) finalize_absent [OF Suc.prems _ assms(1)] by (simp add: bind_def then_do_def)
    moreover have "\<exists>later. snapshots s' = snapshots s @ later" using l(5) by (auto simp: publish_def)
    ultimately show ?thesis using l walked_go [OF l(2)] True by blast
  qed
qed

lemma finalize_back_unkeyed:
  assumes "se_signing_key env = Inl x" "finalize_back env n e s = (Inr l, s')"
  shows "s' = s \<and> l = []"
proof (cases n)
  case 0
  then show ?thesis using assms(2) by simp
next
  case (Suc m)
  then show ?thesis
    using assms(2) finalize_unkeyed [OF _ assms(1), of s e]
    by (auto simp: bind_def then_do_def split: if_splits prod.splits sum.splits)
qed

section \<open>Passes and reachable tables\<close>

text \<open>Between two passes of the maintenance loop the registry and its rows may change in any way; a
  pass may run with a key that fails to load, but never with another key.\<close>

inductive stats_step :: "signing_key \<Rightarrow> stats_db \<Rightarrow> stats_db \<Rightarrow> bool" for key where
  registry: "stats_step key s (s\<lparr>sd_registry := r\<rparr>)"
| pass: "(\<And>k. se_signing_key env = Inr k \<Longrightarrow> k = key) \<Longrightarrow>
    stats_step key s (snd (finalize_pass cfg env current s))"

definition newest_epoch :: "stats_settings \<Rightarrow> int \<Rightarrow> int" where
  "newest_epoch cfg current = current - 1 - ss_settle_lag_epochs cfg"

lemma finalize_due_walks:
  assumes "se_signing_key env = Inr key" "stats_ok key s" "0 \<le> current - 1 - lag"
  shows "\<exists>l s'. finalize_due env current lag m s = (Inr l, s') \<and> walked s (nat m) (current - 1 - lag) l s' \<and>
    stats_ok key s' \<and> sd_registry s' = sd_registry s \<and> (\<exists>later. snapshots s' = snapshots s @ later)"
  using finalize_back_walks [OF assms(1,2)] assms(3) by (simp add: finalize_due_def)

lemma finalize_pass_walks:
  assumes "se_signing_key env = Inr key" "stats_ok key s" "0 \<le> newest_epoch cfg current"
  shows "\<exists>l s'. finalize_pass cfg env (Some current) s = (length l, s') \<and>
    walked s (nat (ss_max_finalize_per_pass cfg)) (newest_epoch cfg current) l s' \<and>
    stats_ok key s' \<and> sd_registry s' = sd_registry s \<and> (\<exists>later. snapshots s' = snapshots s @ later)"
proof -
  obtain l s' where l: "finalize_due env current (ss_settle_lag_epochs cfg) (ss_max_finalize_per_pass cfg) s = (Inr l, s')"
    "walked s (nat (ss_max_finalize_per_pass cfg)) (newest_epoch cfg current) l s'"
    "stats_ok key s'" "sd_registry s' = sd_registry s" "\<exists>later. snapshots s' = snapshots s @ later"
    using finalize_due_walks [OF assms(1,2)] assms(3) unfolding newest_epoch_def by blast
  have "finalize_pass cfg env (Some current) s = (length l, s')"
    by (simp add: finalize_pass_def finalize_miner_epoch_stats_def bind_Inr [where m = "finalize_due _ _ _ _", OF l(1)])
  then show ?thesis using l by blast
qed

lemma finalize_pass_idle:
  assumes "current = None \<or> (\<exists>c. current = Some c \<and> newest_epoch cfg c < 0)"
  shows "finalize_pass cfg env current s = (0, s)"
  using assms
  by (auto simp: finalize_pass_def finalize_miner_epoch_stats_def finalize_due_def newest_epoch_def bind_def)

lemma finalize_pass_unkeyed:
  assumes "se_signing_key env = Inl x"
  shows "snd (finalize_pass cfg env current s) = s"
proof (cases current)
  case (Some c)
  show ?thesis
  proof (cases "0 \<le> newest_epoch cfg c")
    case True
    then show ?thesis
      using finalize_back_unkeyed [OF assms, of "nat (ss_max_finalize_per_pass cfg)" "newest_epoch cfg c" s]
      by (cases "finalize_back env (nat (ss_max_finalize_per_pass cfg)) (newest_epoch cfg c) s")
        (auto simp: Some finalize_pass_def finalize_miner_epoch_stats_def finalize_due_def
          newest_epoch_def bind_def split: sum.splits)
  qed (simp add: finalize_pass_idle Some)
qed (simp add: finalize_pass_idle)

lemma stats_step_keeps:
  assumes "stats_step key s s'" "stats_ok key s"
  shows "stats_ok key s' \<and> (\<exists>later. snapshots s' = snapshots s @ later)"
  using assms(1)
proof cases
  case (registry r)
  then show ?thesis using assms(2) by (simp add: stats_ok_def finalized_def)
next
  case (pass env cfg current)
  show ?thesis
  proof (cases "se_signing_key env")
    case (Inl x)
    then show ?thesis using pass assms(2) by (simp add: finalize_pass_unkeyed)
  next
    case (Inr k)
    then have k: "se_signing_key env = Inr key" using pass(2) by simp
    show ?thesis
    proof (cases "current = None \<or> (\<exists>c. current = Some c \<and> newest_epoch cfg c < 0)")
      case True
      then show ?thesis using pass assms(2) by (simp add: finalize_pass_idle)
    next
      case False
      then obtain c where c: "current = Some c" "0 \<le> newest_epoch cfg c" by auto
      show ?thesis using finalize_pass_walks [OF k assms(2) c(2)] pass(1) c(1) by auto
    qed
  qed
qed

lemma get_artifact_more:
  assumes "snapshots s' = snapshots s @ later" "get_artifact e s = (Inr (Some a), s)"
  shows "get_artifact e s' = (Inr (Some a), s')"
proof -
  have "find P (xs @ ys) = Some x" if "find P xs = Some x" for P x and xs ys :: "epoch_snapshot list"
    using that by (induction xs) (auto split: if_splits)
  then show ?thesis using assms by (auto simp: get_artifact_def split: option.splits)
qed

lemma finalize_existing: "get_artifact e s = (Inr (Some a), s) \<Longrightarrow> finalize env e s = (Inr a, s)"
  by (simp add: finalize_def bind_def)

interpretation stats: step_invariant "stats_step key" "stats_ok key" for key
  by unfold_locales (simp add: stats_step_keeps)

lemma snapshots_grow:
  assumes "(stats_step key)\<^sup>*\<^sup>* s s'" "stats_ok key s"
  shows "\<exists>later. snapshots s' = snapshots s @ later"
  using assms(1)
proof (induction rule: rtranclp_induct)
  case (step t u)
  then show ?case using stats_step_keeps [OF step(2) stats.reachable [OF step(1) assms(2)]] by auto
qed simp

lemma get_artifact_finalized: "get_artifact e s = (Inr (Some a), s) \<Longrightarrow> finalized s e"
  by (metis Pair_inject get_artifact_None option.distinct(1) sum.inject(2))

text \<open>C35: Once an epoch has an artifact, no later sequence of passes and changes to the registry
  alters it: reading it, and finalizing the epoch again, answer the same artifact, and its signature
  verifies over the content that is read back.\<close>

theorem published_artifact_immutable:
  assumes "stats_ok key s" "(stats_step key)\<^sup>*\<^sup>* s s'" "get_artifact e s = (Inr (Some a), s)"
  shows "get_artifact e s' = (Inr (Some a), s') \<and> finalize env e s' = (Inr a, s') \<and>
    get_miner_stats e s' = (Inr a, s') \<and> ma_epoch a = e \<and> ma_signature a = sk_sign key (artifact_message a)"
proof -
  obtain later where m: "snapshots s' = snapshots s @ later" using snapshots_grow assms by blast
  have g: "get_artifact e s' = (Inr (Some a), s')" using get_artifact_more [OF m assms(3)] .
  obtain b where "get_artifact e s = (Inr (Some b), s)" "ma_epoch b = e"
      "ma_signature b = sk_sign key (artifact_message b)"
    using get_artifact_found [OF assms(1) get_artifact_finalized [OF assms(3)]] by blast
  then show ?thesis
    using g assms(3) finalize_existing [OF g] by (simp add: get_miner_stats_def bind_def)
qed

definition exact_entry :: "request_stat list \<Rightarrow> stats_entry \<Rightarrow> bool" where
  "exact_entry rows e \<longleftrightarrow>
     me_requests_ok e = int (length (served_rows rows)) \<and>
     me_requests_ok e + me_requests_failed e = int (length rows) \<and>
     me_verified_prompt_tokens e = sum_list (map rs_prompt_tokens (verified_rows rows)) \<and>
     me_verified_completion_tokens e = sum_list (map rs_completion_tokens (verified_rows rows)) \<and>
     me_verified_total_tokens e = sum_list (map rs_total_tokens (verified_rows rows)) \<and>
     me_latency_p95_ms e = percentile_ms (latencies rows) 95 \<and>
     (\<forall>v. me_latency_p95_ms e = Some v \<longrightarrow>
        v \<in> set (latencies rows) \<and>
        95 * length (latencies rows) \<le> 100 * length (filter (\<lambda>x. x \<le> v) (latencies rows)) \<and>
        100 * length (filter (\<lambda>x. x < v) (latencies rows)) < 95 * length (latencies rows))"

lemma entry_key_stat: "entry_key (stats_entry_of a) = (es_miner_hotkey a, es_model_id a, es_model_version a)"
  by (simp add: entry_key_def stats_entry_of_def or_empty_def)

lemma aggregate_exact:
  assumes "a \<in> set (aggregate epoch s)"
  shows "exact_entry (filter (\<lambda>r. row_key r = entry_key (stats_entry_of a)) (epoch_rows epoch s)) (stats_entry_of a)"
proof -
  obtain b rows an where r:
    "rows = filter (\<lambda>r. row_key r = (es_miner_hotkey a, es_model_id a, es_model_version a)) (epoch_rows epoch s)"
    and b: "b = fold count_row rows (empty_bucket (hd rows))"
    and a: "a = stat_of epoch an ((es_miner_hotkey a, es_model_id a, es_model_version a), b)"
    using aggregate_member [OF assms] by metis
  have "exact_entry rows (stats_entry_of (stat_of epoch an (k, b)))" for k
    by (cases k) (simp add: exact_entry_def stats_entry_of_def stat_of_def b counted empty_bucket_def
        percentile_nearest_rank)
  then show ?thesis unfolding entry_key_stat r [symmetric] using a by metis
qed

lemma publish_get:
  assumes "\<not> finalized s epoch"
  shows "get_artifact epoch (publish env key epoch s) =
    (Inr (Some (artifact_at env key epoch s)), publish env key epoch s)"
proof -
  have "sn_epoch (snapshot_of t (artifact_at env key epoch s)) = epoch" for t by simp
  moreover have "find (\<lambda>sn. sn_epoch sn = epoch) (snapshots s) = None"
    using assms by (auto simp: find_None_iff finalized_def)
  ultimately have "find (\<lambda>sn. sn_epoch sn = epoch) (snapshots (publish env key epoch s))
      = Some (snapshot_of (se_clock env epoch) (artifact_at env key epoch s))"
    by (simp add: publish_def find_append)
  then show ?thesis by (simp add: get_artifact_def andthen_def)
qed

text \<open>C36: The artifact published for an epoch has one entry per hotkey, model and version among the
  platform's rows of that epoch, in order; its counters are the exact sums over those rows, only
  verified rows carry reward-bearing tokens, and the latency is the nearest-rank percentile of the
  served requests. Reading the epoch back answers this artifact.\<close>

theorem published_counts_exact:
  assumes "stats_ok key s" "\<not> finalized s epoch" "se_signing_key env = Inr key"
  shows "\<exists>art s'. finalize env epoch s = (Inr art, s') \<and> get_artifact epoch s' = (Inr (Some art), s') \<and>
    map entry_key (ma_entries art) = sorted_list_of_set (row_key ` set (epoch_rows epoch (sd_registry s))) \<and>
    (\<forall>e \<in> set (ma_entries art).
       exact_entry (filter (\<lambda>r. row_key r = entry_key e) (epoch_rows epoch (sd_registry s))) e)"
proof -
  have "map entry_key (ma_entries (artifact_at env key epoch s))
      = sorted_list_of_set (row_key ` set (epoch_rows epoch (sd_registry s)))"
    unfolding aggregate_keys [symmetric] by (simp add: entry_key_stat)
  then show ?thesis
    using finalize_absent [OF assms] publish_get [OF assms(2)] aggregate_exact by auto
qed


text \<open>The passes from the time on when the newest closed epoch is at or above a given one.\<close>

inductive forward_step :: "signing_key \<Rightarrow> int \<Rightarrow> stats_db \<Rightarrow> stats_db \<Rightarrow> bool" for key floor where
  registry: "forward_step key floor s (s\<lparr>sd_registry := r\<rparr>)"
| pass: "(\<And>k. se_signing_key env = Inr k \<Longrightarrow> k = key) \<Longrightarrow> floor \<le> newest_epoch cfg current \<Longrightarrow>
    forward_step key floor s (snd (finalize_pass cfg env (Some current) s))"

lemma forward_stats_step: "forward_step key f s s' \<Longrightarrow> stats_step key s s'"
  by (induction rule: forward_step.induct) (auto intro: stats_step.intros)

lemma walked_stops_at_finalized:
  assumes "walked s n newest l s'" "finalized s f" "e < f" "f \<le> newest"
  shows "e \<notin> set l"
proof
  assume "e \<in> set l"
  moreover have "set l = (\<lambda>i. newest - int i) ` {0..<length l}"
    using assms(1) unfolding walked_def by (metis list.set_map set_upt)
  ultimately obtain j where j: "e = newest - int j" "j < length l" by auto
  define i where "i = nat (newest - f)"
  have "f = newest - int i" "i < length l" using assms(3,4) j by (auto simp: i_def)
  then have "f \<in> set l" using \<open>set l = _\<close> by auto
  then show False using assms(1,2) by (auto simp: walked_def)
qed

lemma skipped_keeps:
  assumes "forward_step key f s s'" "stats_ok key s" "finalized s f \<and> \<not> finalized s e" "e < f"
  shows "finalized s' f \<and> \<not> finalized s' e"
  using assms(1)
proof cases
  case (registry r)
  then show ?thesis using assms(3) by (simp add: finalized_def)
next
  case (pass env cfg current)
  show ?thesis
  proof (cases "se_signing_key env")
    case (Inl x)
    then show ?thesis using pass assms(3) by (simp add: finalize_pass_unkeyed)
  next
    case (Inr k)
    show ?thesis
    proof (cases "0 \<le> newest_epoch cfg current")
      case True
      obtain l where w: "walked s (nat (ss_max_finalize_per_pass cfg)) (newest_epoch cfg current) l s'"
        using finalize_pass_walks [OF _ assms(2) True] Inr pass by fastforce
      then have "e \<notin> set l" using walked_stops_at_finalized assms(3,4) pass(3) by blast
      then show ?thesis using w assms(3) by (simp add: walked_def)
    next
      case False
      then show ?thesis using pass(1) assms(3) by (simp add: finalize_pass_idle)
    qed
  qed
qed

interpretation forward: step_fact "forward_step key f" "stats_ok key" "\<lambda>s. finalized s f \<and> \<not> finalized s e \<and> e < f"
  for key f e
  by unfold_locales (use stats_step_keeps forward_stats_step skipped_keeps in blast)+

text \<open>C38: An epoch left behind a finalized one is never published: no later pass whose newest closed
  epoch is at or above the finalized one reaches it, however many passes run, and its route answers
  not found for ever.\<close>

theorem skipped_epoch_never_published:
  assumes "stats_ok key s" "finalized s f" "\<not> finalized s e" "e < f" "(forward_step key f)\<^sup>*\<^sup>* s s'"
  shows "\<not> finalized s' e \<and> get_miner_stats e s' = (Inl not_found, s')"
proof -
  have "\<not> finalized s' e" using forward.fact_reachable [OF assms(5,1), of e] assms(2-4) by blast
  then show ?thesis by (simp add: get_miner_stats_def bind_def get_artifact_None)
qed

section \<open>Witnesses\<close>

text \<open>Two miners in epoch 5: one served two requests, one of them verified, the other failed one.
  Epoch 3 had traffic too, but epoch 4 had none.\<close>

definition demo_stat :: "nat \<Rightarrow> int \<Rightarrow> string \<Rightarrow> string \<Rightarrow> int \<Rightarrow> bool \<Rightarrow> int \<Rightarrow> request_stat" where
  "demo_stat i epoch hotkey outcome tokens verified ms =
     \<lparr>rs_id = i, rs_epoch = Some epoch, rs_miner_id = Some 1, rs_miner_hotkey = hotkey,
      rs_subnet_node_id = Some 7, rs_miner_model_id = None, rs_model_id = ''m'', rs_model_version = None,
      rs_model_hash = None, rs_request_id = None, rs_outcome = outcome, rs_http_status = None,
      rs_latency_ms = Some ms, rs_ttft_ms = None, rs_prompt_tokens = tokens,
      rs_completion_tokens = 2 * tokens, rs_total_tokens = 3 * tokens, rs_verified = verified,
      rs_created_at = 0\<rparr>"

definition demo_stats :: stats_db where
  "demo_stats = \<lparr>sd_registry = \<lparr>miners = [], miner_models = [], provisioned_tokens = [],
      model_allowlist = [], miner_request_stats =
       [demo_stat 1 5 ''bb'' ''success'' 10 True 40, demo_stat 2 5 ''aa'' ''timeout'' 0 False 900,
        demo_stat 3 5 ''bb'' ''success'' 5 False 60, demo_stat 4 3 ''aa'' ''success'' 1 True 30],
      md_next = 5\<rparr>, epoch_stats = [], snapshots = []\<rparr>"

definition demo_signing_key :: signing_key where
  "demo_signing_key = \<lparr>sk_sign = (\<lambda>_. ''5ig''), sk_public = ''ab''\<rparr>"

definition demo_stats_env :: stats_env where
  "demo_stats_env = \<lparr>se_clock = (\<lambda>e. 62135596800000000 + e * 1000000), se_signing_key = Inr demo_signing_key\<rparr>"

definition demo_stats_cfg :: stats_settings where
  "demo_stats_cfg = \<lparr>ss_settle_lag_epochs = 1, ss_max_finalize_per_pass = 8\<rparr>"

lemma demo_stats_ok: "stats_ok key demo_stats"
  by (simp add: stats_ok_def demo_stats_def)

lemmas demo_stats_defs = demo_stats_def demo_stat_def demo_stats_env_def demo_stats_cfg_def demo_signing_key_def

lemma demo_open: "\<not> finalized demo_stats e"
  by (simp add: finalized_def demo_stats_def)

definition demo_published :: stats_db where
  "demo_published = publish demo_stats_env demo_signing_key 5 demo_stats"

lemma demo_published_ok: "stats_ok demo_signing_key demo_published"
  unfolding demo_published_def by (rule publish_ok [OF demo_stats_ok demo_open])

lemma demo_key [simp]: "se_signing_key demo_stats_env = Inr demo_signing_key"
  by (simp add: demo_stats_env_def)

lemma demo_newest: "newest_epoch demo_stats_cfg c = c - 2"
  by (simp add: newest_epoch_def demo_stats_cfg_def)

lemma demo_limit: "1 \<le> ss_max_finalize_per_pass demo_stats_cfg"
  by (simp add: demo_stats_cfg_def)

lemma demo_epoch_rows: "has_rows demo_stats 5" "has_rows demo_published 3"
  by (simp_all add: demo_published_def) (simp_all add: has_rows_def epoch_rows_def demo_stats_defs)

lemma demo_finalized: "finalized demo_published x \<longleftrightarrow> x = 5"
  by (simp add: demo_published_def demo_open)

lemma published_artifact_immutable_witness:
  "get_miner_stats 5 (snd (finalize_pass demo_stats_cfg demo_stats_env (Some 8) demo_published)) =
     (Inr (artifact_at demo_stats_env demo_signing_key 5 demo_stats),
      snd (finalize_pass demo_stats_cfg demo_stats_env (Some 8) demo_published))"
proof -
  have "(stats_step demo_signing_key)\<^sup>*\<^sup>* demo_published
      (snd (finalize_pass demo_stats_cfg demo_stats_env (Some 8) demo_published))"
    by (rule r_into_rtranclp, rule stats_step.pass) simp
  then show ?thesis
    using published_artifact_immutable [OF demo_published_ok]
      publish_get [OF demo_open, where env = demo_stats_env and key = demo_signing_key and epoch = 5, folded demo_published_def] by blast
qed

lemma published_counts_exact_witness:
  "\<exists>art s'. finalize demo_stats_env 5 demo_stats = (Inr art, s') \<and>
     map entry_key (ma_entries art) = [(''aa'', ''m'', []), (''bb'', ''m'', [])] \<and>
     map me_verified_total_tokens (ma_entries art) = [0, 30] \<and> map me_requests_ok (ma_entries art) = [0, 2]"
proof -
  obtain art s' where f: "finalize demo_stats_env 5 demo_stats = (Inr art, s')"
    and k: "map entry_key (ma_entries art) = sorted_list_of_set (row_key ` set (epoch_rows 5 (sd_registry demo_stats)))"
    and e: "\<forall>e \<in> set (ma_entries art).
       exact_entry (filter (\<lambda>r. row_key r = entry_key e) (epoch_rows 5 (sd_registry demo_stats))) e"
    using published_counts_exact [OF demo_stats_ok demo_open demo_key] by blast
  have rows: "row_key ` set (epoch_rows 5 (sd_registry demo_stats)) = {(''aa'', ''m'', []), (''bb'', ''m'', [])}"
    by (auto simp: epoch_rows_def demo_stats_defs row_key_def or_empty_def)
  have keys: "map entry_key (ma_entries art) = [(''aa'', ''m'', []), (''bb'', ''m'', [])]"
    unfolding k rows
    by (rule sorted_distinct_set_unique) (simp_all add: less_eq_prod_def less_char_def del: sorted_list_of_set_insert)
  then obtain x y where xy: "ma_entries art = [x, y]" "entry_key x = (''aa'', ''m'', [])"
      "entry_key y = (''bb'', ''m'', [])" by auto
  then show ?thesis
    using f keys e
    by (simp add: exact_entry_def row_groups epoch_rows_def demo_stats_defs row_key_def or_empty_def)
qed


lemma skipped_epoch_never_published_witness:
  "has_rows demo_published 3 \<and>
   get_miner_stats 3 (snd (finalize_pass demo_stats_cfg demo_stats_env (Some 8) demo_published)) =
     (Inl not_found, snd (finalize_pass demo_stats_cfg demo_stats_env (Some 8) demo_published))"
proof -
  have "forward_step demo_signing_key 5 demo_published
      (snd (finalize_pass demo_stats_cfg demo_stats_env (Some 8) demo_published))"
    by (rule forward_step.pass) (simp_all add: demo_newest)
  then show ?thesis
    using skipped_epoch_never_published [OF demo_published_ok, of 5 3] demo_epoch_rows(2)
    by (simp add: demo_finalized r_into_rtranclp)
qed

end
