(* ===== verification/Referrals.thy ===== *)
theory Referrals
  imports Catalogue
begin

text \<open>
  Referral codes and rewards: \<^verbatim>\<open>app/referrals/service.py\<close>. A user's current code and the codes it
  had before (aliases), the attribution of a signup, and the credit a referrer earns when a referred
  user pays. The arithmetic of \<open>Decimal\<close> is written out at its 28 significant digits; the random
  choice of a generated code is a parameter.
\<close>

section \<open>Decimals\<close>

text \<open>\<open>(c, e)\<close> is the number \<open>c * 10 ^ e\<close>. A quotient of positive numbers is rounded half to even to
  28 significant digits.\<close>

type_synonym decimal = "int \<times> int"

fun num_digits :: "nat \<Rightarrow> nat" where
  "num_digits n = (if n < 10 then 1 else Suc (num_digits (n div 10)))"

declare num_digits.simps [simp del]

definition round_half_even :: "int \<Rightarrow> int \<Rightarrow> int" where
  "round_half_even a b =
     (let q = a div b; r = 2 * (a mod b)
      in if r > b \<or> r = b \<and> odd q then q + 1 else q)"

definition dec_div :: "decimal \<Rightarrow> decimal \<Rightarrow> decimal" where
  "dec_div x y =
     (case (x, y) of ((c, e), (d, f)) \<Rightarrow>
       let num = c * 10 ^ nat (e - f);
           den = d * 10 ^ nat (f - e);
           k0 = int (num_digits (nat num)) - int (num_digits (nat den));
           k = (if den * 10 ^ nat k0 \<le> num * 10 ^ nat (- k0) then k0 else k0 - 1);
           s = 27 - k
       in (round_half_even (num * 10 ^ nat s) (den * 10 ^ nat (- s)), - s))"

definition dec_floor :: "decimal \<Rightarrow> int" where
  "dec_floor x = (case x of (c, e) \<Rightarrow> if e \<ge> 0 then c * 10 ^ nat e else c div 10 ^ nat (- e))"

section \<open>Tables\<close>

record referral_row =
  rf_id :: nat
  rf_referrer_user_id :: nat
  rf_referred_user_id :: nat
  rf_referral_code_used :: string
  rf_created_at :: time

record earning_row =
  ern_referral_id :: nat
  ern_source_id :: string
  ern_referred_user_id :: nat
  ern_referrer_user_id :: nat
  ern_tokens_credited :: int
  ern_usd_equivalent_cents :: int
  ern_created_at :: time

record alias_row =
  als_user_id :: nat
  als_code :: string

record code_row =
  rc_user_id :: nat
  rc_referral_code :: string

text \<open>A user without a row in \<open>referral_codes\<close> has no code yet.\<close>

record referral_db =
  rd_ledger :: ledger
  referral_codes :: "code_row list"
  referral_aliases :: "alias_row list"
  referrals :: "referral_row list"
  referral_earnings :: "earning_row list"
  rd_next :: nat

definition on_ledger_of :: "(ledger, 'a) handler \<Rightarrow> ('z referral_db_scheme, 'a) handler" where
  "on_ledger_of h = (\<lambda>s. case h (rd_ledger s) of (r, l) \<Rightarrow> (r, s\<lparr>rd_ledger := l\<rparr>))"

section \<open>Codes\<close>

definition custom_code_char :: "char \<Rightarrow> bool" where
  "custom_code_char c \<longleftrightarrow> is_lower c \<or> is_digit c"

definition custom_code_shape :: "string \<Rightarrow> bool" where
  "custom_code_shape s \<longleftrightarrow>
     s \<noteq> [] \<and> custom_code_char (hd s) \<and> custom_code_char (last s) \<and>
     list_all (\<lambda>c. custom_code_char c \<or> c = CHR ''_'' \<or> c = CHR ''-'') s"

definition reserved_referral_codes :: "string list" where
  "reserved_referral_codes =
     [''about'', ''account'', ''accounts'', ''admin'', ''administrator'', ''api'', ''app'', ''auth'',
      ''billing'', ''blog'', ''chat'', ''contact'', ''dashboard'', ''docs'', ''help'', ''home'',
      ''info'', ''login'', ''logout'', ''mod'', ''moderator'', ''null'', ''official'', ''owner'',
      ''pricing'', ''privacy'', ''r'', ''ref'', ''referral'', ''referrals'', ''register'', ''root'',
      ''security'', ''settings'', ''signin'', ''signup'', ''staff'', ''status'', ''support'',
      ''system'', ''talaris'', ''team'', ''terms'', ''test'', ''undefined'', ''www'']"

definition conflict :: "string \<Rightarrow> error" where
  "conflict code = HttpError 409 code"

definition normalize_custom_referral_code :: "string \<Rightarrow> error + string" where
  "normalize_custom_referral_code raw =
     (let code = lower (strip raw)
      in if \<not> (3 \<le> length code \<and> length code \<le> 32) then Inl (bad_request ''referral_code_invalid_length'')
         else if \<not> custom_code_shape code then Inl (bad_request ''referral_code_invalid_characters'')
         else if code \<in> set reserved_referral_codes then Inl (bad_request ''referral_code_reserved'')
         else Inr code)"

definition current_code :: "nat \<Rightarrow> ('z referral_db_scheme) \<Rightarrow> string option" where
  "current_code uid s = map_option rc_referral_code (find (\<lambda>r. rc_user_id r = uid) (referral_codes s))"

definition set_code :: "nat \<Rightarrow> string \<Rightarrow> 'z referral_db_scheme \<Rightarrow> 'z referral_db_scheme" where
  "set_code uid code s =
     (if current_code uid s = None
      then s\<lparr>referral_codes := referral_codes s @ [\<lparr>rc_user_id = uid, rc_referral_code = code\<rparr>]\<rparr>
      else s\<lparr>referral_codes := replace_by rc_user_id \<lparr>rc_user_id = uid, rc_referral_code = code\<rparr> (referral_codes s)\<rparr>)"

text \<open>The unique index on \<open>lower(users.referral_code)\<close>.\<close>

definition code_held_by_other :: "nat \<Rightarrow> string \<Rightarrow> 'z referral_db_scheme \<Rightarrow> bool" where
  "code_held_by_other uid code s \<longleftrightarrow>
     list_ex (\<lambda>r. rc_user_id r \<noteq> uid \<and> lower (rc_referral_code r) = lower code) (referral_codes s)"

text \<open>A generated code that collides is drawn again, five times in all; the \<open>SAVEPOINT\<close> undoes the
  failed write.\<close>

fun draw_code :: "nat \<Rightarrow> string list \<Rightarrow> ('z referral_db_scheme, string) handler" where
  "draw_code uid [] = raise (PyExc ''RuntimeError'')"
| "draw_code uid (code # codes) =
     bind (gets (code_held_by_other uid code)) (\<lambda>taken.
       if taken then draw_code uid codes
       else then_do (modify (set_code uid code)) (ret code))"

definition referral_code_generation_attempts :: nat where
  "referral_code_generation_attempts = 5"

definition ensure_referral_code ::
    "(nat \<Rightarrow> string) \<Rightarrow> nat \<Rightarrow> ('z referral_db_scheme, string) handler" where
  "ensure_referral_code generate uid =
     bind (gets (current_code uid)) (\<lambda>current.
       if \<not> is_falsy current then ret (the current)
       else draw_code uid (map generate [0..<referral_code_generation_attempts]))"

definition find_code_owner :: "string \<Rightarrow> 'z referral_db_scheme \<Rightarrow> (nat \<times> string) option" where
  "find_code_owner code s =
     (let needle = lower (strip code)
      in if needle = [] then None
         else case find (\<lambda>r. lower (rc_referral_code r) = needle) (referral_codes s) of
           Some r \<Rightarrow> Some (rc_user_id r, rc_referral_code r)
         | None \<Rightarrow> map_option (\<lambda>a. (als_user_id a, als_code a))
             (find (\<lambda>a. lower (als_code a) = needle) (referral_aliases s)))"

definition max_referral_code_aliases :: nat where
  "max_referral_code_aliases = 10"

text \<open>The alias a user takes back is deleted; otherwise a user with a current code needs room for
  another alias.\<close>

definition make_room :: "nat \<Rightarrow> string \<Rightarrow> bool \<Rightarrow> string option \<Rightarrow> ('z referral_db_scheme, unit) handler" where
  "make_room uid code reclaim current =
     (if reclaim then
        bind (select_one (\<lambda>s. filter (\<lambda>a. als_user_id a = uid \<and> lower (als_code a) = code) (referral_aliases s)))
          (\<lambda>own. modify (\<lambda>s. s\<lparr>referral_aliases := filter (\<lambda>a. a \<noteq> own) (referral_aliases s)\<rparr>))
      else if current \<noteq> None then
        bind (gets (\<lambda>s. length (filter (\<lambda>a. als_user_id a = uid) (referral_aliases s))))
          (\<lambda>n. guard_or (\<not> n \<ge> max_referral_code_aliases) (bad_request ''referral_code_change_limit''))
      else ret ())"

text \<open>The flush of the new alias and the new code: the unique indexes on either.\<close>

definition store_code :: "nat \<Rightarrow> string \<Rightarrow> string option \<Rightarrow> ('z referral_db_scheme, unit) handler" where
  "store_code uid code current =
     bind (gets (\<lambda>s. code_held_by_other uid code s \<or>
            (case current of None \<Rightarrow> False
             | Some c \<Rightarrow> list_ex (\<lambda>a. lower (als_code a) = lower c) (referral_aliases s))))
       (\<lambda>taken. then_do (guard_or (\<not> taken) (conflict ''referral_code_taken''))
         (modify (\<lambda>s. set_code uid code (s\<lparr>referral_aliases := referral_aliases s @
            (case current of None \<Rightarrow> [] | Some c \<Rightarrow> [\<lparr>als_user_id = uid, als_code = c\<rparr>])\<rparr>))))"

definition set_custom_code :: "nat \<Rightarrow> string \<Rightarrow> ('z referral_db_scheme, string) handler" where
  "set_custom_code uid raw_code =
     bind (of_result (normalize_custom_referral_code raw_code)) (\<lambda>code.
     bind (gets (current_code uid)) (\<lambda>current.
       if current \<noteq> None \<and> lower (the current) = code then
         then_do (if the current \<noteq> code then modify (set_code uid code) else ret ()) (ret code)
       else
         bind (gets (find_code_owner code)) (\<lambda>owner.
         then_do (guard_or (\<not> (owner \<noteq> None \<and> fst (the owner) \<noteq> uid)) (conflict ''referral_code_taken''))
        (then_do (make_room uid code (owner \<noteq> None) current)
        (then_do (store_code uid code current) (ret code))))))"

section \<open>Attribution\<close>

definition attribute_signup :: "time \<Rightarrow> nat \<Rightarrow> string option \<Rightarrow> ('z referral_db_scheme, unit) handler" where
  "attribute_signup now referred referral_code =
     (if is_falsy referral_code then ret ()
      else bind (gets (find_code_owner (the referral_code))) (\<lambda>owner. case owner of
        None \<Rightarrow> ret ()
      | Some (referrer, code) \<Rightarrow>
          if referrer = referred then ret ()
          else bind (select_one_or_none (\<lambda>s. filter (\<lambda>r. rf_referred_user_id r = referred) (referrals s)))
            (\<lambda>existing. if existing \<noteq> None then ret ()
              else modify (\<lambda>s. s\<lparr>referrals := referrals s @
                     [\<lparr>rf_id = rd_next s, rf_referrer_user_id = referrer, rf_referred_user_id = referred,
                       rf_referral_code_used = code, rf_created_at = now\<rparr>],
                     rd_next := Suc (rd_next s)\<rparr>))))"

section \<open>Earnings\<close>

definition referral_earnout_window :: time where
  "referral_earnout_window = 365 * 86400 * 1000000"

definition bonus_cents :: "int \<Rightarrow> decimal" where
  "bonus_cents amount_cents = (amount_cents * 10, -2)"

definition bonus_tokens :: "int \<Rightarrow> decimal \<Rightarrow> int" where
  "bonus_tokens amount_cents rate = dec_floor (dec_div (bonus_cents amount_cents) rate)"

text \<open>\<open>_lock_or_create_wallet\<close> is the third copy of the one in \<open>Ledger\<close>.\<close>

definition credit_for_payment ::
    "time \<Rightarrow> nat \<Rightarrow> int \<Rightarrow> string \<Rightarrow> decimal \<Rightarrow> ('z referral_db_scheme, unit) handler" where
  "credit_for_payment now referred amount_cents source_id rate =
     (if amount_cents \<le> 0 \<or> fst rate \<le> 0 then ret ()
      else bind (select_one_or_none (\<lambda>s. filter (\<lambda>r. rf_referred_user_id r = referred) (referrals s)))
        (\<lambda>found. case found of None \<Rightarrow> ret ()
         | Some referral \<Rightarrow>
             if now - rf_created_at referral > referral_earnout_window then ret ()
             else bind (select_one_or_none (\<lambda>s. filter (\<lambda>e. ern_source_id e = source_id) (referral_earnings s)))
               (\<lambda>existing. if existing \<noteq> None then ret ()
                 else (let tokens = bonus_tokens amount_cents rate
                   in if tokens \<le> 0 then ret ()
                      else then_do (on_ledger_of (bind (lock_or_create_wallet (rf_referrer_user_id referral))
                             (\<lambda>wallet. modify (move_balance now wallet tokens ''referral_bonus''))))
                        (modify (\<lambda>s. s\<lparr>referral_earnings := referral_earnings s @
                           [\<lparr>ern_referral_id = rf_id referral, ern_source_id = source_id,
                             ern_referred_user_id = referred,
                             ern_referrer_user_id = rf_referrer_user_id referral,
                             ern_tokens_credited = tokens,
                             ern_usd_equivalent_cents = dec_floor (bonus_cents amount_cents),
                             ern_created_at = now\<rparr>]\<rparr>))))))"

record referral_summary =
  rsm_referral_code :: string
  rsm_total_referrals :: nat
  rsm_total_tokens_earned :: int
  rsm_recent_earnings :: "earning_row list"

definition referral_summary_of ::
    "(nat \<Rightarrow> string) \<Rightarrow> nat \<Rightarrow> ('z referral_db_scheme, referral_summary) handler" where
  "referral_summary_of generate uid =
     bind (ensure_referral_code generate uid) (\<lambda>code.
     gets (\<lambda>s. let mine = filter (\<lambda>e. ern_referrer_user_id e = uid) (referral_earnings s)
       in \<lparr>rsm_referral_code = code,
           rsm_total_referrals = length (filter (\<lambda>r. rf_referrer_user_id r = uid) (referrals s)),
           rsm_total_tokens_earned = sum_list (map ern_tokens_credited mine),
           rsm_recent_earnings = take 20 (rev (sort_key ern_created_at mine))\<rparr>))"

end
