(* ===== verification/Billing.thy ===== *)
theory Billing
  imports Referrals ApiUsage Miners
begin

text \<open>
  Payments of the control plane: \<^verbatim>\<open>app/billing/service.py\<close> and the webhook route. Stripe itself is the
  parameter \<open>stripe_api\<close>; its objects are records of the fields the service reads, a missing or
  empty field is \<open>None\<close>. Descriptions of billing events, which are text for the user, are left out.
\<close>

section \<open>Objects of Stripe\<close>

text \<open>An identifier of ours in a metadata field, parsed by \<open>uuid.UUID\<close>.\<close>

datatype id_text = Uuid nat | Malformed

record stripe_item =
  si_id :: "string option"
  si_price_id :: "string option"
  si_plan_id :: "string option"
  si_current_period_start :: "int option"
  si_current_period_end :: "int option"

record stripe_subscription =
  ss_id :: string
  ss_customer :: "string option"
  ss_meta_user_id :: "id_text option"
  ss_meta_plan_id :: "id_text option"
  ss_status :: "string option"
  ss_items :: "stripe_item list"
  ss_current_period_start :: "int option"
  ss_current_period_end :: "int option"
  ss_cancel_at_period_end :: bool

datatype subscription_ref = SubscriptionId string | ExpandedSubscription stripe_subscription

record checkout_object =
  co_id :: "string option"
  co_status :: "string option"
  co_purpose :: "string option"
  co_meta_user_id :: "id_text option"
  co_meta_tokens :: "string option"
  co_meta_usd_cents :: "string option"
  co_client_reference_id :: "id_text option"
  co_customer :: "string option"
  co_subscription :: "subscription_ref option"
  co_payment_intent :: "string option"

record stripe_invoice =
  iv_id :: "string option"
  iv_subscription :: "string option"
  iv_amount_paid :: "int option"
  iv_amount_due :: "int option"
  iv_currency :: "string option"
  iv_billing_reason :: "string option"

text \<open>The object of an event by its type.\<close>

datatype stripe_payload =
    CheckoutCompleted checkout_object
  | SubscriptionEvent string stripe_subscription
  | InvoiceEvent string stripe_invoice
  | OtherEvent string

primrec payload_type :: "stripe_payload \<Rightarrow> string" where
  "payload_type (CheckoutCompleted c) = ''checkout.session.completed''"
| "payload_type (SubscriptionEvent t sub) = t"
| "payload_type (InvoiceEvent t invoice) = t"
| "payload_type (OtherEvent t) = t"

record stripe_event =
  sv_id :: string
  sv_payload :: stripe_payload

record checkout_args =
  ca_customer_id :: string
  ca_price_id :: string
  ca_user_id :: nat
  ca_plan_id :: nat

record topup_args =
  ta_customer_id :: string
  ta_user_id :: nat
  ta_bundle_id :: string
  ta_usd_cents :: int
  ta_tokens :: int

record price_change =
  pc_subscription_id :: string
  pc_item_id :: string
  pc_price_id :: string
  pc_user_id :: nat
  pc_plan_id :: nat

text \<open>The calls of \<^verbatim>\<open>StripeClient\<close>, each of which may raise.\<close>

record stripe_api =
  sa_construct_event :: "string \<Rightarrow> string \<Rightarrow> error + stripe_event"
  sa_create_customer :: "nat \<Rightarrow> error + string"
  sa_create_checkout :: "checkout_args \<Rightarrow> error + string \<times> string"
  sa_create_topup :: "topup_args \<Rightarrow> error + string \<times> string"
  sa_retrieve_checkout :: "string \<Rightarrow> error + checkout_object"
  sa_retrieve_subscription :: "string \<Rightarrow> error + stripe_subscription"
  sa_update_price :: "price_change \<Rightarrow> error + stripe_subscription"
  sa_cancel :: "string \<Rightarrow> bool \<Rightarrow> error + stripe_subscription"
  sa_create_portal :: "string \<Rightarrow> error + string \<times> string"

definition first_subscription_item :: "stripe_subscription \<Rightarrow> stripe_item option" where
  "first_subscription_item sub = (case ss_items sub of [] \<Rightarrow> None | i # _ \<Rightarrow> Some i)"

definition subscription_price_id :: "stripe_subscription \<Rightarrow> string option" where
  "subscription_price_id sub =
     (case first_subscription_item sub of None \<Rightarrow> None
      | Some item \<Rightarrow> (case si_price_id item of Some p \<Rightarrow> Some p | None \<Rightarrow> si_plan_id item))"

definition stripe_timestamp :: "int option \<Rightarrow> time option" where
  "stripe_timestamp = map_option (\<lambda>n. 62135596800000000 + n * 1000000)"

definition subscription_item_period ::
    "stripe_subscription \<Rightarrow> (stripe_subscription \<Rightarrow> int option) \<Rightarrow> (stripe_item \<Rightarrow> int option) \<Rightarrow> time option"
  where
  "subscription_item_period sub own item_key =
     (if own sub \<noteq> None then stripe_timestamp (own sub)
      else case first_subscription_item sub of None \<Rightarrow> None | Some item \<Rightarrow> stripe_timestamp (item_key item))"

section \<open>Tables\<close>

record billing_account =
  ba_user_id :: nat
  ba_stripe_customer_id :: "string option"
  ba_pending_checkout_session_id :: "string option"
  ba_pending_checkout_session_created_at :: "time option"

record webhook_event =
  we_stripe_event_id :: string
  we_event_type :: string
  we_processed_at :: "time option"

record billing_event =
  be_user_id :: nat
  be_event_type :: string
  be_plan_name :: "string option"
  be_amount_cents :: "int option"
  be_currency :: "string option"
  be_tokens :: "int option"
  be_stripe_reference :: "string option"
  be_created_at :: time

record billing_db = referral_db +
  billing_accounts :: "billing_account list"
  webhook_events :: "webhook_event list"
  billing_events :: "billing_event list"

record billing_env =
  bv_now :: time
  bv_config :: catalogue_settings
  bv_stripe :: stripe_api

text \<open>Both are an \<open>IntegrityError\<close>, but one outside of a savepoint leaves the session unusable.\<close>

definition savepoint_failed :: error where "savepoint_failed = PyExc ''IntegrityError''"

definition flush_failed :: error where "flush_failed = PyExc ''IntegrityError of the session''"

definition pending_rollback :: error where "pending_rollback = PyExc ''PendingRollbackError''"

definition value_error :: error where "value_error = PyExc ''ValueError''"

fun parse_uuid :: "id_text \<Rightarrow> error + nat" where
  "parse_uuid (Uuid n) = Inr n"
| "parse_uuid Malformed = Inl value_error"

definition py_int_text :: "string \<Rightarrow> error + int" where
  "py_int_text t = (case int_of_text t of None \<Rightarrow> Inl value_error | Some n \<Rightarrow> Inr n)"

definition find_user :: "nat \<Rightarrow> 'z referral_db_scheme \<Rightarrow> user_row option" where
  "find_user uid s = find (\<lambda>u. usr_id u = uid) (users (rd_ledger s))"

definition find_plan :: "nat \<Rightarrow> 'z referral_db_scheme \<Rightarrow> billing_plan_row option" where
  "find_plan pid s = find (\<lambda>p. plan_id p = pid) (billing_plans (rd_ledger s))"

definition find_account :: "nat \<Rightarrow> (billing_db, billing_account option) handler" where
  "find_account uid = select_one_or_none (\<lambda>s. filter (\<lambda>a. ba_user_id a = uid) (billing_accounts s))"

text \<open>Adding or updating an account: the user exists and its customer belongs to no other account.\<close>

definition save_account :: "billing_account \<Rightarrow> (billing_db, unit) handler" where
  "save_account a =
     bind (gets (\<lambda>s. (ba_user_id a \<in> ba_user_id ` set (billing_accounts s) \<or> find_user (ba_user_id a) s \<noteq> None) \<and>
         \<not> list_ex (\<lambda>b. ba_user_id b \<noteq> ba_user_id a \<and> ba_stripe_customer_id b \<noteq> None \<and>
              ba_stripe_customer_id b = ba_stripe_customer_id a) (billing_accounts s)))
       (\<lambda>ok. then_do (guard_or ok flush_failed)
         (modify (\<lambda>s. s\<lparr>billing_accounts :=
            (if ba_user_id a \<in> ba_user_id ` set (billing_accounts s)
             then replace_by ba_user_id a (billing_accounts s) else billing_accounts s @ [a])\<rparr>)))"

definition new_account :: "nat \<Rightarrow> billing_account" where
  "new_account uid = \<lparr>ba_user_id = uid, ba_stripe_customer_id = None,
     ba_pending_checkout_session_id = None, ba_pending_checkout_session_created_at = None\<rparr>"

definition upsert_billing_account :: "nat \<Rightarrow> string \<Rightarrow> (billing_db, unit) handler" where
  "upsert_billing_account uid customer =
     bind (find_account uid) (\<lambda>found.
       save_account ((case found of None \<Rightarrow> new_account uid | Some a \<Rightarrow> a)\<lparr>ba_stripe_customer_id := Some customer\<rparr>))"

definition ensure_billing_account :: "billing_env \<Rightarrow> nat \<Rightarrow> (billing_db, billing_account) handler" where
  "ensure_billing_account env uid =
     bind (find_account uid) (\<lambda>found.
     bind (let a = (case found of None \<Rightarrow> new_account uid | Some a \<Rightarrow> a)
           in if is_falsy (ba_stripe_customer_id a)
              then bind (of_result (sa_create_customer (bv_stripe env) uid))
                (\<lambda>customer. ret (a\<lparr>ba_stripe_customer_id := Some customer\<rparr>))
              else ret a)
       (\<lambda>a. then_do (save_account a) (ret a)))"

section \<open>Plans and checkout\<close>

definition tests_plan :: "billing_plan_row \<Rightarrow> bool" where
  "tests_plan p = looks_like_test_plan (Some (plan_slug p)) (Some (plan_name p))
     (plan_stripe_price_id p) (plan_stripe_annual_price_id p)"

definition seed_catalogue :: "billing_env \<Rightarrow> ('z referral_db_scheme, unit) handler" where
  "seed_catalogue env = on_ledger_of (catalogue_seed_plans (bv_config env))"

definition list_plans :: "billing_env \<Rightarrow> (billing_db, billing_plan_row list) handler" where
  "list_plans env =
     then_do (seed_catalogue env)
       (gets (\<lambda>s. filter (\<lambda>p. \<not> tests_plan p)
          (sort_key (\<lambda>p. (plan_sort_order p, plan_monthly_token_allowance p))
            (filter (\<lambda>p. plan_active p \<and> plan_visible p) (billing_plans (rd_ledger s))))))"

definition plan_and_price ::
    "billing_env \<Rightarrow> nat \<Rightarrow> string \<Rightarrow> (billing_db, billing_plan_row \<times> string) handler" where
  "plan_and_price env pid interval =
     then_do (seed_catalogue env)
    (bind (gets (find_plan pid)) (\<lambda>found. case found of
       None \<Rightarrow> raise not_found
     | Some plan \<Rightarrow>
         then_do (guard_or (plan_active plan \<and> plan_visible plan \<and> \<not> tests_plan plan) not_found)
        (then_do (guard_or (interval = ''month'' \<or> interval = ''year'') (bad_request ''invalid_interval''))
           (let price = (if interval = ''year'' then plan_stripe_annual_price_id plan else plan_stripe_price_id plan)
            in then_do (guard_or (\<not> is_falsy price) (bad_request ''stripe_price_missing''))
                 (ret (plan, the price))))))"

definition live_subscription :: "nat \<Rightarrow> (billing_db, subscription_row option) handler" where
  "live_subscription uid = select_one_or_none (\<lambda>s. filter (\<lambda>r. sub_user_id r = uid \<and>
     (sub_status r = ''active'' \<or> sub_status r = ''trialing'')) (user_subscriptions (rd_ledger s)))"

definition pending_checkout_stale_after :: time where
  "pending_checkout_stale_after = 30 * 60 * 1000000"

definition clear_marker :: "billing_account \<Rightarrow> billing_account" where
  "clear_marker a = a\<lparr>ba_pending_checkout_session_id := None, ba_pending_checkout_session_created_at := None\<rparr>"

definition reject_if_checkout_pending :: "billing_env \<Rightarrow> billing_account \<Rightarrow> (billing_db, billing_account) handler" where
  "reject_if_checkout_pending env a =
     (if is_falsy (ba_pending_checkout_session_id a) then ret a
      else let status = (case sa_retrieve_checkout (bv_stripe env) (the (ba_pending_checkout_session_id a)) of
                 Inl _ \<Rightarrow> None | Inr existing \<Rightarrow> co_status existing)
        in if status = Some ''open'' then raise (bad_request ''checkout_session_pending'')
           else if status = Some ''complete'' \<or> status = Some ''expired''
             then then_do (save_account (clear_marker a)) (ret (clear_marker a))
           else case ba_pending_checkout_session_created_at a of
             Some created \<Rightarrow>
               if bv_now env - created < pending_checkout_stale_after
               then raise (bad_request ''checkout_session_pending'')
               else then_do (save_account (clear_marker a)) (ret (clear_marker a))
           | None \<Rightarrow> then_do (save_account (clear_marker a)) (ret (clear_marker a)))"

definition create_checkout_session ::
    "billing_env \<Rightarrow> nat \<Rightarrow> nat \<Rightarrow> string \<Rightarrow> (billing_db, string \<times> string) handler" where
  "create_checkout_session env uid pid interval =
     bind (plan_and_price env pid interval) (\<lambda>(plan, price).
     bind (live_subscription uid) (\<lambda>active.
     then_do (guard_or (active = None) (bad_request ''subscription_exists''))
    (bind (ensure_billing_account env uid) (\<lambda>a.
     bind (reject_if_checkout_pending env a) (\<lambda>a.
     bind (of_result (sa_create_checkout (bv_stripe env)
         \<lparr>ca_customer_id = or_empty (ba_stripe_customer_id a), ca_price_id = price,
          ca_user_id = uid, ca_plan_id = plan_id plan\<rparr>)) (\<lambda>session.
     then_do (save_account (a\<lparr>ba_pending_checkout_session_id := Some (fst session),
                ba_pending_checkout_session_created_at := Some (bv_now env)\<rparr>))
       (ret session)))))))"

definition create_wallet_checkout_session ::
    "billing_env \<Rightarrow> nat \<Rightarrow> string option \<Rightarrow> int option \<Rightarrow> (billing_db, string \<times> string) handler" where
  "create_wallet_checkout_session env uid bundle usd_cents =
     bind (case usd_cents of
         Some cents \<Rightarrow> bind (of_result (custom_wallet_topup cents)) (\<lambda>b. ret (Some b))
       | None \<Rightarrow> ret (wallet_topup_bundle (or_empty bundle)))
       (\<lambda>found. case found of
          None \<Rightarrow> raise (bad_request ''unknown_wallet_bundle'')
        | Some b \<Rightarrow>
            bind (ensure_billing_account env uid) (\<lambda>a.
              of_result (sa_create_topup (bv_stripe env)
                \<lparr>ta_customer_id = or_empty (ba_stripe_customer_id a), ta_user_id = uid,
                 ta_bundle_id = bundle_id b, ta_usd_cents = bundle_usd_cents b, ta_tokens = bundle_tokens b\<rparr>)))"

definition get_wallet_balance :: "nat \<Rightarrow> (billing_db, int) handler" where
  "get_wallet_balance uid =
     bind (select_one_or_none (\<lambda>s. filter (\<lambda>w. wal_user_id w = uid) (user_wallets (rd_ledger s))))
       (\<lambda>found. ret (case found of None \<Rightarrow> 0 | Some w \<Rightarrow> wal_balance_tokens w))"

definition create_customer_portal_session :: "billing_env \<Rightarrow> nat \<Rightarrow> (billing_db, string \<times> string) handler" where
  "create_customer_portal_session env uid =
     bind (ensure_billing_account env uid) (\<lambda>a.
       of_result (sa_create_portal (bv_stripe env) (or_empty (ba_stripe_customer_id a))))"

section \<open>Billing history\<close>

definition record_billing_event :: "billing_event \<Rightarrow> bool \<Rightarrow> (billing_db, unit) handler" where
  "record_billing_event e dedupe =
     bind (gets (\<lambda>s. dedupe \<and> \<not> is_falsy (be_stripe_reference e) \<and>
         list_ex (\<lambda>b. be_user_id b = be_user_id e \<and> be_event_type b = be_event_type e \<and>
           be_stripe_reference b = be_stripe_reference e) (billing_events s)))
       (\<lambda>already. if already then ret () else modify (\<lambda>s. s\<lparr>billing_events := billing_events s @ [e]\<rparr>))"

definition billing_history :: "nat \<Rightarrow> nat \<Rightarrow> nat \<Rightarrow> billing_db \<Rightarrow> billing_event list \<times> nat" where
  "billing_history uid limit offset s =
     (let mine = filter (\<lambda>e. be_user_id e = uid) (billing_events s)
      in (take limit (drop offset (rev (sort_key be_created_at mine))), length mine))"

text \<open>The plan's name, list price, currency and interval for a price.\<close>

definition plan_details ::
    "nat option \<Rightarrow> string option \<Rightarrow> billing_db \<Rightarrow> string option \<times> int option \<times> string option \<times> string option" where
  "plan_details pid price s =
     (case Option.bind pid (\<lambda>i. find_plan i s) of
        None \<Rightarrow> (None, None, None, None)
      | Some plan \<Rightarrow>
          if \<not> is_falsy price \<and> price = plan_stripe_annual_price_id plan
          then (Some (plan_name plan), plan_annual_price_cents plan, Some (plan_currency plan), Some ''year'')
          else if \<not> is_falsy price \<and> price = plan_stripe_price_id plan
          then (Some (plan_name plan), Some (plan_price_cents plan), Some (plan_currency plan), Some ''month'')
          else (Some (plan_name plan), None, Some (plan_currency plan), None))"

definition history_entry ::
    "time \<Rightarrow> subscription_row \<Rightarrow> billing_db \<Rightarrow> string \<Rightarrow> bool \<Rightarrow> billing_event" where
  "history_entry now current s kind priced =
     (case plan_details (sub_plan_id current) (sub_stripe_price_id current) s of
        (name, amount, currency, _) \<Rightarrow>
          \<lparr>be_user_id = sub_user_id current, be_event_type = kind, be_plan_name = name,
           be_amount_cents = (if priced then amount else None), be_currency = currency, be_tokens = None,
           be_stripe_reference = sub_stripe_subscription_id current, be_created_at = now\<rparr>)"

definition active_statuses :: "string list" where
  "active_statuses = [''active'', ''trialing'']"

definition ongoing_statuses :: "string list" where
  "ongoing_statuses = [''active'', ''trialing'', ''past_due'', ''unpaid'']"

text \<open>What a sync changed for the user, as the kinds of entries with whether they carry the price.\<close>

definition subscription_changes :: "subscription_row option \<Rightarrow> subscription_row \<Rightarrow> (string \<times> bool) list" where
  "subscription_changes previous current =
     (let is_active = sub_status current \<in> set active_statuses;
          same = (case previous of None \<Rightarrow> False
            | Some p \<Rightarrow> sub_stripe_subscription_id p = sub_stripe_subscription_id current)
      in if is_active \<and> (\<not> same \<or> previous = None \<or> sub_status (the previous) \<notin> set ongoing_statuses)
         then [(''subscription_created'', True)]
         else if sub_status current = ''canceled''
         then (if previous = None \<or> sub_status (the previous) \<noteq> ''canceled'' \<or> \<not> same
               then [(''subscription_canceled'', False)] else [])
         else if \<not> (is_active \<and> same \<and> previous \<noteq> None) then []
         else (if (sub_plan_id (the previous), sub_stripe_price_id (the previous))
                    \<noteq> (sub_plan_id current, sub_stripe_price_id current)
               then [(''subscription_updated'', True)] else []) @
              (if sub_cancel_at_period_end current \<and> \<not> sub_cancel_at_period_end (the previous)
               then [(''subscription_cancel_scheduled'', False)]
               else if sub_cancel_at_period_end (the previous) \<and> \<not> sub_cancel_at_period_end current
               then [(''subscription_reactivated'', False)] else []))"

definition record_subscription_changes ::
    "time \<Rightarrow> subscription_row option \<Rightarrow> subscription_row \<Rightarrow> (billing_db, unit) handler" where
  "record_subscription_changes now previous current =
     for_each (\<lambda>(kind, priced). bind (gets (\<lambda>s. history_entry now current s kind priced))
         (\<lambda>e. record_billing_event e False))
       (subscription_changes previous current)"

section \<open>Subscriptions\<close>

definition plan_id_for_subscription ::
    "billing_env \<Rightarrow> stripe_subscription \<Rightarrow> string option \<Rightarrow> (billing_db, nat option) handler" where
  "plan_id_for_subscription env sub price =
     bind (if is_falsy price then ret None
           else then_do (seed_catalogue env)
             (select_one_or_none (\<lambda>s. filter (\<lambda>p. plan_stripe_price_id p = price \<or>
                plan_stripe_annual_price_id p = price) (billing_plans (rd_ledger s)))))
       (\<lambda>plan. case plan of
          Some p \<Rightarrow> ret (Some (plan_id p))
        | None \<Rightarrow> (case ss_meta_plan_id sub of None \<Rightarrow> ret None
            | Some i \<Rightarrow> bind (of_result (parse_uuid i)) (\<lambda>pid. ret (Some pid))))"

definition subscription_user :: "stripe_subscription \<Rightarrow> (billing_db, id_text option) handler" where
  "subscription_user sub =
     (if ss_meta_user_id sub = None \<and> ss_customer sub \<noteq> None
      then bind (select_one_or_none (\<lambda>s. filter (\<lambda>a. ba_stripe_customer_id a = ss_customer sub) (billing_accounts s)))
        (\<lambda>found. ret (map_option (\<lambda>a. Uuid (ba_user_id a)) found))
      else ret (ss_meta_user_id sub))"

definition synced_row :: "stripe_subscription \<Rightarrow> nat option \<Rightarrow> subscription_row \<Rightarrow> subscription_row" where
  "synced_row sub pid r = r\<lparr>sub_stripe_price_id := subscription_price_id sub, sub_plan_id := pid,
     sub_status := (case ss_status sub of None \<Rightarrow> ''unknown'' | Some v \<Rightarrow> v),
     sub_current_period_start := subscription_item_period sub ss_current_period_start si_current_period_start,
     sub_current_period_end := subscription_item_period sub ss_current_period_end si_current_period_end,
     sub_cancel_at_period_end := ss_cancel_at_period_end sub\<rparr>"

definition put_subscription :: "subscription_row \<Rightarrow> ledger \<Rightarrow> ledger" where
  "put_subscription r = user_subscriptions_update (replace_by sub_id r)"

definition add_subscription :: "subscription_row \<Rightarrow> ledger \<Rightarrow> ledger" where
  "add_subscription r l = l\<lparr>user_subscriptions := user_subscriptions l @ [r\<lparr>sub_id := next_id l\<rparr>],
     next_id := Suc (next_id l)\<rparr>"

definition blank_subscription :: "nat \<Rightarrow> nat \<Rightarrow> subscription_row" where
  "blank_subscription i uid = \<lparr>sub_id = i, sub_user_id = uid, sub_plan_id = None, sub_status = ''free'',
     sub_current_period_start = None, sub_current_period_end = None,
     sub_stripe_subscription_id = None, sub_stripe_price_id = None, sub_cancel_at_period_end = False\<rparr>"

text \<open>The write of the row. A new row is inserted inside the savepoint: when the subscription is already stored
  for another user it violates the unique index and gives way to the stored one, whose history is the
  winner's; a user or a plan that does not exist fails there. The changes of an existing row are pending when
  \<open>begin_nested\<close> is entered, which flushes them before the savepoint: what violates a constraint
  then fails outside of it.\<close>

definition write_subscription ::
    "stripe_subscription \<Rightarrow> nat option \<Rightarrow> nat \<Rightarrow> subscription_row option \<Rightarrow>
     (billing_db, subscription_row \<times> bool) handler" where
  "write_subscription sub pid uid existing =
     bind (gets (\<lambda>s. find (\<lambda>r. sub_stripe_subscription_id r = Some (ss_id sub) \<and>
              (case existing of None \<Rightarrow> True | Some e \<Rightarrow> sub_id r \<noteq> sub_id e)) (user_subscriptions (rd_ledger s))))
       (\<lambda>holder.
     bind (gets (\<lambda>s. holder = None \<and> (existing = None \<longrightarrow> find_user uid s \<noteq> None) \<and>
              (case pid of None \<Rightarrow> True | Some p \<Rightarrow> find_plan p s \<noteq> None)))
       (\<lambda>ok. case existing of
          Some e \<Rightarrow>
            (let row = (synced_row sub pid e)\<lparr>sub_stripe_subscription_id := Some (ss_id sub)\<rparr>
             in then_do (guard_or ok flush_failed)
                 (then_do (on_ledger_of (modify (put_subscription row))) (ret (row, True))))
        | None \<Rightarrow>
            if ok then
              bind (gets (\<lambda>s. (synced_row sub pid (blank_subscription (next_id (rd_ledger s)) uid))
                       \<lparr>sub_stripe_subscription_id := Some (ss_id sub)\<rparr>))
                (\<lambda>row. then_do (on_ledger_of (modify (add_subscription row))) (ret (row, True)))
            else (case holder of
                None \<Rightarrow> raise savepoint_failed
              | Some e \<Rightarrow> (let row = synced_row sub pid e
                  in then_do (on_ledger_of (modify (put_subscription row))) (ret (row, False))))))"

definition refresh_user :: "billing_env \<Rightarrow> nat \<Rightarrow> (billing_db, unit) handler" where
  "refresh_user env uid =
     bind (gets (find_user uid)) (\<lambda>user. case user of None \<Rightarrow> ret ()
       | Some u \<Rightarrow> on_ledger_of (bind (api_recalculate_current_period (bv_config env) (bv_now env) u) (\<lambda>_. ret ())))"

definition sync_for_user ::
    "billing_env \<Rightarrow> stripe_subscription \<Rightarrow> nat \<Rightarrow> (billing_db, subscription_row option) handler" where
  "sync_for_user env sub uid =
     then_do (case ss_customer sub of None \<Rightarrow> ret () | Some c \<Rightarrow> upsert_billing_account uid c)
    (bind (plan_id_for_subscription env sub (subscription_price_id sub)) (\<lambda>pid.
     bind (select_one_or_none (\<lambda>s. filter (\<lambda>r. sub_user_id r = uid) (user_subscriptions (rd_ledger s)))) (\<lambda>existing.
     bind (write_subscription sub pid uid existing) (\<lambda>(current, record_history).
     then_do (refresh_user env uid)
    (then_do (if record_history then record_subscription_changes (bv_now env) existing current else ret ())
       (ret (Some current)))))))"

definition sync_subscription_object ::
    "billing_env \<Rightarrow> stripe_subscription \<Rightarrow> (billing_db, subscription_row option) handler" where
  "sync_subscription_object env sub =
     bind (subscription_user sub) (\<lambda>user_value. case user_value of None \<Rightarrow> ret None
       | Some v \<Rightarrow> bind (of_result (parse_uuid v)) (sync_for_user env sub))"

definition sync_subscription ::
    "billing_env \<Rightarrow> subscription_ref \<Rightarrow> (billing_db, subscription_row option) handler" where
  "sync_subscription env ref =
     (case ref of ExpandedSubscription sub \<Rightarrow> sync_subscription_object env sub
      | SubscriptionId i \<Rightarrow> bind (of_result (sa_retrieve_subscription (bv_stripe env) i)) (sync_subscription_object env))"

definition clear_pending_checkout :: "nat \<Rightarrow> string option \<Rightarrow> (billing_db, unit) handler" where
  "clear_pending_checkout uid session_id =
     (if session_id = None then ret ()
      else bind (find_account uid) (\<lambda>found. case found of
         Some a \<Rightarrow> if ba_pending_checkout_session_id a = session_id then save_account (clear_marker a) else ret ()
       | None \<Rightarrow> ret ()))"

definition checkout_owner :: "checkout_object \<Rightarrow> id_text option" where
  "checkout_owner c = (if co_meta_user_id c \<noteq> None then co_meta_user_id c else co_client_reference_id c)"

definition sync_checkout_session :: "billing_env \<Rightarrow> checkout_object \<Rightarrow> (billing_db, unit) handler" where
  "sync_checkout_session env c =
     then_do (case checkout_owner c of None \<Rightarrow> ret ()
        | Some v \<Rightarrow> bind (of_result (parse_uuid v)) (\<lambda>uid.
            then_do (case co_customer c of None \<Rightarrow> ret () | Some customer \<Rightarrow> upsert_billing_account uid customer)
              (clear_pending_checkout uid (co_id c))))
       (case co_subscription c of None \<Rightarrow> ret ()
        | Some ref \<Rightarrow> bind (sync_subscription env ref) (\<lambda>_. ret ()))"

record subscription_view =
  sbv_subscription :: subscription_row
  sbv_plan_name :: "string option"
  sbv_interval :: "string option"
  sbv_amount_cents :: "int option"
  sbv_currency :: "string option"

text \<open>\<open>None\<close> is the answer \<open>{"status": "free"}\<close>.\<close>

definition get_subscription :: "nat \<Rightarrow> (billing_db, subscription_row option) handler" where
  "get_subscription uid = select_one_or_none (\<lambda>s. filter (\<lambda>r. sub_user_id r = uid) (user_subscriptions (rd_ledger s)))"

definition subscription_response :: "nat \<Rightarrow> (billing_db, subscription_view option) handler" where
  "subscription_response uid =
     bind (get_subscription uid) (\<lambda>found. case found of None \<Rightarrow> ret None
       | Some r \<Rightarrow> gets (\<lambda>s. case plan_details (sub_plan_id r) (sub_stripe_price_id r) s of
           (name, amount, currency, interval) \<Rightarrow>
             Some \<lparr>sbv_subscription = r, sbv_plan_name = name, sbv_interval = interval,
                   sbv_amount_cents = amount, sbv_currency = currency\<rparr>))"

definition sync_checkout_session_by_id ::
    "billing_env \<Rightarrow> nat \<Rightarrow> string \<Rightarrow> (billing_db, subscription_view option) handler" where
  "sync_checkout_session_by_id env uid session_id =
     bind (of_result (sa_retrieve_checkout (bv_stripe env) session_id)) (\<lambda>c.
     bind (case checkout_owner c of None \<Rightarrow> raise forbidden | Some v \<Rightarrow> of_result (parse_uuid v)) (\<lambda>owner.
     then_do (guard_or (owner = uid) forbidden)
    (then_do (sync_checkout_session env c) (subscription_response uid))))"

definition change_subscription_plan ::
    "billing_env \<Rightarrow> nat \<Rightarrow> nat \<Rightarrow> string \<Rightarrow> (billing_db, subscription_row) handler" where
  "change_subscription_plan env uid pid interval =
     bind (plan_and_price env pid interval) (\<lambda>(plan, price).
     bind (live_subscription uid) (\<lambda>active. case active of
       None \<Rightarrow> raise (bad_request ''no_active_subscription'')
     | Some r \<Rightarrow>
         then_do (guard_or (\<not> is_falsy (sub_stripe_subscription_id r)) (bad_request ''no_active_subscription''))
        (then_do (guard_or (sub_stripe_price_id r \<noteq> Some price) (bad_request ''already_on_plan''))
        (bind (of_result (sa_retrieve_subscription (bv_stripe env) (the (sub_stripe_subscription_id r)))) (\<lambda>sub.
           case Option.bind (first_subscription_item sub) si_id of
             None \<Rightarrow> raise (bad_request ''stripe_item_missing'')
           | Some item \<Rightarrow>
               bind (of_result (sa_update_price (bv_stripe env)
                   \<lparr>pc_subscription_id = the (sub_stripe_subscription_id r), pc_item_id = item,
                    pc_price_id = price, pc_user_id = uid, pc_plan_id = plan_id plan\<rparr>)) (\<lambda>updated.
               bind (sync_subscription_object env updated) (\<lambda>synced.
                 ret (case synced of Some row \<Rightarrow> row | None \<Rightarrow> r))))))))"

definition cancel_subscription ::
    "billing_env \<Rightarrow> nat \<Rightarrow> bool \<Rightarrow> (billing_db, subscription_row) handler" where
  "cancel_subscription env uid at_period_end =
     bind (get_subscription uid) (\<lambda>found. case found of None \<Rightarrow> raise not_found
       | Some r \<Rightarrow>
         then_do (guard_or (\<not> is_falsy (sub_stripe_subscription_id r)) not_found)
        (bind (of_result (sa_cancel (bv_stripe env) (the (sub_stripe_subscription_id r)) at_period_end)) (\<lambda>sub.
         bind (sync_subscription_object env sub) (\<lambda>synced.
           ret (case synced of Some row \<Rightarrow> row | None \<Rightarrow> r)))))"

section \<open>Top-ups\<close>

definition purchase :: "time \<Rightarrow> wallet_row \<Rightarrow> int \<Rightarrow> string option \<Rightarrow> ledger \<Rightarrow> ledger" where
  "purchase now wallet tokens payment_intent =
     add_transaction \<lparr>wtx_user_id = wal_user_id wallet, wtx_delta_tokens = tokens, wtx_kind = ''purchase'',
        wtx_stripe_payment_intent_id = payment_intent, wtx_created_at = now\<rparr> \<circ>
     put_wallet (wallet\<lparr>wal_balance_tokens := wal_balance_tokens wallet + tokens\<rparr>)"

definition topup_event :: "time \<Rightarrow> nat \<Rightarrow> int \<Rightarrow> int option \<Rightarrow> string option \<Rightarrow> billing_event" where
  "topup_event now uid tokens cents payment_intent =
     \<lparr>be_user_id = uid, be_event_type = ''wallet_topup'', be_plan_name = None, be_amount_cents = cents,
      be_currency = (if cents = None then None else Some ''usd''), be_tokens = Some tokens,
      be_stripe_reference = payment_intent, be_created_at = now\<rparr>"

text \<open>The amount paid, recorded at checkout: \<open>0\<close> where the field is missing.\<close>

definition paid_cents :: "string option \<Rightarrow> error + int" where
  "paid_cents field = (case field of None \<Rightarrow> Inr 0 | Some t \<Rightarrow> py_int_text t)"

definition book_purchase ::
    "time \<Rightarrow> nat \<Rightarrow> int \<Rightarrow> string option \<Rightarrow> checkout_object \<Rightarrow> (billing_db, unit) handler" where
  "book_purchase now uid tokens payment_intent c =
     then_do (on_ledger_of (bind (lock_or_create_wallet uid) (\<lambda>wallet.
         modify (purchase now wallet tokens payment_intent))))
    (bind (of_result (paid_cents (co_meta_usd_cents c))) (\<lambda>cents.
     then_do (record_billing_event
         (topup_event now uid tokens (if co_meta_usd_cents c = None then None else Some cents) payment_intent) True)
       (if cents > 0 \<and> payment_intent \<noteq> None
        then credit_for_payment now uid cents (the payment_intent) (dec_div (cents, 0) (tokens, 0))
        else ret ())))"

text \<open>The owner of a top-up is taken to exist, as the checkout that the code opens names its caller; the insert
  of a wallet for anyone else would violate its foreign key.\<close>

definition credit_wallet_topup :: "time \<Rightarrow> checkout_object \<Rightarrow> (billing_db, unit) handler" where
  "credit_wallet_topup now c =
     (case (checkout_owner c, co_meta_tokens c) of
        (Some v, Some t) \<Rightarrow>
          bind (of_result (py_int_text t)) (\<lambda>tokens.
            if tokens \<le> 0 then ret ()
            else bind (of_result (parse_uuid v)) (\<lambda>uid.
              bind (if co_payment_intent c = None then ret None
                    else select_one_or_none (\<lambda>s. filter (\<lambda>t. wtx_stripe_payment_intent_id t = co_payment_intent c \<and>
                        wtx_kind t = ''purchase'') (wallet_transactions (rd_ledger s))))
                (\<lambda>existing. if existing \<noteq> None then ret ()
                  else book_purchase now uid tokens (co_payment_intent c) c)))
      | _ \<Rightarrow> ret ())"

section \<open>Invoices\<close>

definition plan_rate_cents_per_token :: "billing_plan_row option \<Rightarrow> decimal option" where
  "plan_rate_cents_per_token plan =
     (case plan of None \<Rightarrow> None
      | Some p \<Rightarrow> if plan_price_cents p \<le> 0 \<or> plan_monthly_token_allowance p \<le> 0 then None
          else Some (dec_div (plan_price_cents p, 0) (plan_monthly_token_allowance p, 0)))"

definition fallback_referral_rate :: "(billing_db, decimal option) handler" where
  "fallback_referral_rate =
     bind (select_one_or_none (\<lambda>s. filter (\<lambda>p. plan_slug p = ''business'' \<or> plan_name p = ''Business'')
         (billing_plans (rd_ledger s))))
       (\<lambda>plan. ret (plan_rate_cents_per_token plan))"

definition credit_referral_for_invoice ::
    "time \<Rightarrow> stripe_invoice \<Rightarrow> subscription_row \<Rightarrow> (billing_db, unit) handler" where
  "credit_referral_for_invoice now invoice r =
     (if iv_id invoice = None \<or> iv_amount_paid invoice = None \<or> iv_amount_paid invoice = Some 0 then ret ()
      else bind (gets (\<lambda>s. plan_rate_cents_per_token (Option.bind (sub_plan_id r) (\<lambda>i. find_plan i s))))
        (\<lambda>rate. bind (case rate of Some x \<Rightarrow> ret (Some x) | None \<Rightarrow> fallback_referral_rate)
        (\<lambda>rate. case rate of None \<Rightarrow> ret ()
          | Some x \<Rightarrow> credit_for_payment now (sub_user_id r) (the (iv_amount_paid invoice)) (the (iv_id invoice)) x)))"

definition subscription_by_stripe_id :: "string \<Rightarrow> (billing_db, subscription_row option) handler" where
  "subscription_by_stripe_id i =
     select_one_or_none (\<lambda>s. filter (\<lambda>r. sub_stripe_subscription_id r = Some i) (user_subscriptions (rd_ledger s)))"

definition mark_subscription_status :: "string \<Rightarrow> string \<Rightarrow> (billing_db, unit) handler" where
  "mark_subscription_status i status =
     bind (subscription_by_stripe_id i) (\<lambda>found. case found of None \<Rightarrow> ret ()
       | Some r \<Rightarrow> on_ledger_of (modify (put_subscription (r\<lparr>sub_status := status\<rparr>))))"

definition invoice_entry ::
    "time \<Rightarrow> stripe_invoice \<Rightarrow> subscription_row \<Rightarrow> billing_db \<Rightarrow> string \<Rightarrow> int option \<Rightarrow> billing_event" where
  "invoice_entry now invoice r s kind amount =
     (case plan_details (sub_plan_id r) (sub_stripe_price_id r) s of (name, _, listed, _) \<Rightarrow>
        \<lparr>be_user_id = sub_user_id r, be_event_type = kind, be_plan_name = name, be_amount_cents = amount,
         be_currency = Some (if \<not> is_falsy (iv_currency invoice) then the (iv_currency invoice)
           else if \<not> is_falsy listed then the listed else ''usd''),
         be_tokens = None, be_stripe_reference = iv_id invoice, be_created_at = now\<rparr>)"

definition record_invoice_event ::
    "time \<Rightarrow> stripe_invoice \<Rightarrow> string \<Rightarrow> subscription_row option \<Rightarrow> (billing_db, unit) handler" where
  "record_invoice_event now invoice event_type subscription =
     (if iv_id invoice = None then ret ()
      else bind (case subscription of Some r \<Rightarrow> ret (Some r)
            | None \<Rightarrow> subscription_by_stripe_id (case iv_subscription invoice of None \<Rightarrow> ''None'' | Some i \<Rightarrow> i))
        (\<lambda>found. case found of None \<Rightarrow> ret ()
          | Some r \<Rightarrow>
              let entry = (\<lambda>kind amount. bind (gets (\<lambda>s. invoice_entry now invoice r s kind amount))
                    (\<lambda>e. record_billing_event e True));
                  amount_paid = (case iv_amount_paid invoice of None \<Rightarrow> 0 | Some n \<Rightarrow> n)
              in if event_type = ''invoice.payment_failed'' then entry ''payment_failed'' (iv_amount_due invoice)
                 else if event_type \<noteq> ''invoice.paid'' then ret ()
                 else if iv_billing_reason invoice = Some ''subscription_cycle''
                   then entry ''subscription_renewed'' (Some amount_paid)
                 else if iv_billing_reason invoice \<noteq> Some ''subscription_create'' \<and> amount_paid > 0
                   then entry ''subscription_payment'' (Some amount_paid)
                 else ret ()))"

text \<open>The \<open>except Exception\<close> around the look-up at Stripe and the sync.\<close>

definition sync_invoice_subscription ::
    "billing_env \<Rightarrow> stripe_invoice \<Rightarrow> string \<Rightarrow> (billing_db, unit) handler" where
  "sync_invoice_subscription env invoice event_type =
     (case iv_subscription invoice of None \<Rightarrow> ret ()
      | Some i \<Rightarrow>
          on_error (bind (of_result (sa_retrieve_subscription (bv_stripe env) i)) (sync_subscription_object env))
            (\<lambda>e. if e = flush_failed then raise pending_rollback
                 else if event_type = ''invoice.payment_failed''
                 then then_do (mark_subscription_status i ''past_due'')
                        (record_invoice_event (bv_now env) invoice event_type None)
                 else ret ())
            (\<lambda>synced. then_do (record_invoice_event (bv_now env) invoice event_type synced)
               (case synced of Some r \<Rightarrow>
                  if event_type = ''invoice.paid'' then credit_referral_for_invoice (bv_now env) invoice r else ret ()
                | None \<Rightarrow> ret ())))"

section \<open>The webhook\<close>

definition subscription_event_types :: "string list" where
  "subscription_event_types =
     [''customer.subscription.created'', ''customer.subscription.updated'', ''customer.subscription.deleted'']"

definition invoice_event_types :: "string list" where
  "invoice_event_types = [''invoice.paid'', ''invoice.payment_failed'', ''invoice.updated'']"

definition apply_event :: "billing_env \<Rightarrow> stripe_payload \<Rightarrow> (billing_db, unit) handler" where
  "apply_event env payload =
     (case payload of
        CheckoutCompleted c \<Rightarrow>
          if co_purpose c = Some ''wallet_topup'' then credit_wallet_topup (bv_now env) c
          else sync_checkout_session env c
      | SubscriptionEvent t sub \<Rightarrow>
          if t \<in> set subscription_event_types then bind (sync_subscription_object env sub) (\<lambda>_. ret ()) else ret ()
      | InvoiceEvent t invoice \<Rightarrow>
          if t \<in> set invoice_event_types then sync_invoice_subscription env invoice t else ret ()
      | OtherEvent t \<Rightarrow> ret ())"

definition process_event :: "billing_env \<Rightarrow> stripe_event \<Rightarrow> (billing_db, bool) handler" where
  "process_event env event =
     bind (select_one_or_none (\<lambda>s. filter (\<lambda>w. we_stripe_event_id w = sv_id event) (webhook_events s)))
       (\<lambda>stored. if (case stored of None \<Rightarrow> False | Some w \<Rightarrow> we_processed_at w \<noteq> None) then ret False
         else
           let row = (case stored of Some w \<Rightarrow> w
                 | None \<Rightarrow> \<lparr>we_stripe_event_id = sv_id event, we_event_type = payload_type (sv_payload event),
                            we_processed_at = None\<rparr>)
           in then_do (if stored = None then modify (\<lambda>s. s\<lparr>webhook_events := webhook_events s @ [row]\<rparr>) else ret ())
             (then_do (apply_event env (sv_payload event))
             (then_do (modify (\<lambda>s. s\<lparr>webhook_events := replace_by we_stripe_event_id
                  (row\<lparr>we_processed_at := Some (bv_now env)\<rparr>) (webhook_events s)\<rparr>))
                (ret True))))"

definition process_webhook :: "billing_env \<Rightarrow> string \<Rightarrow> string \<Rightarrow> (billing_db, bool) handler" where
  "process_webhook env payload signature =
     bind (of_result (sa_construct_event (bv_stripe env) payload signature)) (process_event env)"

definition stripe_webhook :: "billing_env \<Rightarrow> string \<Rightarrow> string option \<Rightarrow> (billing_db, bool) handler" where
  "stripe_webhook env payload signature =
     (if is_falsy signature then raise (bad_request ''missing_stripe_signature'')
      else committed (process_webhook env payload (the signature)))"

end
