(* ===== verification/BillingProps.thy ===== *)
theory BillingProps
  imports Billing UsageProps
begin

text \<open>
  What the payments promise: whatever Stripe delivers, and how often, a payment is credited once and
  the wallets stay reconciled; a synced subscription is the state Stripe reported.
\<close>

section \<open>The accounts under a payment\<close>

lemma api_recalculate_is_refresh:
  "api_recalculate_current_period cfg now user =
     then_do (expire_stale_reservations now (Some (usr_id user))) (then_do (catalogue_seed_plans cfg)
       (refresh_period (settings.truncate cfg) now user))"
  unfolding api_recalculate_current_period_def refresh_period_def api_giving_back api_queries api_subscriptions ..

lemma catalogue_seed_frame:
  assumes "\<And>s s'. P s \<Longrightarrow> same_accounts s s' \<Longrightarrow> model_pricing s' = model_pricing s \<Longrightarrow> P s'"
  shows "triple P (catalogue_seed_plans cfg) (\<lambda>_. P) P"
proof (rule triple_assume)
  fix s assume s: "P s"
  let ?I = "\<lambda>t. same_accounts s t \<and> model_pricing t = model_pricing s"
  have "triple ?I (catalogue_seed_plan seed) (\<lambda>_. ?I) ?I" for seed
    by (auto simp: triple_def catalogue_seed_plan_def handler_defs same_accounts_def put_plan_def
        split: sum.splits option.splits)
  then have "triple ?I (catalogue_seed_plans cfg) (\<lambda>_. ?I) ?I"
    unfolding catalogue_seed_plans_def by (rule triple_for_each)
  then show "triple (\<lambda>t. t = s) (catalogue_seed_plans cfg) (\<lambda>_. P) P"
    by (rule triple_conseq) (auto simp: same_accounts_refl intro: assms [OF s])
qed

lemma api_recalculate_ok:
  "triple service_ok (api_recalculate_current_period cfg now user) (\<lambda>_. service_ok) service_ok"
  unfolding api_recalculate_is_refresh
  by (rule triple_conseq [OF refresh_ready]) (auto intro: catalogue_seed_frame ready_service)

text \<open>What the accounting of usage never touches.\<close>

definition purchases :: "ledger \<Rightarrow> wallet_tx_row list" where
  "purchases l = filter (\<lambda>t. wtx_kind t = ''purchase'') (wallet_transactions l)"

definition paid_part :: "ledger \<Rightarrow> wallet_tx_row list \<times> subscription_row list \<times> user_row list" where
  "paid_part l = (purchases l, user_subscriptions l, users l)"

lemma paid_part_same: "same_accounts s s' \<Longrightarrow> paid_part s' = paid_part s"
  by (simp add: same_accounts_def paid_part_def purchases_def)

lemma paid_part_puts [simp]:
  "paid_part (put_period p l) = paid_part l" "paid_part (put_event e l) = paid_part l"
  "paid_part (ensure_wallet uid l) = paid_part l"
  "kind \<noteq> ''purchase'' \<Longrightarrow> paid_part (move_balance now w d kind l) = paid_part l"
  "paid_part (add_event e l) = paid_part l"
  by (simp_all add: paid_part_def purchases_def put_defs move_balance_def ensure_wallet_def add_event_def)

definition keeps_paid :: "(ledger, 'a) handler \<Rightarrow> bool" where
  "keeps_paid m \<longleftrightarrow> (\<forall>l r l'. m l = (r, l') \<longrightarrow> paid_part l' = paid_part l)"

lemma keeps_paid_bind: "keeps_paid m \<Longrightarrow> (\<And>x. keeps_paid (f x)) \<Longrightarrow> keeps_paid (bind m f)"
  by (fastforce simp: keeps_paid_def bind_def split: prod.splits sum.splits)

lemma keeps_paid_then: "keeps_paid m \<Longrightarrow> keeps_paid k \<Longrightarrow> keeps_paid (then_do m k)"
  by (simp add: then_do_def keeps_paid_bind)

lemma keeps_paid_each: "(\<And>x. keeps_paid (f x)) \<Longrightarrow> keeps_paid (for_each f xs)"
  by (induction xs) (simp_all add: keeps_paid_then, simp add: keeps_paid_def)

lemma keeps_paid_read: "read_only m \<Longrightarrow> keeps_paid m"
  unfolding read_only_def keeps_paid_def by (metis snd_conv)

lemma keeps_paid_simple:
  "keeps_paid (ret x)" "keeps_paid (gets f)" "keeps_paid (raise e)"
  "(\<And>l. paid_part (g l) = paid_part l) \<Longrightarrow> keeps_paid (modify g)" "keeps_paid (guard_or b e)"
  "keeps_paid (select_one_or_none sel)" "keeps_paid (select_one sel)"
  by (simp_all add: keeps_paid_def select_one_or_none_def select_one_def)

lemma keeps_paid_if: "keeps_paid m \<Longrightarrow> keeps_paid k \<Longrightarrow> keeps_paid (if b then m else k)"
  by simp

lemma keeps_paid_cases:
  "(\<And>a b. keeps_paid (f a b)) \<Longrightarrow> keeps_paid (case_prod f p)"
  "keeps_paid n \<Longrightarrow> (\<And>x. keeps_paid (g x)) \<Longrightarrow> keeps_paid (case_option n g v)"
  by (simp_all split: prod.split option.split)

lemmas keeps_paid_rules = keeps_paid_if keeps_paid_cases keeps_paid_bind keeps_paid_then keeps_paid_each keeps_paid_simple

lemma keeps_paid_wallet: "keeps_paid (lock_or_create_wallet uid)"
  by (auto simp: keeps_paid_def lock_or_create_wallet_def handler_defs Let_def paid_part_def purchases_def
      split: sum.splits option.splits)

lemma keeps_paid_expire: "keeps_paid (expire_stale_reservations now uid)"
  unfolding expire_stale_reservations_def expire_event_def give_back_def refund_wallet_def Let_def
  by (rule keeps_paid_rules keeps_paid_wallet keeps_paid_read [OF read_only_queries(6)]
      | simp)+

lemma keeps_paid_refresh: "keeps_paid (refresh_period cfg now user)"
  unfolding refresh_period_def get_or_create_period_def Let_def
  by (rule keeps_paid_rules keeps_paid_read [OF read_only_queries(3)] keeps_paid_read [OF read_only_queries(4)]
      | simp add: paid_part_def purchases_def)+

lemma keeps_paid_seed: "keeps_paid (catalogue_seed_plans cfg)"
  unfolding keeps_paid_def
proof (intro allI impI)
  fix l r l' assume "catalogue_seed_plans cfg l = (r, l')"
  then show "paid_part l' = paid_part l"
    using catalogue_seed_frame [of "\<lambda>s. paid_part s = paid_part l" cfg]
    by (cases r) (auto simp: triple_def paid_part_same)
qed

lemma keeps_paid_recalculate: "keeps_paid (api_recalculate_current_period cfg now user)"
  unfolding api_recalculate_is_refresh
  by (intro keeps_paid_then keeps_paid_expire keeps_paid_seed keeps_paid_refresh)

section \<open>Crediting a wallet\<close>

definition credited :: "wallet_tx_row \<Rightarrow> ledger \<Rightarrow> ledger" where
  "credited t l =
     (let l' = ensure_wallet (wtx_user_id t) l
      in add_transaction t (put_wallet \<lparr>wal_user_id = wtx_user_id t,
           wal_balance_tokens = wallet_balance l' (wtx_user_id t) + wtx_delta_tokens t\<rparr> l'))"

lemma credited_post:
  "post now uid d kind l = credited \<lparr>wtx_user_id = uid, wtx_delta_tokens = d, wtx_kind = kind,
     wtx_stripe_payment_intent_id = None, wtx_created_at = now\<rparr> l"
  by (simp add: credited_def post_def move_balance_def Let_def)

lemma credited_balance:
  "wallet_balance (credited t l) u = wallet_balance l u + (if u = wtx_user_id t then wtx_delta_tokens t else 0)"
proof -
  have "wallet_balance (credited t l) u
      = wallet_balance (post 0 (wtx_user_id t) (wtx_delta_tokens t) [] l) u"
    by (simp add: credited_def credited_post wallet_balance_def Let_def put_defs)
  then show ?thesis by (simp add: post_balance)
qed

lemma credited_simps [simp]:
  "usage_periods (credited t l) = usage_periods l"
  "inference_usage_events (credited t l) = inference_usage_events l"
  "user_subscriptions (credited t l) = user_subscriptions l" "users (credited t l) = users l"
  "billing_plans (credited t l) = billing_plans l" "next_id (credited t l) = next_id l"
  "model_pricing (credited t l) = model_pricing l"
  "wallet_transactions (credited t l) = wallet_transactions l @ [t]"
  "wallet_entries (credited t l) u = wallet_entries l u + (if u = wtx_user_id t then wtx_delta_tokens t else 0)"
  by (simp_all add: credited_def put_defs Let_def wallet_entries_def ensure_wallet_def)

lemma credited_wallet_keys: "wallet_keys l \<Longrightarrow> wallet_keys (credited t l)"
  using wallet_keys_ensure [of l "wtx_user_id t"] by (simp add: credited_def put_defs wallet_keys_def Let_def)

lemma credited_service_ok:
  assumes "service_ok l" "0 \<le> wtx_delta_tokens t" "\<not> usage_kind (wtx_kind t)"
  shows "service_ok (credited t l)"
proof -
  have "wallets_ok (credited t l)"
    using assms ledger_okD(6) [of l]
    by (auto simp: service_ok_def wallets_ok_def credited_balance moved_def)
  moreover have "keys_ok (credited t l)"
    using assms(1) credited_wallet_keys by (simp add: service_ok_def ledger_ok_def keys_ok_def)
  ultimately show ?thesis
    using assms(1) by (simp add: service_ok_def prices_ok_def ledger_ok_def requests_ok_def windows_ok_def
        links_ok_def periods_ok_def)
qed

lemma credit_run:
  assumes "wallet_keys l"
  shows "bind (lock_or_create_wallet uid) (\<lambda>wallet. modify (move_balance now wallet d kind)) l
      = (Inr (), credited \<lparr>wtx_user_id = uid, wtx_delta_tokens = d, wtx_kind = kind,
           wtx_stripe_payment_intent_id = None, wtx_created_at = now\<rparr> l)"
    and "bind (lock_or_create_wallet uid) (\<lambda>wallet. modify (purchase now wallet d intent)) l
      = (Inr (), credited \<lparr>wtx_user_id = uid, wtx_delta_tokens = d, wtx_kind = ''purchase'',
           wtx_stripe_payment_intent_id = intent, wtx_created_at = now\<rparr> l)"
  by (simp_all add: bind_def lock_or_create_run [OF assms] credited_def move_balance_def purchase_def Let_def)

section \<open>The invariant of the payments\<close>

definition purchase_intents :: "ledger \<Rightarrow> string list" where
  "purchase_intents l =
     map (the \<circ> wtx_stripe_payment_intent_id) (filter (\<lambda>t. wtx_stripe_payment_intent_id t \<noteq> None) (purchases l))"

text \<open>The set holds purchases already booked, which stay.\<close>

definition pay_ok :: "wallet_tx_row set \<Rightarrow> billing_db \<Rightarrow> bool" where
  "pay_ok K s \<longleftrightarrow> K \<subseteq> set (purchases (rd_ledger s)) \<and> service_ok (rd_ledger s) \<and> distinct (purchase_intents (rd_ledger s)) \<and>
     distinct (map ern_source_id (referral_earnings s)) \<and>
     distinct (map we_stripe_event_id (webhook_events s))"

definition pay_safe :: "wallet_tx_row set \<Rightarrow> (billing_db, 'a) handler \<Rightarrow> bool" where
  "pay_safe K m \<longleftrightarrow> triple (pay_ok K) m (\<lambda>_. pay_ok K) (pay_ok K)"

lemma pay_safe_bind: "pay_safe K m \<Longrightarrow> (\<And>x. pay_safe K (f x)) \<Longrightarrow> pay_safe K (bind m f)"
  unfolding pay_safe_def by (rule triple_bind)

lemma pay_safe_then: "pay_safe K m \<Longrightarrow> pay_safe K k \<Longrightarrow> pay_safe K (then_do m k)"
  unfolding pay_safe_def by (rule triple_then)

lemma pay_safe_on_error:
  "pay_safe K m \<Longrightarrow> (\<And>e. pay_safe K (h e)) \<Longrightarrow> (\<And>x. pay_safe K (k x)) \<Longrightarrow> pay_safe K (on_error m h k)"
  unfolding pay_safe_def by (rule triple_on_error)

lemma pay_safe_each: "(\<And>x. pay_safe K (f x)) \<Longrightarrow> pay_safe K (for_each f xs)"
  unfolding pay_safe_def by (rule triple_for_each)

lemma pay_safe_cases:
  "pay_safe K m \<Longrightarrow> pay_safe K k \<Longrightarrow> pay_safe K (if b then m else k)"
  "(\<And>a b. pay_safe K (g a b)) \<Longrightarrow> pay_safe K (case_prod g p)"
  "pay_safe K n \<Longrightarrow> (\<And>x. pay_safe K (h x)) \<Longrightarrow> pay_safe K (case_option n h v)"
  by (simp_all split: prod.split option.split)

lemma pay_safe_simple:
  "pay_safe K (ret x)" "pay_safe K (raise e)" "pay_safe K (gets f)" "pay_safe K (guard_or b e)"
  "pay_safe K (of_result r)" "pay_safe K (select_one_or_none sel)" "pay_safe K (select_one sel)"
  "(\<And>s. pay_ok K s \<Longrightarrow> pay_ok K (g s)) \<Longrightarrow> pay_safe K (modify g)"
  by (auto simp: pay_safe_def triple_def of_result_def select_one_or_none_def select_one_def split: sum.splits)

lemmas pay_safe_rules = pay_safe_bind pay_safe_then pay_safe_cases pay_safe_simple

lemma pay_ok_ledger:
  assumes "pay_ok K s" "service_ok l" "purchases l = purchases (rd_ledger s)"
  shows "pay_ok K (s\<lparr>rd_ledger := l\<rparr>)"
  using assms by (simp add: pay_ok_def purchase_intents_def)

lemma pay_safe_ledger:
  assumes "triple service_ok h (\<lambda>_. service_ok) service_ok" "keeps_paid h"
  shows "pay_safe K (on_ledger_of h)"
  unfolding pay_safe_def
proof (rule tripleI)
  have k: "pay_ok K (s\<lparr>rd_ledger := l\<rparr>)" if "pay_ok K s" "h (rd_ledger s) = (r, l)" for s r l
  proof (rule pay_ok_ledger [OF that(1)])
    show "service_ok l" using assms(1) that by (cases r) (auto simp: triple_def pay_ok_def)
    show "purchases l = purchases (rd_ledger s)" using assms(2) that(2) by (simp add: keeps_paid_def paid_part_def)
  qed
  show "pay_ok K s'" if "pay_ok K s" "on_ledger_of h s = (Inl e, s')" for s e s'
    using k that by (auto simp: on_ledger_of_def split: prod.splits)
  show "pay_ok K s'" if "pay_ok K s" "on_ledger_of h s = (Inr x, s')" for s x s'
    using k that by (auto simp: on_ledger_of_def split: prod.splits)
qed

lemma seed_catalogue_safe: "pay_safe K (seed_catalogue env)"
  unfolding seed_catalogue_def
proof (rule pay_safe_ledger)
  show "triple service_ok (catalogue_seed_plans (bv_config env)) (\<lambda>_. service_ok) service_ok"
    by (rule catalogue_seed_frame) (auto simp: service_ok_def prices_ok_def intro: ledger_ok_same_accounts)
  show "keeps_paid (catalogue_seed_plans (bv_config env))" by (rule keeps_paid_seed)
qed

lemma subscription_writes_ok:
  "service_ok l \<Longrightarrow> service_ok (put_subscription r l)" "purchases (put_subscription r l) = purchases l"
  "service_ok l \<Longrightarrow> service_ok (add_subscription r l)" "purchases (add_subscription r l) = purchases l"
  by (auto simp: service_ok_def ledger_ok_def ledger_parts prices_ok_def put_subscription_def
      add_subscription_def wallet_keys_def wallet_balance_def wallet_entries_def purchases_def intro: less_SucI)

lemma pay_ok_subscription:
  "pay_ok K s \<Longrightarrow> pay_ok K (s\<lparr>rd_ledger := put_subscription r (rd_ledger s)\<rparr>)"
  "pay_ok K s \<Longrightarrow> pay_ok K (s\<lparr>rd_ledger := add_subscription r (rd_ledger s)\<rparr>)"
  by (simp_all add: pay_ok_ledger subscription_writes_ok pay_ok_def [THEN iffD1])

lemma on_ledger_modify: "on_ledger_of (modify g) = modify (\<lambda>s. s\<lparr>rd_ledger := g (rd_ledger s)\<rparr>)"
  by (simp add: on_ledger_of_def modify_def fun_eq_iff)

lemma pay_ok_tables [simp]:
  "pay_ok K (s\<lparr>billing_accounts := a\<rparr>) = pay_ok K s" "pay_ok K (s\<lparr>billing_events := b\<rparr>) = pay_ok K s"
  by (simp_all add: pay_ok_def)

lemma account_safe:
  "pay_safe K (find_account uid)" "pay_safe K (save_account a)" "pay_safe K (upsert_billing_account uid c)"
  "pay_safe K (ensure_billing_account env uid)" "pay_safe K (clear_pending_checkout uid sid)"
  "pay_safe K (record_billing_event e d)" "pay_safe K (reject_if_checkout_pending env a)"
proof -
  show f: "pay_safe K (find_account uid)" for uid unfolding find_account_def by (rule pay_safe_rules)
  show a: "pay_safe K (save_account a)" for a unfolding save_account_def by (rule pay_safe_rules | simp)+
  show "pay_safe K (upsert_billing_account uid c)" unfolding upsert_billing_account_def by (rule pay_safe_rules f a)+
  show "pay_safe K (ensure_billing_account env uid)"
    unfolding ensure_billing_account_def Let_def by (rule pay_safe_rules f a)+
  show "pay_safe K (clear_pending_checkout uid sid)"
    unfolding clear_pending_checkout_def by (rule pay_safe_rules f a)+
  show "pay_safe K (record_billing_event e d)" unfolding record_billing_event_def by (rule pay_safe_rules | simp)+
  show "pay_safe K (reject_if_checkout_pending env a)"
    unfolding reject_if_checkout_pending_def Let_def by (rule pay_safe_rules a)+
qed

lemma recalculate_safe: "pay_safe K (on_ledger_of (bind (api_recalculate_current_period cfg now u) (\<lambda>_. ret ())))"
  by (rule pay_safe_ledger)
    (rule triple_bind [OF api_recalculate_ok] triple_ret keeps_paid_bind keeps_paid_recalculate keeps_paid_simple
      | simp)+

lemma subscription_safe:
  "pay_safe K (plan_id_for_subscription env sub price)" "pay_safe K (subscription_user sub)"
  "pay_safe K (write_subscription sub pid uid existing)"
  "pay_safe K (record_subscription_changes now previous current)"
  "pay_safe K (mark_subscription_status i status)" "pay_safe K (subscription_by_stripe_id i)"
  unfolding plan_id_for_subscription_def subscription_user_def write_subscription_def
    record_subscription_changes_def mark_subscription_status_def subscription_by_stripe_id_def Let_def
    on_ledger_modify
  by (rule pay_safe_rules pay_safe_each seed_catalogue_safe account_safe | simp add: pay_ok_subscription)+

lemma sync_safe: "pay_safe K (sync_subscription_object env sub)"
  unfolding sync_subscription_object_def sync_for_user_def refresh_user_def
  by (rule pay_safe_rules account_safe subscription_safe recalculate_safe)+

lemma checkout_safe:
  "pay_safe K (sync_checkout_session env c)" "pay_safe K (get_subscription uid)"
  "pay_safe K (subscription_response uid)" "pay_safe K (live_subscription uid)"
  "pay_safe K (plan_and_price env pid interval)"
  unfolding sync_checkout_session_def sync_subscription_def get_subscription_def subscription_response_def
    live_subscription_def plan_and_price_def Let_def
  by (rule pay_safe_rules account_safe sync_safe seed_catalogue_safe
      | simp split: subscription_ref.split | intro conjI impI allI)+

lemma requests_safe:
  "pay_safe K (sync_checkout_session_by_id env uid sid)" "pay_safe K (change_subscription_plan env uid pid interval)"
  "pay_safe K (cancel_subscription env uid at_end)" "pay_safe K (create_checkout_session env uid pid interval)"
  "pay_safe K (create_wallet_checkout_session env uid bundle cents)" "pay_safe K (create_customer_portal_session env uid)"
  unfolding sync_checkout_session_by_id_def change_subscription_plan_def cancel_subscription_def
    create_checkout_session_def create_wallet_checkout_session_def create_customer_portal_session_def
  by (rule pay_safe_rules account_safe sync_safe checkout_safe)+

section \<open>Credits\<close>

lemma pay_ok_wallet_keys: "pay_ok K s \<Longrightarrow> wallet_keys (rd_ledger s)"
  by (simp add: pay_ok_def service_ok_def ledger_wallet_keys)

lemma credit_ok:
  assumes "pay_ok K s" "0 \<le> wtx_delta_tokens t" "wtx_kind t = ''referral_bonus''"
  shows "pay_ok K (s\<lparr>rd_ledger := credited t (rd_ledger s)\<rparr>)"
  using assms by (intro pay_ok_ledger credited_service_ok)
    (auto simp: usage_kind_def purchases_def pay_ok_def)

text \<open>The outcome of a credit to a referrer: nothing, or one transaction and one earning under a new
  source.\<close>

definition bonus_tx :: "time \<Rightarrow> nat \<Rightarrow> int \<Rightarrow> wallet_tx_row" where
  "bonus_tx now uid tokens = \<lparr>wtx_user_id = uid, wtx_delta_tokens = tokens, wtx_kind = ''referral_bonus'',
     wtx_stripe_payment_intent_id = None, wtx_created_at = now\<rparr>"

definition earning_of :: "time \<Rightarrow> referral_row \<Rightarrow> string \<Rightarrow> nat \<Rightarrow> int \<Rightarrow> int \<Rightarrow> earning_row" where
  "earning_of now ref source referred amount tokens =
     \<lparr>ern_referral_id = rf_id ref, ern_source_id = source, ern_referred_user_id = referred,
      ern_referrer_user_id = rf_referrer_user_id ref, ern_tokens_credited = tokens,
      ern_usd_equivalent_cents = dec_floor (bonus_cents amount), ern_created_at = now\<rparr>"

lemma credit_for_payment_cases:
  assumes "wallet_keys (rd_ledger s)" "credit_for_payment now referred amount source rate s = (r, s')"
  obtains "s' = s"
  | ref ern where "r = Inr ()" "ref \<in> set (referrals s)" "rf_referred_user_id ref = referred"
      "0 < ern_tokens_credited ern" "ern_source_id ern = source" "source \<notin> ern_source_id ` set (referral_earnings s)"
      "s' = s\<lparr>rd_ledger := credited (bonus_tx now (rf_referrer_user_id ref) (ern_tokens_credited ern)) (rd_ledger s),
              referral_earnings := referral_earnings s @ [ern]\<rparr>"
proof (cases "s' = s")
  case False
  then obtain ref where ref: "filter (\<lambda>r. rf_referred_user_id r = referred) (referrals s) = [ref]"
    "\<forall>x \<in> set (referral_earnings s). ern_source_id x \<noteq> source" "0 < bonus_tokens amount rate" "r = Inr ()"
    "s' = s\<lparr>rd_ledger := credited (bonus_tx now (rf_referrer_user_id ref) (bonus_tokens amount rate)) (rd_ledger s),
        referral_earnings := referral_earnings s @ [earning_of now ref source referred amount (bonus_tokens amount rate)]\<rparr>"
    using assms(2) credit_run(1) [OF assms(1)]
    by (auto simp: credit_for_payment_def then_do_def bind_def select_one_or_none_def on_ledger_of_def Let_def
        bonus_tx_def earning_of_def scalar_one_or_none_Some scalar_one_or_none_None filter_empty_conv
        split: if_splits sum.splits option.splits)
  have "ref \<in> set (filter (\<lambda>r. rf_referred_user_id r = referred) (referrals s))"
    unfolding ref(1) by simp
  then have "ref \<in> set (referrals s)" "rf_referred_user_id ref = referred" by simp_all
  then show thesis
    using ref(2-) that(2) [of ref "earning_of now ref source referred amount (bonus_tokens amount rate)"]
    by (auto simp: earning_of_def)
qed (rule that(1))

lemma credit_for_payment_safe: "pay_safe K (credit_for_payment now referred amount source rate)"
  unfolding pay_safe_def
proof (rule tripleI)
  have k: "pay_ok K s'" if s: "pay_ok K s" "credit_for_payment now referred amount source rate s = (r, s')" for s r s'
  proof (rule credit_for_payment_cases [OF pay_ok_wallet_keys [OF s(1)] s(2)])
    fix ref ern assume e: "0 < ern_tokens_credited ern" "ern_source_id ern = source"
      "source \<notin> ern_source_id ` set (referral_earnings s)"
      "s' = s\<lparr>rd_ledger := credited (bonus_tx now (rf_referrer_user_id ref) (ern_tokens_credited ern)) (rd_ledger s),
              referral_earnings := referral_earnings s @ [ern]\<rparr>"
    have "pay_ok K (s\<lparr>rd_ledger := credited (bonus_tx now (rf_referrer_user_id ref) (ern_tokens_credited ern)) (rd_ledger s)\<rparr>)"
      by (rule credit_ok [OF s(1)]) (use e(1) in \<open>simp_all add: bonus_tx_def\<close>)
    then show "pay_ok K s'" using e by (simp add: pay_ok_def)
  qed (use s in simp)
  show "pay_ok K s'" if "pay_ok K s" "credit_for_payment now referred amount source rate s = (Inl e, s')" for s e s'
    using k that by blast
  show "pay_ok K s'" if "pay_ok K s" "credit_for_payment now referred amount source rate s = (Inr x, s')" for s x s'
    using k that by blast
qed

lemma invoice_safe:
  "pay_safe K (record_invoice_event now invoice t sub)" "pay_safe K (credit_referral_for_invoice now invoice r)"
  "pay_safe K (sync_invoice_subscription env invoice t)"
proof -
  show r: "pay_safe K (record_invoice_event now invoice t sub)" for now t sub
    unfolding record_invoice_event_def Let_def by (rule pay_safe_rules account_safe subscription_safe)+
  show c: "pay_safe K (credit_referral_for_invoice now invoice r)" for now r
    unfolding credit_referral_for_invoice_def fallback_referral_rate_def
    by (rule pay_safe_rules credit_for_payment_safe)+
  show "pay_safe K (sync_invoice_subscription env invoice t)"
    unfolding sync_invoice_subscription_def
    by (rule pay_safe_rules pay_safe_on_error subscription_safe sync_safe r c)+
qed

section \<open>Top-ups\<close>

definition purchase_tx :: "time \<Rightarrow> nat \<Rightarrow> int \<Rightarrow> string option \<Rightarrow> wallet_tx_row" where
  "purchase_tx now uid tokens intent = \<lparr>wtx_user_id = uid, wtx_delta_tokens = tokens, wtx_kind = ''purchase'',
     wtx_stripe_payment_intent_id = intent, wtx_created_at = now\<rparr>"

lemma purchase_ok:
  assumes "pay_ok K s" "0 < tokens" "intent = None \<or> the intent \<notin> set (purchase_intents (rd_ledger s))"
  shows "pay_ok K (s\<lparr>rd_ledger := credited (purchase_tx now uid tokens intent) (rd_ledger s)\<rparr>)"
proof -
  have "service_ok (credited (purchase_tx now uid tokens intent) (rd_ledger s))"
    using assms by (intro credited_service_ok) (auto simp: pay_ok_def purchase_tx_def usage_kind_def)
  then show ?thesis using assms
    by (auto simp: pay_ok_def purchase_intents_def purchases_def purchase_tx_def)
qed

lemma book_purchase_run:
  assumes "wallet_keys (rd_ledger s)"
  shows "book_purchase now uid tokens intent c s =
    bind (of_result (paid_cents (co_meta_usd_cents c))) (\<lambda>cents.
     then_do (record_billing_event
         (topup_event now uid tokens (if co_meta_usd_cents c = None then None else Some cents) intent) True)
       (if cents > 0 \<and> intent \<noteq> None
        then credit_for_payment now uid cents (the intent) (dec_div (cents, 0) (tokens, 0))
        else ret ())) (s\<lparr>rd_ledger := credited (purchase_tx now uid tokens intent) (rd_ledger s)\<rparr>)"
  unfolding book_purchase_def
  by (rule then_Inr) (simp add: on_ledger_of_def credit_run(2) [OF assms] purchase_tx_def)

lemma credit_wallet_topup_safe: "pay_safe K (credit_wallet_topup now c)"
  unfolding pay_safe_def
proof (rule tripleI)
  let ?rest = "\<lambda>uid tokens. bind (of_result (paid_cents (co_meta_usd_cents c))) (\<lambda>cents.
     then_do (record_billing_event
         (topup_event now uid tokens (if co_meta_usd_cents c = None then None else Some cents) (co_payment_intent c)) True)
       (if cents > 0 \<and> co_payment_intent c \<noteq> None
        then credit_for_payment now uid cents (the (co_payment_intent c)) (dec_div (cents, 0) (tokens, 0))
        else ret ()))"
  have rest: "pay_safe K (?rest uid tokens)" for uid tokens
    by (rule pay_safe_rules account_safe credit_for_payment_safe)+
  have book: "pay_ok K s'" if "pay_ok K s" "0 < tokens"
      "co_payment_intent c = None \<or> the (co_payment_intent c) \<notin> set (purchase_intents (rd_ledger s))"
      "book_purchase now uid tokens (co_payment_intent c) c s = (r, s')" for s uid tokens r s'
    using rest [of uid tokens] purchase_ok [OF that(1-3), of now uid] that(4)
    unfolding book_purchase_run [OF pay_ok_wallet_keys [OF that(1)]] pay_safe_def
    by (cases r) (auto dest: tripleD tripleD_err)
  have k: "pay_ok K s'" if s: "pay_ok K s" "credit_wallet_topup now c s = (r, s')" for s r s'
  proof (cases "s' = s")
    case False
    then obtain uid tokens where "book_purchase now uid tokens (co_payment_intent c) c s = (r, s')" "0 < tokens"
        "co_payment_intent c = None \<or> filter (\<lambda>t. wtx_stripe_payment_intent_id t = co_payment_intent c \<and>
            wtx_kind t = ''purchase'') (wallet_transactions (rd_ledger s)) = []"
      using s(2)
      by (auto simp: credit_wallet_topup_def bind_def of_result_def select_one_or_none_def
          scalar_one_or_none_None split: option.splits sum.splits if_splits)
    then show ?thesis
      using book [OF s(1)] by (fastforce simp: purchase_intents_def purchases_def filter_empty_conv)
  qed (use s in simp)
  show "pay_ok K s'" if "pay_ok K s" "credit_wallet_topup now c s = (Inl e, s')" for s e s' using k that by blast
  show "pay_ok K s'" if "pay_ok K s" "credit_wallet_topup now c s = (Inr x, s')" for s x s' using k that by blast
qed

section \<open>Webhooks\<close>

lemma apply_event_safe: "pay_safe K (apply_event env payload)"
  unfolding apply_event_def
  by (cases payload)
    (simp_all add: pay_safe_rules credit_wallet_topup_safe checkout_safe sync_safe invoice_safe pay_safe_bind)

definition processed :: "string \<Rightarrow> billing_db \<Rightarrow> bool" where
  "processed i s \<longleftrightarrow> (\<exists>w \<in> set (webhook_events s). we_stripe_event_id w = i \<and> we_processed_at w \<noteq> None)"

definition event_row :: "stripe_event \<Rightarrow> webhook_event" where
  "event_row event = \<lparr>we_stripe_event_id = sv_id event, we_event_type = payload_type (sv_payload event),
     we_processed_at = None\<rparr>"

definition apply_and_mark :: "billing_env \<Rightarrow> stripe_event \<Rightarrow> webhook_event \<Rightarrow> (billing_db, bool) handler" where
  "apply_and_mark env event row =
     then_do (apply_event env (sv_payload event))
       (then_do (modify (\<lambda>s. s\<lparr>webhook_events := replace_by we_stripe_event_id
            (row\<lparr>we_processed_at := Some (bv_now env)\<rparr>) (webhook_events s)\<rparr>)) (ret True))"

lemma process_event_cases:
  assumes "distinct (map we_stripe_event_id (webhook_events s))"
  obtains "processed (sv_id event) s" "process_event env event s = (Inr False, s)"
  | w where "\<not> processed (sv_id event) s" "w \<in> set (webhook_events s)" "we_stripe_event_id w = sv_id event"
      "process_event env event s = apply_and_mark env event w s"
  | "sv_id event \<notin> we_stripe_event_id ` set (webhook_events s)" "\<not> processed (sv_id event) s"
      "process_event env event s = apply_and_mark env event (event_row event)
         (s\<lparr>webhook_events := webhook_events s @ [event_row event]\<rparr>)"
proof (rule filter_key_cases [OF assms, of "sv_id event"])
  assume f: "filter (\<lambda>w. we_stripe_event_id w = sv_id event) (webhook_events s) = []"
    "sv_id event \<notin> we_stripe_event_id ` set (webhook_events s)"
  have "process_event env event s = apply_and_mark env event (event_row event)
         (s\<lparr>webhook_events := webhook_events s @ [event_row event]\<rparr>)"
    by (simp add: process_event_def bind_def select_one_or_none_def f then_do_def [of "modify _"]
        event_row_def apply_and_mark_def Let_def)
  moreover have "\<not> processed (sv_id event) s" using f(2) unfolding processed_def by (metis imageI)
  ultimately show thesis using that(3) f(2) by blast
next
  fix w assume f: "filter (\<lambda>w. we_stripe_event_id w = sv_id event) (webhook_events s) = [w]"
    "w \<in> set (webhook_events s)" "we_stripe_event_id w = sv_id event"
  have u: "processed (sv_id event) s \<longleftrightarrow> we_processed_at w \<noteq> None"
    using same_key_same_row [OF assms _ f(2)] f(2,3) unfolding processed_def by metis
  show thesis
  proof (cases "we_processed_at w")
    case None
    then have "process_event env event s = apply_and_mark env event w s"
      by (simp add: process_event_def bind_def select_one_or_none_def f then_do_def [of "ret _"]
          apply_and_mark_def Let_def)
    then show thesis using that(2) f u None by simp
  next
    case (Some t)
    then show thesis using that(1) u
      by (simp add: process_event_def bind_def select_one_or_none_def f)
  qed
qed

lemma apply_and_mark_safe: "pay_safe K (apply_and_mark env event row)"
  unfolding apply_and_mark_def by (rule pay_safe_rules apply_event_safe | simp add: pay_ok_def)+

lemma pay_safeD: "pay_safe K m \<Longrightarrow> pay_ok K s \<Longrightarrow> m s = (r, s') \<Longrightarrow> pay_ok K s'"
  unfolding pay_safe_def by (cases r) (auto dest: tripleD tripleD_err)

lemma pay_safeI: "(\<And>s r s'. pay_ok K s \<Longrightarrow> m s = (r, s') \<Longrightarrow> pay_ok K s') \<Longrightarrow> pay_safe K m"
  unfolding pay_safe_def by (rule tripleI) blast+

lemma process_event_safe: "pay_safe K (process_event env event)"
proof (rule pay_safeI)
  fix s r s' assume s: "pay_ok K s" "process_event env event s = (r, s')"
  have d: "distinct (map we_stripe_event_id (webhook_events s))" using s(1) by (simp add: pay_ok_def)
  show "pay_ok K s'"
  proof (rule process_event_cases [OF d, of event env])
    assume "sv_id event \<notin> we_stripe_event_id ` set (webhook_events s)"
      and e: "process_event env event s = apply_and_mark env event (event_row event)
         (s\<lparr>webhook_events := webhook_events s @ [event_row event]\<rparr>)"
    then have "pay_ok K (s\<lparr>webhook_events := webhook_events s @ [event_row event]\<rparr>)"
      using s(1) by (simp add: pay_ok_def event_row_def)
    then show ?thesis using pay_safeD [OF apply_and_mark_safe] s(2) e by metis
  next
    fix w assume "process_event env event s = apply_and_mark env event w s"
    then show ?thesis using pay_safeD [OF apply_and_mark_safe s(1)] s(2) by metis
  qed (use s in simp)
qed

lemma committed_safe: "pay_safe K m \<Longrightarrow> pay_ok K s \<Longrightarrow> pay_ok K (snd (committed m s))"
  using pay_safeD [of K m s] by (auto simp: committed_def split: prod.splits sum.splits)

lemma webhook_safe: "pay_ok K s \<Longrightarrow> pay_ok K (snd (stripe_webhook env payload signature s))"
  unfolding stripe_webhook_def process_webhook_def
  by (simp add: committed_safe pay_safe_bind pay_safe_simple process_event_safe)

section \<open>Steps\<close>

text \<open>Everything that moves money or tokens: requests to the billing routes under any behaviour of
  Stripe, the referral operations and the operations of the accounting of usage.\<close>

definition paying_request :: "billing_env \<Rightarrow> (billing_db, unit) handler \<Rightarrow> bool" where
  "paying_request env m \<longleftrightarrow>
     (\<exists>uid sid. m = then_do (sync_checkout_session_by_id env uid sid) (ret ())) \<or>
     (\<exists>uid pid interval. m = then_do (create_checkout_session env uid pid interval) (ret ())) \<or>
     (\<exists>uid bundle cents. m = then_do (create_wallet_checkout_session env uid bundle cents) (ret ())) \<or>
     (\<exists>uid pid interval. m = then_do (change_subscription_plan env uid pid interval) (ret ())) \<or>
     (\<exists>uid at_end. m = then_do (cancel_subscription env uid at_end) (ret ())) \<or>
     (\<exists>uid. m = then_do (create_customer_portal_session env uid) (ret ()))"

inductive billing_step :: "billing_db \<Rightarrow> billing_db \<Rightarrow> bool" where
  webhook: "billing_step s (snd (stripe_webhook env payload signature s))"
| request: "paying_request env m \<Longrightarrow> billing_step s (snd (committed m s))"
| usage: "usage_step cfg (rd_ledger s) l \<Longrightarrow> billing_step s (s\<lparr>rd_ledger := l\<rparr>)"
| custom_code: "billing_step s (snd (committed (set_custom_code uid raw) s))"
| own_code: "billing_step s (snd (committed (ensure_referral_code generate uid) s))"
| signup: "billing_step s (snd (committed (attribute_signup now uid code) s))"

inductive_cases billing_stepE: "billing_step s s'"

lemma paying_request_safe: "paying_request env m \<Longrightarrow> pay_safe K m"
  unfolding paying_request_def by (auto intro!: pay_safe_then requests_safe pay_safe_simple)

lemma pay_ok_codes [simp]:
  "pay_ok K (set_code uid code s) = pay_ok K s" "pay_ok K (s\<lparr>referral_aliases := a\<rparr>) = pay_ok K s"
  "pay_ok K (s\<lparr>referrals := r, rd_next := n\<rparr>) = pay_ok K s"
  by (simp_all add: pay_ok_def set_code_def)

lemma draw_code_safe: "pay_safe K (draw_code uid codes)"
proof (induction codes)
  case (Cons c codes)
  show ?case unfolding draw_code.simps by (rule pay_safe_rules Cons | simp)+
qed (simp only: draw_code.simps pay_safe_simple)

lemma referral_safe:
  "pay_safe K (set_custom_code uid raw)" "pay_safe K (ensure_referral_code generate uid)"
  "pay_safe K (attribute_signup now uid code)"
  unfolding set_custom_code_def make_room_def store_code_def ensure_referral_code_def attribute_signup_def
  by (rule pay_safe_rules draw_code_safe | simp)+

lemma keeps_paid_pricing: "keeps_paid (multiplier_for_model model)"
proof -
  have "keeps_paid (seed_price x)" for x
    by (auto simp: keeps_paid_def seed_price_def handler_defs paid_part_def purchases_def split: sum.splits option.splits)
  then show ?thesis
    unfolding multiplier_for_model_def seed_default_model_pricing_def by (intro keeps_paid_rules)
qed

lemma keeps_paid_caps: "keeps_paid (enforce_spend_limits cfg now key additional wallet)"
  by (rule keeps_paid_read)
    (auto simp: read_only_def enforce_spend_limits_def handler_defs Let_def split: sum.splits option.splits prod.splits)

lemma keeps_paid_usage:
  "keeps_paid (recalculate_current_period cfg now user)"
  "keeps_paid (release_inference_reservation now e)"
  "keeps_paid (settle_inference_usage now e prompt completion)"
  "keeps_paid (reserve_inference_tokens cfg now user ra)"
proof -
  have "keeps_paid (seed_default_billing_plans cfg)"
    unfolding keeps_paid_def
  proof (intro allI impI)
    fix l r l' assume "seed_default_billing_plans cfg l = (r, l')"
    then show "paid_part l' = paid_part l"
      using triple_seed [of "\<lambda>s. paid_part s = paid_part l" cfg]
      by (cases r) (auto simp: triple_def paid_part_same)
  qed
  then show r: "keeps_paid (recalculate_current_period cfg now user)"
    unfolding recalculate_is_refresh by (intro keeps_paid_then keeps_paid_expire keeps_paid_refresh)
  show "keeps_paid (release_inference_reservation now e)"
    unfolding release_inference_reservation_def give_back_def refund_wallet_def Let_def
    by (rule keeps_paid_rules keeps_paid_wallet keeps_paid_expire keeps_paid_read [OF read_only_queries(6)] | simp)+
  show "keeps_paid (settle_inference_usage now e prompt completion)"
    unfolding settle_inference_usage_def split_settlement_def settle_wallet_def Let_def
    by (rule keeps_paid_rules keeps_paid_wallet keeps_paid_expire keeps_paid_read [OF read_only_queries(6)]
        keeps_paid_read [OF read_only_queries(2)] | simp)+
  show "keeps_paid (reserve_inference_tokens cfg now user ra)"
    unfolding reserve_inference_tokens_def reserve_new_def split_reservation_def debit_wallet_def Let_def
    by (rule keeps_paid_rules keeps_paid_wallet keeps_paid_expire r keeps_paid_pricing keeps_paid_caps
        keeps_paid_read [OF read_only_queries(6)] keeps_paid_read [OF read_only_queries(2)]
        keeps_paid_read [OF read_only_queries(5)]
        | simp)+
qed

lemma usage_step_purchases:
  assumes "usage_step cfg l l'" shows "purchases l' = purchases l"
proof -
  have k: "keeps_paid m \<Longrightarrow> m l = (r, l') \<Longrightarrow> purchases l' = purchases l" for m :: "(ledger, 'a) handler" and r
    by (simp add: keeps_paid_def paid_part_def)
  have t: "purchases (post now uid d ''topup'' l) = purchases l" for now uid d
    by (simp add: purchases_def post_transactions)
  show ?thesis
    using assms
    by (cases rule: usage_stepE)
      (auto simp: t intro: k [OF keeps_paid_usage(1)] k [OF keeps_paid_usage(2)] k [OF keeps_paid_usage(3)]
        k [OF keeps_paid_usage(4)] k [OF keeps_paid_expire])
qed

lemma billing_step_keeps: "pay_ok K s \<Longrightarrow> billing_step s s' \<Longrightarrow> pay_ok K s'"
proof (erule billing_stepE)
  fix cfg l assume s: "pay_ok K s" "usage_step cfg (rd_ledger s) l" "s' = s\<lparr>rd_ledger := l\<rparr>"
  have "service_ok l" using usage_step_service_ok [OF _ s(2)] s(1) by (simp add: pay_ok_def)
  then show "pay_ok K s'" using pay_ok_ledger [OF s(1)] usage_step_purchases [OF s(2)] s(3) by simp
qed (auto intro: webhook_safe committed_safe paying_request_safe referral_safe)

interpretation billing: step_invariant billing_step "pay_ok K" for K
  by unfold_locales (rule billing_step_keeps)

text \<open>C12: Payments are credited once. After any sequence of webhooks, deliveries repeated or not,
  requests to the billing and referral routes and operations on usage, under any behaviour of Stripe:
  a booked purchase stays, no payment intent is credited twice and no payment earns a referrer two
  bonuses, and every wallet is the non-negative sum of its transactions.\<close>

theorem payments_credited_once:
  assumes "pay_ok {} s" "billing_step\<^sup>*\<^sup>* s s'"
  shows "set (purchases (rd_ledger s)) \<subseteq> set (purchases (rd_ledger s')) \<and>
    distinct (purchase_intents (rd_ledger s')) \<and> distinct (map ern_source_id (referral_earnings s')) \<and>
    (\<forall>u. wallet_balance (rd_ledger s') u = wallet_entries (rd_ledger s') u \<and> 0 \<le> wallet_balance (rd_ledger s') u)"
proof -
  have "pay_ok (set (purchases (rd_ledger s))) s" using assms(1) by (simp add: pay_ok_def)
  from billing.reachable [OF assms(2) this] have p: "pay_ok (set (purchases (rd_ledger s))) s'" .
  then have "wallets_ok (rd_ledger s')" by (simp add: pay_ok_def service_ok_def ledger_ok_def)
  then show ?thesis using p by (simp add: pay_ok_def wallets_ok_def)
qed

lemma purchase_found:
  assumes "distinct (purchase_intents l)" "t \<in> set (purchases l)" "wtx_stripe_payment_intent_id t = Some i"
  shows "filter (\<lambda>t. wtx_stripe_payment_intent_id t = Some i \<and> wtx_kind t = ''purchase'') (wallet_transactions l) = [t]"
proof -
  let ?some = "filter (\<lambda>t. wtx_stripe_payment_intent_id t \<noteq> None) (purchases l)"
  have "distinct (map (the \<circ> wtx_stripe_payment_intent_id) ?some)" using assms(1) by (simp add: purchase_intents_def)
  from filter_by_key [OF this, of t] assms(2,3)
  have f: "filter (\<lambda>q. (the \<circ> wtx_stripe_payment_intent_id) q = (the \<circ> wtx_stripe_payment_intent_id) t) ?some = [t]"
    by simp
  have "filter (\<lambda>q. (the \<circ> wtx_stripe_payment_intent_id) q = (the \<circ> wtx_stripe_payment_intent_id) t) ?some
      = filter (\<lambda>t. wtx_stripe_payment_intent_id t = Some i \<and> wtx_kind t = ''purchase'') (wallet_transactions l)"
    unfolding purchases_def filter_filter using assms(3) by (intro filter_cong) auto
  then show ?thesis using f by simp
qed

lemma topup_repeat:
  assumes "pay_ok K s" "t \<in> K" "wtx_stripe_payment_intent_id t = Some i" "co_payment_intent c = Some i"
  shows "snd (credit_wallet_topup now c s) = s"
proof -
  have "filter (\<lambda>t. wtx_stripe_payment_intent_id t = Some i \<and> wtx_kind t = ''purchase'')
      (wallet_transactions (rd_ledger s)) = [t]"
    by (rule purchase_found) (use assms in \<open>auto simp: pay_ok_def\<close>)
  then show ?thesis
    by (auto simp: credit_wallet_topup_def bind_def of_result_def select_one_or_none_def assms(4)
        split: option.splits sum.splits)
qed

text \<open>A completed top-up that names its user, its tokens and its price.\<close>

definition topup_of :: "checkout_object \<Rightarrow> nat \<Rightarrow> int \<Rightarrow> int \<Rightarrow> string \<Rightarrow> bool" where
  "topup_of c uid tokens cents intent \<longleftrightarrow>
     co_purpose c = Some ''wallet_topup'' \<and> checkout_owner c = Some (Uuid uid) \<and>
     Option.bind (co_meta_tokens c) int_of_text = Some tokens \<and> 0 < tokens \<and>
     paid_cents (co_meta_usd_cents c) = Inr cents \<and> co_payment_intent c = Some intent"

definition referrals_ok :: "billing_db \<Rightarrow> bool" where
  "referrals_ok s \<longleftrightarrow> distinct (map rf_referred_user_id (referrals s)) \<and>
     (\<forall>r \<in> set (referrals s). rf_referrer_user_id r \<noteq> rf_referred_user_id r)"

lemma credit_for_payment_succeeds:
  fixes s :: billing_db
  assumes "wallet_keys (rd_ledger s)" "distinct (map rf_referred_user_id (referrals s))"
    "distinct (map ern_source_id (referral_earnings s))"
  shows "\<exists>s'. credit_for_payment now uid cents source rate s = (Inr (), s')"
proof -
  obtain x where x: "scalar_one_or_none (filter (\<lambda>r. rf_referred_user_id r = uid) (referrals s)) = Inr x"
    using scalar_unique [OF assms(2), of "\<lambda>r. rf_referred_user_id r = uid" uid] by auto
  obtain y where y: "scalar_one_or_none (filter (\<lambda>e. ern_source_id e = source) (referral_earnings s)) = Inr y"
    using scalar_unique [OF assms(3), of "\<lambda>e. ern_source_id e = source" source] by auto
  let ?m = "select_one_or_none (\<lambda>s :: billing_db. filter (\<lambda>r. rf_referred_user_id r = uid) (referrals s))"
  let ?k = "select_one_or_none (\<lambda>s :: billing_db. filter (\<lambda>e. ern_source_id e = source) (referral_earnings s))"
  have sx: "?m s = (Inr x, s)" "?k s = (Inr y, s)"
    by (simp_all add: select_one_or_none_def x y)
  have credit: "on_ledger_of (bind (lock_or_create_wallet u) (\<lambda>wallet. modify (move_balance now wallet d k))) s
      = (Inr (), s\<lparr>rd_ledger := credited \<lparr>wtx_user_id = u, wtx_delta_tokens = d, wtx_kind = k,
           wtx_stripe_payment_intent_id = None, wtx_created_at = now\<rparr> (rd_ledger s)\<rparr>)" for u d k
    by (simp add: on_ledger_of_def credit_run(1) [OF assms(1)])
  show ?thesis
    by (simp add: credit_for_payment_def bind_Inr [where m = ?m, OF sx(1)]
        bind_Inr [where m = ?k, OF sx(2)] then_Inr [where m = "on_ledger_of _", OF credit] Let_def
        split: option.split)
qed

lemma record_event_run: "\<exists>b. record_billing_event e d s = (Inr (), s\<lparr>billing_events := b\<rparr>)"
  by (auto simp: record_billing_event_def bind_def intro: exI [of _ "billing_events s"])

lemma topup_run:
  assumes "pay_ok K s" "referrals_ok s" "topup_of c uid tokens cents intent"
    "intent \<notin> set (purchase_intents (rd_ledger s))"
  shows "\<exists>s'. credit_wallet_topup now c s = (Inr (), s') \<and>
    wallet_balance (rd_ledger s') uid = wallet_balance (rd_ledger s) uid + tokens \<and>
    purchases (rd_ledger s') = purchases (rd_ledger s) @ [purchase_tx now uid tokens (Some intent)] \<and>
    webhook_events s' = webhook_events s"
proof -
  let ?s = "s\<lparr>rd_ledger := credited (purchase_tx now uid tokens (Some intent)) (rd_ledger s)\<rparr>"
  let ?e = "topup_event now uid tokens (if co_meta_usd_cents c = None then None else Some cents) (Some intent)"
  have c: "0 < tokens" "paid_cents (co_meta_usd_cents c) = Inr cents" "co_payment_intent c = Some intent"
    using assms(3) by (simp_all add: topup_of_def)
  have "filter (\<lambda>t. wtx_stripe_payment_intent_id t = Some intent \<and> wtx_kind t = ''purchase'')
      (wallet_transactions (rd_ledger s)) = []"
    using assms(4) by (force simp: purchase_intents_def purchases_def filter_empty_conv)
  then have "credit_wallet_topup now c s = book_purchase now uid tokens (Some intent) c s"
    using assms(3) by (auto simp: credit_wallet_topup_def topup_of_def bind_def of_result_def py_int_text_def
        select_one_or_none_def Option.bind_def split: option.splits)
  moreover obtain b where b: "record_billing_event ?e True ?s = (Inr (), ?s\<lparr>billing_events := b\<rparr>)"
    using record_event_run by blast
  ultimately have run: "credit_wallet_topup now c s =
     (if cents > 0 then credit_for_payment now uid cents intent (dec_div (cents, 0) (tokens, 0)) (?s\<lparr>billing_events := b\<rparr>)
      else (Inr (), ?s\<lparr>billing_events := b\<rparr>))"
    by (simp add: book_purchase_run [OF pay_ok_wallet_keys [OF assms(1)]] c bind_def of_result_def then_do_def)
  have bal: "wallet_balance (rd_ledger ?s) uid = wallet_balance (rd_ledger s) uid + tokens"
    "purchases (rd_ledger ?s) = purchases (rd_ledger s) @ [purchase_tx now uid tokens (Some intent)]"
    by (simp_all add: credited_balance purchase_tx_def purchases_def)
  show ?thesis
  proof (cases "cents > 0")
    case True
    have k: "wallet_keys (rd_ledger ?s)" using credited_wallet_keys [OF pay_ok_wallet_keys [OF assms(1)]] by simp
    have "\<exists>s'. credit_for_payment now uid cents intent (dec_div (cents, 0) (tokens, 0)) (?s\<lparr>billing_events := b\<rparr>) = (Inr (), s')"
      using k assms(1,2) by (intro credit_for_payment_succeeds) (simp_all add: referrals_ok_def pay_ok_def)
    then obtain s' where s': "credit_for_payment now uid cents intent (dec_div (cents, 0) (tokens, 0)) (?s\<lparr>billing_events := b\<rparr>) = (Inr (), s')" ..
    have "wallet_balance (rd_ledger s') uid = wallet_balance (rd_ledger ?s) uid \<and>
        purchases (rd_ledger s') = purchases (rd_ledger ?s) \<and> webhook_events s' = webhook_events s"
    proof (rule credit_for_payment_cases [OF _ s'])
      fix ref ern assume r: "ref \<in> set (referrals (?s\<lparr>billing_events := b\<rparr>))" "rf_referred_user_id ref = uid"
        "s' = ?s\<lparr>billing_events := b, rd_ledger := credited (bonus_tx now (rf_referrer_user_id ref) (ern_tokens_credited ern))
             (rd_ledger (?s\<lparr>billing_events := b\<rparr>)), referral_earnings := referral_earnings (?s\<lparr>billing_events := b\<rparr>) @ [ern]\<rparr>"
      have "rf_referrer_user_id ref \<noteq> uid" using assms(2) r(1,2) by (auto simp: referrals_ok_def)
      then show ?thesis unfolding r(3) by (simp add: credited_balance bonus_tx_def purchases_def)
    qed (use k in simp_all)
    then show ?thesis using run True s' bal by simp
  next
    case False
    then show ?thesis using run bal by simp
  qed
qed

lemma process_event_snd:
  assumes "pay_ok K s" "\<And>t. pay_ok K t \<Longrightarrow> rd_ledger t = rd_ledger s \<Longrightarrow> snd (apply_event env (sv_payload event) t) = t"
  shows "\<exists>h. snd (process_event env event s) = s\<lparr>webhook_events := h\<rparr>"
proof -
  have d: "distinct (map we_stripe_event_id (webhook_events s))" using assms(1) by (simp add: pay_ok_def)
  have m: "\<exists>h. snd (apply_and_mark env event row (s\<lparr>webhook_events := w\<rparr>)) = s\<lparr>webhook_events := h\<rparr>"
    if "distinct (map we_stripe_event_id w)" for row w
  proof -
    have "pay_ok K (s\<lparr>webhook_events := w\<rparr>)" using assms(1) that by (simp add: pay_ok_def)
    from assms(2) [OF this] show ?thesis
      by (auto simp: apply_and_mark_def then_do_def bind_def split: prod.splits sum.splits)
  qed
  show ?thesis
  proof (rule process_event_cases [OF d, of event env])
    fix w assume "process_event env event s = apply_and_mark env event w s"
    then show ?thesis using m [OF d, of w] by simp
  next
    assume "sv_id event \<notin> we_stripe_event_id ` set (webhook_events s)"
      "process_event env event s = apply_and_mark env event (event_row event)
         (s\<lparr>webhook_events := webhook_events s @ [event_row event]\<rparr>)"
    then show ?thesis using m [of "webhook_events s @ [event_row event]" "event_row event"] d
      by (simp add: event_row_def)
  qed (metis billing_db.surjective billing_db.update_convs(2) snd_conv)
qed

lemma topup_processed:
  assumes "pay_ok {} s" "referrals_ok s" "topup_of c uid tokens cents intent"
    and "intent \<notin> set (purchase_intents (rd_ledger s))" "\<not> processed (sv_id event) s"
    and "sv_payload event = CheckoutCompleted c"
  obtains s' where "process_event env event s = (Inr True, s')"
    "wallet_balance (rd_ledger s') uid = wallet_balance (rd_ledger s) uid + tokens"
    "purchases (rd_ledger s') = purchases (rd_ledger s) @ [purchase_tx (bv_now env) uid tokens (Some intent)]"
proof -
  let ?t = "purchase_tx (bv_now env) uid tokens (Some intent)"
  have d: "distinct (map we_stripe_event_id (webhook_events s))" using assms(1) by (simp add: pay_ok_def)
  have run: "\<exists>s'. apply_and_mark env event row (s\<lparr>webhook_events := w\<rparr>) = (Inr True, s') \<and>
      wallet_balance (rd_ledger s') uid = wallet_balance (rd_ledger s) uid + tokens \<and>
      purchases (rd_ledger s') = purchases (rd_ledger s) @ [?t]"
    if "distinct (map we_stripe_event_id w)" for row w
  proof -
    have "pay_ok {} (s\<lparr>webhook_events := w\<rparr>)" using assms(1) that by (simp add: pay_ok_def)
    from topup_run [OF this _ assms(3), of "bv_now env"] assms(2,4)
    obtain s' where "credit_wallet_topup (bv_now env) c (s\<lparr>webhook_events := w\<rparr>) = (Inr (), s')"
      "wallet_balance (rd_ledger s') uid = wallet_balance (rd_ledger s) uid + tokens"
      "purchases (rd_ledger s') = purchases (rd_ledger s) @ [?t]"
      by (auto simp: referrals_ok_def)
    then show ?thesis
      using assms(3,6) by (simp add: apply_and_mark_def apply_event_def topup_of_def then_do_def bind_def)
  qed
  show thesis
  proof (rule process_event_cases [OF d, of event env])
    fix w assume "process_event env event s = apply_and_mark env event w s"
    then show thesis using run [OF d, of w] that by auto
  next
    assume "sv_id event \<notin> we_stripe_event_id ` set (webhook_events s)"
      "process_event env event s = apply_and_mark env event (event_row event)
         (s\<lparr>webhook_events := webhook_events s @ [event_row event]\<rparr>)"
    then show thesis using run [of "webhook_events s @ [event_row event]" "event_row event"] d that
      by (auto simp: event_row_def)
  qed (use assms(5) in simp)
qed

text \<open>C13: The webhook of a completed top-up credits exactly the tokens bought to the buyer's wallet as
  one purchase under the payment intent; and ever after, whatever else happened, no further delivery
  for that payment, under the same event or another, changes anything but the list of events seen.\<close>

theorem topup_credited_exactly_once:
  assumes "pay_ok {} s" "referrals_ok s" "topup_of c uid tokens cents intent"
    and "intent \<notin> set (purchase_intents (rd_ledger s))" "\<not> processed (sv_id event) s"
    and "sv_payload event = CheckoutCompleted c"
  shows "\<exists>s'. process_event env event s = (Inr True, s') \<and>
    wallet_balance (rd_ledger s') uid = wallet_balance (rd_ledger s) uid + tokens \<and>
    purchases (rd_ledger s') = purchases (rd_ledger s) @ [purchase_tx (bv_now env) uid tokens (Some intent)] \<and>
    (\<forall>t env' event' c'. billing_step\<^sup>*\<^sup>* s' t \<and> sv_payload event' = CheckoutCompleted c' \<and>
        co_purpose c' = Some ''wallet_topup'' \<and> co_payment_intent c' = Some intent \<longrightarrow>
        (\<exists>h. snd (process_event env' event' t) = t\<lparr>webhook_events := h\<rparr>))"
proof -
  let ?t = "purchase_tx (bv_now env) uid tokens (Some intent)"
  obtain s' where s': "process_event env event s = (Inr True, s')"
    "wallet_balance (rd_ledger s') uid = wallet_balance (rd_ledger s) uid + tokens"
    "purchases (rd_ledger s') = purchases (rd_ledger s) @ [?t]"
    by (rule topup_processed [OF assms])
  have "pay_ok {?t} s'" using pay_safeD [OF process_event_safe assms(1) s'(1)] s'(3) by (simp add: pay_ok_def)
  then have later: "pay_ok {?t} t" if "billing_step\<^sup>*\<^sup>* s' t" for t using billing.reachable [OF that] by blast
  have "\<exists>h. snd (process_event env' event' t) = t\<lparr>webhook_events := h\<rparr>"
    if "billing_step\<^sup>*\<^sup>* s' t" "sv_payload event' = CheckoutCompleted c'"
      "co_purpose c' = Some ''wallet_topup''" "co_payment_intent c' = Some intent" for t env' event' c'
    by (rule process_event_snd [OF later [OF that(1)]])
      (use that topup_repeat [of "{?t}" _ ?t intent c'] in \<open>simp add: apply_event_def purchase_tx_def\<close>)
  then show ?thesis using s' by blast
qed


section \<open>Subscriptions\<close>

definition subs_ok :: "ledger \<Rightarrow> bool" where
  "subs_ok l \<longleftrightarrow> distinct (map sub_id (user_subscriptions l)) \<and> distinct (map sub_user_id (user_subscriptions l))"

definition ids_fresh :: "ledger \<Rightarrow> bool" where
  "ids_fresh l \<longleftrightarrow> (\<forall>r \<in> set (user_subscriptions l). sub_id r < next_id l)"

definition subscriptions_of :: "nat \<Rightarrow> billing_db \<Rightarrow> subscription_row list" where
  "subscriptions_of uid s = filter (\<lambda>r. sub_user_id r = uid) (user_subscriptions (rd_ledger s))"

lemma synced_row_fields [simp]:
  "sub_id (synced_row sub pid r) = sub_id r" "sub_user_id (synced_row sub pid r) = sub_user_id r"
  "sub_plan_id (synced_row sub pid r) = pid"
  "sub_stripe_subscription_id (synced_row sub pid r) = sub_stripe_subscription_id r"
  by (simp_all add: synced_row_def)

text \<open>A handler that leaves the subscriptions and their history alone.\<close>

definition subs_frame :: "billing_db \<Rightarrow> billing_db \<Rightarrow> bool" where
  "subs_frame s s' \<longleftrightarrow> user_subscriptions (rd_ledger s') = user_subscriptions (rd_ledger s) \<and>
     next_id (rd_ledger s) \<le> next_id (rd_ledger s') \<and> billing_events s' = billing_events s"

definition keeps_subs :: "(billing_db, 'a) handler \<Rightarrow> bool" where
  "keeps_subs m \<longleftrightarrow> (\<forall>s r s'. m s = (r, s') \<longrightarrow> subs_frame s s')"

lemma subs_frame_trans: "subs_frame s t \<Longrightarrow> subs_frame t u \<Longrightarrow> subs_frame s u"
  by (simp add: subs_frame_def)

lemma keeps_subs_bind: "keeps_subs m \<Longrightarrow> (\<And>x. keeps_subs (f x)) \<Longrightarrow> keeps_subs (bind m f)"
  unfolding keeps_subs_def bind_def
  by (fastforce split: prod.splits sum.splits intro: subs_frame_trans)

lemma keeps_subs_then: "keeps_subs m \<Longrightarrow> keeps_subs k \<Longrightarrow> keeps_subs (then_do m k)"
  by (simp add: then_do_def keeps_subs_bind)

lemma keeps_subs_cases:
  "keeps_subs m \<Longrightarrow> keeps_subs k \<Longrightarrow> keeps_subs (if b then m else k)"
  "(\<And>a b. keeps_subs (g a b)) \<Longrightarrow> keeps_subs (case_prod g p)"
  "keeps_subs n \<Longrightarrow> (\<And>x. keeps_subs (h x)) \<Longrightarrow> keeps_subs (case_option n h v)"
  by (simp_all split: prod.split option.split)

lemma keeps_subs_simple:
  "keeps_subs (ret x)" "keeps_subs (raise e)" "keeps_subs (gets f)" "keeps_subs (guard_or b e)"
  "keeps_subs (of_result r)" "keeps_subs (select_one_or_none sel)"
  "(\<And>s. subs_frame s (g s)) \<Longrightarrow> keeps_subs (modify g)"
  by (auto simp: keeps_subs_def subs_frame_def of_result_def select_one_or_none_def)

lemmas keeps_subs_rules = keeps_subs_bind keeps_subs_then keeps_subs_cases keeps_subs_simple

lemma keeps_subs_ledger:
  assumes "\<And>l :: ledger. triple (\<lambda>x. user_subscriptions x = user_subscriptions l \<and> next_id l \<le> next_id x) h
      (\<lambda>_ x. user_subscriptions x = user_subscriptions l \<and> next_id l \<le> next_id x)
      (\<lambda>x. user_subscriptions x = user_subscriptions l \<and> next_id l \<le> next_id x)"
  shows "keeps_subs (on_ledger_of h)"
  unfolding keeps_subs_def
proof (intro allI impI)
  fix s r and s' :: billing_db assume r: "on_ledger_of h s = (r, s')"
  then show "subs_frame s s'"
    using assms [of "rd_ledger s"]
    by (cases "h (rd_ledger s)"; cases "fst (h (rd_ledger s))")
      (fastforce simp: on_ledger_of_def subs_frame_def triple_def)+
qed

lemma keeps_subs_seed: "keeps_subs (seed_catalogue env)"
  unfolding seed_catalogue_def
  by (rule keeps_subs_ledger, rule catalogue_seed_frame) (auto simp: same_accounts_def)

lemma keeps_subs_accounts:
  "keeps_subs (find_account uid)" "keeps_subs (save_account a)" "keeps_subs (upsert_billing_account uid c)"
  "keeps_subs (plan_id_for_subscription env sub price)" "keeps_subs (subscription_user sub)"
proof -
  show f: "keeps_subs (find_account uid)" for uid unfolding find_account_def by (rule keeps_subs_rules)
  show a: "keeps_subs (save_account a)" for a
    unfolding save_account_def by (rule keeps_subs_rules | simp add: subs_frame_def)+
  show "keeps_subs (upsert_billing_account uid c)"
    unfolding upsert_billing_account_def by (rule keeps_subs_rules f a)+
  show "keeps_subs (plan_id_for_subscription env sub price)"
    unfolding plan_id_for_subscription_def by (rule keeps_subs_rules keeps_subs_seed)+
  show "keeps_subs (subscription_user sub)" unfolding subscription_user_def by (rule keeps_subs_rules)+
qed

definition user_rows :: "nat \<Rightarrow> billing_db \<Rightarrow> subscription_row list" where
  "user_rows uid s = filter (\<lambda>r. sub_user_id r = uid) (user_subscriptions (rd_ledger s))"

lemma refresh_keeps:
  "refresh_user env uid s = (r, s') \<Longrightarrow>
     user_subscriptions (rd_ledger s') = user_subscriptions (rd_ledger s) \<and> billing_events s' = billing_events s"
  using keeps_paid_bind [OF keeps_paid_recalculate keeps_paid_simple(1)]
  by (fastforce simp: refresh_user_def bind_def [of "gets _"] on_ledger_of_def keeps_paid_def paid_part_def
      split: option.splits prod.splits)

lemma record_event_keeps: "record_billing_event e d s = (r, s') \<Longrightarrow> rd_ledger s' = rd_ledger s"
  using record_event_run [of e d s] by auto

lemma history_keeps:
  assumes "record_subscription_changes now previous current s = (r, s')"
  shows "rd_ledger s' = rd_ledger s"
proof -
  have "rd_ledger s' = rd_ledger s" if "for_each (\<lambda>(kind, priced). bind (gets (\<lambda>s. history_entry now current s kind priced))
         (\<lambda>e. record_billing_event e False)) xs s = (r, s')" for xs s r s'
    using that
    by (induction xs arbitrary: s) (auto simp: then_do_def bind_def dest!: record_event_keeps split: prod.splits sum.splits)
  then show ?thesis using assms unfolding record_subscription_changes_def by blast
qed

text \<open>The shape of a successful sync of a subscription that names its user.\<close>

lemma sync_inversion:
  assumes "sync_subscription_object env sub s = (Inr (Some r), s1)" "ss_meta_user_id sub = Some (Uuid uid)"
  obtains t existing pid hist u where "subs_frame s t" "scalar_one_or_none (user_rows uid t) = Inr existing"
    "write_subscription sub pid uid existing t = (Inr (r, hist), u)"
    "user_subscriptions (rd_ledger s1) = user_subscriptions (rd_ledger u)"
    "hist \<Longrightarrow> subscription_changes existing r = [] \<Longrightarrow> billing_events s1 = billing_events u"
    "\<not> hist \<Longrightarrow> billing_events s1 = billing_events u"
proof -
  have "sync_for_user env sub uid s = (Inr (Some r), s1)"
    using assms by (simp add: sync_subscription_object_def subscription_user_def bind_def of_result_def)
  then obtain t0 t1 t2 pid existing w u where
      a: "(case ss_customer sub of None \<Rightarrow> ret () | Some c \<Rightarrow> upsert_billing_account uid c) s = (Inr (), t0)"
    and b: "plan_id_for_subscription env sub (subscription_price_id sub) t0 = (Inr pid, t1)"
    and c: "select_one_or_none (\<lambda>s. filter (\<lambda>r. sub_user_id r = uid) (user_subscriptions (rd_ledger s))) t1 = (Inr existing, t2)"
    and d0: "write_subscription sub pid uid existing t2 = (Inr w, u)"
    and e0: "(case w of (current, record_history) \<Rightarrow> then_do (refresh_user env uid)
         (then_do (if record_history then record_subscription_changes (bv_now env) existing current else ret ())
           (ret (Some current)))) u = (Inr (Some r), s1)"
    unfolding sync_for_user_def by (elim bindE thenE) simp
  obtain r' hist where w: "w = (r', hist)" by (cases w)
  obtain v where e: "refresh_user env uid u = (Inr (), v)"
    and f': "(if hist then record_subscription_changes (bv_now env) existing r' else ret ()) v = (Inr (), s1)" "r' = r"
    using e0 unfolding w prod.case by (elim thenE) simp
  have d: "write_subscription sub pid uid existing t2 = (Inr (r, hist), u)"
    and f: "(if hist then record_subscription_changes (bv_now env) existing r else ret ()) v = (Inr (), s1)"
    using d0 f'(1) unfolding w f'(2) by simp_all
  have ab: "subs_frame s t0" "subs_frame t0 t1" and t2: "t2 = t1"
    and ex: "scalar_one_or_none (user_rows uid t1) = Inr existing"
    using a b c keeps_subs_accounts(3,4) keeps_subs_simple(1)
    by (auto simp: keeps_subs_def select_one_or_none_def user_rows_def subs_frame_def split: option.splits)
  have v: "user_subscriptions (rd_ledger v) = user_subscriptions (rd_ledger u)" "billing_events v = billing_events u"
    using refresh_keeps [OF e] by simp_all
  have w: "rd_ledger s1 = rd_ledger v" using history_keeps f by (auto split: if_splits)
  show thesis
  proof (rule that [OF subs_frame_trans [OF ab] ex d [unfolded t2]])
    show "user_subscriptions (rd_ledger s1) = user_subscriptions (rd_ledger u)" using v(1) w by simp
    show "billing_events s1 = billing_events u" if "hist" "subscription_changes existing r = []"
      using f v(2) that by (simp add: record_subscription_changes_def)
    show "billing_events s1 = billing_events u" if "\<not> hist" using f v(2) that by simp
  qed
qed

text \<open>What the write leaves: the user's only row, in the state Stripe reported.\<close>

definition reported :: "stripe_subscription \<Rightarrow> subscription_row \<Rightarrow> bool" where
  "reported sub r \<longleftrightarrow> sub_stripe_subscription_id r = Some (ss_id sub) \<and>
     sub_stripe_price_id r = subscription_price_id sub \<and>
     sub_status r = (case ss_status sub of None \<Rightarrow> ''unknown'' | Some v \<Rightarrow> v) \<and>
     sub_current_period_start r = subscription_item_period sub ss_current_period_start si_current_period_start \<and>
     sub_current_period_end r = subscription_item_period sub ss_current_period_end si_current_period_end \<and>
     sub_cancel_at_period_end r = ss_cancel_at_period_end sub"

definition not_anothers :: "stripe_subscription \<Rightarrow> nat \<Rightarrow> billing_db \<Rightarrow> bool" where
  "not_anothers sub uid s \<longleftrightarrow> (\<forall>r \<in> set (user_subscriptions (rd_ledger s)).
     sub_stripe_subscription_id r = Some (ss_id sub) \<longrightarrow> sub_user_id r = uid)"

lemma reported_synced: "reported sub ((synced_row sub pid r)\<lparr>sub_stripe_subscription_id := Some (ss_id sub)\<rparr>)"
  by (simp add: reported_def synced_row_def)

lemma synced_reported: "reported sub r \<Longrightarrow> (synced_row sub (sub_plan_id r) r)\<lparr>sub_stripe_subscription_id := Some (ss_id sub)\<rparr> = r"
  by (cases r) (simp add: reported_def synced_row_def)

lemma user_rows_Some: "scalar_one_or_none (user_rows uid s) = Inr (Some e) \<longleftrightarrow> user_rows uid s = [e]"
  by (rule scalar_one_or_none_Some)

lemma write_outcome:
  assumes "subs_ok (rd_ledger t)" "existing = None \<Longrightarrow> ids_fresh (rd_ledger t)" "not_anothers sub uid t"
    and "scalar_one_or_none (user_rows uid t) = Inr existing"
    "write_subscription sub pid uid existing t = (Inr (r, hist), u)"
  shows "hist \<and> user_rows uid u = [r] \<and> reported sub r \<and> sub_plan_id r = pid \<and> sub_user_id r = uid \<and>
    subs_ok (rd_ledger u) \<and> not_anothers sub uid u \<and> billing_events u = billing_events t \<and>
    (\<forall>e. existing = Some e \<longrightarrow> r = (synced_row sub pid e)\<lparr>sub_stripe_subscription_id := Some (ss_id sub)\<rparr> \<and>
       rd_ledger u = put_subscription r (rd_ledger t))"
proof (cases existing)
  case (Some e)
  then have e: "user_rows uid t = [e]" using assms(4) by (simp add: scalar_one_or_none_Some)
  then have "e \<in> set (user_rows uid t)" by simp
  then have m: "e \<in> set (user_subscriptions (rd_ledger t))" "sub_user_id e = uid" by (simp_all add: user_rows_def)
  let ?r = "(synced_row sub pid e)\<lparr>sub_stripe_subscription_id := Some (ss_id sub)\<rparr>"
  have u: "r = ?r" "hist" "u = t\<lparr>rd_ledger := put_subscription ?r (rd_ledger t)\<rparr>"
    using assms(5) Some by (auto simp: write_subscription_def bind_def then_do_def on_ledger_modify Let_def split: if_splits)
  have rows: "user_subscriptions (rd_ledger u) = replace_by sub_id ?r (user_subscriptions (rd_ledger t))"
    by (simp add: u(3) put_subscription_def)
  have ids: "distinct (map sub_id (user_subscriptions (rd_ledger t)))" using assms(1) by (simp add: subs_ok_def)
  have "user_rows uid u = map (\<lambda>q. if sub_id q = sub_id ?r then ?r else q) (user_rows uid t)"
    unfolding user_rows_def rows replace_by_def filter_map o_def
    using same_key_same_row [OF ids _ m(1)] m(2) by (intro arg_cong [where f = "map _"] filter_cong) auto
  then have "user_rows uid u = [?r]" by (simp add: e)
  moreover have "map sub_user_id (user_subscriptions (rd_ledger u)) = map sub_user_id (user_subscriptions (rd_ledger t))"
    unfolding rows by (rule map_replace_by) (use same_key_same_row [OF ids _ m(1)] in auto)
  ultimately show ?thesis
    using assms(1,3) u m Some reported_synced [of sub pid e]
    by (auto simp: rows subs_ok_def not_anothers_def set_replace_by put_subscription_def)
next
  case None
  then have e: "user_rows uid t = []" using assms(4) by (simp add: scalar_one_or_none_None)
  have h: "sub_user_id x = uid" if "find (\<lambda>r. sub_stripe_subscription_id r = Some (ss_id sub)) (user_subscriptions (rd_ledger t)) = Some x" for x
    using find_SomeD [OF that] assms(3) by (auto simp: not_anothers_def)
  have "x \<in> set (user_rows uid t)" if "find (\<lambda>r. sub_stripe_subscription_id r = Some (ss_id sub)) (user_subscriptions (rd_ledger t)) = Some x" for x
    using find_SomeD [OF that] h [OF that] by (simp add: user_rows_def)
  then have holder: "find (\<lambda>r. sub_stripe_subscription_id r = Some (ss_id sub)) (user_subscriptions (rd_ledger t)) = None"
    using e by (cases "find (\<lambda>r. sub_stripe_subscription_id r = Some (ss_id sub)) (user_subscriptions (rd_ledger t))") auto
  let ?r = "(synced_row sub pid (blank_subscription (next_id (rd_ledger t)) uid))\<lparr>sub_stripe_subscription_id := Some (ss_id sub)\<rparr>"
  have u: "r = ?r" "hist" "u = t\<lparr>rd_ledger := add_subscription ?r (rd_ledger t)\<rparr>"
    using assms(5) None
    by (auto simp: write_subscription_def bind_def then_do_def on_ledger_modify Let_def holder split: if_splits)
  have b: "sub_id (blank_subscription i uid) = i" "sub_user_id (blank_subscription i uid) = uid" for i
    by (simp_all add: blank_subscription_def)
  have "sub_id ?r = next_id (rd_ledger t)" by (simp add: b)
  then have "?r\<lparr>sub_id := next_id (rd_ledger t)\<rparr> = ?r" by (metis subscription_row.surjective subscription_row.update_convs(1) subscription_row.select_convs(1))
  then have rows: "user_subscriptions (rd_ledger u) = user_subscriptions (rd_ledger t) @ [?r]"
    by (simp add: u(3) add_subscription_def)
  have new: "uid \<notin> sub_user_id ` set (user_subscriptions (rd_ledger t))"
    using e by (auto simp: user_rows_def filter_empty_conv)
  have "user_rows uid u = [?r]" using e by (simp add: user_rows_def rows b)
  then show ?thesis
    using assms(1,3) assms(2) [OF None] u None new reported_synced [of sub pid "blank_subscription (next_id (rd_ledger t)) uid"]
    by (auto simp: rows subs_ok_def not_anothers_def ids_fresh_def add_subscription_def b)
qed

lemma no_changes: "subscription_changes (Some r) r = []"
  by (auto simp: subscription_changes_def Let_def active_statuses_def ongoing_statuses_def)

lemma sync_outcome:
  assumes "subs_ok (rd_ledger s)" "ss_meta_user_id sub = Some (Uuid uid)" "not_anothers sub uid s"
    and "sync_subscription_object env sub s = (Inr (Some r), s1)"
    and "user_rows uid s = [] \<Longrightarrow> ids_fresh (rd_ledger s)"
  shows "user_rows uid s1 = [r] \<and> reported sub r \<and> subs_ok (rd_ledger s1) \<and> not_anothers sub uid s1 \<and>
    (\<forall>e. user_rows uid s = [e] \<and> reported sub e \<and> sub_plan_id r = sub_plan_id e \<longrightarrow>
       r = e \<and> billing_events s1 = billing_events s \<and>
       user_subscriptions (rd_ledger s1) = user_subscriptions (rd_ledger s))"
proof -
  obtain t existing pid hist u where t: "subs_frame s t" "scalar_one_or_none (user_rows uid t) = Inr existing"
    "write_subscription sub pid uid existing t = (Inr (r, hist), u)"
    "user_subscriptions (rd_ledger s1) = user_subscriptions (rd_ledger u)"
    "hist \<Longrightarrow> subscription_changes existing r = [] \<Longrightarrow> billing_events s1 = billing_events u"
    by (rule sync_inversion [OF assms(4,2)]) blast
  have ok: "subs_ok (rd_ledger t)" "not_anothers sub uid t" and rows: "user_rows uid t = user_rows uid s"
    using assms(1,3) t(1) by (auto simp: subs_ok_def subs_frame_def not_anothers_def user_rows_def intro: less_le_trans)
  have "ids_fresh (rd_ledger t)" if "existing = None"
    using assms(5) t(1,2) that by (auto simp: rows scalar_one_or_none_None ids_fresh_def subs_frame_def intro: less_le_trans)
  note w = write_outcome [OF ok(1) this ok(2) t(2,3)]
  have "r = e \<and> billing_events s1 = billing_events s \<and>
      user_subscriptions (rd_ledger s1) = user_subscriptions (rd_ledger s)"
    if e: "user_rows uid s = [e]" "reported sub e" "sub_plan_id r = sub_plan_id e" for e
  proof -
    have ex: "existing = Some e" using t(2) e(1) rows by simp
    then have re: "r = e" using w e synced_reported [OF e(2)] by metis
    have "e \<in> set (user_rows uid t)" by (simp add: rows e(1))
    then have m: "e \<in> set (user_subscriptions (rd_ledger t))" by (simp add: user_rows_def)
    have "user_subscriptions (rd_ledger u) = replace_by sub_id e (user_subscriptions (rd_ledger t))"
      using w ex re by (simp add: put_subscription_def)
    also have "\<dots> = user_subscriptions (rd_ledger t)"
      unfolding replace_by_def
      by (rule map_idI) (use same_key_same_row [of sub_id] ok(1) m in \<open>auto simp: subs_ok_def\<close>)
    finally show ?thesis using t(1,4,5) w re ex no_changes [of e] by (simp add: subs_frame_def)
  qed
  moreover have "user_rows uid s1 = user_rows uid u" "subs_ok (rd_ledger s1) = subs_ok (rd_ledger u)"
    "not_anothers sub uid s1 = not_anothers sub uid u"
    by (simp_all add: user_rows_def subs_ok_def not_anothers_def t(4))
  moreover have "user_rows uid u = [r]" "reported sub r" "subs_ok (rd_ledger u)" "not_anothers sub uid u"
    using w by blast+
  ultimately show ?thesis by (intro conjI allI impI) (simp | elim conjE, simp)+
qed

text \<open>C14: A synced subscription mirrors Stripe: the user's only subscription row is in the state Stripe
  reported, and syncing the same state again, through the webhook, the success page or a retry, keeps
  the row and adds nothing to the user's billing history.\<close>

theorem synced_subscription_mirrors_stripe:
  assumes "subs_ok (rd_ledger s)" "ss_meta_user_id sub = Some (Uuid uid)" "not_anothers sub uid s"
    and "sync_subscription_object env sub s = (Inr (Some r), s1)" "ids_fresh (rd_ledger s)"
  shows "user_rows uid s1 = [r] \<and> reported sub r \<and>
    (\<forall>env' r' s2. sync_subscription_object env' sub s1 = (Inr (Some r'), s2) \<and> sub_plan_id r' = sub_plan_id r \<longrightarrow>
        r' = r \<and> billing_events s2 = billing_events s1 \<and>
        user_subscriptions (rd_ledger s2) = user_subscriptions (rd_ledger s1))"
proof -
  have o: "user_rows uid s1 = [r]" "reported sub r" "subs_ok (rd_ledger s1)" "not_anothers sub uid s1"
    using sync_outcome [OF assms] by simp_all
  have "r' = r \<and> billing_events s2 = billing_events s1 \<and>
      user_subscriptions (rd_ledger s2) = user_subscriptions (rd_ledger s1)"
    if "sync_subscription_object env' sub s1 = (Inr (Some r'), s2)" "sub_plan_id r' = sub_plan_id r" for env' r' s2
    using sync_outcome [OF o(3) assms(2) o(4) that(1)] o(1,2) that(2) by simp
  then show ?thesis using o by blast
qed

text \<open>Events are applied in the order they arrive, whichever subscription they are about: the
  cancellation of an old subscription replaces the row of the user's active one, so the user loses
  the paid allowance and a second checkout is let through.\<close>

theorem stale_cancellation_drops_active:
  assumes "subs_ok (rd_ledger s)" "ss_meta_user_id sub = Some (Uuid uid)" "not_anothers sub uid s"
    and "sync_subscription_object env sub s = (Inr (Some r), s1)"
    and "user_rows uid s = [e]" "sub_status e = ''active''" "sub_stripe_subscription_id e \<noteq> Some (ss_id sub)"
    and "ss_status sub = Some ''canceled''"
  shows "e \<notin> set (user_subscriptions (rd_ledger s1)) \<and> live_subscription uid s1 = (Inr None, s1)"
proof -
  have r: "user_rows uid s1 = [r]" "reported sub r" using sync_outcome [OF assms(1-4)] assms(5) by simp_all
  have "e \<in> set (user_rows uid s)" by (simp add: assms(5))
  then have u: "sub_user_id e = uid" by (simp add: user_rows_def)
  have "sub_status r = ''canceled''" "r \<noteq> e" using r(2) assms(6,8) by (auto simp: reported_def)
  then have "filter (\<lambda>r. sub_status r = ''active'' \<or> sub_status r = ''trialing'') (user_rows uid s1) = []"
    and "e \<notin> set (user_rows uid s1)" by (simp_all add: r(1))
  then show ?thesis
    by (simp add: live_subscription_def select_one_or_none_def user_rows_def u conj_commute)
qed

end
