(* ===== verification/BillingDemo.thy ===== *)
theory BillingDemo
  imports BillingProps
begin

text \<open>
  The properties of the payments at concrete inputs: a top-up, an invoice while Stripe cannot be
  reached, and the cancellation of an old subscription.
\<close>

definition demo_topup :: checkout_object where
  "demo_topup = \<lparr>co_id = Some ''cs_2'', co_status = Some ''complete'', co_purpose = Some ''wallet_topup'',
     co_meta_user_id = Some (Uuid 1), co_meta_tokens = Some ''2600'', co_meta_usd_cents = Some ''25'',
     co_client_reference_id = None, co_customer = None, co_subscription = None, co_payment_intent = Some ''pi_1''\<rparr>"

definition demo_payment :: stripe_event where
  "demo_payment = \<lparr>sv_id = ''evt_1'', sv_payload = CheckoutCompleted demo_topup\<rparr>"

definition demo_stripe :: stripe_api where
  "demo_stripe = \<lparr>sa_construct_event = (\<lambda>p _. if p = ''payment'' then Inr demo_payment else Inl value_error), sa_create_customer = (\<lambda>_. Inr ''cus_1''),
     sa_create_checkout = (\<lambda>_. Inr (''cs_1'', ''url'')), sa_create_topup = (\<lambda>_. Inr (''cs_2'', ''url'')),
     sa_retrieve_checkout = (\<lambda>_. Inl value_error),
     sa_retrieve_subscription = (\<lambda>_. Inl (PyExc ''APIConnectionError'')),
     sa_update_price = (\<lambda>_. Inl value_error), sa_cancel = (\<lambda>_ _. Inl value_error),
     sa_create_portal = (\<lambda>_. Inr (''bps_1'', ''url''))\<rparr>"

definition demo_catalogue_settings :: catalogue_settings where
  "demo_catalogue_settings = settings.extend demo_settings (catalogue_settings.fields None None None None None None None None)"

definition demo_billing_env :: billing_env where
  "demo_billing_env = \<lparr>bv_now = demo_now, bv_config = demo_catalogue_settings, bv_stripe = demo_stripe\<rparr>"

definition demo_billing :: billing_db where
  "demo_billing = \<lparr>rd_ledger = demo_reserved, referral_codes = [], referral_aliases = [], referrals = [],
     referral_earnings = [], rd_next = 1, billing_accounts = [], webhook_events = [], billing_events = []\<rparr>"

lemma demo_pay_ok: "pay_ok {} demo_billing"
  using demo_reserved_accounts
  by (simp add: pay_ok_def demo_billing_def purchase_intents_def purchases_def demo_reserved_def demo_ledger_def)

lemma demo_topup_of: "topup_of demo_topup 1 2600 25 ''pi_1''"
  by (simp add: topup_of_def demo_topup_def checkout_owner_def paid_cents_def py_int_text_def) code_simp

lemma demo_no_purchases: "purchases (rd_ledger demo_billing) = []"
  by (simp add: purchases_def demo_billing_def demo_reserved_def demo_ledger_def)

lemma demo_unprocessed:
  "referrals_ok demo_billing" "''pi_1'' \<notin> set (purchase_intents (rd_ledger demo_billing))"
  "\<not> processed (sv_id demo_payment) demo_billing" "sv_payload demo_payment = CheckoutCompleted demo_topup"
  by (simp_all add: referrals_ok_def purchase_intents_def demo_no_purchases)
    (simp_all add: demo_billing_def processed_def demo_payment_def)

text \<open>The webhook delivers the payment twice.\<close>

lemma payments_credited_once_witness:
  "\<exists>s1 s2. stripe_webhook demo_billing_env ''payment'' (Some ''sig'') demo_billing = (Inr True, s1) \<and>
     s2 = snd (stripe_webhook demo_billing_env ''payment'' (Some ''sig'') s1) \<and>
     wallet_balance (rd_ledger s1) 1 = wallet_balance (rd_ledger demo_billing) 1 + 2600 \<and>
     purchase_intents (rd_ledger s1) = [''pi_1''] \<and> distinct (purchase_intents (rd_ledger s2))"
proof -
  obtain s1 where s1: "process_event demo_billing_env demo_payment demo_billing = (Inr True, s1)"
    "wallet_balance (rd_ledger s1) 1 = wallet_balance (rd_ledger demo_billing) 1 + 2600"
    "purchases (rd_ledger s1) = purchases (rd_ledger demo_billing) @ [purchase_tx (bv_now demo_billing_env) 1 2600 (Some ''pi_1'')]"
    by (rule topup_processed [OF demo_pay_ok demo_unprocessed(1) demo_topup_of demo_unprocessed(2,3,4)])
  then have w: "stripe_webhook demo_billing_env ''payment'' (Some ''sig'') demo_billing = (Inr True, s1)"
    by (simp add: stripe_webhook_def process_webhook_def committed_def bind_def of_result_def is_falsy_def
        demo_billing_env_def demo_stripe_def)
  have i: "purchase_intents (rd_ledger s1) = [''pi_1'']"
    using s1(3) by (simp add: purchase_intents_def demo_no_purchases purchase_tx_def)
  let ?s2 = "snd (stripe_webhook demo_billing_env ''payment'' (Some ''sig'') s1)"
  have "billing_step demo_billing s1" using billing_step.webhook [of demo_billing demo_billing_env "''payment''" "Some ''sig''"] w by simp
  moreover have "billing_step s1 ?s2" by (rule billing_step.webhook)
  ultimately have "billing_step\<^sup>*\<^sup>* demo_billing ?s2" by (meson converse_rtranclp_into_rtranclp r_into_rtranclp)
  from payments_credited_once [OF demo_pay_ok this] show ?thesis using w s1(2) i by blast
qed

lemma topup_credited_exactly_once_witness:
  "\<exists>s'. process_event demo_billing_env demo_payment demo_billing = (Inr True, s') \<and>
     wallet_balance (rd_ledger s') 1 = wallet_balance (rd_ledger demo_billing) 1 + 2600"
  using topup_credited_exactly_once [OF demo_pay_ok demo_unprocessed(1) demo_topup_of demo_unprocessed(2,3,4), of demo_billing_env]
  by blast

definition demo_invoice :: stripe_invoice where
  "demo_invoice = \<lparr>iv_id = Some ''in_1'', iv_subscription = Some ''sub_1'', iv_amount_paid = Some 4900,
     iv_amount_due = Some 4900, iv_currency = Some ''usd'', iv_billing_reason = Some ''subscription_cycle''\<rparr>"

definition demo_renewal :: stripe_event where
  "demo_renewal = \<lparr>sv_id = ''evt_2'', sv_payload = InvoiceEvent ''invoice.paid'' demo_invoice\<rparr>"


text \<open>The user's subscription is \<^verbatim>\<open>sub_1\<close>; Stripe reports the end of \<^verbatim>\<open>sub_0\<close>.\<close>

definition demo_old_subscription :: stripe_subscription where
  "demo_old_subscription = \<lparr>ss_id = ''sub_0'', ss_customer = Some ''cus_1'', ss_meta_user_id = Some (Uuid 1),
     ss_meta_plan_id = None, ss_status = Some ''canceled'', ss_items = [], ss_current_period_start = Some 1,
     ss_current_period_end = Some 2, ss_cancel_at_period_end = False\<rparr>"

lemmas eval_sync =
  sync_subscription_object_def subscription_user_def demo_old_subscription_def sync_for_user_def
  upsert_billing_account_def find_account_def save_account_def new_account_def find_user_def find_plan_def
  plan_id_for_subscription_def subscription_price_id_def first_subscription_item_def write_subscription_def
  synced_row_def subscription_item_period_def stripe_timestamp_def on_ledger_of_def put_subscription_def
  refresh_user_def api_recalculate_is_refresh refresh_period_def catalogue_seed_plans_def
  catalogue_seeds_def catalogue_seed_def catalogue_seed_plan_def annual_cents_def
  reconcile_prices_def fill_currency_def fill_free_allowance_def follow_price_def follow_annual_price_def
  backfill_price_def backfill_annual_price_def drop_annual_price_def stripe_price_id_def is_falsy_def
  no_amount_def settings.defs plan_seed.defs catalogue_settings.defs demo_billing_env_def
  demo_catalogue_settings_def of_result_def record_subscription_changes_def subscription_changes_def
  history_entry_def plan_details_def record_billing_event_def active_statuses_def ongoing_statuses_def

lemma demo_syncs:
  "\<exists>r. fst (sync_subscription_object demo_billing_env demo_old_subscription demo_billing) = Inr (Some r)"
  unfolding demo_reserved_def demo_event_def demo_period_def demo_billing_def
  by (simp add: eval_handlers eval_seeds eval_usage eval_reserve eval_sync demo_defs demo_plan_row_def
      cong: eval_cong)


lemma demo_subscriptions:
  "subs_ok (rd_ledger demo_billing)" "ids_fresh (rd_ledger demo_billing)"
  "not_anothers demo_old_subscription 1 demo_billing" "ss_meta_user_id demo_old_subscription = Some (Uuid 1)"
  "user_rows 1 demo_billing = [demo_subscription]"
  by (simp_all add: subs_ok_def ids_fresh_def not_anothers_def user_rows_def demo_billing_def demo_reserved_def
      demo_ledger_def demo_old_subscription_def demo_subscription_def)

lemma demo_synced:
  obtains r s1 where "sync_subscription_object demo_billing_env demo_old_subscription demo_billing = (Inr (Some r), s1)"
  using demo_syncs prod.collapse by metis

lemma synced_subscription_mirrors_stripe_witness:
  "\<exists>r s1. sync_subscription_object demo_billing_env demo_old_subscription demo_billing = (Inr (Some r), s1) \<and>
     user_rows 1 s1 = [r] \<and> sub_status r = ''canceled''"
proof -
  obtain r s1 where s: "sync_subscription_object demo_billing_env demo_old_subscription demo_billing = (Inr (Some r), s1)"
    by (rule demo_synced)
  from synced_subscription_mirrors_stripe [OF demo_subscriptions(1,4,3) s demo_subscriptions(2)] s
  show ?thesis by (auto simp: reported_def demo_old_subscription_def)
qed

lemma stale_cancellation_drops_active_witness:
  "\<exists>s1. snd (sync_subscription_object demo_billing_env demo_old_subscription demo_billing) = s1 \<and>
     demo_subscription \<in> set (user_subscriptions (rd_ledger demo_billing)) \<and>
     demo_subscription \<notin> set (user_subscriptions (rd_ledger s1)) \<and> live_subscription 1 s1 = (Inr None, s1)"
proof -
  obtain r s1 where s: "sync_subscription_object demo_billing_env demo_old_subscription demo_billing = (Inr (Some r), s1)"
    by (rule demo_synced)
  have "sub_status demo_subscription = ''active''"
    "sub_stripe_subscription_id demo_subscription \<noteq> Some (ss_id demo_old_subscription)"
    "ss_status demo_old_subscription = Some ''canceled''"
    by (simp_all add: demo_subscription_def demo_old_subscription_def)
  from stale_cancellation_drops_active [OF demo_subscriptions(1,4,3) s demo_subscriptions(5) this] s
  show ?thesis by (auto simp: demo_billing_def demo_reserved_def demo_ledger_def)
qed

end
