(* ===== verification/Receipts.thy ===== *)
theory Receipts
  imports Forwarder EpochStats KeySchemas
begin

text \<open>
  The corroboration of the platform's own attempt records by the receipts of the enclaves:
  \<^verbatim>\<open>TeeReceiptsCollector\<close> of \<^verbatim>\<open>inference_api/miners/receipts.py\<close>, the message an enclave signs over
  its usage head (\<^verbatim>\<open>talaris_contracts/usage.py\<close>), and the part of the maintenance pass that verifies
  receipts before it freezes epochs. The network, the decryption of a token and the signature scheme
  are the parameter \<open>receipts_env\<close>; \<open>repr\<close> of floats and containers is part of it.
\<close>

section \<open>The signed head\<close>

text \<open>Texts are held as the bytes of their encoding.\<close>

definition int_text :: "int \<Rightarrow> string" where
  "int_text n = (if n < 0 then ''-'' @ show_base 10 (nat (- n)) else show_base 10 (nat n))"

definition encoded :: "string \<Rightarrow> nat list" where
  "encoded = map code_of"

definition usage_head_domain :: string where
  "usage_head_domain = ''tee-wrapper/usage-head/v1''"

text \<open>\<open>len(field).to_bytes(4, "big")\<close> raises beyond four bytes.\<close>

definition length_prefix :: "nat \<Rightarrow> error + nat list" where
  "length_prefix n =
     (if n < 4294967296 then Inr [n div 16777216, n div 65536 mod 256, n div 256 mod 256, n mod 256]
      else Inl (PyExc ''OverflowError''))"

fun length_prefixed :: "nat list list \<Rightarrow> error + nat list" where
  "length_prefixed [] = Inr []"
| "length_prefixed (part # parts) =
     andthen (length_prefix (length part)) (\<lambda>p.
     andthen (length_prefixed parts) (\<lambda>rest. Inr (p @ part @ rest)))"

text \<open>The epoch is given by its \<open>repr\<close>.\<close>

definition usage_head_signing_message :: "int \<Rightarrow> string \<Rightarrow> string option \<Rightarrow> error + nat list" where
  "usage_head_signing_message usage_count usage_chain_head epoch =
     length_prefixed (map encoded
       [usage_head_domain, int_text usage_count, usage_chain_head, or_empty epoch])"

section \<open>The environment and the results\<close>

text \<open>\<open>rv_fetch\<close> answers the decoded body, no body when the pin or the exchange fails, and an error for
  any other exception; \<open>rv_verify\<close> is the check of Ed25519 on texts in hex, false on malformed ones.\<close>

record receipts_env =
  rv_page_limit :: nat
  rv_decrypt :: "string \<Rightarrow> string option"
  rv_fetch :: "string \<Rightarrow> string option \<Rightarrow> string \<Rightarrow> int option \<Rightarrow> error + json option"
  rv_verify :: "string \<Rightarrow> nat list \<Rightarrow> string \<Rightarrow> bool"
  rv_repr :: "json \<Rightarrow> string"

record receipts_result =
  rr_miner_hotkey :: string
  rr_model_id :: string
  rr_rows_fetched :: nat
  rr_rows_verified :: nat
  rr_rows_unmatched :: nat
  rr_rows_truncated :: nat
  rr_cursor_advanced_to :: "int option"
  rr_skipped :: "string option"

definition blank_result :: "miner \<Rightarrow> miner_model \<Rightarrow> receipts_result" where
  "blank_result mn mm = \<lparr>rr_miner_hotkey = mn_hotkey mn, rr_model_id = mm_model_id mm,
     rr_rows_fetched = 0, rr_rows_verified = 0, rr_rows_unmatched = 0, rr_rows_truncated = 0,
     rr_cursor_advanced_to = None, rr_skipped = None\<rparr>"

definition result_ok :: "receipts_result \<Rightarrow> bool" where
  "result_ok r \<longleftrightarrow> rr_skipped r = None"

definition total_verified :: "receipts_result list \<Rightarrow> nat" where
  "total_verified rs = sum_list (map rr_rows_verified rs)"

definition models_ok :: "receipts_result list \<Rightarrow> nat" where
  "models_ok rs = length (filter result_ok rs)"

definition models_skipped :: "receipts_result list \<Rightarrow> nat" where
  "models_skipped rs = length (filter (\<lambda>r. \<not> result_ok r) rs)"

text \<open>\<open>str(value)\<close> of a decoded value, \<open>int(value)\<close> where a wrong type or text is no number, and
  \<open>a or b\<close> on optional texts.\<close>

definition py_text :: "receipts_env \<Rightarrow> json \<Rightarrow> string" where
  "py_text env v = (case v of JStr s \<Rightarrow> s | JInt n \<Rightarrow> int_text n
     | JBool b \<Rightarrow> (if b then ''True'' else ''False'') | JNull \<Rightarrow> ''None'' | _ \<Rightarrow> rv_repr env v)"

definition not_a_number :: "error \<Rightarrow> bool" where
  "not_a_number e \<longleftrightarrow> e = PyExc ''TypeError'' \<or> e = PyExc ''ValueError''"

definition maybe_int :: "json \<Rightarrow> error + int option" where
  "maybe_int v = (case py_int v of Inr n \<Rightarrow> Inr (Some n)
     | Inl e \<Rightarrow> if not_a_number e then Inr None else Inl e)"

definition or_text :: "string option \<Rightarrow> string option \<Rightarrow> string option" where
  "or_text a b = (if is_falsy a then (if is_falsy b then None else b) else a)"

definition verify_head_signature :: "receipts_env \<Rightarrow> int \<Rightarrow> string \<Rightarrow> string \<Rightarrow> string \<Rightarrow> error + bool" where
  "verify_head_signature env usage_count usage_chain_head signature_hex verify_key_hex =
     andthen (usage_head_signing_message usage_count usage_chain_head None)
       (\<lambda>message. Inr (rv_verify env verify_key_hex message signature_hex))"

section \<open>Reconciling a page\<close>

definition counts_match :: "int \<Rightarrow> json \<Rightarrow> error + bool" where
  "counts_match own reported = andthen (maybe_int reported) (\<lambda>r. Inr (r = Some own))"

definition tokens_match :: "request_stat \<Rightarrow> json \<Rightarrow> error + bool" where
  "tokens_match attempt row =
     andthen (counts_match (rs_prompt_tokens attempt) (json_field ''prompt_tokens'' row)) (\<lambda>p.
       if \<not> p then Inr False else
     andthen (counts_match (rs_completion_tokens attempt) (json_field ''completion_tokens'' row)) (\<lambda>c.
       if \<not> c then Inr False else
       counts_match (rs_total_tokens attempt) (json_field ''total_tokens'' row)))"

text \<open>The first row of the request, in the order of the table.\<close>

definition find_attempt :: "miner \<Rightarrow> miner_model \<Rightarrow> string \<Rightarrow> miners_db \<Rightarrow> request_stat option" where
  "find_attempt mn mm request_id s =
     find (\<lambda>a. rs_miner_id a = Some (mn_id mn) \<and> rs_request_id a = Some request_id \<and>
               rs_model_id a = mm_model_id mm) (miner_request_stats s)"

definition mark_verified :: "request_stat \<Rightarrow> miners_db \<Rightarrow> miners_db" where
  "mark_verified a s =
     (if rs_verified a then s
      else s\<lparr>miner_request_stats := replace_by rs_id (a\<lparr>rs_verified := True\<rparr>) (miner_request_stats s)\<rparr>)"

text \<open>The counts of verified and unmatched rows and the highest row id so far.\<close>

type_synonym tally = "nat \<times> nat \<times> int option"

definition seen_row :: "int option \<Rightarrow> tally \<Rightarrow> tally" where
  "seen_row row_id t = (case t of (verified, unmatched, highest) \<Rightarrow>
     (verified, unmatched, case row_id of None \<Rightarrow> highest
        | Some n \<Rightarrow> Some (case highest of None \<Rightarrow> n | Some m \<Rightarrow> max m n)))"

definition one_verified :: "tally \<Rightarrow> tally" where
  "one_verified t = (case t of (v, u, m) \<Rightarrow> (Suc v, u, m))"

definition one_unmatched :: "tally \<Rightarrow> tally" where
  "one_unmatched t = (case t of (v, u, m) \<Rightarrow> (v, Suc u, m))"

definition is_object :: "json \<Rightarrow> bool" where
  "is_object v = (case v of JObj _ \<Rightarrow> True | _ \<Rightarrow> False)"

definition reconcile_row ::
    "receipts_env \<Rightarrow> miner \<Rightarrow> miner_model \<Rightarrow> json \<Rightarrow> tally \<Rightarrow> (miners_db, tally) handler" where
  "reconcile_row env mn mm row t =
     (if \<not> is_object row then ret t
      else bind (of_result (maybe_int (json_field ''row_id'' row))) (\<lambda>row_id.
        let t' = seen_row row_id t; request_id = json_field ''request_id'' row
        in if \<not> json_true request_id then ret (one_unmatched t')
           else bind (gets (find_attempt mn mm (py_text env request_id))) (\<lambda>found. case found of
               None \<Rightarrow> ret (one_unmatched t')
             | Some attempt \<Rightarrow>
                 bind (of_result (tokens_match attempt row)) (\<lambda>ok.
                   if \<not> ok then ret (one_unmatched t')
                   else then_do (modify (mark_verified attempt)) (ret (one_verified t'))))))"

fun reconcile ::
    "receipts_env \<Rightarrow> miner \<Rightarrow> miner_model \<Rightarrow> json list \<Rightarrow> tally \<Rightarrow> (miners_db, tally) handler" where
  "reconcile env mn mm [] t = ret t"
| "reconcile env mn mm (row # rows) t = bind (reconcile_row env mn mm row t) (reconcile env mn mm rows)"

section \<open>One model\<close>

definition admin_token :: "receipts_env \<Rightarrow> nat \<Rightarrow> string \<Rightarrow> miners_db \<Rightarrow> string option" where
  "admin_token env mid model_id s =
     (case active_token mid model_id s of None \<Rightarrow> None
      | Some row \<Rightarrow> if is_falsy (pt_admin_encrypted_token row) then None
          else rv_decrypt env (the (pt_admin_encrypted_token row)))"

definition attested_key :: "miner \<Rightarrow> miner_model \<Rightarrow> string option" where
  "attested_key mn mm = or_text (mm_enclave_verify_key mm) (mn_enclave_verify_key mn)"

text \<open>What a page says once its head is accepted; a reason to skip it otherwise. A row list can be any
  sequence, a text included.\<close>

record receipts_page =
  pg_usage_count :: int
  pg_usage_chain_head :: string
  pg_rows :: "json list"

definition head_of_page :: "receipts_env \<Rightarrow> json \<Rightarrow> error + (int \<times> string) option" where
  "head_of_page env payload =
     (case payload of JObj d \<Rightarrow>
        (case map_of d ''usage_count'' of None \<Rightarrow> Inr None
         | Some v \<Rightarrow> (case py_int v of
             Inl e \<Rightarrow> if not_a_number e then Inr None else Inl e
           | Inr n \<Rightarrow>
               let head = json_field ''usage_chain_head'' payload
               in Inr (Some (n, if json_true head then py_text env head else []))))
      | _ \<Rightarrow> Inr None)"

definition rows_of_page :: "json \<Rightarrow> json list option" where
  "rows_of_page payload =
     (let v = json_field ''rows'' payload
      in if \<not> json_true v then Some []
         else case v of JList rows \<Rightarrow> Some rows | JStr s \<Rightarrow> Some (map (\<lambda>c. JStr [c]) s) | _ \<Rightarrow> None)"

definition rolled_back :: "miner_model \<Rightarrow> int \<Rightarrow> bool" where
  "rolled_back mm usage_count = (case mm_usage_count mm of None \<Rightarrow> False | Some n \<Rightarrow> usage_count < n)"

definition accept_page ::
    "receipts_env \<Rightarrow> string \<Rightarrow> miner_model \<Rightarrow> json option \<Rightarrow> error + (string + receipts_page)" where
  "accept_page env key mm fetched =
     (case fetched of None \<Rightarrow> Inr (Inl ''fetch_failed'') | Some payload \<Rightarrow>
        if payload = JNull then Inr (Inl ''fetch_failed'')
        else if \<not> is_object payload then Inr (Inl ''malformed_response'')
        else let signature = json_field ''head_signature'' payload;
                 reported = json_field ''verify_key'' payload
        in if \<not> json_true signature \<or> \<not> json_true reported then Inr (Inl ''no_head_signature'')
        else if lower (py_text env reported) \<noteq> lower key then Inr (Inl ''verify_key_mismatch'')
        else andthen (head_of_page env payload) (\<lambda>head. case head of
            None \<Rightarrow> Inr (Inl ''malformed_response'')
          | Some (usage_count, chain_head) \<Rightarrow>
              andthen (verify_head_signature env usage_count chain_head (py_text env signature) key) (\<lambda>valid.
                if \<not> valid then Inr (Inl ''bad_head_signature'')
                else if rolled_back mm usage_count then Inr (Inl ''usage_rollback'')
                else case rows_of_page payload of None \<Rightarrow> Inr (Inl ''malformed_response'')
                  | Some rows \<Rightarrow> Inr (Inr \<lparr>pg_usage_count = usage_count,
                      pg_usage_chain_head = chain_head, pg_rows = rows\<rparr>))))"

definition anchored :: "receipts_page \<Rightarrow> int option \<Rightarrow> miner_model \<Rightarrow> miner_model" where
  "anchored page highest mm =
     mm\<lparr>mm_receipt_cursor_row_id := (if highest = None then mm_receipt_cursor_row_id mm else highest),
        mm_usage_count := Some (pg_usage_count page),
        mm_usage_chain_head := Some (pg_usage_chain_head page)\<rparr>"

definition apply_page ::
    "receipts_env \<Rightarrow> miner \<Rightarrow> miner_model \<Rightarrow> receipts_page \<Rightarrow> (miners_db, receipts_result) handler" where
  "apply_page env mn mm page =
     (let rows = take (rv_page_limit env) (pg_rows page)
      in bind (reconcile env mn mm rows (0, 0, None)) (\<lambda>(verified, unmatched, highest).
           then_do (modify (put_model (anchored page highest mm)))
             (ret ((blank_result mn mm)\<lparr>rr_rows_fetched := length rows, rr_rows_verified := verified,
                rr_rows_unmatched := unmatched,
                rr_rows_truncated := length (pg_rows page) - rv_page_limit env,
                rr_cursor_advanced_to := highest\<rparr>))))"

definition skip_result :: "miner \<Rightarrow> miner_model \<Rightarrow> string \<Rightarrow> receipts_result" where
  "skip_result mn mm reason = (blank_result mn mm)\<lparr>rr_skipped := Some reason\<rparr>"

definition collect_model :: "receipts_env \<Rightarrow> miner \<Rightarrow> miner_model \<Rightarrow> (miners_db, receipts_result) handler" where
  "collect_model env mn mm =
     (let skip = (\<lambda>reason. ret (skip_result mn mm reason))
      in case or_text (mm_tee_endpoint mm) (Some (mn_tee_endpoint mn)) of None \<Rightarrow> skip ''no_endpoint''
       | Some endpoint \<Rightarrow>
           bind (gets (admin_token env (mn_id mn) (mm_model_id mm))) (\<lambda>token.
             if is_falsy token then skip ''no_admin_token''
             else case attested_key mn mm of None \<Rightarrow> skip ''no_attested_verify_key''
              | Some key \<Rightarrow>
                  bind (of_result (rv_fetch env endpoint
                      (or_text (mm_tls_cert_fingerprint mm) (mn_tls_cert_fingerprint mn))
                      (the token) (mm_receipt_cursor_row_id mm))) (\<lambda>fetched.
                  bind (of_result (accept_page env key mm fetched)) (\<lambda>accepted. case accepted of
                    Inl reason \<Rightarrow> skip reason
                  | Inr page \<Rightarrow> apply_page env mn mm page))))"

section \<open>All of them\<close>

definition targets :: "miners_db \<Rightarrow> (miner \<times> miner_model) list" where
  "targets s = [(mn, mm). mn \<leftarrow> miners s, mm \<leftarrow> miner_models s,
     mm_miner_id mm = mn_id mn \<and> mm_loaded mm \<and> mm_attestation_status mm = Attested]"

fun collect_each :: "receipts_env \<Rightarrow> (miner \<times> miner_model) list \<Rightarrow> (miners_db, receipts_result list) handler" where
  "collect_each env [] = ret []"
| "collect_each env ((mn, mm) # ts) =
     bind (on_error (collect_model env mn mm) (\<lambda>_. ret (skip_result mn mm ''fetch_failed'')) ret)
       (\<lambda>r. bind (collect_each env ts) (\<lambda>rs. ret (r # rs)))"

definition collect_all :: "receipts_env \<Rightarrow> (miners_db, receipts_result list) handler" where
  "collect_all env = bind (gets targets) (collect_each env)"

section \<open>The maintenance pass\<close>

definition collect_tee_receipts :: "receipts_env \<Rightarrow> (miners_db, nat) handler" where
  "collect_tee_receipts env = bind (collect_all env) (\<lambda>rs. ret (total_verified rs))"

definition receipts_pass :: "receipts_env \<Rightarrow> stats_db \<Rightarrow> nat \<times> stats_db" where
  "receipts_pass env s = (case collect_tee_receipts env (sd_registry s) of
     (Inl e, _) \<Rightarrow> (0, s) | (Inr n, r) \<Rightarrow> (n, s\<lparr>sd_registry := r\<rparr>))"

record upkeep_settings = stats_settings +
  us_tee_receipts_pull_enabled :: bool
  us_miner_stats_enabled :: bool

text \<open>First verify, then freeze.\<close>

definition upkeep_pass ::
    "upkeep_settings \<Rightarrow> receipts_env \<Rightarrow> stats_env \<Rightarrow> int option \<Rightarrow> stats_db \<Rightarrow> (nat \<times> nat) \<times> stats_db" where
  "upkeep_pass cfg env senv current s0 =
     (let (verified, s1) = (if us_tee_receipts_pull_enabled cfg then receipts_pass env s0 else (0, s0));
          (frozen, s2) = (if us_miner_stats_enabled cfg
             then finalize_pass (stats_settings.truncate cfg) senv current s1 else (0, s1))
      in ((verified, frozen), s2))"

end
