(* ===== verification/ReceiptsProps.thy ===== *)
theory ReceiptsProps
  imports Receipts SelectorProps EpochProps
begin

text \<open>
  What the corroboration promises: the bytes an enclave signs determine its usage head, a row counts
  as verified only when an accepted page of its miner and model reported the same counts, and the
  usage counters only grow; and what it does not: the signature says nothing about the rows.
\<close>

section \<open>The signed message\<close>

definition decimal_value :: "string \<Rightarrow> nat" where
  "decimal_value = foldl (\<lambda>n c. 10 * n + (code_of c - 48)) 0"

lemma decimal_value_show: "decimal_value (show_base 10 n) = n"
proof (induction n rule: less_induct)
  case (less n)
  show ?case
  proof (cases "n < 10")
    case True
    then show ?thesis by (simp add: show_base_small decimal_value_def digit_code)
  next
    case False
    then have "decimal_value (show_base 10 (n div 10)) = n div 10" by (intro less.IH) simp
    then show ?thesis using False by (simp add: show_base_small decimal_value_def digit_code)
  qed
qed

lemma show_base_inject: "show_base 10 m = show_base 10 n \<Longrightarrow> m = n"
  by (metis decimal_value_show)

lemma show_base_digits: "c \<in> set (show_base 10 n) \<Longrightarrow> is_digit c"
proof (induction n rule: less_induct)
  case (less n)
  show ?case
  proof (cases "n < 10")
    case True
    then show ?thesis using less.prems by (simp add: show_base_small digit_is_digit)
  next
    case False
    then have "n div 10 < n" by simp
    then show ?thesis using less.IH [of "n div 10"] less.prems False by (auto simp: show_base_small digit_is_digit)
  qed
qed

lemma no_sign: "show_base 10 m \<noteq> CHR ''-'' # t"
  using show_base_digits [of "CHR ''-''" m] by (auto simp: is_digit_def code_of_def)

lemma int_text_inject: "int_text m = int_text n \<Longrightarrow> m = n"
  using no_sign [of "nat m" "show_base 10 (nat (- n))"] no_sign [of "nat n" "show_base 10 (nat (- m))"]
  by (auto simp: int_text_def dest: show_base_inject split: if_splits)

lemma encoded_inject: "encoded s = encoded t \<Longrightarrow> s = t"
  unfolding encoded_def code_of_def by (rule map_injective) (auto intro: injI)

lemma prefix_inject:
  assumes "length_prefix m = Inr p" "length_prefix n = Inr p" shows "m = n"
proof -
  have split: "k = 16777216 * (k div 16777216) + 65536 * (k div 65536 mod 256) + 256 * (k div 256 mod 256) + k mod 256"
    for k :: nat
  proof -
    have "k div 256 = 256 * (k div 65536) + k div 256 mod 256" using mult_div_mod_eq [of 256 "k div 256"]
      by (simp add: div_mult2_eq [symmetric])
    moreover have "k div 65536 = 256 * (k div 16777216) + k div 65536 mod 256"
      using mult_div_mod_eq [of 256 "k div 65536"] by (simp add: div_mult2_eq [symmetric])
    ultimately show ?thesis using mult_div_mod_eq [of 256 k] by linarith
  qed
  have "m div 16777216 = n div 16777216" "m div 65536 mod 256 = n div 65536 mod 256"
    "m div 256 mod 256 = n div 256 mod 256" "m mod 256 = n mod 256"
    using assms by (auto simp: length_prefix_def split: if_splits)
  then show ?thesis using split [of m] split [of n] by simp
qed

lemma prefix_length: "length_prefix n = Inr p \<Longrightarrow> length p = 4"
  by (auto simp: length_prefix_def split: if_splits)

lemma length_prefixed_Cons:
  "length_prefixed (f # fs) = Inr m \<longleftrightarrow>
     (\<exists>p r. length_prefix (length f) = Inr p \<and> length_prefixed fs = Inr r \<and> m = p @ f @ r)"
  by (auto simp: andthen_def split: sum.splits)

lemma length_prefixed_inject:
  "length_prefixed fs = Inr m \<Longrightarrow> length_prefixed gs = Inr m \<Longrightarrow> fs = gs"
proof (induction fs arbitrary: gs m)
  case Nil
  then show ?case by (cases gs) (auto simp: length_prefixed_Cons dest: prefix_length simp del: length_prefixed.simps(2))
next
  case (Cons f fs)
  from Cons.prems(1) obtain p r where f: "length_prefix (length f) = Inr p" "length_prefixed fs = Inr r" "m = p @ f @ r"
    unfolding length_prefixed_Cons by blast
  then have "m \<noteq> []" using prefix_length [of "length f" p] by auto
  then obtain g gs' where gs: "gs = g # gs'" using Cons.prems(2) by (cases gs) auto
  from Cons.prems(2) obtain p' r' where g: "length_prefix (length g) = Inr p'" "length_prefixed gs' = Inr r'" "m = p' @ g @ r'"
    unfolding gs length_prefixed_Cons by blast
  have "p = p'" using f(1,3) g(1,3) by (metis append_eq_append_conv prefix_length)
  then have "length f = length g" using prefix_inject [of "length f" p "length g"] f(1) g(1) by simp
  then have "f = g" "r = r'" using f(3) g(3) \<open>p = p'\<close> by simp_all
  then show ?case using Cons.IH f(2) g(2) by (simp add: gs)
qed

text \<open>The bytes an enclave signs determine the head they were made from: two heads with the same
  message have the same usage count, the same chain head and the same epoch text, whatever the fields
  contain. Every head whose fields are shorter than four gigabytes has a message.\<close>

theorem signed_head_unambiguous:
  "(usage_head_signing_message n head epoch = Inr m \<and> usage_head_signing_message n' head' epoch' = Inr m \<longrightarrow>
      n = n' \<and> head = head' \<and> or_empty epoch = or_empty epoch') \<and>
   (length (int_text n) < 2 ^ 32 \<and> length head < 2 ^ 32 \<and> length (or_empty epoch) < 2 ^ 32 \<longrightarrow>
      (\<exists>m. usage_head_signing_message n head epoch = Inr m))"
proof (intro conjI impI; (elim conjE)?)
  assume "usage_head_signing_message n head epoch = Inr m" "usage_head_signing_message n' head' epoch' = Inr m"
  then have "map encoded [usage_head_domain, int_text n, head, or_empty epoch]
      = map encoded [usage_head_domain, int_text n', head', or_empty epoch']"
    unfolding usage_head_signing_message_def by (rule length_prefixed_inject)
  then have "encoded (int_text n) = encoded (int_text n')" "encoded head = encoded head'"
    "encoded (or_empty epoch) = encoded (or_empty epoch')" by simp_all
  then show "n = n'" "head = head'" "or_empty epoch = or_empty epoch'"
    by (simp_all add: encoded_inject int_text_inject)
next
  assume "length (int_text n) < 2 ^ 32" "length head < 2 ^ 32" "length (or_empty epoch) < 2 ^ 32"
  then show "\<exists>m. usage_head_signing_message n head epoch = Inr m"
    by (simp add: usage_head_signing_message_def length_prefix_def andthen_def encoded_def usage_head_domain_def)
qed

section \<open>What an accepted page says\<close>

text \<open>The page a pull of a model accepts, and a receipt for an attempt in it.\<close>

definition pulled :: "receipts_env \<Rightarrow> miners_db \<Rightarrow> miner \<Rightarrow> miner_model \<Rightarrow> receipts_page \<Rightarrow> bool" where
  "pulled env s mn mm page \<longleftrightarrow>
     (\<exists>endpoint token key fetched.
        or_text (mm_tee_endpoint mm) (Some (mn_tee_endpoint mn)) = Some endpoint \<and>
        admin_token env (mn_id mn) (mm_model_id mm) s = Some token \<and>
        attested_key mn mm = Some key \<and>
        rv_fetch env endpoint (or_text (mm_tls_cert_fingerprint mm) (mn_tls_cert_fingerprint mn)) token
          (mm_receipt_cursor_row_id mm) = Inr fetched \<and>
        accept_page env key mm fetched = Inr (Inr page))"

definition receipt_for :: "receipts_env \<Rightarrow> miner \<Rightarrow> miner_model \<Rightarrow> json \<Rightarrow> request_stat \<Rightarrow> bool" where
  "receipt_for env mn mm row a \<longleftrightarrow>
     rs_miner_id a = Some (mn_id mn) \<and> rs_model_id a = mm_model_id mm \<and>
     rs_request_id a = Some (py_text env (json_field ''request_id'' row)) \<and>
     py_int (json_field ''prompt_tokens'' row) = Inr (rs_prompt_tokens a) \<and>
     py_int (json_field ''completion_tokens'' row) = Inr (rs_completion_tokens a) \<and>
     py_int (json_field ''total_tokens'' row) = Inr (rs_total_tokens a)"

definition receipted :: "receipts_env \<Rightarrow> miners_db \<Rightarrow> request_stat \<Rightarrow> bool" where
  "receipted env s a \<longleftrightarrow> (\<exists>(mn, mm) \<in> set (targets s). \<exists>page. pulled env s mn mm page \<and>
     (\<exists>row \<in> set (take (rv_page_limit env) (pg_rows page)). receipt_for env mn mm row a))"

definition unverified :: "request_stat \<Rightarrow> request_stat" where
  "unverified a = a\<lparr>rs_verified := False\<rparr>"

lemma unverified_simps [simp]:
  "rs_id (unverified a) = rs_id a" "unverified (a\<lparr>rs_verified := b\<rparr>) = unverified a"
  by (simp_all add: unverified_def)

lemma receipt_for_flag [simp]: "receipt_for env mn mm row (a\<lparr>rs_verified := b\<rparr>) = receipt_for env mn mm row a"
  by (simp add: receipt_for_def)

lemma receipted_flag [simp]: "receipted env s (a\<lparr>rs_verified := b\<rparr>) = receipted env s a"
  by (simp add: receipted_def)

lemma accepted_page:
  assumes "accept_page env key mm fetched = Inr (Inr page)"
  shows "\<exists>signature. verify_head_signature env (pg_usage_count page) (pg_usage_chain_head page) signature key = Inr True"
    and "\<not> rolled_back mm (pg_usage_count page)"
  using assms
  by (auto simp: accept_page_def andthen_def Let_def split: option.splits if_splits sum.splits prod.splits)

lemma counts_match_True: "counts_match n v = Inr True \<Longrightarrow> py_int v = Inr n"
  by (auto simp: counts_match_def maybe_int_def andthen_def split: sum.splits if_splits)

lemma tokens_match_receipt:
  assumes "tokens_match a row = Inr True"
  shows "py_int (json_field ''prompt_tokens'' row) = Inr (rs_prompt_tokens a)"
    "py_int (json_field ''completion_tokens'' row) = Inr (rs_completion_tokens a)"
    "py_int (json_field ''total_tokens'' row) = Inr (rs_total_tokens a)"
  using assms by (auto simp: tokens_match_def andthen_def intro!: counts_match_True split: sum.splits if_splits)

section \<open>The invariant of a collection\<close>

definition grows :: "int option \<Rightarrow> int option \<Rightarrow> bool" where
  "grows old new \<longleftrightarrow> (\<forall>n. old = Some n \<longrightarrow> (\<exists>n'. new = Some n' \<and> n \<le> n'))"

definition model_grows :: "miner_model \<Rightarrow> miner_model \<Rightarrow> bool" where
  "model_grows mm mm' \<longleftrightarrow> mm_id mm' = mm_id mm \<and> grows (mm_usage_count mm) (mm_usage_count mm')"

text \<open>Between the start of a collection and any later state of it.\<close>

definition progress :: "receipts_env \<Rightarrow> miners_db \<Rightarrow> miners_db \<Rightarrow> bool" where
  "progress env s t \<longleftrightarrow>
     map unverified (miner_request_stats t) = map unverified (miner_request_stats s) \<and>
     (\<forall>a \<in> set (miner_request_stats t). rs_verified a \<longrightarrow> a \<in> set (miner_request_stats s) \<or> receipted env s a) \<and>
     (\<forall>a \<in> set (miner_request_stats s). rs_verified a \<longrightarrow> a \<in> set (miner_request_stats t)) \<and>
     list_all2 model_grows (miner_models s) (miner_models t) \<and>
     provisioned_tokens t = provisioned_tokens s"

definition rows_keyed :: "miners_db \<Rightarrow> bool" where
  "rows_keyed s \<longleftrightarrow> distinct (map rs_id (miner_request_stats s)) \<and> distinct (map mm_id (miner_models s))"

lemma progress_refl: "progress env s s"
  by (simp add: progress_def list_all2_refl model_grows_def grows_def)

lemma mark_progress:
  assumes "progress env s t" "rows_keyed s" "a \<in> set (miner_request_stats t)" "receipted env s a"
  shows "progress env s (mark_verified a t)"
proof (cases "rs_verified a")
  case False
  let ?a = "a\<lparr>rs_verified := True\<rparr>"
  have "map rs_id (miner_request_stats t) = map (rs_id \<circ> unverified) (miner_request_stats t)" by simp
  also have "\<dots> = map rs_id (miner_request_stats s)"
    using assms(1) unfolding progress_def by (metis map_map map_eq_conv comp_apply unverified_simps(1))
  finally have d: "distinct (map rs_id (miner_request_stats t))" using assms(2) by (simp add: rows_keyed_def)
  have u: "map unverified (replace_by rs_id ?a (miner_request_stats t)) = map unverified (miner_request_stats t)"
    by (rule map_replace_by) (use same_key_same_row [OF d] assms(3) in auto)
  have kept: "b \<in> set (replace_by rs_id ?a (miner_request_stats t))"
    if "b \<in> set (miner_request_stats t)" "rs_verified b" for b
    using that same_key_same_row [OF d that(1) assms(3)] False by (auto simp: set_replace_by)
  show ?thesis
    using assms(1,4) u kept unfolding progress_def mark_verified_def
    by (auto simp: False set_replace_by split: if_splits)
qed (simp add: mark_verified_def assms(1))

lemma reconcile_row_keeps:
  assumes "rows_keyed s" "(mn, mm) \<in> set (targets s)" "pulled env s mn mm page"
    and "row \<in> set (take (rv_page_limit env) (pg_rows page))"
  shows "triple (progress env s) (reconcile_row env mn mm row t) (\<lambda>_. progress env s) (progress env s)"
proof -
  have m: "progress env s (mark_verified a u)"
    if "progress env s u" "find_attempt mn mm (py_text env (json_field ''request_id'' row)) u = Some a"
      "tokens_match a row = Inr True" for a u
  proof (rule mark_progress [OF that(1) assms(1)])
    note a = find_SomeD [OF that(2) [unfolded find_attempt_def]]
    show "a \<in> set (miner_request_stats u)" using a by simp
    have "receipt_for env mn mm row a" using a tokens_match_receipt [OF that(3)] by (simp add: receipt_for_def)
    then show "receipted env s a" using assms(2-4) by (force simp: receipted_def)
  qed
  have attempt: "triple (\<lambda>u. progress env s u \<and> find_attempt mn mm (py_text env (json_field ''request_id'' row)) u = Some a)
      (bind (of_result (tokens_match a row)) (\<lambda>ok. if \<not> ok then ret x else then_do (modify (mark_verified a)) (ret y)))
      (\<lambda>_. progress env s) (progress env s)" for a x y
    by (auto simp: triple_def bind_def of_result_def then_do_def split: sum.splits intro: m)
  have found: "triple (\<lambda>u. progress env s u \<and> find_attempt mn mm (py_text env (json_field ''request_id'' row)) u = f)
      (case f of None \<Rightarrow> ret x | Some a \<Rightarrow>
        bind (of_result (tokens_match a row)) (\<lambda>ok. if \<not> ok then ret x else then_do (modify (mark_verified a)) (ret y)))
      (\<lambda>_. progress env s) (progress env s)" for f x y
    by (cases f) (simp_all add: attempt, simp add: triple_def)
  have looked: "triple (progress env s)
      (bind (gets (find_attempt mn mm (py_text env (json_field ''request_id'' row)))) (\<lambda>f. case f of None \<Rightarrow> ret x | Some a \<Rightarrow>
        bind (of_result (tokens_match a row)) (\<lambda>ok. if \<not> ok then ret x else then_do (modify (mark_verified a)) (ret y))))
      (\<lambda>_. progress env s) (progress env s)" for x y
    by (rule triple_bind [OF triple_gets found]) simp
  have read: "triple (progress env s) (of_result r) (\<lambda>_. progress env s) (progress env s)" for r :: "error + int option"
    by (rule triple_of_result)
  show ?thesis
    unfolding reconcile_row_def Let_def
    by (simp add: triple_ret) (intro impI triple_bind [OF read] triple_if triple_ret looked)
qed

lemma reconcile_keeps:
  assumes "rows_keyed s" "(mn, mm) \<in> set (targets s)" "pulled env s mn mm page"
    and "set rows \<subseteq> set (take (rv_page_limit env) (pg_rows page))"
  shows "triple (progress env s) (reconcile env mn mm rows t) (\<lambda>_. progress env s) (progress env s)"
  using assms(4)
proof (induction rows arbitrary: t)
  case Nil
  show ?case unfolding reconcile.simps by (rule triple_ret)
next
  case (Cons row rows)
  show ?case
    unfolding reconcile.simps
    by (rule triple_bind [OF reconcile_row_keeps [OF assms(1-3)] Cons.IH]) (use Cons.prems in auto)
qed

lemma anchor_progress:
  assumes "progress env s t" "rows_keyed s" "mm \<in> set (miner_models s)" "\<not> rolled_back mm (pg_usage_count page)"
  shows "progress env s (put_model (anchored page highest mm) t)"
proof -
  have d: "distinct (map mm_id (miner_models s))" using assms(2) by (simp add: rows_keyed_def)
  let ?new = "anchored page highest mm"
  have id: "mm_id ?new = mm_id mm" by (simp add: anchored_def)
  have new: "model_grows q (if mm_id q' = mm_id ?new then ?new else q')"
    if "model_grows q q'" "q \<in> set (miner_models s)" for q q'
  proof (cases "mm_id q' = mm_id ?new")
    case True
    then have True: "mm_id q' = mm_id mm" by (simp add: id)
    then have "q = mm" using same_key_same_row [OF d that(2) assms(3)] that(1) by (simp add: model_grows_def)
    then show ?thesis using assms(4) True
      by (auto simp: model_grows_def grows_def anchored_def rolled_back_def)
  qed (use that in simp)
  have grown: "list_all2 model_grows (miner_models s) (miner_models t)" using assms(1) by (simp add: progress_def)
  have "list_all2 model_grows (miner_models s) (replace_by mm_id ?new (miner_models t))"
    unfolding replace_by_def list.rel_map by (rule list.rel_mono_strong [OF grown]) (rule new)
  then show ?thesis using assms(1) by (simp add: progress_def put_model_def)
qed

lemma collect_model_keeps:
  assumes "rows_keyed s" "(mn, mm) \<in> set (targets s)"
  shows "triple (progress env s) (collect_model env mn mm) (\<lambda>_. progress env s) (progress env s)"
proof (rule tripleI)
  have mm: "mm \<in> set (miner_models s)" using assms(2) by (auto simp: targets_def)
  have page: "progress env s u"
    if "progress env s t" "pulled env s mn mm page" "apply_page env mn mm page t = (r, u)" for page t r u
  proof -
    have "\<not> rolled_back mm (pg_usage_count page)"
      using that(2) accepted_page(2) by (auto simp: pulled_def)
    then have put: "triple (progress env s)
        (then_do (modify (put_model (anchored page h mm))) (ret x)) (\<lambda>_. progress env s) (progress env s)" for h x
      by (simp add: triple_def then_do_def bind_def anchor_progress [OF _ assms(1) mm])
    have "triple (progress env s) (apply_page env mn mm page) (\<lambda>_. progress env s) (progress env s)"
      unfolding apply_page_def Let_def
      by (rule triple_bind [OF reconcile_keeps [OF assms that(2)]]) (simp_all add: put split: prod.split)
    then show ?thesis using that by (cases r) (auto simp: triple_def)
  qed
  have tokens: "admin_token env (mn_id mn) (mm_model_id mm) t = admin_token env (mn_id mn) (mm_model_id mm) s"
    if "progress env s t" for t
    using that by (simp add: progress_def admin_token_def active_token_def)
  have run: "progress env s u" if "progress env s t" "collect_model env mn mm t = (r, u)" for t r u
    using that tokens [OF that(1)]
    by (auto simp: collect_model_def handler_defs of_result_def Let_def is_falsy_def pulled_def
        split: option.splits if_splits sum.splits intro!: page [OF that(1)])
  show "progress env s u" if "progress env s t" "collect_model env mn mm t = (Inl e, u)" for t e u
    using run that by blast
  show "progress env s u" if "progress env s t" "collect_model env mn mm t = (Inr x, u)" for t x u
    using run that by blast
qed

section \<open>All models\<close>

lemma collect_each_run:
  assumes "rows_keyed s"
  shows "progress env s t \<Longrightarrow> set ts \<subseteq> set (targets s) \<Longrightarrow>
    \<exists>rs u. collect_each env ts t = (Inr rs, u) \<and> length rs = length ts \<and> progress env s u"
proof (induction ts arbitrary: t)
  case (Cons p ts)
  obtain mn mm where p: "p = (mn, mm)" by (cases p)
  let ?m = "on_error (collect_model env mn mm) (\<lambda>_. ret (skip_result mn mm ''fetch_failed'')) ret"
  have keeps: "triple (progress env s) (collect_model env mn mm) (\<lambda>_. progress env s) (progress env s)"
    by (rule collect_model_keeps [OF assms]) (use Cons.prems p in auto)
  obtain r v where v: "collect_model env mn mm t = (r, v)" by (cases "collect_model env mn mm t")
  then have pv: "progress env s v"
    using keeps Cons.prems(1) by (cases r) (auto dest: tripleD tripleD_err)
  obtain x where x: "?m t = (Inr x, v)" using v by (cases r) (simp_all add: on_error_def)
  have "set ts \<subseteq> set (targets s)" using Cons.prems(2) by simp
  then obtain rs u where u: "collect_each env ts v = (Inr rs, u)" "length rs = length ts" "progress env s u"
    using Cons.IH [OF pv] by blast
  have "collect_each env (p # ts) t = (Inr (x # rs), u)" using x u(1) by (simp add: p bind_def)
  then show ?case using u by simp
qed simp

text \<open>C33: Corroboration needs both sides. A collection over all attested models always ends, with one
  result per model, whatever single enclaves answer. It changes nothing of the platform's own rows but
  the verified flag, which it never takes back; and a row is newly verified only if an attested, loaded
  model of its miner served a page whose usage head is signed under the key captured at attestation
  and not behind the counter recorded before, with a row for the same request and the same three token
  counts. No recorded usage counter falls.\<close>

theorem verified_needs_receipt:
  assumes "rows_keyed s"
  shows "\<exists>rs s'. collect_all env s = (Inr rs, s') \<and> length rs = length (targets s) \<and>
    map unverified (miner_request_stats s') = map unverified (miner_request_stats s) \<and>
    (\<forall>a \<in> set (miner_request_stats s). rs_verified a \<longrightarrow> a \<in> set (miner_request_stats s')) \<and>
    (\<forall>a \<in> set (miner_request_stats s'). rs_verified a \<longrightarrow> a \<in> set (miner_request_stats s) \<or>
       (\<exists>mn mm page key signature. (mn, mm) \<in> set (targets s) \<and> pulled env s mn mm page \<and>
          attested_key mn mm = Some key \<and>
          verify_head_signature env (pg_usage_count page) (pg_usage_chain_head page) signature key = Inr True \<and>
          \<not> rolled_back mm (pg_usage_count page) \<and>
          (\<exists>row \<in> set (pg_rows page). receipt_for env mn mm row a))) \<and>
    list_all2 (\<lambda>mm mm'. mm_id mm' = mm_id mm \<and> grows (mm_usage_count mm) (mm_usage_count mm'))
      (miner_models s) (miner_models s')"
proof -
  obtain rs s' where s': "collect_each env (targets s) s = (Inr rs, s')" "length rs = length (targets s)" "progress env s s'"
    using collect_each_run [OF assms progress_refl, of "targets s" env] by auto
  have "\<exists>mn mm page key signature. (mn, mm) \<in> set (targets s) \<and> pulled env s mn mm page \<and>
      attested_key mn mm = Some key \<and>
      verify_head_signature env (pg_usage_count page) (pg_usage_chain_head page) signature key = Inr True \<and>
      \<not> rolled_back mm (pg_usage_count page) \<and> (\<exists>row \<in> set (pg_rows page). receipt_for env mn mm row a)"
    if receipt: "receipted env s a" for a
  proof -
    obtain mn mm page row where r: "(mn, mm) \<in> set (targets s)" "pulled env s mn mm page"
      "row \<in> set (pg_rows page)" "receipt_for env mn mm row a"
      using receipt by (auto simp: receipted_def dest: in_set_takeD)
    then obtain key fetched where k: "attested_key mn mm = Some key" "accept_page env key mm fetched = Inr (Inr page)"
      by (auto simp: pulled_def)
    then show ?thesis using accepted_page [OF k(2)] r by blast
  qed
  moreover have "collect_all env s = (Inr rs, s')" using s'(1) by (simp add: collect_all_def bind_def)
  moreover have "list_all2 (\<lambda>mm mm'. mm_id mm' = mm_id mm \<and> grows (mm_usage_count mm) (mm_usage_count mm'))
      (miner_models s) (miner_models s')" using s'(3) by (simp add: progress_def model_grows_def [abs_def])
  ultimately show ?thesis using s'(2,3) unfolding progress_def by blast
qed

section \<open>What the signature does not cover\<close>

definition forged :: "request_stat \<Rightarrow> json" where
  "forged a = JObj [(''request_id'', JStr (or_empty (rs_request_id a))), (''prompt_tokens'', JInt (rs_prompt_tokens a)),
     (''completion_tokens'', JInt (rs_completion_tokens a)), (''total_tokens'', JInt (rs_total_tokens a))]"

lemma forged_matches: "tokens_match a (forged a) = Inr True"
  by (simp add: tokens_match_def counts_match_def maybe_int_def andthen_def forged_def json_field_def)

text \<open>C34: The signed head does not bind the rows of a page: any accepted page is still accepted after
  its rows were replaced by a row made up from the platform's own record of a request, and that
  request then counts as verified. What stands behind the rows is the connection alone.\<close>

theorem receipt_rows_unsigned:
  assumes "accept_page env key mm (Some (JObj d)) = Inr (Inr page)"
    and "find_attempt mn mm request_id s = Some a" "request_id \<noteq> []" "0 < rv_page_limit env"
  shows "\<exists>page' r s'. accept_page env key mm (Some (JObj ((''rows'', JList [forged a]) # d))) = Inr (Inr page') \<and>
    apply_page env mn mm page' s = (Inr r, s') \<and> rr_rows_verified r = 1 \<and>
    a\<lparr>rs_verified := True\<rparr> \<in> set (miner_request_stats s')"
proof -
  have a: "a \<in> set (miner_request_stats s)" "rs_request_id a = Some request_id"
    using find_SomeD assms(2) unfolding find_attempt_def by fast+
  have other: "json_field k (JObj ((''rows'', x) # d)) = json_field k (JObj d)" if "k \<noteq> ''rows''" for k x
    using that by (simp add: json_field_def)
  have "head_of_page env (JObj ((''rows'', x) # d)) = head_of_page env (JObj d)" for x
    by (simp add: head_of_page_def Let_def other cong: option.case_cong sum.case_cong)
  moreover have "rows_of_page (JObj ((''rows'', JList [forged a]) # d)) = Some [forged a]"
    by (simp add: rows_of_page_def json_field_def)
  ultimately have "accept_page env key mm (Some (JObj ((''rows'', JList [forged a]) # d)))
      = Inr (Inr (page\<lparr>pg_rows := [forged a]\<rparr>))"
    using assms(1)
    by (auto simp: accept_page_def is_object_def other andthen_def Let_def split: option.splits if_splits sum.splits prod.splits)
  moreover have "reconcile env mn mm [forged a] (0, 0, None) s = (Inr (1, 0, None), mark_verified a s)"
  proof -
    have "json_field ''request_id'' (forged a) = JStr request_id" "json_field ''row_id'' (forged a) = JNull"
      "is_object (forged a)" by (simp_all add: forged_def json_field_def a(2) or_empty_def is_object_def)
    then show ?thesis
      using assms(2,3) by (simp add: reconcile_row_def maybe_int_def not_a_number_def of_result_def bind_def then_do_def
          py_text_def forged_matches seen_row_def one_verified_def Let_def)
  qed
  moreover have "a\<lparr>rs_verified := True\<rparr> \<in> set (miner_request_stats (mark_verified a s))"
    using a(1) by (cases "rs_verified a") (cases a, auto simp: mark_verified_def set_replace_by)
  ultimately show ?thesis
    using assms(4) by (simp add: apply_page_def bind_def then_do_def Let_def put_model_def blank_result_def take_Cons')
qed

section \<open>Witnesses\<close>

lemma signed_head_unambiguous_witness:
  "(\<exists>m. usage_head_signing_message 3 ''ab'' None = Inr m) \<and>
   usage_head_signing_message 3 ''ab'' None \<noteq> usage_head_signing_message 31 ''b'' None"
proof -
  have t: "length (int_text 3) < 2 ^ 32" by (simp add: int_text_def show_base_small)
  then obtain m where m: "usage_head_signing_message 3 ''ab'' None = Inr m"
    using signed_head_unambiguous [of 3 "''ab''" None "[]" 3 "''ab''" None] by (auto simp: or_empty_def)
  then show ?thesis using signed_head_unambiguous [of 3 "''ab''" None m 31 "''b''" None] by auto
qed

definition demo_receipts_env :: receipts_env where
  "demo_receipts_env = \<lparr>rv_page_limit = 500, rv_decrypt = Some, rv_fetch = (\<lambda>_ _ _ _. Inl (PyExc ''OSError'')),
     rv_verify = (\<lambda>_ _ _. True), rv_repr = (\<lambda>_. [])\<rparr>"

lemma verified_needs_receipt_witness:
  "\<exists>rs s'. collect_all demo_receipts_env demo_registry = (Inr rs, s') \<and> length rs = 2"
proof -
  have "rows_keyed demo_registry" by (simp add: rows_keyed_def eval_registry)
  moreover have "length (targets demo_registry) = 2" by (simp add: targets_def eval_registry)
  ultimately show ?thesis using verified_needs_receipt [of demo_registry demo_receipts_env] by auto
qed

definition demo_receipt_page :: "(string \<times> json) list" where
  "demo_receipt_page = [(''head_signature'', JStr ''51''), (''verify_key'', JStr ''ab''), (''usage_count'', JInt 4),
     (''usage_chain_head'', JStr ''cd''), (''rows'', JList [])]"

definition demo_attempt :: request_stat where
  "demo_attempt = (demo_stat 1 5 ''aa'' ''success'' 10 False 40)\<lparr>rs_miner_id := Some 1, rs_request_id := Some ''r'',
     rs_model_id := ''m''\<rparr>"

definition demo_served :: miners_db where
  "demo_served = demo_registry\<lparr>miner_request_stats := [demo_attempt]\<rparr>"

lemma receipt_rows_unsigned_witness:
  "\<exists>page r s'. apply_page demo_receipts_env (demo_miner 1 ''aa'' []) (demo_model 3 1) page demo_served = (Inr r, s') \<and>
     rr_rows_verified r = 1 \<and> demo_attempt\<lparr>rs_verified := True\<rparr> \<in> set (miner_request_stats s')"
proof -
  have "accept_page demo_receipts_env ''ab'' (demo_model 3 1) (Some (JObj demo_receipt_page)) =
      Inr (Inr \<lparr>pg_usage_count = 4, pg_usage_chain_head = ''cd'', pg_rows = []\<rparr>)"
    by (simp add: accept_page_def demo_receipt_page_def json_field_def is_object_def py_text_def lower_def lower_char_def
        is_upper_def code_of_def head_of_page_def andthen_def verify_head_signature_def demo_receipts_env_def
        usage_head_signing_message_def length_prefix_def encoded_def int_text_def show_base_small or_empty_def
        usage_head_domain_def rolled_back_def demo_model_def rows_of_page_def Let_def)
  moreover have "find_attempt (demo_miner 1 ''aa'' []) (demo_model 3 1) ''r'' demo_served = Some demo_attempt"
    by (simp add: find_attempt_def demo_served_def demo_attempt_def demo_miner_def demo_model_def)
  moreover have "''r'' \<noteq> ([] :: string)" "0 < rv_page_limit demo_receipts_env" by (simp_all add: demo_receipts_env_def)
  ultimately show ?thesis using receipt_rows_unsigned by blast
qed

end
