(* ===== verification/Sessions.thy ===== *)
theory Sessions
  imports Miners
begin

text \<open>
  Accounts and their sessions on the control plane: \<^verbatim>\<open>app/auth/service.py\<close> with its helpers
  \<^verbatim>\<open>app/auth/token_revocation.py\<close> and \<^verbatim>\<open>app/core/security.py\<close>. Access tokens are signed texts with
  a version of the account, refresh tokens are rows that are rotated within a family. The library
  that signs tokens, hashes passwords and creates accounts is the parameter of every operation.
\<close>

section \<open>Tables\<close>

record account =
  ac_id :: nat
  ac_email :: string
  ac_hashed_password :: string
  ac_full_name :: "string option"
  ac_is_active :: bool
  ac_is_verified :: bool
  ac_phone_number :: "string option"
  ac_phone_verified_at :: "time option"
  ac_wallet_verified_at :: "time option"
  ac_token_version :: int

record refresh_row =
  rt_id :: nat
  rt_user_id :: nat
  rt_token_hash :: string
  rt_family_id :: nat
  rt_replaced_by_id :: "nat option"
  rt_expires_at :: time
  rt_revoked_at :: "time option"

record single_use_token =
  su_user_id :: nat
  su_token_hash :: string
  su_expires_at :: time
  su_consumed_at :: "time option"

datatype phone_purpose = LoginPhone | LinkPhone

record phone_code =
  ph_id :: nat
  ph_user_id :: "nat option"
  ph_phone_number :: string
  ph_purpose :: phone_purpose
  ph_otp_hash :: string
  ph_attempts :: int
  ph_created_at :: time
  ph_expires_at :: time
  ph_consumed_at :: "time option"

record wallet_nonce =
  wn_user_id :: "nat option"
  wn_address :: string
  wn_nonce_hash :: string
  wn_expires_at :: time
  wn_used_at :: "time option"

record evm_wallet =
  ew_user_id :: nat
  ew_address :: string
  ew_verified_at :: time
  ew_last_balance_sync_at :: "time option"

record oauth_account =
  oa_user_id :: nat
  oa_name :: string
  oa_account_id :: string
  oa_account_email :: string
  oa_access_token :: string
  oa_refresh_token :: "string option"
  oa_expires_at :: "int option"

text \<open>The tables, and next to the database the revoked tokens in Redis (with the instant the key
  expires) and in the memory of the process (with a second).\<close>

record auth_db =
  accounts :: "account list"
  refresh_tokens :: "refresh_row list"
  verification_tokens :: "single_use_token list"
  reset_tokens :: "single_use_token list"
  phone_codes :: "phone_code list"
  wallet_nonces :: "wallet_nonce list"
  evm_wallets :: "evm_wallet list"
  oauth_accounts :: "oauth_account list"
  revoked_jtis :: "(string \<times> time) list"
  memory_revoked_jtis :: "(string \<times> int) list"
  au_next :: nat

section \<open>Parameters\<close>

record claims =
  cl_sub :: json
  cl_jti :: json
  cl_token_version :: json
  cl_exp :: json

record auth_settings =
  jwt_lifetime_seconds :: int
  refresh_token_lifetime_days :: int
  app_production :: bool
  token_revocation_fail_open :: bool
  otp_ttl_seconds :: int
  otp_max_attempts :: int
  wallet_nonce_ttl_seconds :: int
  phone_user_email_domain :: string
  wallet_user_email_domain :: string
  as_app_url :: string
  wallet_siwe_chain_id :: string
  auto_verify_new_users :: bool

record user_update =
  up_email :: "string option"
  up_password :: "string option"
  up_full_name :: "string option"

text \<open>The clock and the random draws of a request, the keyed hash, the library that encodes and checks
  tokens, texts of identifiers, the password hasher, whether Redis answers, the operations of the
  account library, the number and address libraries, the SMS service and the recovery of a signer.\<close>

record auth_env =
  av_now :: time
  av_settings :: auth_settings
  av_draw :: string
  av_jti :: string
  av_hash :: "string \<Rightarrow> string"
  av_encode :: "claims \<Rightarrow> string"
  av_decode :: "string \<Rightarrow> claims option"
  av_id_text :: "nat \<Rightarrow> string"
  av_parse_id :: "json \<Rightarrow> nat option"
  av_text :: "json \<Rightarrow> string"
  av_password_verifies :: "string \<Rightarrow> string \<Rightarrow> bool"
  av_hash_password :: "string \<Rightarrow> string"
  av_redis_up :: bool
  av_create :: "string \<Rightarrow> string \<Rightarrow> string option \<Rightarrow> (auth_db, account) handler"
  av_authenticate :: "string \<Rightarrow> string \<Rightarrow> (auth_db, account option) handler"
  av_by_email :: "string \<Rightarrow> auth_db \<Rightarrow> account option"
  av_verify_token :: "account \<Rightarrow> string"
  av_verified_account :: "string \<Rightarrow> auth_db \<Rightarrow> error + account"
  av_reset_token :: "account \<Rightarrow> string"
  av_reset_account :: "string \<Rightarrow> auth_db \<Rightarrow> error + account"
  av_update :: "account \<Rightarrow> user_update \<Rightarrow> (auth_db, account) handler"
  av_phone :: "string \<Rightarrow> string option"
  av_send_code :: "string \<Rightarrow> error + unit"
  av_checksum :: "string \<Rightarrow> string option"
  av_recover :: "string \<Rightarrow> string \<Rightarrow> string option"
  av_isoformat :: "time \<Rightarrow> string"

definition seconds :: "int \<Rightarrow> time" where
  "seconds n = n * 1000000"

definition unix_epoch :: time where
  "unix_epoch = 62135596800000000"

definition put_account :: "account \<Rightarrow> auth_db \<Rightarrow> auth_db" where
  "put_account u = accounts_update (replace_by ac_id u)"

definition find_account_by_id :: "nat \<Rightarrow> auth_db \<Rightarrow> account option" where
  "find_account_by_id uid s = find (\<lambda>u. ac_id u = uid) (accounts s)"

section \<open>Synthetic addresses\<close>

text \<open>\<open>email.lower().partition("@")\<close>: what is before the first \<open>@\<close> and what is after it.\<close>

definition is_synthetic :: "string \<Rightarrow> string \<Rightarrow> string \<Rightarrow> bool" where
  "is_synthetic prefix domain email =
     (let e = lower email; local_part = takeWhile (\<lambda>c. c \<noteq> CHR ''@'') e; rest = drop (Suc (length local_part)) e
      in starts_with prefix local_part \<and> rest = lower domain)"

definition is_synthetic_phone_email :: "auth_settings \<Rightarrow> string \<Rightarrow> bool" where
  "is_synthetic_phone_email cfg = is_synthetic ''phone_'' (phone_user_email_domain cfg)"

definition is_synthetic_wallet_email :: "auth_settings \<Rightarrow> string \<Rightarrow> bool" where
  "is_synthetic_wallet_email cfg = is_synthetic ''wallet_'' (wallet_user_email_domain cfg)"

definition synthetic_phone_email :: "auth_env \<Rightarrow> string \<Rightarrow> string" where
  "synthetic_phone_email env phone_number =
     ''phone_'' @ take 32 (av_hash env (''phone-email:'' @ phone_number)) @ ''@'' @ phone_user_email_domain (av_settings env)"

definition synthetic_wallet_email :: "auth_env \<Rightarrow> string \<Rightarrow> string" where
  "synthetic_wallet_email env address =
     ''wallet_'' @ take 32 (av_hash env (''wallet-email:'' @ lower address)) @ ''@'' @ wallet_user_email_domain (av_settings env)"

section \<open>Revoked access tokens\<close>

text \<open>Time stamps in seconds are compared with the clock in microseconds.\<close>

definition after_unix :: "int \<Rightarrow> time \<Rightarrow> bool" where
  "after_unix expires_at now \<longleftrightarrow> seconds expires_at > now - unix_epoch"

definition is_memory_revoked :: "string \<Rightarrow> auth_env \<Rightarrow> auth_db \<Rightarrow> bool \<times> auth_db" where
  "is_memory_revoked jti env s =
     (let kept = filter (\<lambda>e. after_unix (snd e) (av_now env)) (memory_revoked_jtis s)
      in (case map_of kept jti of None \<Rightarrow> after_unix 0 (av_now env) | Some t \<Rightarrow> after_unix t (av_now env),
          s\<lparr>memory_revoked_jtis := kept\<rparr>))"

definition revocation_ttl :: "auth_env \<Rightarrow> int \<Rightarrow> int" where
  "revocation_ttl env expires_at = max 1 (trunc_div (seconds expires_at - (av_now env - unix_epoch)) 1000000)"

definition redis_error :: error where "redis_error = PyExc ''RedisError''"

definition fails_closed :: "auth_env \<Rightarrow> bool" where
  "fails_closed env \<longleftrightarrow> app_production (av_settings env) \<and> \<not> token_revocation_fail_open (av_settings env)"

definition revoke_jti :: "auth_env \<Rightarrow> string \<Rightarrow> int \<Rightarrow> (auth_db, unit) handler" where
  "revoke_jti env jti expires_at =
     (let ttl = revocation_ttl env expires_at
      in if av_redis_up env
         then modify (\<lambda>s. s\<lparr>revoked_jtis := (jti, av_now env + seconds ttl) # revoked_jtis s\<rparr>)
         else if fails_closed env then raise redis_error
         else modify (\<lambda>s. s\<lparr>memory_revoked_jtis := (jti, (av_now env - unix_epoch) div 1000000 + ttl)
                # filter (\<lambda>x. fst x \<noteq> jti) (memory_revoked_jtis s)\<rparr>))"

definition is_jti_revoked :: "auth_env \<Rightarrow> string \<Rightarrow> (auth_db, bool) handler" where
  "is_jti_revoked env jti =
     (\<lambda>s. case is_memory_revoked jti env s of (in_memory, s') \<Rightarrow>
        (Inr (in_memory \<or>
           (if av_redis_up env then (case map_of (revoked_jtis s') jti of None \<Rightarrow> False | Some t \<Rightarrow> t > av_now env)
            else fails_closed env)), s'))"

definition revoke_access_token :: "auth_env \<Rightarrow> string \<Rightarrow> (auth_db, bool) handler" where
  "revoke_access_token env token =
     (case av_decode env token of None \<Rightarrow> ret False
      | Some payload \<Rightarrow>
          if \<not> json_true (cl_jti payload) \<or> \<not> json_true (cl_exp payload) then ret False
          else bind (of_result (py_int (cl_exp payload))) (\<lambda>expires_at.
            then_do (revoke_jti env (av_text env (cl_jti payload)) expires_at) (ret True)))"

text \<open>\<open>Authorization: Bearer <token>\<close>, split at the first blank.\<close>

definition extract_bearer_token :: "string option \<Rightarrow> string option" where
  "extract_bearer_token authorization =
     (if authorization = None \<or> authorization = Some [] then None
      else let scheme = takeWhile (\<lambda>c. c \<noteq> CHR '' '') (the authorization);
               token = drop (Suc (length scheme)) (the authorization)
        in if lower scheme \<noteq> ''bearer'' \<or> token = [] then None else Some token)"

section \<open>Access tokens\<close>

definition write_token :: "auth_env \<Rightarrow> account \<Rightarrow> string" where
  "write_token env user =
     av_encode env \<lparr>cl_sub = JStr (av_id_text env (ac_id user)), cl_jti = JStr (av_jti env),
       cl_token_version = JInt (ac_token_version user),
       cl_exp = JInt ((av_now env - unix_epoch) div 1000000 + jwt_lifetime_seconds (av_settings env))\<rparr>"

definition version_of_claims :: "json \<Rightarrow> error + int option" where
  "version_of_claims v = (case py_int v of Inr n \<Rightarrow> Inr (Some n)
     | Inl e \<Rightarrow> if e = PyExc ''TypeError'' \<or> e = PyExc ''ValueError'' then Inr None else Inl e)"

definition read_token :: "auth_env \<Rightarrow> string option \<Rightarrow> (auth_db, account option) handler" where
  "read_token env token =
     (case Option.bind token (av_decode env) of None \<Rightarrow> ret None
      | Some data \<Rightarrow>
          if \<not> json_true (cl_jti data) then ret None
          else bind (is_jti_revoked env (av_text env (cl_jti data))) (\<lambda>revoked.
            if revoked \<or> cl_sub data = JNull then ret None
            else bind (gets (\<lambda>s. Option.bind (av_parse_id env (cl_sub data)) (\<lambda>i. find_account_by_id i s))) (\<lambda>found.
              case found of None \<Rightarrow> ret None
              | Some user \<Rightarrow>
                  bind (of_result (version_of_claims (cl_token_version data))) (\<lambda>version.
                    ret (if version = Some (ac_token_version user) then Some user else None)))))"

definition current_active_user :: "auth_env \<Rightarrow> string option \<Rightarrow> (auth_db, account) handler" where
  "current_active_user env token =
     bind (read_token env token) (\<lambda>found. case found of None \<Rightarrow> raise unauthorized
       | Some user \<Rightarrow> if ac_is_active user then ret user else raise unauthorized)"

definition optional_active_user :: "auth_env \<Rightarrow> string option \<Rightarrow> (auth_db, account option) handler" where
  "optional_active_user env token =
     bind (read_token env token) (\<lambda>found. ret (case found of None \<Rightarrow> None
       | Some user \<Rightarrow> if ac_is_active user then Some user else None))"

section \<open>Refresh tokens\<close>

definition past_expiry :: "auth_env \<Rightarrow> time \<Rightarrow> bool" where
  "past_expiry env t \<longleftrightarrow> t \<le> av_now env"

text \<open>A new family is a fresh identifier; the hash is unique in the table.\<close>

definition create_refresh_token :: "auth_env \<Rightarrow> account \<Rightarrow> nat option \<Rightarrow> (auth_db, string \<times> refresh_row) handler" where
  "create_refresh_token env user family_id =
     bind (gets (\<lambda>s. (au_next s, av_hash env (av_draw env) \<notin> rt_token_hash ` set (refresh_tokens s)))) (\<lambda>(i, fresh).
       then_do (guard_or fresh (PyExc ''IntegrityError''))
         (let row = \<lparr>rt_id = i, rt_user_id = ac_id user, rt_token_hash = av_hash env (av_draw env),
                rt_family_id = (case family_id of None \<Rightarrow> Suc i | Some f \<Rightarrow> f), rt_replaced_by_id = None,
                rt_expires_at = av_now env + seconds (refresh_token_lifetime_days (av_settings env) * 86400),
                rt_revoked_at = None\<rparr>
          in then_do (modify (\<lambda>s. s\<lparr>refresh_tokens := refresh_tokens s @ [row], au_next := i + 2\<rparr>))
               (ret (av_draw env, row))))"

definition issue_token_pair :: "auth_env \<Rightarrow> account \<Rightarrow> (auth_db, string \<times> string) handler" where
  "issue_token_pair env user =
     bind (create_refresh_token env user None) (\<lambda>(refresh_token, _). ret (write_token env user, refresh_token))"

definition revoke_where :: "time \<Rightarrow> (refresh_row \<Rightarrow> bool) \<Rightarrow> auth_db \<Rightarrow> auth_db" where
  "revoke_where now which = refresh_tokens_update
     (map (\<lambda>r. if which r \<and> rt_revoked_at r = None then r\<lparr>rt_revoked_at := Some now\<rparr> else r))"

definition revoke_refresh_token_family :: "auth_env \<Rightarrow> nat \<Rightarrow> (auth_db, unit) handler" where
  "revoke_refresh_token_family env family = modify (revoke_where (av_now env) (\<lambda>r. rt_family_id r = family))"

text \<open>The first half of a rotation reads; on a token that is revoked or expired the family is revoked
  and committed.\<close>

definition rotation_check :: "auth_env \<Rightarrow> string \<Rightarrow> (auth_db, refresh_row \<times> account) handler" where
  "rotation_check env raw_token =
     (let token_hash = av_hash env raw_token
      in bind (select_one_or_none (\<lambda>s. filter (\<lambda>r. rt_token_hash r = token_hash) (refresh_tokens s))) (\<lambda>found.
         case found of None \<Rightarrow> raise unauthorized
         | Some db_token \<Rightarrow>
             if rt_revoked_at db_token \<noteq> None \<or> past_expiry env (rt_expires_at db_token)
             then then_do (revoke_refresh_token_family env (rt_family_id db_token)) (raise unauthorized)
             else bind (gets (find_account_by_id (rt_user_id db_token))) (\<lambda>user. case user of
                 None \<Rightarrow> raise unauthorized
               | Some u \<Rightarrow> if ac_is_active u then ret (db_token, u) else raise unauthorized)))"

text \<open>The second half swaps: other requests may have run in between. The update only hits a row that
  is still not revoked; when it hits none the family is revoked and committed. The update locks the row, so a
  request that wants to revoke the same row waits for the commit of the writes; but its statement, like every
  other one that began before the commit, does not see the new row. The swap is modelled as one step, which hides
  this: \<open>LoginProps.inflight_rotation_survives\<close> shows what the delayed commit of the writes does to a
  change of the password.\<close>

definition rotation_writes ::
    "auth_env \<Rightarrow> refresh_row \<times> account \<Rightarrow> (auth_db, account \<times> string \<times> string) handler" where
  "rotation_writes env seen =
     (case seen of (db_token, user) \<Rightarrow>
        then_do (modify (revoke_where (av_now env) (\<lambda>r. rt_id r = rt_id db_token)))
          (bind (create_refresh_token env user (Some (rt_family_id db_token))) (\<lambda>(new_raw_token, new_row).
             then_do (modify (refresh_tokens_update (map (\<lambda>r. if rt_id r = rt_id db_token
                  then r\<lparr>rt_replaced_by_id := Some (rt_id new_row)\<rparr> else r))))
               (ret (user, write_token env user, new_raw_token)))))"

definition rotation_swap ::
    "auth_env \<Rightarrow> refresh_row \<times> account \<Rightarrow> (auth_db, account \<times> string \<times> string) handler" where
  "rotation_swap env seen =
     (case seen of (db_token, user) \<Rightarrow>
        bind (gets (\<lambda>s. length (filter (\<lambda>r. rt_id r = rt_id db_token \<and> rt_revoked_at r = None) (refresh_tokens s))))
          (\<lambda>rowcount. if rowcount \<noteq> 1
             then then_do (revoke_refresh_token_family env (rt_family_id db_token)) (raise unauthorized)
             else committed (rotation_writes env seen)))"

definition rotate_refresh_token :: "auth_env \<Rightarrow> string \<Rightarrow> (auth_db, account \<times> string \<times> string) handler" where
  "rotate_refresh_token env raw_token = bind (rotation_check env raw_token) (rotation_swap env)"

definition revoke_refresh_token :: "auth_env \<Rightarrow> string \<Rightarrow> nat option \<Rightarrow> (auth_db, bool) handler" where
  "revoke_refresh_token env raw_token user_id =
     bind (select_one_or_none (\<lambda>s. filter (\<lambda>r. rt_token_hash r = av_hash env raw_token \<and>
            (case user_id of None \<Rightarrow> True | Some u \<Rightarrow> rt_user_id r = u)) (refresh_tokens s)))
       (\<lambda>found. case found of None \<Rightarrow> ret False
        | Some db_token \<Rightarrow> if rt_revoked_at db_token \<noteq> None then ret False
            else then_do (modify (revoke_where (av_now env) (\<lambda>r. rt_id r = rt_id db_token))) (ret True))"

section \<open>Passwords and one-time tokens\<close>

text \<open>\<open>needle in text\<close>.\<close>

fun occurs_in :: "string \<Rightarrow> string \<Rightarrow> bool" where
  "occurs_in needle [] = (needle = [])"
| "occurs_in needle (c # cs) = (starts_with needle (c # cs) \<or> occurs_in needle cs)"

definition invalid_password :: error where "invalid_password = PyExc ''InvalidPasswordException''"

definition incorrect_password :: error where "incorrect_password = PyExc ''IncorrectPasswordError''"

definition validate_password :: "string \<Rightarrow> account \<Rightarrow> error + unit" where
  "validate_password password user =
     (if length password < 8 then Inl invalid_password
      else if ac_email user \<noteq> [] \<and> occurs_in (lower (ac_email user)) (lower password) then Inl invalid_password
      else Inr ())"

text \<open>The token is stored once; a second identical one is left alone.\<close>

definition record_single_use_token ::
    "auth_env \<Rightarrow> nat \<Rightarrow> string \<Rightarrow> int \<Rightarrow> single_use_token list \<Rightarrow> single_use_token list" where
  "record_single_use_token env user_id token lifetime rows =
     (if av_hash env token \<in> su_token_hash ` set rows then rows
      else rows @ [\<lparr>su_user_id = user_id, su_token_hash = av_hash env token,
             su_expires_at = av_now env + seconds lifetime, su_consumed_at = None\<rparr>])"

definition consume_tokens :: "time \<Rightarrow> nat \<Rightarrow> single_use_token list \<Rightarrow> single_use_token list" where
  "consume_tokens now user_id =
     map (\<lambda>t. if su_user_id t = user_id \<and> su_consumed_at t = None then t\<lparr>su_consumed_at := Some now\<rparr> else t)"

definition token_lifetime_seconds :: int where "token_lifetime_seconds = 3600"

definition on_after_request_verify :: "auth_env \<Rightarrow> account \<Rightarrow> string \<Rightarrow> (auth_db, unit) handler" where
  "on_after_request_verify env user token =
     modify (verification_tokens_update (record_single_use_token env (ac_id user) token token_lifetime_seconds))"

definition on_after_verify :: "auth_env \<Rightarrow> account \<Rightarrow> (auth_db, unit) handler" where
  "on_after_verify env user = modify (verification_tokens_update (consume_tokens (av_now env) (ac_id user)))"

definition on_after_forgot_password :: "auth_env \<Rightarrow> account \<Rightarrow> string \<Rightarrow> (auth_db, unit) handler" where
  "on_after_forgot_password env user token =
     modify (reset_tokens_update (record_single_use_token env (ac_id user) token token_lifetime_seconds))"

definition end_sessions :: "auth_env \<Rightarrow> account \<Rightarrow> (auth_db, account) handler" where
  "end_sessions env user =
     (let user' = user\<lparr>ac_token_version := ac_token_version user + 1\<rparr>
      in then_do (modify (revoke_where (av_now env) (\<lambda>r. rt_user_id r = ac_id user)))
        (then_do (modify (put_account user')) (ret user')))"

definition on_after_reset_password :: "auth_env \<Rightarrow> account \<Rightarrow> (auth_db, account) handler" where
  "on_after_reset_password env user =
     then_do (modify (reset_tokens_update (consume_tokens (av_now env) (ac_id user)))) (end_sessions env user)"

definition on_after_change_password :: "auth_env \<Rightarrow> account \<Rightarrow> (auth_db, account) handler" where
  "on_after_change_password env user = end_sessions env user"

definition change_password :: "auth_env \<Rightarrow> account \<Rightarrow> string \<Rightarrow> string \<Rightarrow> (auth_db, account) handler" where
  "change_password env user current_password new_password =
     then_do (guard_or (av_password_verifies env current_password (ac_hashed_password user)) incorrect_password)
    (then_do (of_result (validate_password new_password user))
       (let user' = user\<lparr>ac_hashed_password := av_hash_password env new_password\<rparr>
        in then_do (modify (put_account user')) (on_after_change_password env user')))"

section \<open>Chat identity\<close>

definition chat_identity_proven :: "auth_settings \<Rightarrow> account \<Rightarrow> bool" where
  "chat_identity_proven cfg user =
     (if ac_is_verified user then True
      else if is_synthetic_wallet_email cfg (ac_email user) then ac_wallet_verified_at user \<noteq> None
      else if is_synthetic_phone_email cfg (ac_email user) then ac_phone_verified_at user \<noteq> None
      else False)"

text \<open>The address the chat surface is told, or a refusal.\<close>

definition issue_sso_token :: "auth_env \<Rightarrow> account \<Rightarrow> error + string \<times> string" where
  "issue_sso_token env user =
     (if \<not> chat_identity_proven (av_settings env) user then Inl forbidden
      else Inr (av_id_text env (ac_id user), ac_email user))"

section \<open>The routes of a session\<close>

definition login :: "auth_env \<Rightarrow> string \<Rightarrow> string \<Rightarrow> (auth_db, account \<times> string \<times> string) handler" where
  "login env email password =
     bind (av_authenticate env email password) (\<lambda>found. committed (case found of
       None \<Rightarrow> raise unauthorized
     | Some user \<Rightarrow> if \<not> ac_is_active user then raise unauthorized
         else bind (issue_token_pair env user) (\<lambda>pair. ret (user, pair))))"

definition refresh :: "auth_env \<Rightarrow> string \<Rightarrow> (auth_db, account \<times> string \<times> string) handler" where
  "refresh env refresh_token = rotate_refresh_token env refresh_token"

text \<open>The dependency reads the session first; what Redis remembers is not rolled back.\<close>

definition logout :: "auth_env \<Rightarrow> string option \<Rightarrow> string option \<Rightarrow> (auth_db, unit) handler" where
  "logout env authorization refresh_token =
     (let access_token = extract_bearer_token authorization
      in bind (optional_active_user env access_token) (\<lambda>user.
         then_do (case access_token of None \<Rightarrow> ret () | Some t \<Rightarrow> bind (revoke_access_token env t) (\<lambda>_. ret ()))
           (if refresh_token = None \<or> refresh_token = Some [] then ret ()
            else bind (revoke_refresh_token env (the refresh_token) (map_option ac_id user)) (\<lambda>_. ret ()))))"

definition change_password_route ::
    "auth_env \<Rightarrow> string option \<Rightarrow> string \<Rightarrow> string \<Rightarrow> (auth_db, unit) handler" where
  "change_password_route env authorization current_password new_password =
     bind (current_active_user env (extract_bearer_token authorization)) (\<lambda>user.
       on_error (change_password env user current_password new_password)
         (\<lambda>e. if e = incorrect_password then raise (bad_request ''incorrect_current_password'')
              else if e = invalid_password then raise (bad_request ''invalid_password'') else raise e)
         (\<lambda>_. ret ()))"

definition issue_sso_cookie_token :: "auth_env \<Rightarrow> string option \<Rightarrow> (auth_db, string \<times> string) handler" where
  "issue_sso_cookie_token env authorization =
     bind (current_active_user env (extract_bearer_token authorization)) (\<lambda>user. of_result (issue_sso_token env user))"

end
