(* ===== verification/Logins.thy ===== *)
theory Logins
  imports Sessions
begin

text \<open>
  The other ways into an account: a code sent to a phone (\<^verbatim>\<open>app/auth/phone.py\<close>), the signature of an
  EVM wallet (\<^verbatim>\<open>app/auth/wallet.py\<close>, and \<^verbatim>\<open>app/wallets/service.py\<close> for an account that already
  exists), an OAuth provider (\<^verbatim>\<open>app/auth/oauth.py\<close>), and the routes under \<^verbatim>\<open>/me\<close>
  (\<^verbatim>\<open>app/users/service.py\<close>). Operations that commit on their way are sessions of the prelude.
\<close>

section \<open>Accounts without a password\<close>

definition full_name_max_length :: nat where "full_name_max_length = 255"

text \<open>The account library commits the account it creates, and with it the open session.\<close>

definition create_random_password_user ::
    "auth_env \<Rightarrow> string \<Rightarrow> string option \<Rightarrow> (auth_db \<times> auth_db, account) handler" where
  "create_random_password_user env email full_name =
     bind (within (av_create env email (av_draw env) (map_option (take full_name_max_length) full_name))) (\<lambda>user.
       then_do commit (ret user))"

section \<open>Codes sent to a phone\<close>

definition purpose_text :: "phone_purpose \<Rightarrow> string" where
  "purpose_text p = (case p of LoginPhone \<Rightarrow> ''login'' | LinkPhone \<Rightarrow> ''link'')"

definition hash_otp :: "auth_env \<Rightarrow> string \<Rightarrow> string \<Rightarrow> phone_purpose \<Rightarrow> string" where
  "hash_otp env phone_number code purpose =
     av_hash env (purpose_text purpose @ '':'' @ phone_number @ '':'' @ code)"

definition normalize_phone_or_400 :: "auth_env \<Rightarrow> string \<Rightarrow> error + string" where
  "normalize_phone_or_400 env phone_number = (case av_phone env phone_number of
     None \<Rightarrow> Inl (bad_request ''invalid_phone_number'') | Some n \<Rightarrow> Inr n)"

definition code_of_phone :: "string \<Rightarrow> phone_purpose \<Rightarrow> phone_code \<Rightarrow> bool" where
  "code_of_phone number purpose r \<longleftrightarrow>
     ph_phone_number r = number \<and> ph_purpose r = purpose \<and> ph_consumed_at r = None"

definition request_otp ::
    "auth_env \<Rightarrow> string \<Rightarrow> phone_purpose \<Rightarrow> account option \<Rightarrow> (auth_db, string) handler" where
  "request_otp env phone_number purpose user =
     bind (of_result (normalize_phone_or_400 env phone_number)) (\<lambda>normalized.
       then_do (modify (phone_codes_update (map (\<lambda>r. if code_of_phone normalized purpose r
            then r\<lparr>ph_consumed_at := Some (av_now env)\<rparr> else r))))
      (then_do (modify (\<lambda>s. s\<lparr>phone_codes := phone_codes s @ [\<lparr>ph_id = au_next s, ph_user_id = map_option ac_id user,
            ph_phone_number = normalized, ph_purpose = purpose,
            ph_otp_hash = hash_otp env normalized (av_draw env) purpose, ph_attempts = 0, ph_created_at = av_now env,
            ph_expires_at = av_now env + seconds (otp_ttl_seconds (av_settings env)), ph_consumed_at = None\<rparr>],
            au_next := Suc (au_next s)\<rparr>))
      (then_do (of_result (av_send_code env normalized)) (ret normalized))))"

definition put_code :: "phone_code \<Rightarrow> auth_db \<Rightarrow> auth_db" where
  "put_code r = phone_codes_update (replace_by ph_id r)"

text \<open>The newest code that is neither consumed nor expired (the first of those in the table on a tie).\<close>

definition live_code :: "auth_env \<Rightarrow> string \<Rightarrow> phone_purpose \<Rightarrow> auth_db \<Rightarrow> phone_code option" where
  "live_code env number purpose s =
     (case sort_key (\<lambda>r. - ph_created_at r)
         (filter (\<lambda>r. code_of_phone number purpose r \<and> ph_expires_at r > av_now env) (phone_codes s)) of
        [] \<Rightarrow> None | r # _ \<Rightarrow> Some r)"

text \<open>A wrong guess is counted and committed.\<close>

definition verify_code ::
    "auth_env \<Rightarrow> string \<Rightarrow> string \<Rightarrow> phone_purpose \<Rightarrow> (auth_db \<times> auth_db, string) handler" where
  "verify_code env phone_number code purpose =
     bind (of_result (normalize_phone_or_400 env phone_number)) (\<lambda>normalized.
     bind (within (gets (live_code env normalized purpose))) (\<lambda>found. case found of
        None \<Rightarrow> raise (bad_request ''otp_invalid'')
      | Some r \<Rightarrow>
          (let attempts = ph_attempts r + 1
           in if ph_otp_hash r \<noteq> hash_otp env normalized code purpose
              then if attempts \<ge> otp_max_attempts (av_settings env)
                then then_do (within (modify (put_code (r\<lparr>ph_attempts := attempts, ph_consumed_at := Some (av_now env)\<rparr>))))
                       (then_do commit (raise (bad_request ''otp_attempts_exceeded'')))
                else then_do (within (modify (put_code (r\<lparr>ph_attempts := attempts\<rparr>))))
                       (then_do commit (raise (bad_request ''otp_invalid'')))
              else then_do (within (modify (put_code (r\<lparr>ph_attempts := attempts, ph_consumed_at := Some (av_now env)\<rparr>))))
                     (ret normalized))))"

definition get_user_by_phone :: "string \<Rightarrow> (auth_db, account option) handler" where
  "get_user_by_phone number = select_one_or_none (\<lambda>s. filter (\<lambda>u. ac_phone_number u = Some number) (accounts s))"

definition with_phone :: "auth_env \<Rightarrow> string \<Rightarrow> account \<Rightarrow> account" where
  "with_phone env number u = u\<lparr>ac_phone_number := Some number, ac_phone_verified_at := Some (av_now env)\<rparr>"

definition phone_login_or_create ::
    "auth_env \<Rightarrow> string \<Rightarrow> string \<Rightarrow> string option \<Rightarrow> (auth_db \<times> auth_db, account \<times> string \<times> string) handler" where
  "phone_login_or_create env phone_number code full_name =
     bind (verify_code env phone_number code LoginPhone) (\<lambda>number.
     bind (within (get_user_by_phone number)) (\<lambda>found.
     bind (case found of Some user \<Rightarrow> ret user
           | None \<Rightarrow> bind (create_random_password_user env (synthetic_phone_email env number) full_name) (\<lambda>created.
               let user = with_phone env number created
               in then_do (within (modify (put_account user))) (ret user))) (\<lambda>user.
     if \<not> ac_is_active user then raise unauthorized
     else bind (within (issue_token_pair env user)) (\<lambda>pair. ret (user, pair)))))"

definition link_phone ::
    "auth_env \<Rightarrow> account \<Rightarrow> string \<Rightarrow> string \<Rightarrow> (auth_db \<times> auth_db, account) handler" where
  "link_phone env user phone_number code =
     bind (verify_code env phone_number code LinkPhone) (\<lambda>number.
     bind (within (get_user_by_phone number)) (\<lambda>existing.
       if existing \<noteq> None \<and> map_option ac_id existing \<noteq> Some (ac_id user)
       then raise (bad_request ''phone_in_use'')
       else then_do (within (modify (put_account (with_phone env number user)))) (ret (with_phone env number user))))"

definition unlink_phone :: "account \<Rightarrow> (auth_db, account) handler" where
  "unlink_phone user =
     (if is_falsy (ac_phone_number user) then raise not_found
      else if \<not> ac_is_verified user then raise forbidden
      else let user' = user\<lparr>ac_phone_number := None, ac_phone_verified_at := None\<rparr>
        in then_do (modify (put_account user')) (ret user'))"

text \<open>The routes; a code has six characters.\<close>

definition invalid_request :: error where "invalid_request = HttpError 422 ''validation_error''"

definition or_unauthorized :: "'u option \<Rightarrow> ('s, 'u) handler" where
  "or_unauthorized found = (case found of None \<Rightarrow> raise unauthorized | Some u \<Rightarrow> ret u)"

definition phone_request_otp ::
    "auth_env \<Rightarrow> string option \<Rightarrow> string \<Rightarrow> phone_purpose \<Rightarrow> (auth_db, string) handler" where
  "phone_request_otp env authorization phone_number purpose =
     bind (optional_active_user env (extract_bearer_token authorization)) (\<lambda>user.
       if purpose = LinkPhone \<and> user = None then raise unauthorized
       else committed (request_otp env phone_number purpose user))"

definition phone_verify_otp ::
    "auth_env \<Rightarrow> string \<Rightarrow> string \<Rightarrow> string option \<Rightarrow> (auth_db, account \<times> string \<times> string) handler" where
  "phone_verify_otp env phone_number code full_name =
     (if length code \<noteq> 6 \<or> (full_name \<noteq> None \<and> length (the full_name) > full_name_max_length) then raise invalid_request
      else run_session (phone_login_or_create env phone_number code full_name))"

definition phone_link :: "auth_env \<Rightarrow> string option \<Rightarrow> string \<Rightarrow> string \<Rightarrow> (auth_db, account) handler" where
  "phone_link env authorization phone_number code =
     (if length code \<noteq> 6 then raise invalid_request
      else bind (optional_active_user env (extract_bearer_token authorization)) (\<lambda>found.
        bind (or_unauthorized found) (\<lambda>user. run_session (link_phone env user phone_number code))))"

definition phone_unlink :: "auth_env \<Rightarrow> string option \<Rightarrow> (auth_db, account) handler" where
  "phone_unlink env authorization =
     bind (optional_active_user env (extract_bearer_token authorization)) (\<lambda>found.
       bind (or_unauthorized found) (\<lambda>user. committed (unlink_phone user)))"

section \<open>Signatures of a wallet\<close>

definition is_hex_digit :: "char \<Rightarrow> bool" where
  "is_hex_digit c \<longleftrightarrow> c \<in> set ''0123456789abcdefABCDEF''"

definition normalize_evm_address :: "auth_env \<Rightarrow> string \<Rightarrow> error + string" where
  "normalize_evm_address env address =
     (let candidate = strip address
      in if starts_with ''0x'' candidate \<and> length candidate = 42 \<and> list_all is_hex_digit (drop 2 candidate)
         then Inr (case av_checksum env candidate of Some a \<Rightarrow> a | None \<Rightarrow> ''0x'' @ lower (drop 2 candidate))
         else Inl (PyExc ''ValueError''))"

definition addresses_equal :: "string \<Rightarrow> string \<Rightarrow> bool" where
  "addresses_equal left right \<longleftrightarrow> lower left = lower right"

definition recover_evm_message_address :: "auth_env \<Rightarrow> string \<Rightarrow> string \<Rightarrow> error + string" where
  "recover_evm_message_address env message signature =
     (case av_recover env message signature of None \<Rightarrow> Inl (PyExc ''ValueError'')
      | Some recovered \<Rightarrow> normalize_evm_address env recovered)"

definition newline :: string where "newline = [CHR 0x0A]"

definition wallet_message :: "string \<Rightarrow> string \<Rightarrow> string" where
  "wallet_message address nonce =
     ''Sign this message to connect your wallet to Inference API.'' @ newline @ newline
     @ ''Address: '' @ address @ newline @ ''Nonce: '' @ nonce @ newline
     @ ''Only sign this message if you initiated this request.''"

text \<open>The address of the application is an absolute URL.\<close>

definition url_netloc :: "string \<Rightarrow> string" where
  "url_netloc url = takeWhile (\<lambda>c. c \<notin> set ''/?#'') (drop 2 (dropWhile (\<lambda>c. c \<noteq> CHR ''/'') url))"

definition siwe_message :: "auth_env \<Rightarrow> string \<Rightarrow> string \<Rightarrow> string \<Rightarrow> string" where
  "siwe_message env address nonce issued_at =
     (let app_url = as_app_url (av_settings env);
          domain = (if url_netloc app_url = [] then ''localhost'' else url_netloc app_url);
          uri = rev (dropWhile (\<lambda>c. c = CHR ''/'') (rev app_url))
      in domain @ '' wants you to sign in with your Ethereum account:'' @ newline
         @ address @ newline @ newline @ ''Sign in to Talaris.'' @ newline @ newline
         @ ''URI: '' @ uri @ newline @ ''Version: 1'' @ newline
         @ ''Chain ID: '' @ wallet_siwe_chain_id (av_settings env) @ newline
         @ ''Nonce: '' @ nonce @ newline @ ''Issued At: '' @ issued_at)"

definition add_nonce :: "auth_env \<Rightarrow> nat option \<Rightarrow> string \<Rightarrow> string \<Rightarrow> (auth_db, unit) handler" where
  "add_nonce env user_id address message =
     then_do (bind (gets (\<lambda>s. av_hash env message \<notin> wn_nonce_hash ` set (wallet_nonces s)))
         (\<lambda>fresh. guard_or fresh (PyExc ''IntegrityError'')))
       (modify (\<lambda>s. s\<lparr>wallet_nonces := wallet_nonces s @ [\<lparr>wn_user_id = user_id, wn_address = address,
          wn_nonce_hash = av_hash env message,
          wn_expires_at = av_now env + seconds (wallet_nonce_ttl_seconds (av_settings env)), wn_used_at = None\<rparr>]\<rparr>))"

definition create_login_nonce :: "auth_env \<Rightarrow> string \<Rightarrow> (auth_db, string \<times> string) handler" where
  "create_login_nonce env address =
     bind (of_result (normalize_evm_address env address)) (\<lambda>normalized.
       let message = siwe_message env normalized (av_draw env) (av_isoformat env (av_now env))
       in then_do (add_nonce env None normalized message) (ret (normalized, message)))"

definition create_nonce :: "auth_env \<Rightarrow> account \<Rightarrow> string \<Rightarrow> (auth_db, string \<times> string) handler" where
  "create_nonce env user address =
     bind (of_result (normalize_evm_address env address)) (\<lambda>normalized.
       let message = wallet_message normalized (av_draw env)
       in then_do (add_nonce env (Some (ac_id user)) normalized message) (ret (normalized, message)))"

definition usable_nonce :: "auth_env \<Rightarrow> string \<Rightarrow> string \<Rightarrow> wallet_nonce \<Rightarrow> bool" where
  "usable_nonce env address message n \<longleftrightarrow> wn_address n = address \<and> wn_nonce_hash n = av_hash env message \<and>
     wn_used_at n = None \<and> wn_expires_at n > av_now env"

definition use_nonce :: "auth_env \<Rightarrow> wallet_nonce \<Rightarrow> auth_db \<Rightarrow> auth_db" where
  "use_nonce env n = wallet_nonces_update (replace_by wn_nonce_hash (n\<lparr>wn_used_at := Some (av_now env)\<rparr>))"

definition check_signature :: "auth_env \<Rightarrow> string \<Rightarrow> string \<Rightarrow> string \<Rightarrow> error + unit" where
  "check_signature env address message signature =
     (case recover_evm_message_address env message signature of Inl e \<Rightarrow> Inl e
      | Inr recovered \<Rightarrow> if addresses_equal recovered address then Inr ()
          else Inl (bad_request ''invalid_wallet_signature''))"

definition wallet_with_address :: "string \<Rightarrow> (auth_db, evm_wallet option) handler" where
  "wallet_with_address address = select_one_or_none (\<lambda>s. filter (\<lambda>w. ew_address w = address) (evm_wallets s))"

definition get_wallet :: "account \<Rightarrow> (auth_db, evm_wallet option) handler" where
  "get_wallet user = select_one_or_none (\<lambda>s. filter (\<lambda>w. ew_user_id w = ac_id user) (evm_wallets s))"

definition require_wallet :: "account \<Rightarrow> (auth_db, evm_wallet) handler" where
  "require_wallet user = bind (get_wallet user) (\<lambda>found. case found of None \<Rightarrow> raise not_found | Some w \<Rightarrow> ret w)"

definition add_wallet :: "auth_env \<Rightarrow> nat \<Rightarrow> string \<Rightarrow> auth_db \<Rightarrow> auth_db" where
  "add_wallet env user_id address s = s\<lparr>evm_wallets := evm_wallets s @ [\<lparr>ew_user_id = user_id, ew_address = address,
     ew_verified_at = av_now env, ew_last_balance_sync_at = None\<rparr>]\<rparr>"

definition wallet_login_or_create ::
    "auth_env \<Rightarrow> string \<Rightarrow> string \<Rightarrow> string \<Rightarrow> (auth_db \<times> auth_db, account \<times> string \<times> string) handler" where
  "wallet_login_or_create env address message signature =
     bind (of_result (normalize_evm_address env address)) (\<lambda>normalized.
     bind (within (select_one_or_none (\<lambda>s. filter (usable_nonce env normalized message) (wallet_nonces s)))) (\<lambda>found.
       case found of None \<Rightarrow> raise (bad_request ''invalid_wallet_nonce'')
     | Some nonce \<Rightarrow>
         then_do (of_result (check_signature env normalized message signature))
        (bind (within (wallet_with_address normalized)) (\<lambda>wallet.
         bind (case wallet of
             Some w \<Rightarrow> bind (within (gets (find_account_by_id (ew_user_id w)))) (\<lambda>owner. case owner of
                 None \<Rightarrow> raise (bad_request ''invalid_wallet_nonce'') | Some user \<Rightarrow> ret user)
           | None \<Rightarrow> bind (create_random_password_user env (synthetic_wallet_email env normalized) None) (\<lambda>user.
               then_do (within (modify (add_wallet env (ac_id user) normalized))) (ret user))) (\<lambda>user.
         if \<not> ac_is_active user then raise unauthorized
         else let user' = (if ac_wallet_verified_at user = None
                then user\<lparr>ac_wallet_verified_at := Some (av_now env)\<rparr> else user)
           in then_do (within (modify (put_account user')))
             (then_do (within (modify (use_nonce env nonce)))
               (bind (within (issue_token_pair env user')) (\<lambda>pair. ret (user', pair)))))))))"

definition verify_wallet ::
    "auth_env \<Rightarrow> account \<Rightarrow> string \<Rightarrow> string \<Rightarrow> string \<Rightarrow> (auth_db, unit) handler" where
  "verify_wallet env user address message signature =
     bind (of_result (normalize_evm_address env address)) (\<lambda>normalized.
     bind (select_one_or_none (\<lambda>s. filter (\<lambda>n. wn_user_id n = Some (ac_id user) \<and> usable_nonce env normalized message n)
          (wallet_nonces s))) (\<lambda>found. case found of
       None \<Rightarrow> raise (bad_request ''invalid_wallet_nonce'')
     | Some nonce \<Rightarrow>
         then_do (of_result (check_signature env normalized message signature))
        (bind (wallet_with_address normalized) (\<lambda>existing.
           if existing \<noteq> None \<and> map_option ew_user_id existing \<noteq> Some (ac_id user)
           then raise (bad_request ''wallet_already_linked'')
           else bind (get_wallet user) (\<lambda>wallet.
             then_do (modify (case wallet of None \<Rightarrow> add_wallet env (ac_id user) normalized
                | Some w \<Rightarrow> evm_wallets_update
                    (replace_by ew_user_id (w\<lparr>ew_address := normalized, ew_verified_at := av_now env\<rparr>))))
               (modify (use_nonce env nonce)))))))"

definition unlink_wallet :: "account \<Rightarrow> (auth_db, unit) handler" where
  "unlink_wallet user = bind (get_wallet user) (\<lambda>wallet. case wallet of None \<Rightarrow> ret ()
     | Some w \<Rightarrow> modify (evm_wallets_update (filter (\<lambda>x. ew_user_id x \<noteq> ew_user_id w))))"

text \<open>The routes; the request models bring the address into its normal form before the service does.\<close>

definition address_field :: "auth_env \<Rightarrow> string \<Rightarrow> error + string" where
  "address_field env address = (if length address \<noteq> 42 then Inl invalid_request
     else case normalize_evm_address env address of Inl _ \<Rightarrow> Inl invalid_request | Inr a \<Rightarrow> Inr a)"

definition wallet_login_nonce :: "auth_env \<Rightarrow> string \<Rightarrow> (auth_db, string \<times> string) handler" where
  "wallet_login_nonce env address =
     bind (of_result (address_field env address)) (\<lambda>a. committed (create_login_nonce env a))"

definition signed_fields :: "string \<Rightarrow> string \<Rightarrow> bool" where
  "signed_fields message signature \<longleftrightarrow>
     1 \<le> length message \<and> length message \<le> 2000 \<and> 1 \<le> length signature \<and> length signature \<le> 512"

definition wallet_login_verify ::
    "auth_env \<Rightarrow> string \<Rightarrow> string \<Rightarrow> string \<Rightarrow> (auth_db, account \<times> string \<times> string) handler" where
  "wallet_login_verify env address message signature =
     bind (of_result (address_field env address)) (\<lambda>a.
       then_do (guard_or (signed_fields message signature) invalid_request)
         (run_session (wallet_login_or_create env a message signature)))"

definition create_evm_nonce ::
    "auth_env \<Rightarrow> string option \<Rightarrow> string \<Rightarrow> (auth_db, string \<times> string) handler" where
  "create_evm_nonce env authorization address =
     bind (of_result (address_field env address)) (\<lambda>a.
     bind (current_active_user env (extract_bearer_token authorization)) (\<lambda>user. committed (create_nonce env user a)))"

definition verify_evm_wallet ::
    "auth_env \<Rightarrow> string option \<Rightarrow> string \<Rightarrow> string \<Rightarrow> string \<Rightarrow> (auth_db, unit) handler" where
  "verify_evm_wallet env authorization address message signature =
     bind (of_result (address_field env address)) (\<lambda>a.
       then_do (guard_or (signed_fields message signature) invalid_request)
         (bind (current_active_user env (extract_bearer_token authorization)) (\<lambda>user.
            committed (verify_wallet env user a message signature))))"

definition unlink_evm_wallet :: "auth_env \<Rightarrow> string option \<Rightarrow> (auth_db, unit) handler" where
  "unlink_evm_wallet env authorization =
     bind (current_active_user env (extract_bearer_token authorization)) (\<lambda>user. committed (unlink_wallet user))"

section \<open>OAuth providers\<close>

text \<open>The claims of an identity token (texts, as OpenID Connect has them, and the verification flag in
  whatever form the provider sends it) and the tokens of the provider.\<close>

record oauth_userinfo =
  ui_sub :: "string option"
  ui_id :: "string option"
  ui_email :: "string option"
  ui_email_verified :: json
  ui_name :: "string option"
  ui_given_name :: "string option"
  ui_family_name :: "string option"

record oauth_token =
  ot_access_token :: "string option"
  ot_refresh_token :: "string option"
  ot_expires_at :: "int option"

record oauth_profile =
  pf_provider :: string
  pf_account_id :: string
  pf_email :: string
  pf_email_verified :: bool
  pf_full_name :: "string option"

definition parse_oauth_email_verified :: "json \<Rightarrow> bool" where
  "parse_oauth_email_verified v = (case v of JBool b \<Rightarrow> b
     | JStr t \<Rightarrow> lower (strip t) \<in> {''1'', ''true'', ''yes''} | _ \<Rightarrow> False)"

definition extract_oauth_profile :: "string \<Rightarrow> oauth_userinfo \<Rightarrow> error + oauth_profile" where
  "extract_oauth_profile provider info =
     (let account_id = or_empty (if is_falsy (ui_sub info) then ui_id info else ui_sub info);
          email = or_empty (ui_email info);
          full_name = (if is_falsy (ui_name info) \<and> \<not> is_falsy (ui_given_name info)
            then Some (join '' '' (map the (filter (\<lambda>part. \<not> is_falsy part) [ui_given_name info, ui_family_name info])))
            else ui_name info)
      in if account_id = [] \<or> email = [] then Inl unauthorized
         else Inr \<lparr>pf_provider = provider, pf_account_id = account_id, pf_email = lower email,
           pf_email_verified = parse_oauth_email_verified (ui_email_verified info), pf_full_name = full_name\<rparr>)"

definition find_or_create_user :: "auth_env \<Rightarrow> oauth_profile \<Rightarrow> (auth_db \<times> auth_db, account) handler" where
  "find_or_create_user env profile =
     bind (within (gets (av_by_email env (pf_email profile)))) (\<lambda>found. case found of Some user \<Rightarrow> ret user
       | None \<Rightarrow> create_random_password_user env (pf_email profile) (pf_full_name profile))"

definition same_oauth_account :: "oauth_profile \<Rightarrow> oauth_account \<Rightarrow> bool" where
  "same_oauth_account profile a \<longleftrightarrow> oa_name a = pf_provider profile \<and> oa_account_id a = pf_account_id profile"

definition update_oauth_account :: "oauth_token \<Rightarrow> oauth_account \<Rightarrow> oauth_account" where
  "update_oauth_account token a = a\<lparr>
     oa_access_token := (if is_falsy (ot_access_token token) then oa_access_token a else the (ot_access_token token)),
     oa_refresh_token := (if is_falsy (ot_refresh_token token) then oa_refresh_token a else ot_refresh_token token),
     oa_expires_at := (if ot_expires_at token \<in> {None, Some 0} then oa_expires_at a else ot_expires_at token)\<rparr>"

definition new_oauth_account :: "oauth_profile \<Rightarrow> oauth_token \<Rightarrow> nat \<Rightarrow> oauth_account" where
  "new_oauth_account profile token user_id = \<lparr>oa_user_id = user_id, oa_name = pf_provider profile,
     oa_account_id = pf_account_id profile, oa_account_email = pf_email profile,
     oa_access_token = or_empty (ot_access_token token), oa_refresh_token = ot_refresh_token token,
     oa_expires_at = ot_expires_at token\<rparr>"

definition oauth_login_or_create ::
    "auth_env \<Rightarrow> oauth_profile \<Rightarrow> oauth_token \<Rightarrow> (auth_db \<times> auth_db, account \<times> string \<times> string) handler" where
  "oauth_login_or_create env profile token =
     then_do (guard_or (pf_email_verified profile) (bad_request ''oauth_email_unverified''))
    (bind (within (select_one_or_none (\<lambda>s. filter (same_oauth_account profile) (oauth_accounts s)))) (\<lambda>linked.
     bind (case linked of
         Some a \<Rightarrow> bind (within (gets (find_account_by_id (oa_user_id a)))) (\<lambda>owner. case owner of
             None \<Rightarrow> raise unauthorized
           | Some user \<Rightarrow> if \<not> ac_is_active user then raise unauthorized
               else then_do (within (modify (oauth_accounts_update (map (\<lambda>x. if same_oauth_account profile x
                      then update_oauth_account token x else x))))) (ret user))
       | None \<Rightarrow> bind (find_or_create_user env profile) (\<lambda>user.
           then_do (within (modify (\<lambda>s. s\<lparr>oauth_accounts := oauth_accounts s @ [new_oauth_account profile token (ac_id user)]\<rparr>)))
             (ret user))) (\<lambda>user.
     let user' = user\<lparr>ac_is_verified := True\<rparr>
     in then_do (within (modify (put_account user')))
       (bind (within (issue_token_pair env user')) (\<lambda>pair. ret (user', pair))))))"

text \<open>The callback; \<open>None\<close> for a provider that is not configured.\<close>

definition oauth_callback ::
    "auth_env \<Rightarrow> string \<Rightarrow> (oauth_userinfo \<times> oauth_token) option \<Rightarrow> (auth_db, account \<times> string \<times> string) handler" where
  "oauth_callback env provider answer =
     (case answer of None \<Rightarrow> raise (bad_request ''oauth_provider_not_configured'')
      | Some (info, token) \<Rightarrow> bind (of_result (extract_oauth_profile provider info)) (\<lambda>profile.
          run_session (oauth_login_or_create env profile token)))"

section \<open>Accounts by email\<close>

definition user_inactive :: error where "user_inactive = PyExc ''UserInactive''"
definition user_already_verified :: error where "user_already_verified = PyExc ''UserAlreadyVerified''"
definition user_already_exists :: error where "user_already_exists = PyExc ''UserAlreadyExists''"

text \<open>The account library refuses to send to an inactive account; otherwise it makes the token and calls
  the hook.\<close>

definition request_verify :: "auth_env \<Rightarrow> account \<Rightarrow> (auth_db, unit) handler" where
  "request_verify env user =
     (if \<not> ac_is_active user then raise user_inactive
      else if ac_is_verified user then raise user_already_verified
      else on_after_request_verify env user (av_verify_token env user))"

definition ignoring :: "error set \<Rightarrow> ('s, unit) handler \<Rightarrow> ('s, unit) handler" where
  "ignoring es m = on_error m (\<lambda>e. if e \<in> es then ret () else raise e) ret"

definition register :: "auth_env \<Rightarrow> string \<Rightarrow> string \<Rightarrow> string option \<Rightarrow> (auth_db, account) handler" where
  "register env email password full_name =
     bind (on_error (av_create env email password full_name)
        (\<lambda>e. if e = user_already_exists then raise (bad_request ''user_exists'')
             else if e = invalid_password then raise (bad_request ''invalid_password'') else raise e) ret) (\<lambda>user.
       if auto_verify_new_users (av_settings env)
       then then_do (modify (put_account (user\<lparr>ac_is_verified := True\<rparr>))) (ret (user\<lparr>ac_is_verified := True\<rparr>))
       else then_do (ignoring {user_already_verified} (request_verify env user)) (ret user))"

definition request_verify_email :: "auth_env \<Rightarrow> string \<Rightarrow> (auth_db, unit) handler" where
  "request_verify_email env email =
     (if is_synthetic_phone_email (av_settings env) email \<or> is_synthetic_wallet_email (av_settings env) email then ret ()
      else bind (gets (av_by_email env email)) (\<lambda>found. case found of None \<Rightarrow> ret ()
        | Some user \<Rightarrow> ignoring {user_already_verified} (request_verify env user)))"

definition verify_email :: "auth_env \<Rightarrow> string \<Rightarrow> (auth_db, account) handler" where
  "verify_email env token =
     bind (gets (av_verified_account env token)) (\<lambda>r. case r of
       Inl e \<Rightarrow> if e = PyExc ''InvalidVerifyToken'' \<or> e = user_already_verified
                then raise (bad_request ''invalid_verification_token'') else raise e
     | Inr user \<Rightarrow> let user' = user\<lparr>ac_is_verified := True\<rparr>
         in then_do (modify (put_account user')) (then_do (on_after_verify env user') (ret user')))"

definition forgot_password :: "auth_env \<Rightarrow> string \<Rightarrow> (auth_db, unit) handler" where
  "forgot_password env email =
     bind (gets (av_by_email env email)) (\<lambda>found. case found of None \<Rightarrow> ret ()
       | Some user \<Rightarrow> if \<not> ac_is_active user then raise user_inactive
           else on_after_forgot_password env user (av_reset_token env user))"

definition reset_password :: "auth_env \<Rightarrow> string \<Rightarrow> string \<Rightarrow> (auth_db, account) handler" where
  "reset_password env token password =
     bind (gets (av_reset_account env token)) (\<lambda>r. case r of
       Inl e \<Rightarrow> if e = PyExc ''InvalidResetPasswordToken'' then raise (bad_request ''invalid_reset_token'') else raise e
     | Inr user \<Rightarrow> if \<not> ac_is_active user then raise user_inactive
         else (case validate_password password user of Inl _ \<Rightarrow> raise (bad_request ''invalid_reset_token'')
           | Inr _ \<Rightarrow> let user' = user\<lparr>ac_hashed_password := av_hash_password env password\<rparr>
               in then_do (modify (put_account user')) (on_after_reset_password env user')))"

section \<open>The account itself\<close>

definition update_me :: "auth_env \<Rightarrow> account \<Rightarrow> user_update \<Rightarrow> (auth_db, account) handler" where
  "update_me env user payload =
     bind (gets (\<lambda>s. filter (\<lambda>a. oa_user_id a = ac_id user) (oauth_accounts s))) (\<lambda>linked.
       let new_email = up_email payload \<noteq> None \<and> lower (the (up_email payload)) \<noteq> lower (ac_email user)
       in if up_password payload \<noteq> None then raise (bad_request ''use_change_password_endpoint'')
          else if new_email \<and> linked \<noteq> [] then raise (bad_request ''email_locked_to_oauth'')
          else if new_email \<and> (is_synthetic_phone_email (av_settings env) (the (up_email payload))
                 \<or> is_synthetic_wallet_email (av_settings env) (the (up_email payload)))
          then raise (bad_request ''email_reserved'')
          else on_error (av_update env user payload)
            (\<lambda>e. if e = user_already_exists then raise (bad_request ''email_exists'')
                 else if e = invalid_password then raise (bad_request ''invalid_password'') else raise e)
            ret)"

text \<open>Deleting the account deletes its rows of the tables here.\<close>

definition delete_account :: "nat \<Rightarrow> auth_db \<Rightarrow> auth_db" where
  "delete_account uid s = s\<lparr>
     accounts := filter (\<lambda>u. ac_id u \<noteq> uid) (accounts s),
     refresh_tokens := filter (\<lambda>r. rt_user_id r \<noteq> uid) (refresh_tokens s),
     verification_tokens := filter (\<lambda>t. su_user_id t \<noteq> uid) (verification_tokens s),
     reset_tokens := filter (\<lambda>t. su_user_id t \<noteq> uid) (reset_tokens s),
     phone_codes := filter (\<lambda>r. ph_user_id r \<noteq> Some uid) (phone_codes s),
     wallet_nonces := filter (\<lambda>n. wn_user_id n \<noteq> Some uid) (wallet_nonces s),
     evm_wallets := filter (\<lambda>w. ew_user_id w \<noteq> uid) (evm_wallets s),
     oauth_accounts := filter (\<lambda>a. oa_user_id a \<noteq> uid) (oauth_accounts s)\<rparr>"

definition update_me_route :: "auth_env \<Rightarrow> string option \<Rightarrow> user_update \<Rightarrow> (auth_db, account) handler" where
  "update_me_route env authorization payload =
     bind (current_active_user env (extract_bearer_token authorization)) (\<lambda>user. update_me env user payload)"

definition delete_me_route :: "auth_env \<Rightarrow> string option \<Rightarrow> (auth_db, unit) handler" where
  "delete_me_route env authorization =
     bind (current_active_user env (extract_bearer_token authorization)) (\<lambda>user. modify (delete_account (ac_id user)))"

end
