(* ===== verification/AuthState.thy ===== *)
theory AuthState
  imports Logins
begin

text \<open>
  The invariant of the accounts and sessions of the control plane, the order in which its state moves
  (what is revoked, consumed or used stays so, and versions never fall), and the elementary updates
  that keep both. Operations are checked with triples over the two.
\<close>

section \<open>What the account library is relied on for\<close>

definition authenticate_ok :: "auth_env \<Rightarrow> bool" where
  "authenticate_ok env \<longleftrightarrow> (\<forall>email password s r s'. av_authenticate env email password s = (r, s') \<longrightarrow>
     (\<exists>f. s' = accounts_update (map (\<lambda>u. u\<lparr>ac_hashed_password := f u\<rparr>)) s) \<and>
     (\<forall>u. r = Inr (Some u) \<longrightarrow> u \<in> set (accounts s')))"

definition create_ok :: "auth_env \<Rightarrow> bool" where
  "create_ok env \<longleftrightarrow> (\<forall>email password name s r s'. av_create env email password name s = (r, s') \<longrightarrow>
     (case r of Inl e \<Rightarrow> s' = s
      | Inr u \<Rightarrow> ac_id u = au_next s \<and> ac_token_version u = 0 \<and> lower (ac_email u) = lower email \<and>
          (\<forall>v \<in> set (accounts s). lower (ac_email v) \<noteq> lower email) \<and>
          s' = s\<lparr>accounts := accounts s @ [u], au_next := Suc (au_next s)\<rparr>))"

definition update_ok :: "auth_env \<Rightarrow> bool" where
  "update_ok env \<longleftrightarrow> (\<forall>user payload s r s'. av_update env user payload s = (r, s') \<longrightarrow>
     (case r of Inl e \<Rightarrow> s' = s
      | Inr u \<Rightarrow> ac_id u = ac_id user \<and> ac_token_version u = ac_token_version user \<and> s' = put_account u s))"

definition lookups_ok :: "auth_env \<Rightarrow> bool" where
  "lookups_ok env \<longleftrightarrow>
     (\<forall>email s u. av_by_email env email s = Some u \<longrightarrow> u \<in> set (accounts s) \<and> lower (ac_email u) = lower email) \<and>
     (\<forall>t s u. av_verified_account env t s = Inr u \<longrightarrow> u \<in> set (accounts s)) \<and>
     (\<forall>t s u. av_reset_account env t s = Inr u \<longrightarrow> u \<in> set (accounts s))"

definition library_ok :: "auth_env \<Rightarrow> bool" where
  "library_ok env \<longleftrightarrow> authenticate_ok env \<and> create_ok env \<and> update_ok env \<and> lookups_ok env"

section \<open>The invariant\<close>

definition live :: "refresh_row \<Rightarrow> bool" where
  "live r \<longleftrightarrow> rt_revoked_at r = None"

definition rows_ok :: "nat \<Rightarrow> refresh_row list \<Rightarrow> bool" where
  "rows_ok n rows \<longleftrightarrow> distinct (map rt_id rows) \<and> distinct (map rt_token_hash rows) \<and>
     (\<forall>r \<in> set rows. rt_id r < n \<and> rt_family_id r < n) \<and>
     (\<forall>r \<in> set rows. \<forall>q \<in> set rows. rt_family_id r = rt_family_id q \<longrightarrow> rt_user_id r = rt_user_id q) \<and>
     (\<forall>r \<in> set rows. \<forall>q \<in> set rows. rt_family_id r = rt_family_id q \<longrightarrow> live r \<longrightarrow> live q \<longrightarrow> r = q)"

definition auth_ok :: "auth_db \<Rightarrow> bool" where
  "auth_ok s \<longleftrightarrow> rows_ok (au_next s) (refresh_tokens s) \<and>
     distinct (map ac_id (accounts s)) \<and> (\<forall>u \<in> set (accounts s). ac_id u < au_next s) \<and>
     distinct (map ph_id (phone_codes s)) \<and> (\<forall>c \<in> set (phone_codes s). ph_id c < au_next s) \<and>
     distinct (map wn_nonce_hash (wallet_nonces s))"

section \<open>The order\<close>

definition closed_family :: "auth_db \<Rightarrow> nat \<Rightarrow> bool" where
  "closed_family s f \<longleftrightarrow> (\<forall>r \<in> set (refresh_tokens s). rt_family_id r = f \<longrightarrow> \<not> live r)"

definition at_least :: "nat \<Rightarrow> int \<Rightarrow> auth_db \<Rightarrow> bool" where
  "at_least uid v s \<longleftrightarrow> (\<forall>u \<in> set (accounts s). ac_id u = uid \<longrightarrow> v \<le> ac_token_version u)"

definition row_of :: "refresh_row \<Rightarrow> refresh_row \<Rightarrow> bool" where
  "row_of r r' \<longleftrightarrow> rt_id r' = rt_id r \<and> rt_family_id r' = rt_family_id r \<and> rt_user_id r' = rt_user_id r \<and>
     rt_token_hash r' = rt_token_hash r \<and> rt_expires_at r' = rt_expires_at r \<and> (live r' \<longrightarrow> live r)"

definition code_left :: "phone_code \<Rightarrow> phone_code \<Rightarrow> bool" where
  "code_left c c' \<longleftrightarrow> ph_id c' = ph_id c \<and> ph_phone_number c' = ph_phone_number c \<and> ph_purpose c' = ph_purpose c \<and>
     ph_otp_hash c' = ph_otp_hash c \<and> ph_consumed_at c = None \<and> ph_attempts c \<le> ph_attempts c'"

definition spent_nonce :: "wallet_nonce \<Rightarrow> bool" where
  "spent_nonce n \<longleftrightarrow> wn_user_id n = None \<and> wn_used_at n \<noteq> None"

definition auth_le :: "auth_db \<Rightarrow> auth_db \<Rightarrow> bool" where
  "auth_le s s' \<longleftrightarrow> au_next s \<le> au_next s' \<and>
     (\<forall>r' \<in> set (refresh_tokens s'). rt_id r' < au_next s \<longrightarrow> (\<exists>r \<in> set (refresh_tokens s). row_of r r')) \<and>
     (\<forall>f < au_next s. closed_family s f \<longrightarrow> closed_family s' f) \<and>
     (\<forall>uid < au_next s. \<forall>v. at_least uid v s \<longrightarrow> at_least uid v s') \<and>
     (\<forall>c' \<in> set (phone_codes s'). ph_id c' < au_next s \<longrightarrow> ph_consumed_at c' = None \<longrightarrow>
        (\<exists>c \<in> set (phone_codes s). code_left c c')) \<and>
     (\<forall>n \<in> set (wallet_nonces s). spent_nonce n \<longrightarrow> n \<in> set (wallet_nonces s'))"

lemma auth_le_refl [simp]: "auth_le s s"
  by (auto simp: auth_le_def row_of_def code_left_def)

lemma row_of_trans: "row_of p q \<Longrightarrow> row_of q r \<Longrightarrow> row_of p r"
  by (auto simp: row_of_def)

lemma code_left_trans: "code_left p q \<Longrightarrow> code_left q r \<Longrightarrow> code_left p r"
  by (auto simp: code_left_def)

lemma auth_leD:
  assumes "auth_le s s'"
  shows "au_next s \<le> au_next s'"
    and "r' \<in> set (refresh_tokens s') \<Longrightarrow> rt_id r' < au_next s \<Longrightarrow> \<exists>r \<in> set (refresh_tokens s). row_of r r'"
    and "f < au_next s \<Longrightarrow> closed_family s f \<Longrightarrow> closed_family s' f"
    and "uid < au_next s \<Longrightarrow> at_least uid v s \<Longrightarrow> at_least uid v s'"
    and "c' \<in> set (phone_codes s') \<Longrightarrow> ph_id c' < au_next s \<Longrightarrow> ph_consumed_at c' = None \<Longrightarrow>
      \<exists>c \<in> set (phone_codes s). code_left c c'"
    and "n \<in> set (wallet_nonces s) \<Longrightarrow> spent_nonce n \<Longrightarrow> n \<in> set (wallet_nonces s')"
  using assms by (auto simp: auth_le_def)

lemma auth_le_trans:
  assumes "auth_le s t" "auth_le t u"
  shows "auth_le s u"
  unfolding auth_le_def
proof (intro conjI ballI allI impI)
  show "au_next s \<le> au_next u" using auth_leD(1) [OF assms(1)] auth_leD(1) [OF assms(2)] by simp
next
  fix r assume r: "r \<in> set (refresh_tokens u)" "rt_id r < au_next s"
  then obtain q where q: "q \<in> set (refresh_tokens t)" "row_of q r"
    using auth_leD(2) [OF assms(2)] auth_leD(1) [OF assms(1)] by fastforce
  then have "rt_id q < au_next s" using r(2) by (simp add: row_of_def)
  then obtain p where "p \<in> set (refresh_tokens s)" "row_of p q" using auth_leD(2) [OF assms(1)] q(1) by blast
  then show "\<exists>p \<in> set (refresh_tokens s). row_of p r" using q(2) row_of_trans by blast
next
  fix c assume c: "c \<in> set (phone_codes u)" "ph_id c < au_next s" "ph_consumed_at c = None"
  then obtain b where b: "b \<in> set (phone_codes t)" "code_left b c"
    using auth_leD(5) [OF assms(2)] auth_leD(1) [OF assms(1)] by fastforce
  then have "ph_id b < au_next s" "ph_consumed_at b = None" using c(2) by (simp_all add: code_left_def)
  then obtain a where "a \<in> set (phone_codes s)" "code_left a b" using auth_leD(5) [OF assms(1)] b(1) by blast
  then show "\<exists>a \<in> set (phone_codes s). code_left a c" using b(2) code_left_trans by blast
next
  fix f assume "f < au_next s" "closed_family s f"
  then show "closed_family u f"
    using auth_leD(3) [OF assms(1)] auth_leD(3) [OF assms(2)] auth_leD(1) [OF assms(1)] by fastforce
next
  fix uid v assume "uid < au_next s" "at_least uid v s"
  then show "at_least uid v u"
    using auth_leD(4) [OF assms(1)] auth_leD(4) [OF assms(2)] auth_leD(1) [OF assms(1)] by fastforce
next
  fix n assume "n \<in> set (wallet_nonces s)" "spent_nonce n"
  then show "n \<in> set (wallet_nonces u)" using auth_leD(6) [OF assms(1)] auth_leD(6) [OF assms(2)] by blast
qed

section \<open>Triples\<close>

definition good :: "auth_db \<Rightarrow> auth_db \<Rightarrow> bool" where
  "good s0 s \<longleftrightarrow> auth_ok s \<and> auth_le s0 s"

definition auth_safe ::
    "(auth_db \<Rightarrow> bool) \<Rightarrow> (auth_db, 'a) handler \<Rightarrow> ('a \<Rightarrow> auth_db \<Rightarrow> bool) \<Rightarrow> bool" where
  "auth_safe P m Q \<longleftrightarrow> (\<forall>s0. triple (\<lambda>s. good s0 s \<and> P s) m (\<lambda>x s. good s0 s \<and> Q x s) (good s0))"

definition session_safe ::
    "(auth_db \<Rightarrow> bool) \<Rightarrow> (auth_db \<times> auth_db, 'a) handler \<Rightarrow> ('a \<Rightarrow> auth_db \<Rightarrow> bool) \<Rightarrow> bool" where
  "session_safe P m Q \<longleftrightarrow> (\<forall>s0. triple (\<lambda>(d, c). good s0 d \<and> good s0 c \<and> P c) m
     (\<lambda>x (d, c). good s0 d \<and> good s0 c \<and> Q x c) (\<lambda>(d, c). good s0 d))"

lemma auth_safeI:
  assumes "\<And>s r s'. auth_ok s \<Longrightarrow> P s \<Longrightarrow> m s = (r, s') \<Longrightarrow>
    auth_ok s' \<and> auth_le s s' \<and> (case r of Inl _ \<Rightarrow> True | Inr x \<Rightarrow> Q x s')"
  shows "auth_safe P m Q"
  unfolding auth_safe_def
proof (intro allI tripleI)
  fix s0 s e s' assume "good s0 s \<and> P s" "m s = (Inl e, s')"
  then show "good s0 s'" using assms [of s "Inl e" s'] by (auto simp: good_def intro: auth_le_trans)
next
  fix s0 s x s' assume "good s0 s \<and> P s" "m s = (Inr x, s')"
  then show "good s0 s' \<and> Q x s'" using assms [of s "Inr x" s'] by (auto simp: good_def intro: auth_le_trans)
qed

lemma auth_safeD:
  assumes "auth_safe P m Q" "auth_ok s" "P s" "m s = (r, s')"
  shows "auth_ok s' \<and> auth_le s s' \<and> (case r of Inl _ \<Rightarrow> True | Inr x \<Rightarrow> Q x s')"
proof (cases r)
  case (Inl e)
  show ?thesis
    using tripleD_err [OF assms(1) [unfolded auth_safe_def, rule_format, of s], of s e s'] assms Inl by (simp add: good_def)
next
  case (Inr x)
  show ?thesis
    using tripleD [OF assms(1) [unfolded auth_safe_def, rule_format, of s], of s x s'] assms Inr by (simp add: good_def)
qed

lemma auth_safe_bind:
  "auth_safe P m R \<Longrightarrow> (\<And>x. auth_safe (R x) (f x) Q) \<Longrightarrow> auth_safe P (bind m f) Q"
  unfolding auth_safe_def by (blast intro: triple_bind)

lemma auth_safe_then: "auth_safe P m (\<lambda>_. R) \<Longrightarrow> auth_safe R k Q \<Longrightarrow> auth_safe P (then_do m k) Q"
  unfolding then_do_def by (rule auth_safe_bind)

lemma auth_safe_conseq:
  "auth_safe P' m Q' \<Longrightarrow> (\<And>s. P s \<Longrightarrow> P' s) \<Longrightarrow> (\<And>x s. Q' x s \<Longrightarrow> Q x s) \<Longrightarrow> auth_safe P m Q"
  unfolding auth_safe_def by (fast elim: triple_conseq)

lemma auth_safe_ret: "(\<And>s. P s \<Longrightarrow> Q x s) \<Longrightarrow> auth_safe P (ret x) Q"
  by (auto intro!: auth_safeI)

lemma auth_safe_raise: "auth_safe P (raise e) Q"
  by (auto intro!: auth_safeI)

lemma auth_safe_gets: "(\<And>s. auth_ok s \<Longrightarrow> P s \<Longrightarrow> Q (f s) s) \<Longrightarrow> auth_safe P (gets f) Q"
  by (auto intro!: auth_safeI)

lemma auth_safe_guard: "(\<And>s. P s \<Longrightarrow> b \<Longrightarrow> Q () s) \<Longrightarrow> auth_safe P (guard_or b e) Q"
  by (auto intro!: auth_safeI split: if_splits)

lemma auth_safe_result: "(\<And>s x. P s \<Longrightarrow> r = Inr x \<Longrightarrow> Q x s) \<Longrightarrow> auth_safe P (of_result r) Q"
  by (auto intro!: auth_safeI simp: of_result_def split: sum.splits)

lemma auth_safe_select:
  "(\<And>s x. auth_ok s \<Longrightarrow> P s \<Longrightarrow> scalar_one_or_none (sel s) = Inr x \<Longrightarrow> Q x s) \<Longrightarrow>
    auth_safe P (select_one_or_none sel) Q"
  by (auto intro!: auth_safeI simp: select_one_or_none_def split: sum.splits)

lemmas auth_safe_pure =
  auth_safe_ret auth_safe_raise auth_safe_gets auth_safe_guard auth_safe_result auth_safe_select

lemma auth_safe_modify:
  "(\<And>s. auth_ok s \<Longrightarrow> P s \<Longrightarrow> auth_ok (f s) \<and> auth_le s (f s) \<and> Q () (f s)) \<Longrightarrow> auth_safe P (modify f) Q"
  by (rule auth_safeI) auto

lemma auth_safe_on_error:
  assumes "auth_safe P m R" and "\<And>e. auth_safe (\<lambda>_. True) (h e) Q" and "\<And>x. auth_safe (R x) (k x) Q"
  shows "auth_safe P (on_error m h k) Q"
proof (rule auth_safeI)
  fix s r s' assume s: "auth_ok s" "P s" and r: "on_error m h k s = (r, s')"
  obtain q t where m: "m s = (q, t)" by force
  note first = auth_safeD [OF assms(1) s m]
  show "auth_ok s' \<and> auth_le s s' \<and> (case r of Inl _ \<Rightarrow> True | Inr x \<Rightarrow> Q x s')"
  proof (cases q)
    case (Inl e)
    then have "h e t = (r, s')" using r m by (simp add: on_error_def)
    then show ?thesis using auth_safeD [OF assms(2), of t e r s'] first auth_le_trans by auto
  next
    case (Inr x)
    then have "k x t = (r, s')" using r m by (simp add: on_error_def)
    then show ?thesis using auth_safeD [OF assms(3), of t x r s'] first Inr auth_le_trans by auto
  qed
qed

lemma auth_safe_if:
  "(b \<Longrightarrow> auth_safe P m Q) \<Longrightarrow> (\<not> b \<Longrightarrow> auth_safe P k Q) \<Longrightarrow> auth_safe P (if b then m else k) Q"
  by simp

lemma auth_safe_option:
  "(v = None \<Longrightarrow> auth_safe P m Q) \<Longrightarrow> (\<And>x. v = Some x \<Longrightarrow> auth_safe P (k x) Q) \<Longrightarrow>
     auth_safe P (case v of None \<Rightarrow> m | Some x \<Rightarrow> k x) Q"
  by (cases v) simp_all

lemma auth_safe_committed: "auth_safe P m Q \<Longrightarrow> auth_safe P (committed m) Q"
  by (rule auth_safeI) (auto simp: committed_def split: prod.splits sum.splits dest: auth_safeD)

section \<open>Sessions that commit on their way\<close>

lemma session_safe_bind:
  "session_safe P m R \<Longrightarrow> (\<And>x. session_safe (R x) (f x) Q) \<Longrightarrow> session_safe P (bind m f) Q"
  unfolding session_safe_def
  by (intro allI, rule triple_bind, erule spec) (auto intro: triple_conseq)

lemma session_safe_then: "session_safe P m (\<lambda>_. R) \<Longrightarrow> session_safe R k Q \<Longrightarrow> session_safe P (then_do m k) Q"
  unfolding then_do_def by (rule session_safe_bind)

lemma session_safe_within:
  assumes "auth_safe P m Q"
  shows "session_safe P (within m) Q"
  unfolding session_safe_def
proof (intro allI tripleI)
  fix s0 and s :: "auth_db \<times> auth_db" and e s'
  assume "case s of (d, c) \<Rightarrow> good s0 d \<and> good s0 c \<and> P c" "within m s = (Inl e, s')"
  then show "case s' of (d, c) \<Rightarrow> good s0 d" by (auto simp: within_def split: prod.splits)
next
  fix s0 and s :: "auth_db \<times> auth_db" and x s'
  assume s: "case s of (d, c) \<Rightarrow> good s0 d \<and> good s0 c \<and> P c" and r: "within m s = (Inr x, s')"
  obtain d c where dc: "s = (d, c)" by force
  obtain c' where c': "m c = (Inr x, c')" "s' = (d, c')" using r dc by (auto simp: within_def split: prod.splits)
  show "case s' of (d, c) \<Rightarrow> good s0 d \<and> good s0 c \<and> Q x c"
    using s dc c' auth_safeD [OF assms, of c "Inr x" c'] by (auto simp: good_def intro: auth_le_trans)
qed

lemma session_safe_ret: "(\<And>s. P s \<Longrightarrow> Q x s) \<Longrightarrow> session_safe P (ret x) Q"
  by (auto simp: session_safe_def triple_def)

lemma session_safe_raise: "session_safe P (raise e) Q"
  by (auto simp: session_safe_def triple_def)

lemma session_safe_result: "(\<And>s x. P s \<Longrightarrow> r = Inr x \<Longrightarrow> Q x s) \<Longrightarrow> session_safe P (of_result r) Q"
  by (auto simp: session_safe_def triple_def of_result_def split: sum.splits)

lemma session_safe_guard: "(\<And>s. P s \<Longrightarrow> b \<Longrightarrow> Q () s) \<Longrightarrow> session_safe P (guard_or b e) Q"
  by (auto simp: session_safe_def triple_def split: if_splits)

lemma session_safe_commit: "session_safe P commit (\<lambda>_. P)"
  by (auto simp: session_safe_def triple_def commit_def)

lemmas session_safe_pure =
  session_safe_ret session_safe_raise session_safe_result session_safe_guard session_safe_commit

lemma session_safe_option:
  "(v = None \<Longrightarrow> session_safe P m Q) \<Longrightarrow> (\<And>x. v = Some x \<Longrightarrow> session_safe P (k x) Q) \<Longrightarrow>
     session_safe P (case v of None \<Rightarrow> m | Some x \<Rightarrow> k x) Q"
  by (cases v) simp_all

lemma session_safe_if:
  "(b \<Longrightarrow> session_safe P m Q) \<Longrightarrow> (\<not> b \<Longrightarrow> session_safe P k Q) \<Longrightarrow> session_safe P (if b then m else k) Q"
  by simp

lemma session_safe_conseq:
  assumes "session_safe P' m Q'" "\<And>s. P s \<Longrightarrow> P' s" "\<And>x s. Q' x s \<Longrightarrow> Q x s"
  shows "session_safe P m Q"
  unfolding session_safe_def
  by (intro allI, rule triple_conseq [OF assms(1) [unfolded session_safe_def, rule_format]])
    (auto intro: assms(2,3) split: prod.splits)

lemma auth_safe_session:
  assumes "session_safe P m Q"
  shows "auth_safe P (run_session m) Q"
proof (rule auth_safeI)
  fix s r s' assume s: "auth_ok s" "P s" and r: "run_session m s = (r, s')"
  note t = assms [unfolded session_safe_def, rule_format, of s]
  have pre: "case (s, s) of (d, c) \<Rightarrow> good s d \<and> good s c \<and> P c" using s by (simp add: good_def)
  obtain q d c where m: "m (s, s) = (q, d, c)" by (metis prod_cases3)
  show "auth_ok s' \<and> auth_le s s' \<and> (case r of Inl _ \<Rightarrow> True | Inr x \<Rightarrow> Q x s')"
  proof (cases q)
    case (Inl e)
    then show ?thesis using tripleD_err [OF t pre, of e "(d, c)"] m r by (auto simp: run_session_def good_def)
  next
    case (Inr x)
    then show ?thesis using tripleD [OF t pre, of x "(d, c)"] m r by (auto simp: run_session_def good_def)
  qed
qed

end
