(* ===== verification/AuthSteps.thy ===== *)
theory AuthSteps
  imports AuthState
begin

text \<open>
  Every operation on accounts and sessions keeps the invariant and moves the state along its order:
  first the elementary updates, then the operations, then the routes.
\<close>

section \<open>Elementary updates\<close>

abbreviation moves :: "auth_db \<Rightarrow> auth_db \<Rightarrow> bool" where
  "moves s s' \<equiv> auth_ok s' \<and> auth_le s s'"

lemma other_tables_move [simp]:
  "auth_ok s \<Longrightarrow> moves s (s\<lparr>memory_revoked_jtis := m\<rparr>)"
  "auth_ok s \<Longrightarrow> moves s (s\<lparr>revoked_jtis := l\<rparr>)"
  "auth_ok s \<Longrightarrow> moves s (verification_tokens_update f s)"
  "auth_ok s \<Longrightarrow> moves s (reset_tokens_update f s)"
  "auth_ok s \<Longrightarrow> moves s (evm_wallets_update g s)"
  "auth_ok s \<Longrightarrow> moves s (oauth_accounts_update h s)"
  by (auto simp: auth_ok_def auth_le_def row_of_def code_left_def closed_family_def at_least_def)

definition current :: "account \<Rightarrow> auth_db \<Rightarrow> bool" where
  "current u s \<longleftrightarrow> (\<forall>v \<in> set (accounts s). ac_id v = ac_id u \<longrightarrow> ac_token_version v \<le> ac_token_version u)"

lemma member_current: "auth_ok s \<Longrightarrow> u \<in> set (accounts s) \<Longrightarrow> current u s"
  by (auto simp: current_def auth_ok_def dest: same_key_same_row)

lemma find_account_member: "find_account_by_id i s = Some u \<Longrightarrow> u \<in> set (accounts s) \<and> ac_id u = i"
  by (auto simp: find_account_by_id_def dest: find_SomeD)

lemma accounts_move:
  assumes "auth_ok s" "map ac_id us = map ac_id (accounts s)"
    "\<And>u. u \<in> set us \<Longrightarrow> \<exists>v \<in> set (accounts s). ac_id v = ac_id u \<and> ac_token_version v \<le> ac_token_version u"
  shows "moves s (s\<lparr>accounts := us\<rparr>)"
proof -
  have "ac_id ` set us = ac_id ` set (accounts s)" using arg_cong [OF assms(2), of set] by simp
  then have "\<forall>u \<in> set us. ac_id u < au_next s" using assms(1) by (auto simp: auth_ok_def) (metis image_iff)
  moreover have "at_least uid v s \<Longrightarrow> at_least uid v (s\<lparr>accounts := us\<rparr>)" for uid v
    using assms(3) by (fastforce simp: at_least_def)
  ultimately show ?thesis
    using assms(1,2) by (auto simp: auth_ok_def auth_le_def row_of_def code_left_def closed_family_def)
qed

lemma put_account_moves:
  assumes "auth_ok s" "current u s"
  shows "moves s (put_account u s)"
proof -
  have "moves s (s\<lparr>accounts := replace_by ac_id u (accounts s)\<rparr>)"
    by (rule accounts_move [OF assms(1)])
      (use assms(2) in \<open>auto simp: replace_by_def current_def split: if_splits\<close>)
  moreover have "put_account u s = s\<lparr>accounts := replace_by ac_id u (accounts s)\<rparr>" by (cases s) (simp add: put_account_def)
  ultimately show ?thesis by simp
qed

lemma put_current: "current u (put_account u s)"
  by (auto simp: current_def put_account_def replace_by_def)

lemma current_cong:
  "ac_id u = ac_id v \<Longrightarrow> ac_token_version v \<le> ac_token_version u \<Longrightarrow> current v s \<Longrightarrow> current u s"
  by (fastforce simp: current_def)

lemma put_account_tables [simp]:
  "refresh_tokens (put_account u s) = refresh_tokens s" "au_next (put_account u s) = au_next s"
  "phone_codes (put_account u s) = phone_codes s" "wallet_nonces (put_account u s) = wallet_nonces s"
  "revoked_jtis (put_account u s) = revoked_jtis s" "evm_wallets (put_account u s) = evm_wallets s"
  "oauth_accounts (put_account u s) = oauth_accounts s"
  by (simp_all add: put_account_def)

lemma revoke_where_tables [simp]:
  "accounts (revoke_where now which s) = accounts s" "au_next (revoke_where now which s) = au_next s"
  "phone_codes (revoke_where now which s) = phone_codes s" "wallet_nonces (revoke_where now which s) = wallet_nonces s"
  "revoked_jtis (revoke_where now which s) = revoked_jtis s" "evm_wallets (revoke_where now which s) = evm_wallets s"
  "oauth_accounts (revoke_where now which s) = oauth_accounts s"
  by (simp_all add: revoke_where_def)

definition revoked_row :: "time \<Rightarrow> (refresh_row \<Rightarrow> bool) \<Rightarrow> refresh_row \<Rightarrow> refresh_row" where
  "revoked_row now which r = (if which r \<and> rt_revoked_at r = None then r\<lparr>rt_revoked_at := Some now\<rparr> else r)"

lemma revoke_where_rows: "refresh_tokens (revoke_where now which s) = map (revoked_row now which) (refresh_tokens s)"
  by (auto simp: revoke_where_def revoked_row_def)

lemma row_of_revoked: "row_of r (revoked_row now which r)"
  by (auto simp: row_of_def revoked_row_def live_def)

lemma live_revoked: "live (revoked_row now which r) \<longleftrightarrow> live r \<and> \<not> which r"
  by (auto simp: revoked_row_def live_def)

lemma revoked_keys [simp]:
  "rt_id (revoked_row now which r) = rt_id r" "rt_family_id (revoked_row now which r) = rt_family_id r"
  "rt_user_id (revoked_row now which r) = rt_user_id r" "rt_token_hash (revoked_row now which r) = rt_token_hash r"
  by (simp_all add: revoked_row_def)

lemma rows_okD:
  assumes "rows_ok n rows"
  shows "r \<in> set rows \<Longrightarrow> rt_id r < n" "r \<in> set rows \<Longrightarrow> rt_family_id r < n"
    and "r \<in> set rows \<Longrightarrow> q \<in> set rows \<Longrightarrow> rt_family_id r = rt_family_id q \<Longrightarrow> rt_user_id r = rt_user_id q"
    and "r \<in> set rows \<Longrightarrow> q \<in> set rows \<Longrightarrow> rt_family_id r = rt_family_id q \<Longrightarrow> live r \<Longrightarrow> live q \<Longrightarrow> r = q"
    and "distinct (map rt_id rows)" "distinct (map rt_token_hash rows)"
  using assms unfolding rows_ok_def by blast+

lemma rows_ok_mono: "rows_ok n rows \<Longrightarrow> n \<le> m \<Longrightarrow> rows_ok m rows"
  unfolding rows_ok_def by (meson less_le_trans)

lemma rows_change:
  assumes "auth_ok s" "rows_ok n rows" "au_next s \<le> n"
    "\<And>r'. r' \<in> set rows \<Longrightarrow> rt_id r' < au_next s \<Longrightarrow> \<exists>r \<in> set (refresh_tokens s). row_of r r'"
    "\<And>f r. f < au_next s \<Longrightarrow> closed_family s f \<Longrightarrow> r \<in> set rows \<Longrightarrow> rt_family_id r = f \<Longrightarrow> \<not> live r"
  shows "moves s (s\<lparr>refresh_tokens := rows, au_next := n\<rparr>)"
proof
  show "auth_ok (s\<lparr>refresh_tokens := rows, au_next := n\<rparr>)"
    using assms(1-3) by (auto simp: auth_ok_def intro: less_le_trans)
  have "closed_family (s\<lparr>refresh_tokens := rows, au_next := n\<rparr>) f" if "f < au_next s" "closed_family s f" for f
    using assms(5) [OF that] by (simp add: closed_family_def [of "s\<lparr>refresh_tokens := rows, au_next := n\<rparr>"])
  then show "auth_le s (s\<lparr>refresh_tokens := rows, au_next := n\<rparr>)"
    using assms(3,4) by (auto simp: auth_le_def code_left_def at_least_def)
qed

text \<open>Rows that are the same but for what was revoked or replaced.\<close>

lemma rows_ok_map:
  assumes ok: "rows_ok n rows" and f: "\<And>r. row_of r (f r)"
  shows "rows_ok n (map f rows)"
proof -
  have keys [simp]: "rt_id (f r) = rt_id r" "rt_family_id (f r) = rt_family_id r" "rt_user_id (f r) = rt_user_id r"
    "rt_token_hash (f r) = rt_token_hash r" for r
    using f [of r] by (simp_all add: row_of_def)
  have l: "live (f r) \<Longrightarrow> live r" for r using f [of r] by (simp add: row_of_def)
  show ?thesis
    unfolding rows_ok_def
  proof (intro conjI ballI impI)
    show "distinct (map rt_id (map f rows))" "distinct (map rt_token_hash (map f rows))"
      using ok by (simp_all add: rows_ok_def comp_def)
  next
    fix r assume "r \<in> set (map f rows)"
    then show "rt_id r < n" "rt_family_id r < n" using rows_okD(1,2) [OF ok] by auto
  next
    fix r q assume "r \<in> set (map f rows)" "q \<in> set (map f rows)" and e: "rt_family_id r = rt_family_id q"
    then obtain a b where ab: "a \<in> set rows" "b \<in> set rows" "r = f a" "q = f b" by auto
    have g: "rt_family_id a = rt_family_id b" using e ab by simp
    show "rt_user_id r = rt_user_id q" using rows_okD(3) [OF ok ab(1,2) g] ab by simp
    show "r = q" if "live r" "live q"
      using rows_okD(4) [OF ok ab(1,2) g] that ab l by simp
  qed
qed

lemma rows_move:
  assumes "auth_ok s" "\<And>r. row_of r (f r)"
  shows "moves s (s\<lparr>refresh_tokens := map f (refresh_tokens s)\<rparr>)"
proof -
  have l: "live (f r) \<Longrightarrow> live r" and fam: "rt_family_id (f r) = rt_family_id r" for r
    using assms(2) [of r] by (simp_all add: row_of_def)
  have "rows_ok (au_next s) (map f (refresh_tokens s))"
    by (rule rows_ok_map [OF _ assms(2)]) (use assms(1) in \<open>simp add: auth_ok_def\<close>)
  then have "moves s (s\<lparr>refresh_tokens := map f (refresh_tokens s), au_next := au_next s\<rparr>)"
  proof (rule rows_change [OF assms(1)])
    show "\<exists>r \<in> set (refresh_tokens s). row_of r r'" if "r' \<in> set (map f (refresh_tokens s))" for r'
      using that assms(2) by auto
    show "\<not> live r" if "closed_family s g" "r \<in> set (map f (refresh_tokens s))" "rt_family_id r = g" for g r
      using that l fam by (auto simp: closed_family_def)
  qed simp
  then show ?thesis by (cases s) simp
qed

lemma revoke_where_moves: "auth_ok s \<Longrightarrow> moves s (revoke_where now which s)"
proof -
  assume "auth_ok s"
  then have "moves s (s\<lparr>refresh_tokens := map (revoked_row now which) (refresh_tokens s)\<rparr>)"
    by (rule rows_move) (rule row_of_revoked)
  moreover have "revoke_where now which s = s\<lparr>refresh_tokens := map (revoked_row now which) (refresh_tokens s)\<rparr>"
    by (cases s) (simp add: revoke_where_def revoked_row_def [abs_def])
  ultimately show ?thesis by simp
qed

text \<open>A new row, in a family of its own or after the live row of its family was revoked.\<close>

lemma new_row_ok:
  assumes ok: "rows_ok n rows" and new: "rt_id row = n" "rt_family_id row \<le> Suc n"
    "rt_token_hash row \<notin> rt_token_hash ` set rows"
    and fam: "\<And>r. r \<in> set rows \<Longrightarrow> rt_family_id r = rt_family_id row \<Longrightarrow> rt_user_id r = rt_user_id row \<and> \<not> live r"
  shows "rows_ok (n + 2) (rows @ [row])"
  unfolding rows_ok_def
proof (intro conjI ballI impI)
  have "n \<notin> rt_id ` set rows" using rows_okD(1) [OF ok] by auto
  then show "distinct (map rt_id (rows @ [row]))" using rows_okD(5) [OF ok] new by simp
  show "distinct (map rt_token_hash (rows @ [row]))" using rows_okD(6) [OF ok] new by simp
next
  fix r assume "r \<in> set (rows @ [row])"
  then show "rt_id r < n + 2" "rt_family_id r < n + 2"
    using rows_okD(1,2) [OF ok, of r] new by auto
next
  fix r q assume m: "r \<in> set (rows @ [row])" "q \<in> set (rows @ [row])" and e: "rt_family_id r = rt_family_id q"
  consider "r = row" "q = row" | "r = row" "q \<in> set rows" | "r \<in> set rows" "q = row" | "r \<in> set rows" "q \<in> set rows"
    using m by auto
  then show "rt_user_id r = rt_user_id q" by cases (use fam rows_okD(3) [OF ok] e in \<open>metis\<close>)+
  show "r = q" if l: "live r" "live q"
  proof (cases "r \<in> set rows"; cases "q \<in> set rows")
    assume "r \<in> set rows" "q \<in> set rows"
    then show ?thesis using rows_okD(4) [OF ok] e l by blast
  next
    assume "r \<in> set rows" "q \<notin> set rows"
    then show ?thesis using fam [of r] e l m by auto
  next
    assume "r \<notin> set rows" "q \<in> set rows"
    then show ?thesis using fam [of q] e l m by auto
  next
    assume "r \<notin> set rows" "q \<notin> set rows"
    then show ?thesis using m by simp
  qed
qed

lemma new_family_moves:
  assumes "auth_ok s" "rt_id row = au_next s" "rt_family_id row = Suc (au_next s)"
    "rt_token_hash row \<notin> rt_token_hash ` set (refresh_tokens s)"
  shows "moves s (s\<lparr>refresh_tokens := refresh_tokens s @ [row], au_next := au_next s + 2\<rparr>)"
proof (rule rows_change [OF assms(1)])
  have ok: "rows_ok (au_next s) (refresh_tokens s)" using assms(1) by (simp add: auth_ok_def)
  show "rows_ok (au_next s + 2) (refresh_tokens s @ [row])"
  proof (rule new_row_ok [OF ok assms(2)])
    show "rt_family_id row \<le> Suc (au_next s)" using assms(3) by simp
    fix r assume "r \<in> set (refresh_tokens s)" "rt_family_id r = rt_family_id row"
    then show "rt_user_id r = rt_user_id row \<and> \<not> live r" using rows_okD(2) [OF ok, of r] assms(3) by simp
  qed (rule assms(4))
  show "\<exists>r \<in> set (refresh_tokens s). row_of r r'"
    if "r' \<in> set (refresh_tokens s @ [row])" "rt_id r' < au_next s" for r'
  proof -
    have "r' \<in> set (refresh_tokens s)" using that assms(2) by auto
    then show ?thesis by (auto simp: row_of_def)
  qed
  show "\<not> live r" if "f < au_next s" "closed_family s f" "r \<in> set (refresh_tokens s @ [row])" "rt_family_id r = f" for f r
  proof (cases "r = row")
    case True
    then show ?thesis using that(1,4) assms(3) by simp
  next
    case False
    then have "r \<in> set (refresh_tokens s)" using that(3) by simp
    then show ?thesis using that(2,4) unfolding closed_family_def by blast
  qed
qed simp

lemma codes_move:
  assumes "auth_ok s" "distinct (map ph_id codes)" "au_next s \<le> n" "\<forall>c \<in> set codes. ph_id c < n"
    "\<And>c'. c' \<in> set codes \<Longrightarrow> ph_id c' < au_next s \<Longrightarrow> ph_consumed_at c' = None \<Longrightarrow>
       \<exists>c \<in> set (phone_codes s). code_left c c'"
  shows "moves s (s\<lparr>phone_codes := codes, au_next := n\<rparr>)"
proof
  have "rows_ok (au_next s) (refresh_tokens s)" using assms(1) by (simp add: auth_ok_def)
  then have "rows_ok n (refresh_tokens s)" using assms(3) by (rule rows_ok_mono)
  then show "auth_ok (s\<lparr>phone_codes := codes, au_next := n\<rparr>)"
    using assms(1-4) by (auto simp: auth_ok_def intro: less_le_trans)
  show "auth_le s (s\<lparr>phone_codes := codes, au_next := n\<rparr>)"
    using assms(3,5) by (auto simp: auth_le_def row_of_def closed_family_def at_least_def)
qed

lemma nonces_move:
  assumes "auth_ok s" "distinct (map wn_nonce_hash ns)" "\<And>n. n \<in> set (wallet_nonces s) \<Longrightarrow> spent_nonce n \<Longrightarrow> n \<in> set ns"
  shows "moves s (s\<lparr>wallet_nonces := ns\<rparr>)"
  using assms by (auto simp: auth_ok_def auth_le_def row_of_def code_left_def closed_family_def at_least_def)

lemma put_code_moves:
  assumes "auth_ok s" "c \<in> set (phone_codes s)" "ph_consumed_at c = None" "code_left c (c\<lparr>ph_attempts := a, ph_consumed_at := t\<rparr>)"
  shows "moves s (put_code (c\<lparr>ph_attempts := a, ph_consumed_at := t\<rparr>) s)"
proof -
  let ?c = "c\<lparr>ph_attempts := a, ph_consumed_at := t\<rparr>"
  have "moves s (s\<lparr>phone_codes := replace_by ph_id ?c (phone_codes s), au_next := au_next s\<rparr>)"
    by (rule codes_move [OF assms(1)])
      (use assms in \<open>auto simp: auth_ok_def set_replace_by code_left_def split: if_splits\<close>)
  moreover have "put_code ?c s = s\<lparr>phone_codes := replace_by ph_id ?c (phone_codes s), au_next := au_next s\<rparr>"
    by (cases s) (simp add: put_code_def)
  ultimately show ?thesis by simp
qed

lemma use_nonce_moves:
  assumes "auth_ok s" "n \<in> set (wallet_nonces s)" "wn_used_at n = None"
  shows "moves s (use_nonce env n s)"
proof -
  let ?n = "n\<lparr>wn_used_at := Some (av_now env)\<rparr>"
  have "moves s (s\<lparr>wallet_nonces := replace_by wn_nonce_hash ?n (wallet_nonces s)\<rparr>)"
  proof (rule nonces_move [OF assms(1)])
    show "distinct (map wn_nonce_hash (replace_by wn_nonce_hash ?n (wallet_nonces s)))"
      using assms(1) by (simp add: auth_ok_def)
    fix m assume m: "m \<in> set (wallet_nonces s)" "spent_nonce m"
    then have "wn_nonce_hash m \<noteq> wn_nonce_hash n"
      using assms same_key_same_row [of wn_nonce_hash "wallet_nonces s" m n] by (auto simp: auth_ok_def spent_nonce_def)
    then show "m \<in> set (replace_by wn_nonce_hash ?n (wallet_nonces s))" using m by (auto simp: set_replace_by)
  qed
  moreover have "use_nonce env n s = s\<lparr>wallet_nonces := replace_by wn_nonce_hash ?n (wallet_nonces s)\<rparr>"
    by (cases s) (simp add: use_nonce_def)
  ultimately show ?thesis by simp
qed

lemma distinct_map_filter_key: "distinct (map key xs) \<Longrightarrow> distinct (map key (filter P xs))"
  by (simp add: distinct_map_filter)

lemma delete_account_moves:
  assumes "auth_ok s"
  shows "moves s (delete_account uid s)"
proof
  have "rows_ok n (filter P rows)" if "rows_ok n rows" for n P rows
  proof -
    have "set (filter P rows) \<subseteq> set rows" by auto
    then show ?thesis using that unfolding rows_ok_def by (blast intro: distinct_map_filter_key)
  qed
  then show "auth_ok (delete_account uid s)"
    using assms by (auto simp: auth_ok_def delete_account_def distinct_map_filter_key)
  show "auth_le s (delete_account uid s)"
    by (auto simp: auth_le_def delete_account_def row_of_def code_left_def closed_family_def at_least_def spent_nonce_def)
qed

lemma new_account_moves:
  assumes "auth_ok s" "ac_id u = au_next s"
  shows "moves s (s\<lparr>accounts := accounts s @ [u], au_next := Suc (au_next s)\<rparr>)"
proof
  have "rows_ok (au_next s) (refresh_tokens s)" using assms(1) by (simp add: auth_ok_def)
  then have "rows_ok (Suc (au_next s)) (refresh_tokens s)" by (rule rows_ok_mono) simp
  then show "auth_ok (s\<lparr>accounts := accounts s @ [u], au_next := Suc (au_next s)\<rparr>)"
    using assms by (auto simp: auth_ok_def less_SucI)
  show "auth_le s (s\<lparr>accounts := accounts s @ [u], au_next := Suc (au_next s)\<rparr>)"
    using assms by (auto simp: auth_le_def row_of_def code_left_def closed_family_def at_least_def)
qed

lemma rehash_moves:
  assumes "auth_ok s"
  shows "moves s (accounts_update (map (\<lambda>u. u\<lparr>ac_hashed_password := f u\<rparr>)) s)"
proof -
  have e: "accounts_update (map (\<lambda>u. u\<lparr>ac_hashed_password := f u\<rparr>)) s
      = s\<lparr>accounts := map (\<lambda>u. u\<lparr>ac_hashed_password := f u\<rparr>) (accounts s)\<rparr>" by (cases s) simp
  show ?thesis unfolding e by (rule accounts_move [OF assms]) (auto simp: comp_def)
qed


text \<open>The row that replaces a live one.\<close>

definition replaced_row :: "nat \<Rightarrow> nat \<Rightarrow> refresh_row \<Rightarrow> refresh_row" where
  "replaced_row i j r = (if rt_id r = i then r\<lparr>rt_replaced_by_id := Some j\<rparr> else r)"

definition swapped_rows :: "time \<Rightarrow> nat \<Rightarrow> refresh_row \<Rightarrow> refresh_row list \<Rightarrow> refresh_row list" where
  "swapped_rows now i new rows =
     map (replaced_row i (rt_id new)) (map (revoked_row now (\<lambda>r. rt_id r = i)) rows @ [new])"

lemma row_of_replaced: "row_of r (replaced_row i j r)"
  by (simp add: row_of_def replaced_row_def live_def)

lemma replaced_keys [simp]:
  "rt_id (replaced_row i j r) = rt_id r" "rt_family_id (replaced_row i j r) = rt_family_id r"
  "rt_token_hash (replaced_row i j r) = rt_token_hash r" "rt_user_id (replaced_row i j r) = rt_user_id r"
  "live (replaced_row i j r) = live r"
  by (simp_all add: replaced_row_def live_def)

lemma swap_moves:
  assumes s: "auth_ok s" and q: "q \<in> set (refresh_tokens s)" "live q"
    and new: "rt_id new = au_next s" "rt_family_id new = rt_family_id q" "rt_user_id new = rt_user_id q"
      "rt_token_hash new \<notin> rt_token_hash ` set (refresh_tokens s)"
  shows "moves s (s\<lparr>refresh_tokens := swapped_rows now (rt_id q) new (refresh_tokens s), au_next := au_next s + 2\<rparr>)"
proof (rule rows_change [OF s])
  let ?rev = "revoked_row now (\<lambda>r. rt_id r = rt_id q)" and ?rep = "replaced_row (rt_id q) (rt_id new)"
  have ok: "rows_ok (au_next s) (refresh_tokens s)" using s by (simp add: auth_ok_def)
  have "rows_ok (au_next s + 2) (map ?rev (refresh_tokens s) @ [new])"
  proof (rule new_row_ok [OF rows_ok_map [OF ok row_of_revoked] new(1)])
    show "rt_family_id new \<le> Suc (au_next s)" using rows_okD(2) [OF ok q(1)] new(2) by simp
    show "rt_token_hash new \<notin> rt_token_hash ` set (map ?rev (refresh_tokens s))"
      using new(4) by (auto simp: image_image)
    fix r assume r: "r \<in> set (map ?rev (refresh_tokens s))" "rt_family_id r = rt_family_id new"
    then obtain a where a: "a \<in> set (refresh_tokens s)" "r = ?rev a" by auto
    then have fam: "rt_family_id a = rt_family_id q" using r(2) new(2) by simp
    have "rt_user_id a = rt_user_id q" by (rule rows_okD(3) [OF ok a(1) q(1) fam])
    moreover have "\<not> live r" using rows_okD(4) [OF ok a(1) q(1) fam] q(2) a(2) by (auto simp: live_revoked)
    ultimately show "rt_user_id r = rt_user_id new \<and> \<not> live r" using a(2) new(3) by simp
  qed
  then show "rows_ok (au_next s + 2) (swapped_rows now (rt_id q) new (refresh_tokens s))"
    unfolding swapped_rows_def by (rule rows_ok_map) (rule row_of_replaced)
  have from_old: "\<exists>a \<in> set (refresh_tokens s). r' = ?rep (?rev a)"
    if "r' \<in> set (swapped_rows now (rt_id q) new (refresh_tokens s))" "r' \<noteq> ?rep new" for r'
    using that by (auto simp: swapped_rows_def)
  show "\<exists>r \<in> set (refresh_tokens s). row_of r r'"
    if r': "r' \<in> set (swapped_rows now (rt_id q) new (refresh_tokens s))" "rt_id r' < au_next s" for r'
  proof -
    have "r' \<noteq> ?rep new" using r'(2) new(1) by auto
    then show ?thesis using from_old [OF r'(1)] row_of_trans [OF row_of_revoked row_of_replaced] by blast
  qed
  show "\<not> live r" if c: "closed_family s f" and r: "r \<in> set (swapped_rows now (rt_id q) new (refresh_tokens s))"
    "rt_family_id r = f" for f r
  proof (cases "r = ?rep new")
    case True
    then have "f = rt_family_id q" using r(2) new(2) by simp
    then show ?thesis using c q by (auto simp: closed_family_def)
  next
    case False
    then obtain a where "a \<in> set (refresh_tokens s)" "r = ?rep (?rev a)" using from_old [OF r(1)] by blast
    then show ?thesis using c r(2) by (auto simp: closed_family_def live_revoked)
  qed
qed simp

end
