(* ===== verification/AuthOps.thy ===== *)
theory AuthOps
  imports AuthSteps
begin

text \<open>
  The triples of the operations on accounts and sessions, from the helpers up to the routes.
\<close>

abbreviation any :: "auth_db \<Rightarrow> bool" where "any \<equiv> \<lambda>_. True"
abbreviation anything :: "'a \<Rightarrow> auth_db \<Rightarrow> bool" where "anything \<equiv> \<lambda>_ _. True"
abbreviation is_account :: "account \<Rightarrow> auth_db \<Rightarrow> bool" where "is_account \<equiv> \<lambda>u s. u \<in> set (accounts s)"

lemma auth_safe_drop: "auth_safe any m Q \<Longrightarrow> auth_safe P m anything"
  by (erule auth_safe_conseq) simp_all

section \<open>Access tokens\<close>

lemma is_jti_revoked_safe: "auth_safe any (is_jti_revoked env jti) anything"
  by (rule auth_safeI) (auto simp: is_jti_revoked_def is_memory_revoked_def Let_def split: sum.splits)

lemma revoke_jti_safe: "auth_safe any (revoke_jti env jti e) anything"
proof -
  have "auth_safe any (modify (\<lambda>s. s\<lparr>revoked_jtis := f s\<rparr>)) anything"
    "auth_safe any (modify (\<lambda>s. s\<lparr>memory_revoked_jtis := g s\<rparr>)) anything" for f g
    by (rule auth_safe_modify, simp)+
  then show ?thesis by (simp add: revoke_jti_def Let_def auth_safe_raise)
qed

lemma revoke_access_token_safe: "auth_safe any (revoke_access_token env t) anything"
  unfolding revoke_access_token_def
  by (intro auth_safe_option auth_safe_if auth_safe_bind [where R = anything] auth_safe_then [where R = any]
      revoke_jti_safe auth_safe_ret auth_safe_result) simp_all

definition loaded :: "account option \<Rightarrow> auth_db \<Rightarrow> bool" where
  "loaded found s \<longleftrightarrow> (\<forall>u. found = Some u \<longrightarrow> u \<in> set (accounts s))"

lemma loaded_simps [simp]: "loaded None s" "loaded (Some u) s \<longleftrightarrow> u \<in> set (accounts s)"
  by (simp_all add: loaded_def)

lemma read_token_safe: "auth_safe any (read_token env t) loaded"
proof -
  have g: "auth_safe any (gets (\<lambda>s. Option.bind v (\<lambda>i. find_account_by_id i s))) loaded" for v
    by (rule auth_safe_gets) (auto simp: loaded_def bind_eq_Some_conv dest: find_account_member)
  have l: "auth_safe (loaded found) (case found of None \<Rightarrow> ret None
      | Some user \<Rightarrow> bind (of_result r) (\<lambda>v. ret (if v = Some (ac_token_version user) then Some user else None))) loaded"
    for found r
  proof (rule auth_safe_option)
    show "auth_safe (loaded found) (bind (of_result r) (\<lambda>v. ret (if v = Some (ac_token_version u) then Some u else None))) loaded"
      if "found = Some u" for u
      by (rule auth_safe_bind [where R = "\<lambda>_. loaded found"]; intro auth_safe_result auth_safe_ret) (auto simp: that)
  qed (intro auth_safe_ret, simp)
  show ?thesis unfolding read_token_def
    by (intro auth_safe_option auth_safe_if auth_safe_ret auth_safe_bind [where R = loaded] g l
        auth_safe_bind [OF is_jti_revoked_safe] auth_safe_conseq [OF g]) simp_all
qed

lemma active_user_safe:
  "auth_safe any (current_active_user env t) is_account"
  "auth_safe any (optional_active_user env t) loaded"
  unfolding current_active_user_def optional_active_user_def
  by (rule auth_safe_bind [OF read_token_safe]; auto intro!: auth_safe_option auth_safe_if auth_safe_ret auth_safe_raise
      split: option.splits)+

section \<open>Refresh tokens\<close>

lemma issue_safe: "auth_safe P (create_refresh_token env user None) anything"
proof (rule auth_safeI)
  fix s r s' assume s: "auth_ok s" and r: "create_refresh_token env user None s = (r, s')"
  show "auth_ok s' \<and> auth_le s s' \<and> (case r of Inl _ \<Rightarrow> True | Inr x \<Rightarrow> True)"
  proof (cases "av_hash env (av_draw env) \<in> rt_token_hash ` set (refresh_tokens s)")
    case True
    then show ?thesis using s r
      by (auto simp: create_refresh_token_def handler_defs split: if_splits)
  next
    case False
    then show ?thesis
      using new_family_moves [OF s] r by (auto simp: create_refresh_token_def handler_defs Let_def)
  qed
qed

lemma issue_token_pair_safe: "auth_safe P (issue_token_pair env user) anything"
  unfolding issue_token_pair_def
  by (rule auth_safe_bind [OF issue_safe]) (auto intro: auth_safe_ret split: prod.splits)

lemma revoke_where_safe: "auth_safe P (modify (revoke_where now which)) anything"
  by (rule auth_safe_modify) (simp add: revoke_where_moves)

lemma revoke_family_safe: "auth_safe P (revoke_refresh_token_family env f) anything"
  unfolding revoke_refresh_token_family_def by (rule revoke_where_safe)

lemma revoke_refresh_token_safe: "auth_safe P (revoke_refresh_token env t u) anything"
  unfolding revoke_refresh_token_def
  by (intro auth_safe_bind [where R = anything] auth_safe_select auth_safe_option auth_safe_if auth_safe_ret
      auth_safe_then [where R = any] revoke_where_safe) simp_all

text \<open>What a rotation still knows of the row it read, whatever ran in between.\<close>

definition knows :: "refresh_row \<times> account \<Rightarrow> auth_db \<Rightarrow> bool" where
  "knows seen s \<longleftrightarrow> (case seen of (row, user) \<Rightarrow> ac_id user = rt_user_id row \<and> rt_id row < au_next s \<and>
     (\<forall>r \<in> set (refresh_tokens s). rt_id r = rt_id row \<longrightarrow>
        rt_family_id r = rt_family_id row \<and> rt_user_id r = rt_user_id row))"

lemma rotation_check_safe: "auth_safe any (rotation_check env t) knows"
proof (rule auth_safeI)
  fix s r s' assume s: "auth_ok s" and r: "rotation_check env t s = (r, s')"
  show "auth_ok s' \<and> auth_le s s' \<and> (case r of Inl _ \<Rightarrow> True | Inr x \<Rightarrow> knows x s')"
  proof (cases r)
    case (Inl e)
    then show ?thesis using s r revoke_where_moves [OF s]
      by (auto simp: rotation_check_def handler_defs revoke_refresh_token_family_def Let_def
          split: option.splits if_splits sum.splits)
  next
    case (Inr x)
    obtain row user where x: "x = (row, user)" by force
    have f: "scalar_one_or_none (filter (\<lambda>q. rt_token_hash q = av_hash env t) (refresh_tokens s)) = Inr (Some row)"
      "find_account_by_id (rt_user_id row) s = Some user" "s' = s"
      using r Inr x by (auto simp: rotation_check_def handler_defs revoke_refresh_token_family_def Let_def split: option.splits if_splits sum.splits)
    have row: "row \<in> set (refresh_tokens s)" using scalar_filter_member [OF f(1)] by simp
    have d: "distinct (map rt_id (refresh_tokens s))" "rt_id row < au_next s"
      using s row by (auto simp: auth_ok_def rows_ok_def)
    have "knows x s"
      using same_key_same_row [OF d(1) _ row] d(2) find_account_member [OF f(2)] x by (auto simp: knows_def)
    then show ?thesis using s f(3) Inr by simp
  qed
qed

lemma knows_later:
  assumes "knows seen s" "auth_le s t"
  shows "knows seen t"
proof -
  obtain row user where seen: "seen = (row, user)" by force
  have "rt_family_id r' = rt_family_id row \<and> rt_user_id r' = rt_user_id row"
    if r': "r' \<in> set (refresh_tokens t)" "rt_id r' = rt_id row" for r'
  proof -
    have "rt_id r' < au_next s" using assms(1) r'(2) by (simp add: knows_def seen)
    then obtain r where "r \<in> set (refresh_tokens s)" "row_of r r'" using auth_leD(2) [OF assms(2) r'(1)] by blast
    then show ?thesis using assms(1) r'(2) by (auto simp: knows_def seen row_of_def)
  qed
  then show ?thesis using assms(1) auth_leD(1) [OF assms(2)] by (auto simp: knows_def seen)
qed

text \<open>The second half of a rotation, computed.\<close>

definition next_row :: "auth_env \<Rightarrow> refresh_row \<Rightarrow> account \<Rightarrow> nat \<Rightarrow> refresh_row" where
  "next_row env row user i = \<lparr>rt_id = i, rt_user_id = ac_id user, rt_token_hash = av_hash env (av_draw env),
     rt_family_id = rt_family_id row, rt_replaced_by_id = None,
     rt_expires_at = av_now env + seconds (refresh_token_lifetime_days (av_settings env) * 86400), rt_revoked_at = None\<rparr>"

lemma live_by_id:
  assumes "auth_ok s"
  shows "length (filter (\<lambda>r. rt_id r = i \<and> rt_revoked_at r = None) (refresh_tokens s)) = 1 \<longleftrightarrow>
    (\<exists>r \<in> set (refresh_tokens s). rt_id r = i \<and> live r)" (is "length ?l = 1 \<longleftrightarrow> _")
proof -
  have d: "distinct (map rt_id (refresh_tokens s))" using assms by (simp add: auth_ok_def rows_ok_def)
  have e: "?l = filter (\<lambda>r. rt_revoked_at r = None) (filter (\<lambda>r. rt_id r = i) (refresh_tokens s))"
    by (simp add: conj_commute)
  show ?thesis unfolding e
    by (rule filter_key_cases [OF d, of i]) (auto simp: live_def dest: same_key_same_row [OF d] intro: image_eqI)
qed

lemma swap_run:
  assumes "auth_ok s"
  shows "rotation_swap env (row, user) s =
    (if \<not> (\<exists>r \<in> set (refresh_tokens s). rt_id r = rt_id row \<and> live r)
     then (Inl unauthorized, revoke_where (av_now env) (\<lambda>r. rt_family_id r = rt_family_id row) s)
     else if av_hash env (av_draw env) \<in> rt_token_hash ` set (refresh_tokens s) then (Inl (PyExc ''IntegrityError''), s)
     else (Inr (user, write_token env user, av_draw env),
           s\<lparr>refresh_tokens := swapped_rows (av_now env) (rt_id row) (next_row env row user (au_next s)) (refresh_tokens s),
             au_next := au_next s + 2\<rparr>))"
proof (cases "\<exists>r \<in> set (refresh_tokens s). rt_id r = rt_id row \<and> live r")
  case False
  then show ?thesis using live_by_id [OF assms, of "rt_id row"]
    by (simp add: rotation_swap_def handler_defs revoke_refresh_token_family_def)
next
  case True
  have h: "rt_token_hash ` set (refresh_tokens (revoke_where now which s)) = rt_token_hash ` set (refresh_tokens s)" for now which
    by (simp add: revoke_where_rows image_image)
  show ?thesis
  proof (cases "av_hash env (av_draw env) \<in> rt_token_hash ` set (refresh_tokens s)")
    case taken: True
    then show ?thesis using True live_by_id [OF assms, of "rt_id row"]
      by (simp add: rotation_swap_def rotation_writes_def handler_defs committed_def create_refresh_token_def h)
  next
    case fresh: False
    have e: "refresh_tokens_update f (revoke_where now which s\<lparr>refresh_tokens := x, au_next := y\<rparr>)
      = s\<lparr>refresh_tokens := f x, au_next := y\<rparr>" for f x y now which
      by (simp add: revoke_where_def)
    show ?thesis using True fresh live_by_id [OF assms, of "rt_id row"]
      by (simp add: rotation_swap_def rotation_writes_def handler_defs committed_def create_refresh_token_def h e Let_def
          swapped_rows_def next_row_def revoke_where_rows replaced_row_def [abs_def] image_image)
  qed
qed

lemma rotation_swap_safe: "auth_safe (knows seen) (rotation_swap env seen) anything"
proof (rule auth_safeI)
  fix s r s' assume s: "auth_ok s" and k: "knows seen s" and run: "rotation_swap env seen s = (r, s')"
  obtain row user where seen: "seen = (row, user)" by force
  have "moves s s'"
  proof (cases "\<exists>q \<in> set (refresh_tokens s). rt_id q = rt_id row \<and> live q")
    case False
    then show ?thesis using run revoke_where_moves [OF s] by (auto simp: seen swap_run [OF s] split: if_splits)
  next
    case True
    then obtain q where q: "q \<in> set (refresh_tokens s)" "rt_id q = rt_id row" "live q" by blast
    have "rt_family_id q = rt_family_id row" "rt_user_id q = ac_id user" using k q by (auto simp: knows_def seen)
    then show ?thesis
      using run True s swap_moves [OF s q(1,3), of "next_row env row user (au_next s)" "av_now env"] q(2)
      by (auto simp: seen swap_run [OF s] next_row_def split: if_splits)
  qed
  then show "auth_ok s' \<and> auth_le s s' \<and> (case r of Inl _ \<Rightarrow> True | Inr x \<Rightarrow> True)" by (simp split: sum.split)
qed

lemma rotate_safe: "auth_safe any (rotate_refresh_token env t) anything"
  unfolding rotate_refresh_token_def by (rule auth_safe_bind [OF rotation_check_safe rotation_swap_safe])

end
