(* ===== verification/AuthRoutes.thy ===== *)
theory AuthRoutes
  imports AuthOps
begin

text \<open>
  The triples of the account operations and of every route.
\<close>

section \<open>Accounts by email\<close>

lemma other_update_safe:
  "auth_safe P (modify (verification_tokens_update f)) anything"
  "auth_safe P (modify (reset_tokens_update f)) anything"
  by (rule auth_safe_modify, simp)+

lemma hooks_safe:
  "auth_safe P (on_after_request_verify env u t) anything" "auth_safe P (on_after_verify env u) anything"
  "auth_safe P (on_after_forgot_password env u t) anything"
  unfolding on_after_request_verify_def on_after_verify_def on_after_forgot_password_def
  by (rule other_update_safe)+

lemma put_account_safe:
  "(\<And>s. auth_ok s \<Longrightarrow> P s \<Longrightarrow> current u s) \<Longrightarrow> auth_safe P (modify (put_account u)) (\<lambda>_. current u)"
  by (rule auth_safe_modify) (simp add: put_account_moves put_current)

lemma put_account_safe_any:
  "(\<And>s. auth_ok s \<Longrightarrow> P s \<Longrightarrow> current u s) \<Longrightarrow> auth_safe P (modify (put_account u)) anything"
  by (rule auth_safe_conseq [OF put_account_safe [of P]]) auto

lemma end_sessions_safe: "auth_safe (current u) (end_sessions env u) anything"
  unfolding end_sessions_def Let_def
proof (rule auth_safe_then)
  show "auth_safe (current u) (modify (revoke_where (av_now env) (\<lambda>r. rt_user_id r = ac_id u))) (\<lambda>_. current u)"
    by (rule auth_safe_modify) (simp add: revoke_where_moves current_def)
  show "auth_safe (current u) (then_do (modify (put_account (u\<lparr>ac_token_version := ac_token_version u + 1\<rparr>)))
     (ret (u\<lparr>ac_token_version := ac_token_version u + 1\<rparr>))) anything"
    by (rule auth_safe_then [where R = any]; intro put_account_safe_any auth_safe_ret)
      (auto intro: current_cong [of _ u])
qed

lemma reset_hook_safe: "auth_safe (current u) (on_after_reset_password env u) anything"
  unfolding on_after_reset_password_def
  by (rule auth_safe_then [OF _ end_sessions_safe], rule auth_safe_modify) (simp add: current_def)

lemma change_password_safe: "auth_safe (is_account u) (change_password env u old new) anything"
  unfolding change_password_def Let_def on_after_change_password_def
proof (rule auth_safe_then [where R = "is_account u"], rule auth_safe_guard, assumption,
    rule auth_safe_then [where R = "is_account u"], rule auth_safe_result, assumption)
  let ?u = "u\<lparr>ac_hashed_password := av_hash_password env new\<rparr>"
  show "auth_safe (is_account u) (then_do (modify (put_account ?u)) (end_sessions env ?u)) anything"
    by (rule auth_safe_then [OF put_account_safe end_sessions_safe])
      (auto intro: current_cong [of _ u] member_current)
qed

lemma create_library:
  assumes "create_ok env" "auth_ok s" "av_create env e p n s = (r, s')"
  shows "moves s s' \<and> (case r of Inl _ \<Rightarrow> True | Inr u \<Rightarrow> is_account u s' \<and> wallet_nonces s' = wallet_nonces s)"
proof (cases r)
  case (Inl x)
  then show ?thesis using assms unfolding create_ok_def by fastforce
next
  case (Inr u)
  then have "ac_id u = au_next s" "s' = s\<lparr>accounts := accounts s @ [u], au_next := Suc (au_next s)\<rparr>"
    using assms unfolding create_ok_def by fastforce+
  then show ?thesis using new_account_moves [OF assms(2)] Inr by simp
qed

lemma create_safe: "create_ok env \<Longrightarrow> auth_safe any (av_create env e p n) is_account"
  by (rule auth_safeI) (auto dest: create_library split: sum.splits)

lemma request_verify_safe: "auth_safe any (request_verify env u) anything"
  unfolding request_verify_def by (intro auth_safe_if auth_safe_raise hooks_safe)

lemma ignoring_safe: "auth_safe any m anything \<Longrightarrow> auth_safe any (ignoring es m) anything"
  unfolding ignoring_def
  by (rule auth_safe_on_error) (auto intro!: auth_safe_if auth_safe_ret auth_safe_raise)

lemma register_safe:
  assumes "library_ok env"
  shows "auth_safe any (register env e p n) anything"
  unfolding register_def
proof (rule auth_safe_bind [where R = is_account])
  show "auth_safe any (on_error (av_create env e p n)
      (\<lambda>e. if e = user_already_exists then raise (bad_request ''user_exists'')
           else if e = invalid_password then raise (bad_request ''invalid_password'') else raise e) ret) is_account"
    by (rule auth_safe_on_error [OF create_safe]) (use assms in \<open>auto simp: library_ok_def intro!: auth_safe_if auth_safe_raise auth_safe_ret\<close>)
  show "auth_safe (is_account u) (if auto_verify_new_users (av_settings env)
      then then_do (modify (put_account (u\<lparr>ac_is_verified := True\<rparr>))) (ret (u\<lparr>ac_is_verified := True\<rparr>))
      else then_do (ignoring {user_already_verified} (request_verify env u)) (ret u)) anything" for u
    by (intro auth_safe_if auth_safe_then [where R = any] put_account_safe_any auth_safe_ret
        auth_safe_drop [OF ignoring_safe [OF request_verify_safe]])
      (auto intro: current_cong [of _ u] member_current)
qed

lemma request_verify_email_safe: "auth_safe any (request_verify_email env e) anything"
  unfolding request_verify_email_def
  by (intro auth_safe_if auth_safe_ret auth_safe_bind [where R = anything] auth_safe_gets auth_safe_option
      ignoring_safe request_verify_safe) simp_all

lemma verify_email_safe:
  assumes "library_ok env"
  shows "auth_safe any (verify_email env t) anything"
  unfolding verify_email_def
proof (rule auth_safe_bind [where R = "\<lambda>r s. \<forall>u. r = Inr u \<longrightarrow> is_account u s"])
  show "auth_safe any (gets (av_verified_account env t)) (\<lambda>r s. \<forall>u. r = Inr u \<longrightarrow> is_account u s)"
    by (rule auth_safe_gets) (use assms in \<open>auto simp: library_ok_def lookups_ok_def\<close>)
  show "auth_safe (\<lambda>s. \<forall>u. r = Inr u \<longrightarrow> is_account u s) (case r of
       Inl e \<Rightarrow> if e = PyExc ''InvalidVerifyToken'' \<or> e = user_already_verified
                then raise (bad_request ''invalid_verification_token'') else raise e
     | Inr user \<Rightarrow> let user' = user\<lparr>ac_is_verified := True\<rparr>
         in then_do (modify (put_account user')) (then_do (on_after_verify env user') (ret user'))) anything" for r
  proof (cases r)
    case (Inr u)
    then show ?thesis unfolding sum.case Inr Let_def
      by (intro auth_safe_then [where R = any] put_account_safe_any hooks_safe auth_safe_ret)
        (auto intro: current_cong [of _ u] member_current)
  qed (simp add: auth_safe_raise)
qed

lemma forgot_password_safe: "auth_safe any (forgot_password env e) anything"
  unfolding forgot_password_def
  by (intro auth_safe_bind [where R = anything] auth_safe_gets auth_safe_option auth_safe_if auth_safe_ret
      auth_safe_raise hooks_safe) simp_all

lemma reset_password_safe:
  assumes "library_ok env"
  shows "auth_safe any (reset_password env t p) anything"
  unfolding reset_password_def
proof (rule auth_safe_bind [where R = "\<lambda>r s. \<forall>u. r = Inr u \<longrightarrow> is_account u s"])
  show "auth_safe any (gets (av_reset_account env t)) (\<lambda>r s. \<forall>u. r = Inr u \<longrightarrow> is_account u s)"
    by (rule auth_safe_gets) (use assms in \<open>auto simp: library_ok_def lookups_ok_def\<close>)
  show "auth_safe (\<lambda>s. \<forall>u. r = Inr u \<longrightarrow> is_account u s) (case r of
       Inl e \<Rightarrow> if e = PyExc ''InvalidResetPasswordToken'' then raise (bad_request ''invalid_reset_token'') else raise e
     | Inr user \<Rightarrow> if \<not> ac_is_active user then raise user_inactive
         else (case validate_password p user of Inl _ \<Rightarrow> raise (bad_request ''invalid_reset_token'')
           | Inr _ \<Rightarrow> let user' = user\<lparr>ac_hashed_password := av_hash_password env p\<rparr>
               in then_do (modify (put_account user')) (on_after_reset_password env user'))) anything" for r
  proof (cases r)
    case (Inr u)
    let ?u = "u\<lparr>ac_hashed_password := av_hash_password env p\<rparr>"
    have "auth_safe (\<lambda>s. \<forall>v. r = Inr v \<longrightarrow> is_account v s)
        (then_do (modify (put_account ?u)) (on_after_reset_password env ?u)) anything"
      by (rule auth_safe_then [OF put_account_safe reset_hook_safe])
        (auto simp: Inr intro: current_cong [of _ u] member_current)
    then show ?thesis by (simp add: Inr auth_safe_raise Let_def split: sum.split)
  qed (simp add: auth_safe_raise)
qed

section \<open>Sessions\<close>

lemma login_safe:
  assumes "library_ok env"
  shows "auth_safe any (login env e p) anything"
proof -
  have "auth_safe any (av_authenticate env e p) anything"
  proof (rule auth_safeI)
    fix s r s' assume s: "auth_ok s" and "av_authenticate env e p s = (r, s')"
    then obtain f where "s' = accounts_update (map (\<lambda>u. u\<lparr>ac_hashed_password := f u\<rparr>)) s"
      using assms unfolding library_ok_def authenticate_ok_def by blast
    then show "auth_ok s' \<and> auth_le s s' \<and> (case r of Inl _ \<Rightarrow> True | Inr x \<Rightarrow> True)"
      using rehash_moves [OF s] by (simp split: sum.split)
  qed
  then show ?thesis unfolding login_def
    by (rule auth_safe_bind)
      (intro auth_safe_committed auth_safe_option auth_safe_if auth_safe_raise auth_safe_ret
        auth_safe_bind [OF issue_token_pair_safe], simp)
qed

lemma refresh_safe: "auth_safe any (refresh env t) anything"
  unfolding refresh_def by (rule rotate_safe)

lemma logout_safe: "auth_safe any (logout env a t) anything"
  unfolding logout_def Let_def
  by (intro auth_safe_bind [OF active_user_safe(2)] auth_safe_then [where R = any] auth_safe_option auth_safe_if
      auth_safe_ret auth_safe_bind [where R = anything] auth_safe_drop [OF revoke_access_token_safe]
      revoke_refresh_token_safe) simp_all

lemma change_password_route_safe: "auth_safe any (change_password_route env a old new) anything"
  unfolding change_password_route_def
  by (rule auth_safe_bind [OF active_user_safe(1)], rule auth_safe_on_error [OF change_password_safe])
    (auto intro!: auth_safe_if auth_safe_raise auth_safe_ret)

section \<open>Codes and phones\<close>

lemma request_otp_safe: "auth_safe any (request_otp env number purpose user) anything"
proof -
  have a: "auth_safe any (modify (phone_codes_update (map (\<lambda>r. if code_of_phone normalized purpose r
            then r\<lparr>ph_consumed_at := Some (av_now env)\<rparr> else r)))) anything" for normalized
  proof (rule auth_safe_modify)
    fix s assume s: "auth_ok s"
    let ?f = "\<lambda>r. if code_of_phone normalized purpose r then r\<lparr>ph_consumed_at := Some (av_now env)\<rparr> else r"
    have k: "map ph_id (map ?f (phone_codes s)) = map ph_id (phone_codes s)" by simp
    have "moves s (s\<lparr>phone_codes := map ?f (phone_codes s), au_next := au_next s\<rparr>)"
      by (rule codes_move [OF s]) (use s in \<open>auto simp: auth_ok_def k code_left_def split: if_splits simp del: map_map\<close>)
    moreover have "phone_codes_update (map ?f) s = s\<lparr>phone_codes := map ?f (phone_codes s), au_next := au_next s\<rparr>"
      by (cases s) simp
    ultimately show "auth_ok (phone_codes_update (map ?f) s) \<and> auth_le s (phone_codes_update (map ?f) s) \<and> True" by metis
  qed
  have b: "auth_safe any (modify (\<lambda>s. s\<lparr>phone_codes := phone_codes s @ [new s], au_next := Suc (au_next s)\<rparr>)) anything"
    if new: "\<And>s. ph_id (new s) = au_next s" for new
  proof (rule auth_safe_modify)
    fix s assume s: "auth_ok s"
    have "moves s (s\<lparr>phone_codes := phone_codes s @ [new s], au_next := Suc (au_next s)\<rparr>)"
      by (rule codes_move [OF s]) (use s new in \<open>auto simp: auth_ok_def code_left_def\<close>)
    then show "auth_ok (s\<lparr>phone_codes := phone_codes s @ [new s], au_next := Suc (au_next s)\<rparr>) \<and>
      auth_le s (s\<lparr>phone_codes := phone_codes s @ [new s], au_next := Suc (au_next s)\<rparr>) \<and> True" by simp
  qed
  show ?thesis unfolding request_otp_def
    by (intro auth_safe_bind [where R = anything] auth_safe_result auth_safe_then [where R = any] a b auth_safe_ret)
      simp_all
qed

lemma live_code_member: "live_code env number purpose s = Some r \<Longrightarrow>
    r \<in> set (phone_codes s) \<and> ph_consumed_at r = None"
  unfolding live_code_def
  by (metis (no_types, lifting) code_of_phone_def filter_set list.case_eq_if list.collapse list.set_intros(1)
      mem_Collect_eq option.distinct(1) option.inject set_filter set_sort)

lemma verify_code_safe:
  "session_safe (\<lambda>s. R (accounts s)) (verify_code env number code purpose) (\<lambda>_ s. R (accounts s))"
proof -
  have p: "session_safe (\<lambda>s. R (accounts s) \<and> r \<in> set (phone_codes s) \<and> ph_consumed_at r = None)
      (within (modify (put_code (r\<lparr>ph_attempts := ph_attempts r + 1, ph_consumed_at := t\<rparr>)))) (\<lambda>_ s. R (accounts s))" for r t
    by (rule session_safe_within, rule auth_safe_modify)
      (use put_code_moves in \<open>fastforce simp: code_left_def put_code_def\<close>)
  have keep: "r\<lparr>ph_attempts := a, ph_consumed_at := None\<rparr> = r\<lparr>ph_attempts := a\<rparr>" if "ph_consumed_at r = None" for r a
    using that by (cases r) simp
  have step: "session_safe (\<lambda>s. R (accounts s) \<and> (\<forall>r. found = Some r \<longrightarrow> r \<in> set (phone_codes s) \<and> ph_consumed_at r = None))
     (case found of None \<Rightarrow> raise (bad_request ''otp_invalid'')
      | Some r \<Rightarrow> if ph_otp_hash r \<noteq> hash_otp env n code purpose
          then if ph_attempts r + 1 \<ge> otp_max_attempts (av_settings env)
            then then_do (within (modify (put_code (r\<lparr>ph_attempts := ph_attempts r + 1, ph_consumed_at := Some (av_now env)\<rparr>))))
                   (then_do commit (raise (bad_request ''otp_attempts_exceeded'')))
            else then_do (within (modify (put_code (r\<lparr>ph_attempts := ph_attempts r + 1\<rparr>))))
                   (then_do commit (raise (bad_request ''otp_invalid'')))
          else then_do (within (modify (put_code (r\<lparr>ph_attempts := ph_attempts r + 1, ph_consumed_at := Some (av_now env)\<rparr>))))
                 (ret n)) (\<lambda>_ s. R (accounts s))" for found n
  proof (cases found)
    case (Some r)
    let ?P = "\<lambda>s. R (accounts s) \<and> r \<in> set (phone_codes s) \<and> ph_consumed_at r = None"
    have fail: "session_safe (\<lambda>s. R (accounts s)) (then_do commit (raise e)) (\<lambda>_ s. R (accounts s))" for e
      by (rule session_safe_then [OF session_safe_commit session_safe_raise])
    have p': "session_safe ?P (within (modify (put_code (r\<lparr>ph_attempts := ph_attempts r + 1\<rparr>)))) (\<lambda>_ s. R (accounts s))"
      using p [of r None] keep [of r] by (cases "ph_consumed_at r = None") (auto simp: session_safe_def triple_def)
    have "session_safe ?P (if ph_otp_hash r \<noteq> hash_otp env n code purpose
          then if ph_attempts r + 1 \<ge> otp_max_attempts (av_settings env)
            then then_do (within (modify (put_code (r\<lparr>ph_attempts := ph_attempts r + 1, ph_consumed_at := Some (av_now env)\<rparr>))))
                   (then_do commit (raise (bad_request ''otp_attempts_exceeded'')))
            else then_do (within (modify (put_code (r\<lparr>ph_attempts := ph_attempts r + 1\<rparr>))))
                   (then_do commit (raise (bad_request ''otp_invalid'')))
          else then_do (within (modify (put_code (r\<lparr>ph_attempts := ph_attempts r + 1, ph_consumed_at := Some (av_now env)\<rparr>))))
                 (ret n)) (\<lambda>_ s. R (accounts s))"
      by (intro session_safe_if session_safe_then [OF p fail] session_safe_then [OF p' fail]
          session_safe_then [OF p session_safe_ret])
    then show ?thesis by (simp add: Some)
  qed (simp add: session_safe_raise)
  have load: "session_safe (\<lambda>s. R (accounts s)) (within (gets (live_code env n purpose)))
      (\<lambda>found s. R (accounts s) \<and> (\<forall>r. found = Some r \<longrightarrow> r \<in> set (phone_codes s) \<and> ph_consumed_at r = None))" for n
    by (rule session_safe_within, rule auth_safe_gets) (auto dest: live_code_member)
  show ?thesis
    unfolding verify_code_def Let_def
    by (rule session_safe_bind [where R = "\<lambda>_ s. R (accounts s)"], rule session_safe_result, assumption,
        rule session_safe_bind [OF load step])
qed

lemma create_random_safe:
  assumes "create_ok env"
  shows "session_safe (\<lambda>s. N (wallet_nonces s)) (create_random_password_user env e n)
    (\<lambda>u s. is_account u s \<and> N (wallet_nonces s))"
  unfolding create_random_password_user_def
proof (rule session_safe_bind [OF session_safe_within])
  show "auth_safe (\<lambda>s. N (wallet_nonces s)) (av_create env e (av_draw env) (map_option (take full_name_max_length) n))
      (\<lambda>u s. is_account u s \<and> N (wallet_nonces s))"
    by (rule auth_safeI) (auto dest: create_library [OF assms] split: sum.splits)
qed (rule session_safe_then [OF session_safe_commit session_safe_ret])

lemma session_issue: "session_safe P (bind (within (issue_token_pair env u)) (\<lambda>pair. ret (u, pair))) anything"
  by (rule session_safe_bind [OF session_safe_within [OF issue_token_pair_safe] session_safe_ret]) simp

lemma get_user_by_phone_safe: "auth_safe P (get_user_by_phone number) loaded"
  unfolding get_user_by_phone_def
  by (rule auth_safe_select) (auto simp: loaded_def dest: scalar_filter_member)

lemma session_put:
  "(\<And>s. auth_ok s \<Longrightarrow> P s \<Longrightarrow> current u s) \<Longrightarrow> session_safe P (within (modify (put_account u))) anything"
  by (rule session_safe_within, rule put_account_safe_any)

lemma account_current:
  "ac_id v = ac_id u \<Longrightarrow> ac_token_version u \<le> ac_token_version v \<Longrightarrow> auth_ok s \<Longrightarrow> is_account u s \<Longrightarrow> current v s"
  by (blast intro: current_cong member_current)

lemma phone_login_safe:
  assumes "library_ok env"
  shows "session_safe any (phone_login_or_create env number code name) anything"
  unfolding phone_login_or_create_def Let_def
proof (rule session_safe_bind [OF verify_code_safe [where R = "\<lambda>_. True"]],
    rule session_safe_bind [OF session_safe_within [OF get_user_by_phone_safe]])
  have c: "session_safe (loaded found) (bind (create_random_password_user env e name) (\<lambda>created.
      then_do (within (modify (put_account (with_phone env n created)))) (ret (with_phone env n created)))) anything" for found e n
  proof (rule session_safe_bind [where R = is_account])
    show "session_safe (loaded found) (create_random_password_user env e name) is_account"
      by (rule session_safe_conseq [OF create_random_safe [where N = "\<lambda>_. True"]])
        (use assms in \<open>auto simp: library_ok_def\<close>)
    show "session_safe (is_account u)
        (then_do (within (modify (put_account (with_phone env n u)))) (ret (with_phone env n u))) anything" for u
      by (rule session_safe_then [OF session_put session_safe_ret])
        (auto simp: with_phone_def intro: account_current)
  qed
  show "session_safe (loaded found) (bind (case found of Some user \<Rightarrow> ret user
       | None \<Rightarrow> bind (create_random_password_user env (synthetic_phone_email env n) name) (\<lambda>created.
           then_do (within (modify (put_account (with_phone env n created)))) (ret (with_phone env n created))))
     (\<lambda>user. if \<not> ac_is_active user then raise unauthorized
        else bind (within (issue_token_pair env user)) (\<lambda>pair. ret (user, pair)))) anything" for n found
    by (rule session_safe_bind [where R = anything])
      (auto intro!: session_safe_option session_safe_if session_safe_ret session_safe_raise c session_issue)
qed

lemma link_phone_safe: "session_safe (is_account u) (link_phone env u number code) anything"
  unfolding link_phone_def
proof (rule session_safe_bind [OF verify_code_safe [where R = "\<lambda>a. u \<in> set a"]], rule session_safe_bind)
  show "session_safe (is_account u) (within (get_user_by_phone n)) (\<lambda>_. is_account u)" for n
    unfolding get_user_by_phone_def by (rule session_safe_within, rule auth_safe_select)
  show "session_safe (is_account u) (if existing \<noteq> None \<and> map_option ac_id existing \<noteq> Some (ac_id u)
       then raise (bad_request ''phone_in_use'')
       else then_do (within (modify (put_account (with_phone env n u)))) (ret (with_phone env n u))) anything"
    for n and existing :: "account option"
    by (intro session_safe_if session_safe_raise session_safe_then [OF session_put session_safe_ret])
      (auto simp: with_phone_def intro: account_current)
qed

lemma unlink_phone_safe: "auth_safe (is_account u) (unlink_phone u) anything"
  unfolding unlink_phone_def Let_def
  by (intro auth_safe_if auth_safe_raise auth_safe_then [where R = any] put_account_safe_any auth_safe_ret)
    (auto intro: account_current)

lemma or_unauthorized_safe: "auth_safe (loaded found) (or_unauthorized found) is_account"
  unfolding or_unauthorized_def by (intro auth_safe_option auth_safe_raise auth_safe_ret) simp

lemma phone_routes_safe:
  "auth_safe any (phone_request_otp env a number purpose) anything"
  "library_ok env \<Longrightarrow> auth_safe any (phone_verify_otp env number code name) anything"
  "auth_safe any (phone_link env a number code) anything"
  "auth_safe any (phone_unlink env a) anything"
proof -
  show "auth_safe any (phone_request_otp env a number purpose) anything"
    unfolding phone_request_otp_def
    by (rule auth_safe_bind [OF active_user_safe(2)])
      (intro auth_safe_if auth_safe_raise auth_safe_committed auth_safe_drop [OF request_otp_safe])
  show "library_ok env \<Longrightarrow> auth_safe any (phone_verify_otp env number code name) anything"
    unfolding phone_verify_otp_def
    by (intro auth_safe_if auth_safe_raise auth_safe_session phone_login_safe)
  show "auth_safe any (phone_link env a number code) anything"
    unfolding phone_link_def
    by (intro auth_safe_if auth_safe_raise auth_safe_bind [OF active_user_safe(2)]
        auth_safe_bind [OF or_unauthorized_safe] auth_safe_session link_phone_safe)
  show "auth_safe any (phone_unlink env a) anything"
    unfolding phone_unlink_def
    by (intro auth_safe_bind [OF active_user_safe(2)] auth_safe_bind [OF or_unauthorized_safe]
        auth_safe_committed unlink_phone_safe)
qed

section \<open>Wallets\<close>

lemma add_nonce_safe: "auth_safe any (add_nonce env uid a m) anything"
proof (rule auth_safeI)
  fix s r s' assume s: "auth_ok s" and r: "add_nonce env uid a m s = (r, s')"
  show "auth_ok s' \<and> auth_le s s' \<and> (case r of Inl _ \<Rightarrow> True | Inr x \<Rightarrow> True)"
  proof (cases "av_hash env m \<in> wn_nonce_hash ` set (wallet_nonces s)")
    case True
    then show ?thesis using r s by (auto simp: add_nonce_def handler_defs)
  next
    case False
    have "moves s (s\<lparr>wallet_nonces := wallet_nonces s @ [\<lparr>wn_user_id = uid, wn_address = a, wn_nonce_hash = av_hash env m,
        wn_expires_at = av_now env + seconds (wallet_nonce_ttl_seconds (av_settings env)), wn_used_at = None\<rparr>]\<rparr>)"
      by (rule nonces_move [OF s]) (use s False in \<open>auto simp: auth_ok_def\<close>)
    then show ?thesis using r False by (auto simp: add_nonce_def handler_defs)
  qed
qed

lemma nonces_safe: "auth_safe any (create_login_nonce env a) anything" "auth_safe P (create_nonce env u a) anything"
  unfolding create_login_nonce_def create_nonce_def Let_def
  by (intro auth_safe_bind [where R = anything] auth_safe_result auth_safe_then [OF add_nonce_safe] auth_safe_ret
      auth_safe_drop; simp)+

definition holds_nonce :: "wallet_nonce \<Rightarrow> wallet_nonce list \<Rightarrow> bool" where
  "holds_nonce n ns \<longleftrightarrow> n \<in> set ns \<and> wn_used_at n = None"

lemma wallet_login_safe:
  assumes "library_ok env"
  shows "session_safe any (wallet_login_or_create env a m sig) anything"
  unfolding wallet_login_or_create_def Let_def
proof (rule session_safe_bind [where R = anything], rule session_safe_result, rule TrueI, rule session_safe_bind)
  fix normalized
  show "session_safe any (within (select_one_or_none (\<lambda>s. filter (usable_nonce env normalized m) (wallet_nonces s))))
      (\<lambda>found s. \<forall>n. found = Some n \<longrightarrow> holds_nonce n (wallet_nonces s))"
    by (intro session_safe_within auth_safe_select)
      (auto simp: holds_nonce_def usable_nonce_def dest: scalar_filter_member)
  fix found
  let ?user = "\<lambda>wallet. case wallet of
       Some w \<Rightarrow> bind (within (gets (find_account_by_id (ew_user_id w)))) (\<lambda>owner. case owner of
           None \<Rightarrow> raise (bad_request ''invalid_wallet_nonce'') | Some user \<Rightarrow> ret user)
     | None \<Rightarrow> bind (create_random_password_user env (synthetic_wallet_email env normalized) None) (\<lambda>user.
         then_do (within (modify (add_wallet env (ac_id user) normalized))) (ret user))"
  let ?finish = "\<lambda>nonce user. if \<not> ac_is_active user then raise unauthorized
     else then_do (within (modify (put_account (if ac_wallet_verified_at user = None
            then user\<lparr>ac_wallet_verified_at := Some (av_now env)\<rparr> else user))))
       (then_do (within (modify (use_nonce env nonce)))
         (bind (within (issue_token_pair env (if ac_wallet_verified_at user = None
            then user\<lparr>ac_wallet_verified_at := Some (av_now env)\<rparr> else user))) (\<lambda>pair. ret (if ac_wallet_verified_at user = None
            then user\<lparr>ac_wallet_verified_at := Some (av_now env)\<rparr> else user, pair))))"
  have user: "session_safe (\<lambda>s. holds_nonce n (wallet_nonces s)) (?user wallet)
      (\<lambda>u s. is_account u s \<and> holds_nonce n (wallet_nonces s))" for n wallet
  proof (cases wallet)
    case None
    have "auth_safe (\<lambda>s. is_account u s \<and> holds_nonce n (wallet_nonces s)) (modify (add_wallet env (ac_id u) normalized))
        (\<lambda>_ s. is_account u s \<and> holds_nonce n (wallet_nonces s))" for u
    proof (rule auth_safe_modify)
      fix s assume s: "auth_ok s" "is_account u s \<and> holds_nonce n (wallet_nonces s)"
      have "add_wallet env (ac_id u) normalized s = evm_wallets_update (\<lambda>ws. ws @ [\<lparr>ew_user_id = ac_id u, ew_address = normalized,
          ew_verified_at = av_now env, ew_last_balance_sync_at = None\<rparr>]) s"
        by (cases s) (simp add: add_wallet_def)
      then show "auth_ok (add_wallet env (ac_id u) normalized s) \<and> auth_le s (add_wallet env (ac_id u) normalized s) \<and>
          is_account u (add_wallet env (ac_id u) normalized s) \<and> holds_nonce n (wallet_nonces (add_wallet env (ac_id u) normalized s))"
        using s by simp
    qed
    then show ?thesis unfolding None option.case
      by (intro session_safe_bind [OF create_random_safe [where N = "holds_nonce n"]]
          session_safe_then [OF session_safe_within session_safe_ret]) (use assms in \<open>auto simp: library_ok_def\<close>)
  next
    case (Some w)
    show ?thesis unfolding Some option.case
    proof (rule session_safe_bind [OF session_safe_within])
      show "auth_safe (\<lambda>s. holds_nonce n (wallet_nonces s)) (gets (find_account_by_id (ew_user_id w)))
          (\<lambda>owner s. loaded owner s \<and> holds_nonce n (wallet_nonces s))"
        by (rule auth_safe_gets) (auto simp: loaded_def dest: find_account_member)
    qed (intro session_safe_option session_safe_raise session_safe_ret, simp)
  qed
  have finish: "session_safe (\<lambda>s. is_account u s \<and> holds_nonce n (wallet_nonces s)) (?finish n u) anything" for n u
  proof (intro session_safe_if session_safe_raise, rule session_safe_then, rule session_safe_within)
    show "auth_safe (\<lambda>s. is_account u s \<and> holds_nonce n (wallet_nonces s)) (modify (put_account (if ac_wallet_verified_at u = None
            then u\<lparr>ac_wallet_verified_at := Some (av_now env)\<rparr> else u))) (\<lambda>_ s. holds_nonce n (wallet_nonces s))"
      by (rule auth_safe_modify) (auto intro!: put_account_moves intro: account_current)
    show "session_safe (\<lambda>s. holds_nonce n (wallet_nonces s)) (then_do (within (modify (use_nonce env n)))
         (bind (within (issue_token_pair env v)) (\<lambda>pair. ret (v, pair)))) anything" for v
      by (rule session_safe_then [OF session_safe_within session_issue], rule auth_safe_modify)
        (use use_nonce_moves in \<open>auto simp: holds_nonce_def\<close>)
  qed
  show "session_safe (\<lambda>s. \<forall>n. found = Some n \<longrightarrow> holds_nonce n (wallet_nonces s))
     (case found of None \<Rightarrow> raise (bad_request ''invalid_wallet_nonce'')
     | Some nonce \<Rightarrow> then_do (of_result (check_signature env normalized m sig))
        (bind (within (wallet_with_address normalized)) (\<lambda>wallet. bind (?user wallet) (?finish nonce)))) anything"
  proof (rule session_safe_option, rule session_safe_raise)
    fix n assume "found = Some n"
    then show "session_safe (\<lambda>s. \<forall>n. found = Some n \<longrightarrow> holds_nonce n (wallet_nonces s))
       (then_do (of_result (check_signature env normalized m sig))
        (bind (within (wallet_with_address normalized)) (\<lambda>wallet. bind (?user wallet) (?finish n)))) anything"
      unfolding wallet_with_address_def
      by (intro session_safe_then [where R = "\<lambda>s. holds_nonce n (wallet_nonces s)"] session_safe_result
          session_safe_bind [where R = "\<lambda>_ s. holds_nonce n (wallet_nonces s)"] session_safe_within auth_safe_select
          session_safe_bind [OF user finish]) simp_all
  qed
qed

lemma verify_wallet_safe: "auth_safe any (verify_wallet env u a m sig) anything"
  unfolding verify_wallet_def
proof (rule auth_safe_bind [where R = anything], rule auth_safe_result, rule TrueI, rule auth_safe_bind)
  fix normalized
  show "auth_safe any (select_one_or_none (\<lambda>s. filter (\<lambda>n. wn_user_id n = Some (ac_id u) \<and> usable_nonce env normalized m n)
      (wallet_nonces s))) (\<lambda>found s. \<forall>n. found = Some n \<longrightarrow> holds_nonce n (wallet_nonces s))"
    by (rule auth_safe_select) (auto simp: holds_nonce_def usable_nonce_def dest: scalar_filter_member)
  fix found
  have w: "auth_safe (\<lambda>s. holds_nonce n (wallet_nonces s)) (modify (case wallet of None \<Rightarrow> add_wallet env (ac_id u) normalized
        | Some w \<Rightarrow> evm_wallets_update (replace_by ew_user_id (w\<lparr>ew_address := normalized, ew_verified_at := av_now env\<rparr>))))
      (\<lambda>_ s. holds_nonce n (wallet_nonces s))" for n wallet
  proof (rule auth_safe_modify)
    fix s assume s: "auth_ok s" "holds_nonce n (wallet_nonces s)"
    have "add_wallet env (ac_id u) normalized s = evm_wallets_update (\<lambda>ws. ws @ [\<lparr>ew_user_id = ac_id u, ew_address = normalized,
        ew_verified_at = av_now env, ew_last_balance_sync_at = None\<rparr>]) s"
      by (cases s) (simp add: add_wallet_def)
    then show "auth_ok ((case wallet of None \<Rightarrow> add_wallet env (ac_id u) normalized
        | Some w \<Rightarrow> evm_wallets_update (replace_by ew_user_id (w\<lparr>ew_address := normalized, ew_verified_at := av_now env\<rparr>))) s) \<and>
      auth_le s ((case wallet of None \<Rightarrow> add_wallet env (ac_id u) normalized
        | Some w \<Rightarrow> evm_wallets_update (replace_by ew_user_id (w\<lparr>ew_address := normalized, ew_verified_at := av_now env\<rparr>))) s) \<and>
      holds_nonce n (wallet_nonces ((case wallet of None \<Rightarrow> add_wallet env (ac_id u) normalized
        | Some w \<Rightarrow> evm_wallets_update (replace_by ew_user_id (w\<lparr>ew_address := normalized, ew_verified_at := av_now env\<rparr>))) s))"
      using s by (cases wallet) simp_all
  qed
  show "auth_safe (\<lambda>s. \<forall>n. found = Some n \<longrightarrow> holds_nonce n (wallet_nonces s))
     (case found of None \<Rightarrow> raise (bad_request ''invalid_wallet_nonce'')
     | Some nonce \<Rightarrow> then_do (of_result (check_signature env normalized m sig))
        (bind (wallet_with_address normalized) (\<lambda>existing.
           if existing \<noteq> None \<and> map_option ew_user_id existing \<noteq> Some (ac_id u)
           then raise (bad_request ''wallet_already_linked'')
           else bind (get_wallet u) (\<lambda>wallet.
             then_do (modify (case wallet of None \<Rightarrow> add_wallet env (ac_id u) normalized
                | Some w \<Rightarrow> evm_wallets_update
                    (replace_by ew_user_id (w\<lparr>ew_address := normalized, ew_verified_at := av_now env\<rparr>))))
               (modify (use_nonce env nonce)))))) anything"
  proof (rule auth_safe_option, rule auth_safe_raise)
    fix n assume "found = Some n"
    then show "auth_safe (\<lambda>s. \<forall>n. found = Some n \<longrightarrow> holds_nonce n (wallet_nonces s))
      (then_do (of_result (check_signature env normalized m sig))
        (bind (wallet_with_address normalized) (\<lambda>existing.
           if existing \<noteq> None \<and> map_option ew_user_id existing \<noteq> Some (ac_id u)
           then raise (bad_request ''wallet_already_linked'')
           else bind (get_wallet u) (\<lambda>wallet.
             then_do (modify (case wallet of None \<Rightarrow> add_wallet env (ac_id u) normalized
                | Some w \<Rightarrow> evm_wallets_update
                    (replace_by ew_user_id (w\<lparr>ew_address := normalized, ew_verified_at := av_now env\<rparr>))))
               (modify (use_nonce env n)))))) anything"
      unfolding wallet_with_address_def get_wallet_def
      by (intro auth_safe_then [where R = "\<lambda>s. holds_nonce n (wallet_nonces s)"] auth_safe_result
          auth_safe_bind [where R = "\<lambda>_ s. holds_nonce n (wallet_nonces s)"] auth_safe_select auth_safe_if auth_safe_raise w
          auth_safe_modify) (use use_nonce_moves in \<open>auto simp: holds_nonce_def\<close>)
  qed
qed

lemma unlink_wallet_safe: "auth_safe any (unlink_wallet u) anything"
  unfolding unlink_wallet_def get_wallet_def
  by (intro auth_safe_bind [where R = anything] auth_safe_select auth_safe_option auth_safe_ret auth_safe_modify) simp_all

lemma wallet_routes_safe:
  "auth_safe any (wallet_login_nonce env a) anything"
  "library_ok env \<Longrightarrow> auth_safe any (wallet_login_verify env a m sig) anything"
  "auth_safe any (create_evm_nonce env h a) anything"
  "auth_safe any (verify_evm_wallet env h a m sig) anything"
  "auth_safe any (unlink_evm_wallet env h) anything"
proof -
  note first = auth_safe_bind [where R = anything, OF auth_safe_result [OF TrueI]]
    and guarded = auth_safe_then [where R = any, OF auth_safe_guard [OF TrueI]]
    and as_user = auth_safe_bind [OF auth_safe_conseq [OF active_user_safe(1), where Q = anything]]
  show "auth_safe any (wallet_login_nonce env a) anything"
    unfolding wallet_login_nonce_def by (intro first auth_safe_committed nonces_safe)
  show "library_ok env \<Longrightarrow> auth_safe any (wallet_login_verify env a m sig) anything"
    unfolding wallet_login_verify_def by (intro first guarded auth_safe_session wallet_login_safe)
  show "auth_safe any (create_evm_nonce env h a) anything"
    unfolding create_evm_nonce_def by (intro first as_user auth_safe_committed nonces_safe) simp_all
  show "auth_safe any (verify_evm_wallet env h a m sig) anything"
    unfolding verify_evm_wallet_def by (intro first guarded as_user auth_safe_committed verify_wallet_safe) simp_all
  show "auth_safe any (unlink_evm_wallet env h) anything"
    unfolding unlink_evm_wallet_def by (intro as_user auth_safe_committed unlink_wallet_safe) simp_all
qed

section \<open>Providers, and the account itself\<close>

lemma oauth_login_safe:
  assumes "library_ok env"
  shows "session_safe any (oauth_login_or_create env profile token) anything"
  unfolding oauth_login_or_create_def Let_def
proof (rule session_safe_then [OF session_safe_guard [where Q = "\<lambda>_ _. True", OF TrueI]],
    rule session_safe_bind [where R = anything], rule session_safe_within, rule auth_safe_select, rule TrueI,
    rule session_safe_bind [where R = is_account])
  fix linked
  have o: "session_safe (is_account u) (within (modify (oauth_accounts_update f))) (\<lambda>_. is_account u)" for u f
    by (rule session_safe_within, rule auth_safe_modify) simp
  have o': "session_safe (is_account u) (within (modify (\<lambda>s. s\<lparr>oauth_accounts := oauth_accounts s @ [x]\<rparr>))) (\<lambda>_. is_account u)" for u x
  proof -
    have "(\<lambda>s. s\<lparr>oauth_accounts := oauth_accounts s @ [x]\<rparr>) = oauth_accounts_update (\<lambda>l. l @ [x])"
      by (rule ext) simp
    then show ?thesis using o by metis
  qed
  have found: "session_safe any (find_or_create_user env profile) is_account"
    unfolding find_or_create_user_def
  proof (rule session_safe_bind [where R = loaded])
    show "session_safe any (within (gets (av_by_email env (pf_email profile)))) loaded"
      by (rule session_safe_within, rule auth_safe_gets)
        (use assms in \<open>auto simp: loaded_def library_ok_def lookups_ok_def\<close>)
    show "session_safe (loaded x) (case x of Some user \<Rightarrow> ret user
       | None \<Rightarrow> create_random_password_user env (pf_email profile) (pf_full_name profile)) is_account" for x
      by (intro session_safe_option session_safe_ret
          session_safe_conseq [OF create_random_safe [where N = "\<lambda>_. True"]])
        (use assms in \<open>auto simp: library_ok_def\<close>)
  qed
  show "session_safe any (case linked of
         Some a \<Rightarrow> bind (within (gets (find_account_by_id (oa_user_id a)))) (\<lambda>owner. case owner of
             None \<Rightarrow> raise unauthorized
           | Some user \<Rightarrow> if \<not> ac_is_active user then raise unauthorized
               else then_do (within (modify (oauth_accounts_update (map (\<lambda>x. if same_oauth_account profile x
                      then update_oauth_account token x else x))))) (ret user))
       | None \<Rightarrow> bind (find_or_create_user env profile) (\<lambda>user.
           then_do (within (modify (\<lambda>s. s\<lparr>oauth_accounts := oauth_accounts s @ [new_oauth_account profile token (ac_id user)]\<rparr>)))
             (ret user))) is_account"
  proof (rule session_safe_option)
    show "session_safe any (bind (find_or_create_user env profile) (\<lambda>user.
           then_do (within (modify (\<lambda>s. s\<lparr>oauth_accounts := oauth_accounts s @ [new_oauth_account profile token (ac_id user)]\<rparr>)))
             (ret user))) is_account"
      by (rule session_safe_bind [OF found session_safe_then [OF o' session_safe_ret]])
    fix a
    show "session_safe any (bind (within (gets (find_account_by_id (oa_user_id a)))) (\<lambda>owner. case owner of
             None \<Rightarrow> raise unauthorized
           | Some user \<Rightarrow> if \<not> ac_is_active user then raise unauthorized
               else then_do (within (modify (oauth_accounts_update (map (\<lambda>x. if same_oauth_account profile x
                      then update_oauth_account token x else x))))) (ret user))) is_account"
    proof (rule session_safe_bind [where R = loaded])
      show "session_safe any (within (gets (find_account_by_id (oa_user_id a)))) loaded"
        by (rule session_safe_within, rule auth_safe_gets) (auto simp: loaded_def dest: find_account_member)
      show "session_safe (loaded owner) (case owner of None \<Rightarrow> raise unauthorized
           | Some user \<Rightarrow> if \<not> ac_is_active user then raise unauthorized
               else then_do (within (modify (oauth_accounts_update (map (\<lambda>x. if same_oauth_account profile x
                      then update_oauth_account token x else x))))) (ret user)) is_account" for owner
      proof (cases owner)
        case (Some u)
        have "loaded (Some u) = is_account u" by (rule ext) simp
        then show ?thesis
          by (simp only: option.case Some)
            (intro session_safe_if session_safe_raise session_safe_then [OF o session_safe_ret])
      qed (simp add: session_safe_raise)
    qed
  qed
  show "session_safe (is_account u) (then_do (within (modify (put_account (u\<lparr>ac_is_verified := True\<rparr>))))
      (bind (within (issue_token_pair env (u\<lparr>ac_is_verified := True\<rparr>)))
        (\<lambda>pair. ret (u\<lparr>ac_is_verified := True\<rparr>, pair)))) anything" for u
    by (rule session_safe_then [OF session_put session_issue]) (auto intro: account_current)
qed

lemma oauth_callback_safe: "library_ok env \<Longrightarrow> auth_safe any (oauth_callback env provider answer) anything"
  unfolding oauth_callback_def
  by (intro auth_safe_option auth_safe_raise) (auto intro!: auth_safe_bind [where R = anything] auth_safe_result
      auth_safe_session oauth_login_safe split: prod.split)

lemma me_routes_safe:
  "library_ok env \<Longrightarrow> auth_safe any (update_me_route env h payload) anything"
  "auth_safe any (delete_me_route env h) anything"
proof -
  show "auth_safe any (delete_me_route env h) anything"
    unfolding delete_me_route_def
    by (intro auth_safe_bind [OF active_user_safe(1)] auth_safe_modify) (simp add: delete_account_moves)
  assume lib: "library_ok env"
  have u: "auth_safe (is_account user) (av_update env user payload) anything" for user
  proof (rule auth_safeI)
    fix s r s' assume s: "auth_ok s" "is_account user s" and "av_update env user payload s = (r, s')"
    then have "case r of Inl e \<Rightarrow> s' = s
      | Inr u \<Rightarrow> ac_id u = ac_id user \<and> ac_token_version u = ac_token_version user \<and> s' = put_account u s"
      using lib unfolding library_ok_def update_ok_def by blast
    then show "auth_ok s' \<and> auth_le s s' \<and> (case r of Inl _ \<Rightarrow> True | Inr x \<Rightarrow> True)"
      using s put_account_moves account_current [of _ user s] by (auto split: sum.splits)
  qed
  have "auth_safe (is_account user) (update_me env user payload) anything" for user
    unfolding update_me_def Let_def
  proof (rule auth_safe_bind [where R = "\<lambda>_. is_account user"], rule auth_safe_gets, assumption,
      intro auth_safe_if auth_safe_raise)
    show "auth_safe (is_account user) (on_error (av_update env user payload)
        (\<lambda>e. if e = user_already_exists then raise (bad_request ''email_exists'')
             else if e = invalid_password then raise (bad_request ''invalid_password'') else raise e) ret) anything"
      by (rule auth_safe_on_error [OF u]) (auto intro!: auth_safe_if auth_safe_raise auth_safe_ret)
  qed
  then show "auth_safe any (update_me_route env h payload) anything"
    unfolding update_me_route_def by (rule auth_safe_bind [OF active_user_safe(1)])
qed

end
