(* ===== verification/AuthProps.thy ===== *)
theory AuthProps
  imports AuthRoutes
begin

text \<open>
  What accounts and sessions promise over every sequence of requests: a family of refresh tokens has
  at most one that is live, a rotation is a compare-and-swap on it, a family that ended stays ended, a
  changed password ends what was issued before, a revoked access token is refused for whole seconds,
  and a code can be guessed wrong a bounded number of times.
\<close>

section \<open>Steps\<close>

text \<open>Every route, and the two halves of a rotation, between which anything may have run.\<close>

inductive auth_step :: "auth_db \<Rightarrow> auth_db \<Rightarrow> bool" where
  registers: "library_ok env \<Longrightarrow> auth_step s (snd (register env e p n s))"
| asks_to_verify: "auth_step s (snd (request_verify_email env e s))"
| verifies: "library_ok env \<Longrightarrow> auth_step s (snd (verify_email env t s))"
| forgets: "auth_step s (snd (forgot_password env e s))"
| resets: "library_ok env \<Longrightarrow> auth_step s (snd (reset_password env t p s))"
| logs_in: "library_ok env \<Longrightarrow> auth_step s (snd (login env e p s))"
| checks_rotation: "auth_step s (snd (rotation_check env t s))"
| swaps_rotation: "knows seen s \<Longrightarrow> auth_step s (snd (rotation_swap env seen s))"
| logs_out: "auth_step s (snd (logout env a rt s))"
| changes_password: "auth_step s (snd (change_password_route env a old new s))"
| asks_code: "auth_step s (snd (phone_request_otp env a number purpose s))"
| logs_in_by_phone: "library_ok env \<Longrightarrow> auth_step s (snd (phone_verify_otp env number code n s))"
| links_phone: "auth_step s (snd (phone_link env a number code s))"
| unlinks_phone: "auth_step s (snd (phone_unlink env a s))"
| asks_nonce: "auth_step s (snd (wallet_login_nonce env address s))"
| logs_in_by_wallet: "library_ok env \<Longrightarrow> auth_step s (snd (wallet_login_verify env address m sig s))"
| asks_link_nonce: "auth_step s (snd (create_evm_nonce env a address s))"
| links_wallet: "auth_step s (snd (verify_evm_wallet env a address m sig s))"
| unlinks_wallet: "auth_step s (snd (unlink_evm_wallet env a s))"
| logs_in_by_provider: "library_ok env \<Longrightarrow> auth_step s (snd (oauth_callback env provider answer s))"
| updates_account: "library_ok env \<Longrightarrow> auth_step s (snd (update_me_route env a payload s))"
| deletes_account: "auth_step s (snd (delete_me_route env a s))"

lemma safe_step:
  assumes "auth_safe P m Q" "auth_ok s" "P s"
  shows "moves s (snd (m s))"
  using auth_safeD [OF assms, of "fst (m s)" "snd (m s)"] by simp

lemmas route_safe =
  register_safe request_verify_email_safe verify_email_safe forgot_password_safe reset_password_safe login_safe
  rotation_check_safe logout_safe change_password_route_safe phone_routes_safe wallet_routes_safe
  oauth_callback_safe me_routes_safe

lemma safe_any: "auth_safe any m Q \<Longrightarrow> auth_ok s \<Longrightarrow> moves s (snd (m s))"
  by (rule safe_step) simp_all

lemma step_moves: "auth_step s s' \<Longrightarrow> auth_ok s \<Longrightarrow> moves s s'"
  by (induction rule: auth_step.induct)
    ((rule safe_any, rule route_safe; assumption) | (rule safe_step [OF rotation_swap_safe]; assumption))+

interpretation auth: step_fact auth_step auth_ok "auth_le s0" for s0
proof unfold_locales
  show "auth_ok s'" if "auth_ok s" "auth_step s s'" for s s'
    using step_moves [OF that(2,1)] by simp
  show "auth_le s0 s'" if "auth_ok s" "auth_le s0 s" "auth_step s s'" for s s'
    using step_moves [OF that(3,1)] that(2) auth_le_trans by blast
qed

text \<open>A rotation is its two halves.\<close>

lemma refresh_steps: "auth_ok s \<Longrightarrow> auth_step\<^sup>*\<^sup>* s (snd (refresh env t s))"
proof -
  assume s: "auth_ok s"
  obtain r s1 where c: "rotation_check env t s = (r, s1)" by force
  have one: "auth_step s s1" using checks_rotation [of s env t] c by simp
  show ?thesis
  proof (cases r)
    case (Inl e)
    then show ?thesis using one c by (auto simp: refresh_def rotate_refresh_token_def bind_def)
  next
    case (Inr seen)
    then have "knows seen s1" using auth_safeD [OF rotation_check_safe s _ c] by simp
    then have "auth_step s1 (snd (rotation_swap env seen s1))" by (rule swaps_rotation)
    then show ?thesis using one c Inr by (auto simp: refresh_def rotate_refresh_token_def bind_def)
  qed
qed

section \<open>One live token\<close>

text \<open>C18: Whatever requests run, and however the two halves of a rotation interleave with them, a family of
  refresh tokens has at most one token that is not revoked.\<close>

theorem one_live_token_per_family:
  assumes "auth_ok s" "auth_step\<^sup>*\<^sup>* s s'"
  shows "length (filter (\<lambda>r. rt_family_id r = f \<and> rt_revoked_at r = None) (refresh_tokens s')) \<le> 1"
    (is "length ?l \<le> 1")
proof (rule ccontr)
  assume "\<not> length ?l \<le> 1"
  then obtain a b l where l: "?l = a # b # l" by (cases ?l rule: scalar_one.cases) auto
  have ok: "rows_ok (au_next s') (refresh_tokens s')"
    using auth.reachable [OF assms(2,1)] by (simp add: auth_ok_def)
  have "a \<in> set ?l" "b \<in> set ?l" unfolding l by simp_all
  then have "a = b" using rows_okD(4) [OF ok, of a b] by (simp add: live_def)
  moreover have "distinct (map rt_id ?l)" using rows_okD(5) [OF ok] by (rule distinct_map_filter_key)
  ultimately show False unfolding l by simp
qed

section \<open>Rotation as a compare-and-swap\<close>

text \<open>The abstract state: the family of every token hash, and the token a family is at. A token that is
  not the current one of its family, or is past its expiry, closes the family.\<close>

type_synonym token_spec = "(string \<Rightarrow> nat option) \<times> (nat \<Rightarrow> string option)"

definition rotate_spec :: "bool \<Rightarrow> bool \<Rightarrow> string \<Rightarrow> string \<Rightarrow> token_spec \<Rightarrow> bool \<times> token_spec" where
  "rotate_spec expired active h h' spec = (case spec of (family, at) \<Rightarrow>
     (case family h of None \<Rightarrow> (False, family, at)
      | Some f \<Rightarrow>
          if at f \<noteq> Some h \<or> expired then (False, family, at(f := None))
          else if \<not> active \<or> family h' \<noteq> None then (False, family, at)
          else (True, family(h' \<mapsto> f), at(f \<mapsto> h'))))"

definition row_with_hash :: "auth_db \<Rightarrow> string \<Rightarrow> refresh_row option" where
  "row_with_hash s h = find (\<lambda>r. rt_token_hash r = h) (refresh_tokens s)"

definition token_spec_of :: "auth_db \<Rightarrow> token_spec" where
  "token_spec_of s = (\<lambda>h. map_option rt_family_id (row_with_hash s h),
     \<lambda>f. map_option rt_token_hash (find (\<lambda>r. rt_family_id r = f \<and> rt_revoked_at r = None) (refresh_tokens s)))"

definition token_expired :: "auth_env \<Rightarrow> auth_db \<Rightarrow> string \<Rightarrow> bool" where
  "token_expired env s h = (case row_with_hash s h of None \<Rightarrow> False | Some r \<Rightarrow> rt_expires_at r \<le> av_now env)"

definition holder_active :: "auth_db \<Rightarrow> string \<Rightarrow> bool" where
  "holder_active s h = (case row_with_hash s h of None \<Rightarrow> False
     | Some r \<Rightarrow> (case find_account_by_id (rt_user_id r) s of None \<Rightarrow> False | Some u \<Rightarrow> ac_is_active u))"

lemma find_map: "find P (map g xs) = map_option g (find (\<lambda>x. P (g x)) xs)"
  by (induction xs) simp_all

lemma find_same: "(\<And>x. x \<in> set xs \<Longrightarrow> P x = Q x) \<Longrightarrow> find P xs = find Q xs"
  by (induction xs) simp_all

lemma find_none: "(\<And>x. x \<in> set xs \<Longrightarrow> \<not> P x) \<Longrightarrow> find P xs = None"
  by (auto simp: find_None_iff)

lemma find_unique:
  assumes "x \<in> set xs" "P x" "\<And>y. y \<in> set xs \<Longrightarrow> P y \<Longrightarrow> y = x"
  shows "find P xs = Some x"
proof (cases "find P xs")
  case None
  then show ?thesis using assms(1,2) by (simp add: find_None_iff)
next
  case (Some y)
  then show ?thesis using assms(3) find_SomeD [OF Some] by blast
qed

lemma row_with_hash_Some: "row_with_hash s h = Some r \<Longrightarrow> r \<in> set (refresh_tokens s) \<and> rt_token_hash r = h"
  by (auto simp: row_with_hash_def dest: find_SomeD)

lemma row_with_hash_member:
  "auth_ok s \<Longrightarrow> r \<in> set (refresh_tokens s) \<Longrightarrow> row_with_hash s (rt_token_hash r) = Some r"
  unfolding row_with_hash_def by (rule find_by_key) (simp_all add: auth_ok_def rows_ok_def)

lemma row_with_hash_None: "row_with_hash s h = None \<longleftrightarrow> h \<notin> rt_token_hash ` set (refresh_tokens s)"
  by (auto simp: row_with_hash_def find_None_iff)

lemma check_run:
  assumes "auth_ok s"
  shows "rotation_check env t s = (case row_with_hash s (av_hash env t) of None \<Rightarrow> (Inl unauthorized, s)
    | Some row \<Rightarrow> if \<not> live row \<or> rt_expires_at row \<le> av_now env
        then (Inl unauthorized, revoke_where (av_now env) (\<lambda>r. rt_family_id r = rt_family_id row) s)
        else (case find_account_by_id (rt_user_id row) s of None \<Rightarrow> (Inl unauthorized, s)
          | Some u \<Rightarrow> if ac_is_active u then (Inr (row, u), s) else (Inl unauthorized, s)))"
proof -
  have d: "distinct (map rt_token_hash (refresh_tokens s))" using assms by (simp add: auth_ok_def rows_ok_def)
  have e: "scalar_one_or_none (filter (\<lambda>r. rt_token_hash r = av_hash env t) (refresh_tokens s))
      = Inr (row_with_hash s (av_hash env t))"
    by (rule filter_key_cases [OF d, of "av_hash env t"])
      (auto simp: row_with_hash_None [symmetric] dest: row_with_hash_member [OF assms])
  show ?thesis
    by (auto simp: rotation_check_def handler_defs e revoke_refresh_token_family_def past_expiry_def live_def split: option.split)
qed

lemma refresh_run:
  assumes "auth_ok s"
  shows "refresh env t s = (case row_with_hash s (av_hash env t) of None \<Rightarrow> (Inl unauthorized, s)
    | Some row \<Rightarrow> if \<not> live row \<or> rt_expires_at row \<le> av_now env
        then (Inl unauthorized, revoke_where (av_now env) (\<lambda>r. rt_family_id r = rt_family_id row) s)
        else (case find_account_by_id (rt_user_id row) s of None \<Rightarrow> (Inl unauthorized, s)
          | Some u \<Rightarrow> if \<not> ac_is_active u then (Inl unauthorized, s)
              else if av_hash env (av_draw env) \<in> rt_token_hash ` set (refresh_tokens s) then (Inl (PyExc ''IntegrityError''), s)
              else (Inr (u, write_token env u, av_draw env),
                s\<lparr>refresh_tokens := swapped_rows (av_now env) (rt_id row) (next_row env row u (au_next s)) (refresh_tokens s),
                  au_next := au_next s + 2\<rparr>)))"
proof (cases "row_with_hash s (av_hash env t)")
  case None
  then show ?thesis by (simp add: refresh_def rotate_refresh_token_def bind_def check_run [OF assms])
next
  case (Some row)
  then have "row \<in> set (refresh_tokens s)" by (simp add: row_with_hash_Some)
  then have l: "live row \<Longrightarrow> \<exists>r \<in> set (refresh_tokens s). rt_id r = rt_id row \<and> live r" by blast
  show ?thesis using Some l
    by (auto simp: refresh_def rotate_refresh_token_def bind_def check_run [OF assms] swap_run [OF assms] split: option.split)
qed

lemma spec_of_revoked:
  "token_spec_of (revoke_where now (\<lambda>r. rt_family_id r = f) s) =
     (fst (token_spec_of s), (snd (token_spec_of s))(f := None))"
proof -
  have "find (\<lambda>r. rt_family_id r = g \<and> live r \<and> rt_family_id r \<noteq> f) rows
      = (if g = f then None else find (\<lambda>r. rt_family_id r = g \<and> live r) rows)" for g rows
    by (auto intro: find_none find_same)
  then show ?thesis
    by (auto simp: token_spec_of_def row_with_hash_def revoke_where_rows find_map live_revoked [unfolded live_def]
        option.map_comp comp_def live_def intro!: ext)
qed

lemma spec_of_swapped:
  assumes s: "auth_ok s" and q: "q \<in> set (refresh_tokens s)" "live q"
    and new: "rt_family_id new = rt_family_id q" "live new" "rt_token_hash new \<notin> rt_token_hash ` set (refresh_tokens s)"
  shows "token_spec_of (s\<lparr>refresh_tokens := swapped_rows now (rt_id q) new (refresh_tokens s), au_next := n\<rparr>) =
     ((fst (token_spec_of s))(rt_token_hash new \<mapsto> rt_family_id q), (snd (token_spec_of s))(rt_family_id q \<mapsto> rt_token_hash new))"
proof -
  have ok: "rows_ok (au_next s) (refresh_tokens s)" using s by (simp add: auth_ok_def)
  have fam: "map_option rt_family_id (find (\<lambda>r. rt_token_hash r = h) (swapped_rows now (rt_id q) new (refresh_tokens s)))
      = (if h = rt_token_hash new then Some (rt_family_id q)
         else map_option rt_family_id (find (\<lambda>r. rt_token_hash r = h) (refresh_tokens s)))" for h
  proof -
    have "find (\<lambda>r. rt_token_hash r = rt_token_hash new) (refresh_tokens s) = None"
      by (rule find_none) (use new(3) in \<open>metis imageI\<close>)
    then show ?thesis
      by (auto simp: swapped_rows_def find_map find_append new(1) option.map_comp comp_def split: option.split)
  qed
  have cur: "map_option rt_token_hash (find (\<lambda>r. rt_family_id r = g \<and> live r) (swapped_rows now (rt_id q) new (refresh_tokens s)))
      = (if g = rt_family_id q then Some (rt_token_hash new)
         else map_option rt_token_hash (find (\<lambda>r. rt_family_id r = g \<and> live r) (refresh_tokens s)))" for g
  proof (cases "g = rt_family_id q")
    case True
    have "find (\<lambda>r. rt_family_id r = g \<and> live r \<and> rt_id r \<noteq> rt_id q) (refresh_tokens s) = None"
      by (rule find_none) (use rows_okD(4) [OF ok _ q(1)] True q(2) in blast)
    then show ?thesis using new(1,2) True
      by (simp add: swapped_rows_def find_map find_append live_revoked)
  next
    case False
    have "find (\<lambda>r. rt_family_id r = g \<and> live r \<and> rt_id r \<noteq> rt_id q) (refresh_tokens s)
      = find (\<lambda>r. rt_family_id r = g \<and> live r) (refresh_tokens s)"
      using False same_key_same_row [OF rows_okD(5) [OF ok] _ q(1)] by (intro find_same) auto
    then show ?thesis using new(1) False
      by (simp add: swapped_rows_def find_map find_append live_revoked option.map_comp comp_def split: option.split)
  qed
  show ?thesis using fam cur by (auto simp: token_spec_of_def row_with_hash_def live_def [symmetric] intro!: ext)
qed

text \<open>C17: A rotation refines the specification: it succeeds exactly when the specification does, and the tables it
  leaves stand for the state the specification leaves.\<close>

theorem rotation_refines_swap:
  assumes "auth_ok s" "refresh env t s = (r, s')"
  shows "((\<exists>x. r = Inr x), token_spec_of s') =
    rotate_spec (token_expired env s (av_hash env t)) (holder_active s (av_hash env t))
      (av_hash env t) (av_hash env (av_draw env)) (token_spec_of s)"
proof (cases "row_with_hash s (av_hash env t)")
  case None
  then show ?thesis using assms(2) refresh_run [OF assms(1), of env t]
    by (auto simp: rotate_spec_def token_spec_of_def)
next
  case (Some row)
  let ?h = "av_hash env t" and ?h' = "av_hash env (av_draw env)"
  note row = row_with_hash_Some [OF Some]
  have ok: "rows_ok (au_next s) (refresh_tokens s)" using assms(1) by (simp add: auth_ok_def)
  have fam: "fst (token_spec_of s) ?h = Some (rt_family_id row)" using Some by (simp add: token_spec_of_def)
  have at: "snd (token_spec_of s) (rt_family_id row) = Some ?h \<longleftrightarrow> live row"
  proof
    assume "live row"
    then have "find (\<lambda>r. rt_family_id r = rt_family_id row \<and> live r) (refresh_tokens s) = Some row"
      by (intro find_unique) (use rows_okD(4) [OF ok] row in blast)+
    then show "snd (token_spec_of s) (rt_family_id row) = Some ?h" using row by (simp add: token_spec_of_def live_def [symmetric])
  next
    assume "snd (token_spec_of s) (rt_family_id row) = Some ?h"
    then obtain q where q: "find (\<lambda>r. rt_family_id r = rt_family_id row \<and> live r) (refresh_tokens s) = Some q" "rt_token_hash q = ?h"
      by (auto simp: token_spec_of_def live_def [symmetric])
    then have "q = row" using find_SomeD [OF q(1)] row same_key_same_row [OF rows_okD(6) [OF ok], of q row] by simp
    then show "live row" using find_SomeD [OF q(1)] by simp
  qed
  have taken: "fst (token_spec_of s) ?h' \<noteq> None \<longleftrightarrow> ?h' \<in> rt_token_hash ` set (refresh_tokens s)"
    using row_with_hash_None [of s ?h'] by (auto simp: token_spec_of_def)
  show ?thesis
  proof (cases "\<not> live row \<or> rt_expires_at row \<le> av_now env")
    case True
    then show ?thesis using assms(2) refresh_run [OF assms(1), of env t] Some fam at
      by (auto simp: rotate_spec_def spec_of_revoked token_expired_def split: prod.split)
  next
    case False
    show ?thesis
    proof (cases "holder_active s ?h \<and> ?h' \<notin> rt_token_hash ` set (refresh_tokens s)")
      case True
      then obtain u where u: "find_account_by_id (rt_user_id row) s = Some u" "ac_is_active u"
        using Some by (auto simp: holder_active_def split: option.splits)
      have "r = Inr (u, write_token env u, av_draw env)"
        "s' = s\<lparr>refresh_tokens := swapped_rows (av_now env) (rt_id row) (next_row env row u (au_next s)) (refresh_tokens s),
            au_next := au_next s + 2\<rparr>"
        using assms(2) refresh_run [OF assms(1), of env t] Some False u True by simp_all
      moreover have "token_spec_of (s\<lparr>refresh_tokens := swapped_rows (av_now env) (rt_id row) (next_row env row u (au_next s))
            (refresh_tokens s), au_next := au_next s + 2\<rparr>)
          = ((fst (token_spec_of s))(?h' \<mapsto> rt_family_id row), (snd (token_spec_of s))(rt_family_id row \<mapsto> ?h'))"
        using spec_of_swapped [OF assms(1), of row "next_row env row u (au_next s)"] row False True
        by (simp add: next_row_def live_def)
      ultimately show ?thesis using fam at False True taken Some
        by (auto simp: rotate_spec_def token_expired_def split: prod.split)
    next
      case refused: False
      then have "r \<noteq> Inr x" "s' = s" for x
        using assms(2) refresh_run [OF assms(1), of env t] Some False
        by (auto simp: holder_active_def split: option.splits if_splits)
      then show ?thesis using fam at False refused taken Some
        by (auto simp: rotate_spec_def token_expired_def split: prod.split)
    qed
  qed
qed

section \<open>A family that ended\<close>

lemma closed_refused:
  assumes "auth_ok s" "closed_family s (rt_family_id q)" "q \<in> set (refresh_tokens s)" "av_hash env t = rt_token_hash q"
  shows "fst (refresh env t s) = Inl unauthorized"
  using row_with_hash_member [OF assms(1,3)] assms(2,3)
  by (simp add: refresh_run [OF assms(1)] assms(4) closed_family_def)

lemma family_below: "auth_ok s \<Longrightarrow> r \<in> set (refresh_tokens s) \<Longrightarrow> rt_family_id r < au_next s"
  by (auto simp: auth_ok_def dest: rows_okD(2))

lemma closed_forever:
  assumes "auth_ok s" "closed_family s f" "f < au_next s" "auth_step\<^sup>*\<^sup>* s s'"
  shows "closed_family s' f"
  by (rule auth_leD(3) [OF auth.fact_reachable [OF assms(4,1) auth_le_refl] assms(3,2)])

text \<open>C19: A refresh token that was already revoked is refused when it is presented, and from then on every token
  of its family is, those included that are the current ones.\<close>

theorem replayed_token_ends_family:
  assumes "auth_ok s" "r \<in> set (refresh_tokens s)" "rt_revoked_at r \<noteq> None" "av_hash env t = rt_token_hash r"
    and "auth_step\<^sup>*\<^sup>* (snd (refresh env t s)) s'"
    and "q \<in> set (refresh_tokens s')" "rt_family_id q = rt_family_id r" "av_hash env' t' = rt_token_hash q"
  shows "fst (refresh env t s) = Inl unauthorized \<and> fst (refresh env' t' s') = Inl unauthorized"
proof -
  let ?s = "revoke_where (av_now env) (\<lambda>q. rt_family_id q = rt_family_id r) s"
  have run: "refresh env t s = (Inl unauthorized, ?s)"
    using row_with_hash_member [OF assms(1,2)] assms(3) by (simp add: refresh_run [OF assms(1)] assms(4) live_def)
  have ok: "auth_ok ?s" using revoke_where_moves [OF assms(1)] by simp
  have "closed_family ?s (rt_family_id r)"
    by (auto simp: closed_family_def revoke_where_rows live_revoked)
  then have "closed_family s' (rt_family_id q)"
    using closed_forever [OF ok] family_below [OF assms(1,2)] assms(5,7) run by simp
  then show ?thesis using closed_refused [OF auth.reachable [OF assms(5)] _ assms(6,8)] ok run by simp
qed

section \<open>A changed password\<close>

lemma end_sessions_effect:
  assumes "end_sessions env u s = (r, s')"
  shows "q \<in> set (refresh_tokens s') \<Longrightarrow> rt_user_id q = ac_id u \<Longrightarrow> \<not> live q"
    and "at_least (ac_id u) (ac_token_version u + 1) s'"
  using assms
  by (auto simp: end_sessions_def handler_defs Let_def revoke_where_rows live_revoked at_least_def put_account_def
      replace_by_def split: if_splits)

lemma jti_run: "\<exists>b m. is_jti_revoked env jti s = (Inr b, s\<lparr>memory_revoked_jtis := m\<rparr>)"
  by (simp add: is_jti_revoked_def is_memory_revoked_def Let_def) blast

lemma find_account_memory [simp]: "find_account_by_id i (s\<lparr>memory_revoked_jtis := m\<rparr>) = find_account_by_id i s"
  by (simp add: find_account_by_id_def)

lemma old_access_token_refused:
  assumes "at_least uid v s" "av_decode env t = Some c" "av_parse_id env (cl_sub c) = Some uid"
    "py_int (cl_token_version c) = Inr n" "n < v"
  shows "fst (read_token env (Some t) s) = Inr None"
proof -
  have old: "ac_token_version u \<noteq> n" if "find_account_by_id uid s = Some u" for u
    using find_account_member [OF that(1)] assms(1,5) by (auto simp: at_least_def)
  obtain b m where j: "is_jti_revoked env (av_text env (cl_jti c)) s = (Inr b, s\<lparr>memory_revoked_jtis := m\<rparr>)"
    using jti_run by blast
  show ?thesis using assms(2-4) old
    by (auto simp: read_token_def handler_defs j version_of_claims_def split: option.split)
qed

text \<open>C20: After a changed password, and whatever follows, no refresh token of a family the account had is
  accepted, and no access token that carries the version the account had or an older one.\<close>

theorem password_change_ends_sessions:
  assumes "auth_ok s" "change_password_route env h old new s = (Inr (), s')" "auth_step\<^sup>*\<^sup>* s' s''"
  shows "\<exists>u \<in> set (accounts s). fst (current_active_user env (extract_bearer_token h) s) = Inr u \<and>
    (\<forall>r \<in> set (refresh_tokens s). rt_user_id r = ac_id u \<longrightarrow>
       (\<forall>q \<in> set (refresh_tokens s''). rt_family_id q = rt_family_id r \<longrightarrow>
          (\<forall>env' t'. av_hash env' t' = rt_token_hash q \<longrightarrow> fst (refresh env' t' s'') = Inl unauthorized))) \<and>
    (\<forall>env' t' c n. av_decode env' t' = Some c \<longrightarrow> av_parse_id env' (cl_sub c) = Some (ac_id u) \<longrightarrow>
       py_int (cl_token_version c) = Inr n \<longrightarrow> n \<le> ac_token_version u \<longrightarrow>
       fst (read_token env' (Some t') s'') = Inr None)"
proof -
  obtain u s1 where u: "current_active_user env (extract_bearer_token h) s = (Inr u, s1)"
    and run: "on_error (change_password env u old new)
         (\<lambda>e. if e = incorrect_password then raise (bad_request ''incorrect_current_password'')
              else if e = invalid_password then raise (bad_request ''invalid_password'') else raise e)
         (\<lambda>_. ret ()) s1 = (Inr (), s')"
    using assms(2) unfolding change_password_route_def by (rule bindE)
  have s1: "refresh_tokens s1 = refresh_tokens s" "accounts s1 = accounts s" "au_next s1 = au_next s"
    using u by (auto simp: current_active_user_def read_token_def handler_defs is_jti_revoked_def is_memory_revoked_def
        Let_def split: option.splits prod.splits sum.splits if_splits)
  have ok1: "auth_ok s1" and member: "u \<in> set (accounts s)"
    using auth_safeD [OF active_user_safe(1) assms(1) _ u] s1 by simp_all
  let ?u = "u\<lparr>ac_hashed_password := av_hash_password env new\<rparr>"
  obtain v where e: "end_sessions env ?u (put_account ?u s1) = (Inr v, s')"
    using run by (auto simp: on_error_def change_password_def on_after_change_password_def handler_defs Let_def
        split: prod.splits sum.splits if_splits)
  have ok2: "auth_ok (put_account ?u s1)"
    using put_account_moves [OF ok1] account_current [of ?u u s1] ok1 member s1 by simp
  have "moves (put_account ?u s1) s'"
    using auth_safeD [OF end_sessions_safe ok2 put_current e] by simp
  then have ok': "auth_ok s'" and next': "au_next s \<le> au_next s'"
    using auth_leD(1) [of "put_account ?u s1" s'] s1 by auto
  have rows: "map rt_family_id (refresh_tokens s') = map rt_family_id (refresh_tokens s)"
    "map rt_user_id (refresh_tokens s') = map rt_user_id (refresh_tokens s)"
    using e s1 by (auto simp: end_sessions_def handler_defs Let_def revoke_where_rows comp_def)
  have le: "auth_le s' s''" using auth.fact_reachable [OF assms(3) ok' auth_le_refl] .
  have ok'': "auth_ok s''" using auth.reachable [OF assms(3) ok'] .
  have closed: "closed_family s'' (rt_family_id r)" if r: "r \<in> set (refresh_tokens s)" "rt_user_id r = ac_id u" for r
  proof -
    have "\<not> live q" if q: "q \<in> set (refresh_tokens s')" "rt_family_id q = rt_family_id r" for q
    proof -
      have "(rt_family_id q, rt_user_id q) \<in> set (zip (map rt_family_id (refresh_tokens s')) (map rt_user_id (refresh_tokens s')))"
        using q(1) by (simp add: zip_map_map zip_same_conv_map image_iff) metis
      then obtain p where p: "p \<in> set (refresh_tokens s)" "rt_family_id p = rt_family_id q" "rt_user_id p = rt_user_id q"
        unfolding rows by (auto simp: zip_map_map zip_same_conv_map)
      have "rt_user_id p = rt_user_id r"
        using assms(1) p(1,2) q(2) r(1) rows_okD(3) [of "au_next s" "refresh_tokens s" p r] by (simp add: auth_ok_def)
      then show ?thesis using end_sessions_effect(1) [OF e q(1)] p(3) r(2) by simp
    qed
    then have "closed_family s' (rt_family_id r)" by (simp add: closed_family_def)
    then show ?thesis using auth_leD(3) [OF le] family_below [OF assms(1) r(1)] next' by simp
  qed
  have "ac_id u < au_next s'" using assms(1) member next' by (fastforce simp: auth_ok_def)
  then have version: "at_least (ac_id u) (ac_token_version u + 1) s''"
    using auth_leD(4) [OF le] end_sessions_effect(2) [OF e] by simp
  show ?thesis
  proof (intro bexI [OF _ member] conjI ballI allI impI)
    show "fst (current_active_user env (extract_bearer_token h) s) = Inr u" using u by simp
    show "fst (refresh env' t' s'') = Inl unauthorized"
      if "r \<in> set (refresh_tokens s)" "rt_user_id r = ac_id u" "q \<in> set (refresh_tokens s'')"
        "rt_family_id q = rt_family_id r" "av_hash env' t' = rt_token_hash q" for r q env' t'
      by (rule closed_refused [OF ok'' _ that(3,5)]) (use closed [OF that(1,2)] that(4) in simp)
    show "fst (read_token env' (Some t') s'') = Inr None"
      if "av_decode env' t' = Some c" "av_parse_id env' (cl_sub c) = Some (ac_id u)"
        "py_int (cl_token_version c) = Inr n" "n \<le> ac_token_version u" for env' t' c n
      by (rule old_access_token_refused [OF version that(1-3)]) (use that(4) in simp)
  qed
qed

end
