(* ===== verification/LoginProps.thy ===== *)
theory LoginProps
  imports AuthProps
begin

text \<open>
  What single logins promise, and where they fall short: for how long a revoked access token is refused,
  how often the code of a phone can be guessed wrong, whose account the signature of a wallet opens, and
  what an account keeps that is taken over by a provider.
\<close>

section \<open>Revoked access tokens\<close>

lemma ttl_covers: "unix_epoch + seconds e - seconds 1 < av_now env + seconds (revocation_ttl env e)"
proof -
  let ?d = "seconds e - (av_now env - unix_epoch)"
  have "?d - 1000000 < max 1 (trunc_div ?d 1000000) * 1000000"
  proof (cases "?d < 0")
    case True
    have "1 \<le> max 1 (trunc_div ?d 1000000)" by simp
    then show ?thesis using True by linarith
  next
    case False
    have "?d = 1000000 * (?d div 1000000) + ?d mod 1000000" "?d mod 1000000 < 1000000" by simp_all
    moreover have "?d div 1000000 \<le> max 1 (trunc_div ?d 1000000)" using False by (simp add: trunc_div_def)
    ultimately show ?thesis by linarith
  qed
  then show ?thesis by (simp add: revocation_ttl_def seconds_def)
qed

lemma memory_covers:
  "seconds e - seconds 1 \<le> seconds ((av_now env - unix_epoch) div 1000000 + revocation_ttl env e)"
proof -
  let ?n = "av_now env - unix_epoch"
  have n: "?n = 1000000 * (?n div 1000000) + ?n mod 1000000" "0 \<le> ?n mod 1000000" "?n mod 1000000 < 1000000" by simp_all
  have "e - 1 \<le> ?n div 1000000 + revocation_ttl env e"
  proof (cases "seconds e - ?n < 0")
    case True
    then have "1000000 * e < 1000000 * (?n div 1000000) + 1000000" using n unfolding seconds_def by linarith
    then have "e \<le> ?n div 1000000" by linarith
    then show ?thesis by (simp add: revocation_ttl_def)
  next
    case False
    let ?d = "seconds e - ?n"
    have "?d = 1000000 * (?d div 1000000) + ?d mod 1000000" "?d mod 1000000 < 1000000" by simp_all
    then have "1000000 * e < 1000000 * (?n div 1000000) + 1000000 * (?d div 1000000) + 2000000"
      using n unfolding seconds_def by linarith
    then have "e - 1 \<le> ?n div 1000000 + ?d div 1000000" by linarith
    then show ?thesis using False by (simp add: revocation_ttl_def trunc_div_def)
  qed
  then show ?thesis by (simp add: seconds_def)
qed

lemma map_of_filter_some: "map_of xs k = Some v \<Longrightarrow> P v \<Longrightarrow> map_of (filter (\<lambda>x. P (snd x)) xs) k = Some v"
  by (induction xs) (auto split: if_splits)

lemma map_of_filter_none: "map_of xs k = None \<Longrightarrow> map_of (filter P xs) k = None"
  by (simp add: map_of_eq_None_iff) blast

lemma revoked_read:
  assumes "av_decode env t = Some c" "fst (is_jti_revoked env (av_text env (cl_jti c)) s) = Inr True"
  shows "fst (read_token env (Some t) s) = Inr None"
proof -
  obtain x where "is_jti_revoked env (av_text env (cl_jti c)) s = (Inr True, x)" using assms(2) by (metis prod.collapse)
  then show ?thesis using assms(1) by (simp add: read_token_def handler_defs)
qed

lemma read_token_unrevoked:
  assumes "refresh_tokens s' = refresh_tokens s" "accounts s' = accounts s"
    and "fst (is_jti_revoked env (av_text env (cl_jti c)) s') = fst (is_jti_revoked env (av_text env (cl_jti c)) s)"
    and "av_decode env t = Some c"
  shows "fst (read_token env (Some t) s') = fst (read_token env (Some t) s)"
proof -
  obtain b m where j: "is_jti_revoked env (av_text env (cl_jti c)) s = (Inr b, s\<lparr>memory_revoked_jtis := m\<rparr>)"
    using jti_run by blast
  obtain b' m' where j': "is_jti_revoked env (av_text env (cl_jti c)) s' = (Inr b', s'\<lparr>memory_revoked_jtis := m'\<rparr>)"
    using jti_run by blast
  have "find_account_by_id i s' = find_account_by_id i s" for i using assms(2) by (simp add: find_account_by_id_def)
  then show ?thesis using assms(3,4)
    by (simp add: read_token_def bind_def gets_def ret_def of_result_def j j' split: option.split sum.split)
qed

text \<open>C21: How long a revoked access token is refused, in any later state \<open>s2\<close> in which the entries of the
  token are as its revocation left them. (1) Revoked with Redis up, it is refused until one second before it
  expires, by every read with Redis up and by the reads without Redis that fail closed. (2) Revoked without Redis
  where a revocation fails closed, the revocation raises. (3) Revoked without Redis where it does not, the process
  that revoked it refuses it until just before one second before it expires. (4) Revoked with Redis up, it is read
  as if it had not been revoked by the reads without Redis that fail open, and from the end of the whole seconds
  that the revocation lasts, which may lie before the expiry.\<close>

theorem revoked_access_token_refused:
  assumes token: "av_decode env t = Some c" "json_true (cl_jti c)" "cl_exp c = JInt e" "e \<noteq> 0"
    and run: "revoke_access_token env t s = (r, s')"
    and later: "av_decode env' t = Some c" "av_text env' = av_text env"
      "map_of (revoked_jtis s2) (av_text env (cl_jti c)) = map_of (revoked_jtis s') (av_text env (cl_jti c))"
      "map_of (memory_revoked_jtis s2) (av_text env (cl_jti c)) = map_of (memory_revoked_jtis s') (av_text env (cl_jti c))"
  shows "(av_redis_up env \<longrightarrow> r = Inr True \<and>
      ((av_redis_up env' \<or> fails_closed env') \<and> av_now env' + seconds 1 \<le> unix_epoch + seconds e \<longrightarrow>
         fst (read_token env' (Some t) s2) = Inr None)) \<and>
    (\<not> av_redis_up env \<and> fails_closed env \<longrightarrow> r = Inl redis_error) \<and>
    (\<not> av_redis_up env \<and> \<not> fails_closed env \<longrightarrow> r = Inr True \<and>
      (av_now env' + seconds 1 < unix_epoch + seconds e \<longrightarrow> fst (read_token env' (Some t) s2) = Inr None)) \<and>
    (av_redis_up env \<and> map_of (memory_revoked_jtis s) (av_text env (cl_jti c)) = None \<and>
       (if av_redis_up env' then av_now env + seconds (revocation_ttl env e) \<le> av_now env' else \<not> fails_closed env') \<longrightarrow>
       fst (read_token env' (Some t) s2) = fst (read_token env' (Some t) (s2\<lparr>revoked_jtis := []\<rparr>)))"
proof -
  let ?j = "av_text env (cl_jti c)" and ?until = "av_now env + seconds (revocation_ttl env e)"
  have run': "(case revoke_jti env ?j e s of (Inl x, t) \<Rightarrow> (Inl x, t) | (Inr _, t) \<Rightarrow> (Inr True, t)) = (r, s')"
    using token run by (auto simp: revoke_access_token_def handler_defs split: prod.splits sum.splits)
  have up: "r = Inr True" "map_of (revoked_jtis s2) ?j = Some ?until"
      "map_of (memory_revoked_jtis s2) ?j = map_of (memory_revoked_jtis s) ?j" if "av_redis_up env"
    using run' that later(3,4) by (auto simp: revoke_jti_def handler_defs Let_def)
  have read: "fst (read_token env' (Some t) s2) = Inr None" if "fst (is_jti_revoked env' ?j s2) = Inr True"
    using revoked_read [OF later(1)] that later(2) by simp
  show ?thesis
  proof (intro conjI impI)
    show "r = Inr True" if "av_redis_up env" by (rule up(1) [OF that])
    show "fst (read_token env' (Some t) s2) = Inr None"
      if "av_redis_up env" "(av_redis_up env' \<or> fails_closed env') \<and> av_now env' + seconds 1 \<le> unix_epoch + seconds e"
    proof (rule read)
      have "av_now env' < ?until" using ttl_covers [of e env] that(2) by simp
      then show "fst (is_jti_revoked env' ?j s2) = Inr True"
        using up(2) [OF that(1)] that(2) by (auto simp: is_jti_revoked_def is_memory_revoked_def Let_def)
    qed
    show "r = Inl redis_error" if "\<not> av_redis_up env \<and> fails_closed env"
      using run' that by (auto simp: revoke_jti_def handler_defs Let_def)
    show "r = Inr True" if "\<not> av_redis_up env \<and> \<not> fails_closed env"
      using run' that by (auto simp: revoke_jti_def handler_defs Let_def)
    show "fst (read_token env' (Some t) s2) = Inr None"
      if "\<not> av_redis_up env \<and> \<not> fails_closed env" "av_now env' + seconds 1 < unix_epoch + seconds e"
    proof (rule read)
      let ?u = "(av_now env - unix_epoch) div 1000000 + revocation_ttl env e"
      have "map_of (memory_revoked_jtis s2) ?j = Some ?u"
        using run' that(1) later(4) by (auto simp: revoke_jti_def handler_defs Let_def)
      moreover have "after_unix ?u (av_now env')" using memory_covers [of e env] that(2) by (simp add: after_unix_def)
      ultimately have "map_of (filter (\<lambda>x. after_unix (snd x) (av_now env')) (memory_revoked_jtis s2)) ?j = Some ?u"
        by (rule map_of_filter_some)
      then show "fst (is_jti_revoked env' ?j s2) = Inr True"
        using \<open>after_unix ?u (av_now env')\<close> by (simp add: is_jti_revoked_def is_memory_revoked_def Let_def)
    qed
    show "fst (read_token env' (Some t) s2) = fst (read_token env' (Some t) (s2\<lparr>revoked_jtis := []\<rparr>))"
      if "av_redis_up env \<and> map_of (memory_revoked_jtis s) ?j = None \<and>
        (if av_redis_up env' then ?until \<le> av_now env' else \<not> fails_closed env')"
    proof (rule read_token_unrevoked [OF _ _ _ later(1)])
      show "fst (is_jti_revoked env' (av_text env' (cl_jti c)) s2)
        = fst (is_jti_revoked env' (av_text env' (cl_jti c)) (s2\<lparr>revoked_jtis := []\<rparr>))"
        using that up(2) by (auto simp: later(2) is_jti_revoked_def is_memory_revoked_def Let_def)
    qed simp_all
  qed
qed

section \<open>A rotation in flight\<close>

lemma find_put_account:
  "find_account_by_id i (put_account x s)
     = (if i = ac_id x then map_option (\<lambda>_. x) (find_account_by_id i s) else find_account_by_id i s)"
proof -
  have "find (\<lambda>u. ac_id u = i) (replace_by ac_id x rows)
      = (if i = ac_id x then map_option (\<lambda>_. x) (find (\<lambda>u. ac_id u = i) rows) else find (\<lambda>u. ac_id u = i) rows)" for rows
    by (induction rows) (auto simp: replace_by_def)
  then show ?thesis by (simp add: find_account_by_id_def put_account_def)
qed

lemma changed_account_active:
  assumes s: "auth_ok s" and run: "change_password_route env h old new s = (Inr (), s')"
    and u: "find_account_by_id i s = Some u" "ac_is_active u"
  shows "\<exists>v. find_account_by_id i s' = Some v \<and> ac_is_active v"
proof -
  obtain w s1 where w: "current_active_user env (extract_bearer_token h) s = (Inr w, s1)"
    and run: "on_error (change_password env w old new)
         (\<lambda>e. if e = incorrect_password then raise (bad_request ''incorrect_current_password'')
              else if e = invalid_password then raise (bad_request ''invalid_password'') else raise e)
         (\<lambda>_. ret ()) s1 = (Inr (), s')"
    using run unfolding change_password_route_def by (rule bindE)
  have s1: "accounts s1 = accounts s" "ac_is_active w"
    using w by (auto simp: current_active_user_def read_token_def handler_defs is_jti_revoked_def is_memory_revoked_def
        Let_def split: option.splits prod.splits sum.splits if_splits)
  let ?w = "w\<lparr>ac_hashed_password := av_hash_password env new\<rparr>"
  obtain v where "end_sessions env ?w (put_account ?w s1) = (Inr v, s')"
    using run by (auto simp: on_error_def change_password_def on_after_change_password_def handler_defs Let_def
        split: prod.splits sum.splits if_splits)
  then have s': "s' = put_account (?w\<lparr>ac_token_version := ac_token_version w + 1\<rparr>)
      (revoke_where (av_now env) (\<lambda>r. rt_user_id r = ac_id w) (put_account ?w s1))"
    by (auto simp: end_sessions_def handler_defs Let_def)
  have r: "find_account_by_id j (revoke_where n f t) = find_account_by_id j t" for j n f t
    by (simp add: find_account_by_id_def revoke_where_def)
  have "find_account_by_id i s1 = Some u" using u(1) s1(1) by (simp add: find_account_by_id_def)
  then show ?thesis using u(2) s1(2) by (auto simp: s' find_put_account r)
qed

text \<open>When the password is changed after a rotation updated its row and before it commits, the new token of the
  rotation is none of those that the change revokes: it is accepted afterwards.\<close>

theorem inflight_rotation_survives:
  assumes s: "auth_ok s" and check: "rotation_check env raw s = (Inr (row, u), s')"
    and change: "change_password_route env1 h old new s = (Inr (), s1)"
    and writes: "rotation_writes env (row, u) s1 = (Inr (u', access, raw'), s2)"
    and later: "av_hash env2 raw' = av_hash env raw'"
      "av_now env2 < av_now env + seconds (refresh_token_lifetime_days (av_settings env) * 86400)"
  shows "\<exists>row' v. rotation_check env2 raw' s2 = (Inr (row', v), s2) \<and> rt_family_id row' = rt_family_id row \<and> rt_user_id row' = ac_id u"
proof -
  obtain i where i: "find_account_by_id i s = Some u" "ac_is_active u"
    using check by (auto simp: rotation_check_def handler_defs Let_def select_one_or_none_def
        revoke_refresh_token_family_def split: option.splits sum.splits if_splits)
  then have "i = ac_id u" by (auto simp: find_account_by_id_def find_Some_iff)
  then obtain v where v: "find_account_by_id (ac_id u) s1 = Some v" "ac_is_active v"
    using changed_account_active [OF s change i] by blast
  let ?new = "\<lparr>rt_id = au_next s1, rt_user_id = ac_id u, rt_token_hash = av_hash env raw',
      rt_family_id = rt_family_id row, rt_replaced_by_id = None,
      rt_expires_at = av_now env + seconds (refresh_token_lifetime_days (av_settings env) * 86400), rt_revoked_at = None\<rparr>"
  let ?mark = "\<lambda>r. if rt_id r = rt_id row then r\<lparr>rt_replaced_by_id := Some (au_next s1)\<rparr> else r"
  let ?old = "revoke_where (av_now env) (\<lambda>r. rt_id r = rt_id row) s1"
  have w: "raw' = av_draw env" "av_hash env raw' \<notin> rt_token_hash ` set (refresh_tokens ?old)"
      "s2 = ?old\<lparr>refresh_tokens := map ?mark (refresh_tokens ?old @ [?new]), au_next := au_next s1 + 2\<rparr>"
    using writes
    by (auto simp: rotation_writes_def create_refresh_token_def handler_defs Let_def revoke_where_def split: if_splits)
  have "filter (\<lambda>r. rt_token_hash r = av_hash env raw') (map ?mark (refresh_tokens ?old)) = []"
    using w(2) by (auto simp: filter_empty_conv image_iff)
  moreover define q where "q = ?mark ?new"
  ultimately have f: "filter (\<lambda>r. rt_token_hash r = av_hash env2 raw') (refresh_tokens s2) = [q]"
    by (simp add: w(3) later(1))
  have q: "rt_revoked_at q = None" "\<not> past_expiry env2 (rt_expires_at q)" "rt_user_id q = ac_id u"
      "rt_family_id q = rt_family_id row"
    using later(2) by (simp_all add: q_def past_expiry_def)
  have "find_account_by_id (ac_id u) s2 = Some v"
    using v(1) by (simp add: w(3) find_account_by_id_def revoke_where_def)
  then have "rotation_check env2 raw' s2 = (Inr (q, v), s2)"
    using v(2) q by (simp add: rotation_check_def select_one_or_none_def handler_defs f)
  then show ?thesis using q by blast
qed

section \<open>Codes\<close>

text \<open>A wrong guess: the code that is asked for is live, and it is not the one that is sent.\<close>

definition guesses :: "auth_env \<Rightarrow> string \<Rightarrow> string \<Rightarrow> phone_purpose \<Rightarrow> nat \<Rightarrow> auth_db \<Rightarrow> bool" where
  "guesses env number code purpose i s \<longleftrightarrow> (case av_phone env number of None \<Rightarrow> False
     | Some n \<Rightarrow> (case live_code env n purpose s of None \<Rightarrow> False
        | Some r \<Rightarrow> ph_id r = i \<and> ph_otp_hash r \<noteq> hash_otp env n code purpose))"

inductive guess_run :: "int \<Rightarrow> nat \<Rightarrow> auth_db \<Rightarrow> nat \<Rightarrow> auth_db \<Rightarrow> bool"
  for limit i s where
  nothing: "guess_run limit i s 0 s"
| other: "guess_run limit i s k s' \<Longrightarrow> auth_step s' s'' \<Longrightarrow> guess_run limit i s k s''"
| login_guess: "guess_run limit i s k s' \<Longrightarrow> guesses env number code LoginPhone i s' \<Longrightarrow> library_ok env \<Longrightarrow>
    length code = 6 \<Longrightarrow> full_name = None \<or> length (the full_name) \<le> full_name_max_length \<Longrightarrow>
    otp_max_attempts (av_settings env) = limit \<Longrightarrow>
    guess_run limit i s (Suc k) (snd (phone_verify_otp env number code full_name s'))"
| link_guess: "guess_run limit i s k s' \<Longrightarrow> guesses env number code LinkPhone i s' \<Longrightarrow>
    fst (optional_active_user env (extract_bearer_token a) s') = Inr (Some u) \<Longrightarrow>
    length code = 6 \<Longrightarrow> otp_max_attempts (av_settings env) = limit \<Longrightarrow>
    guess_run limit i s (Suc k) (snd (phone_link env a number code s'))"

lemma wrong_code_run:
  assumes "guesses env number code purpose i s"
  shows "\<exists>r n. av_phone env number = Some n \<and> live_code env n purpose s = Some r \<and> ph_id r = i \<and>
    (\<forall>k :: string \<Rightarrow> (auth_db \<times> auth_db, 'a) handler. snd (run_session (bind (verify_code env number code purpose) k) s) =
       put_code (if ph_attempts r + 1 \<ge> otp_max_attempts (av_settings env)
         then r\<lparr>ph_attempts := ph_attempts r + 1, ph_consumed_at := Some (av_now env)\<rparr>
         else r\<lparr>ph_attempts := ph_attempts r + 1\<rparr>) s)"
proof -
  obtain n r where "av_phone env number = Some n" "live_code env n purpose s = Some r" "ph_id r = i"
    "ph_otp_hash r \<noteq> hash_otp env n code purpose"
    using assms by (auto simp: guesses_def split: option.splits)
  then show ?thesis
    by (intro exI [of _ r] exI [of _ n]) (auto simp: verify_code_def normalize_phone_or_400_def run_session_def
        within_def commit_def handler_defs Let_def)
qed

lemma wrong_login_run:
  assumes g: "guesses env number code LoginPhone i s"
    and "length code = 6" "full_name = None \<or> length (the full_name) \<le> full_name_max_length"
  shows "\<exists>r n. live_code env n LoginPhone s = Some r \<and> ph_id r = i \<and>
    snd (phone_verify_otp env number code full_name s) =
       put_code (if ph_attempts r + 1 \<ge> otp_max_attempts (av_settings env)
         then r\<lparr>ph_attempts := ph_attempts r + 1, ph_consumed_at := Some (av_now env)\<rparr>
         else r\<lparr>ph_attempts := ph_attempts r + 1\<rparr>) s"
proof -
  have "phone_verify_otp env number code full_name s = run_session (phone_login_or_create env number code full_name) s"
    using assms(2,3) by (auto simp: phone_verify_otp_def)
  moreover obtain r n where "live_code env n LoginPhone s = Some r" "ph_id r = i"
    "\<And>k :: string \<Rightarrow> (auth_db \<times> auth_db, account \<times> string \<times> string) handler.
       snd (run_session (bind (verify_code env number code LoginPhone) k) s) =
       put_code (if ph_attempts r + 1 \<ge> otp_max_attempts (av_settings env)
         then r\<lparr>ph_attempts := ph_attempts r + 1, ph_consumed_at := Some (av_now env)\<rparr>
         else r\<lparr>ph_attempts := ph_attempts r + 1\<rparr>) s"
    using wrong_code_run [OF g, where 'a = "account \<times> string \<times> string"] by blast
  ultimately show ?thesis unfolding phone_login_or_create_def by (intro exI [of _ r] exI [of _ n]) simp
qed

lemma live_code_cong: "phone_codes s = phone_codes t \<Longrightarrow> live_code env n purpose s = live_code env n purpose t"
  by (simp add: live_code_def)

lemma optional_user_run: "optional_active_user env t s = (r, s') \<Longrightarrow> \<exists>m. s' = s\<lparr>memory_revoked_jtis := m\<rparr>"
proof -
  assume run: "optional_active_user env t s = (r, s')"
  have same: "\<exists>m. s = s\<lparr>memory_revoked_jtis := m\<rparr>" by (rule exI [of _ "memory_revoked_jtis s"]) simp
  have "\<exists>m. snd (read_token env t s) = s\<lparr>memory_revoked_jtis := m\<rparr>"
  proof (cases "Option.bind t (av_decode env)")
    case None
    then show ?thesis using same by (auto simp: read_token_def)
  next
    case (Some c)
    obtain b m where "is_jti_revoked env (av_text env (cl_jti c)) s = (Inr b, s\<lparr>memory_revoked_jtis := m\<rparr>)"
      using jti_run by blast
    then show ?thesis using Some same
      by (auto simp: read_token_def handler_defs split: option.split sum.split)
  qed
  then show ?thesis using run
    by (auto simp: optional_active_user_def handler_defs split: prod.splits sum.splits)
qed

text \<open>How many wrong guesses the code \<open>c\<close> of the first state can still take.\<close>

definition guessed :: "int \<Rightarrow> phone_code \<Rightarrow> nat \<Rightarrow> auth_db \<Rightarrow> bool" where
  "guessed limit c k s \<longleftrightarrow> ph_attempts c + int k \<le> limit \<and>
     (\<forall>d \<in> set (phone_codes s). ph_id d = ph_id c \<longrightarrow> ph_consumed_at d = None \<longrightarrow>
        ph_attempts c + int k \<le> ph_attempts d \<and> ph_attempts c + int k < limit)"

lemma guessed_later:
  assumes "guessed limit c k s" "auth_le s s'" "ph_id c < au_next s"
  shows "guessed limit c k s'"
proof -
  have "ph_attempts c + int k \<le> ph_attempts d \<and> ph_attempts c + int k < limit"
    if d: "d \<in> set (phone_codes s')" "ph_id d = ph_id c" "ph_consumed_at d = None" for d
  proof -
    obtain e where "e \<in> set (phone_codes s)" "code_left e d"
      using auth_leD(5) [OF assms(2) d(1)] assms(3) d(2,3) by auto
    then show ?thesis using assms(1) d(2) by (fastforce simp: guessed_def code_left_def)
  qed
  then show ?thesis using assms(1) by (simp add: guessed_def)
qed

lemma guessed_wrong:
  assumes "guessed limit c k s" "live_code env n purpose t = Some r" "ph_id r = ph_id c" "phone_codes t = phone_codes s"
    and "phone_codes s' = phone_codes (put_code (if ph_attempts r + 1 \<ge> limit
         then r\<lparr>ph_attempts := ph_attempts r + 1, ph_consumed_at := Some now\<rparr> else r\<lparr>ph_attempts := ph_attempts r + 1\<rparr>) t)"
  shows "guessed limit c (Suc k) s'"
proof -
  have "r \<in> set (phone_codes s)" "ph_consumed_at r = None" using live_code_member [OF assms(2)] assms(4) by simp_all
  then have "ph_attempts c + int k \<le> ph_attempts r" "ph_attempts c + int k < limit"
    using assms(1,3) by (auto simp: guessed_def)
  then show ?thesis using assms(3-5)
    by (auto simp: guessed_def put_code_def replace_by_def split: if_splits)
qed

text \<open>The counter is read without a lock and written back: a guess that read the row before another wrong guess was
  committed writes what that one wrote, so the two count as one.\<close>

theorem parallel_guess_not_counted:
  assumes "guesses env number code purpose i s" "guesses env number code' purpose i s"
    and one: "s1 = snd (run_session (verify_code env number code purpose) s)"
  shows "\<exists>r w. r \<in> set (phone_codes s) \<and> ph_attempts w = ph_attempts r + 1 \<and> s1 = put_code w s \<and>
    snd (run_session (verify_code env number code' purpose) s) = put_code w s \<and> put_code w s1 = s1"
proof -
  have ret: "bind h ret = h" for h :: "(auth_db \<times> auth_db, string) handler"
    by (rule ext) (simp add: bind_def ret_def split: prod.split sum.split)
  obtain r n where r: "av_phone env number = Some n" "live_code env n purpose s = Some r"
    and k: "\<And>k :: string \<Rightarrow> (auth_db \<times> auth_db, string) handler. snd (run_session (bind (verify_code env number code purpose) k) s) =
       put_code (if ph_attempts r + 1 \<ge> otp_max_attempts (av_settings env)
         then r\<lparr>ph_attempts := ph_attempts r + 1, ph_consumed_at := Some (av_now env)\<rparr>
         else r\<lparr>ph_attempts := ph_attempts r + 1\<rparr>) s"
    using wrong_code_run [OF assms(1), where 'a = string] by blast
  have k': "\<And>k :: string \<Rightarrow> (auth_db \<times> auth_db, string) handler. snd (run_session (bind (verify_code env number code' purpose) k) s) =
       put_code (if ph_attempts r + 1 \<ge> otp_max_attempts (av_settings env)
         then r\<lparr>ph_attempts := ph_attempts r + 1, ph_consumed_at := Some (av_now env)\<rparr>
         else r\<lparr>ph_attempts := ph_attempts r + 1\<rparr>) s"
    using wrong_code_run [OF assms(2), where 'a = string] r by auto
  have twice: "put_code w (put_code w t) = put_code w t" for w t
    by (simp add: put_code_def replace_by_def)
  show ?thesis
    using live_code_member [OF r(2)] k [of ret] k' [of ret] unfolding ret one
    by (intro exI [of _ r] exI [of _ "if ph_attempts r + 1 \<ge> otp_max_attempts (av_settings env)
         then r\<lparr>ph_attempts := ph_attempts r + 1, ph_consumed_at := Some (av_now env)\<rparr>
         else r\<lparr>ph_attempts := ph_attempts r + 1\<rparr>"]) (simp add: twice)
qed

text \<open>C22: Whatever requests run, each after the other, there are among them at most as many wrong guesses of a code
  as the setting has left for it, to log in with any name or to link a phone; after that the code is consumed.\<close>

theorem wrong_codes_bounded:
  assumes "auth_ok s" "c \<in> set (phone_codes s)" "ph_consumed_at c = None" "ph_attempts c < limit"
    and "guess_run limit (ph_id c) s k s'"
  shows "int k \<le> limit - ph_attempts c"
proof -
  have i: "ph_id c < au_next s" using assms(1,2) by (simp add: auth_ok_def)
  have uniq: "d = c" if "d \<in> set (phone_codes s)" "ph_id d = ph_id c" for d
    using assms(1,2) that same_key_same_row [of ph_id "phone_codes s"] by (simp add: auth_ok_def)
  from assms(5) have "auth_ok s' \<and> auth_le s s' \<and> guessed limit c k s'"
  proof (induction rule: guess_run.induct)
    case nothing
    then show ?case using assms(1,4) uniq by (auto simp: guessed_def)
  next
    case (other k s' s'')
    then have le: "auth_le s' s''" and rest: "auth_ok s''" using step_moves by blast+
    have "ph_id c < au_next s'" using i auth_leD(1) [of s s'] other.IH by simp
    then show ?case using other.IH rest guessed_later [OF _ le] auth_le_trans [OF _ le] by simp
  next
    case (login_guess k s' env number code full_name)
    have step: "auth_step s' (snd (phone_verify_otp env number code full_name s'))"
      using login_guess by (intro logs_in_by_phone)
    obtain r n where "live_code env n LoginPhone s' = Some r" "ph_id r = ph_id c"
      "snd (phone_verify_otp env number code full_name s') = put_code (if ph_attempts r + 1 \<ge> limit
         then r\<lparr>ph_attempts := ph_attempts r + 1, ph_consumed_at := Some (av_now env)\<rparr>
         else r\<lparr>ph_attempts := ph_attempts r + 1\<rparr>) s'"
      using wrong_login_run [OF login_guess.hyps(2,4,5)] login_guess.hyps(6) by blast
    then have "guessed limit c (Suc k) (snd (phone_verify_otp env number code full_name s'))"
      using login_guess.IH by (intro guessed_wrong) auto
    then show ?case using login_guess.IH step_moves [OF step] auth_le_trans by blast
  next
    case (link_guess k s' env number code a u)
    have step: "auth_step s' (snd (phone_link env a number code s'))" by (rule links_phone)
    obtain s1 where u: "optional_active_user env (extract_bearer_token a) s' = (Inr (Some u), s1)"
      using link_guess.hyps(3) by (metis prod.collapse)
    obtain m where s1: "s1 = s'\<lparr>memory_revoked_jtis := m\<rparr>" using optional_user_run [OF u] by blast
    have "guesses env number code LinkPhone (ph_id c) s1"
      using link_guess.hyps(2) live_code_cong [of s1 s'] s1 by (simp add: guesses_def cong: option.case_cong)
    then obtain r n where "live_code env n LinkPhone s1 = Some r" "ph_id r = ph_id c"
      "snd (run_session (link_phone env u number code) s1) = put_code (if ph_attempts r + 1 \<ge> limit
         then r\<lparr>ph_attempts := ph_attempts r + 1, ph_consumed_at := Some (av_now env)\<rparr>
         else r\<lparr>ph_attempts := ph_attempts r + 1\<rparr>) s1"
      using wrong_code_run [where env = env and number = number and code = code] link_guess.hyps(5)
      unfolding link_phone_def by fastforce
    moreover have "phone_link env a number code s' = run_session (link_phone env u number code) s1"
      using link_guess.hyps(4) u by (simp add: phone_link_def bind_def or_unauthorized_def ret_def)
    ultimately have "guessed limit c (Suc k) (snd (phone_link env a number code s'))"
      using link_guess.IH s1 by (intro guessed_wrong) auto
    then show ?case using link_guess.IH step_moves [OF step] auth_le_trans by blast
  qed
  then show ?thesis by (simp add: guessed_def)
qed

section \<open>Signatures of a wallet\<close>

text \<open>A nonce that an account asked for in order to link a wallet is as good for a login: the login does not
  ask whom it was made for, so the signature opens the account that has the wallet.\<close>

lemma issue_run:
  assumes "av_hash env (av_draw env) \<notin> rt_token_hash ` set (refresh_tokens s)"
  shows "\<exists>row. issue_token_pair env user s = (Inr (write_token env user, av_draw env),
    s\<lparr>refresh_tokens := refresh_tokens s @ [row], au_next := au_next s + 2\<rparr>) \<and> rt_user_id row = ac_id user"
  using assms
  by (intro exI [of _ "\<lparr>rt_id = au_next s, rt_user_id = ac_id user, rt_token_hash = av_hash env (av_draw env),
        rt_family_id = Suc (au_next s), rt_replaced_by_id = None,
        rt_expires_at = av_now env + seconds (refresh_token_lifetime_days (av_settings env) * 86400), rt_revoked_at = None\<rparr>"])
    (simp add: issue_token_pair_def create_refresh_token_def handler_defs Let_def)

lemma find_account:
  "auth_ok s \<Longrightarrow> u \<in> set (accounts s) \<Longrightarrow> find_account_by_id (ac_id u) s = Some u"
  unfolding find_account_by_id_def by (rule find_by_key) (simp_all add: auth_ok_def)

text \<open>C23: Anyone with an account can ask for a message to link a wallet that belongs to someone else; when the owner
  signs it, the signature logs its sender into the owner's account.\<close>

theorem link_signature_logs_in:
  assumes s: "auth_ok s" and asked: "create_evm_nonce env h a s = (Inr (address, message), s1)"
    and env: "av_hash env' = av_hash env" "av_now env' < av_now env + seconds (wallet_nonce_ttl_seconds (av_settings env))"
    and signed: "address_field env' a = Inr address" "normalize_evm_address env' address = Inr address"
      "signed_fields message signature" "check_signature env' address message signature = Inr ()"
    and wallet: "filter (\<lambda>w. ew_address w = address) (evm_wallets s) = [w]"
    and owner: "v \<in> set (accounts s)" "ac_id v = ew_user_id w" "ac_is_active v"
    and fresh: "av_hash env' (av_draw env') \<notin> rt_token_hash ` set (refresh_tokens s)"
  shows "\<exists>v' tokens s2. wallet_login_verify env' a message signature s1 = (Inr (v', tokens), s2) \<and> ac_id v' = ac_id v"
proof -
  obtain a' s0 u where u: "address_field env a = Inr a'"
    "current_active_user env (extract_bearer_token h) s = (Inr u, s0)" "committed (create_nonce env u a') s0 = (Inr (address, message), s1)"
    using asked by (auto simp: create_evm_nonce_def of_result_def elim!: bindE)
  have s0: "refresh_tokens s0 = refresh_tokens s" "accounts s0 = accounts s" "evm_wallets s0 = evm_wallets s" "auth_ok s0"
    using auth_safeD [OF active_user_safe(1) s _ u(2)] u(2)
    by (auto simp: current_active_user_def read_token_def handler_defs is_jti_revoked_def is_memory_revoked_def
        Let_def split: option.splits prod.splits sum.splits if_splits)
  define n where "n = \<lparr>wn_user_id = Some (ac_id u), wn_address = address, wn_nonce_hash = av_hash env message,
    wn_expires_at = av_now env + seconds (wallet_nonce_ttl_seconds (av_settings env)), wn_used_at = None\<rparr>"
  have s1: "s1 = s0\<lparr>wallet_nonces := wallet_nonces s0 @ [n]\<rparr>" "av_hash env message \<notin> wn_nonce_hash ` set (wallet_nonces s0)"
    using u(3) by (auto simp: committed_def create_nonce_def add_nonce_def handler_defs Let_def n_def
        split: prod.splits sum.splits if_splits)
  have nonce: "filter (usable_nonce env' address message) (wallet_nonces s1) = [n]"
  proof -
    have "\<forall>x \<in> set (wallet_nonces s0). wn_nonce_hash x \<noteq> av_hash env message" using s1(2) by (metis imageI)
    then show ?thesis using s1(1) env by (auto simp: usable_nonce_def n_def filter_empty_conv)
  qed
  have acc: "find_account_by_id (ew_user_id w) s1 = Some v"
    using find_account [OF s0(4), of v] s0(2) owner(1,2) s1(1) by (simp add: find_account_by_id_def)
  let ?v = "if ac_wallet_verified_at v = None then v\<lparr>ac_wallet_verified_at := Some (av_now env')\<rparr> else v"
  have "av_hash env' (av_draw env') \<notin> rt_token_hash ` set (refresh_tokens (use_nonce env' n (put_account ?v s1)))"
    using fresh s0(1) s1(1) by (simp add: use_nonce_def)
  then obtain row where "issue_token_pair env' ?v (use_nonce env' n (put_account ?v s1)) =
      (Inr (write_token env' ?v, av_draw env'), (use_nonce env' n (put_account ?v s1))\<lparr>refresh_tokens :=
        refresh_tokens (use_nonce env' n (put_account ?v s1)) @ [row], au_next := au_next (use_nonce env' n (put_account ?v s1)) + 2\<rparr>)"
    using issue_run [where user = ?v] by blast
  then show ?thesis
    using signed nonce wallet acc owner s0(3) s1(1)
    by (simp add: wallet_login_verify_def wallet_login_or_create_def run_session_def within_def handler_defs
        wallet_with_address_def Let_def split: if_splits)
qed

text \<open>An account made by a wallet login that lost its wallet: the address is still taken by its mail address,
  so the wallet opens no account any more.\<close>

lemma unlinked_wallet_locked_out:
  assumes "create_ok env" "normalize_evm_address env address = Inr address"
    and "\<forall>w \<in> set (evm_wallets s). ew_address w \<noteq> address"
    and "v \<in> set (accounts s)" "lower (ac_email v) = lower (synthetic_wallet_email env address)"
  shows "\<nexists>x. fst (run_session (wallet_login_or_create env address message signature) s) = Inr x"
proof -
  have none: "filter (\<lambda>w. ew_address w = address) (evm_wallets s) = []" using assms(3) by (simp add: filter_empty_conv)
  have "\<nexists>u. fst (av_create env (synthetic_wallet_email env address) p n s) = Inr u" for p n
  proof
    assume "\<exists>u. fst (av_create env (synthetic_wallet_email env address) p n s) = Inr u"
    then obtain u s' where "av_create env (synthetic_wallet_email env address) p n s = (Inr u, s')" by (metis prod.collapse)
    then have "\<forall>w \<in> set (accounts s). lower (ac_email w) \<noteq> lower (synthetic_wallet_email env address)"
      using assms(1) unfolding create_ok_def by fastforce
    then show False using assms(4,5) by blast
  qed
  then obtain e s' where "av_create env (synthetic_wallet_email env address) (av_draw env) None s = (Inl e, s')"
    by (metis old.sum.exhaust prod.collapse)
  then show ?thesis using none assms(2)
    by (auto simp: wallet_login_or_create_def run_session_def within_def handler_defs wallet_with_address_def
        create_random_password_user_def split: prod.splits sum.splits option.splits)
qed

section \<open>Providers\<close>

text \<open>A provider that vouches for the address of an account adopts the account as it is: whoever registered it
  without proving the address keeps the password and the sessions, now of a verified account.\<close>

text \<open>C24: The first login through a provider adopts the account that has the address and was never verified: it is
  verified from then on, with the password it was registered with, and every refresh token stays as it was.\<close>

theorem provider_adopts_unverified_account:
  assumes s: "auth_ok s" and profile: "extract_oauth_profile provider info = Inr profile" "pf_email_verified profile"
    and unlinked: "filter (same_oauth_account profile) (oauth_accounts s) = []"
    and found: "av_by_email env (pf_email profile) s = Some u" "u \<in> set (accounts s)"
    and fresh: "av_hash env (av_draw env) \<notin> rt_token_hash ` set (refresh_tokens s)"
  shows "\<exists>tokens s'. oauth_callback env provider (Some (info, token)) s = (Inr (u\<lparr>ac_is_verified := True\<rparr>, tokens), s') \<and>
    find_account_by_id (ac_id u) s' = Some (u\<lparr>ac_is_verified := True\<rparr>) \<and>
    set (refresh_tokens s) \<subseteq> set (refresh_tokens s')"
proof -
  let ?v = "u\<lparr>ac_is_verified := True\<rparr>"
  let ?s = "put_account ?v (s\<lparr>oauth_accounts := oauth_accounts s @ [new_oauth_account profile token (ac_id u)]\<rparr>)"
  obtain row where "issue_token_pair env ?v ?s = (Inr (write_token env ?v, av_draw env),
      ?s\<lparr>refresh_tokens := refresh_tokens ?s @ [row], au_next := au_next ?s + 2\<rparr>)"
    using issue_run [of env ?s ?v] fresh by auto
  moreover have "find_account_by_id (ac_id u) (?s\<lparr>refresh_tokens := l, au_next := i\<rparr>) = Some ?v" for l i
    using find_account [OF s found(2)] by (simp add: find_account_by_id_def put_account_def find_replace_by)
  ultimately show ?thesis using profile unlinked found
    by (simp add: oauth_callback_def oauth_login_or_create_def find_or_create_user_def run_session_def within_def
        handler_defs Let_def subset_insertI)
qed

end
