(* ===== verification/AuthDemo.thy ===== *)
theory AuthDemo
  imports LoginProps
begin

text \<open>
  A small concrete database of accounts and sessions, a library that meets what is relied on, and the
  properties of accounts and logins at these inputs.
\<close>

section \<open>The database\<close>

definition demo_user :: account where
  "demo_user = \<lparr>ac_id = 1, ac_email = ''a@b.c'', ac_hashed_password = ''pw'', ac_full_name = None, ac_is_active = True,
     ac_is_verified = False, ac_phone_number = None, ac_phone_verified_at = None, ac_wallet_verified_at = None,
     ac_token_version = 3\<rparr>"

definition demo_row :: "nat \<Rightarrow> string \<Rightarrow> time option \<Rightarrow> refresh_row" where
  "demo_row i h revoked = \<lparr>rt_id = i, rt_user_id = 1, rt_token_hash = h, rt_family_id = 2, rt_replaced_by_id = None,
     rt_expires_at = unix_epoch + 9000000, rt_revoked_at = revoked\<rparr>"

definition demo_code :: phone_code where
  "demo_code = \<lparr>ph_id = 5, ph_user_id = None, ph_phone_number = ''1'', ph_purpose = LoginPhone, ph_otp_hash = ''x'',
     ph_attempts = 0, ph_created_at = unix_epoch, ph_expires_at = unix_epoch + 9000000, ph_consumed_at = None\<rparr>"

definition demo_address :: string where
  "demo_address = ''0x0000000000000000000000000000000000000000''"

definition demo_auth :: auth_db where
  "demo_auth = \<lparr>accounts = [demo_user], refresh_tokens = [demo_row 3 ''r0'' (Some 0), demo_row 4 ''r1'' None],
     verification_tokens = [], reset_tokens = [], phone_codes = [demo_code], wallet_nonces = [],
     evm_wallets = [\<lparr>ew_user_id = 1, ew_address = demo_address, ew_verified_at = 0, ew_last_balance_sync_at = None\<rparr>],
     oauth_accounts = [], revoked_jtis = [], memory_revoked_jtis = [], au_next = 7\<rparr>"

definition demo_claims :: claims where
  "demo_claims = \<lparr>cl_sub = JStr ''1'', cl_jti = JStr ''j'', cl_token_version = JInt 3, cl_exp = JInt 8\<rparr>"

definition demo_auth_settings :: auth_settings where
  "demo_auth_settings = \<lparr>jwt_lifetime_seconds = 60, refresh_token_lifetime_days = 30, app_production = True,
     token_revocation_fail_open = False, otp_ttl_seconds = 300, otp_max_attempts = 5, wallet_nonce_ttl_seconds = 300,
     phone_user_email_domain = ''p'', wallet_user_email_domain = ''w'', as_app_url = ''http://h'', wallet_siwe_chain_id = ''1'',
     auto_verify_new_users = False\<rparr>"

definition demo_account :: "nat \<Rightarrow> string \<Rightarrow> string \<Rightarrow> string option \<Rightarrow> account" where
  "demo_account i email password name = \<lparr>ac_id = i, ac_email = email, ac_hashed_password = password, ac_full_name = name,
     ac_is_active = True, ac_is_verified = False, ac_phone_number = None, ac_phone_verified_at = None,
     ac_wallet_verified_at = None, ac_token_version = 0\<rparr>"

definition demo_auth_env :: "time \<Rightarrow> auth_env" where
  "demo_auth_env elapsed = \<lparr>av_now = unix_epoch + elapsed, av_settings = demo_auth_settings, av_draw = ''r2'', av_jti = ''k'',
     av_hash = (\<lambda>t. t), av_encode = (\<lambda>c. ''token''), av_decode = (\<lambda>t. if t = ''token'' then Some demo_claims else None),
     av_id_text = (\<lambda>i. ''1''), av_parse_id = (\<lambda>v. if v = JStr ''1'' then Some 1 else None), av_text = (\<lambda>v. ''j''),
     av_password_verifies = (\<lambda>p h. p = h), av_hash_password = (\<lambda>p. p), av_redis_up = True,
     av_create = (\<lambda>email password name s. if \<exists>v \<in> set (accounts s). lower (ac_email v) = lower email
        then (Inl user_already_exists, s)
        else (Inr (demo_account (au_next s) email password name),
          s\<lparr>accounts := accounts s @ [demo_account (au_next s) email password name], au_next := Suc (au_next s)\<rparr>)),
     av_authenticate = (\<lambda>email password s. (Inr None, s)), av_by_email = (\<lambda>email s. find (\<lambda>u. lower (ac_email u) = lower email) (accounts s)),
     av_verify_token = (\<lambda>u. ''v''), av_verified_account = (\<lambda>t s. Inl (PyExc ''InvalidVerifyToken'')),
     av_reset_token = (\<lambda>u. ''t''), av_reset_account = (\<lambda>t s. Inl (PyExc ''InvalidResetPasswordToken'')),
     av_update = (\<lambda>u p s. (Inr u, put_account u s)), av_phone = Some, av_send_code = (\<lambda>n. Inr ()),
     av_checksum = Some, av_recover = (\<lambda>m sig. Some demo_address), av_isoformat = (\<lambda>t. ''t'')\<rparr>"

lemma demo_library_ok: "library_ok (demo_auth_env n)"
proof -
  have same: "accounts_update (map (\<lambda>u. u\<lparr>ac_hashed_password := ac_hashed_password u\<rparr>)) s = s" for s :: auth_db
    by (cases s) simp
  have "authenticate_ok (demo_auth_env n)"
    unfolding authenticate_ok_def
  proof (intro allI impI)
    fix email password s r s'
    assume "av_authenticate (demo_auth_env n) email password s = (r, s')"
    then have "r = Inr None" "s' = s" by (simp_all add: demo_auth_env_def)
    then show "(\<exists>f. s' = accounts_update (map (\<lambda>u. u\<lparr>ac_hashed_password := f u\<rparr>)) s) \<and>
        (\<forall>u. r = Inr (Some u) \<longrightarrow> u \<in> set (accounts s'))"
      using same [of s] by (metis Inr_inject option.distinct(1))
  qed
  moreover have "create_ok (demo_auth_env n)"
    unfolding create_ok_def
  proof (intro allI impI)
    fix email password name s r s'
    assume "av_create (demo_auth_env n) email password name s = (r, s')"
    then have run: "(if \<exists>v \<in> set (accounts s). lower (ac_email v) = lower email then (Inl user_already_exists, s)
        else (Inr (demo_account (au_next s) email password name),
          s\<lparr>accounts := accounts s @ [demo_account (au_next s) email password name], au_next := Suc (au_next s)\<rparr>)) = (r, s')"
      by (simp add: demo_auth_env_def)
    show "case r of Inl e \<Rightarrow> s' = s
      | Inr u \<Rightarrow> ac_id u = au_next s \<and> ac_token_version u = 0 \<and> lower (ac_email u) = lower email \<and>
          (\<forall>v \<in> set (accounts s). lower (ac_email v) \<noteq> lower email) \<and>
          s' = s\<lparr>accounts := accounts s @ [u], au_next := Suc (au_next s)\<rparr>"
    proof (cases "\<exists>v \<in> set (accounts s). lower (ac_email v) = lower email")
      case True
      then show ?thesis using run by (simp only: if_True prod.inject) auto
    next
      case False
      then have "r = Inr (demo_account (au_next s) email password name)"
        "s' = s\<lparr>accounts := accounts s @ [demo_account (au_next s) email password name], au_next := Suc (au_next s)\<rparr>"
        using run by (simp_all only: if_False prod.inject)
      then show ?thesis using False by (simp add: demo_account_def)
    qed
  qed
  moreover have "update_ok (demo_auth_env n)" by (auto simp: update_ok_def demo_auth_env_def)
  moreover have "lookups_ok (demo_auth_env n)"
    by (auto simp: lookups_ok_def demo_auth_env_def dest: find_SomeD)
  ultimately show ?thesis by (simp add: library_ok_def)
qed

lemmas demo_auth_defs =
  demo_auth_env_def demo_auth_def demo_user_def demo_row_def demo_code_def demo_claims_def demo_auth_settings_def
  unix_epoch_def seconds_def after_unix_def

lemma demo_auth_ok: "auth_ok demo_auth"
  by (auto simp: auth_ok_def rows_ok_def live_def demo_auth_defs)

section \<open>Sessions\<close>

lemma demo_refresh:
  "refresh (demo_auth_env 0) ''r1'' demo_auth = (Inr (demo_user, ''token'', ''r2''),
     demo_auth\<lparr>refresh_tokens := [demo_row 3 ''r0'' (Some 0),
         (demo_row 4 ''r1'' (Some unix_epoch))\<lparr>rt_replaced_by_id := Some 7\<rparr>,
         (demo_row 7 ''r2'' None)\<lparr>rt_expires_at := unix_epoch + seconds (30 * 86400)\<rparr>], au_next := 9\<rparr>)"
  unfolding refresh_run [OF demo_auth_ok]
  by (simp add: row_with_hash_def demo_auth_defs live_def find_account_by_id_def write_token_def
      swapped_rows_def next_row_def revoked_row_def replaced_row_def)

theorem one_live_token_per_family_witness:
  "length (filter (\<lambda>r. rt_family_id r = 2 \<and> rt_revoked_at r = None)
     (refresh_tokens (snd (refresh (demo_auth_env 0) ''r1'' demo_auth)))) \<le> 1 \<and>
   length (refresh_tokens (snd (refresh (demo_auth_env 0) ''r1'' demo_auth))) = 3"
  using one_live_token_per_family [OF demo_auth_ok refresh_steps [OF demo_auth_ok], of 2 "demo_auth_env 0" "''r1''"]
  by (simp add: demo_refresh)

theorem rotation_refines_swap_witness:
  "((\<exists>x. fst (refresh (demo_auth_env 0) ''r1'' demo_auth) = Inr x), token_spec_of (snd (refresh (demo_auth_env 0) ''r1'' demo_auth))) =
     rotate_spec (token_expired (demo_auth_env 0) demo_auth ''r1'') (holder_active demo_auth ''r1'') ''r1'' ''r2''
       (token_spec_of demo_auth) \<and> (\<exists>x. fst (refresh (demo_auth_env 0) ''r1'' demo_auth) = Inr x)"
  using rotation_refines_swap [OF demo_auth_ok surjective_pairing, of "demo_auth_env 0" "''r1''"]
  by (simp add: demo_refresh) (simp add: demo_auth_env_def)

theorem replayed_token_ends_family_witness:
  "fst (refresh (demo_auth_env 0) ''r0'' demo_auth) = Inl unauthorized \<and>
   fst (refresh (demo_auth_env 1) ''r1'' (snd (refresh (demo_auth_env 0) ''r0'' demo_auth))) = Inl unauthorized"
proof (rule replayed_token_ends_family [OF demo_auth_ok, where r = "demo_row 3 ''r0'' (Some 0)"
      and q = "demo_row 4 ''r1'' (Some unix_epoch)"])
  show "demo_row 4 ''r1'' (Some unix_epoch) \<in> set (refresh_tokens (snd (refresh (demo_auth_env 0) ''r0'' demo_auth)))"
    unfolding refresh_run [OF demo_auth_ok]
  by (simp add: row_with_hash_def demo_auth_defs live_def revoke_where_def)
qed (simp_all add: demo_auth_def demo_row_def demo_auth_env_def)

lemma demo_user_of_token:
  "fst (current_active_user (demo_auth_env 0) (Some ''token'') demo_auth) = Inr demo_user"
  by (simp add: current_active_user_def read_token_def handler_defs is_jti_revoked_def is_memory_revoked_def Let_def
      find_account_by_id_def version_of_claims_def demo_auth_defs)

lemma bearer: "extract_bearer_token (Some ''bearer token'') = Some ''token''"
  by (simp add: extract_bearer_token_def lower_def lower_char_def is_upper_def code_of_def Let_def)

lemma demo_change_password:
  "fst (change_password_route (demo_auth_env 0) (Some ''bearer token'') ''pw'' ''new password'' demo_auth) = Inr ()"
  by (simp add: change_password_route_def bearer current_active_user_def read_token_def handler_defs is_jti_revoked_def
      is_memory_revoked_def Let_def find_account_by_id_def version_of_claims_def change_password_def validate_password_def
      on_after_change_password_def end_sessions_def on_error_def occurs_in.simps starts_with_def lower_def lower_char_def
      is_upper_def code_of_def demo_auth_defs)

theorem password_change_ends_sessions_witness:
  "fst (refresh (demo_auth_env 1) ''r1''
     (snd (change_password_route (demo_auth_env 0) (Some ''bearer token'') ''pw'' ''new password'' demo_auth))) = Inl unauthorized \<and>
   fst (read_token (demo_auth_env 1) (Some ''token'')
     (snd (change_password_route (demo_auth_env 0) (Some ''bearer token'') ''pw'' ''new password'' demo_auth))) = Inr None"
proof -
  let ?s = "snd (change_password_route (demo_auth_env 0) (Some ''bearer token'') ''pw'' ''new password'' demo_auth)"
  have run: "change_password_route (demo_auth_env 0) (Some ''bearer token'') ''pw'' ''new password'' demo_auth = (Inr (), ?s)"
    using demo_change_password by (metis prod.collapse)
  have row: "(demo_row 4 ''r1'' None)\<lparr>rt_revoked_at := Some unix_epoch\<rparr> \<in> set (refresh_tokens ?s)"
    by (simp add: change_password_route_def bearer current_active_user_def read_token_def handler_defs is_jti_revoked_def
        is_memory_revoked_def Let_def find_account_by_id_def version_of_claims_def change_password_def validate_password_def
        on_after_change_password_def end_sessions_def on_error_def occurs_in.simps starts_with_def lower_def lower_char_def
        is_upper_def code_of_def revoke_where_rows revoked_row_def demo_auth_defs)
  from password_change_ends_sessions [OF demo_auth_ok run rtranclp.rtrancl_refl]
  obtain u where u: "fst (current_active_user (demo_auth_env 0) (extract_bearer_token (Some ''bearer token'')) demo_auth) = Inr u"
    "\<And>r q env t. r \<in> set (refresh_tokens demo_auth) \<Longrightarrow> rt_user_id r = ac_id u \<Longrightarrow> q \<in> set (refresh_tokens ?s) \<Longrightarrow>
       rt_family_id q = rt_family_id r \<Longrightarrow> av_hash env t = rt_token_hash q \<Longrightarrow> fst (refresh env t ?s) = Inl unauthorized"
    "\<And>env t c n. av_decode env t = Some c \<Longrightarrow> av_parse_id env (cl_sub c) = Some (ac_id u) \<Longrightarrow>
       py_int (cl_token_version c) = Inr n \<Longrightarrow> n \<le> ac_token_version u \<Longrightarrow> fst (read_token env (Some t) ?s) = Inr None"
    by blast
  have "u = demo_user" using u(1) demo_user_of_token by (simp add: bearer)
  then have "fst (refresh (demo_auth_env 1) ''r1'' ?s) = Inl unauthorized"
    by (intro u(2) [OF _ _ row, of "demo_row 4 ''r1'' None"])
      (simp_all add: demo_auth_def demo_row_def demo_user_def demo_auth_env_def)
  moreover have "fst (read_token (demo_auth_env 1) (Some ''token'') ?s) = Inr None"
    using \<open>u = demo_user\<close> by (intro u(3) [of _ _ demo_claims 3])
      (simp_all add: demo_auth_env_def demo_claims_def demo_user_def)
  ultimately show ?thesis by simp
qed

text \<open>A token that expires at eight seconds, revoked at half a second, is refused at six and accepted again
  shortly before its end.\<close>

theorem revoked_access_token_refused_witness:
  "fst (revoke_access_token (demo_auth_env 500000) ''token'' demo_auth) = Inr True \<and>
   fst (read_token (demo_auth_env 6000000) (Some ''token'') (snd (revoke_access_token (demo_auth_env 500000) ''token'' demo_auth))) = Inr None \<and>
   fst (read_token (demo_auth_env 7600000) (Some ''token'') (snd (revoke_access_token (demo_auth_env 500000) ''token'' demo_auth)))
     = Inr (Some demo_user)"
proof -
  have c: "av_decode (demo_auth_env n) ''token'' = Some demo_claims" "json_true (cl_jti demo_claims)"
    "cl_exp demo_claims = JInt 8" "(8::int) \<noteq> 0" "av_redis_up (demo_auth_env n)" "av_text (demo_auth_env n) = av_text (demo_auth_env m)" for n m
    by (simp_all add: demo_auth_env_def demo_claims_def)
  note refused = revoked_access_token_refused [OF c(1-4) surjective_pairing c(1,6) refl refl, of 500000 demo_auth]
  have "fst (read_token (demo_auth_env 7600000) (Some ''token'') demo_auth) = Inr (Some demo_user)"
    by (simp add: read_token_def handler_defs is_jti_revoked_def is_memory_revoked_def Let_def
        find_account_by_id_def version_of_claims_def demo_auth_defs)
  moreover have "av_now (demo_auth_env 500000) + seconds (revocation_ttl (demo_auth_env 500000) 8) \<le> av_now (demo_auth_env 7600000)"
    by (simp add: revocation_ttl_def trunc_div_def demo_auth_defs)
  moreover have "av_now (demo_auth_env 6000000) + seconds 1 \<le> unix_epoch + seconds 8" by (simp add: demo_auth_defs)
  moreover have "map_of (memory_revoked_jtis demo_auth) j = None" for j by (simp add: demo_auth_def)
  moreover have "fst (read_token (demo_auth_env 7600000) (Some ''token'')
      ((snd (revoke_access_token (demo_auth_env 500000) ''token'' demo_auth))\<lparr>revoked_jtis := []\<rparr>)) = Inr (Some demo_user)"
    by (simp add: revoke_access_token_def revoke_jti_def read_token_def handler_defs is_jti_revoked_def is_memory_revoked_def
        Let_def find_account_by_id_def version_of_claims_def demo_auth_defs)
  ultimately show ?thesis using refused [of 6000000] refused [of 7600000] c(5) by simp
qed

section \<open>Logins\<close>

theorem wrong_codes_bounded_witness:
  "guess_run 5 5 demo_auth 1 (snd (phone_verify_otp (demo_auth_env 0) ''1'' ''000000'' None demo_auth)) \<and> int 1 \<le> 5 - ph_attempts demo_code"
proof
  have "guesses (demo_auth_env 0) ''1'' ''000000'' LoginPhone 5 demo_auth"
    by (simp add: guesses_def live_code_def code_of_phone_def hash_otp_def purpose_text_def demo_auth_defs)
  then show g: "guess_run 5 5 demo_auth 1 (snd (phone_verify_otp (demo_auth_env 0) ''1'' ''000000'' None demo_auth))"
    using login_guess [OF guess_run.nothing _ demo_library_ok, of "0" "''1''" "''000000''" 5 demo_auth None 5]
    by (simp add: demo_auth_env_def demo_auth_settings_def)
  show "int 1 \<le> 5 - ph_attempts demo_code"
    by (rule wrong_codes_bounded [OF demo_auth_ok, of demo_code 5 1]) (use g in \<open>simp_all add: demo_auth_def demo_code_def\<close>)
qed

lemma demo_address_ok:
  "normalize_evm_address (demo_auth_env n) demo_address = Inr demo_address"
  "address_field (demo_auth_env n) demo_address = Inr demo_address"
proof -
  show a: "normalize_evm_address (demo_auth_env n) demo_address = Inr demo_address"
    by (simp add: normalize_evm_address_def demo_address_def demo_auth_env_def strip_def lstrip_def rstrip_def is_space_def
        code_of_def starts_with_def is_hex_digit_def Let_def)
  have "length demo_address = 42" by (simp add: demo_address_def)
  then show "address_field (demo_auth_env n) demo_address = Inr demo_address" by (simp add: address_field_def a)
qed

lemma demo_env_sel:
  "av_now (demo_auth_env n) = unix_epoch + n" "av_settings (demo_auth_env n) = demo_auth_settings"
  "av_draw (demo_auth_env n) = ''r2''" "av_hash (demo_auth_env n) = (\<lambda>t. t)"
  "av_recover (demo_auth_env n) = (\<lambda>m sig. Some demo_address)"
  by (simp_all add: demo_auth_env_def)

lemma demo_asked:
  "fst (create_evm_nonce (demo_auth_env 0) (Some ''bearer token'') demo_address demo_auth) =
     Inr (demo_address, wallet_message demo_address ''r2'')"
proof -
  obtain s where u: "current_active_user (demo_auth_env 0) (Some ''token'') demo_auth = (Inr demo_user, s)"
    using demo_user_of_token by (metis prod.collapse)
  then have "wallet_nonces s = []"
    by (auto simp: current_active_user_def read_token_def handler_defs is_jti_revoked_def is_memory_revoked_def Let_def
        demo_auth_def split: option.splits sum.splits if_splits prod.splits)
  then show ?thesis
    by (simp add: create_evm_nonce_def demo_address_ok bearer bind_def of_result_def u committed_def create_nonce_def add_nonce_def
        gets_def guard_or_def then_do_def modify_def ret_def Let_def demo_env_sel)
qed

theorem link_signature_logs_in_witness:
  "\<exists>v' tokens s2. wallet_login_verify (demo_auth_env 1) demo_address (wallet_message demo_address ''r2'') ''s''
      (snd (create_evm_nonce (demo_auth_env 0) (Some ''bearer token'') demo_address demo_auth)) = (Inr (v', tokens), s2) \<and>
     ac_id v' = ac_id demo_user"
proof (rule link_signature_logs_in [OF demo_auth_ok, where env = "demo_auth_env 0"])
  show "create_evm_nonce (demo_auth_env 0) (Some ''bearer token'') demo_address demo_auth =
      (Inr (demo_address, wallet_message demo_address ''r2''),
       snd (create_evm_nonce (demo_auth_env 0) (Some ''bearer token'') demo_address demo_auth))"
    using demo_asked by (metis prod.collapse)
  show "signed_fields (wallet_message demo_address ''r2'') ''s''"
    by (simp add: signed_fields_def wallet_message_def demo_address_def newline_def)
  show "check_signature (demo_auth_env 1) demo_address (wallet_message demo_address ''r2'') ''s'' = Inr ()"
    by (simp add: check_signature_def recover_evm_message_address_def demo_env_sel demo_address_ok addresses_equal_def)
  show "filter (\<lambda>w. ew_address w = demo_address) (evm_wallets demo_auth) =
      [\<lparr>ew_user_id = 1, ew_address = demo_address, ew_verified_at = 0, ew_last_balance_sync_at = None\<rparr>]"
    by (simp add: demo_auth_def)
qed (simp_all add: demo_env_sel demo_address_ok demo_auth_def demo_row_def demo_user_def demo_auth_settings_def seconds_def)

definition demo_info :: oauth_userinfo where
  "demo_info = \<lparr>ui_sub = Some ''9'', ui_id = None, ui_email = Some ''a@b.c'', ui_email_verified = JBool True, ui_name = None,
     ui_given_name = None, ui_family_name = None\<rparr>"

definition demo_profile :: oauth_profile where
  "demo_profile = \<lparr>pf_provider = ''google'', pf_account_id = ''9'', pf_email = ''a@b.c'', pf_email_verified = True, pf_full_name = None\<rparr>"

definition demo_token :: oauth_token where
  "demo_token = \<lparr>ot_access_token = None, ot_refresh_token = None, ot_expires_at = None\<rparr>"

theorem provider_adopts_unverified_account_witness:
  "\<exists>tokens s'. oauth_callback (demo_auth_env 0) ''google'' (Some (demo_info, demo_token)) demo_auth =
      (Inr (demo_user\<lparr>ac_is_verified := True\<rparr>, tokens), s') \<and>
    find_account_by_id (ac_id demo_user) s' = Some (demo_user\<lparr>ac_is_verified := True\<rparr>) \<and>
    set (refresh_tokens demo_auth) \<subseteq> set (refresh_tokens s')"
proof (rule provider_adopts_unverified_account [OF demo_auth_ok, where profile = demo_profile])
  show "extract_oauth_profile ''google'' demo_info = Inr demo_profile"
    by (simp add: extract_oauth_profile_def demo_info_def demo_profile_def is_falsy_def or_empty_def
        parse_oauth_email_verified_def lower_def lower_char_def is_upper_def code_of_def Let_def)
qed (simp_all add: demo_auth_env_def demo_auth_def demo_row_def demo_profile_def demo_user_def)

end
