(* ===== verification/Spec2Isabelle.thy ===== *)
theory Spec2Isabelle
  imports ApiUsage Catalogue KeyProps RegistryProps InferenceDemo EpochProps BillingDemo ReceiptsProps AuthDemo
begin

text \<open>
  A verification development of the inference platform. The platform has two planes over shared
  PostgreSQL tables. The \<^bold>\<open>serving plane\<close> (\<^verbatim>\<open>src/inference-mono/inference_api/inference_api\<close>, written
  \<^verbatim>\<open>I/\<close> below) authenticates API keys, reserves tokens, forwards a request to the enclave of a miner,
  settles what it cost, and freezes the numbers of every epoch. The \<^bold>\<open>control plane\<close>
  (\<^verbatim>\<open>src/inference-mono/api/app\<close>, written \<^verbatim>\<open>A/\<close>) holds accounts, sessions, keys, payments and referrals.

  \<^bold>\<open>How the code is modelled.\<close> A table is a list of records in insertion order, a database a record of
  tables. A handler is a function from the database to an error or a value together with the database it
  leaves (\<open>Prelude.handler\<close>, with \<open>bind\<close>, \<open>raise\<close>, \<open>on_error\<close>); every \<open>raise\<close> of the source is an
  \<open>Inl\<close>. \<open>committed\<close> is a route that commits at its end and rolls back when it raises; an operation that
  commits on its way runs on the durable database next to the view of its session (\<open>within\<close>, \<open>commit\<close>,
  \<open>run_session\<close>). Times are microseconds, money is an integer number of its smallest unit or a scaled
  decimal, Python integers are \<open>int\<close>, IP addresses and masks are words of 32 and 128 bits. What is not
  under \<^verbatim>\<open>src/\<close> (Stripe, the account library, signatures, the shared attestation verifier, the network,
  Redis being up, random draws, the clock) is a parameter: an argument or a record of functions. What the
  proofs rely on about them are named predicates, each met by the instance the witnesses use
  (\<open>AuthState.library_ok\<close>, for instance).

  \<^bold>\<open>The theories, in the order the code composes them.\<close>
  \<^item> \<open>Prelude\<close>: errors (\<^verbatim>\<open>I/errors.py\<close>), handlers, transactions, rows by key, JSON values, triples over
    handlers (collection \<open>wp\<close>), and the locales \<open>step_invariant\<close> and \<open>step_fact\<close>, which carry what single
    steps keep to every reachable state. They are interpreted on the billing books, the keys, the registry,
    the epochs, the payments and the sessions. \<open>Strings\<close>: the string methods of Python the code uses, on
    ASCII. \<open>Calendar\<close>: the civil calendar, \<open>datetime\<close> and \<open>timedelta\<close>.
  \<^item> \<open>Periods\<close> (\<^verbatim>\<open>I/usage.py\<close>, \<^verbatim>\<open>I/key_limits.py\<close>, \<^verbatim>\<open>I/config.py\<close>): usage periods and windows. The locales
    \<open>window_rule\<close> and \<open>stable_window\<close> state what a window promises (it holds its instant, and every
    instant in it has the same window) and are interpreted on each of the five rules of the code.
  \<^item> \<open>Ledger\<close> (\<^verbatim>\<open>I/models.py\<close>): the billing tables; the locale \<open>wallet_store\<close> is the contract of a balance
    that is the sum of its journal. \<open>Plans\<close> and \<open>Catalogue\<close>: plan seeds and prices of both planes.
  \<^item> \<open>KeyLimits\<close>, \<open>Usage\<close> (\<^verbatim>\<open>I/usage.py\<close>): caps, reservation, settlement, release, expiry, recalculation.
    \<open>Accounts\<close>, \<open>UsageRuns\<close>, \<open>Reserve\<close>, \<open>Settle\<close> prove what each does to the books; \<open>UsageProps\<close>
    states it over all sequences. \<open>ApiUsage\<close> (\<^verbatim>\<open>A/usage/service.py\<close>): the copies of these operations in the
    control plane, of which settlement, release and expiry are proved equal, and the usage reports.
  \<^item> \<open>Ip\<close>, \<open>Clients\<close>, \<open>Keys\<close>, \<open>KeySchemas\<close>, \<open>KeyAdmin\<close> (\<^verbatim>\<open>I/client_ip.py\<close>, \<^verbatim>\<open>I/service_clients.py\<close>,
    \<^verbatim>\<open>I/api_keys.py\<close>, \<^verbatim>\<open>A/api_keys/\<close>, \<^verbatim>\<open>A/service_clients/\<close>): client addresses, allowlists, tokens of service
    clients, API keys on both planes. \<open>KeyProps\<close>: the table of keys over every sequence of operations.
  \<^item> \<open>Router\<close>, \<open>RouterProps\<close> (\<^verbatim>\<open>I/router_service.py\<close>, \<^verbatim>\<open>I/router_routes.py\<close>): the plane of subnet routers.
  \<^item> \<open>Miners\<close>, \<open>Selector\<close>, \<open>Provisioner\<close> (\<^verbatim>\<open>I/miners/service.py\<close>, \<^verbatim>\<open>I/routing/selector.py\<close>,
    \<^verbatim>\<open>I/provisioner/\<close>, \<^verbatim>\<open>I/maintenance/tasks.py\<close>): registrations, heartbeats, ranking, attestation and sealing.
    \<open>SelectorProps\<close>, \<open>Registry\<close>, \<open>RegistryProps\<close>: what is offered was verified.
  \<^item> \<open>Forwarder\<close>, \<open>Inference\<close> (\<^verbatim>\<open>I/routing/forwarder.py\<close>, \<^verbatim>\<open>I/stats_recorder.py\<close>, \<^verbatim>\<open>I/product_routes.py\<close>,
    \<^verbatim>\<open>I/mesh.py\<close>): forwarding with failover, streams, settlement. \<open>Reservations\<close>, \<open>InferenceProps\<close>,
    \<open>StreamProps\<close>: what a request leaves in the books, whatever the enclaves answer, negative counts
    included; this is where ledger, selection and attempt records meet.
  \<^item> \<open>EpochStats\<close>, \<open>EpochProps\<close> (\<^verbatim>\<open>I/stats_service.py\<close>, the contract \<^verbatim>\<open>miner_stats.py\<close>) and \<open>Receipts\<close>,
    \<open>ReceiptsProps\<close> (\<^verbatim>\<open>I/miners/receipts.py\<close>, the contract \<^verbatim>\<open>usage.py\<close>): the frozen numbers of an epoch and
    the enclave receipts that corroborate them.
  \<^item> \<open>Referrals\<close>, \<open>Billing\<close>, \<open>BillingProps\<close> (\<^verbatim>\<open>A/referrals/\<close>, \<^verbatim>\<open>A/billing/\<close>): codes, rewards, webhooks.
  \<^item> \<open>Sessions\<close>, \<open>Logins\<close> (\<^verbatim>\<open>A/auth/\<close>, \<^verbatim>\<open>A/users/\<close>, \<^verbatim>\<open>A/wallets/\<close>): access and refresh tokens, passwords,
    codes of phones, signatures of wallets, OAuth. \<open>AuthState\<close>, \<open>AuthSteps\<close>, \<open>AuthOps\<close>, \<open>AuthRoutes\<close>:
    the invariant of the accounts, the order in which their state moves, and a triple per operation.
    \<open>AuthProps\<close>, \<open>LoginProps\<close>: what follows for every sequence of requests.
  \<^item> \<open>Demo\<close>, \<open>RouterDemo\<close>, \<open>InferenceDemo\<close>, \<open>BillingDemo\<close>, \<open>AuthDemo\<close>: concrete databases; each property with
    a hypothesis is applied at one of them.

  \<^bold>\<open>What the lemmas show.\<close> Invariants over all reachable states: the books balance, payments are credited
  once, an offered enclave was verified, a family of refresh tokens has one live token. Functional
  behaviour of every branch of the accounting operations, errors included. Equivalence of the settlement of
  the two planes, of the recalculation with the bookkeeping. Refinement: the rotation of refresh tokens is a
  compare-and-swap on an abstract state. Bounds: caps of keys, wrong guesses of a code, the seconds a
  revocation lasts. Round trips: a created key authenticates; the bytes an enclave signs determine the
  usage head (\<open>ReceiptsProps.signed_head_unambiguous\<close>). And where the code does less than it means to, a
  theorem says so: a settlement that fails after an upgrade and unbalances its period, an epoch that is never
  published, an invoice that is lost, a link signature that logs in, a provider that adopts an account, a token
  revoked before an outage, guesses in parallel, a rotation in flight while the password changes.

  \<^bold>\<open>Interleaving.\<close> Handlers are atomic except where the code is written for concurrency: the two halves of
  a rotation may have anything between them, the accounting operations run in any order, and a stream
  settles after its request. For the accounting operations this is what the row locks of the code
  (\<^verbatim>\<open>with_for_update\<close> on the period and the wallet) give. Elsewhere it is an assumption, and two places where
  the code takes no lock are known to break it: the guesses of a code of a phone
  (\<open>LoginProps.parallel_guess_not_counted\<close>) and the delayed commit of a rotation
  (\<open>LoginProps.inflight_rotation_survives\<close>). Within one inference request nothing else runs between the
  reservation and the settlement; what other requests may do in between is the subject of the sequences of
  accounting operations, where a settlement after an upgrade of the plan fails and unbalances the period
  (\<open>UsageProps.crashed_settlement_unbalances\<close>). The sequences of \<open>UsageProps.books_stay_balanced\<close> leave that
  settlement out, and settlements with a negative total.

  \<^bold>\<open>Bounds and fuel.\<close> No model runs on fuel. Loops are recursion on the data they walk; the walk over the
  epochs and the search for a year are functions with a measure.

  \<^bold>\<open>Assumptions of the model.\<close> A query without an order answers in insertion order. \<open>begin_nested\<close> is a
  savepoint as its comments in the code describe it. Identifiers are drawn fresh. Texts are ASCII where the
  code changes their case. Logs, audit rows, metrics and the texts of messages are left out.

  \<^bold>\<open>Not modelled.\<close> The sealed relay of \<^verbatim>\<open>I/e2ee_routes.py\<close> and the second half of
  \<^verbatim>\<open>I/routing/forwarder.py\<close>, which pass ciphertext through; \<^verbatim>\<open>I/ht_indexer.py\<close>, \<^verbatim>\<open>I/chain.py\<close> and
  \<^verbatim>\<open>A/blockchain\<close>, which read chains through their clients; the admin console \<^verbatim>\<open>A/admin\<close>, which lists
  and edits the tables modelled here; start-up, configuration, database and Redis plumbing, mail and SMS
  providers; the web interface, deployment scripts, migrations and tests; and the vendored contracts other
  than the parts named above.
\<close>

end
